(* ===== verification/Prelude.thy ===== *)
theory Prelude
  imports Main "HOL-Library.Word" "HOL-Library.Sublist"
begin

text \<open>
  Shared vocabulary of the development: bytes and byte slices, the searches of Go's
  \<^verbatim>\<open>bytes\<close> package that the sources call, the 64-bit \<^verbatim>\<open>int\<close>, and slices whose backing
  array is longer than their length. Nothing here models a file of the repository; the
  definitions say what the language and its standard library do where the sources rely on it.

  Conventions used by every component theory:
  \<^item> a \<^verbatim>\<open>byte\<close> is an 8-bit word and a \<^verbatim>\<open>[]byte\<close> or \<^verbatim>\<open>string\<close> is the list of its bytes;
    \<^verbatim>\<open>append(x[:0], y...)\<close> stores the value \<open>y\<close>;
  \<^item> a search that returns \<open>-1\<close> in Go returns \<open>None\<close> here, and an index is a \<open>nat\<close>;
  \<^item> an operation that can panic returns an \<open>option\<close>, with \<open>None\<close> for the panic;
  \<^item> \<^verbatim>\<open>(v, err)\<close> pairs are pairs whose last part is an \<open>option\<close> of the error.
\<close>

unbundle bit_operations_syntax

named_theorems str_defs \<open>definitions of the byte-string constants of strings.go\<close>
named_theorems slice_simps \<open>what the slice operations do to the visible elements\<close>


section \<open>Bytes\<close>

type_synonym byte = "8 word"
type_synonym bytes = "byte list"

definition bytes_of :: "string \<Rightarrow> bytes" where
  "bytes_of s = map of_char s"

abbreviation ch :: "char \<Rightarrow> byte" where
  "ch c \<equiv> of_char c"

abbreviation rChar :: byte where
  "rChar \<equiv> 13"

abbreviation nChar :: byte where
  "nChar \<equiv> 10"

lemma bytes_of_simps [simp]:
  "bytes_of [] = []"
  "bytes_of (c # s) = ch c # bytes_of s"
  by (simp_all add: bytes_of_def)


section \<open>Searching slices\<close>

text \<open>\<^verbatim>\<open>bytes.IndexByte\<close>: the index of the first occurrence.\<close>

fun IndexByte :: "'a list \<Rightarrow> 'a \<Rightarrow> nat option" where
  "IndexByte [] c = None"
| "IndexByte (x # xs) c = (if x = c then Some 0 else map_option Suc (IndexByte xs c))"

text \<open>\<^verbatim>\<open>bytes.LastIndexByte\<close>: the index of the last occurrence.\<close>

fun LastIndexByte :: "'a list \<Rightarrow> 'a \<Rightarrow> nat option" where
  "LastIndexByte [] c = None"
| "LastIndexByte (x # xs) c =
     (case LastIndexByte xs c of
        Some n \<Rightarrow> Some (Suc n)
      | None \<Rightarrow> if x = c then Some 0 else None)"

text \<open>\<^verbatim>\<open>bytes.Index\<close> and \<^verbatim>\<open>bytes.LastIndex\<close>: the same for a subslice.\<close>

fun Index :: "'a list \<Rightarrow> 'a list \<Rightarrow> nat option" where
  "Index [] sep = (if sep = [] then Some 0 else None)"
| "Index (x # xs) sep =
     (if prefix sep (x # xs) then Some 0 else map_option Suc (Index xs sep))"

fun LastIndex :: "'a list \<Rightarrow> 'a list \<Rightarrow> nat option" where
  "LastIndex [] sep = (if sep = [] then Some 0 else None)"
| "LastIndex (x # xs) sep =
     (case LastIndex xs sep of
        Some n \<Rightarrow> Some (Suc n)
      | None \<Rightarrow> if prefix sep (x # xs) then Some 0 else None)"

lemma IndexByte_None [simp]: "IndexByte xs c = None \<longleftrightarrow> c \<notin> set xs"
  by (induction xs) auto

lemma IndexByte_append [simp]: "c \<notin> set xs \<Longrightarrow> IndexByte (xs @ c # ys) c = Some (length xs)"
  by (induction xs) auto

lemma IndexByte_Some:
  "IndexByte xs c = Some n \<Longrightarrow>
     n < length xs \<and> xs ! n = c \<and> c \<notin> set (take n xs) \<and> xs = take n xs @ c # drop (Suc n) xs"
  by (induction xs arbitrary: n) (auto split: if_splits)

lemma IndexByte_SomeE:
  assumes "IndexByte xs c = Some n"
  obtains ys zs where "xs = ys @ c # zs" and "c \<notin> set ys" and "n = length ys"
proof (rule that)
  note IndexByte_Some [OF assms]
  then show "xs = take n xs @ c # drop (Suc n) xs" and "c \<notin> set (take n xs)"
    and "n = length (take n xs)"
    by auto
qed

lemma IndexByte_takeWhile:
  "IndexByte xs c = (if c \<in> set xs then Some (length (takeWhile (\<lambda>x. x \<noteq> c) xs)) else None)"
  by (induction xs) auto

lemma LastIndexByte_None [simp]: "LastIndexByte xs c = None \<longleftrightarrow> c \<notin> set xs"
  by (induction xs) (auto split: option.splits)

lemma LastIndexByte_append [simp]:
  "c \<notin> set ys \<Longrightarrow> LastIndexByte (xs @ c # ys) c = Some (length xs)"
  by (induction xs) (auto split: option.splits)

lemma LastIndexByte_SomeE:
  assumes "LastIndexByte xs c = Some n"
  obtains ys zs where "xs = ys @ c # zs" and "c \<notin> set zs" and "n = length ys"
proof -
  from assms have "c \<in> set xs"
    by (metis LastIndexByte_None option.distinct(1))
  then obtain ys zs where "xs = ys @ c # zs" "c \<notin> set zs"
    by (meson split_list_last)
  with assms that show thesis by simp
qed

lemma Index_None [simp]: "Index s sep = None \<longleftrightarrow> \<not> sublist sep s"
  by (induction s) (auto simp: sublist_Cons_right)

lemma Index_Some:
  "Index s sep = Some n \<Longrightarrow> \<exists>ys zs. s = ys @ sep @ zs \<and> length ys = n"
proof (induction s arbitrary: n)
  case Nil
  then show ?case by (auto split: if_splits)
next
  case (Cons x s)
  show ?case
  proof (cases "prefix sep (x # s)")
    case True
    with Cons.prems have "n = 0" by simp
    with True show ?thesis by (auto simp: prefix_def)
  next
    case False
    with Cons.prems obtain m where "Index s sep = Some m" "n = Suc m" by auto
    with Cons.IH obtain ys zs where "s = ys @ sep @ zs" "length ys = m" by blast
    with \<open>n = Suc m\<close> show ?thesis by (intro exI [of _ "x # ys"] exI [of _ zs]) simp
  qed
qed

lemma Index_SomeE:
  assumes "Index s sep = Some n"
  obtains ys zs where "s = ys @ sep @ zs" and "n = length ys"
  using Index_Some [OF assms] by blast

text \<open>The match found is the first one: no match starts earlier.\<close>

lemma Index_first:
  "Index s sep = Some n \<Longrightarrow> m < n \<Longrightarrow> \<not> prefix sep (drop m s)"
proof (induction s arbitrary: n m)
  case Nil
  then show ?case by (auto split: if_splits)
next
  case (Cons x s)
  then show ?case by (cases m) (auto split: if_splits)
qed

lemma LastIndex_None [simp]: "LastIndex s sep = None \<longleftrightarrow> \<not> sublist sep s"
  by (induction s) (auto simp: sublist_Cons_right split: option.splits)

lemma LastIndex_suffix:
  "sep \<noteq> [] \<Longrightarrow> suffix sep s \<Longrightarrow> LastIndex s sep = Some (length s - length sep)"
proof (induction s)
  case Nil
  then show ?case by simp
next
  case (Cons x s)
  show ?case
  proof (cases "suffix sep s")
    case True
    then have "length sep \<le> length s" by (rule suffix_length_le)
    with Cons True show ?thesis by (simp add: Suc_diff_le)
  next
    case False
    with Cons.prems have eq: "sep = x # s" by (auto simp: suffix_Cons)
    have "LastIndex s (x # s) = None"
      by (metis LastIndex_None eq sublist_length_le length_Cons not_less_eq_eq order_refl)
    with eq show ?thesis by (simp del: LastIndex_None)
  qed
qed

lemma LastIndex_Some_prefix:
  "LastIndex s sep = Some n \<Longrightarrow> prefix sep (drop n s) \<and> n \<le> length s"
proof (induction s arbitrary: n)
  case Nil
  then show ?case by (auto split: if_splits)
next
  case (Cons x s)
  then show ?case by (auto split: option.splits if_splits)
qed


section \<open>The 64-bit int\<close>

text \<open>
  Go's \<^verbatim>\<open>int\<close> is 64 bits wide on the platforms the 64-bit build tags name. A value is an
  \<open>int\<close> of HOL in the signed range; \<open>wrap64\<close> is what the hardware keeps of a result.
\<close>

definition wrap64 :: "int \<Rightarrow> int" where
  "wrap64 x = (x + 2 ^ 63) mod 2 ^ 64 - 2 ^ 63"

definition is_int64 :: "int \<Rightarrow> bool" where
  "is_int64 x \<longleftrightarrow> - (2 ^ 63) \<le> x \<and> x < 2 ^ 63"

lemma wrap64_id: "is_int64 x \<Longrightarrow> wrap64 x = x"
  by (simp add: wrap64_def is_int64_def)

lemma wrap64_range: "is_int64 (wrap64 x)"
  by (simp add: wrap64_def is_int64_def)


section \<open>Slices with spare capacity\<close>

text \<open>
  A slice sees the first \<open>len\<close> elements of its backing array; the rest of the array, up to
  the capacity, keeps whatever was stored there. Code that re-extends a slice (\<^verbatim>\<open>h[:n+1]\<close>)
  sees those old elements again, so a slice is modelled by both parts. \<open>slice_append\<close> is
  \<^verbatim>\<open>append\<close> of one element: in place when there is room, else in a new array.
\<close>

record 'a slice =
  live :: "'a list"
  spare :: "'a list"

definition slice_empty :: "'a slice" where
  "slice_empty = \<lparr>live = [], spare = []\<rparr>"

definition slice_cap :: "'a slice \<Rightarrow> nat" where
  "slice_cap h = length (live h) + length (spare h)"

text \<open>\<^verbatim>\<open>h[:0]\<close>\<close>

definition slice_reset :: "'a slice \<Rightarrow> 'a slice" where
  "slice_reset h = \<lparr>live = [], spare = live h @ spare h\<rparr>"

text \<open>\<^verbatim>\<open>append(h, x)\<close>\<close>

definition slice_append :: "'a slice \<Rightarrow> 'a \<Rightarrow> 'a slice" where
  "slice_append h x = \<lparr>live = live h @ [x], spare = tl (spare h)\<rparr>"

text \<open>\<^verbatim>\<open>h[i].f = v\<close> for a visible element\<close>

definition slice_update :: "'a slice \<Rightarrow> nat \<Rightarrow> ('a \<Rightarrow> 'a) \<Rightarrow> 'a slice" where
  "slice_update h i f = h\<lparr>live := (live h)[i := f (live h ! i)]\<rparr>"

lemma slice_live_simps [simp, slice_simps]:
  "live slice_empty = []"
  "live (slice_reset h) = []"
  "live (slice_append h x) = live h @ [x]"
  by (simp_all add: slice_empty_def slice_reset_def slice_append_def)

lemma live_slice_update [slice_simps]:
  "live (slice_update h i f) = (live h)[i := f (live h ! i)]"
  by (simp add: slice_update_def)


section \<open>Lists split by a separator\<close>

text \<open>
  \<open>split_on c xs\<close> cuts \<open>xs\<close> at every \<open>c\<close>, the reference for the scanners that walk a byte
  string separator by separator.
\<close>

fun split_on :: "'a \<Rightarrow> 'a list \<Rightarrow> 'a list list" where
  "split_on c [] = [[]]"
| "split_on c (x # xs) =
     (if x = c then [] # split_on c xs
      else case split_on c xs of y # ys \<Rightarrow> (x # y) # ys | [] \<Rightarrow> [[x]])"

lemma split_on_nonempty [simp]: "split_on c xs \<noteq> []"
  by (induction xs) (auto split: list.splits)

lemma split_on_no_sep: "c \<notin> set xs \<Longrightarrow> split_on c xs = [xs]"
  by (induction xs) auto

lemma split_on_append: "c \<notin> set xs \<Longrightarrow> split_on c (xs @ c # ys) = xs # split_on c ys"
  by (induction xs) auto

lemma split_on_pieces: "y \<in> set (split_on c xs) \<Longrightarrow> c \<notin> set y \<and> set y \<subseteq> set xs"
proof (induction xs arbitrary: y)
  case Nil
  then show ?case by simp
next
  case (Cons x xs)
  obtain p ps where p: "split_on c xs = p # ps"
    by (cases "split_on c xs") auto
  then have "c \<notin> set p" "set p \<subseteq> set xs" using Cons.IH by auto
  with p Cons show ?case by (cases "x = c") fastforce+
qed

fun join_with :: "'a \<Rightarrow> 'a list list \<Rightarrow> 'a list" where
  "join_with c [] = []"
| "join_with c [x] = x"
| "join_with c (x # y # ys) = x @ c # join_with c (y # ys)"

lemma split_on_join_with:
  "xs \<noteq> [] \<Longrightarrow> \<forall>x \<in> set xs. c \<notin> set x \<Longrightarrow> split_on c (join_with c xs) = xs"
  by (induction c xs rule: join_with.induct) (auto simp: split_on_no_sep split_on_append)

lemma join_with_split_on: "join_with c (split_on c xs) = xs"
proof (induction xs)
  case Nil
  then show ?case by simp
next
  case (Cons x xs)
  obtain p ps where p: "split_on c xs = p # ps"
    by (cases "split_on c xs") auto
  with Cons show ?case by (cases ps) auto
qed



text \<open>
  Items of a separated list, as a scanner sees them: the pieces between separators, except that
  an empty piece after the last separator is not an item.
\<close>

definition sep_item :: "'a \<Rightarrow> ('a list \<Rightarrow> 'i) \<Rightarrow> 'a list \<Rightarrow> ('i \<times> 'a list) option" where
  "sep_item c f b =
     (if b = [] then None
      else let seg = takeWhile (\<lambda>x. x \<noteq> c) b in Some (f seg, drop (Suc (length seg)) b))"

fun sep_items_of :: "('a list \<Rightarrow> 'i) \<Rightarrow> 'a list list \<Rightarrow> 'i list" where
  "sep_items_of f [] = []"
| "sep_items_of f [seg] = (if seg = [] then [] else [f seg])"
| "sep_items_of f (seg # segs) = f seg # sep_items_of f segs"

definition sep_items :: "'a \<Rightarrow> ('a list \<Rightarrow> 'i) \<Rightarrow> 'a list \<Rightarrow> 'i list" where
  "sep_items c f b = sep_items_of f (split_on c b)"

lemma sep_item_shrinks: "sep_item c f b = Some (x, b') \<Longrightarrow> length b' < length b"
  by (cases b) (auto simp: sep_item_def Let_def split: if_splits)

lemma sep_items_unfold:
  "sep_items c f b = (case sep_item c f b of None \<Rightarrow> [] | Some (x, b') \<Rightarrow> x # sep_items c f b')"
proof (cases "c \<in> set b")
  case True
  then obtain xs ys where b: "b = xs @ c # ys" "c \<notin> set xs"
    by (meson split_list_first)
  moreover from b(2) have "takeWhile (\<lambda>x. x \<noteq> c) (xs @ c # ys) = xs"
    by (subst takeWhile_append2) auto
  moreover obtain p ps where "split_on c ys = p # ps"
    by (cases "split_on c ys") auto
  ultimately show ?thesis
    using split_on_append [OF b(2), of ys] by (simp add: sep_items_def sep_item_def Let_def)
next
  case False
  moreover from this have "takeWhile (\<lambda>x. x \<noteq> c) b = b"
    unfolding takeWhile_eq_all_conv by metis
  ultimately show ?thesis
    by (simp add: sep_items_def sep_item_def Let_def split_on_no_sep del: takeWhile_eq_all_conv)
qed

lemma filter_sep_items:
  "\<not> P (f []) \<Longrightarrow> filter P (sep_items c f b) = filter P (map f (split_on c b))"
proof -
  assume "\<not> P (f [])"
  then have "filter P (sep_items_of f segs) = filter P (map f segs)" for segs
    by (induction f segs rule: sep_items_of.induct) auto
  then show ?thesis by (simp add: sep_items_def)
qed


section \<open>Trimming\<close>

definition trim_left :: "'a \<Rightarrow> 'a list \<Rightarrow> 'a list" where
  "trim_left c xs = dropWhile (\<lambda>x. x = c) xs"

definition trim_right :: "'a \<Rightarrow> 'a list \<Rightarrow> 'a list" where
  "trim_right c xs = rev (dropWhile (\<lambda>x. x = c) (rev xs))"

lemma trim_left_id: "xs = [] \<or> hd xs \<noteq> c \<Longrightarrow> trim_left c xs = xs"
  by (cases xs) (auto simp: trim_left_def)

lemma trim_right_id: "xs = [] \<or> last xs \<noteq> c \<Longrightarrow> trim_right c xs = xs"
  by (cases xs rule: rev_cases) (auto simp: trim_right_def)

lemma trim_right_snoc [simp]:
  "trim_right c (xs @ [x]) = (if x = c then trim_right c xs else xs @ [x])"
  by (simp add: trim_right_def)

lemma trim_left_Cons [simp]:
  "trim_left c (x # xs) = (if x = c then trim_left c xs else x # xs)"
  by (simp add: trim_left_def)

lemma trim_Nil [simp]: "trim_left c [] = []" "trim_right c [] = []"
  by (simp_all add: trim_left_def trim_right_def)

end
