(* ===== verification/Interfaces.thy ===== *)
theory Interfaces
  imports Prelude
begin

text \<open>
  The contracts that several components share, as locales: what an encoder and its decoder
  promise each other, what a key-value store promises about lookups after updates, what a
  scanner loop does with the items of a byte string, and what an invariant gives for every
  reachable state of a component driven by events. Each is interpreted on the model's own
  definitions in the theory of the component that provides them.
\<close>


section \<open>Encoders and decoders\<close>

text \<open>
  \<open>enc\<close> appends nothing and reads no state: it gives the bytes of a value. The law is the
  round trip on the values the encoder accepts.
\<close>

locale codec =
  fixes enc :: "'a \<Rightarrow> 'b"
    and dec :: "'b \<Rightarrow> 'a option"
    and ok :: "'a \<Rightarrow> bool"
  assumes dec_enc: "ok x \<Longrightarrow> dec (enc x) = Some x"
begin

lemma enc_injective: "ok x \<Longrightarrow> ok y \<Longrightarrow> enc x = enc y \<longleftrightarrow> x = y"
  by (metis dec_enc option.inject)

lemma enc_inj_on: "inj_on enc {x. ok x}"
  by (auto simp: inj_on_def enc_injective)

lemma dec_enc_list: "(\<And>x. x \<in> set xs \<Longrightarrow> ok x) \<Longrightarrow> map dec (map enc xs) = map Some xs"
  by (induction xs) (auto simp: dec_enc)

end


section \<open>Key-value stores\<close>

text \<open>
  The stores of the program are lists with repeated keys: a lookup returns the first entry,
  an update rewrites the first entry or appends one, a deletion removes every entry.
\<close>

locale kv_store =
  fixes lookup :: "'m \<Rightarrow> 'k \<Rightarrow> 'v option"
    and update :: "'m \<Rightarrow> 'k \<Rightarrow> 'v \<Rightarrow> 'm"
    and clear :: "'m \<Rightarrow> 'm"
  assumes lookup_update: "lookup (update m k v) k' = (if k' = k then Some v else lookup m k')"
    and lookup_clear: "lookup (clear m) k = None"
begin

lemma lookup_update_same: "lookup (update m k v) k = Some v"
  by (simp add: lookup_update)

lemma lookup_update_other: "k' \<noteq> k \<Longrightarrow> lookup (update m k v) k' = lookup m k'"
  by (simp add: lookup_update)

lemma update_overwrites: "lookup (update (update m k v) k w) = lookup (update m k w)"
  by (rule ext) (simp add: lookup_update)

lemma update_commutes:
  "k \<noteq> k' \<Longrightarrow> lookup (update (update m k v) k' w) = lookup (update (update m k' w) k v)"
  by (rule ext) (simp add: lookup_update)

lemma update_after_clear: "lookup (update (clear m) k v) = [k \<mapsto> v]"
  by (rule ext) (simp add: lookup_update lookup_clear)

text \<open>A run of updates leaves the lookup of the map built from the same pairs.\<close>

lemma lookup_updates:
  "lookup (foldl (\<lambda>m (k, v). update m k v) m kvs) k =
     (case map_of (rev kvs) k of Some v \<Rightarrow> Some v | None \<Rightarrow> lookup m k)"
  by (induction kvs arbitrary: m) (auto simp: lookup_update map_add_def split: option.splits)

end

locale kv_store_del = kv_store +
  fixes delete :: "'m \<Rightarrow> 'k \<Rightarrow> 'm"
  assumes lookup_delete: "lookup (delete m k) k' = (if k' = k then None else lookup m k')"
begin

lemma delete_removes: "lookup (delete m k) k = None"
  by (simp add: lookup_delete)

lemma delete_after_update: "lookup (delete (update m k v) k) = lookup (delete m k)"
  by (rule ext) (simp add: lookup_delete lookup_update)

lemma update_after_delete: "lookup (update (delete m k) k v) = lookup (update m k v)"
  by (rule ext) (simp add: lookup_delete lookup_update)

lemma delete_idem: "lookup (delete (delete m k) k) = lookup (delete m k)"
  by (rule ext) (simp add: lookup_delete)

end


section \<open>Scanner loops\<close>

text \<open>
  The scanners return one item and the rest of the input until nothing is left. \<open>items\<close> is
  the list a loop over the scanner sees; the law that every step shortens the input is what
  makes each of those loops end.
\<close>

locale scanner =
  fixes scan :: "'a list \<Rightarrow> ('i \<times> 'a list) option"
    and items :: "'a list \<Rightarrow> 'i list"
  assumes scan_shrinks: "scan b = Some (x, b') \<Longrightarrow> length b' < length b"
    and items_unfold:
      "items b = (case scan b of None \<Rightarrow> [] | Some (x, b') \<Rightarrow> x # items b')"
begin

lemma items_None: "scan b = None \<Longrightarrow> items b = []"
  by (subst items_unfold) simp

lemma items_Some: "scan b = Some (x, b') \<Longrightarrow> items b = x # items b'"
  by (subst items_unfold) simp

lemma items_induct [case_names stop step]:
  assumes "\<And>b. scan b = None \<Longrightarrow> P b"
    and "\<And>b x b'. scan b = Some (x, b') \<Longrightarrow> P b' \<Longrightarrow> P b"
  shows "P b"
proof (induction b rule: length_induct)
  case (1 b)
  show ?case
  proof (cases "scan b")
    case None
    then show ?thesis by (rule assms(1))
  next
    case (Some p)
    then obtain x b' where p: "scan b = Some (x, b')" by (cases p) auto
    with 1 show ?thesis by (blast intro: assms(2) scan_shrinks)
  qed
qed

lemma items_bounded: "length (items b) \<le> length b"
proof (induction b rule: items_induct)
  case (stop b)
  then show ?case by (simp add: items_None)
next
  case (step b x b')
  from scan_shrinks [OF step(1)] step(2) show ?case by (simp add: items_Some [OF step(1)])
qed

text \<open>Two loops over the same scanner see the same items.\<close>

lemma items_unique:
  assumes "\<And>b. items' b = (case scan b of None \<Rightarrow> [] | Some (x, b') \<Rightarrow> x # items' b')"
  shows "items' b = items b"
proof (induction b rule: items_induct)
  case (stop b)
  then show ?case by (subst assms) (simp add: items_None)
next
  case (step b x b')
  then show ?case by (subst assms) (simp add: items_Some)
qed

end


section \<open>Event-driven components\<close>

text \<open>
  A component whose operations run one at a time (under its mutex, or as atomic updates) is a
  relation between states. The invariant rule is proved once here.
\<close>

inductive reachable :: "('s \<Rightarrow> bool) \<Rightarrow> ('s \<Rightarrow> 'e \<Rightarrow> 's \<Rightarrow> bool) \<Rightarrow> 's \<Rightarrow> bool"
  for start :: "'s \<Rightarrow> bool" and step :: "'s \<Rightarrow> 'e \<Rightarrow> 's \<Rightarrow> bool" where
  reach_start: "start s \<Longrightarrow> reachable start step s"
| reach_step: "reachable start step s \<Longrightarrow> step s e t \<Longrightarrow> reachable start step t"

locale event_system =
  fixes start :: "'s \<Rightarrow> bool"
    and step :: "'s \<Rightarrow> 'e \<Rightarrow> 's \<Rightarrow> bool"
    and inv :: "'s \<Rightarrow> bool"
  assumes inv_start: "start s \<Longrightarrow> inv s"
    and inv_step: "inv s \<Longrightarrow> step s e t \<Longrightarrow> inv t"
begin

lemma reachable_inv: "reachable start step s \<Longrightarrow> inv s"
  by (induction rule: reachable.induct) (blast intro: inv_start inv_step)+

end

end
