(* ===== verification/UserData.thy ===== *)
theory UserData
  imports Interfaces
begin

text \<open>
  \<^verbatim>\<open>userdata.go\<close>: the values a request context carries under byte-string keys, a slice searched
  from the front. A value has the type \<open>'v\<close> of \<^verbatim>\<open>interface{}\<close>; \<open>None\<close> is the \<^verbatim>\<open>nil\<close> of a missing
  key. \<open>Reset\<close> closes the values that are an \<^verbatim>\<open>io.Closer\<close>; which ones are is an argument.
\<close>

record 'v userDataKV =
  ud_key :: bytes
  ud_value :: 'v

fun userData_find :: "'v userDataKV list \<Rightarrow> bytes \<Rightarrow> nat option" where
  "userData_find [] key = None"
| "userData_find (kv # args) key =
     (if ud_key kv = key then Some 0 else map_option Suc (userData_find args key))"

definition userData_Set :: "'v userDataKV slice \<Rightarrow> bytes \<Rightarrow> 'v \<Rightarrow> 'v userDataKV slice" where
  "userData_Set d key value =
     (case userData_find (live d) key of
        Some i \<Rightarrow> slice_update d i (\<lambda>kv. kv\<lparr>ud_value := value\<rparr>)
      | None \<Rightarrow>
          (case spare d of
             kv # rest \<Rightarrow> \<lparr>live = live d @ [kv\<lparr>ud_key := key, ud_value := value\<rparr>], spare = rest\<rparr>
           | [] \<Rightarrow> slice_append d \<lparr>ud_key = key, ud_value = value\<rparr>))"

definition userData_Get :: "'v userDataKV slice \<Rightarrow> bytes \<Rightarrow> 'v option" where
  "userData_Get d key = map_option (\<lambda>i. ud_value (live d ! i)) (userData_find (live d) key)"

text \<open>The values \<open>Reset\<close> closes, in order, and the emptied slice.\<close>

definition userData_Reset :: "('v \<Rightarrow> bool) \<Rightarrow> 'v userDataKV slice \<Rightarrow> 'v list \<times> 'v userDataKV slice" where
  "userData_Reset isCloser d = (filter isCloser (map ud_value (live d)), slice_reset d)"


section \<open>Lemmas\<close>

fun ud_lookup :: "'v userDataKV list \<Rightarrow> bytes \<Rightarrow> 'v option" where
  "ud_lookup [] key = None"
| "ud_lookup (kv # args) key = (if ud_key kv = key then Some (ud_value kv) else ud_lookup args key)"

lemma Get_lookup: "userData_Get d key = ud_lookup (live d) key"
proof -
  have "map_option (\<lambda>i. ud_value (xs ! i)) (userData_find xs key) = ud_lookup xs key"
    for xs :: "'a userDataKV list"
    by (induction xs) (auto simp: option.map_comp comp_def)
  then show ?thesis by (simp add: userData_Get_def)
qed

lemma find_Some: "userData_find xs key = Some i \<Longrightarrow> i < length xs \<and> ud_key (xs ! i) = key"
  by (induction xs arbitrary: i) (auto split: if_splits)

lemma lookup_replace:
  "userData_find xs key = Some i \<Longrightarrow>
     ud_lookup (xs[i := (xs ! i)\<lparr>ud_value := v\<rparr>]) k = (if k = key then Some v else ud_lookup xs k)"
  by (induction xs arbitrary: i) (auto split: if_splits)

lemma lookup_snoc: "userData_find xs key = None \<Longrightarrow>
    ud_lookup (xs @ [\<lparr>ud_key = key, ud_value = v\<rparr>]) k = (if k = key then Some v else ud_lookup xs k)"
  by (induction xs) (auto split: if_splits)

lemma live_Set_new:
  "userData_find (live d) key = None \<Longrightarrow> live (userData_Set d key v) = live d @ [\<lparr>ud_key = key, ud_value = v\<rparr>]"
  by (cases "spare d") (simp_all add: userData_Set_def slice_append_def)

lemma Get_Set: "userData_Get (userData_Set d key v) k = (if k = key then Some v else userData_Get d k)"
proof (cases "userData_find (live d) key")
  case None
  then show ?thesis by (simp add: Get_lookup live_Set_new lookup_snoc)
next
  case (Some i)
  then show ?thesis
    by (simp add: Get_lookup userData_Set_def live_slice_update lookup_replace)
qed

interpretation user_values: kv_store userData_Get userData_Set "\<lambda>d. snd (userData_Reset c d)" for c
  by unfold_locales (simp add: Get_Set, simp add: Get_lookup userData_Reset_def)

text \<open>A key occurs once, however often it is set.\<close>

lemma find_None: "userData_find xs key = None \<longleftrightarrow> key \<notin> ud_key ` set xs"
  by (induction xs) auto

lemma Set_distinct:
  assumes "distinct (map ud_key (live d))"
  shows "distinct (map ud_key (live (userData_Set d key v)))"
proof (cases "userData_find (live d) key")
  case None
  then show ?thesis using assms by (auto simp: live_Set_new find_None)
next
  case (Some i)
  then have "map ud_key ((live d)[i := (live d ! i)\<lparr>ud_value := v\<rparr>]) = map ud_key (live d)"
    by (metis find_Some list_update_id map_update userDataKV.select_convs(1) userDataKV.surjective userDataKV.update_convs(2))
  with Some assms show ?thesis by (simp add: userData_Set_def live_slice_update)
qed

definition userData_run :: "'v userDataKV slice \<Rightarrow> (bytes \<times> 'v) list \<Rightarrow> 'v userDataKV slice" where
  "userData_run d kvs = foldl (\<lambda>d (k, v). userData_Set d k v) d kvs"

lemma run_distinct: "distinct (map ud_key (live d)) \<Longrightarrow> distinct (map ud_key (live (userData_run d kvs)))"
  unfolding userData_run_def by (induction kvs arbitrary: d) (auto simp: Set_distinct)


section \<open>Properties\<close>

text \<open>
  The values of a request context form a map: after any sequence of \<open>Set\<close> on a fresh or
  reset context, \<open>Get\<close> returns the value set last under a key and \<^verbatim>\<open>nil\<close> under every other key;
  each key occupies one entry, and \<open>Reset\<close> closes exactly the closers among the current values
  and leaves no entry, even though the entries stay in the backing array.
\<close>

theorem userData_map:
  "userData_Get (userData_run (snd (userData_Reset isCloser d)) kvs) k = map_of (rev kvs) k
   \<and> distinct (map ud_key (live (userData_run (snd (userData_Reset isCloser d)) kvs)))
   \<and> set (fst (userData_Reset isCloser (userData_run (snd (userData_Reset isCloser d)) kvs)))
       = {v. isCloser v \<and> (\<exists>k. map_of (rev kvs) k = Some v)}"
proof -
  let ?d = "userData_run (snd (userData_Reset isCloser d)) kvs"
  have get: "userData_Get ?d k = map_of (rev kvs) k" for k
    unfolding userData_run_def user_values.lookup_updates
    by (simp add: user_values.lookup_clear split: option.split)
  have dist: "distinct (map ud_key (live ?d))"
    by (rule run_distinct) (simp add: userData_Reset_def)
  have "v \<in> ud_value ` set xs \<longleftrightarrow> (\<exists>k. ud_lookup xs k = Some v)" if "distinct (map ud_key xs)"
    for v and xs :: "'a userDataKV list"
    using that
  proof (induction xs)
    case (Cons kv xs)
    have "ud_lookup xs (ud_key kv) = None"
      using Cons.prems by (induction xs) auto
    with Cons show ?case by (auto, metis option.distinct(1))
  qed simp
  with dist have "v \<in> ud_value ` set (live ?d) \<longleftrightarrow> (\<exists>k. map_of (rev kvs) k = Some v)" for v
    by (simp add: get [symmetric] Get_lookup)
  then show ?thesis using get dist by (auto simp: userData_Reset_def)
qed

end
