(* ===== verification/Strings.thy ===== *)
theory Strings
  imports Prelude
begin

text \<open>
  The byte-string constants of \<^verbatim>\<open>strings.go\<close> and the header and method names of
  \<^verbatim>\<open>headers.go\<close> and \<^verbatim>\<open>methods.go\<close> that the modelled code uses, under their own names.
  Every one is in the collection \<open>str_defs\<close>.
\<close>


section \<open>Header and method names\<close>

definition MethodGet :: bytes where [str_defs]:
  "MethodGet = bytes_of ''GET''"

definition MethodHead :: bytes where [str_defs]:
  "MethodHead = bytes_of ''HEAD''"

definition MethodPost :: bytes where [str_defs]:
  "MethodPost = bytes_of ''POST''"

definition MethodPut :: bytes where [str_defs]:
  "MethodPut = bytes_of ''PUT''"

definition MethodDelete :: bytes where [str_defs]:
  "MethodDelete = bytes_of ''DELETE''"

definition MethodConnect :: bytes where [str_defs]:
  "MethodConnect = bytes_of ''CONNECT''"

definition MethodOptions :: bytes where [str_defs]:
  "MethodOptions = bytes_of ''OPTIONS''"

definition MethodTrace :: bytes where [str_defs]:
  "MethodTrace = bytes_of ''TRACE''"

definition MethodPatch :: bytes where [str_defs]:
  "MethodPatch = bytes_of ''PATCH''"

definition HeaderExpect :: bytes where [str_defs]:
  "HeaderExpect = bytes_of ''Expect''"

definition HeaderConnection :: bytes where [str_defs]:
  "HeaderConnection = bytes_of ''Connection''"

definition HeaderContentLength :: bytes where [str_defs]:
  "HeaderContentLength = bytes_of ''Content-Length''"

definition HeaderContentType :: bytes where [str_defs]:
  "HeaderContentType = bytes_of ''Content-Type''"

definition HeaderDate :: bytes where [str_defs]:
  "HeaderDate = bytes_of ''Date''"

definition HeaderHost :: bytes where [str_defs]:
  "HeaderHost = bytes_of ''Host''"

definition HeaderReferer :: bytes where [str_defs]:
  "HeaderReferer = bytes_of ''Referer''"

definition HeaderServer :: bytes where [str_defs]:
  "HeaderServer = bytes_of ''Server''"

definition HeaderTransferEncoding :: bytes where [str_defs]:
  "HeaderTransferEncoding = bytes_of ''Transfer-Encoding''"

definition HeaderContentEncoding :: bytes where [str_defs]:
  "HeaderContentEncoding = bytes_of ''Content-Encoding''"

definition HeaderAcceptEncoding :: bytes where [str_defs]:
  "HeaderAcceptEncoding = bytes_of ''Accept-Encoding''"

definition HeaderUserAgent :: bytes where [str_defs]:
  "HeaderUserAgent = bytes_of ''User-Agent''"

definition HeaderCookie :: bytes where [str_defs]:
  "HeaderCookie = bytes_of ''Cookie''"

definition HeaderSetCookie :: bytes where [str_defs]:
  "HeaderSetCookie = bytes_of ''Set-Cookie''"

definition HeaderLocation :: bytes where [str_defs]:
  "HeaderLocation = bytes_of ''Location''"

definition HeaderIfModifiedSince :: bytes where [str_defs]:
  "HeaderIfModifiedSince = bytes_of ''If-Modified-Since''"

definition HeaderLastModified :: bytes where [str_defs]:
  "HeaderLastModified = bytes_of ''Last-Modified''"

definition HeaderAcceptRanges :: bytes where [str_defs]:
  "HeaderAcceptRanges = bytes_of ''Accept-Ranges''"

definition HeaderRange :: bytes where [str_defs]:
  "HeaderRange = bytes_of ''Range''"

definition HeaderContentRange :: bytes where [str_defs]:
  "HeaderContentRange = bytes_of ''Content-Range''"

definition HeaderAuthorization :: bytes where [str_defs]:
  "HeaderAuthorization = bytes_of ''Authorization''"


section \<open>Byte strings\<close>

definition defaultServerName :: bytes where [str_defs]:
  "defaultServerName = bytes_of ''fasthttp''"

definition defaultUserAgent :: bytes where [str_defs]:
  "defaultUserAgent = bytes_of ''fasthttp''"

definition defaultContentType :: bytes where [str_defs]:
  "defaultContentType = bytes_of ''text/plain; charset=utf-8''"

definition strSlash :: bytes where [str_defs]:
  "strSlash = bytes_of ''/''"

definition strSlashSlash :: bytes where [str_defs]:
  "strSlashSlash = bytes_of ''//''"

definition strSlashDotDot :: bytes where [str_defs]:
  "strSlashDotDot = bytes_of ''/..''"

definition strSlashDotSlash :: bytes where [str_defs]:
  "strSlashDotSlash = bytes_of ''/./''"

definition strSlashDotDotSlash :: bytes where [str_defs]:
  "strSlashDotDotSlash = bytes_of ''/../''"

definition strCRLF :: bytes where [str_defs]:
  "strCRLF = [13, 10]"

definition strHTTP :: bytes where [str_defs]:
  "strHTTP = bytes_of ''http''"

definition strHTTPS :: bytes where [str_defs]:
  "strHTTPS = bytes_of ''https''"

definition strHTTP10 :: bytes where [str_defs]:
  "strHTTP10 = bytes_of ''HTTP/1.0''"

definition strHTTP11 :: bytes where [str_defs]:
  "strHTTP11 = bytes_of ''HTTP/1.1''"

definition strColon :: bytes where [str_defs]:
  "strColon = bytes_of '':''"

definition strColonSlashSlash :: bytes where [str_defs]:
  "strColonSlashSlash = bytes_of ''://''"

definition strColonSpace :: bytes where [str_defs]:
  "strColonSpace = bytes_of '': ''"

definition strGMT :: bytes where [str_defs]:
  "strGMT = bytes_of ''GMT''"

definition strResponseContinue :: bytes where [str_defs]:
  "strResponseContinue = bytes_of ''HTTP/1.1 100 Continue'' @ [13, 10, 13, 10]"

definition strGet :: bytes where [str_defs]:
  "strGet = MethodGet"

definition strHead :: bytes where [str_defs]:
  "strHead = MethodHead"

definition strPost :: bytes where [str_defs]:
  "strPost = MethodPost"

definition strPut :: bytes where [str_defs]:
  "strPut = MethodPut"

definition strDelete :: bytes where [str_defs]:
  "strDelete = MethodDelete"

definition strConnect :: bytes where [str_defs]:
  "strConnect = MethodConnect"

definition strOptions :: bytes where [str_defs]:
  "strOptions = MethodOptions"

definition strTrace :: bytes where [str_defs]:
  "strTrace = MethodTrace"

definition strPatch :: bytes where [str_defs]:
  "strPatch = MethodPatch"

definition strExpect :: bytes where [str_defs]:
  "strExpect = HeaderExpect"

definition strConnection :: bytes where [str_defs]:
  "strConnection = HeaderConnection"

definition strContentLength :: bytes where [str_defs]:
  "strContentLength = HeaderContentLength"

definition strContentType :: bytes where [str_defs]:
  "strContentType = HeaderContentType"

definition strDate :: bytes where [str_defs]:
  "strDate = HeaderDate"

definition strHost :: bytes where [str_defs]:
  "strHost = HeaderHost"

definition strReferer :: bytes where [str_defs]:
  "strReferer = HeaderReferer"

definition strServer :: bytes where [str_defs]:
  "strServer = HeaderServer"

definition strTransferEncoding :: bytes where [str_defs]:
  "strTransferEncoding = HeaderTransferEncoding"

definition strContentEncoding :: bytes where [str_defs]:
  "strContentEncoding = HeaderContentEncoding"

definition strAcceptEncoding :: bytes where [str_defs]:
  "strAcceptEncoding = HeaderAcceptEncoding"

definition strUserAgent :: bytes where [str_defs]:
  "strUserAgent = HeaderUserAgent"

definition strCookie :: bytes where [str_defs]:
  "strCookie = HeaderCookie"

definition strSetCookie :: bytes where [str_defs]:
  "strSetCookie = HeaderSetCookie"

definition strLocation :: bytes where [str_defs]:
  "strLocation = HeaderLocation"

definition strIfModifiedSince :: bytes where [str_defs]:
  "strIfModifiedSince = HeaderIfModifiedSince"

definition strLastModified :: bytes where [str_defs]:
  "strLastModified = HeaderLastModified"

definition strAcceptRanges :: bytes where [str_defs]:
  "strAcceptRanges = HeaderAcceptRanges"

definition strRange :: bytes where [str_defs]:
  "strRange = HeaderRange"

definition strContentRange :: bytes where [str_defs]:
  "strContentRange = HeaderContentRange"

definition strAuthorization :: bytes where [str_defs]:
  "strAuthorization = HeaderAuthorization"

definition strCookieExpires :: bytes where [str_defs]:
  "strCookieExpires = bytes_of ''expires''"

definition strCookieDomain :: bytes where [str_defs]:
  "strCookieDomain = bytes_of ''domain''"

definition strCookiePath :: bytes where [str_defs]:
  "strCookiePath = bytes_of ''path''"

definition strCookieHTTPOnly :: bytes where [str_defs]:
  "strCookieHTTPOnly = bytes_of ''HttpOnly''"

definition strCookieSecure :: bytes where [str_defs]:
  "strCookieSecure = bytes_of ''secure''"

definition strCookieMaxAge :: bytes where [str_defs]:
  "strCookieMaxAge = bytes_of ''max-age''"

definition strCookieSameSite :: bytes where [str_defs]:
  "strCookieSameSite = bytes_of ''SameSite''"

definition strCookieSameSiteLax :: bytes where [str_defs]:
  "strCookieSameSiteLax = bytes_of ''Lax''"

definition strCookieSameSiteStrict :: bytes where [str_defs]:
  "strCookieSameSiteStrict = bytes_of ''Strict''"

definition strCookieSameSiteNone :: bytes where [str_defs]:
  "strCookieSameSiteNone = bytes_of ''None''"

definition strClose :: bytes where [str_defs]:
  "strClose = bytes_of ''close''"

definition strGzip :: bytes where [str_defs]:
  "strGzip = bytes_of ''gzip''"

definition strBr :: bytes where [str_defs]:
  "strBr = bytes_of ''br''"

definition strDeflate :: bytes where [str_defs]:
  "strDeflate = bytes_of ''deflate''"

definition strKeepAlive :: bytes where [str_defs]:
  "strKeepAlive = bytes_of ''keep-alive''"

definition strUpgrade :: bytes where [str_defs]:
  "strUpgrade = bytes_of ''Upgrade''"

definition strChunked :: bytes where [str_defs]:
  "strChunked = bytes_of ''chunked''"

definition strIdentity :: bytes where [str_defs]:
  "strIdentity = bytes_of ''identity''"

definition str100Continue :: bytes where [str_defs]:
  "str100Continue = bytes_of ''100-continue''"

definition strPostArgsContentType :: bytes where [str_defs]:
  "strPostArgsContentType = bytes_of ''application/x-www-form-urlencoded''"

definition strDefaultContentType :: bytes where [str_defs]:
  "strDefaultContentType = bytes_of ''application/octet-stream''"

definition strMultipartFormData :: bytes where [str_defs]:
  "strMultipartFormData = bytes_of ''multipart/form-data''"

definition strBoundary :: bytes where [str_defs]:
  "strBoundary = bytes_of ''boundary''"

definition strBytes :: bytes where [str_defs]:
  "strBytes = bytes_of ''bytes''"

definition strTextSlash :: bytes where [str_defs]:
  "strTextSlash = bytes_of ''text/''"

definition strApplicationSlash :: bytes where [str_defs]:
  "strApplicationSlash = bytes_of ''application/''"

definition strBasicSpace :: bytes where [str_defs]:
  "strBasicSpace = bytes_of ''Basic ''"

end
