(* ===== verification/Bytesconv.thy ===== *)
theory Bytesconv
  imports Interfaces Strings
begin

text \<open>
  \<^verbatim>\<open>bytesconv.go\<close> and the tables of \<^verbatim>\<open>bytesconv_table_gen.go\<close>: conversions between numbers,
  addresses, escaped text and bytes, with the URL decoding of \<^verbatim>\<open>args.go\<close> that inverts the
  quoting. A table of 256 bytes is the function from its index.
\<close>


section \<open>Character tables\<close>

definition hex2intTable :: "byte \<Rightarrow> byte" where
  "hex2intTable i =
     (if i \<ge> ch CHR ''0'' \<and> i \<le> ch CHR ''9'' then i - ch CHR ''0''
      else if i \<ge> ch CHR ''a'' \<and> i \<le> ch CHR ''f'' then i - ch CHR ''a'' + 10
      else if i \<ge> ch CHR ''A'' \<and> i \<le> ch CHR ''F'' then i - ch CHR ''A'' + 10
      else 16)"

definition toLowerTable :: "byte \<Rightarrow> byte" where
  "toLowerTable c =
     (if c \<ge> ch CHR ''A'' \<and> c \<le> ch CHR ''Z'' then c + (ch CHR ''a'' - ch CHR ''A'') else c)"

definition toUpperTable :: "byte \<Rightarrow> byte" where
  "toUpperTable c =
     (if c \<ge> ch CHR ''a'' \<and> c \<le> ch CHR ''z'' then c - (ch CHR ''a'' - ch CHR ''A'') else c)"

definition quotedArgShouldEscapeTable :: "byte \<Rightarrow> byte" where
  "quotedArgShouldEscapeTable i =
     (if i \<ge> ch CHR ''a'' \<and> i \<le> ch CHR ''z'' then 0
      else if i \<ge> ch CHR ''A'' \<and> i \<le> ch CHR ''Z'' then 0
      else if i \<ge> ch CHR ''0'' \<and> i \<le> ch CHR ''9'' then 0
      else if i \<in> set (bytes_of ''-_.~'') then 0
      else 1)"

definition quotedPathShouldEscapeTable :: "byte \<Rightarrow> byte" where
  "quotedPathShouldEscapeTable i =
     (if i \<in> set (bytes_of ''$&+,/:;=@'') then 0 else quotedArgShouldEscapeTable i)"

definition upperhex :: bytes where
  "upperhex = bytes_of ''0123456789ABCDEF''"

definition lowerhex :: bytes where
  "lowerhex = bytes_of ''0123456789abcdef''"

definition lowercaseBytes :: "bytes \<Rightarrow> bytes" where
  "lowercaseBytes b = map toLowerTable b"


section \<open>Unsigned decimal integers\<close>

datatype uint_err = errEmptyInt | errUnexpectedFirstChar | errUnexpectedTrailingChar | errTooLongInt

text \<open>
  The loop of \<open>AppendUint\<close> fills a buffer from its end; \<open>acc\<close> is the filled part.
\<close>

function AppendUint_loop :: "nat \<Rightarrow> bytes \<Rightarrow> bytes" where
  "AppendUint_loop n acc =
     (if n \<ge> 10
      then (let q = n div 10 in AppendUint_loop q ((ch CHR ''0'' + word_of_nat (n - q * 10)) # acc))
      else (ch CHR ''0'' + word_of_nat n) # acc)"
  by pat_completeness auto
termination
  by (relation "measure fst") auto

definition AppendUint :: "bytes \<Rightarrow> int \<Rightarrow> bytes option" where
  "AppendUint dst n = (if n < 0 then None else Some (dst @ AppendUint_loop (nat n) []))"

fun parseUintBuf_loop :: "bytes \<Rightarrow> nat \<Rightarrow> int \<Rightarrow> int \<times> nat \<times> uint_err option" where
  "parseUintBuf_loop [] i v = (v, i, None)"
| "parseUintBuf_loop (c # cs) i v =
     (let k = c - ch CHR ''0'' in
      if k > 9 then
        (if i = 0 then (-1, i, Some errUnexpectedFirstChar) else (v, i, None))
      else
        (let vNew = wrap64 (10 * v + uint k) in
         if vNew < v then (-1, i, Some errTooLongInt)
         else parseUintBuf_loop cs (Suc i) vNew))"

definition parseUintBuf :: "bytes \<Rightarrow> int \<times> nat \<times> uint_err option" where
  "parseUintBuf b =
     (if b = [] then (-1, 0, Some errEmptyInt) else parseUintBuf_loop b 0 0)"

definition ParseUint :: "bytes \<Rightarrow> int \<times> uint_err option" where
  "ParseUint buf =
     (case parseUintBuf buf of (v, n, err) \<Rightarrow>
        if n \<noteq> length buf then (-1, Some errUnexpectedTrailingChar) else (v, err))"


section \<open>Hexadecimal integers\<close>

text \<open>
  A \<^verbatim>\<open>bufio.Reader\<close> is the bytes it will still deliver and the error that follows them.
\<close>

datatype io_err =
  EOF | ErrUnexpectedEOF | TimeoutErr | ErrBufferFull | OtherIOErr

record reader =
  rd_data :: bytes
  rd_err :: io_err

datatype hex_err = errEmptyHexNum | errTooLargeHexNum | HexIOErr io_err

definition maxHexIntChars :: nat where
  "maxHexIntChars = 15"

fun readHexInt_loop :: "bytes \<Rightarrow> io_err \<Rightarrow> int \<Rightarrow> nat \<Rightarrow> int \<times> hex_err option \<times> bytes" where
  "readHexInt_loop [] err n i =
     (if err = EOF \<and> i > 0 then (n, None, []) else (-1, Some (HexIOErr err), []))"
| "readHexInt_loop (c # cs) err n i =
     (let k = uint (hex2intTable c) in
      if k = 16 then
        (if i = 0 then (-1, Some errEmptyHexNum, cs) else (n, None, c # cs))
      else if i \<ge> maxHexIntChars then (-1, Some errTooLargeHexNum, cs)
      else readHexInt_loop cs err (push_bit 4 n OR k) (Suc i))"

definition readHexInt :: "reader \<Rightarrow> int \<times> hex_err option \<times> reader" where
  "readHexInt r =
     (case readHexInt_loop (rd_data r) (rd_err r) 0 0 of
        (n, err, rest) \<Rightarrow> (n, err, r\<lparr>rd_data := rest\<rparr>))"

function writeHexInt_loop :: "nat \<Rightarrow> bytes \<Rightarrow> bytes" where
  "writeHexInt_loop n acc =
     (let acc' = lowerhex ! (n AND 15) # acc; n' = drop_bit 4 n in
      if n' = 0 then acc' else writeHexInt_loop n' acc')"
  by pat_completeness auto
termination
  by (relation "measure fst") (auto simp: drop_bit_eq_div)

text \<open>The bytes handed to the writer; the writer's own error is returned unchanged.\<close>

definition writeHexInt :: "int \<Rightarrow> bytes option" where
  "writeHexInt n = (if n < 0 then None else Some (writeHexInt_loop (nat n) []))"


section \<open>IPv4 addresses\<close>

text \<open>
  \<^verbatim>\<open>net.IP\<close> is its bytes; \<open>To4\<close> and the 16-byte zero address are the standard library's.
\<close>

definition v4InV6Prefix :: bytes where
  "v4InV6Prefix = replicate 10 0 @ [255, 255]"

definition IPv4zero :: bytes where
  "IPv4zero = v4InV6Prefix @ [0, 0, 0, 0]"

definition To4 :: "bytes \<Rightarrow> bytes option" where
  "To4 ip =
     (if length ip = 4 then Some ip
      else if length ip = 16 \<and> take 12 ip = v4InV6Prefix then Some (drop 12 ip)
      else None)"

definition AppendIPv4 :: "bytes \<Rightarrow> bytes \<Rightarrow> bytes option" where
  "AppendIPv4 dst ip0 =
     (case To4 ip0 of
        None \<Rightarrow> Some (dst @ bytes_of ''non-v4 ip passed to AppendIPv4'')
      | Some ip \<Rightarrow>
          foldl (\<lambda>d b. Option.bind d (\<lambda>d. AppendUint (d @ [ch CHR ''.'']) (uint b)))
            (AppendUint dst (uint (hd ip))) (tl ip))"

datatype ip_err = errEmptyIPStr | NoDot | IPPartNotUint uint_err | IPPartExceeds255

fun ParseIPv4_loop ::
    "nat \<Rightarrow> nat \<Rightarrow> bytes \<Rightarrow> bytes \<Rightarrow> bytes \<times> bytes \<times> ip_err option" where
  "ParseIPv4_loop i 0 dst b = (dst, b, None)"
| "ParseIPv4_loop i (Suc left) dst b =
     (case IndexByte b (ch CHR ''.'') of
        None \<Rightarrow> (dst, b, Some NoDot)
      | Some n \<Rightarrow>
          (case ParseUint (take n b) of
             (v, Some err) \<Rightarrow> (dst, b, Some (IPPartNotUint err))
           | (v, None) \<Rightarrow>
               if v > 255 then (dst, b, Some IPPartExceeds255)
               else ParseIPv4_loop (Suc i) left (dst[i := word_of_int v]) (drop (n + 1) b)))"

definition ParseIPv4 :: "bytes \<Rightarrow> bytes \<Rightarrow> (bytes \<times> ip_err option) option" where
  "ParseIPv4 dst0 ipStr =
     (if ipStr = [] then Some (dst0, Some errEmptyIPStr)
      else
        (let dst1 = (if length dst0 < 4 then replicate 4 0 else dst0);
             dst2 = take (length dst1) IPv4zero @ drop (length IPv4zero) dst1 in
         case To4 dst2 of
           None \<Rightarrow> None
         | Some dst \<Rightarrow>
             (case ParseIPv4_loop 0 3 dst ipStr of
                (dst', b, Some err) \<Rightarrow> Some (dst', Some err)
              | (dst', b, None) \<Rightarrow>
                  (case ParseUint b of
                     (v, Some err) \<Rightarrow> Some (dst', Some (IPPartNotUint err))
                   | (v, None) \<Rightarrow>
                       if v > 255 then Some (dst', Some IPPartExceeds255)
                       else Some (dst'[3 := word_of_int v], None)))))"


section \<open>HTML escaping\<close>

definition html_sub :: "byte \<Rightarrow> bytes" where
  "html_sub c =
     (if c = ch CHR ''<'' then bytes_of ''&lt;''
      else if c = ch CHR ''>'' then bytes_of ''&gt;''
      else if c = 34 then bytes_of ''&quot;''
      else if c = 39 then bytes_of ''&#39;''
      else [])"

text \<open>The slow path: \<open>prev\<close> is the start of the pending run, \<open>rest\<close> is \<^verbatim>\<open>s[i:]\<close>.\<close>

fun AppendHTMLEscape_loop :: "bytes \<Rightarrow> nat \<Rightarrow> nat \<Rightarrow> bytes \<Rightarrow> bytes \<Rightarrow> bytes" where
  "AppendHTMLEscape_loop s prev i [] dst = dst @ drop prev s"
| "AppendHTMLEscape_loop s prev i (c # rest) dst =
     (let sub = html_sub c in
      if length sub > 0
      then AppendHTMLEscape_loop s (i + 1) (i + 1) rest (dst @ drop prev (take i s) @ sub)
      else AppendHTMLEscape_loop s prev (i + 1) rest dst)"

definition AppendHTMLEscape :: "bytes \<Rightarrow> bytes \<Rightarrow> bytes" where
  "AppendHTMLEscape dst s =
     (if IndexByte s (ch CHR ''<'') = None \<and> IndexByte s (ch CHR ''>'') = None
         \<and> IndexByte s 34 = None \<and> IndexByte s 39 = None
      then dst @ s
      else AppendHTMLEscape_loop s 0 0 s dst)"

definition AppendHTMLEscapeBytes :: "bytes \<Rightarrow> bytes \<Rightarrow> bytes" where
  "AppendHTMLEscapeBytes dst s = AppendHTMLEscape dst s"


section \<open>URL quoting\<close>

definition quote_byte :: "byte \<Rightarrow> bytes" where
  "quote_byte c = [ch CHR ''%'', upperhex ! unat (drop_bit 4 c), upperhex ! unat (c AND 15)]"

fun AppendQuotedArg :: "bytes \<Rightarrow> bytes \<Rightarrow> bytes" where
  "AppendQuotedArg dst [] = dst"
| "AppendQuotedArg dst (c # src) =
     (if c = ch CHR '' '' then AppendQuotedArg (dst @ [ch CHR ''+'']) src
      else if quotedArgShouldEscapeTable c \<noteq> 0 then AppendQuotedArg (dst @ quote_byte c) src
      else AppendQuotedArg (dst @ [c]) src)"

fun appendQuotedPath_loop :: "bytes \<Rightarrow> bytes \<Rightarrow> bytes" where
  "appendQuotedPath_loop dst [] = dst"
| "appendQuotedPath_loop dst (c # src) =
     (if quotedPathShouldEscapeTable c \<noteq> 0 then appendQuotedPath_loop (dst @ quote_byte c) src
      else appendQuotedPath_loop (dst @ [c]) src)"

definition appendQuotedPath :: "bytes \<Rightarrow> bytes \<Rightarrow> bytes" where
  "appendQuotedPath dst src =
     (if length src = 1 \<and> hd src = ch CHR ''*'' then dst @ [ch CHR ''*'']
      else appendQuotedPath_loop dst src)"

text \<open>
  The slow paths of \<open>decodeArgAppend\<close> and \<open>decodeArgAppendNoPlus\<close>: a percent sign too near
  the end copies the rest, one without two hex digits is kept, otherwise two digits are
  consumed.
\<close>

fun decodeArgAppend_loop :: "bytes \<Rightarrow> bytes \<Rightarrow> bytes" where
  "decodeArgAppend_loop dst [] = dst"
| "decodeArgAppend_loop dst (c # src) =
     (if c = ch CHR ''%'' then
        (case src of
           a # b # rest \<Rightarrow>
             (let x2 = hex2intTable b; x1 = hex2intTable a in
              if x1 = 16 \<or> x2 = 16 then decodeArgAppend_loop (dst @ [ch CHR ''%'']) src
              else decodeArgAppend_loop (dst @ [push_bit 4 x1 OR x2]) rest)
         | _ \<Rightarrow> dst @ (c # src))
      else if c = ch CHR ''+'' then decodeArgAppend_loop (dst @ [ch CHR '' '']) src
      else decodeArgAppend_loop (dst @ [c]) src)"

definition decodeArgAppend :: "bytes \<Rightarrow> bytes \<Rightarrow> bytes" where
  "decodeArgAppend dst src =
     (if IndexByte src (ch CHR ''%'') = None \<and> IndexByte src (ch CHR ''+'') = None
      then dst @ src else decodeArgAppend_loop dst src)"

fun decodeArgAppendNoPlus_loop :: "bytes \<Rightarrow> bytes \<Rightarrow> bytes" where
  "decodeArgAppendNoPlus_loop dst [] = dst"
| "decodeArgAppendNoPlus_loop dst (c # src) =
     (if c = ch CHR ''%'' then
        (case src of
           a # b # rest \<Rightarrow>
             (let x2 = hex2intTable b; x1 = hex2intTable a in
              if x1 = 16 \<or> x2 = 16 then decodeArgAppendNoPlus_loop (dst @ [ch CHR ''%'']) src
              else decodeArgAppendNoPlus_loop (dst @ [push_bit 4 x1 OR x2]) rest)
         | _ \<Rightarrow> dst @ (c # src))
      else decodeArgAppendNoPlus_loop (dst @ [c]) src)"

definition decodeArgAppendNoPlus :: "bytes \<Rightarrow> bytes \<Rightarrow> bytes" where
  "decodeArgAppendNoPlus dst src =
     (if IndexByte src (ch CHR ''%'') = None then dst @ src
      else decodeArgAppendNoPlus_loop dst src)"

definition AppendUnquotedArg :: "bytes \<Rightarrow> bytes \<Rightarrow> bytes" where
  "AppendUnquotedArg dst src = decodeArgAppend dst src"

declare AppendUint_loop.simps [simp del] writeHexInt_loop.simps [simp del]

section \<open>Decimal integers: lemmas\<close>


lemma toLowerTable_idem: "toLowerTable (toLowerTable c) = toLowerTable c"
  by (auto simp: toLowerTable_def word_le_nat_alt unat_word_ariths)

abbreviation digit :: "nat \<Rightarrow> byte" where
  "digit d \<equiv> ch CHR ''0'' + word_of_nat d"

lemma AppendUint_loop_acc: "AppendUint_loop n acc = AppendUint_loop n [] @ acc"
proof (induction n arbitrary: acc rule: less_induct)
  case (less n)
  show ?case
  proof (cases "n \<ge> 10")
    case True
    let ?d = "digit (n - n div 10 * 10)"
    have "AppendUint_loop n acc = AppendUint_loop (n div 10) (?d # acc)"
      using True by (subst AppendUint_loop.simps) (simp add: Let_def)
    also have "\<dots> = AppendUint_loop (n div 10) [?d] @ acc"
      using True less [of "n div 10" "?d # acc"] less [of "n div 10" "[?d]"] by simp
    also have "AppendUint_loop (n div 10) [?d] = AppendUint_loop n []"
      using True by (subst (2) AppendUint_loop.simps) (simp add: Let_def)
    finally show ?thesis .
  qed (simp add: AppendUint_loop.simps [of n])
qed

text \<open>The decimal digits of a number, most significant first.\<close>

lemma AppendUint_loop_digits:
  "AppendUint_loop n [] =
     (if n < 10 then [digit n] else AppendUint_loop (n div 10) [] @ [digit (n mod 10)])"
proof (cases "n < 10")
  case False
  then have "AppendUint_loop n [] = AppendUint_loop (n div 10) [digit (n - n div 10 * 10)]"
    by (subst AppendUint_loop.simps) (simp add: Let_def)
  with False show ?thesis
    by (simp add: AppendUint_loop_acc [of "n div 10" "[_]"] minus_div_mult_eq_mod)
qed (simp add: AppendUint_loop.simps)

lemma AppendUint_loop_nonempty [simp]: "AppendUint_loop n [] \<noteq> []"
  by (subst AppendUint_loop_digits) simp

definition is_digit :: "byte \<Rightarrow> bool" where
  "is_digit c \<longleftrightarrow> c - ch CHR ''0'' \<le> 9"

definition dec_val :: "int \<Rightarrow> bytes \<Rightarrow> int" where
  "dec_val v b = foldl (\<lambda>v c. 10 * v + uint (c - ch CHR ''0'')) v b"

lemma dec_val_simps [simp]:
  "dec_val v [] = v"
  "dec_val v (c # b) = dec_val (10 * v + uint (c - ch CHR ''0'')) b"
  "dec_val v (b @ b') = dec_val (dec_val v b) b'"
  by (simp_all add: dec_val_def)

lemma dec_val_mono: "0 \<le> v \<Longrightarrow> v \<le> dec_val v b"
proof (induction b arbitrary: v)
  case (Cons c b)
  have "0 \<le> uint (c - ch CHR ''0'')" by simp
  then have "v \<le> 10 * v + uint (c - ch CHR ''0'')" using Cons.prems by linarith
  moreover from this have "10 * v + uint (c - ch CHR ''0'') \<le> dec_val (10 * v + uint (c - ch CHR ''0'')) b"
    using Cons by (intro Cons.IH) linarith
  ultimately show ?case by simp
qed simp

text \<open>As long as the value fits, the loop of the parser accumulates it.\<close>

lemma parseUintBuf_loop_digits:
  assumes "list_all is_digit b" and "0 \<le> v" and "dec_val v b < 2 ^ 63"
  shows "parseUintBuf_loop (b @ rest) i v = parseUintBuf_loop rest (i + length b) (dec_val v b)"
  using assms
proof (induction b arbitrary: i v)
  case (Cons c b)
  let ?w = "10 * v + uint (c - 48)"
  have w: "v \<le> ?w" "0 \<le> ?w" using Cons.prems(2) uint_ge_0 [of "c - 48"] by linarith+
  moreover have "?w \<le> dec_val ?w b" using w by (intro dec_val_mono)
  ultimately have "wrap64 ?w = ?w"
    using Cons.prems(3) by (intro wrap64_id) (simp add: is_int64_def)
  moreover have "\<not> 9 < c - 48" using Cons.prems(1) by (simp add: is_digit_def not_less)
  ultimately show ?case using Cons.IH [of ?w "Suc i"] Cons.prems
    by (auto simp: Let_def) (use w in linarith)
qed simp

lemma digit_is_digit: "d < 10 \<Longrightarrow> is_digit (digit d)"
  by (simp add: is_digit_def word_le_nat_alt take_bit_nat_eq_self unat_of_nat)

lemma digit_val: "d < 10 \<Longrightarrow> uint (digit d - ch CHR ''0'') = int d"
  by (simp add: uint_nat unat_of_nat)

lemma AppendUint_loop_is_digits: "list_all is_digit (AppendUint_loop n [])"
proof (induction n rule: less_induct)
  case (less n)
  then show ?case
    using digit_is_digit [of n] digit_is_digit [of "n mod 10"]
    by (subst AppendUint_loop_digits) simp
qed

lemma AppendUint_loop_value: "dec_val 0 (AppendUint_loop n []) = int n"
proof (induction n rule: less_induct)
  case (less n)
  show ?case
  proof (cases "n < 10")
    case True
    then show ?thesis using digit_val [of n] by (subst AppendUint_loop_digits) simp
  next
    case False
    moreover have "10 * int (n div 10) + int (n mod 10) = int n" by presburger
    ultimately show ?thesis using less digit_val [of "n mod 10"]
      by (subst AppendUint_loop_digits) simp
  qed
qed

lemma AppendUint_loop_length: "n < 10 ^ k \<Longrightarrow> 0 < k \<Longrightarrow> length (AppendUint_loop n []) \<le> k"
proof (induction k arbitrary: n)
  case (Suc k)
  show ?case
  proof (cases "n < 10")
    case True
    then show ?thesis by (subst AppendUint_loop_digits) simp
  next
    case False
    moreover have "k \<noteq> 0" using False Suc.prems by (cases k) auto
    moreover have "n div 10 < 10 ^ k" using Suc.prems by simp
    ultimately show ?thesis using Suc.IH [of "n div 10"] by (subst AppendUint_loop_digits) simp
  qed
qed simp

lemma parseUintBuf_loop_stop:
  "i > 0 \<Longrightarrow> rest = [] \<or> \<not> is_digit (hd rest) \<Longrightarrow> parseUintBuf_loop rest i v = (v, i, None)"
  by (cases rest) (auto simp: is_digit_def Let_def not_le)

text \<open>Reading a number back: the printed digits, up to the first byte that is not a digit.\<close>

lemma parseUintBuf_AppendUint:
  assumes "n < 2 ^ 63" and "rest = [] \<or> \<not> is_digit (hd rest)"
  shows "parseUintBuf (AppendUint_loop n [] @ rest) = (int n, length (AppendUint_loop n []), None)"
proof -
  let ?b = "AppendUint_loop n []"
  have "int n < 2 ^ 63" using assms(1) by (metis of_nat_less_iff of_nat_numeral of_nat_power)
  then have "parseUintBuf_loop (?b @ rest) 0 0 = parseUintBuf_loop rest (length ?b) (int n)"
    using parseUintBuf_loop_digits [OF AppendUint_loop_is_digits, of 0 n rest 0]
    by (simp add: AppendUint_loop_value)
  moreover have "parseUintBuf_loop rest (length ?b) (int n) = (int n, length ?b, None)"
    using assms(2) by (intro parseUintBuf_loop_stop) simp_all
  ultimately show ?thesis by (simp add: parseUintBuf_def)
qed

lemma ParseUint_AppendUint_loop: "n < 2 ^ 63 \<Longrightarrow> ParseUint (AppendUint_loop n []) = (int n, None)"
  using parseUintBuf_AppendUint [of n "[]"] by (simp add: ParseUint_def)

text \<open>What the parser accepts without an error is a non-empty string of digits.\<close>

lemma parseUintBuf_loop_result:
  "parseUintBuf_loop b i v = (w, n, None) \<Longrightarrow> n = i + length b \<Longrightarrow> list_all is_digit b"
proof (induction b arbitrary: i v)
  case (Cons c b)
  show ?case
  proof (cases "is_digit c")
    case True
    then have "\<not> 9 < c - 48" by (simp add: is_digit_def not_less)
    with Cons True show ?thesis by (auto simp: Let_def split: if_splits)
  next
    case False
    then have "9 < c - 48" by (simp add: is_digit_def not_le)
    with Cons.prems show ?thesis by (auto simp: Let_def split: if_splits)
  qed
qed simp

lemma ParseUint_digits: "ParseUint b = (v, None) \<Longrightarrow> b \<noteq> [] \<and> list_all is_digit b"
  using parseUintBuf_loop_result [of b 0 0]
  by (auto simp: ParseUint_def parseUintBuf_def split: if_splits prod.splits)

lemma ParseUint_value:
  assumes "b \<noteq> []" and "list_all is_digit b" and "dec_val 0 b < 2 ^ 63"
  shows "ParseUint b = (dec_val 0 b, None)"
  using assms parseUintBuf_loop_digits [of b 0 "[]" 0] by (simp add: ParseUint_def parseUintBuf_def)

section \<open>URL quoting: lemmas\<close>


lemma hex_nibble_upper:
  assumes "n < 16"
  shows "hex2intTable (upperhex ! n) = word_of_nat n"
proof -
  have "list_all (\<lambda>n. hex2intTable (upperhex ! n) = word_of_nat n) [0..<16]"
    by code_simp
  with assms show ?thesis by (simp add: list_all_iff)
qed

lemma hex_nibble_lower:
  assumes "n < 16"
  shows "hex2intTable (lowerhex ! n) = word_of_nat n"
proof -
  have "list_all (\<lambda>n. hex2intTable (lowerhex ! n) = word_of_nat n) [0..<16]"
    by code_simp
  with assms show ?thesis by (simp add: list_all_iff)
qed

lemma high_nibble_less: "unat (drop_bit 4 (c :: byte)) < 16"
  using unsigned_less [of c, where ?'a = nat] unfolding unat_drop_bit_eq
  by (simp add: drop_bit_eq_div)

lemma low_nibble_less: "unat ((c :: byte) AND 15) < 16"
  using word_and_le1 [of c 15] by (simp add: word_le_nat_alt)

lemma nibble_not_16:
  assumes "n < 16"
  shows "(word_of_nat n :: byte) \<noteq> 16"
proof
  assume "(word_of_nat n :: byte) = 16"
  then have "unat (word_of_nat n :: byte) = 16" by simp
  with assms show False by (simp add: unat_of_nat)
qed

lemma nibbles_join: "push_bit 4 (drop_bit 4 c) OR (c AND 15) = (c :: byte)"
proof -
  have "c AND 15 = take_bit 4 c" by (simp add: take_bit_eq_mask mask_numeral)
  moreover have "push_bit 4 (drop_bit 4 c) OR take_bit 4 c = c"
    by (rule bit_eqI) (auto simp: bit_simps)
  ultimately show ?thesis by simp
qed

lemmas nibble_simps = hex_nibble_upper [OF high_nibble_less] hex_nibble_upper [OF low_nibble_less]
  nibble_not_16 [OF high_nibble_less] nibble_not_16 [OF low_nibble_less] nibbles_join

text \<open>Every loop below only appends to its destination.\<close>

definition quote_arg :: "byte \<Rightarrow> bytes" where
  "quote_arg c =
     (if c = ch CHR '' '' then [ch CHR ''+'']
      else if quotedArgShouldEscapeTable c \<noteq> 0 then quote_byte c else [c])"

definition quote_path :: "byte \<Rightarrow> bytes" where
  "quote_path c = (if quotedPathShouldEscapeTable c \<noteq> 0 then quote_byte c else [c])"

lemma AppendQuotedArg_eq: "AppendQuotedArg dst src = dst @ concat (map quote_arg src)"
  by (induction dst src rule: AppendQuotedArg.induct) (auto simp: quote_arg_def)

lemma appendQuotedPath_loop_eq: "appendQuotedPath_loop dst src = dst @ concat (map quote_path src)"
  by (induction dst src rule: appendQuotedPath_loop.induct) (auto simp: quote_path_def)

lemma decodeArgAppend_loop_append:
  "decodeArgAppend_loop (d @ dst) src = d @ decodeArgAppend_loop dst src"
  by (induction dst src rule: decodeArgAppend_loop.induct) (auto simp: Let_def split: list.splits)

lemma decodeArgAppendNoPlus_loop_append:
  "decodeArgAppendNoPlus_loop (d @ dst) src = d @ decodeArgAppendNoPlus_loop dst src"
  by (induction dst src rule: decodeArgAppendNoPlus_loop.induct)
    (auto simp: Let_def split: list.splits)

lemmas decode_loop_dst =
  decodeArgAppend_loop_append [of "dst" "[]" for dst, simplified]
  decodeArgAppendNoPlus_loop_append [of "dst" "[]" for dst, simplified]

text \<open>The fast path of each decoder agrees with its slow path.\<close>

lemma decodeArgAppend_eq: "decodeArgAppend dst src = decodeArgAppend_loop dst src"
proof -
  have "ch CHR ''%'' \<notin> set src \<Longrightarrow> ch CHR ''+'' \<notin> set src \<Longrightarrow> decodeArgAppend_loop dst src = dst @ src"
    by (induction src arbitrary: dst) auto
  then show ?thesis by (simp add: decodeArgAppend_def)
qed

lemma decodeArgAppendNoPlus_eq: "decodeArgAppendNoPlus dst src = decodeArgAppendNoPlus_loop dst src"
proof -
  have "ch CHR ''%'' \<notin> set src \<Longrightarrow> decodeArgAppendNoPlus_loop dst src = dst @ src"
    by (induction src arbitrary: dst) auto
  then show ?thesis by (simp add: decodeArgAppendNoPlus_def)
qed

lemma decode_quote_byte:
  "decodeArgAppend_loop dst (quote_byte c @ rest) = decodeArgAppend_loop (dst @ [c]) rest"
  "decodeArgAppendNoPlus_loop dst (quote_byte c @ rest) = decodeArgAppendNoPlus_loop (dst @ [c]) rest"
  using nibble_simps [of c] by (simp_all add: quote_byte_def Let_def)

lemma decode_quote_arg:
  "decodeArgAppend_loop dst (quote_arg c @ rest) = decodeArgAppend_loop (dst @ [c]) rest"
  by (auto simp: quote_arg_def decode_quote_byte quotedArgShouldEscapeTable_def)

lemma decode_quote_path:
  "decodeArgAppendNoPlus_loop dst (quote_path c @ rest) =
     decodeArgAppendNoPlus_loop (dst @ [c]) rest"
  by (auto simp: quote_path_def decode_quote_byte quotedPathShouldEscapeTable_def
      quotedArgShouldEscapeTable_def)

lemma decode_quoted_arg_loop:
  "decodeArgAppend_loop dst (concat (map quote_arg src)) = dst @ src"
  by (induction src arbitrary: dst) (simp_all add: decode_quote_arg)

lemma decode_quoted_path_loop:
  "decodeArgAppendNoPlus_loop dst (concat (map quote_path src)) = dst @ src"
  by (induction src arbitrary: dst) (simp_all add: decode_quote_path)

text \<open>Quoted text holds unreserved bytes, plus signs and percent signs only.\<close>

definition quoted_byte :: "byte \<Rightarrow> bool" where
  "quoted_byte c \<longleftrightarrow> quotedArgShouldEscapeTable c = 0 \<or> c = ch CHR ''%'' \<or> c = ch CHR ''+''"

lemma upperhex_plain: 
  assumes "n < 16"
  shows "quotedArgShouldEscapeTable (upperhex ! n) = 0"
proof -
  have "list_all (\<lambda>n. quotedArgShouldEscapeTable (upperhex ! n) = 0) [0..<16]"
    by code_simp
  with assms show ?thesis by (simp add: list_all_iff)
qed

lemma quote_arg_bytes: "x \<in> set (quote_arg c) \<Longrightarrow> quoted_byte x"
  by (auto simp: quote_arg_def quote_byte_def quoted_byte_def upperhex_plain high_nibble_less
      low_nibble_less split: if_splits)

lemma AppendQuotedArg_bytes: "x \<in> set (concat (map quote_arg src)) \<Longrightarrow> quoted_byte x"
  by (auto dest: quote_arg_bytes)

lemma quoted_byte_not_sep:
  "\<not> quoted_byte (ch CHR ''&'')" "\<not> quoted_byte (ch CHR ''='')" "\<not> quoted_byte (ch CHR '' '')"
  by (auto simp: quoted_byte_def quotedArgShouldEscapeTable_def)

section \<open>Hexadecimal integers, addresses and HTML: lemmas\<close>


lemma writeHexInt_loop_acc: "writeHexInt_loop n acc = writeHexInt_loop n [] @ acc"
proof (induction n arbitrary: acc rule: less_induct)
  case (less n)
  show ?case
  proof (cases "drop_bit 4 n = 0")
    case False
    then have lt: "drop_bit 4 n < n" by (simp add: drop_bit_eq_div)
    let ?d = "lowerhex ! (n AND 15)"
    have "writeHexInt_loop n acc = writeHexInt_loop (drop_bit 4 n) (?d # acc)"
      using False by (subst writeHexInt_loop.simps) (simp add: Let_def)
    also have "\<dots> = writeHexInt_loop (drop_bit 4 n) [?d] @ acc"
      using less [OF lt, of "?d # acc"] less [OF lt, of "[?d]"] by simp
    also have "writeHexInt_loop (drop_bit 4 n) [?d] = writeHexInt_loop n []"
      using False by (subst (2) writeHexInt_loop.simps) (simp add: Let_def)
    finally show ?thesis .
  qed (simp add: writeHexInt_loop.simps [of n] Let_def)
qed

lemma writeHexInt_loop_digits:
  "writeHexInt_loop n [] =
     (if n < 16 then [lowerhex ! n] else writeHexInt_loop (n div 16) [] @ [lowerhex ! (n mod 16)])"
proof -
  have and15: "n AND 15 = n mod 16"
    using take_bit_eq_mask [of 4 n] by (simp add: mask_numeral take_bit_eq_mod)
  show ?thesis
  proof (cases "n < 16")
    case True
    then show ?thesis by (simp add: writeHexInt_loop.simps [of n] Let_def drop_bit_eq_div and15)
  next
    case False
    then have "writeHexInt_loop n [] = writeHexInt_loop (n div 16) [lowerhex ! (n mod 16)]"
      by (subst writeHexInt_loop.simps) (auto simp: Let_def drop_bit_eq_div and15 div_eq_0_iff)
    with False show ?thesis by (simp add: writeHexInt_loop_acc [of "n div 16" "[_]"])
  qed
qed

definition is_hex :: "byte \<Rightarrow> bool" where
  "is_hex c \<longleftrightarrow> hex2intTable c \<noteq> 16"

definition hex_val :: "int \<Rightarrow> bytes \<Rightarrow> int" where
  "hex_val n b = foldl (\<lambda>n c. 16 * n + uint (hex2intTable c)) n b"

lemma hex_val_simps [simp]:
  "hex_val n [] = n"
  "hex_val n (c # b) = hex_val (16 * n + uint (hex2intTable c)) b"
  "hex_val n (b @ b') = hex_val (hex_val n b) b'"
  by (simp_all add: hex_val_def)

lemma hex2intTable_le: "uint (hex2intTable c) \<le> 16"
  by (auto simp: hex2intTable_def word_le_def uint_word_ariths)

lemma is_hex_uint: "is_hex c \<longleftrightarrow> uint (hex2intTable c) \<noteq> 16"
proof -
  have "uint (16 :: byte) = 16" by simp
  then show ?thesis by (metis is_hex_def word_of_int_uint)
qed

lemma shift_or_nibble:
  assumes "0 \<le> k" and "k < 16"
  shows "push_bit 4 n OR k = 16 * n + (k :: int)"
proof -
  have "k = take_bit 4 k" using assms by (simp add: take_bit_eq_mod)
  then have "push_bit 4 n + k = push_bit 4 n OR k"
    by (intro disjunctive_add) (metis bit_push_bit_iff bit_take_bit_iff not_less)
  then show ?thesis by (simp add: push_bit_eq_mult)
qed

lemma readHexInt_loop_digits:
  assumes "list_all is_hex b" and "i + length b \<le> maxHexIntChars"
  shows "readHexInt_loop (b @ rest) err n i = readHexInt_loop rest err (hex_val n b) (i + length b)"
  using assms
proof (induction b arbitrary: n i)
  case (Cons c b)
  have "uint (hex2intTable c) \<noteq> 16" using Cons.prems(1) by (simp add: is_hex_uint)
  moreover from this have "uint (hex2intTable c) < 16" using hex2intTable_le [of c] by linarith
  ultimately show ?case using Cons by (simp add: Let_def shift_or_nibble)
qed simp

lemma writeHexInt_loop_is_hex: "list_all is_hex (writeHexInt_loop n [])"
proof (induction n rule: less_induct)
  case (less n)
  have "d < 16 \<Longrightarrow> is_hex (lowerhex ! d)" for d
    by (simp add: is_hex_def hex_nibble_lower nibble_not_16)
  with less show ?case by (subst writeHexInt_loop_digits) simp
qed

lemma writeHexInt_loop_value: "hex_val 0 (writeHexInt_loop n []) = int n"
proof (induction n rule: less_induct)
  case (less n)
  have u: "d < 16 \<Longrightarrow> uint (word_of_nat d :: byte) = int d" for d
    by (simp add: uint_nat unat_of_nat)
  show ?case
  proof (cases "n < 16")
    case True
    then show ?thesis using hex_nibble_lower [of n] u [of n] by (subst writeHexInt_loop_digits) simp
  next
    case False
    moreover have "16 * int (n div 16) + int (n mod 16) = int n" by presburger
    ultimately show ?thesis
      using less hex_nibble_lower [of "n mod 16"] u [of "n mod 16"]
      by (subst writeHexInt_loop_digits) simp
  qed
qed

lemma writeHexInt_loop_length:
  "n < 16 ^ k \<longleftrightarrow> (if n = 0 then True else length (writeHexInt_loop n []) \<le> k)"
proof (induction n arbitrary: k rule: less_induct)
  case (less n)
  show ?case
  proof (cases "n < 16")
    case True
    then show ?thesis by (cases k) (auto simp: writeHexInt_loop_digits [of n] intro: less_le_trans)
  next
    case False
    have "n < 16 ^ k \<longleftrightarrow> k > 0 \<and> n div 16 < 16 ^ (k - 1)"
      using False by (cases k) auto
    with False less [of "n div 16" "k - 1"] show ?thesis
      by (auto simp: writeHexInt_loop_digits [of n])
  qed
qed

lemma readHexInt_stop:
  "i > 0 \<Longrightarrow> (rest = [] \<and> err = EOF) \<or> (rest \<noteq> [] \<and> \<not> is_hex (hd rest)) \<Longrightarrow>
     readHexInt_loop rest err n i = (n, None, rest)"
  by (cases rest) (auto simp: is_hex_def Let_def)

lemma writeHexInt_loop_nonempty [simp]: "writeHexInt_loop n [] \<noteq> []"
  by (subst writeHexInt_loop_digits) simp

lemma readHexInt_writeHexInt_loop:
  assumes "n < 2 ^ 60" and "(rest = [] \<and> err = EOF) \<or> (rest \<noteq> [] \<and> \<not> is_hex (hd rest))"
  shows "readHexInt_loop (writeHexInt_loop n [] @ rest) err 0 0 = (int n, None, rest)"
proof -
  let ?b = "writeHexInt_loop n []"
  have "length ?b \<le> maxHexIntChars"
  proof (cases "n = 0")
    case True
    then show ?thesis by (simp add: writeHexInt_loop_digits maxHexIntChars_def)
  next
    case False
    with assms(1) writeHexInt_loop_length [of n 15] show ?thesis by (simp add: maxHexIntChars_def)
  qed
  then have "readHexInt_loop (?b @ rest) err 0 0 = readHexInt_loop rest err (int n) (length ?b)"
    using readHexInt_loop_digits [OF writeHexInt_loop_is_hex, of 0 n rest err 0]
    by (simp add: writeHexInt_loop_value)
  with assms(2) show ?thesis by (simp add: readHexInt_stop)
qed

lemma readHexInt_too_large:
  assumes "list_all is_hex b" and "length b > maxHexIntChars"
  shows "fst (snd (readHexInt_loop (b @ rest) err 0 0)) = Some errTooLargeHexNum"
proof -
  let ?p = "take maxHexIntChars b" and ?q = "drop maxHexIntChars b"
  have hx: "list_all is_hex ?p" using assms(1) by (auto simp: list_all_iff dest: in_set_takeD)
  from assms(2) obtain c q where q: "?q = c # q" by (cases ?q) auto
  then have "is_hex c" using assms(1) by (metis in_set_dropD list.set_intros(1) list_all_iff)
  have "readHexInt_loop (b @ rest) err 0 0 = readHexInt_loop (?p @ (?q @ rest)) err 0 0"
    by (metis append.assoc append_take_drop_id)
  also have "\<dots> = readHexInt_loop (?q @ rest) err (hex_val 0 ?p) maxHexIntChars"
    using readHexInt_loop_digits [OF hx, of 0 "?q @ rest" err 0] assms(2) by simp
  finally show ?thesis using q \<open>is_hex c\<close> by (simp add: Let_def is_hex_uint)
qed


text \<open>The address printer and parser.\<close>

lemma dot_not_digit: "ch CHR ''.'' \<notin> set (AppendUint_loop n [])"
proof
  assume "ch CHR ''.'' \<in> set (AppendUint_loop n [])"
  then have "is_digit (ch CHR ''.'')" using AppendUint_loop_is_digits by (auto simp: list_all_iff)
  then show False by (simp add: is_digit_def)
qed

lemma ParseUint_byte: "ParseUint (AppendUint_loop (unat b) []) = (uint (b :: byte), None)"
proof -
  have "unat b < 2 ^ 63" using unsigned_less [of b, where ?'a = nat] by simp
  then show ?thesis by (simp add: ParseUint_AppendUint_loop)
qed

lemma byte_not_above_255: "\<not> 255 < uint (b :: byte)"
  using unsigned_less [of b, where ?'a = int] by simp

lemma AppendIPv4_v4:
  "AppendIPv4 dst [a, b, c, d] =
     Some (dst @ AppendUint_loop (unat a) [] @ ch CHR ''.'' # AppendUint_loop (unat b) []
       @ ch CHR ''.'' # AppendUint_loop (unat c) [] @ ch CHR ''.'' # AppendUint_loop (unat d) [])"
  by (simp add: AppendIPv4_def To4_def AppendUint_def)

lemma ParseIPv4_loop_step:
  "ParseIPv4_loop i (Suc left) dst (AppendUint_loop (unat (a :: byte)) [] @ ch CHR ''.'' # rest) =
     ParseIPv4_loop (Suc i) left (dst[i := a]) rest"
  using dot_not_digit [of "unat a"] by (simp add: ParseUint_byte byte_not_above_255)

lemma ParseIPv4_AppendIPv4_v4:
  "ParseIPv4 [] (AppendUint_loop (unat a) [] @ ch CHR ''.'' # AppendUint_loop (unat b) []
       @ ch CHR ''.'' # AppendUint_loop (unat c) [] @ ch CHR ''.'' # AppendUint_loop (unat d) [])
   = Some ([a, b, c, d], None)"
proof -
  have "To4 (take 4 IPv4zero @ drop (length IPv4zero) (replicate 4 0)) = Some [0, 0, 0, 0]"
    by (simp add: IPv4zero_def v4InV6Prefix_def To4_def numeral_eq_Suc)
  then show ?thesis
    by (simp add: ParseIPv4_def Let_def numeral_3_eq_3 ParseIPv4_loop_step [simplified]
        ParseUint_byte byte_not_above_255)
qed

text \<open>HTML escaping against its byte-by-byte reference.\<close>

definition html_escape_byte :: "byte \<Rightarrow> bytes" where
  "html_escape_byte c = (if html_sub c = [] then [c] else html_sub c)"

lemma AppendHTMLEscape_loop_eq:
  assumes "s = pre @ rest" and "i = length pre" and "prev \<le> i"
  shows "AppendHTMLEscape_loop s prev i rest dst =
    dst @ drop prev pre @ concat (map html_escape_byte rest)"
  using assms
proof (induction rest arbitrary: pre i prev dst)
  case (Cons c rest)
  have "AppendHTMLEscape_loop s p (i + 1) rest d =
      d @ drop p (pre @ [c]) @ concat (map html_escape_byte rest)" if "p \<le> i + 1" for p d
    using Cons.IH [of "pre @ [c]" "i + 1" p d] Cons.prems that by simp
  with Cons.prems show ?case by (simp add: Let_def html_escape_byte_def [of c])
qed simp

lemma AppendHTMLEscape_eq: "AppendHTMLEscape dst s = dst @ concat (map html_escape_byte s)"
proof -
  have "concat (map html_escape_byte s) = s"
    if "ch CHR ''<'' \<notin> set s" "ch CHR ''>'' \<notin> set s" "34 \<notin> set s" "39 \<notin> set s"
    using that by (induction s) (auto simp: html_escape_byte_def html_sub_def)
  moreover have "AppendHTMLEscape_loop s 0 0 s dst = dst @ concat (map html_escape_byte s)"
    using AppendHTMLEscape_loop_eq [of s "[]" s 0 0 dst] by simp
  ultimately show ?thesis by (simp add: AppendHTMLEscape_def)
qed

section \<open>Contracts and properties\<close>


definition uint_of :: "bytes \<Rightarrow> int option" where
  "uint_of b = (case ParseUint b of (v, None) \<Rightarrow> Some v | (v, Some e) \<Rightarrow> None)"

interpretation uint_codec: codec "\<lambda>n. AppendUint_loop n []" "\<lambda>b. map_option nat (uint_of b)"
  "\<lambda>n. n < 2 ^ 63"
  by unfold_locales (simp add: ParseUint_AppendUint_loop uint_of_def)

interpretation arg_codec: codec "AppendQuotedArg []" "\<lambda>b. Some (decodeArgAppend [] b)" "\<lambda>_. True"
  by unfold_locales (simp add: AppendQuotedArg_eq decodeArgAppend_eq decode_quoted_arg_loop)

definition ip_of :: "bytes \<Rightarrow> bytes option" where
  "ip_of s = (case ParseIPv4 [] s of Some (ip, None) \<Rightarrow> Some ip | _ \<Rightarrow> None)"

lemma length_4E:
  assumes "length ip = 4"
  obtains a b c d where "ip = [a, b, c, d]"
  using assms by (auto simp: numeral_eq_Suc length_Suc_conv)

interpretation ip_codec: codec "\<lambda>ip. the (AppendIPv4 [] ip)" ip_of "\<lambda>ip. length ip = 4"
proof unfold_locales
  fix ip :: bytes
  assume "length ip = 4"
  then obtain a b c d where "ip = [a, b, c, d]" by (rule length_4E)
  then show "ip_of (the (AppendIPv4 [] ip)) = Some ip"
    by (simp only: AppendIPv4_v4 ip_of_def append_Nil option.sel ParseIPv4_AppendIPv4_v4
        option.case prod.case)
qed

lemma appendQuotedPath_decodes: "decodeArgAppendNoPlus_loop [] (appendQuotedPath [] src) = src"
proof (cases "length src = 1 \<and> hd src = ch CHR ''*''")
  case True
  then have "src = [ch CHR ''*'']" by (cases src) auto
  then show ?thesis by (simp add: appendQuotedPath_def)
next
  case False
  then show ?thesis
    by (auto simp: appendQuotedPath_def appendQuotedPath_loop_eq decode_quoted_path_loop)
qed

interpretation path_codec: codec "appendQuotedPath []" "\<lambda>b. Some (decodeArgAppendNoPlus [] b)" "\<lambda>_. True"
  by unfold_locales (simp add: decodeArgAppendNoPlus_eq appendQuotedPath_decodes)


text \<open>
  \<open>AppendUint\<close> followed by \<open>ParseUint\<close> is the identity on every non-negative 64-bit
  integer, and the digits fit the 20-byte buffer the printer fills from its end.
\<close>

theorem uint_print_parse:
  assumes "0 \<le> n" and "n < 2 ^ 63"
  shows "\<exists>b. AppendUint dst n = Some (dst @ b) \<and> ParseUint b = (n, None) \<and> length b \<le> 20"
proof -
  let ?b = "AppendUint_loop (nat n) []"
  have "nat n < 2 ^ 63" using assms by (simp add: nat_less_iff)
  moreover from this have "length ?b \<le> 20" by (intro AppendUint_loop_length) auto
  ultimately show ?thesis using assms ParseUint_AppendUint_loop [of "nat n"]
    by (simp add: AppendUint_def)
qed

theorem uint_print_parse_witness:
  "\<exists>b. AppendUint [] 8080 = Some ([] @ b) \<and> ParseUint b = (8080, None) \<and> length b \<le> 20"
  by (rule uint_print_parse) simp_all

text \<open>
  The overflow test of \<open>parseUintBuf\<close> (\<^verbatim>\<open>vNew < v\<close>) misses overflows that wrap to a
  larger value: a twenty-digit number beyond the 64-bit range is accepted with the value it
  has modulo \<open>2 ^ 64\<close>.
\<close>

theorem ParseUint_misses_overflow:
  "ParseUint (bytes_of ''22000000000000000000'') = (3553255926290448384, None)"
  by code_simp

text \<open>
  A hexadecimal integer below \<open>2 ^ 60\<close> written by \<open>writeHexInt\<close> is read back by
  \<open>readHexInt\<close>, which stops in front of the first byte that is no hex digit or at the end
  of the input.
\<close>

theorem hex_write_read:
  assumes "0 \<le> n" and "n < 2 ^ 60"
    and "(rest = [] \<and> e = EOF) \<or> (rest \<noteq> [] \<and> hex2intTable (hd rest) = 16)"
  shows "\<exists>b. writeHexInt n = Some b \<and>
    readHexInt \<lparr>rd_data = b @ rest, rd_err = e\<rparr> = (n, None, \<lparr>rd_data = rest, rd_err = e\<rparr>)"
proof -
  have "nat n < 2 ^ 60" using assms(1,2) by (simp add: nat_less_iff)
  with assms show ?thesis
    using readHexInt_writeHexInt_loop [of "nat n" rest e]
    by (simp add: writeHexInt_def readHexInt_def is_hex_def)
qed

theorem hex_write_read_witness:
  "\<exists>b. writeHexInt 48879 = Some b \<and>
    readHexInt \<lparr>rd_data = b @ [13, 10], rd_err = EOF\<rparr> =
      (48879, None, \<lparr>rd_data = [13, 10], rd_err = EOF\<rparr>)"
  by (rule hex_write_read) (simp_all add: hex2intTable_def)

text \<open>
  \<open>writeHexInt\<close> prints values from \<open>2 ^ 60\<close> on with sixteen digits, and \<open>readHexInt\<close>
  refuses every such number: the two functions do not accept the same range.
\<close>

theorem hex_write_read_range:
  assumes "2 ^ 60 \<le> n" and "n < 2 ^ 63"
  shows "\<exists>b. writeHexInt n = Some b \<and> length b = 16 \<and>
    fst (snd (readHexInt \<lparr>rd_data = b @ rest, rd_err = e\<rparr>)) = Some errTooLargeHexNum"
proof -
  let ?b = "writeHexInt_loop (nat n) []"
  have n: "2 ^ 60 \<le> nat n" "nat n < 16 ^ 16" "nat n \<noteq> 0"
    using assms by (simp_all add: le_nat_iff nat_less_iff)
  then have "length ?b = 16"
    using writeHexInt_loop_length [of "nat n" 15] writeHexInt_loop_length [of "nat n" 16] by simp
  moreover from this have "fst (snd (readHexInt_loop (?b @ rest) e 0 0)) = Some errTooLargeHexNum"
    by (intro readHexInt_too_large writeHexInt_loop_is_hex) (simp add: maxHexIntChars_def)
  ultimately show ?thesis using assms
    by (auto simp: writeHexInt_def readHexInt_def split: prod.splits)
qed

theorem hex_write_read_range_witness:
  "\<exists>b. writeHexInt (2 ^ 60) = Some b \<and> length b = 16 \<and>
    fst (snd (readHexInt \<lparr>rd_data = b @ [13, 10], rd_err = EOF\<rparr>)) = Some errTooLargeHexNum"
  by (rule hex_write_read_range) simp_all

text \<open>
  Decoding inverts quoting, for query arguments and for paths, whatever the bytes, so two
  arguments are quoted alike only if they are equal; a quoted argument has no \<^verbatim>\<open>&\<close>, \<^verbatim>\<open>=\<close> or
  blank that a query parser could split at.
\<close>

theorem quote_decode:
  "decodeArgAppend dst (AppendQuotedArg [] src) = dst @ src
   \<and> decodeArgAppendNoPlus [] (appendQuotedPath [] src) = src
   \<and> (AppendQuotedArg [] src = AppendQuotedArg [] src' \<longleftrightarrow> src = src')
   \<and> set (AppendQuotedArg [] src) \<inter> set (bytes_of ''&= '') = {}"
proof (intro conjI)
  show "decodeArgAppend dst (AppendQuotedArg [] src) = dst @ src"
    by (simp add: AppendQuotedArg_eq decodeArgAppend_eq decode_quoted_arg_loop)
  show "decodeArgAppendNoPlus [] (appendQuotedPath [] src) = src"
    using path_codec.dec_enc by simp
  show "AppendQuotedArg [] src = AppendQuotedArg [] src' \<longleftrightarrow> src = src'"
    by (rule arg_codec.enc_injective) simp_all
  show "set (AppendQuotedArg [] src) \<inter> set (bytes_of ''&= '') = {}"
    using AppendQuotedArg_bytes [of _ src] quoted_byte_not_sep by (auto simp: AppendQuotedArg_eq)
qed

text \<open>
  Printing an IPv4 address and parsing the text gives the address back, also from its
  16-byte form.
\<close>

theorem ipv4_print_parse:
  "\<exists>s. AppendIPv4 [] [a, b, c, d] = Some s \<and> AppendIPv4 [] (v4InV6Prefix @ [a, b, c, d]) = Some s
     \<and> ParseIPv4 [] s = Some ([a, b, c, d], None)"
proof -
  have "To4 (v4InV6Prefix @ [a, b, c, d]) = To4 [a, b, c, d]"
    by (simp add: To4_def v4InV6Prefix_def numeral_eq_Suc)
  then have "AppendIPv4 [] (v4InV6Prefix @ [a, b, c, d]) = AppendIPv4 [] [a, b, c, d]"
    by (simp add: AppendIPv4_def)
  then show ?thesis by (simp add: AppendIPv4_v4 ParseIPv4_AppendIPv4_v4 [simplified])
qed

definition html_special :: "byte set" where
  "html_special = {ch CHR ''<'', ch CHR ''>'', 34, 39}"

lemma html_sub_safe: "set (html_sub c) \<inter> html_special = {}"
  by (simp add: html_sub_def html_special_def)

lemma html_sub_Nil: "html_sub c = [] \<longleftrightarrow> c \<notin> html_special"
  by (simp add: html_sub_def html_special_def)

lemma html_escape_byte_safe: "set (html_escape_byte c) \<inter> html_special = {}"
  using html_sub_safe [of c] html_sub_Nil [of c] by (simp add: html_escape_byte_def)

text \<open>
  \<open>AppendHTMLEscape\<close> escapes byte by byte on both of its paths, and what it appends holds
  no angle bracket and no quote.
\<close>

theorem html_escape_correct:
  "AppendHTMLEscape dst s = dst @ concat (map html_escape_byte s)
   \<and> set (AppendHTMLEscape [] s) \<inter> {ch CHR ''<'', ch CHR ''>'', 34, 39} = {}"
proof -
  have "set (concat (map html_escape_byte s)) \<inter> html_special = {}"
    using html_escape_byte_safe by (induction s) (simp_all add: Int_Un_distrib2)
  then show ?thesis unfolding html_special_def by (simp only: AppendHTMLEscape_eq append_Nil)
qed

end
