(* ===== verification/Args.thy ===== *)
theory Args
  imports Bytesconv "HOL-Library.Multiset"
begin

text \<open>
  \<^verbatim>\<open>args.go\<close>: ordered lists of key-value pairs, kept in slices whose spare entries are reused,
  and the query-argument API on top of them. The header and cookie code of the repository
  stores its pairs in the same slices through the same functions.

  String and byte-slice variants of a method (\<^verbatim>\<open>Add\<close>, \<^verbatim>\<open>AddBytesK\<close>, \<^verbatim>\<open>AddBytesV\<close>,
  \<^verbatim>\<open>AddBytesKV\<close>) differ in an unsafe cast only and are one definition.
\<close>


section \<open>Pairs and slices of pairs\<close>

record argsKV =
  kv_key :: bytes
  kv_value :: bytes
  kv_noValue :: bool

abbreviation (input) argsHasValue :: bool where
  "argsHasValue \<equiv> False"

abbreviation (input) argsNoValue :: bool where
  "argsNoValue \<equiv> True"

text \<open>\<open>allocArg\<close> returns the extended slice and the index of its last entry.\<close>

definition allocArg :: "argsKV slice \<Rightarrow> argsKV slice \<times> nat" where
  "allocArg h =
     (let n = length (live h) in
      case spare h of
        kv # rest \<Rightarrow> (\<lparr>live = live h @ [kv], spare = rest\<rparr>, n)
      | [] \<Rightarrow> (slice_append h \<lparr>kv_key = [], kv_value = [], kv_noValue = False\<rparr>, n))"

definition releaseArg :: "argsKV slice \<Rightarrow> argsKV slice" where
  "releaseArg h = \<lparr>live = butlast (live h), spare = last (live h) # spare h\<rparr>"

definition set_kv :: "bytes \<Rightarrow> bytes \<Rightarrow> bool \<Rightarrow> argsKV" where
  "set_kv key value noValue =
     \<lparr>kv_key = key, kv_value = (if noValue then [] else value), kv_noValue = noValue\<rparr>"

definition appendArg :: "argsKV slice \<Rightarrow> bytes \<Rightarrow> bytes \<Rightarrow> bool \<Rightarrow> argsKV slice" where
  "appendArg args key value noValue =
     (case allocArg args of (args', n) \<Rightarrow> slice_update args' n (\<lambda>_. set_kv key value noValue))"

text \<open>The index of the first entry with the key, as the search loops find it.\<close>

fun findArg :: "argsKV list \<Rightarrow> bytes \<Rightarrow> nat option" where
  "findArg [] key = None"
| "findArg (kv # h) key = (if key = kv_key kv then Some 0 else map_option Suc (findArg h key))"

definition setArg :: "argsKV slice \<Rightarrow> bytes \<Rightarrow> bytes \<Rightarrow> bool \<Rightarrow> argsKV slice" where
  "setArg h key value noValue =
     (case findArg (live h) key of
        Some i \<Rightarrow>
          slice_update h i
            (\<lambda>kv. kv\<lparr>kv_value := (if noValue then [] else value), kv_noValue := noValue\<rparr>)
      | None \<Rightarrow> appendArg h key value noValue)"

text \<open>
  \<open>delAllArgs\<close>: a deleted entry is moved behind the visible ones, where a later \<open>allocArg\<close>
  finds it.
\<close>

fun delAllArgs_loop :: "argsKV list \<Rightarrow> argsKV list \<Rightarrow> argsKV list \<Rightarrow> bytes \<Rightarrow> argsKV slice" where
  "delAllArgs_loop kept [] sp key = \<lparr>live = kept, spare = sp\<rparr>"
| "delAllArgs_loop kept (kv # rest) sp key =
     (if key = kv_key kv then delAllArgs_loop kept rest (kv # sp) key
      else delAllArgs_loop (kept @ [kv]) rest sp key)"

definition delAllArgs :: "argsKV slice \<Rightarrow> bytes \<Rightarrow> argsKV slice" where
  "delAllArgs args key = delAllArgs_loop [] (live args) (spare args) key"

definition hasArg :: "argsKV slice \<Rightarrow> bytes \<Rightarrow> bool" where
  "hasArg h key \<longleftrightarrow> findArg (live h) key \<noteq> None"

text \<open>
  \<open>None\<close> stands for the nil of a missing key. An empty value is \<open>Some []\<close>; in the code its slice can be
  nil as well, when the entry is a slot of a grown array that no value has used; the model does not
  tell the two apart.
\<close>

definition peekArg :: "argsKV slice \<Rightarrow> bytes \<Rightarrow> bytes option" where
  "peekArg h k = map_option (\<lambda>i. kv_value (live h ! i)) (findArg (live h) k)"

definition copy_kv :: "argsKV \<Rightarrow> argsKV \<Rightarrow> argsKV" where
  "copy_kv dstKV srcKV =
     dstKV\<lparr>kv_key := kv_key srcKV,
           kv_value := (if kv_noValue srcKV then [] else kv_value srcKV),
           kv_noValue := kv_noValue srcKV\<rparr>"

definition copyArgs :: "argsKV slice \<Rightarrow> argsKV slice \<Rightarrow> argsKV slice" where
  "copyArgs dst src =
     (let n = length (live src);
          all = live dst @ spare dst;
          backing = (if slice_cap dst < n
             then all @ replicate (n - length all) \<lparr>kv_key = [], kv_value = [], kv_noValue = False\<rparr>
             else all)
      in \<lparr>live = map2 copy_kv (take n backing) (live src), spare = drop n backing\<rparr>)"

definition visitArgs :: "argsKV slice \<Rightarrow> (bytes \<times> bytes) list" where
  "visitArgs args = map (\<lambda>kv. (kv_key kv, kv_value kv)) (live args)"


section \<open>The scanner of query strings\<close>

text \<open>
  One call of \<open>argsScanner.next\<close>: \<open>b\<close> is the scanner's input, \<open>rest\<close> is \<^verbatim>\<open>b[i:]\<close>. The result
  is the filled pair and the input left, \<open>None\<close> at the end.
\<close>

fun argsScanner_loop :: "bytes \<Rightarrow> bytes \<Rightarrow> nat \<Rightarrow> bool \<Rightarrow> nat \<Rightarrow> argsKV \<Rightarrow> argsKV \<times> bytes" where
  "argsScanner_loop b [] i isKey k kv =
     (if isKey
      then (kv\<lparr>kv_key := decodeArgAppend [] b, kv_value := [], kv_noValue := argsNoValue\<rparr>, [])
      else (kv\<lparr>kv_value := decodeArgAppend [] (drop k b)\<rparr>, []))"
| "argsScanner_loop b (c # rest) i isKey k kv =
     (if c = ch CHR ''='' \<and> isKey then
        argsScanner_loop b rest (i + 1) False (i + 1)
          (kv\<lparr>kv_key := decodeArgAppend [] (take i b)\<rparr>)
      else if c = ch CHR ''&'' then
        (if isKey
         then (kv\<lparr>kv_key := decodeArgAppend [] (take i b), kv_value := [],
                  kv_noValue := argsNoValue\<rparr>, drop (i + 1) b)
         else (kv\<lparr>kv_value := decodeArgAppend [] (drop k (take i b))\<rparr>, drop (i + 1) b))
      else argsScanner_loop b rest (i + 1) isKey k kv)"

definition argsScanner_next :: "argsKV \<Rightarrow> bytes \<Rightarrow> (argsKV \<times> bytes) option" where
  "argsScanner_next kv b =
     (if length b = 0 then None
      else Some (argsScanner_loop b b 0 True 0 (kv\<lparr>kv_noValue := argsHasValue\<rparr>)))"

lemma argsScanner_loop_shrinks:
  "length rest + i = length b \<Longrightarrow> b \<noteq> [] \<Longrightarrow>
     length (snd (argsScanner_loop b rest i isKey k kv)) < length b"
  by (induction b rest i isKey k kv rule: argsScanner_loop.induct) auto

lemma argsScanner_next_shrinks:
  "argsScanner_next kv b = Some (kv', b') \<Longrightarrow> length b' < length b"
  using argsScanner_loop_shrinks [of b 0 b True 0 "kv\<lparr>kv_noValue := argsHasValue\<rparr>"]
  by (auto simp: argsScanner_next_def split: if_splits)


section \<open>Args\<close>

record Args =
  a_args :: "argsKV slice"
  a_buf :: bytes

definition Args_Reset :: "Args \<Rightarrow> Args" where
  "Args_Reset a = a\<lparr>a_args := slice_reset (a_args a)\<rparr>"

definition Args_CopyTo :: "Args \<Rightarrow> Args \<Rightarrow> Args" where
  "Args_CopyTo a dst = (let dst = Args_Reset dst in dst\<lparr>a_args := copyArgs (a_args dst) (a_args a)\<rparr>)"

definition Args_VisitAll :: "Args \<Rightarrow> (bytes \<times> bytes) list" where
  "Args_VisitAll a = visitArgs (a_args a)"

definition Args_Len :: "Args \<Rightarrow> nat" where
  "Args_Len a = length (live (a_args a))"

text \<open>
  The loop of \<open>ParseBytes\<close>: the last visible entry is the one being filled; it is kept when
  its key or its value is not empty, and refilled otherwise.
\<close>

function ParseBytes_loop :: "argsKV slice \<Rightarrow> bytes \<Rightarrow> argsKV slice" where
  "ParseBytes_loop h b =
     (case argsScanner_next (last (live h)) b of
        None \<Rightarrow> h
      | Some (kv, b') \<Rightarrow>
          (let h' = h\<lparr>live := butlast (live h) @ [kv]\<rparr> in
           if length (kv_key kv) > 0 \<or> length (kv_value kv) > 0
           then ParseBytes_loop (fst (allocArg h')) b'
           else ParseBytes_loop h' b'))"
  by pat_completeness auto
termination
  by (relation "measure (length \<circ> snd)") (auto dest: argsScanner_next_shrinks)

declare ParseBytes_loop.simps [simp del]

definition Args_ParseBytes :: "Args \<Rightarrow> bytes \<Rightarrow> Args" where
  "Args_ParseBytes a b =
     (let a = Args_Reset a in
      a\<lparr>a_args := releaseArg (ParseBytes_loop (fst (allocArg (a_args a))) b)\<rparr>)"

definition Args_Parse :: "Args \<Rightarrow> bytes \<Rightarrow> Args" where
  "Args_Parse a s = Args_ParseBytes (a\<lparr>a_buf := s\<rparr>) s"

definition append_kv :: "bytes \<Rightarrow> argsKV \<Rightarrow> bytes" where
  "append_kv dst kv =
     (let dst = AppendQuotedArg dst (kv_key kv) in
      if \<not> kv_noValue kv then
        (let dst = dst @ [ch CHR ''=''] in
         if length (kv_value kv) > 0 then AppendQuotedArg dst (kv_value kv) else dst)
      else dst)"

fun Args_AppendBytes_loop :: "bytes \<Rightarrow> argsKV list \<Rightarrow> bytes" where
  "Args_AppendBytes_loop dst [] = dst"
| "Args_AppendBytes_loop dst (kv # rest) =
     (let dst = append_kv dst kv in
      Args_AppendBytes_loop (if rest \<noteq> [] then dst @ [ch CHR ''&''] else dst) rest)"

definition Args_AppendBytes :: "Args \<Rightarrow> bytes \<Rightarrow> bytes" where
  "Args_AppendBytes a dst = Args_AppendBytes_loop dst (live (a_args a))"

definition Args_QueryString :: "Args \<Rightarrow> bytes \<times> Args" where
  "Args_QueryString a = (let s = Args_AppendBytes a [] in (s, a\<lparr>a_buf := s\<rparr>))"

definition Args_Del :: "Args \<Rightarrow> bytes \<Rightarrow> Args" where
  "Args_Del a key = a\<lparr>a_args := delAllArgs (a_args a) key\<rparr>"

definition Args_Add :: "Args \<Rightarrow> bytes \<Rightarrow> bytes \<Rightarrow> Args" where
  "Args_Add a key value = a\<lparr>a_args := appendArg (a_args a) key value argsHasValue\<rparr>"

definition Args_AddNoValue :: "Args \<Rightarrow> bytes \<Rightarrow> Args" where
  "Args_AddNoValue a key = a\<lparr>a_args := appendArg (a_args a) key [] argsNoValue\<rparr>"

definition Args_Set :: "Args \<Rightarrow> bytes \<Rightarrow> bytes \<Rightarrow> Args" where
  "Args_Set a key value = a\<lparr>a_args := setArg (a_args a) key value argsHasValue\<rparr>"

definition Args_SetNoValue :: "Args \<Rightarrow> bytes \<Rightarrow> Args" where
  "Args_SetNoValue a key = a\<lparr>a_args := setArg (a_args a) key [] argsNoValue\<rparr>"

definition Args_Peek :: "Args \<Rightarrow> bytes \<Rightarrow> bytes option" where
  "Args_Peek a key = peekArg (a_args a) key"

definition Args_PeekMulti :: "Args \<Rightarrow> bytes \<Rightarrow> bytes list" where
  "Args_PeekMulti a key =
     foldl (\<lambda>values (k, v). if k = key then values @ [v] else values) [] (Args_VisitAll a)"

definition Args_Has :: "Args \<Rightarrow> bytes \<Rightarrow> bool" where
  "Args_Has a key = hasArg (a_args a) key"

datatype args_err = ErrNoArgValue | ArgNotUint uint_err

definition Args_GetUint :: "Args \<Rightarrow> bytes \<Rightarrow> int \<times> args_err option" where
  "Args_GetUint a key =
     (case Args_Peek a key of
        None \<Rightarrow> (-1, Some ErrNoArgValue)
      | Some value \<Rightarrow>
          if length value = 0 then (-1, Some ErrNoArgValue)
          else (case ParseUint value of (v, err) \<Rightarrow> (v, map_option ArgNotUint err)))"

definition Args_SetUint :: "Args \<Rightarrow> bytes \<Rightarrow> int \<Rightarrow> Args option" where
  "Args_SetUint a key value = map_option (Args_Set a key) (AppendUint [] value)"

definition Args_GetUintOrZero :: "Args \<Rightarrow> bytes \<Rightarrow> int" where
  "Args_GetUintOrZero a key = (case Args_GetUint a key of (n, None) \<Rightarrow> n | (n, Some err) \<Rightarrow> 0)"

definition Args_GetBool :: "Args \<Rightarrow> bytes \<Rightarrow> bool" where
  "Args_GetBool a key \<longleftrightarrow>
     (case Args_Peek a key of
        None \<Rightarrow> False
      | Some v \<Rightarrow>
          v \<in> set (map bytes_of [''1'', ''t'', ''T'', ''true'', ''TRUE'', ''True'',
            ''y'', ''yes'', ''Y'', ''YES'', ''Yes'']))"

text \<open>
  \<open>Sort\<close> calls \<^verbatim>\<open>sort.SliceStable\<close>, which keeps the order of elements that are not less than
  each other; a stable insertion sort computes the same list.
\<close>

fun stable_insert :: "('a \<Rightarrow> 'a \<Rightarrow> bool) \<Rightarrow> 'a \<Rightarrow> 'a list \<Rightarrow> 'a list" where
  "stable_insert lt x [] = [x]"
| "stable_insert lt x (y # ys) = (if lt y x then y # stable_insert lt x ys else x # y # ys)"

definition SliceStable :: "('a \<Rightarrow> 'a \<Rightarrow> bool) \<Rightarrow> 'a list \<Rightarrow> 'a list" where
  "SliceStable lt xs = foldr (stable_insert lt) xs []"

definition args_less :: "(bytes \<Rightarrow> bytes \<Rightarrow> int) \<Rightarrow> argsKV \<Rightarrow> argsKV \<Rightarrow> bool" where
  "args_less f x y =
     (let n = f (kv_key x) (kv_key y) in
      if n = 0 then f (kv_value x) (kv_value y) = -1 else n = -1)"

definition Args_Sort :: "(bytes \<Rightarrow> bytes \<Rightarrow> int) \<Rightarrow> Args \<Rightarrow> Args" where
  "Args_Sort f a = a\<lparr>a_args := (a_args a)\<lparr>live := SliceStable (args_less f) (live (a_args a))\<rparr>\<rparr>"

section \<open>What the slice operations do to the visible entries\<close>


lemma allocArg_live:
  obtains kv where "live (fst (allocArg h)) = live h @ [kv]" and "snd (allocArg h) = length (live h)"
  by (cases "spare h") (auto simp: allocArg_def Let_def)

lemma length_live_allocArg [simp]: "length (live (fst (allocArg h))) = Suc (length (live h))"
  by (metis allocArg_live length_append_singleton)

lemma butlast_live_allocArg [simp]: "butlast (live (fst (allocArg h))) = live h"
  by (metis allocArg_live butlast_snoc)

lemma live_releaseArg [simp, slice_simps]: "live (releaseArg h) = butlast (live h)"
  by (simp add: releaseArg_def)

lemma live_appendArg [simp, slice_simps]:
  "live (appendArg h k v nv) = live h @ [set_kv k v nv]"
  by (cases "spare h") (auto simp: appendArg_def allocArg_def live_slice_update Let_def)

lemma findArg_None [simp]: "findArg h k = None \<longleftrightarrow> k \<notin> kv_key ` set h"
  by (induction h) auto

lemma findArg_Some: "findArg h k = Some i \<Longrightarrow> i < length h \<and> kv_key (h ! i) = k"
  by (induction h arbitrary: i) (auto split: if_splits)

text \<open>The reference operations on plain lists.\<close>

fun list_set :: "argsKV list \<Rightarrow> bytes \<Rightarrow> bytes \<Rightarrow> bool \<Rightarrow> argsKV list" where
  "list_set [] k v nv = [set_kv k v nv]"
| "list_set (kv # h) k v nv =
     (if kv_key kv = k then set_kv k v nv # h else kv # list_set h k v nv)"

definition list_del :: "argsKV list \<Rightarrow> bytes \<Rightarrow> argsKV list" where
  "list_del h k = filter (\<lambda>kv. kv_key kv \<noteq> k) h"

fun list_peek :: "argsKV list \<Rightarrow> bytes \<Rightarrow> bytes option" where
  "list_peek [] k = None"
| "list_peek (kv # h) k = (if kv_key kv = k then Some (kv_value kv) else list_peek h k)"

lemma set_kv_update:
  "kv_key kv = k \<Longrightarrow> kv\<lparr>kv_value := (if nv then [] else v), kv_noValue := nv\<rparr> = set_kv k v nv"
  by (cases kv) (simp add: set_kv_def)

lemma list_set_found:
  "findArg h k = Some i \<Longrightarrow>
     list_set h k v nv = h[i := (h ! i)\<lparr>kv_value := (if nv then [] else v), kv_noValue := nv\<rparr>]"
proof (induction h arbitrary: i)
  case (Cons kv h)
  show ?case
  proof (cases "k = kv_key kv")
    case True
    with Cons.prems show ?thesis using set_kv_update [of kv k nv v] by auto
  next
    case False
    with Cons show ?thesis by auto
  qed
qed simp

lemma list_set_new: "k \<notin> kv_key ` set h \<Longrightarrow> list_set h k v nv = h @ [set_kv k v nv]"
  by (induction h) auto

lemma live_setArg [simp, slice_simps]: "live (setArg h k v nv) = list_set (live h) k v nv"
proof (cases "findArg (live h) k")
  case None
  then have "k \<notin> kv_key ` set (live h)" by simp
  with None show ?thesis by (simp add: setArg_def list_set_new del: findArg_None)
next
  case (Some i)
  then show ?thesis by (simp add: setArg_def live_slice_update list_set_found [OF Some])
qed

lemma delAllArgs_loop_live:
  "live (delAllArgs_loop kept rest sp k) = kept @ list_del rest k"
  by (induction kept rest sp k rule: delAllArgs_loop.induct) (auto simp: list_del_def)

lemma live_delAllArgs [simp, slice_simps]: "live (delAllArgs h k) = list_del (live h) k"
  by (simp add: delAllArgs_def delAllArgs_loop_live)

lemma peekArg_list [slice_simps]: "peekArg h k = list_peek (live h) k"
proof -
  have "map_option (\<lambda>i. kv_value (xs ! i)) (findArg xs k) = list_peek xs k" for xs
    by (induction xs) (auto simp: option.map_comp comp_def)
  then show ?thesis by (simp add: peekArg_def)
qed

lemma hasArg_list [slice_simps]: "hasArg h k \<longleftrightarrow> k \<in> kv_key ` set (live h)"
  by (simp add: hasArg_def)

lemma list_peek_None: "list_peek h k = None \<longleftrightarrow> k \<notin> kv_key ` set h"
  by (induction h) auto

lemma list_peek_append:
  "list_peek (h @ h') k = (case list_peek h k of Some v \<Rightarrow> Some v | None \<Rightarrow> list_peek h' k)"
  by (induction h) auto

lemma list_peek_set:
  "list_peek (list_set h k v nv) k' =
     (if k' = k then Some (if nv then [] else v) else list_peek h k')"
  by (induction h) (auto simp: set_kv_def)

lemma list_peek_del: "list_peek (list_del h k) k' = (if k' = k then None else list_peek h k')"
  by (induction h) (auto simp: list_del_def)

lemma list_set_keys: "map kv_key (list_set h k v nv) =
    (if k \<in> kv_key ` set h then map kv_key h else map kv_key h @ [k])"
  by (induction h) (auto simp: set_kv_def)

text \<open>Copying overwrites every entry of the destination.\<close>

definition norm_kv :: "argsKV \<Rightarrow> argsKV" where
  "norm_kv kv = (if kv_noValue kv then kv\<lparr>kv_value := []\<rparr> else kv)"

lemma copy_kv_norm [simp]: "copy_kv d s = norm_kv s"
  by (cases s) (simp add: copy_kv_def norm_kv_def)

lemma map2_norm_kv: "length xs = length ys \<Longrightarrow> map2 (\<lambda>x. norm_kv) xs ys = map norm_kv ys"
  by (induction xs ys rule: list_induct2) auto

lemma live_copyArgs [simp, slice_simps]: "live (copyArgs dst src) = map norm_kv (live src)"
  by (auto simp: copyArgs_def Let_def slice_cap_def intro!: map2_norm_kv)

section \<open>Loops over a scanner\<close>


text \<open>
  \<open>ParseBytes\<close> and \<open>parseRequestCookies\<close> run the same loop over different scanners: the last
  visible entry is filled, kept when it is not empty, and dropped at the end. The contract
  names the part \<open>proj\<close> of an entry that the scanner determines; the rest of an entry may be
  whatever the recycled slot held.
\<close>

locale kv_scan_loop = scanner item items
  for item :: "bytes \<Rightarrow> ('p \<times> bytes) option" and items :: "bytes \<Rightarrow> 'p list" +
  fixes scan_kv :: "argsKV \<Rightarrow> bytes \<Rightarrow> (argsKV \<times> bytes) option"
    and loop :: "argsKV slice \<Rightarrow> bytes \<Rightarrow> argsKV slice"
    and proj :: "argsKV \<Rightarrow> 'p"
    and keep :: "'p \<Rightarrow> bool"
  assumes scan_kv_item: "map_option (map_prod proj id) (scan_kv kv b) = item b"
    and keep_proj: "keep (proj kv) \<longleftrightarrow> kv_key kv \<noteq> [] \<or> kv_value kv \<noteq> []"
    and loop_unfold:
      "loop h b =
         (case scan_kv (last (live h)) b of
            None \<Rightarrow> h
          | Some (kv, b') \<Rightarrow>
              (let h' = h\<lparr>live := butlast (live h) @ [kv]\<rparr> in
               if length (kv_key kv) > 0 \<or> length (kv_value kv) > 0
               then loop (fst (allocArg h')) b' else loop h' b'))"
begin

lemma scan_kv_None: "scan_kv kv b = None \<longleftrightarrow> item b = None"
  by (metis option.map_disc_iff scan_kv_item)

lemma loop_collects:
  "live h \<noteq> [] \<Longrightarrow>
     map proj (butlast (live (loop h b))) =
     map proj (butlast (live h)) @ filter keep (items b)"
proof (induction b arbitrary: h rule: items_induct)
  case (stop b)
  then show ?case by (subst loop_unfold) (simp add: scan_kv_None [THEN iffD2] items_None)
next
  case (step b x b')
  from step(1) obtain kv where kv: "scan_kv (last (live h)) b = Some (kv, b')" "proj kv = x"
    using scan_kv_item [of "last (live h)" b] by (cases "scan_kv (last (live h)) b") auto
  let ?h = "h\<lparr>live := butlast (live h) @ [kv]\<rparr>"
  show ?case
  proof (cases "keep x")
    case True
    with kv have "loop h b = loop (fst (allocArg ?h)) b'"
      by (subst loop_unfold) (simp add: keep_proj Let_def flip: kv(2))
    moreover have "live (fst (allocArg ?h)) \<noteq> []"
      by (metis length_live_allocArg list.size(3) nat.distinct(1))
    ultimately show ?thesis using step(2) [of "fst (allocArg ?h)"] True kv(2)
      by (simp add: items_Some [OF step(1)])
  next
    case False
    with kv have "loop h b = loop ?h b'"
      by (subst loop_unfold) (simp add: keep_proj Let_def flip: kv(2))
    with step(2) [of ?h] False show ?thesis by (simp add: items_Some [OF step(1)])
  qed
qed

lemma parse_collects:
  "map proj (live (releaseArg (loop (fst (allocArg h)) b))) =
     map proj (live h) @ filter keep (items b)"
  using loop_collects [of "fst (allocArg h)" b]
  by (metis butlast_live_allocArg length_live_allocArg list.size(3) live_releaseArg nat.distinct(1))

end


section \<open>Query strings\<close>

text \<open>
  The reference for the scanner: cut the input at the first \<^verbatim>\<open>&\<close>, and the piece at its first
  \<^verbatim>\<open>=\<close>.
\<close>

definition parse_pair :: "bytes \<Rightarrow> argsKV" where
  "parse_pair seg =
     (case IndexByte seg (ch CHR ''='') of
        None \<Rightarrow> \<lparr>kv_key = decodeArgAppend [] seg, kv_value = [], kv_noValue = argsNoValue\<rparr>
      | Some i \<Rightarrow>
          \<lparr>kv_key = decodeArgAppend [] (take i seg),
           kv_value = decodeArgAppend [] (drop (i + 1) seg), kv_noValue = argsHasValue\<rparr>)"

definition args_item :: "bytes \<Rightarrow> (argsKV \<times> bytes) option" where
  "args_item = sep_item (ch CHR ''&'') parse_pair"

definition args_items :: "bytes \<Rightarrow> argsKV list" where
  "args_items = sep_items (ch CHR ''&'') parse_pair"

lemma argsScanner_loop_value:
  assumes "b = pre @ val @ rest" and "k = length pre" and "i = length pre + length val"
  shows "argsScanner_loop b rest i False k kv =
     (kv\<lparr>kv_value := decodeArgAppend [] (val @ takeWhile (\<lambda>c. c \<noteq> ch CHR ''&'') rest)\<rparr>,
      drop (Suc (length (takeWhile (\<lambda>c. c \<noteq> ch CHR ''&'') rest))) rest)"
  using assms
proof (induction rest arbitrary: i val)
  case Nil
  then show ?case by simp
next
  case (Cons c rest)
  show ?case
  proof (cases "c = ch CHR ''&''")
    case True
    with Cons.prems show ?thesis by simp
  next
    case False
    with Cons.prems Cons.IH [of "val @ [c]" "Suc i"] show ?thesis by simp
  qed
qed

lemma parse_pair_append:
  "ch CHR ''='' \<notin> set pre \<Longrightarrow>
     parse_pair (pre @ ch CHR ''='' # v) =
       \<lparr>kv_key = decodeArgAppend [] pre, kv_value = decodeArgAppend [] v, kv_noValue = argsHasValue\<rparr>"
  by (simp add: parse_pair_def)

lemma parse_pair_no_eq:
  "ch CHR ''='' \<notin> set seg \<Longrightarrow>
     parse_pair seg = \<lparr>kv_key = decodeArgAppend [] seg, kv_value = [], kv_noValue = argsNoValue\<rparr>"
  by (auto simp: parse_pair_def split: option.splits dest: IndexByte_Some)

lemma argsScanner_loop_pair:
  assumes "b = pre @ rest" and "i = length pre" and "set pre \<inter> {ch CHR ''='', ch CHR ''&''} = {}"
    and "\<not> kv_noValue kv"
  shows "argsScanner_loop b rest i True 0 kv =
     (parse_pair (pre @ takeWhile (\<lambda>c. c \<noteq> ch CHR ''&'') rest),
      drop (Suc (length (takeWhile (\<lambda>c. c \<noteq> ch CHR ''&'') rest))) rest)"
  using assms
proof (induction rest arbitrary: i pre)
  case Nil
  then show ?case by (cases kv) (simp add: parse_pair_no_eq)
next
  case (Cons c rest)
  consider "c = ch CHR ''=''" | "c = ch CHR ''&''" | "c \<noteq> ch CHR ''=''" "c \<noteq> ch CHR ''&''"
    by blast
  then show ?case
  proof cases
    case 1
    with Cons.prems show ?thesis
      using parse_pair_append [of pre "takeWhile (\<lambda>c. c \<noteq> ch CHR ''&'') rest"]
      by (cases kv)
        (simp add: argsScanner_loop_value [where pre = "pre @ [ch CHR ''='']" and val = "[]"])
  next
    case 2
    with Cons.prems show ?thesis by (cases kv) (simp add: parse_pair_no_eq)
  next
    case 3
    with Cons.prems Cons.IH [of "pre @ [c]" "Suc i"] show ?thesis by simp
  qed
qed

lemma argsScanner_next_item: "argsScanner_next kv b = args_item b"
proof (cases b)
  case (Cons c cs)
  have "argsScanner_loop b b 0 True 0 (kv\<lparr>kv_noValue := argsHasValue\<rparr>) =
     (parse_pair (takeWhile (\<lambda>c. c \<noteq> ch CHR ''&'') b),
      drop (Suc (length (takeWhile (\<lambda>c. c \<noteq> ch CHR ''&'') b))) b)"
    using argsScanner_loop_pair [of b "[]" b 0] by simp
  with Cons show ?thesis by (simp add: argsScanner_next_def args_item_def sep_item_def Let_def)
qed (simp add: argsScanner_next_def args_item_def sep_item_def)

definition keep_kv :: "argsKV \<Rightarrow> bool" where
  "keep_kv kv \<longleftrightarrow> kv_key kv \<noteq> [] \<or> kv_value kv \<noteq> []"

interpretation args_scan: kv_scan_loop args_item args_items argsScanner_next ParseBytes_loop id keep_kv
proof unfold_locales
  show "args_item b = Some (x, b') \<Longrightarrow> length b' < length b" for b x b'
    unfolding args_item_def by (rule sep_item_shrinks)
  show "args_items b = (case args_item b of None \<Rightarrow> [] | Some (x, b') \<Rightarrow> x # args_items b')" for b
    unfolding args_items_def args_item_def by (rule sep_items_unfold)
  show "map_option (map_prod id id) (argsScanner_next kv b) = args_item b" for kv b
    by (simp add: argsScanner_next_item option.map_id prod.map_id0)
  show "keep_kv (id kv) \<longleftrightarrow> kv_key kv \<noteq> [] \<or> kv_value kv \<noteq> []" for kv
    by (simp add: keep_kv_def)
  show "ParseBytes_loop h b =
         (case argsScanner_next (last (live h)) b of None \<Rightarrow> h
          | Some (kv, b') \<Rightarrow>
              (let h' = h\<lparr>live := butlast (live h) @ [kv]\<rparr> in
               if length (kv_key kv) > 0 \<or> length (kv_value kv) > 0
               then ParseBytes_loop (fst (allocArg h')) b' else ParseBytes_loop h' b'))" for h b
    by (subst ParseBytes_loop.simps) (simp add: Let_def)
qed

lemma parse_pair_Nil: "\<not> keep_kv (parse_pair [])"
  by (simp add: keep_kv_def parse_pair_def decodeArgAppend_def)

lemma live_ParseBytes:
  "live (a_args (Args_ParseBytes a b)) =
     filter keep_kv (map parse_pair (split_on (ch CHR ''&'') b))"
  using args_scan.parse_collects [of "slice_reset (a_args a)" b]
  by (simp add: Args_ParseBytes_def Args_Reset_def Let_def args_items_def filter_sep_items parse_pair_Nil)

text \<open>Printing is joining the printed pairs; a printed pair parses to itself.\<close>

lemma append_kv_dst: "append_kv dst kv = dst @ append_kv [] kv"
  by (simp add: append_kv_def Let_def AppendQuotedArg_eq)

lemma Args_AppendBytes_loop_join:
  "Args_AppendBytes_loop dst kvs = dst @ join_with (ch CHR ''&'') (map (append_kv []) kvs)"
proof (induction kvs arbitrary: dst)
  case (Cons kv kvs)
  then show ?case by (cases kvs) (simp_all add: Let_def append_kv_dst [of dst])
qed simp

lemma append_kv_no_amp: "ch CHR ''&'' \<notin> set (append_kv [] kv)"
  using AppendQuotedArg_bytes quoted_byte_not_sep(1)
  by (auto simp: append_kv_def Let_def AppendQuotedArg_eq)

definition wf_kv :: "argsKV \<Rightarrow> bool" where
  "wf_kv kv \<longleftrightarrow> (kv_noValue kv \<longrightarrow> kv_value kv = [])"

lemma decodeArgAppend_Nil [simp]: "decodeArgAppend dst [] = dst"
  by (simp add: decodeArgAppend_def)

lemma parse_pair_append_kv: "wf_kv kv \<Longrightarrow> parse_pair (append_kv [] kv) = kv"
proof -
  assume wf: "wf_kv kv"
  have "ch CHR ''='' \<notin> set (AppendQuotedArg [] (kv_key kv))"
    using AppendQuotedArg_bytes quoted_byte_not_sep(2) by (auto simp: AppendQuotedArg_eq)
  moreover have "decodeArgAppend [] (AppendQuotedArg [] x) = x" for x
    using arg_codec.dec_enc by simp
  ultimately show ?thesis
    using wf parse_pair_no_eq [of "AppendQuotedArg [] (kv_key kv)"]
      parse_pair_append [of "AppendQuotedArg [] (kv_key kv)"]
    by (cases kv) (auto simp: append_kv_def Let_def wf_kv_def AppendQuotedArg_eq [of "_ @ _"]
        AppendQuotedArg_eq [of "[]"])
qed

lemma wf_kv_set_kv [simp]: "wf_kv (set_kv k v nv)"
  by (simp add: wf_kv_def set_kv_def)

lemma norm_kv_wf [simp]: "wf_kv kv \<Longrightarrow> norm_kv kv = kv"
  by (cases kv) (simp add: wf_kv_def norm_kv_def)

definition Args_inv :: "Args \<Rightarrow> bool" where
  "Args_inv a \<longleftrightarrow> (\<forall>kv \<in> set (live (a_args a)). wf_kv kv)"

lemma wf_list_set: "\<forall>kv \<in> set h. wf_kv kv \<Longrightarrow> \<forall>kv \<in> set (list_set h k v nv). wf_kv kv"
  by (induction h) auto

lemma wf_parse_pair: "wf_kv (parse_pair seg)"
  by (auto simp: wf_kv_def parse_pair_def split: option.splits)

text \<open>The stores of pairs as key-value stores.\<close>

interpretation args_store: kv_store_del peekArg "\<lambda>h k v. setArg h k v argsHasValue" slice_reset delAllArgs
  by unfold_locales (auto simp: peekArg_list list_peek_set list_peek_del)

lemma Args_PeekMulti_eq:
  "Args_PeekMulti a key = map kv_value (filter (\<lambda>kv. kv_key kv = key) (live (a_args a)))"
proof -
  have "foldl (\<lambda>values (k, v). if k = key then values @ [v] else values) vs
      (map (\<lambda>kv. (kv_key kv, kv_value kv)) xs) =
    vs @ map kv_value (filter (\<lambda>kv. kv_key kv = key) xs)"
    for vs and xs :: "argsKV list"
    by (induction xs arbitrary: vs) auto
  from this [of "[]"] show ?thesis by (simp add: Args_PeekMulti_def Args_VisitAll_def visitArgs_def)
qed

lemma list_peek_filter:
  "list_peek h k = (case filter (\<lambda>kv. kv_key kv = k) h of [] \<Rightarrow> None | kv # _ \<Rightarrow> Some (kv_value kv))"
  by (induction h) auto

section \<open>Sorting\<close>

lemma mset_stable_insert: "mset (stable_insert lt x ys) = add_mset x (mset ys)"
  by (induction ys) auto

lemma mset_SliceStable: "mset (SliceStable lt xs) = mset xs"
  by (induction xs) (auto simp: SliceStable_def mset_stable_insert)

lemma set_stable_insert [simp]: "set (stable_insert lt x ys) = insert x (set ys)"
  by (induction ys) auto

text \<open>What \<^verbatim>\<open>sort\<close> asks of a less function: a strict weak order.\<close>

locale strict_weak_order =
  fixes lt :: "'a \<Rightarrow> 'a \<Rightarrow> bool"
  assumes lt_asym: "lt x y \<Longrightarrow> \<not> lt y x"
    and lt_negtrans: "\<not> lt y x \<Longrightarrow> \<not> lt z y \<Longrightarrow> \<not> lt z x"
begin

lemma sorted_stable_insert:
  "sorted_wrt (\<lambda>x y. \<not> lt y x) ys \<Longrightarrow> sorted_wrt (\<lambda>x y. \<not> lt y x) (stable_insert lt x ys)"
proof (induction ys)
  case (Cons y ys)
  show ?case
  proof (cases "lt y x")
    case True
    with Cons lt_asym [OF True] show ?thesis by auto
  next
    case False
    then have "\<not> lt z x" if "z \<in> set ys" for z
      using Cons.prems that by (intro lt_negtrans [of y x z]) auto
    with False Cons.prems show ?thesis by auto
  qed
qed simp

lemma sorted_SliceStable: "sorted_wrt (\<lambda>x y. \<not> lt y x) (SliceStable lt xs)"
  by (induction xs) (auto simp: SliceStable_def sorted_stable_insert)

text \<open>Elements that are not less than each other keep their order.\<close>

lemma filter_stable_insert:
  "filter (\<lambda>y. \<not> lt w y \<and> \<not> lt y w) (stable_insert lt x ys) =
     (if \<not> lt w x \<and> \<not> lt x w then [x] else []) @ filter (\<lambda>y. \<not> lt w y \<and> \<not> lt y w) ys"
  by (induction ys) (auto dest: lt_negtrans)

lemma stable_SliceStable:
  "filter (\<lambda>y. \<not> lt w y \<and> \<not> lt y w) (SliceStable lt xs) =
     filter (\<lambda>y. \<not> lt w y \<and> \<not> lt y w) xs"
  by (induction xs) (auto simp: SliceStable_def filter_stable_insert)

end

text \<open>A three-way comparison in the style of \<^verbatim>\<open>bytes.Compare\<close>.\<close>

definition lawful_cmp :: "(bytes \<Rightarrow> bytes \<Rightarrow> int) \<Rightarrow> bool" where
  "lawful_cmp f \<longleftrightarrow>
     (\<forall>x y. f x y = -1 \<or> f x y = 0 \<or> f x y = 1) \<and> (\<forall>x y. f y x = - f x y)
     \<and> (\<forall>x y z. f x y \<le> 0 \<longrightarrow> f y z \<le> 0 \<longrightarrow> f x z \<le> 0)"

lemma lawful_cmpD:
  assumes "lawful_cmp f"
  shows "f x y = -1 \<or> f x y = 0 \<or> f x y = 1" and "f y x = - f x y"
    and "f x y \<le> 0 \<Longrightarrow> f y z \<le> 0 \<Longrightarrow> f x z \<le> 0"
  using assms unfolding lawful_cmp_def by blast+

fun bytesCompare :: "bytes \<Rightarrow> bytes \<Rightarrow> int" where
  "bytesCompare [] [] = 0"
| "bytesCompare [] (y # ys) = -1"
| "bytesCompare (x # xs) [] = 1"
| "bytesCompare (x # xs) (y # ys) =
     (if x < y then -1 else if y < x then 1 else bytesCompare xs ys)"

lemma bytesCompare_lawful: "lawful_cmp bytesCompare"
  unfolding lawful_cmp_def
proof (intro conjI allI impI)
  show "bytesCompare x y = -1 \<or> bytesCompare x y = 0 \<or> bytesCompare x y = 1" for x y
    by (induction x y rule: bytesCompare.induct) auto
  show "bytesCompare y x = - bytesCompare x y" for x y
    by (induction x y rule: bytesCompare.induct) auto
  show "bytesCompare x y \<le> 0 \<Longrightarrow> bytesCompare y z \<le> 0 \<Longrightarrow> bytesCompare x z \<le> 0" for x y z
  proof (induction x y arbitrary: z rule: bytesCompare.induct)
    case (4 x xs y ys)
    then show ?case by (cases z) (auto split: if_splits)
  next
    case (1)
    then show ?case by (cases z) auto
  next
    case (2 y ys)
    then show ?case by (cases z) auto
  qed auto
qed

definition args_le :: "(bytes \<Rightarrow> bytes \<Rightarrow> int) \<Rightarrow> argsKV \<Rightarrow> argsKV \<Rightarrow> bool" where
  "args_le f x y \<longleftrightarrow> f (kv_key x) (kv_key y) = -1
     \<or> f (kv_key x) (kv_key y) = 0 \<and> f (kv_value x) (kv_value y) \<le> 0"

lemma not_args_less:
  assumes f: "lawful_cmp f"
  shows "\<not> args_less f y x \<longleftrightarrow> args_le f x y"
  using lawful_cmpD(1) [OF f, of "kv_key y" "kv_key x"]
    lawful_cmpD(1) [OF f, of "kv_value y" "kv_value x"]
    lawful_cmpD(2) [OF f, of "kv_key x" "kv_key y"]
    lawful_cmpD(2) [OF f, of "kv_value x" "kv_value y"]
  by (auto simp: args_less_def args_le_def Let_def)

lemma cmp_trans_strict:
  assumes "lawful_cmp f" and "f a b \<le> 0" and "f b c \<le> 0" and "f a c = 0"
  shows "f a b = 0" and "f b c = 0"
proof -
  note anti = lawful_cmpD(2) [OF assms(1)] and tr = lawful_cmpD(3) [OF assms(1)]
  have "f c a \<le> 0" using anti [of c a] assms(4) by linarith
  then have "f b a \<le> 0" "f c b \<le> 0" using assms(2,3) by (blast intro: tr)+
  moreover have "f b a = - f a b" "f c b = - f b c" by (rule anti)+
  ultimately show "f a b = 0" and "f b c = 0" using assms(2,3) by auto
qed

lemma args_le_trans:
  assumes f: "lawful_cmp f" and xy: "args_le f x y" and yz: "args_le f y z"
  shows "args_le f x z"
proof -
  note tr = lawful_cmpD(3) [OF f]
  have k: "f (kv_key x) (kv_key y) \<le> 0" "f (kv_key y) (kv_key z) \<le> 0"
    using xy yz by (auto simp: args_le_def)
  then have "f (kv_key x) (kv_key z) \<le> 0" by (rule tr)
  then consider "f (kv_key x) (kv_key z) = -1" | "f (kv_key x) (kv_key z) = 0"
    using lawful_cmpD(1) [OF f, of "kv_key x" "kv_key z"] by auto
  then show ?thesis
  proof cases
    case 1
    then show ?thesis by (simp add: args_le_def)
  next
    case 2
    then have "f (kv_key x) (kv_key y) = 0" "f (kv_key y) (kv_key z) = 0"
      using cmp_trans_strict [OF f k] by auto
    with xy yz 2 show ?thesis by (auto simp: args_le_def intro: tr)
  qed
qed

lemma args_less_weak_order: "lawful_cmp f \<Longrightarrow> strict_weak_order (args_less f)"
proof unfold_locales
  assume f: "lawful_cmp f"
  show "\<not> args_less f y x \<Longrightarrow> \<not> args_less f z y \<Longrightarrow> \<not> args_less f z x" for x y z
    using args_le_trans [OF f] by (simp add: not_args_less [OF f])
  show "args_less f x y \<Longrightarrow> \<not> args_less f y x" for x y
  proof -
    assume "args_less f x y"
    then show "\<not> args_less f y x"
      using lawful_cmpD(2) [OF f, of "kv_key x" "kv_key y"]
        lawful_cmpD(2) [OF f, of "kv_value x" "kv_value y"]
      by (auto simp: args_less_def Let_def split: if_splits)
  qed
qed

interpretation bytes_order: strict_weak_order "args_less bytesCompare"
  by (rule args_less_weak_order) (rule bytesCompare_lawful)


text \<open>Parsing what was printed.\<close>

lemma reparse_live:
  assumes "Args_inv a" and "\<And>kv. kv \<in> set (live (a_args a)) \<Longrightarrow> kv_key kv \<noteq> [] \<or> kv_value kv \<noteq> []"
  shows "live (a_args (Args_ParseBytes a' (Args_AppendBytes a []))) = live (a_args a)"
proof (cases "live (a_args a) = []")
  case True
  then show ?thesis
    by (simp add: live_ParseBytes Args_AppendBytes_def parse_pair_Nil)
next
  case False
  have "split_on (ch CHR ''&'') (Args_AppendBytes a []) = map (append_kv []) (live (a_args a))"
    using False append_kv_no_amp
    by (simp add: Args_AppendBytes_def Args_AppendBytes_loop_join split_on_join_with del: of_char_Char)
  moreover have "map (parse_pair \<circ> append_kv []) (live (a_args a)) = live (a_args a)"
    using assms(1) by (intro map_idI) (simp add: Args_inv_def parse_pair_append_kv)
  moreover have "filter keep_kv (live (a_args a)) = live (a_args a)"
    using assms(2) by (simp add: keep_kv_def)
  ultimately show ?thesis by (simp add: live_ParseBytes)
qed

section \<open>Properties\<close>

text \<open>
  C34. The operations on pair slices refine operations on plain lists: what a slice shows after
  an append, an update, a deletion or a copy is a function of what it showed before, whatever
  entries the spare capacity still holds.
\<close>

theorem slice_ops_refine_lists:
  "live (appendArg h k v nv) = live h @ [set_kv k v nv]
   \<and> live (setArg h k v nv) = list_set (live h) k v nv
   \<and> live (delAllArgs h k) = filter (\<lambda>kv. kv_key kv \<noteq> k) (live h)
   \<and> live (copyArgs dst h) = map norm_kv (live h)
   \<and> peekArg h k = list_peek (live h) k \<and> (hasArg h k \<longleftrightarrow> k \<in> kv_key ` set (live h))"
  by (simp add: slice_simps list_del_def)

text \<open>
  C35. \<open>ParseBytes\<close> returns the non-empty pairs of the query string, one per piece between
  ampersands, in order; no entry of an earlier parse shows through in the recycled slots.
\<close>

theorem ParseBytes_pairs:
  "live (a_args (Args_ParseBytes a b)) =
     filter (\<lambda>kv. \<not> (kv_key kv = [] \<and> kv_value kv = []))
       (map parse_pair (split_on (ch CHR ''&'') b))"
proof -
  have "keep_kv = (\<lambda>kv. \<not> (kv_key kv = [] \<and> kv_value kv = []))"
    by (rule ext) (simp add: keep_kv_def)
  then show ?thesis using live_ParseBytes [of a b] by simp
qed

text \<open>
  C26. Printing query arguments and parsing the text gives the same arguments back, in the same
  order and with the same value-less keys, for arguments in which every pair has a key or a
  value and value-less pairs have no value.
\<close>

theorem Args_print_parse:
  assumes "Args_inv a" and "\<And>kv. kv \<in> set (live (a_args a)) \<Longrightarrow> kv_key kv \<noteq> [] \<or> kv_value kv \<noteq> []"
  shows "live (a_args (Args_ParseBytes a' (Args_AppendBytes a []))) = live (a_args a)"
  using assms by (rule reparse_live)

definition example_args :: Args where
  "example_args = Args_AddNoValue (Args_Add (Args_Add \<lparr>a_args = slice_empty, a_buf = []\<rparr>
     (bytes_of ''q'') (bytes_of ''a b&c'')) (bytes_of ''q'') (bytes_of ''='')) (bytes_of ''flag'')"

lemma live_example_args:
  "live (a_args example_args) =
     [set_kv (bytes_of ''q'') (bytes_of ''a b&c'') False, set_kv (bytes_of ''q'') (bytes_of ''='') False,
      set_kv (bytes_of ''flag'') [] True]"
  by (simp add: example_args_def Args_Add_def Args_AddNoValue_def)

theorem Args_print_parse_witness:
  "live (a_args (Args_ParseBytes example_args (Args_AppendBytes example_args []))) =
     live (a_args example_args)"
  by (rule Args_print_parse) (auto simp: Args_inv_def live_example_args set_kv_def wf_kv_def)

text \<open>
  Printing what was parsed is a normal form: parsing it again and printing once more
  changes nothing, for every input.
\<close>

theorem Args_normal_form:
  "Args_AppendBytes (Args_ParseBytes a (Args_AppendBytes (Args_ParseBytes a b) [])) [] =
     Args_AppendBytes (Args_ParseBytes a b) []"
proof -
  let ?a = "Args_ParseBytes a b"
  have "live (a_args (Args_ParseBytes a (Args_AppendBytes ?a []))) = live (a_args ?a)"
    by (rule reparse_live) (auto simp: Args_inv_def live_ParseBytes wf_parse_pair keep_kv_def)
  then show ?thesis by (simp add: Args_AppendBytes_def)
qed

text \<open>
  The API is a key-value store with repeated keys: after \<open>Set\<close> a lookup of the key gives
  the value and other keys are untouched, \<open>Del\<close> removes every entry of its key and no other,
  \<open>Add\<close> keeps earlier values in front, \<open>Peek\<close> is the first of \<open>PeekMulti\<close>.
\<close>

theorem Args_store_laws:
  "Args_Peek (Args_Set a k v) k' = (if k' = k then Some v else Args_Peek a k')
   \<and> Args_Peek (Args_Del a k) k' = (if k' = k then None else Args_Peek a k')
   \<and> (Args_Has a k \<longleftrightarrow> Args_Peek a k \<noteq> None)
   \<and> Args_PeekMulti (Args_Add a k v) k' = Args_PeekMulti a k' @ (if k' = k then [v] else [])
   \<and> Args_PeekMulti (Args_Del a k) k' = (if k' = k then [] else Args_PeekMulti a k')
   \<and> Args_Peek a k = (case Args_PeekMulti a k of [] \<Rightarrow> None | x # _ \<Rightarrow> Some x)"
proof (intro conjI)
  show "Args_Peek (Args_Set a k v) k' = (if k' = k then Some v else Args_Peek a k')"
    using args_store.lookup_update by (simp add: Args_Peek_def Args_Set_def)
  show "Args_Peek (Args_Del a k) k' = (if k' = k then None else Args_Peek a k')"
    using args_store.lookup_delete by (simp add: Args_Peek_def Args_Del_def)
  show "Args_Has a k \<longleftrightarrow> Args_Peek a k \<noteq> None"
    by (simp add: Args_Has_def Args_Peek_def slice_simps list_peek_None)
  show "Args_PeekMulti (Args_Add a k v) k' = Args_PeekMulti a k' @ (if k' = k then [v] else [])"
    by (simp add: Args_PeekMulti_eq Args_Add_def set_kv_def)
  show "Args_PeekMulti (Args_Del a k) k' = (if k' = k then [] else Args_PeekMulti a k')"
    by (auto simp: Args_PeekMulti_eq Args_Del_def list_del_def intro!: arg_cong [of _ _ "map kv_value"]
        filter_cong)
  show "Args_Peek a k = (case Args_PeekMulti a k of [] \<Rightarrow> None | x # _ \<Rightarrow> Some x)"
    by (simp add: Args_Peek_def Args_PeekMulti_eq peekArg_list list_peek_filter split: list.splits)
qed

text \<open>
  A value-less pair never carries a value: every operation keeps this, from any state, and
  parsing establishes it.
\<close>

theorem Args_inv_preserved:
  assumes "Args_inv a"
  shows "Args_inv (Args_Reset a) \<and> Args_inv (Args_ParseBytes b s) \<and> Args_inv (Args_Del a k)
    \<and> Args_inv (Args_Add a k v) \<and> Args_inv (Args_AddNoValue a k) \<and> Args_inv (Args_Set a k v)
    \<and> Args_inv (Args_SetNoValue a k) \<and> Args_inv (Args_Sort f a) \<and> Args_inv (Args_CopyTo a b)"
proof -
  have "Args_inv (Args_Sort f a)"
    using assms mset_SliceStable [of "args_less f" "live (a_args a)", THEN mset_eq_setD]
    by (simp add: Args_inv_def Args_Sort_def)
  moreover have "Args_inv (Args_ParseBytes b s)"
    by (auto simp: Args_inv_def live_ParseBytes wf_parse_pair)
  ultimately show ?thesis
    using assms wf_list_set [of "live (a_args a)"]
    by (auto simp: Args_inv_def Args_Reset_def Args_Del_def Args_Add_def Args_AddNoValue_def
        Args_Set_def Args_SetNoValue_def Args_CopyTo_def Let_def list_del_def)
qed

theorem Args_inv_preserved_witness:
  "Args_inv (Args_Set example_args (bytes_of ''q'') [])"
proof -
  have "Args_inv example_args" by (simp add: Args_inv_def live_example_args)
  from Args_inv_preserved [OF this] show ?thesis by blast
qed

text \<open>
  \<open>Sort\<close> with a lawful three-way comparison permutes the arguments into ascending order
  of key and then value, and keeps the order of arguments that compare equal.
\<close>

theorem Args_Sort_correct:
  assumes "lawful_cmp f"
  shows "mset (live (a_args (Args_Sort f a))) = mset (live (a_args a))
    \<and> sorted_wrt (\<lambda>x y. \<not> args_less f y x) (live (a_args (Args_Sort f a)))
    \<and> filter (\<lambda>y. \<not> args_less f x y \<and> \<not> args_less f y x) (live (a_args (Args_Sort f a))) =
      filter (\<lambda>y. \<not> args_less f x y \<and> \<not> args_less f y x) (live (a_args a))"
  using strict_weak_order.sorted_SliceStable [OF args_less_weak_order [OF assms]]
    strict_weak_order.stable_SliceStable [OF args_less_weak_order [OF assms]]
  by (simp add: Args_Sort_def mset_SliceStable)

theorem Args_Sort_correct_witness:
  "sorted_wrt (\<lambda>x y. \<not> args_less bytesCompare y x) (live (a_args (Args_Sort bytesCompare example_args)))"
  using Args_Sort_correct [OF bytesCompare_lawful, of example_args] by blast

text \<open>
  \<open>SetUint\<close> stores a number that \<open>GetUint\<close> reads back, and refuses negative numbers by a
  panic; a missing or empty value is reported as an error, and then \<open>GetUintOrZero\<close> is 0.
\<close>

theorem Args_uint_roundtrip:
  "(if 0 \<le> n \<and> n < 2 ^ 63
    then \<exists>a'. Args_SetUint a k n = Some a' \<and> Args_GetUint a' k = (n, None) \<and> Args_GetUintOrZero a' k = n
    else n < 0 \<longrightarrow> Args_SetUint a k n = None)
   \<and> (Args_Peek a k = None \<or> Args_Peek a k = Some [] \<longrightarrow>
        Args_GetUint a k = (-1, Some ErrNoArgValue) \<and> Args_GetUintOrZero a k = 0)"
proof -
  have "\<exists>a'. Args_SetUint a k n = Some a' \<and> Args_GetUint a' k = (n, None) \<and> Args_GetUintOrZero a' k = n"
    if "0 \<le> n" "n < 2 ^ 63"
  proof -
    let ?b = "AppendUint_loop (nat n) []"
    have "nat n < 2 ^ 63" using that by (simp add: nat_less_iff)
    then have "ParseUint ?b = (n, None)" using that by (simp add: ParseUint_AppendUint_loop)
    moreover have "Args_Peek (Args_Set a k ?b) k = Some ?b"
      using args_store.lookup_update_same by (simp add: Args_Peek_def Args_Set_def)
    ultimately show ?thesis using that
      by (simp add: Args_SetUint_def AppendUint_def Args_GetUint_def Args_GetUintOrZero_def)
  qed
  then show ?thesis
    by (auto simp: Args_SetUint_def AppendUint_def Args_GetUint_def Args_GetUintOrZero_def)
qed

theorem Args_uint_roundtrip_witness:
  "\<exists>a'. Args_SetUint example_args (bytes_of ''n'') 42 = Some a'
     \<and> Args_GetUint a' (bytes_of ''n'') = (42, None)"
  using Args_uint_roundtrip [of 42 example_args "bytes_of ''n''"] by auto

end
