(* ===== verification/URI.thy ===== *)
theory URI
  imports Args
begin

text \<open>
  \<^verbatim>\<open>uri.go\<close>: parsing, normalising, printing and updating URIs (with the Unix variant of
  \<open>addLeadingSlash\<close>). A \<open>URI\<close> value is its struct; a method that changes it returns the new
  value. \<open>normalizePath\<close> rewrites its buffer in place; the model follows the contents of the
  buffer through each of its loops.
\<close>


section \<open>Path normalisation\<close>

definition addLeadingSlash :: "bytes \<Rightarrow> bytes \<Rightarrow> bytes" where
  "addLeadingSlash dst src =
     (if src = [] \<or> hd src \<noteq> ch CHR ''/'' then dst @ [ch CHR ''/''] else dst)"

lemma Index_bound: "Index s sep = Some n \<Longrightarrow> n + length sep \<le> length s"
  by (auto dest: Index_Some)

text \<open>Remove duplicate slashes: \<open>pre\<close> is the part of the buffer before \<open>b\<close>.\<close>

function remove_slash_slash :: "bytes \<Rightarrow> bytes \<Rightarrow> bytes" where
  "remove_slash_slash pre b =
     (case Index b strSlashSlash of
        None \<Rightarrow> pre @ b
      | Some n \<Rightarrow> remove_slash_slash (pre @ take n b) (drop (n + 1) b))"
  by pat_completeness auto
termination
  by (relation "measure (length \<circ> snd)") (auto dest!: Index_bound simp: str_defs)

text \<open>Remove \<^verbatim>\<open>/./\<close> parts.\<close>

function remove_dot :: "bytes \<Rightarrow> bytes" where
  "remove_dot b =
     (case Index b strSlashDotSlash of
        None \<Rightarrow> b
      | Some n \<Rightarrow> let nn = n + length strSlashDotSlash - 1 in remove_dot (take n b @ drop nn b))"
  by pat_completeness auto
termination
  by (relation "measure length") (auto dest!: Index_bound simp: str_defs)

text \<open>Remove \<^verbatim>\<open>/foo/../\<close> parts.\<close>

function remove_dot_dot :: "bytes \<Rightarrow> bytes" where
  "remove_dot_dot b =
     (case Index b strSlashDotDotSlash of
        None \<Rightarrow> b
      | Some n \<Rightarrow>
          (let nn = (case LastIndexByte (take n b) (ch CHR ''/'') of None \<Rightarrow> 0 | Some nn \<Rightarrow> nn)
           in remove_dot_dot (take nn b @ drop (n + length strSlashDotDotSlash - 1) b)))"
  by pat_completeness auto
termination
proof (relation "measure length")
  fix b n nn
  assume n: "Index b strSlashDotDotSlash = Some n"
    and nn: "nn = (case LastIndexByte (take n b) (ch CHR ''/'') of None \<Rightarrow> 0 | Some nn \<Rightarrow> nn)"
  have "nn \<le> n"
    using nn by (auto split: option.splits elim!: LastIndexByte_SomeE)
      (metis length_append length_take le_add1 min.cobounded2 order_trans)
  with Index_bound [OF n]
  show "(take nn b @ drop (n + length strSlashDotDotSlash - 1) b, b) \<in> measure length"
    by (simp add: str_defs)
qed simp

declare remove_slash_slash.simps [simp del] remove_dot.simps [simp del] remove_dot_dot.simps [simp del]

text \<open>Remove a trailing \<^verbatim>\<open>/foo/..\<close>.\<close>

definition remove_trailing_dot_dot :: "bytes \<Rightarrow> bytes" where
  "remove_trailing_dot_dot b =
     (case LastIndex b strSlashDotDot of
        None \<Rightarrow> b
      | Some n \<Rightarrow>
          if n + length strSlashDotDot = length b then
            (case LastIndexByte (take n b) (ch CHR ''/'') of
               None \<Rightarrow> strSlash
             | Some nn \<Rightarrow> take (nn + 1) b)
          else b)"

definition normalizePath :: "bytes \<Rightarrow> bytes" where
  "normalizePath src =
     (let dst = addLeadingSlash [] src;
          dst = decodeArgAppendNoPlus dst src
      in remove_trailing_dot_dot (remove_dot_dot (remove_dot (remove_slash_slash [] dst))))"


section \<open>The URI struct\<close>

record URI =
  u_pathOriginal :: bytes
  u_scheme :: bytes
  u_path :: bytes
  u_queryString :: bytes
  u_hash :: bytes
  u_host :: bytes
  u_queryArgs :: Args
  u_parsedQueryArgs :: bool
  u_DisablePathNormalizing :: bool
  u_fullURI :: bytes
  u_requestURI :: bytes
  u_username :: bytes
  u_password :: bytes

definition URI_Reset :: "URI \<Rightarrow> URI" where
  "URI_Reset u =
     u\<lparr>u_pathOriginal := [], u_scheme := [], u_path := [], u_queryString := [], u_hash := [],
       u_username := [], u_password := [], u_host := [],
       u_queryArgs := Args_Reset (u_queryArgs u), u_parsedQueryArgs := False,
       u_DisablePathNormalizing := False\<rparr>"

definition URI_CopyTo :: "URI \<Rightarrow> URI \<Rightarrow> URI" where
  "URI_CopyTo u dst =
     (let dst = URI_Reset dst in
      dst\<lparr>u_pathOriginal := u_pathOriginal u, u_scheme := u_scheme u, u_path := u_path u,
          u_queryString := u_queryString u, u_hash := u_hash u, u_host := u_host u,
          u_username := u_username u, u_password := u_password u,
          u_queryArgs := Args_CopyTo (u_queryArgs u) (u_queryArgs dst),
          u_parsedQueryArgs := u_parsedQueryArgs u,
          u_DisablePathNormalizing := u_DisablePathNormalizing u\<rparr>)"

definition URI_SetHash :: "URI \<Rightarrow> bytes \<Rightarrow> URI" where
  "URI_SetHash u hash = u\<lparr>u_hash := hash\<rparr>"

definition URI_SetUsername :: "URI \<Rightarrow> bytes \<Rightarrow> URI" where
  "URI_SetUsername u username = u\<lparr>u_username := username\<rparr>"

definition URI_SetPassword :: "URI \<Rightarrow> bytes \<Rightarrow> URI" where
  "URI_SetPassword u password = u\<lparr>u_password := password\<rparr>"

definition URI_SetQueryString :: "URI \<Rightarrow> bytes \<Rightarrow> URI" where
  "URI_SetQueryString u queryString = u\<lparr>u_queryString := queryString, u_parsedQueryArgs := False\<rparr>"

definition URI_Path :: "URI \<Rightarrow> bytes" where
  "URI_Path u = (let path = u_path u in if length path = 0 then strSlash else path)"

definition URI_SetPath :: "URI \<Rightarrow> bytes \<Rightarrow> URI" where
  "URI_SetPath u path = u\<lparr>u_pathOriginal := path, u_path := normalizePath path\<rparr>"

definition URI_Scheme :: "URI \<Rightarrow> bytes" where
  "URI_Scheme u = (let scheme = u_scheme u in if length scheme = 0 then strHTTP else scheme)"

definition URI_SetScheme :: "URI \<Rightarrow> bytes \<Rightarrow> URI" where
  "URI_SetScheme u scheme = u\<lparr>u_scheme := lowercaseBytes scheme\<rparr>"

definition URI_SetHost :: "URI \<Rightarrow> bytes \<Rightarrow> URI" where
  "URI_SetHost u host = u\<lparr>u_host := lowercaseBytes host\<rparr>"

definition stringContainsCTLByte :: "bytes \<Rightarrow> bool" where
  "stringContainsCTLByte s \<longleftrightarrow> list_ex (\<lambda>b. b < ch CHR '' '' \<or> b = 0x7f) s"

definition splitHostURI :: "bytes \<Rightarrow> bytes \<Rightarrow> bytes \<times> bytes \<times> bytes" where
  "splitHostURI host uri =
     (case Index uri strSlashSlash of
        None \<Rightarrow> (strHTTP, host, uri)
      | Some n0 \<Rightarrow>
          (let scheme0 = take n0 uri in
           if IndexByte scheme0 (ch CHR ''/'') \<noteq> None then (strHTTP, host, uri)
           else
             (let scheme = (if length scheme0 > 0 \<and> last scheme0 = ch CHR '':''
                            then butlast scheme0 else scheme0);
                  uri' = drop (n0 + length strSlashSlash) uri;
                  n = IndexByte uri' (ch CHR ''/'');
                  nq = IndexByte uri' (ch CHR ''?'')
              in case n of
                   None \<Rightarrow>
                     (case nq of
                        Some q \<Rightarrow> (scheme, take q uri', drop q uri')
                      | None \<Rightarrow> (scheme, uri', strSlash))
                 | Some i \<Rightarrow>
                     (case nq of
                        Some q \<Rightarrow>
                          if q < i then (scheme, take q uri', drop q uri')
                          else (scheme, take i uri', drop i uri')
                      | None \<Rightarrow> (scheme, take i uri', drop i uri')))))"

datatype uri_err = ErrorInvalidURI

text \<open>The last part of \<open>parse\<close>: path, query string and hash of \<open>b\<close>.\<close>

definition URI_parse_path :: "URI \<Rightarrow> bytes \<Rightarrow> URI" where
  "URI_parse_path u b =
     (let fragmentIndex = IndexByte b (ch CHR ''#'');
          queryIndex0 = IndexByte b (ch CHR ''?'');
          queryIndex = (case (fragmentIndex, queryIndex0) of
             (Some f, Some q) \<Rightarrow> if q > f then None else Some q
           | _ \<Rightarrow> queryIndex0)
      in case (queryIndex, fragmentIndex) of
           (None, None) \<Rightarrow> u\<lparr>u_pathOriginal := b, u_path := normalizePath b\<rparr>
         | (Some q, None) \<Rightarrow>
             u\<lparr>u_pathOriginal := take q b, u_path := normalizePath (take q b),
               u_queryString := drop (q + 1) b\<rparr>
         | (Some q, Some f) \<Rightarrow>
             u\<lparr>u_pathOriginal := take q b, u_path := normalizePath (take q b),
               u_queryString := drop (q + 1) (take f b), u_hash := drop (f + 1) b\<rparr>
         | (None, Some f) \<Rightarrow>
             u\<lparr>u_pathOriginal := take f b, u_path := normalizePath (take f b),
               u_hash := drop (f + 1) b\<rparr>)"

definition URI_parse_auth :: "URI \<Rightarrow> bytes \<Rightarrow> URI \<times> bytes" where
  "URI_parse_auth u host =
     (case IndexByte host (ch CHR ''@'') of
        None \<Rightarrow> (u, host)
      | Some n \<Rightarrow>
          (let auth = take n host; host' = drop (n + 1) host in
           case IndexByte auth (ch CHR '':'') of
             Some k \<Rightarrow> (u\<lparr>u_username := take k auth, u_password := drop (k + 1) auth\<rparr>, host')
           | None \<Rightarrow> (u\<lparr>u_username := auth, u_password := []\<rparr>, host')))"

definition URI_parse :: "URI \<Rightarrow> bytes \<Rightarrow> bytes \<Rightarrow> bool \<Rightarrow> URI \<times> uri_err option" where
  "URI_parse u0 host0 uri0 isTLS =
     (let u = URI_Reset u0 in
      if stringContainsCTLByte uri0 then (u, Some ErrorInvalidURI)
      else
        (let (u, host, uri) =
               (if length host0 = 0 \<or> Index uri0 strColonSlashSlash \<noteq> None
                then (case splitHostURI host0 uri0 of
                        (scheme, newHost, newURI) \<Rightarrow>
                          (u\<lparr>u_scheme := lowercaseBytes scheme\<rparr>, newHost, newURI))
                else (u, host0, uri0));
             u = (if isTLS then u\<lparr>u_scheme := strHTTPS\<rparr> else u);
             (u, host) = URI_parse_auth u host;
             u = u\<lparr>u_host := lowercaseBytes host\<rparr>
         in (URI_parse_path u uri, None)))"

definition URI_Parse :: "URI \<Rightarrow> bytes \<Rightarrow> bytes \<Rightarrow> URI \<times> uri_err option" where
  "URI_Parse u host uri = URI_parse u host uri False"

text \<open>\<open>RequestURI\<close> caches its result in the struct.\<close>

definition URI_RequestURI :: "URI \<Rightarrow> bytes \<times> URI" where
  "URI_RequestURI u =
     (let dst = (if u_DisablePathNormalizing u then u_pathOriginal u
                 else appendQuotedPath [] (URI_Path u));
          dst = (if u_parsedQueryArgs u \<and> Args_Len (u_queryArgs u) > 0
                 then Args_AppendBytes (u_queryArgs u) (dst @ [ch CHR ''?''])
                 else if length (u_queryString u) > 0 then dst @ [ch CHR ''?''] @ u_queryString u
                 else dst)
      in (dst, u\<lparr>u_requestURI := dst\<rparr>))"

definition URI_LastPathSegment :: "URI \<Rightarrow> bytes" where
  "URI_LastPathSegment u =
     (let path = URI_Path u in
      case LastIndexByte path (ch CHR ''/'') of None \<Rightarrow> path | Some n \<Rightarrow> drop (n + 1) path)"

definition URI_appendSchemeHost :: "URI \<Rightarrow> bytes \<Rightarrow> bytes" where
  "URI_appendSchemeHost u dst = dst @ URI_Scheme u @ strColonSlashSlash @ u_host u"

definition URI_AppendBytes :: "URI \<Rightarrow> bytes \<Rightarrow> bytes \<times> URI" where
  "URI_AppendBytes u dst =
     (let dst = URI_appendSchemeHost u dst;
          (r, u) = URI_RequestURI u;
          dst = dst @ r
      in if length (u_hash u) > 0 then (dst @ [ch CHR ''#''] @ u_hash u, u) else (dst, u))"

definition URI_FullURI :: "URI \<Rightarrow> bytes \<times> URI" where
  "URI_FullURI u = (case URI_AppendBytes u [] of (s, u) \<Rightarrow> (s, u\<lparr>u_fullURI := s\<rparr>))"

text \<open>
  \<open>updateBytes\<close> returns the new buffer and the new URI; \<open>None\<close> is the panic on a path without
  a slash. On a parse error the returned buffer is nil.
\<close>

definition URI_updateBytes :: "URI \<Rightarrow> bytes \<Rightarrow> bytes \<Rightarrow> (bytes \<times> URI) option" where
  "URI_updateBytes u newURI buf =
     (if length newURI = 0 then Some (buf, u)
      else if Index newURI strSlashSlash \<noteq> None then
        (let schemeOriginal = u_scheme u in
         case URI_Parse u [] newURI of
           (u, Some err) \<Rightarrow> Some ([], u)
         | (u, None) \<Rightarrow>
             Some (buf, if length schemeOriginal > 0 \<and> length (u_scheme u) = 0
                        then u\<lparr>u_scheme := schemeOriginal\<rparr> else u))
      else if hd newURI = ch CHR ''/'' then
        (let buf = URI_appendSchemeHost u [] @ newURI in
         case URI_Parse u [] buf of (u, Some err) \<Rightarrow> Some ([], u) | (u, None) \<Rightarrow> Some (buf, u))
      else if hd newURI = ch CHR ''?'' then
        Some (URI_FullURI (URI_SetQueryString u (drop 1 newURI)))
      else if hd newURI = ch CHR ''#'' then
        Some (URI_FullURI (URI_SetHash u (drop 1 newURI)))
      else
        (let path = URI_Path u in
         case LastIndexByte path (ch CHR ''/'') of
           None \<Rightarrow> None
         | Some n \<Rightarrow>
             (let buf = appendQuotedPath (URI_appendSchemeHost u []) (take (n + 1) path) @ newURI in
              case URI_Parse u [] buf of (u, Some err) \<Rightarrow> Some ([], u) | (u, None) \<Rightarrow> Some (buf, u))))"

definition URI_UpdateBytes :: "URI \<Rightarrow> bytes \<Rightarrow> URI option" where
  "URI_UpdateBytes u newURI =
     (case URI_updateBytes u newURI (u_requestURI u) of
        None \<Rightarrow> None
      | Some (buf, u) \<Rightarrow> Some (u\<lparr>u_requestURI := buf\<rparr>))"

definition URI_parseQueryArgs :: "URI \<Rightarrow> URI" where
  "URI_parseQueryArgs u =
     (if u_parsedQueryArgs u then u
      else u\<lparr>u_queryArgs := Args_ParseBytes (u_queryArgs u) (u_queryString u),
             u_parsedQueryArgs := True\<rparr>)"

definition URI_QueryArgs :: "URI \<Rightarrow> Args \<times> URI" where
  "URI_QueryArgs u = (let u = URI_parseQueryArgs u in (u_queryArgs u, u))"

section \<open>Path normalisation: lemmas\<close>


text \<open>
  A rooted path is the list of its segments, each printed after a slash; every byte string
  that starts with a slash is one. The loops of \<open>normalizePath\<close> are then list functions.
\<close>

definition path_of :: "bytes list \<Rightarrow> bytes" where
  "path_of segs = concat (map ((#) 47) segs)"

definition segs_ok :: "bytes list \<Rightarrow> bool" where
  "segs_ok segs \<longleftrightarrow> (\<forall>s \<in> set segs. 47 \<notin> set s)"

lemma path_of_simps [simp]:
  "path_of [] = []"
  "path_of (x # segs) = 47 # x @ path_of segs"
  "path_of (xs @ ys) = path_of xs @ path_of ys"
  by (simp_all add: path_of_def)

lemma segs_ok_simps [simp]:
  "segs_ok []"
  "segs_ok (x # segs) \<longleftrightarrow> 47 \<notin> set x \<and> segs_ok segs"
  "segs_ok (xs @ ys) \<longleftrightarrow> segs_ok xs \<and> segs_ok ys"
  by (auto simp: segs_ok_def)

lemma path_of_split_on: "path_of (split_on 47 rest) = 47 # rest"
proof (induction rest)
  case Nil
  then show ?case by simp
next
  case (Cons x rest)
  obtain p ps where "split_on 47 rest = p # ps" by (cases "split_on 47 rest") auto
  with Cons show ?case by auto
qed

lemma segs_ok_split_on: "segs_ok (split_on 47 rest)"
  by (auto simp: segs_ok_def dest: split_on_pieces)

lemma split_on_path_of: "segs \<noteq> [] \<Longrightarrow> segs_ok segs \<Longrightarrow> split_on 47 (tl (path_of segs)) = segs"
proof (induction segs)
  case Nil
  then show ?case by simp
next
  case (Cons x segs)
  then show ?case
    by (cases segs) (auto simp: split_on_no_sep split_on_append)
qed

lemma path_of_eq_iff:
  "xs \<noteq> [] \<Longrightarrow> ys \<noteq> [] \<Longrightarrow> segs_ok xs \<Longrightarrow> segs_ok ys \<Longrightarrow> path_of xs = path_of ys \<longleftrightarrow> xs = ys"
  by (metis split_on_path_of)

lemma slash_prefix_seg:
  "47 \<notin> set x \<Longrightarrow> 47 \<notin> set s \<Longrightarrow>
     prefix (s @ [47]) (x @ path_of segs) \<longleftrightarrow> segs \<noteq> [] \<and> x = s"
proof (induction x arbitrary: s)
  case Nil
  then show ?case by (cases s; cases segs) auto
next
  case (Cons a x)
  then show ?case by (cases s) auto
qed

lemma Index_skip: "47 \<notin> set x \<Longrightarrow> Index (x @ ys) (47 # s) =
    map_option (\<lambda>n. length x + n) (Index ys (47 # s))"
  by (cases "Index ys (47 # s)"; induction x) (auto simp del: Index_None)

text \<open>The search for a slash-delimited segment finds the first such segment that is not last.\<close>

lemma Index_path_of_Cons:
  assumes "47 \<notin> set x" and "47 \<notin> set s"
  shows "Index (path_of (x # segs)) (47 # s @ [47]) =
    (if segs \<noteq> [] \<and> x = s then Some 0
     else map_option (\<lambda>n. Suc (length x) + n) (Index (path_of segs) (47 # s @ [47])))"
  using assms slash_prefix_seg [of x s segs] Index_skip [of x "path_of segs" "s @ [47]"]
  by (cases "Index (path_of segs) (47 # s @ [47])") (auto simp del: Index_None)

lemma Index_path_of_found:
  "segs_ok xs \<Longrightarrow> 47 \<notin> set s \<Longrightarrow> s \<notin> set xs \<Longrightarrow> ys \<noteq> [] \<Longrightarrow>
     Index (path_of (xs @ s # ys)) (47 # s @ [47]) = Some (length (path_of xs))"
proof (induction xs)
  case Nil
  then show ?case using Index_path_of_Cons [of s s ys] by simp
next
  case (Cons x xs)
  then show ?case using Index_path_of_Cons [of x s "xs @ s # ys"] by auto
qed

lemma Index_path_of_none:
  "segs_ok segs \<Longrightarrow> 47 \<notin> set s \<Longrightarrow> s \<notin> set (butlast segs) \<Longrightarrow>
     Index (path_of segs) (47 # s @ [47]) = None"
proof (induction segs)
  case Nil
  then show ?case by simp
next
  case (Cons x segs)
  then have "Index (path_of segs) (47 # s @ [47]) = None" by (cases segs) auto
  with Cons show ?case using Index_path_of_Cons [of x s segs]
    by (auto simp del: Index_None split: if_splits)
qed

lemma butlast_split:
  assumes "s \<in> set (butlast segs)"
  obtains xs ys where "segs = xs @ s # ys" "ys \<noteq> []" "s \<notin> set xs"
proof -
  from assms obtain xs zs where "butlast segs = xs @ s # zs" "s \<notin> set xs"
    by (meson split_list_first)
  moreover from assms have "segs = butlast segs @ [last segs]" by (cases segs) auto
  ultimately have "segs = xs @ s # (zs @ [last segs])" by simp
  with \<open>s \<notin> set xs\<close> show thesis by (intro that) auto
qed

definition drop_segs :: "bytes \<Rightarrow> bytes list \<Rightarrow> bytes list" where
  "drop_segs s segs = filter (\<lambda>x. x \<noteq> s) (butlast segs) @ [last segs]"

lemma drop_segs_none: "segs \<noteq> [] \<Longrightarrow> s \<notin> set (butlast segs) \<Longrightarrow> drop_segs s segs = segs"
  unfolding drop_segs_def by (subst filter_True) auto

lemma drop_segs_found: "ys \<noteq> [] \<Longrightarrow> s \<notin> set xs \<Longrightarrow> drop_segs s (xs @ s # ys) = xs @ drop_segs s ys"
  unfolding drop_segs_def by (auto simp: butlast_append intro!: filter_True)

lemma remove_slash_slash_path:
  "segs \<noteq> [] \<Longrightarrow> segs_ok segs \<Longrightarrow> remove_slash_slash pre (path_of segs) = pre @ path_of (drop_segs [] segs)"
proof (induction "length segs" arbitrary: pre segs rule: less_induct)
  case less
  show ?case
  proof (cases "[] \<in> set (butlast segs)")
    case True
    then obtain xs ys where s: "segs = xs @ [] # ys" "ys \<noteq> []" "[] \<notin> set xs" by (rule butlast_split)
    with less have "Index (path_of segs) strSlashSlash = Some (length (path_of xs))"
      using Index_path_of_found [of xs "[]" ys] by (simp add: str_defs)
    with less.hyps [of ys] less.prems s show ?thesis
      by (subst remove_slash_slash.simps) (simp add: drop_segs_found)
  next
    case False
    with less have "Index (path_of segs) strSlashSlash = None"
      using Index_path_of_none [of segs "[]"] by (simp add: str_defs del: Index_None)
    with less False show ?thesis
      by (subst remove_slash_slash.simps) (simp add: drop_segs_none del: Index_None)
  qed
qed

lemma remove_dot_path:
  "segs \<noteq> [] \<Longrightarrow> segs_ok segs \<Longrightarrow> remove_dot (path_of segs) = path_of (drop_segs [46] segs)"
proof (induction "length segs" arbitrary: segs rule: less_induct)
  case less
  show ?case
  proof (cases "[46] \<in> set (butlast segs)")
    case True
    then obtain xs ys where s: "segs = xs @ [46] # ys" "ys \<noteq> []" "[46] \<notin> set xs" by (rule butlast_split)
    with less have "Index (path_of segs) strSlashDotSlash = Some (length (path_of xs))"
      using Index_path_of_found [of xs "[46]" ys] by (simp add: str_defs)
    moreover have "drop_segs [46] segs = drop_segs [46] (xs @ ys)"
      using s by (simp add: drop_segs_def butlast_append)
    ultimately show ?thesis using less.hyps [of "xs @ ys"] less.prems s
      by (subst remove_dot.simps) (simp add: str_defs)
  next
    case False
    with less have "Index (path_of segs) strSlashDotSlash = None"
      using Index_path_of_none [of segs "[46]"] by (simp add: str_defs del: Index_None)
    with less False show ?thesis
      by (subst remove_dot.simps) (simp add: drop_segs_none del: Index_None)
  qed
qed

text \<open>Going up: \<^verbatim>\<open>..\<close> takes the last segment away, and nothing above the root.\<close>

definition up_seg :: "bytes list \<Rightarrow> bytes \<Rightarrow> bytes list" where
  "up_seg st s = (if s = [46, 46] then butlast st else st @ [s])"

lemma foldl_up_plain: "[46, 46] \<notin> set xs \<Longrightarrow> foldl up_seg st xs = st @ xs"
  by (induction xs arbitrary: st) (auto simp: up_seg_def)

lemma LastIndex_path_of:
  "segs_ok xs \<Longrightarrow> (case LastIndexByte (path_of xs) 47 of None \<Rightarrow> 0 | Some n \<Rightarrow> n) = length (path_of (butlast xs))"
  by (cases xs rule: rev_cases) auto

lemma take_path_of_butlast [simp]:
  "take (length (path_of (butlast xs))) (path_of xs) = path_of (butlast xs)"
  "length (path_of (butlast xs)) - length (path_of xs) = 0"
  by (cases xs rule: rev_cases; auto)+

lemma remove_dot_dot_path:
  "segs \<noteq> [] \<Longrightarrow> segs_ok segs \<Longrightarrow>
     remove_dot_dot (path_of segs) = path_of (foldl up_seg [] (butlast segs) @ [last segs])"
proof (induction "length segs" arbitrary: segs rule: less_induct)
  case less
  show ?case
  proof (cases "[46, 46] \<in> set (butlast segs)")
    case True
    then obtain xs ys where s: "segs = xs @ [46, 46] # ys" "ys \<noteq> []" "[46, 46] \<notin> set xs"
      by (rule butlast_split)
    with less have i: "Index (path_of segs) strSlashDotDotSlash = Some (length (path_of xs))"
      using Index_path_of_found [of xs "[46, 46]" ys] by (simp add: str_defs)
    have ok: "segs_ok (butlast xs @ ys)" "segs_ok xs"
      using less.prems s by (auto simp: segs_ok_def dest: in_set_butlastD)
    have "[46, 46] \<notin> set (butlast xs)" using s by (auto dest: in_set_butlastD)
    with s have "foldl up_seg [] (butlast segs) = foldl up_seg [] (butlast (butlast xs @ ys))"
      by (simp add: butlast_append foldl_up_plain up_seg_def [of xs])
    moreover have "remove_dot_dot (path_of (butlast xs @ ys)) =
        path_of (foldl up_seg [] (butlast (butlast xs @ ys)) @ [last (butlast xs @ ys)])"
      using s ok by (intro less.hyps) auto
    moreover have "remove_dot_dot (path_of segs) = remove_dot_dot (path_of (butlast xs @ ys))"
      using i s LastIndex_path_of [OF ok(2)]
      by (subst remove_dot_dot.simps) (simp add: str_defs Let_def)
    ultimately show ?thesis using s by simp
  next
    case False
    with less have "Index (path_of segs) strSlashDotDotSlash = None"
      using Index_path_of_none [of segs "[46, 46]"] by (simp add: str_defs del: Index_None)
    with less False show ?thesis
      by (subst remove_dot_dot.simps) (simp add: foldl_up_plain del: Index_None)
  qed
qed

lemma suffix_path_of:
  assumes "segs_ok (xs @ [x])" and "47 \<notin> set s"
  shows "suffix (47 # s) (path_of (xs @ [x])) \<longleftrightarrow> x = s"
proof
  assume "suffix (47 # s) (path_of (xs @ [x]))"
  then obtain zs where z: "path_of xs @ 47 # x = zs @ 47 # s" by (auto simp: suffix_def)
  moreover have "LastIndexByte (path_of xs @ 47 # x) 47 = Some (length (path_of xs))"
    "LastIndexByte (zs @ 47 # s) 47 = Some (length zs)"
    using assms by simp_all
  ultimately show "x = s" by simp
qed (simp add: suffix_def)

lemma LastIndex_at_end:
  assumes "sep \<noteq> []"
  shows "(\<exists>n. LastIndex b sep = Some n \<and> n + length sep = length b) \<longleftrightarrow> suffix sep b"
proof
  assume "\<exists>n. LastIndex b sep = Some n \<and> n + length sep = length b"
  then obtain n where n: "LastIndex b sep = Some n" "n + length sep = length b" by blast
  then have "prefix sep (drop n b)" "length (drop n b) = length sep"
    using LastIndex_Some_prefix [OF n(1)] by auto
  then have "drop n b = sep" by (metis append_eq_conv_conj prefix_def take_all_iff order_refl)
  then show "suffix sep b" using suffix_drop [of n b] by simp
next
  assume "suffix sep b"
  with LastIndex_suffix [OF assms this] suffix_length_le [OF this]
  show "\<exists>n. LastIndex b sep = Some n \<and> n + length sep = length b" by simp
qed

lemma remove_trailing_path:
  assumes "segs_ok (xs @ [x])"
  shows "remove_trailing_dot_dot (path_of (xs @ [x])) =
    path_of (if x = [46, 46] then butlast xs @ [[]] else xs @ [x])"
proof (cases "x = [46, 46]")
  case True
  then have s: "suffix strSlashDotDot (path_of (xs @ [x]))" by (simp add: str_defs suffix_def)
  then have l: "LastIndex (path_of (xs @ [x])) strSlashDotDot = Some (length (path_of xs))"
    using LastIndex_suffix [OF _ s] True by (simp add: str_defs)
  show ?thesis
  proof (cases xs rule: rev_cases)
    case Nil
    with l True show ?thesis by (simp add: remove_trailing_dot_dot_def str_defs)
  next
    case (snoc ys y)
    with assms have "LastIndexByte (path_of xs) 47 = Some (length (path_of ys))" by simp
    with l True snoc show ?thesis by (simp add: remove_trailing_dot_dot_def str_defs)
  qed
next
  case False
  with assms have "\<not> suffix strSlashDotDot (path_of (xs @ [x]))"
    using suffix_path_of [of xs x "[46, 46]"] by (simp add: str_defs)
  with False show ?thesis using LastIndex_at_end [of strSlashDotDot "path_of (xs @ [x])"]
    by (auto simp: remove_trailing_dot_dot_def str_defs split: option.splits)
qed

definition resolve_path :: "bytes list \<Rightarrow> bytes list" where
  "resolve_path segs =
     (let st = foldl up_seg [] (filter (\<lambda>s. s \<noteq> [] \<and> s \<noteq> [46]) (butlast segs)) in
      if last segs = [46, 46] then butlast st @ [[]] else st @ [last segs])"

text \<open>The decoded path, with the leading slash added when the source has none.\<close>

definition decoded_path :: "bytes \<Rightarrow> bytes" where
  "decoded_path src = decodeArgAppendNoPlus (addLeadingSlash [] src) src"

lemma decoded_path_slash: "\<exists>rest. decoded_path src = 47 # rest"
proof -
  have *: "\<exists>rest. decodeArgAppendNoPlus_loop [47] s = 47 # rest" for s
    by (subst decode_loop_dst(2)) simp
  show ?thesis
  proof (cases "src = [] \<or> hd src \<noteq> 47")
    case True
    with * [of src] show ?thesis
      by (simp add: decoded_path_def decodeArgAppendNoPlus_eq addLeadingSlash_def)
  next
    case False
    then obtain s where "src = 47 # s" by (cases src) auto
    with * [of s] show ?thesis
      by (simp add: decoded_path_def decodeArgAppendNoPlus_eq addLeadingSlash_def)
  qed
qed

lemma foldl_up_seg_set: "set (foldl up_seg st xs) \<subseteq> set st \<union> (set xs - {[46, 46]})"
proof (induction xs arbitrary: st)
  case (Cons x xs)
  have "set (up_seg st x) \<subseteq> set st \<union> ({x} - {[46, 46]})"
    by (auto simp: up_seg_def dest: in_set_butlastD)
  with Cons [of "up_seg st x"] show ?case by auto
qed simp

lemma segs_ok_drop: "segs \<noteq> [] \<Longrightarrow> segs_ok segs \<Longrightarrow> segs_ok (drop_segs s segs)"
  by (auto simp: segs_ok_def drop_segs_def dest: in_set_butlastD)

lemma drop_drop_segs:
  "butlast (drop_segs [46] (drop_segs [] segs)) = filter (\<lambda>s. s \<noteq> [] \<and> s \<noteq> [46]) (butlast segs)"
  "last (drop_segs [46] (drop_segs [] segs)) = last segs"
  by (auto simp: drop_segs_def intro: filter_cong)

lemma normalizePath_path:
  assumes "decoded_path src = path_of segs" and "segs \<noteq> []" and "segs_ok segs"
  shows "normalizePath src = path_of (resolve_path segs)"
proof -
  let ?d = "drop_segs [46] (drop_segs [] segs)"
  have ne: "drop_segs [] segs \<noteq> []" "?d \<noteq> []" by (simp_all add: drop_segs_def)
  have ok: "segs_ok (drop_segs [] segs)" "segs_ok ?d"
    using assms ne by (auto intro!: segs_ok_drop)
  let ?st = "foldl up_seg [] (butlast ?d)"
  have "segs_ok (?st @ [last ?d])"
    using foldl_up_seg_set [of "[]" "butlast ?d"] ok(2) ne
    by (auto simp: segs_ok_def dest: in_set_butlastD)
  then have "remove_trailing_dot_dot (path_of (?st @ [last ?d])) =
      path_of (if last ?d = [46, 46] then butlast ?st @ [[]] else ?st @ [last ?d])"
    by (rule remove_trailing_path)
  moreover have "normalizePath src = remove_trailing_dot_dot (path_of (?st @ [last ?d]))"
    using assms ne ok
    by (simp add: normalizePath_def Let_def decoded_path_def remove_slash_slash_path remove_dot_path
        remove_dot_dot_path del: path_of_simps)
  ultimately show ?thesis by (simp add: resolve_path_def drop_drop_segs Let_def)
qed

text \<open>A clean segment list: no empty, dot or dot-dot segment, except that the last may be empty or a dot.\<close>

definition clean_segs :: "bytes list \<Rightarrow> bool" where
  "clean_segs segs \<longleftrightarrow> segs \<noteq> [] \<and> segs_ok segs \<and> [46, 46] \<notin> set segs
     \<and> [] \<notin> set (butlast segs) \<and> [46] \<notin> set (butlast segs)"

definition clean_path :: "bytes \<Rightarrow> bool" where
  "clean_path p \<longleftrightarrow> p \<noteq> [] \<and> hd p = 47 \<and> clean_segs (split_on 47 (tl p))"

lemma clean_path_of: "clean_segs segs \<Longrightarrow> clean_path (path_of segs)"
  using split_on_path_of [of segs] by (cases segs) (auto simp: clean_path_def clean_segs_def)

lemma clean_pathE:
  assumes "clean_path p"
  obtains segs where "p = path_of segs" and "clean_segs segs"
proof (rule that)
  show "p = path_of (split_on 47 (tl p))"
    using assms by (cases p) (auto simp: clean_path_def path_of_split_on)
  show "clean_segs (split_on 47 (tl p))" using assms by (simp add: clean_path_def)
qed

lemma clean_resolve: "segs \<noteq> [] \<Longrightarrow> segs_ok segs \<Longrightarrow> clean_segs (resolve_path segs)"
  using foldl_up_seg_set [of "[]" "filter (\<lambda>s. s \<noteq> [] \<and> s \<noteq> [46]) (butlast segs)"]
  by (auto simp: clean_segs_def resolve_path_def segs_ok_def Let_def dest!: in_set_butlastD)

lemma clean_normalizePath [simp]: "clean_path (normalizePath src)"
proof -
  obtain rest where r: "decoded_path src = 47 # rest" using decoded_path_slash by blast
  have "decoded_path src = path_of (split_on 47 rest)"
    using r by (simp only: path_of_split_on)
  then have "normalizePath src = path_of (resolve_path (split_on 47 rest))"
    by (rule normalizePath_path) (simp_all add: segs_ok_split_on)
  then show ?thesis by (simp add: clean_path_of clean_resolve segs_ok_split_on)
qed

lemma resolve_clean:
  assumes "clean_segs segs"
  shows "resolve_path segs = segs"
proof -
  have "filter (\<lambda>s. s \<noteq> [] \<and> s \<noteq> [46]) (butlast segs) = butlast segs"
    using assms by (intro filter_True) (auto simp: clean_segs_def)
  moreover have "[46, 46] \<notin> set (butlast segs)"
    using assms by (auto simp: clean_segs_def dest: in_set_butlastD)
  moreover have "last segs \<noteq> [46, 46]"
    using assms by (metis clean_segs_def last_in_set)
  ultimately show ?thesis using assms by (simp add: resolve_path_def foldl_up_plain clean_segs_def)
qed

lemma normalizePath_decodes_clean:
  assumes "clean_path p" and "decoded_path src = p"
  shows "normalizePath src = p"
  using assms by (auto elim!: clean_pathE simp: resolve_clean clean_segs_def normalizePath_path)

lemma appendQuotedPath_slash:
  "appendQuotedPath dst (47 # p) = dst @ 47 # concat (map quote_path p)"
  by (simp add: appendQuotedPath_def appendQuotedPath_loop_eq quote_path_def
      quotedPathShouldEscapeTable_def)

lemma normalizePath_quoted:
  assumes "clean_path p"
  shows "normalizePath (appendQuotedPath [] p) = p"
proof (rule normalizePath_decodes_clean [OF assms])
  obtain q where "p = 47 # q" using assms by (cases p) (auto simp: clean_path_def)
  then show "decoded_path (appendQuotedPath [] p) = p"
    using appendQuotedPath_decodes [of p]
    by (simp add: decoded_path_def decodeArgAppendNoPlus_eq addLeadingSlash_def appendQuotedPath_slash)
qed

lemma clean_path_substrings:
  assumes "clean_path p"
  shows "\<not> sublist (bytes_of ''//'') p" "\<not> sublist (bytes_of ''/./'') p"
    "\<not> sublist (bytes_of ''/../'') p" "\<not> suffix (bytes_of ''/..'') p"
proof -
  obtain segs where p: "p = path_of segs" and c: "clean_segs segs" using assms by (rule clean_pathE)
  have *: "\<not> sublist (47 # s @ [47]) p" if "47 \<notin> set s" "s \<notin> set (butlast segs)" for s
    using Index_path_of_none [OF _ that] c p by (simp add: clean_segs_def)
  from c show "\<not> sublist (bytes_of ''//'') p" using * [of "[]"] by (simp add: clean_segs_def)
  from c show "\<not> sublist (bytes_of ''/./'') p" using * [of "[46]"] by (simp add: clean_segs_def)
  from c show "\<not> sublist (bytes_of ''/../'') p"
    using * [of "[46, 46]"] by (auto simp: clean_segs_def dest: in_set_butlastD)
  have "segs = butlast segs @ [last segs]" "last segs \<noteq> [46, 46]"
    using c by (auto simp: clean_segs_def) (metis last_in_set)
  then show "\<not> suffix (bytes_of ''/..'') p"
    using suffix_path_of [of "butlast segs" "last segs" "[46, 46]"] c p by (simp add: clean_segs_def)
qed

section \<open>Properties of paths\<close>

text \<open>
  C23. \<open>normalizePath\<close>, four passes over one buffer, computes the resolution of the decoded
  path's segments: empty and dot segments go, a dot-dot segment takes the one before it away
  and never climbs above the root, and a trailing dot-dot leaves a directory path.
\<close>

theorem normalizePath_resolves:
  "normalizePath src =
     path_of (resolve_path (split_on (ch CHR ''/'') (tl (decoded_path src))))"
proof -
  obtain rest where "decoded_path src = 47 # rest" using decoded_path_slash by blast
  then show ?thesis
    using normalizePath_path [of src "split_on 47 rest"]
    by (simp add: path_of_split_on segs_ok_split_on)
qed

text \<open>
  C14. No request path escapes its root: whatever the bytes and percent escapes, the normalised
  path starts with a slash, has no empty, dot or dot-dot segment inside, and does not end in
  a dot-dot segment.
\<close>

theorem normalizePath_safe:
  "hd (normalizePath src) = ch CHR ''/'' \<and> normalizePath src \<noteq> []
   \<and> \<not> sublist (bytes_of ''//'') (normalizePath src)
   \<and> \<not> sublist (bytes_of ''/./'') (normalizePath src)
   \<and> \<not> sublist (bytes_of ''/../'') (normalizePath src)
   \<and> \<not> suffix (bytes_of ''/..'') (normalizePath src)"
  using clean_normalizePath [of src] clean_path_substrings [OF clean_normalizePath [of src]]
  by (simp add: clean_path_def del: clean_normalizePath)

text \<open>
  A normalised path survives quoting: printing it with \<open>appendQuotedPath\<close> and normalising
  the text gives it back.
\<close>

theorem normalizePath_quote_stable:
  "normalizePath (appendQuotedPath [] (normalizePath src)) = normalizePath src"
  by (rule normalizePath_quoted) simp

section \<open>The URI struct: lemmas\<close>

lemma lowercaseBytes_idem [simp]: "lowercaseBytes (lowercaseBytes b) = lowercaseBytes b"
  by (simp add: lowercaseBytes_def toLowerTable_idem)

lemma lowercaseBytes_http [simp]: "lowercaseBytes strHTTP = strHTTP" "lowercaseBytes strHTTPS = strHTTPS"
  "lowercaseBytes [] = []"
  by (code_simp, code_simp, simp add: lowercaseBytes_def)

text \<open>
  What every operation keeps: scheme and host are in lower case, and the path is empty (printed
  as a slash) or normalised.
\<close>

definition URI_inv :: "URI \<Rightarrow> bool" where
  "URI_inv u \<longleftrightarrow> lowercaseBytes (u_scheme u) = u_scheme u \<and> lowercaseBytes (u_host u) = u_host u
     \<and> (u_path u = [] \<or> clean_path (u_path u))"

lemma URI_inv_parse_path: "URI_inv (u\<lparr>u_path := []\<rparr>) \<Longrightarrow> URI_inv (URI_parse_path u b)"
  by (auto simp: URI_parse_path_def URI_inv_def Let_def split: option.splits)

lemma URI_parse_auth_inv:
  "URI_parse_auth u host = (u', host') \<Longrightarrow>
     u_scheme u' = u_scheme u \<and> u_host u' = u_host u \<and> u_path u' = u_path u"
  by (auto simp: URI_parse_auth_def Let_def split: option.splits)

lemma URI_inv_parse: "URI_inv (fst (URI_parse u host uri tls))"
proof -
  have "lowercaseBytes (u_scheme (URI_Reset u)) = u_scheme (URI_Reset u)"
    "URI_inv (URI_Reset u)"
    by (simp_all add: URI_inv_def URI_Reset_def)
  then show ?thesis
    by (auto simp: URI_parse_def Let_def URI_inv_def [of "_\<lparr>u_path := []\<rparr>"] split: prod.splits
        intro!: URI_inv_parse_path dest!: URI_parse_auth_inv)
qed

lemma URI_inv_Parse: "URI_Parse u host uri = (v, e) \<Longrightarrow> URI_inv v"
  by (metis URI_Parse_def URI_inv_parse fst_conv)

lemma URI_inv_print:
  "URI_inv u \<Longrightarrow> URI_inv (snd (URI_RequestURI u))" "URI_inv u \<Longrightarrow> URI_inv (snd (URI_FullURI u))"
  by (simp_all add: URI_inv_def URI_RequestURI_def URI_FullURI_def URI_AppendBytes_def Let_def)

lemma URI_inv_SetQueryString_SetHash:
  "URI_inv (URI_SetQueryString u q) \<longleftrightarrow> URI_inv u" "URI_inv (URI_SetHash u q) \<longleftrightarrow> URI_inv u"
  by (simp_all add: URI_inv_def URI_SetQueryString_def URI_SetHash_def)

lemma URI_Path_clean: "URI_inv u \<Longrightarrow> clean_path (URI_Path u)"
  using clean_path_of [of "[[]]"] by (auto simp: URI_inv_def URI_Path_def Let_def strSlash_def clean_segs_def)

lemma clean_path_has_slash: "clean_path p \<Longrightarrow> \<exists>n. LastIndexByte p 47 = Some n"
  by (cases p) (auto simp: clean_path_def split: option.splits)

lemma URI_inv_reparse:
  "\<exists>b v. (case URI_Parse u [] buf of (u, Some err) \<Rightarrow> Some ([], u) | (u, None) \<Rightarrow> Some (buf, u)) = Some (b, v)
     \<and> URI_inv v"
proof -
  obtain v e where p: "URI_Parse u [] buf = (v, e)" by fastforce
  with URI_inv_Parse [OF p] show ?thesis by (cases e) auto
qed

lemma URI_inv_absolute:
  assumes "URI_inv u0"
  shows "\<exists>b v. (case URI_Parse u [] newURI of
           (u, Some err) \<Rightarrow> Some ([], u)
         | (u, None) \<Rightarrow>
             Some (buf, if u_scheme u0 \<noteq> [] \<and> u_scheme u = []
                        then u\<lparr>u_scheme := u_scheme u0\<rparr> else u)) = Some (b, v) \<and> URI_inv v"
proof -
  obtain v e where p: "URI_Parse u [] newURI = (v, e)" by fastforce
  with URI_inv_Parse [OF p] assms show ?thesis by (cases e) (auto simp: URI_inv_def)
qed

lemma URI_updateBytes_total:
  assumes "URI_inv u"
  shows "\<exists>b v. URI_updateBytes u newURI buf = Some (b, v) \<and> URI_inv v"
proof -
  obtain n where n: "LastIndexByte (URI_Path u) 47 = Some n"
    using clean_path_has_slash [OF URI_Path_clean [OF assms]] by blast
  have print: "\<exists>b v. URI_FullURI w = (b, v) \<and> URI_inv v" if "URI_inv w" for w
    using URI_inv_print(2) [OF that] by (cases "URI_FullURI w") auto
  consider "newURI = []" | "newURI \<noteq> []" "sublist strSlashSlash newURI"
    | "newURI \<noteq> []" "\<not> sublist strSlashSlash newURI" by blast
  then show ?thesis
  proof cases
    case 1
    with assms show ?thesis by (simp add: URI_updateBytes_def)
  next
    case 2
    with URI_inv_absolute [OF assms, of buf u newURI] assms show ?thesis
      by (simp add: URI_updateBytes_def Let_def)
  next
    case 3
    then show ?thesis
      using n assms URI_inv_reparse [of _ u] print [of "URI_SetQueryString u (drop 1 newURI)"]
        print [of "URI_SetHash u (drop 1 newURI)"]
      by (simp add: URI_updateBytes_def Let_def URI_inv_SetQueryString_SetHash)
  qed
qed

lemma URI_UpdateBytes_total:
  assumes "URI_inv u"
  shows "\<exists>v. URI_UpdateBytes u newURI = Some v \<and> URI_inv v"
  using URI_updateBytes_total [OF assms, of newURI "u_requestURI u"]
  by (auto simp: URI_UpdateBytes_def URI_inv_def)

text \<open>Quoted paths and printed arguments hold no control byte, no question mark and no hash.\<close>

definition plain_byte :: "byte \<Rightarrow> bool" where
  "plain_byte c \<longleftrightarrow> \<not> (c < 32 \<or> c = 127) \<and> c \<noteq> 35 \<and> c \<noteq> 63"

lemma unescaped_plain: "quotedPathShouldEscapeTable c = 0 \<Longrightarrow> plain_byte c"
  by (auto simp: plain_byte_def quotedPathShouldEscapeTable_def quotedArgShouldEscapeTable_def
      word_le_nat_alt word_less_nat_alt split: if_splits)

lemma unescaped_arg_path: "quotedArgShouldEscapeTable c = 0 \<Longrightarrow> quotedPathShouldEscapeTable c = 0"
  by (simp add: quotedPathShouldEscapeTable_def)

lemma quoted_byte_plain: "quoted_byte c \<Longrightarrow> plain_byte c"
  unfolding quoted_byte_def
  using unescaped_plain [OF unescaped_arg_path, of c] by (auto simp: plain_byte_def)

lemma quote_path_plain: "x \<in> set (quote_path c) \<Longrightarrow> plain_byte x"
proof -
  have "x \<in> set (quote_byte c) \<Longrightarrow> quoted_byte x" for c
    by (auto simp: quote_byte_def quoted_byte_def upperhex_plain high_nibble_less low_nibble_less)
  then show "x \<in> set (quote_path c) \<Longrightarrow> plain_byte x"
    by (auto simp: quote_path_def unescaped_plain quoted_byte_plain split: if_splits)
qed

lemma set_join_with: "set (join_with c xs) \<subseteq> insert c (\<Union> (set ` set xs))"
  by (induction c xs rule: join_with.induct) auto

lemma Args_AppendBytes_plain: "x \<in> set (Args_AppendBytes a []) \<Longrightarrow> plain_byte x"
proof -
  assume "x \<in> set (Args_AppendBytes a [])"
  then have "x = 38 \<or> (\<exists>kv. x \<in> set (append_kv [] kv))"
    using set_join_with [of 38 "map (append_kv []) (live (a_args a))"]
    by (auto simp: Args_AppendBytes_def Args_AppendBytes_loop_join)
  moreover have "x \<in> set (append_kv [] kv) \<Longrightarrow> quoted_byte x \<or> x = 61" for kv
    using AppendQuotedArg_bytes by (auto simp: append_kv_def Let_def AppendQuotedArg_eq split: if_splits)
  moreover have "plain_byte 38" "plain_byte 61" by (simp_all add: plain_byte_def)
  ultimately show ?thesis using quoted_byte_plain by metis
qed

lemma Args_AppendBytes_dst: "Args_AppendBytes a dst = dst @ Args_AppendBytes a []"
  by (simp add: Args_AppendBytes_def Args_AppendBytes_loop_join)

text \<open>The query string that \<open>RequestURI\<close> prints.\<close>

definition printed_query :: "URI \<Rightarrow> bytes" where
  "printed_query u =
     (if u_parsedQueryArgs u \<and> Args_Len (u_queryArgs u) > 0 then Args_AppendBytes (u_queryArgs u) []
      else u_queryString u)"

definition printed_tail :: "byte \<Rightarrow> bytes \<Rightarrow> bytes" where
  "printed_tail c s = (if s = [] then [] else c # s)"

definition URI_printable :: "URI \<Rightarrow> bool" where
  "URI_printable u \<longleftrightarrow> \<not> u_DisablePathNormalizing u
     \<and> set (u_scheme u) \<inter> {47} = {} \<and> set (u_host u) \<inter> {47, 63, 64} = {}
     \<and> 35 \<notin> set (u_queryString u)
     \<and> (u_parsedQueryArgs u \<and> Args_Len (u_queryArgs u) > 0 \<longrightarrow> Args_AppendBytes (u_queryArgs u) [] \<noteq> [])
     \<and> \<not> stringContainsCTLByte (u_scheme u @ u_host u @ u_queryString u @ u_hash u)"

lemma ctl_append [simp]: "stringContainsCTLByte (x @ y) \<longleftrightarrow> stringContainsCTLByte x \<or> stringContainsCTLByte y"
  by (simp add: stringContainsCTLByte_def)

lemma ctl_Cons: "stringContainsCTLByte (c # y) \<longleftrightarrow> c < 32 \<or> c = 127 \<or> stringContainsCTLByte y"
  by (simp add: stringContainsCTLByte_def)

lemma ctl_plain: "(\<And>x. x \<in> set s \<Longrightarrow> plain_byte x) \<Longrightarrow> \<not> stringContainsCTLByte s"
  by (auto simp: stringContainsCTLByte_def plain_byte_def list_ex_iff)

text \<open>The printed form, piece by piece, and what the parser makes of each piece.\<close>

lemma FullURI_pieces:
  assumes "URI_printable u"
  shows "fst (URI_FullURI u) =
    URI_Scheme u @ 58 # 47 # 47 # u_host u @ appendQuotedPath [] (URI_Path u)
      @ printed_tail 63 (printed_query u) @ printed_tail 35 (u_hash u)"
  using assms Args_AppendBytes_dst [of "u_queryArgs u" "appendQuotedPath [] (URI_Path u) @ [63]"]
  by (auto simp: URI_printable_def URI_FullURI_def URI_AppendBytes_def URI_appendSchemeHost_def URI_RequestURI_def
      printed_query_def printed_tail_def strColonSlashSlash_def Let_def)

lemma splitHostURI_absolute:
  assumes "47 \<notin> set s" and "47 \<notin> set h" and "63 \<notin> set h"
  shows "splitHostURI host (s @ 58 # 47 # 47 # h @ 47 # rest) = (s, h, 47 # rest)"
proof -
  have i: "Index (s @ 58 # 47 # 47 # h @ 47 # rest) strSlashSlash = Some (length s + 1)"
    using assms Index_skip [of "s @ [58]" "47 # 47 # h @ 47 # rest" "[47]"] by (simp add: str_defs)
  have "IndexByte (h @ 47 # rest) 63 = map_option (\<lambda>n. n + length h + 1) (IndexByte rest 63)"
    using assms(3) by (induction h) (auto simp: option.map_comp comp_def)
  with i assms show ?thesis
    by (auto simp: splitHostURI_def Let_def str_defs split: option.splits)
qed

lemma parse_path_tails:
  assumes "\<And>x. x \<in> set p \<Longrightarrow> plain_byte x" and "35 \<notin> set q"
    and "u_queryString u = []" and "u_hash u = []"
  shows "URI_parse_path u (p @ printed_tail 63 q @ printed_tail 35 h) =
    u\<lparr>u_pathOriginal := p, u_path := normalizePath p, u_queryString := q, u_hash := h\<rparr>"
proof -
  have p: "63 \<notin> set p" "35 \<notin> set p" using assms(1) by (auto simp: plain_byte_def)
  show ?thesis
  proof (cases "q = []")
    case True
    with p assms(3,4) show ?thesis
      by (cases "h = []"; cases "63 \<in> set h")
        (auto simp: URI_parse_path_def printed_tail_def IndexByte_takeWhile takeWhile_append
          split: option.splits)
  next
    case False
    have "IndexByte (p @ 63 # q @ 35 # h) 35 = Some (length (p @ 63 # q))"
      using IndexByte_append [of 35 "p @ 63 # q" h] p assms(2) by simp
    moreover have "IndexByte (p @ 63 # q) 35 = None" using p assms(2) by auto
    ultimately show ?thesis using False p assms(2-4)
      by (cases "h = []") (simp_all add: URI_parse_path_def printed_tail_def Let_def del: IndexByte_None)
  qed
qed

lemma URI_Parse_pieces:
  assumes "set s \<inter> {47} = {}" and "set h \<inter> {47, 63, 64} = {}" and "p = 47 # rest"
    and "\<And>x. x \<in> set p \<Longrightarrow> plain_byte x" and "35 \<notin> set q"
    and "\<not> stringContainsCTLByte (s @ h @ q @ f)"
  shows "URI_Parse v [] (s @ 58 # 47 # 47 # h @ p @ printed_tail 63 q @ printed_tail 35 f) =
    ((URI_Reset v)\<lparr>u_scheme := lowercaseBytes s, u_host := lowercaseBytes h, u_pathOriginal := p,
       u_path := normalizePath p, u_queryString := q, u_hash := f\<rparr>, None)"
proof -
  let ?tail = "printed_tail 63 q @ printed_tail 35 f"
  have "\<not> stringContainsCTLByte (printed_tail 63 q)" "\<not> stringContainsCTLByte (printed_tail 35 f)"
    using assms(6) by (auto simp: printed_tail_def ctl_Cons)
  then have ctl: "\<not> stringContainsCTLByte (s @ 58 # 47 # 47 # h @ p @ ?tail)"
    using assms(4,6) ctl_plain [of p] by (simp add: ctl_Cons)
  have split: "splitHostURI [] (s @ 58 # 47 # 47 # h @ p @ ?tail) = (s, h, p @ ?tail)"
    using splitHostURI_absolute [of s h "[]" "rest @ ?tail"] assms(1-3) by auto
  have "IndexByte h 64 = None" using assms(2) by auto
  then have auth: "URI_parse_auth w h = (w, h)" for w
    by (simp add: URI_parse_auth_def del: IndexByte_None)
  show ?thesis
    using ctl split auth parse_path_tails [OF assms(4,5)]
    by (simp add: URI_Parse_def URI_parse_def Let_def URI_Reset_def)
qed

lemma URI_Scheme_props:
  assumes "URI_inv u" and "URI_printable u"
  shows "lowercaseBytes (URI_Scheme u) = URI_Scheme u" and "set (URI_Scheme u) \<inter> {47} = {}"
    and "\<not> stringContainsCTLByte (URI_Scheme u)"
  using assms
  by (simp_all add: URI_inv_def URI_printable_def URI_Scheme_def Let_def)
    (simp_all add: strHTTP_def stringContainsCTLByte_def)

lemma printed_query_ok:
  assumes "URI_printable u"
  shows "35 \<notin> set (printed_query u)" and "\<not> stringContainsCTLByte (printed_query u)"
  using assms Args_AppendBytes_plain [of _ "u_queryArgs u"]
    ctl_plain [of "Args_AppendBytes (u_queryArgs u) []"]
  by (auto simp: printed_query_def URI_printable_def plain_byte_def)

lemma quoted_path_pieces:
  assumes "clean_path p"
  obtains rest where "appendQuotedPath [] p = 47 # rest" and "\<And>x. x \<in> set (47 # rest) \<Longrightarrow> plain_byte x"
proof -
  obtain q where p: "p = 47 # q" using assms by (cases p) (auto simp: clean_path_def)
  have "plain_byte 47" by (simp add: plain_byte_def)
  then show thesis using quote_path_plain p by (intro that [of "concat (map quote_path q)"])
    (auto simp: appendQuotedPath_slash)
qed

lemma FullURI_reparse:
  assumes "URI_inv u" and "URI_printable u"
  shows "URI_Parse v [] (fst (URI_FullURI u)) =
    ((URI_Reset v)\<lparr>u_scheme := URI_Scheme u, u_host := u_host u,
       u_pathOriginal := appendQuotedPath [] (URI_Path u), u_path := URI_Path u,
       u_queryString := printed_query u, u_hash := u_hash u\<rparr>, None)"
proof -
  note clean = URI_Path_clean [OF assms(1)]
  obtain rest where r: "appendQuotedPath [] (URI_Path u) = 47 # rest"
    "\<And>x. x \<in> set (47 # rest) \<Longrightarrow> plain_byte x"
    using quoted_path_pieces [OF clean] by blast
  have "set (u_host u) \<inter> {47, 63, 64} = {}"
    "lowercaseBytes (u_host u) = u_host u"
    "\<not> stringContainsCTLByte (URI_Scheme u @ u_host u @ printed_query u @ u_hash u)"
    using assms printed_query_ok [OF assms(2)] URI_Scheme_props [OF assms]
    by (auto simp: URI_inv_def URI_printable_def)
  then show ?thesis
    using URI_Parse_pieces [of "URI_Scheme u" "u_host u" "47 # rest" rest "printed_query u" "u_hash u" v]
      r printed_query_ok [OF assms(2)] URI_Scheme_props [OF assms] normalizePath_quoted [OF clean]
    by (simp add: FullURI_pieces [OF assms(2)])
qed

section \<open>Properties of URIs\<close>

text \<open>
  C36. Every operation keeps the scheme and host in lower case and the path normalised, and an
  update of such a URI never reaches the panic for a path without a slash.
\<close>

theorem URI_inv_preserved:
  assumes "URI_inv u"
  shows "URI_inv (URI_Reset v) \<and> URI_inv (URI_CopyTo u v) \<and> URI_inv (URI_SetPath u b)
    \<and> URI_inv (URI_SetScheme u b) \<and> URI_inv (URI_SetHost u b) \<and> URI_inv (URI_SetHash u b)
    \<and> URI_inv (URI_SetUsername u b) \<and> URI_inv (URI_SetPassword u b) \<and> URI_inv (URI_SetQueryString u b)
    \<and> URI_inv (fst (URI_parse v host uri isTLS)) \<and> URI_inv (snd (URI_RequestURI u))
    \<and> URI_inv (snd (URI_FullURI u)) \<and> URI_inv (snd (URI_QueryArgs u))
    \<and> (\<exists>w. URI_UpdateBytes u newURI = Some w \<and> URI_inv w)"
proof (intro conjI)
  show "\<exists>w. URI_UpdateBytes u newURI = Some w \<and> URI_inv w" by (rule URI_UpdateBytes_total [OF assms])
qed (use assms in \<open>simp_all add: URI_inv_parse URI_inv_print, simp_all add: URI_inv_def URI_Reset_def
    URI_CopyTo_def URI_SetPath_def URI_SetScheme_def URI_SetHost_def URI_SetHash_def URI_SetUsername_def
    URI_SetPassword_def URI_SetQueryString_def URI_QueryArgs_def URI_parseQueryArgs_def Let_def\<close>)

definition empty_uri :: URI where
  "empty_uri = \<lparr>u_pathOriginal = [], u_scheme = [], u_path = [], u_queryString = [], u_hash = [],
     u_host = [], u_queryArgs = \<lparr>a_args = slice_empty, a_buf = []\<rparr>, u_parsedQueryArgs = False,
     u_DisablePathNormalizing = False, u_fullURI = [], u_requestURI = [], u_username = [], u_password = []\<rparr>"

theorem URI_inv_preserved_witness:
  "\<exists>w. URI_UpdateBytes empty_uri (bytes_of ''a/../b'') = Some w \<and> URI_inv w"
proof -
  have "URI_inv empty_uri" by (simp add: URI_inv_def empty_uri_def)
  from URI_inv_preserved [OF this] show ?thesis by blast
qed

text \<open>
  C24. Printing a URI and parsing the text gives its scheme, host, path, query and hash back,
  for URIs that satisfy the invariant and whose parts hold no delimiter of another part.
\<close>

theorem URI_print_parse:
  assumes "URI_inv u" and "URI_printable u"
  shows "\<exists>w. URI_Parse v [] (fst (URI_FullURI u)) = (w, None)
    \<and> u_scheme w = URI_Scheme u \<and> u_host w = u_host u \<and> u_path w = URI_Path u
    \<and> u_queryString w = printed_query u \<and> u_hash w = u_hash u
    \<and> fst (URI_FullURI w) = fst (URI_FullURI u)"
proof -
  let ?w = "fst (URI_Parse v [] (fst (URI_FullURI u)))"
  note w = FullURI_reparse [OF assms, of v]
  have "URI_Path ?w = URI_Path u"
    using w URI_Path_clean [OF assms(1)] by (simp add: URI_Path_def Let_def clean_path_def)
  moreover have "URI_Scheme ?w = URI_Scheme u"
    using w by (simp add: URI_Scheme_def Let_def strHTTP_def)
  moreover have "printed_query ?w = printed_query u"
    using w by (simp add: URI_Reset_def printed_query_def)
  moreover have "URI_printable ?w"
    using w assms(2) URI_Scheme_props [OF assms] printed_query_ok [OF assms(2)]
    by (simp add: URI_printable_def URI_Reset_def)
  ultimately have "fst (URI_FullURI ?w) = fst (URI_FullURI u)"
    using w assms(2) by (simp add: FullURI_pieces)
  with w show ?thesis by simp
qed

definition example_uri :: URI where
  "example_uri = fst (URI_Parse empty_uri [] (bytes_of ''HTTP://Foo.com/a%20b/../c?x=1#top''))"

definition has_parts :: "URI \<Rightarrow> bytes \<Rightarrow> bytes \<Rightarrow> bytes \<Rightarrow> bytes \<Rightarrow> bytes \<Rightarrow> bool" where
  "has_parts u scheme host path queryString hash \<longleftrightarrow>
     u_scheme u = scheme \<and> u_host u = host \<and> u_path u = path \<and> u_queryString u = queryString \<and> u_hash u = hash
     \<and> \<not> u_DisablePathNormalizing u \<and> \<not> u_parsedQueryArgs u"

lemma example_uri_parts:
  "has_parts example_uri (bytes_of ''http'') (bytes_of ''foo.com'') (bytes_of ''/c'') (bytes_of ''x=1'') (bytes_of ''top'')"
  by code_simp

lemma example_uri_eq:
  "u_scheme example_uri = bytes_of ''http''" "u_host example_uri = bytes_of ''foo.com''"
  "u_path example_uri = bytes_of ''/c''" "u_queryString example_uri = bytes_of ''x=1''"
  "u_hash example_uri = bytes_of ''top''" "\<not> u_DisablePathNormalizing example_uri"
  "\<not> u_parsedQueryArgs example_uri"
  using example_uri_parts by (simp_all add: has_parts_def)

theorem URI_print_parse_witness:
  "\<exists>w. URI_Parse empty_uri [] (fst (URI_FullURI example_uri)) = (w, None)
     \<and> fst (URI_FullURI w) = fst (URI_FullURI example_uri)"
proof -
  have "URI_inv example_uri"
    unfolding example_uri_def URI_Parse_def by (rule URI_inv_parse)
  moreover have "URI_printable example_uri"
    by (simp add: URI_printable_def example_uri_eq ctl_Cons del: ctl_append)
      (simp add: stringContainsCTLByte_def)
  ultimately show ?thesis using URI_print_parse [of example_uri empty_uri] by blast
qed

text \<open>What the parser accepts without credentials in the host is printable.\<close>

lemma splitHostURI_parts:
  assumes "splitHostURI [] uri = (s, h, r)"
  shows "set s \<inter> {47} = {}" and "set h \<inter> {47, 63} = {}"
    and "set s \<subseteq> set uri \<union> set strHTTP" and "set h \<subseteq> set uri" and "set r \<subseteq> set uri \<union> {47}"
proof -
  have "set s \<inter> {47} = {} \<and> set h \<inter> {47, 63} = {} \<and> set s \<subseteq> set uri \<union> set strHTTP
      \<and> set h \<subseteq> set uri \<and> set r \<subseteq> set uri \<union> {47}"
  proof (cases "Index uri strSlashSlash")
    case None
    with assms show ?thesis by (auto simp: splitHostURI_def strHTTP_def simp del: Index_None)
  next
    case (Some n0)
    let ?s0 = "take n0 uri"
    show ?thesis
    proof (cases "47 \<in> set ?s0")
      case True
      with Some assms show ?thesis by (auto simp: splitHostURI_def strHTTP_def)
    next
      case False
      define uri' where "uri' = drop (n0 + length strSlashSlash) uri"
      define sc where "sc = (if length ?s0 > 0 \<and> last ?s0 = ch CHR '':'' then butlast ?s0 else ?s0)"
      from False have "IndexByte ?s0 (ch CHR ''/'') = None" by simp
      with Some assms [symmetric] have eq: "(s, h, r) =
        (case IndexByte uri' (ch CHR ''/'') of
           None \<Rightarrow> (case IndexByte uri' (ch CHR ''?'') of
               Some q \<Rightarrow> (sc, take q uri', drop q uri') | None \<Rightarrow> (sc, uri', strSlash))
         | Some i \<Rightarrow> (case IndexByte uri' (ch CHR ''?'') of
               Some q \<Rightarrow> if q < i then (sc, take q uri', drop q uri') else (sc, take i uri', drop i uri')
             | None \<Rightarrow> (sc, take i uri', drop i uri')))"
        by (simp only: splitHostURI_def Let_def uri'_def sc_def option.case simp_thms if_False)
      have sub: "set uri' \<subseteq> set uri" "set ?s0 \<subseteq> set uri" "set sc \<subseteq> set ?s0"
        by (auto simp: uri'_def sc_def dest: in_set_dropD in_set_takeD in_set_butlastD)
      have min_take: "take (min i q) uri' = take i (take q uri')" "take (min i q) uri' = take q (take i uri')" for i q
        by (simp_all add: min.commute)
      have h: "s = sc \<and> set h \<inter> {47, 63} = {} \<and> set h \<subseteq> set uri' \<and> set r \<subseteq> set uri' \<union> {47}"
      proof (cases "IndexByte uri' 47"; cases "IndexByte uri' 63")
        assume "IndexByte uri' 47 = None" "IndexByte uri' 63 = None"
        with eq show ?thesis by (auto simp: strSlash_def)
      next
        fix q assume q: "IndexByte uri' 47 = None" "IndexByte uri' 63 = Some q"
        with eq IndexByte_Some [OF q(2)] show ?thesis
          by (auto simp del: IndexByte_None dest: in_set_takeD in_set_dropD)
            (meson IndexByte_None in_set_takeD)
      next
        fix i assume q: "IndexByte uri' 47 = Some i" "IndexByte uri' 63 = None"
        with eq IndexByte_Some [OF q(1)] show ?thesis
          by (auto simp del: IndexByte_None dest: in_set_takeD in_set_dropD)
            (meson IndexByte_None in_set_takeD)
      next
        fix i q assume q: "IndexByte uri' 47 = Some i" "IndexByte uri' 63 = Some q"
        with eq have hr: "s = sc" "h = take (min i q) uri'" "r = drop (min i q) uri'"
          by (auto simp: min_def split: if_splits)
        moreover have "47 \<notin> set (take (min i q) uri')" "63 \<notin> set (take (min i q) uri')"
          using IndexByte_Some [OF q(1)] IndexByte_Some [OF q(2)] min_take [of i q]
          by (metis in_set_takeD)+
        ultimately show ?thesis by (auto dest: in_set_takeD in_set_dropD)
      qed
      with False sub show ?thesis by auto
    qed
  qed
  then show "set s \<inter> {47} = {}" and "set h \<inter> {47, 63} = {}"
    and "set s \<subseteq> set uri \<union> set strHTTP" and "set h \<subseteq> set uri" and "set r \<subseteq> set uri \<union> {47}"
    by blast+
qed

lemma lowercase_bytes: "x \<in> set (lowercaseBytes b) \<Longrightarrow> x \<in> set b \<or> (97 \<le> x \<and> x \<le> 122)"
proof -
  have "65 \<le> c \<Longrightarrow> c \<le> 90 \<Longrightarrow> 97 \<le> c + 32 \<and> c + 32 \<le> 122" for c :: byte
    by (simp add: word_le_nat_alt unat_word_ariths)
  then show "x \<in> set (lowercaseBytes b) \<Longrightarrow> x \<in> set b \<or> (97 \<le> x \<and> x \<le> 122)"
    by (auto simp: lowercaseBytes_def toLowerTable_def)
qed

lemma lower_letter: "97 \<le> x \<and> x \<le> 122 \<Longrightarrow> plain_byte x \<and> x \<noteq> 47 \<and> x \<noteq> 64" for x :: byte
  by (auto simp: plain_byte_def word_le_nat_alt word_less_nat_alt)

lemma ctl_iff: "stringContainsCTLByte s \<longleftrightarrow> (\<exists>x \<in> set s. x < 32 \<or> x = 127)"
  by (auto simp: stringContainsCTLByte_def list_ex_iff)

lemma ctl_lowercase: "\<not> stringContainsCTLByte b \<Longrightarrow> \<not> stringContainsCTLByte (lowercaseBytes b)"
  unfolding ctl_iff using lowercase_bytes [of _ b] lower_letter unfolding plain_byte_def by blast

lemma parse_auth_host:
  "URI_parse_auth u h = (u', h') \<Longrightarrow> set h' \<subseteq> set h \<and> u_scheme u' = u_scheme u
     \<and> u_queryString u' = u_queryString u \<and> u_hash u' = u_hash u
     \<and> u_DisablePathNormalizing u' = u_DisablePathNormalizing u
     \<and> u_parsedQueryArgs u' = u_parsedQueryArgs u"
  by (auto simp: URI_parse_auth_def Let_def split: option.splits dest: in_set_dropD)

lemma parse_path_parts:
  assumes "u_queryString u = []" and "u_hash u = []"
  shows "set (u_queryString (URI_parse_path u b)) \<subseteq> set b - {35}"
    and "set (u_hash (URI_parse_path u b)) \<subseteq> set b"
    and "u_scheme (URI_parse_path u b) = u_scheme u" and "u_host (URI_parse_path u b) = u_host u"
    and "u_DisablePathNormalizing (URI_parse_path u b) = u_DisablePathNormalizing u"
    and "u_parsedQueryArgs (URI_parse_path u b) = u_parsedQueryArgs u"
  using assms
  by (auto simp: URI_parse_path_def Let_def split: option.splits dest!: IndexByte_Some
      dest: in_set_dropD in_set_takeD)

lemma Parse_absolute:
  assumes "URI_Parse v [] uri = (u, None)"
  obtains s h r w h' where "splitHostURI [] uri = (s, h, r)" and "\<not> stringContainsCTLByte uri"
    and "URI_parse_auth ((URI_Reset v)\<lparr>u_scheme := lowercaseBytes s\<rparr>) h = (w, h')"
    and "u = URI_parse_path (w\<lparr>u_host := lowercaseBytes h'\<rparr>) r"
  using assms by (auto simp: URI_Parse_def URI_parse_def Let_def split: if_splits prod.splits)

lemma Parse_printable:
  assumes "URI_Parse v [] uri = (u, None)" and "64 \<notin> set (u_host u)"
  shows "URI_printable u"
proof -
  obtain s h r w h' where p: "splitHostURI [] uri = (s, h, r)" "\<not> stringContainsCTLByte uri"
    "URI_parse_auth ((URI_Reset v)\<lparr>u_scheme := lowercaseBytes s\<rparr>) h = (w, h')"
    "u = URI_parse_path (w\<lparr>u_host := lowercaseBytes h'\<rparr>) r"
    using Parse_absolute [OF assms(1)] by metis
  note parts = splitHostURI_parts [OF p(1)]
  have w: "set h' \<subseteq> set h" "u_scheme w = lowercaseBytes s" "u_queryString w = []" "u_hash w = []"
    "\<not> u_DisablePathNormalizing w" "\<not> u_parsedQueryArgs w"
    using parse_auth_host [OF p(3)] by (auto simp: URI_Reset_def)
  note u = parse_path_parts [of "w\<lparr>u_host := lowercaseBytes h'\<rparr>" r, folded p(4)]
  have eq: "u_scheme u = lowercaseBytes s" "u_host u = lowercaseBytes h'" using w u by simp_all
  have no_ctl: "\<not> stringContainsCTLByte x" if "set x \<subseteq> set uri \<union> {47} \<union> set strHTTP" for x
    using p(2) that by (fastforce simp: ctl_iff strHTTP_def)
  have "\<not> stringContainsCTLByte (u_scheme u)" "\<not> stringContainsCTLByte (u_host u)"
    unfolding eq by (rule ctl_lowercase, rule no_ctl, use parts w(1) in blast)+
  moreover have "\<not> stringContainsCTLByte (u_queryString u)" "\<not> stringContainsCTLByte (u_hash u)"
    using parts u w by (auto intro!: no_ctl)
  moreover have "set (u_scheme u) \<inter> {47} = {}" "set (u_host u) \<inter> {47, 63} = {}"
    unfolding eq using parts w(1) lowercase_bytes lower_letter by (fastforce simp: plain_byte_def)+
  ultimately show ?thesis using assms(2) u w by (auto simp: URI_printable_def)
qed

text \<open>
  What the parser accepts it accepts again: the printed form of any successfully parsed
  absolute URI parses to the same scheme, host, path, query and hash, provided the host that
  was left after cutting credentials has no further at-sign.
\<close>

theorem URI_parse_print_parse:
  assumes "URI_Parse v [] uri = (u, None)" and "64 \<notin> set (u_host u)"
  shows "\<exists>w. URI_Parse v' [] (fst (URI_FullURI u)) = (w, None) \<and> u_scheme w = URI_Scheme u
    \<and> u_host w = u_host u \<and> u_path w = u_path u \<and> u_queryString w = u_queryString u \<and> u_hash w = u_hash u"
proof -
  have inv: "URI_inv u" using assms(1) by (rule URI_inv_Parse)
  have "u_path u \<noteq> []" "\<not> u_parsedQueryArgs u"
  proof -
    obtain s h r w h' where p: "URI_parse_auth ((URI_Reset v)\<lparr>u_scheme := lowercaseBytes s\<rparr>) h = (w, h')"
      "u = URI_parse_path (w\<lparr>u_host := lowercaseBytes h'\<rparr>) r"
      using Parse_absolute [OF assms(1)] by metis
    have "normalizePath x \<noteq> []" for x using clean_normalizePath [of x] unfolding clean_path_def by blast
    with p(2) show "u_path u \<noteq> []" by (auto simp: URI_parse_path_def Let_def split: option.splits)
    from parse_auth_host [OF p(1)] have "\<not> u_parsedQueryArgs w" by (simp add: URI_Reset_def)
    with p(2) show "\<not> u_parsedQueryArgs u"
      by (auto simp: URI_parse_path_def Let_def split: option.splits)
  qed
  with FullURI_reparse [OF inv Parse_printable [OF assms], of v'] show ?thesis
    by (simp add: URI_Path_def printed_query_def)
qed

theorem URI_parse_print_parse_witness:
  "\<exists>w. URI_Parse empty_uri [] (fst (URI_FullURI example_uri)) = (w, None)
     \<and> u_path w = bytes_of ''/c'' \<and> u_host w = bytes_of ''foo.com''"
proof -
  let ?uri = "bytes_of ''HTTP://Foo.com/a%20b/../c?x=1#top''"
  have "snd (URI_Parse empty_uri [] ?uri) = None" by code_simp
  then have "URI_Parse empty_uri [] ?uri = (example_uri, None)"
    by (simp add: example_uri_def prod_eq_iff del: bytes_of_simps)
  moreover have "64 \<notin> set (u_host example_uri)" by (simp add: example_uri_eq)
  ultimately show ?thesis
    using URI_parse_print_parse [of empty_uri ?uri example_uri empty_uri] by (auto simp: example_uri_eq)
qed

text \<open>Re-parsing a rooted reference behind the printed scheme and host keeps both.\<close>

lemma Parse_rebased:
  assumes "URI_inv u" and "URI_printable u" and "\<not> stringContainsCTLByte (47 # ref)"
  shows "URI_Parse u [] (URI_appendSchemeHost u [] @ 47 # ref) =
    (URI_parse_path ((URI_Reset u)\<lparr>u_scheme := URI_Scheme u, u_host := u_host u\<rparr>) (47 # ref), None)"
proof -
  note sc = URI_Scheme_props [OF assms(1,2)]
  have h: "47 \<notin> set (u_host u)" "63 \<notin> set (u_host u)" "IndexByte (u_host u) 64 = None"
    "lowercaseBytes (u_host u) = u_host u" "\<not> stringContainsCTLByte (u_host u)"
    using assms(1,2) by (auto simp: URI_printable_def URI_inv_def)
  let ?b = "URI_Scheme u @ 58 # 47 # 47 # u_host u @ 47 # ref"
  have "\<not> stringContainsCTLByte ?b" using sc h assms(3) by (simp add: ctl_Cons)
  moreover have "splitHostURI [] ?b = (URI_Scheme u, u_host u, 47 # ref)"
    using sc(2) h by (intro splitHostURI_absolute) auto
  ultimately show ?thesis using sc(1) h
    by (simp add: URI_Parse_def URI_parse_def URI_parse_auth_def Let_def URI_appendSchemeHost_def
        strColonSlashSlash_def URI_Reset_def del: IndexByte_None)
qed

lemma quoted_dir_slash:
  assumes "clean_path p" and "LastIndexByte p 47 = Some n"
  shows "\<exists>d. appendQuotedPath [] (take (n + 1) p) = 47 # d \<and> \<not> stringContainsCTLByte d"
proof -
  obtain q where p: "p = 47 # q" using assms(1) by (cases p) (auto simp: clean_path_def)
  then have "take (n + 1) p = 47 # take n q" by simp
  then show ?thesis using quote_path_plain
    by (auto simp: appendQuotedPath_slash intro!: ctl_plain)
qed

text \<open>
  C37. \<open>Update\<close> with a reference that holds no double slash resolves it against the URI: a rooted
  reference replaces path, query and hash and keeps scheme and host; one that starts with a
  question mark replaces the query only, one that starts with a hash the hash only; any other
  is taken relative to the directory of the current path, again with scheme and host kept.
\<close>

theorem URI_Update_reference:
  assumes "URI_inv u" and "URI_printable u" and "c # rest = newURI"
    and "\<not> sublist strSlashSlash newURI" and "\<not> stringContainsCTLByte newURI"
  defines "base \<equiv> (URI_Reset u)\<lparr>u_scheme := URI_Scheme u, u_host := u_host u\<rparr>"
    and "dir \<equiv> appendQuotedPath [] (take (Suc (the (LastIndexByte (URI_Path u) 47))) (URI_Path u))"
  shows "\<exists>w. URI_UpdateBytes u newURI = Some w
    \<and> (c = 63 \<longrightarrow> u_queryString w = rest \<and> u_hash w = u_hash u)
    \<and> (c = 35 \<longrightarrow> u_hash w = rest \<and> u_queryString w = u_queryString u)
    \<and> (c = 63 \<or> c = 35 \<longrightarrow> u_scheme w = u_scheme u \<and> u_host w = u_host u \<and> u_path w = u_path u)
    \<and> (c = 47 \<longrightarrow> w = (URI_parse_path base newURI)\<lparr>u_requestURI := URI_appendSchemeHost u [] @ newURI\<rparr>)
    \<and> (c \<notin> {47, 63, 35} \<longrightarrow>
         w = (URI_parse_path base (dir @ newURI))\<lparr>u_requestURI := URI_appendSchemeHost u [] @ dir @ newURI\<rparr>)"
proof -
  obtain n where n: "LastIndexByte (URI_Path u) 47 = Some n"
    using clean_path_has_slash [OF URI_Path_clean [OF assms(1)]] by blast
  obtain d where d: "dir = 47 # d" "\<not> stringContainsCTLByte d"
    using quoted_dir_slash [OF URI_Path_clean [OF assms(1)] n] n by (auto simp: dir_def)
  have new: "newURI = c # rest" using assms(3) by simp
  have idx: "Index (c # rest) strSlashSlash = None" using assms(4) new by (simp del: Index.simps)
  consider "c = 63" | "c = 35" | "c = 47" | "c \<notin> {47, 63, 35}" by blast
  then show ?thesis
  proof cases
    case 3
    with Parse_rebased [OF assms(1,2), of rest] idx assms(5) new show ?thesis
      by (simp add: URI_UpdateBytes_def URI_updateBytes_def Let_def base_def del: Index.simps Index_None)
  next
    case 4
    have "appendQuotedPath (URI_appendSchemeHost u []) (take (Suc n) (URI_Path u)) =
        URI_appendSchemeHost u [] @ dir"
      using URI_Path_clean [OF assms(1)] n
      by (cases "URI_Path u") (auto simp: dir_def clean_path_def appendQuotedPath_slash)
    with 4 Parse_rebased [OF assms(1,2), of "d @ newURI"] idx assms(5) new n d show ?thesis
      by (simp add: URI_UpdateBytes_def URI_updateBytes_def Let_def base_def ctl_Cons
          del: Index.simps Index_None)
  qed (use idx new in \<open>simp_all add: URI_UpdateBytes_def URI_updateBytes_def URI_SetQueryString_def
      URI_SetHash_def URI_FullURI_def URI_AppendBytes_def URI_RequestURI_def Let_def del: Index.simps Index_None\<close>)
qed

theorem URI_Update_reference_witness:
  "\<exists>w. URI_UpdateBytes example_uri (bytes_of ''?y=2'') = Some w
     \<and> u_queryString w = bytes_of ''y=2'' \<and> u_host w = bytes_of ''foo.com''"
proof -
  have "URI_inv example_uri" unfolding example_uri_def URI_Parse_def by (rule URI_inv_parse)
  moreover have "URI_printable example_uri"
    by (simp add: URI_printable_def example_uri_eq ctl_Cons del: ctl_append)
      (simp add: stringContainsCTLByte_def)
  moreover have "\<not> sublist strSlashSlash (bytes_of ''?y=2'')" "\<not> stringContainsCTLByte (bytes_of ''?y=2'')"
    by (simp_all add: strSlashSlash_def sublist_Cons_right stringContainsCTLByte_def)
  ultimately show ?thesis
    using URI_Update_reference [of example_uri 63 "bytes_of ''y=2''" "bytes_of ''?y=2''"]
    by (auto simp: example_uri_eq)
qed

text \<open>
  A rooted reference with a double slash further in, for example in its query, is taken for
  an absolute URI: the update drops the host and resets the scheme to plain http, although the
  documentation of \<open>Update\<close> promises that only the request URI changes.
\<close>

theorem URI_Update_loses_host:
  assumes "newURI = 47 # c # rest" and "c \<noteq> 47" and "sublist strSlashSlash rest"
    and "\<not> stringContainsCTLByte newURI"
  shows "\<exists>w. URI_UpdateBytes u newURI = Some w \<and> u_host w = [] \<and> u_scheme w = strHTTP"
proof -
  obtain n where n: "Index rest strSlashSlash = Some n" using assms(3) by (cases "Index rest strSlashSlash") auto
  then have i: "Index newURI strSlashSlash = Some (Suc (Suc n))"
    using assms(1,2) by (simp add: strSlashSlash_def)
  then have "splitHostURI [] newURI = (strHTTP, [], newURI)"
    using assms(1) by (simp add: splitHostURI_def)
  then have "URI_Parse u [] newURI =
      (URI_parse_path ((URI_Reset u)\<lparr>u_scheme := strHTTP, u_host := []\<rparr>) newURI, None)"
    using assms(4) by (simp add: URI_Parse_def URI_parse_def URI_parse_auth_def Let_def)
  moreover have "u_host (URI_parse_path v b) = u_host v" "u_scheme (URI_parse_path v b) = u_scheme v" for v b
    by (auto simp: URI_parse_path_def Let_def split: option.splits)
  ultimately show ?thesis using i assms(1)
    by (simp add: URI_UpdateBytes_def URI_updateBytes_def Let_def strHTTP_def)
qed

theorem URI_Update_loses_host_witness:
  "\<exists>w. URI_UpdateBytes example_uri (bytes_of ''/r?to=http://x/'') = Some w \<and> u_host w = []"
proof -
  have "\<not> stringContainsCTLByte (bytes_of ''/r?to=http://x/'')"
    "sublist strSlashSlash (bytes_of ''?to=http://x/'')"
    by (simp add: stringContainsCTLByte_def, simp add: strSlashSlash_def sublist_Cons_right)
  then show ?thesis
    using URI_Update_loses_host [of "bytes_of ''/r?to=http://x/''" 114 "bytes_of ''?to=http://x/''" example_uri]
    by auto
qed

end
