(* ===== verification/Cookie.thy ===== *)
theory Cookie
  imports URI
begin

text \<open>
  \<^verbatim>\<open>cookie.go\<close>: response cookies (\<open>Cookie\<close>) and the cookies of a request, with the scanner
  both are parsed by. Dates come from package \<^verbatim>\<open>time\<close>; what the code uses of it is the record
  \<open>timelib\<close>, an argument of the operations that print or parse a date: the zero time, the
  RFC 1123 rendering of an instant in UTC, and the two formats a cookie's date is parsed by.
\<close>


section \<open>Dates\<close>

record 't timelib =
  zeroTime :: 't
  formatRFC1123 :: "'t \<Rightarrow> bytes"
  parseRFC1123 :: "bytes \<Rightarrow> 't option"
  parseCookieDate :: "bytes \<Rightarrow> 't option"

definition AppendHTTPDate :: "'t timelib \<Rightarrow> bytes \<Rightarrow> 't \<Rightarrow> bytes" where
  "AppendHTTPDate tm dst date =
     (let dst = dst @ formatRFC1123 tm date in take (length dst - 3) dst @ strGMT)"

definition ParseHTTPDate :: "'t timelib \<Rightarrow> bytes \<Rightarrow> 't option" where
  "ParseHTTPDate tm date = parseRFC1123 tm date"


section \<open>The Cookie struct\<close>

datatype CookieSameSite =
  CookieSameSiteDisabled | CookieSameSiteDefaultMode | CookieSameSiteLaxMode
  | CookieSameSiteStrictMode | CookieSameSiteNoneMode

record 't Cookie =
  ck_key :: bytes
  ck_value :: bytes
  ck_expire :: 't
  ck_maxAge :: int
  ck_domain :: bytes
  ck_path :: bytes
  ck_httpOnly :: bool
  ck_secure :: bool
  ck_sameSite :: CookieSameSite
  ck_bufKV :: argsKV
  ck_buf :: bytes

definition Cookie_Reset :: "'t timelib \<Rightarrow> 't Cookie \<Rightarrow> 't Cookie" where
  "Cookie_Reset tm c =
     c\<lparr>ck_key := [], ck_value := [], ck_expire := zeroTime tm, ck_maxAge := 0, ck_domain := [],
       ck_path := [], ck_httpOnly := False, ck_secure := False,
       ck_sameSite := CookieSameSiteDisabled\<rparr>"

definition Cookie_CopyTo :: "'t timelib \<Rightarrow> 't Cookie \<Rightarrow> 't Cookie \<Rightarrow> 't Cookie" where
  "Cookie_CopyTo tm c src =
     (Cookie_Reset tm c)\<lparr>ck_key := ck_key src, ck_value := ck_value src, ck_expire := ck_expire src,
       ck_maxAge := ck_maxAge src, ck_domain := ck_domain src, ck_path := ck_path src,
       ck_httpOnly := ck_httpOnly src, ck_secure := ck_secure src, ck_sameSite := ck_sameSite src\<rparr>"

definition Cookie_SetHTTPOnly :: "'t Cookie \<Rightarrow> bool \<Rightarrow> 't Cookie" where
  "Cookie_SetHTTPOnly c httpOnly = c\<lparr>ck_httpOnly := httpOnly\<rparr>"

definition Cookie_SetSecure :: "'t Cookie \<Rightarrow> bool \<Rightarrow> 't Cookie" where
  "Cookie_SetSecure c secure = c\<lparr>ck_secure := secure\<rparr>"

definition Cookie_SetSameSite :: "'t Cookie \<Rightarrow> CookieSameSite \<Rightarrow> 't Cookie" where
  "Cookie_SetSameSite c mode =
     (let c = c\<lparr>ck_sameSite := mode\<rparr> in
      if mode = CookieSameSiteNoneMode then Cookie_SetSecure c True else c)"

definition Cookie_SetPath :: "'t Cookie \<Rightarrow> bytes \<Rightarrow> 't Cookie" where
  "Cookie_SetPath c path = c\<lparr>ck_buf := path, ck_path := normalizePath path\<rparr>"

definition Cookie_SetDomain :: "'t Cookie \<Rightarrow> bytes \<Rightarrow> 't Cookie" where
  "Cookie_SetDomain c domain = c\<lparr>ck_domain := domain\<rparr>"

definition Cookie_SetMaxAge :: "'t Cookie \<Rightarrow> int \<Rightarrow> 't Cookie" where
  "Cookie_SetMaxAge c seconds = c\<lparr>ck_maxAge := seconds\<rparr>"

text \<open>\<open>CookieExpireUnlimited\<close> is the zero time.\<close>

definition Cookie_Expire :: "'t timelib \<Rightarrow> 't Cookie \<Rightarrow> 't" where
  "Cookie_Expire tm c = (let expire = ck_expire c in if expire = zeroTime tm then zeroTime tm else expire)"

definition Cookie_SetExpire :: "'t Cookie \<Rightarrow> 't \<Rightarrow> 't Cookie" where
  "Cookie_SetExpire c expire = c\<lparr>ck_expire := expire\<rparr>"

definition Cookie_SetValue :: "'t Cookie \<Rightarrow> bytes \<Rightarrow> 't Cookie" where
  "Cookie_SetValue c value = c\<lparr>ck_value := value\<rparr>"

definition Cookie_SetKey :: "'t Cookie \<Rightarrow> bytes \<Rightarrow> 't Cookie" where
  "Cookie_SetKey c key = c\<lparr>ck_key := key\<rparr>"


section \<open>Printing\<close>

definition appendCookiePart :: "bytes \<Rightarrow> bytes \<Rightarrow> bytes \<Rightarrow> bytes" where
  "appendCookiePart dst key value =
     dst @ [ch CHR '';'', ch CHR '' ''] @ key @ [ch CHR ''=''] @ value"

definition append_sameSite :: "bytes \<Rightarrow> CookieSameSite \<Rightarrow> bytes" where
  "append_sameSite dst mode =
     (case mode of
        CookieSameSiteDisabled \<Rightarrow> dst
      | CookieSameSiteDefaultMode \<Rightarrow> dst @ [ch CHR '';'', ch CHR '' ''] @ strCookieSameSite
      | CookieSameSiteLaxMode \<Rightarrow>
          dst @ [ch CHR '';'', ch CHR '' ''] @ strCookieSameSite @ [ch CHR ''=''] @ strCookieSameSiteLax
      | CookieSameSiteStrictMode \<Rightarrow>
          dst @ [ch CHR '';'', ch CHR '' ''] @ strCookieSameSite @ [ch CHR ''=''] @ strCookieSameSiteStrict
      | CookieSameSiteNoneMode \<Rightarrow>
          dst @ [ch CHR '';'', ch CHR '' ''] @ strCookieSameSite @ [ch CHR ''=''] @ strCookieSameSiteNone)"

text \<open>
  \<open>AppendBytes\<close> prints the date through the scratch pair of the cookie, so it returns the
  cookie too. \<open>AppendUint\<close> is only called for a positive age and cannot panic there.
\<close>

definition Cookie_AppendBytes :: "'t timelib \<Rightarrow> 't Cookie \<Rightarrow> bytes \<Rightarrow> bytes \<times> 't Cookie" where
  "Cookie_AppendBytes tm c dst =
     (let dst = (if length (ck_key c) > 0 then dst @ ck_key c @ [ch CHR ''='']  else dst);
          dst = dst @ ck_value c;
          (dst, c) =
            (if ck_maxAge c > 0 then
               (the (AppendUint (dst @ [ch CHR '';'', ch CHR '' ''] @ strCookieMaxAge @ [ch CHR ''=''])
                   (ck_maxAge c)), c)
             else if ck_expire c \<noteq> zeroTime tm then
               (let c = c\<lparr>ck_bufKV := (ck_bufKV c)\<lparr>kv_value := AppendHTTPDate tm [] (ck_expire c)\<rparr>\<rparr>
                in (dst @ [ch CHR '';'', ch CHR '' ''] @ strCookieExpires @ [ch CHR ''='']
                      @ kv_value (ck_bufKV c), c))
             else (dst, c));
          dst = (if length (ck_domain c) > 0 then appendCookiePart dst strCookieDomain (ck_domain c) else dst);
          dst = (if length (ck_path c) > 0 then appendCookiePart dst strCookiePath (ck_path c) else dst);
          dst = (if ck_httpOnly c then dst @ [ch CHR '';'', ch CHR '' ''] @ strCookieHTTPOnly else dst);
          dst = (if ck_secure c then dst @ [ch CHR '';'', ch CHR '' ''] @ strCookieSecure else dst)
      in (append_sameSite dst (ck_sameSite c), c))"

definition Cookie_Cookie :: "'t timelib \<Rightarrow> 't Cookie \<Rightarrow> bytes \<times> 't Cookie" where
  "Cookie_Cookie tm c = (case Cookie_AppendBytes tm c [] of (s, c) \<Rightarrow> (s, c\<lparr>ck_buf := s\<rparr>))"


section \<open>Scanning\<close>

definition decodeCookieArg :: "bytes \<Rightarrow> bool \<Rightarrow> bytes" where
  "decodeCookieArg src skipQuotes =
     (let src = trim_right (ch CHR '' '') (trim_left (ch CHR '' '') src) in
      if skipQuotes \<and> length src > 1 \<and> hd src = 34 \<and> last src = 34 then butlast (tl src) else src)"

definition getCookieKey :: "bytes \<Rightarrow> bytes" where
  "getCookieKey src =
     (let src = (case IndexByte src (ch CHR ''='') of Some n \<Rightarrow> take n src | None \<Rightarrow> src)
      in decodeCookieArg src False)"

text \<open>\<open>cookieScanner.next\<close> fills key and value of the pair and leaves its no-value flag alone.\<close>

fun cookieScanner_loop :: "bytes \<Rightarrow> bytes \<Rightarrow> nat \<Rightarrow> bool \<Rightarrow> nat \<Rightarrow> argsKV \<Rightarrow> argsKV \<times> bytes" where
  "cookieScanner_loop b [] i isKey k kv =
     (let kv = (if isKey then kv\<lparr>kv_key := []\<rparr> else kv)
      in (kv\<lparr>kv_value := decodeCookieArg (drop k b) True\<rparr>, []))"
| "cookieScanner_loop b (c # rest) i isKey k kv =
     (if c = ch CHR ''='' \<and> isKey then
        cookieScanner_loop b rest (i + 1) False (i + 1)
          (kv\<lparr>kv_key := decodeCookieArg (take i b) False\<rparr>)
      else if c = ch CHR '';'' then
        (let kv = (if isKey then kv\<lparr>kv_key := []\<rparr> else kv)
         in (kv\<lparr>kv_value := decodeCookieArg (drop k (take i b)) True\<rparr>, drop (i + 1) b))
      else cookieScanner_loop b rest (i + 1) isKey k kv)"

definition cookieScanner_next :: "argsKV \<Rightarrow> bytes \<Rightarrow> (argsKV \<times> bytes) option" where
  "cookieScanner_next kv b =
     (if length b = 0 then None else Some (cookieScanner_loop b b 0 True 0 kv))"

lemma cookieScanner_loop_shrinks:
  "length rest + i = length b \<Longrightarrow> b \<noteq> [] \<Longrightarrow>
     length (snd (cookieScanner_loop b rest i isKey k kv)) < length b"
  by (induction b rest i isKey k kv rule: cookieScanner_loop.induct) (auto simp: Let_def)

lemma cookieScanner_next_shrinks:
  "cookieScanner_next kv b = Some (kv', b') \<Longrightarrow> length b' < length b"
  using cookieScanner_loop_shrinks [of b 0 b True 0 kv]
  by (auto simp: cookieScanner_next_def split: if_splits)

definition caseInsensitiveCompare :: "bytes \<Rightarrow> bytes \<Rightarrow> bool" where
  "caseInsensitiveCompare a b \<longleftrightarrow>
     length a = length b \<and> list_all2 (\<lambda>x y. x OR 0x20 = y OR 0x20) a b"


section \<open>Parsing\<close>

datatype cookie_err = errNoCookies | CookieUintErr uint_err | CookieTimeErr

text \<open>One attribute of a Set-Cookie header: the body of the loop of \<open>ParseBytes\<close>.\<close>

definition Cookie_attr ::
  "'t timelib \<Rightarrow> 't Cookie \<Rightarrow> bytes \<Rightarrow> bytes \<Rightarrow> 't Cookie \<times> cookie_err option" where
  "Cookie_attr tm c key value =
     (if length key \<noteq> 0 then
        (let k = hd key OR 0x20 in
         if k = ch CHR ''m'' then
           (if caseInsensitiveCompare strCookieMaxAge key then
              (case ParseUint value of
                 (maxAge, Some err) \<Rightarrow> (c, Some (CookieUintErr err))
               | (maxAge, None) \<Rightarrow> (c\<lparr>ck_maxAge := maxAge\<rparr>, None))
            else (c, None))
         else if k = ch CHR ''e'' then
           (if caseInsensitiveCompare strCookieExpires key then
              (case parseRFC1123 tm value of
                 Some exptime \<Rightarrow> (c\<lparr>ck_expire := exptime\<rparr>, None)
               | None \<Rightarrow>
                   (case parseCookieDate tm value of
                      Some exptime \<Rightarrow> (c\<lparr>ck_expire := exptime\<rparr>, None)
                    | None \<Rightarrow> (c, Some CookieTimeErr)))
            else (c, None))
         else if k = ch CHR ''d'' then
           (if caseInsensitiveCompare strCookieDomain key then (c\<lparr>ck_domain := value\<rparr>, None) else (c, None))
         else if k = ch CHR ''p'' then
           (if caseInsensitiveCompare strCookiePath key then (c\<lparr>ck_path := value\<rparr>, None) else (c, None))
         else if k = ch CHR ''s'' then
           (if caseInsensitiveCompare strCookieSameSite key \<and> length value > 0 then
              (let v = hd value OR 0x20 in
               if v = ch CHR ''l'' then
                 (if caseInsensitiveCompare strCookieSameSiteLax value
                  then (c\<lparr>ck_sameSite := CookieSameSiteLaxMode\<rparr>, None) else (c, None))
               else if v = ch CHR ''s'' then
                 (if caseInsensitiveCompare strCookieSameSiteStrict value
                  then (c\<lparr>ck_sameSite := CookieSameSiteStrictMode\<rparr>, None) else (c, None))
               else if v = ch CHR ''n'' then
                 (if caseInsensitiveCompare strCookieSameSiteNone value
                  then (c\<lparr>ck_sameSite := CookieSameSiteNoneMode\<rparr>, None) else (c, None))
               else (c, None))
            else (c, None))
         else (c, None))
      else if length value \<noteq> 0 then
        (let v = hd value OR 0x20 in
         if v = ch CHR ''h'' then
           (if caseInsensitiveCompare strCookieHTTPOnly value
            then (c\<lparr>ck_httpOnly := True\<rparr>, None) else (c, None))
         else if v = ch CHR ''s'' then
           (if caseInsensitiveCompare strCookieSecure value then (c\<lparr>ck_secure := True\<rparr>, None)
            else if caseInsensitiveCompare strCookieSameSite value
            then (c\<lparr>ck_sameSite := CookieSameSiteDefaultMode\<rparr>, None)
            else (c, None))
         else (c, None))
      else (c, None))"

function Cookie_ParseBytes_loop ::
  "'t timelib \<Rightarrow> 't Cookie \<Rightarrow> bytes \<Rightarrow> 't Cookie \<times> cookie_err option" where
  "Cookie_ParseBytes_loop tm c b =
     (case cookieScanner_next (ck_bufKV c) b of
        None \<Rightarrow> (c, None)
      | Some (kv, b') \<Rightarrow>
          (case Cookie_attr tm (c\<lparr>ck_bufKV := kv\<rparr>) (kv_key kv) (kv_value kv) of
             (c, Some err) \<Rightarrow> (c, Some err)
           | (c, None) \<Rightarrow> Cookie_ParseBytes_loop tm c b'))"
  by pat_completeness auto
termination
  by (relation "measure (\<lambda>(tm, c, b). length b)") (auto dest: cookieScanner_next_shrinks)

declare Cookie_ParseBytes_loop.simps [simp del]

definition Cookie_ParseBytes :: "'t timelib \<Rightarrow> 't Cookie \<Rightarrow> bytes \<Rightarrow> 't Cookie \<times> cookie_err option" where
  "Cookie_ParseBytes tm c src =
     (let c = Cookie_Reset tm c in
      case cookieScanner_next (ck_bufKV c) src of
        None \<Rightarrow> (c, Some errNoCookies)
      | Some (kv, b) \<Rightarrow>
          Cookie_ParseBytes_loop tm
            (c\<lparr>ck_bufKV := kv, ck_key := kv_key kv, ck_value := kv_value kv\<rparr>) b)"

definition Cookie_Parse :: "'t timelib \<Rightarrow> 't Cookie \<Rightarrow> bytes \<Rightarrow> 't Cookie \<times> cookie_err option" where
  "Cookie_Parse tm c src = Cookie_ParseBytes tm (c\<lparr>ck_buf := src\<rparr>) src"


section \<open>Cookies of a request or response header\<close>

fun appendRequestCookieBytes :: "bytes \<Rightarrow> argsKV list \<Rightarrow> bytes" where
  "appendRequestCookieBytes dst [] = dst"
| "appendRequestCookieBytes dst (kv # rest) =
     (let dst = (if length (kv_key kv) > 0 then dst @ kv_key kv @ [ch CHR ''=''] else dst);
          dst = dst @ kv_value kv
      in appendRequestCookieBytes
           (if rest \<noteq> [] then dst @ [ch CHR '';'', ch CHR '' ''] else dst) rest)"

fun appendResponseCookieBytes :: "bytes \<Rightarrow> argsKV list \<Rightarrow> bytes" where
  "appendResponseCookieBytes dst [] = dst"
| "appendResponseCookieBytes dst (kv # rest) =
     (let dst = dst @ kv_value kv
      in appendResponseCookieBytes
           (if rest \<noteq> [] then dst @ [ch CHR '';'', ch CHR '' ''] else dst) rest)"

function parseRequestCookies_loop :: "argsKV slice \<Rightarrow> bytes \<Rightarrow> argsKV slice" where
  "parseRequestCookies_loop h b =
     (case cookieScanner_next (last (live h)) b of
        None \<Rightarrow> h
      | Some (kv, b') \<Rightarrow>
          (let h' = h\<lparr>live := butlast (live h) @ [kv]\<rparr> in
           if length (kv_key kv) > 0 \<or> length (kv_value kv) > 0
           then parseRequestCookies_loop (fst (allocArg h')) b'
           else parseRequestCookies_loop h' b'))"
  by pat_completeness auto
termination
  by (relation "measure (length \<circ> snd)") (auto dest: cookieScanner_next_shrinks)

declare parseRequestCookies_loop.simps [simp del]

definition parseRequestCookies :: "argsKV slice \<Rightarrow> bytes \<Rightarrow> argsKV slice" where
  "parseRequestCookies cookies src =
     releaseArg (parseRequestCookies_loop (fst (allocArg cookies)) src)"

section \<open>Scanning: lemmas\<close>

text \<open>The reference for the scanner: the piece up to a semicolon, cut at its first equals sign.\<close>

definition cookie_pair :: "bytes \<Rightarrow> bytes \<times> bytes" where
  "cookie_pair seg =
     (case IndexByte seg (ch CHR ''='') of
        None \<Rightarrow> ([], decodeCookieArg seg True)
      | Some i \<Rightarrow> (decodeCookieArg (take i seg) False, decodeCookieArg (drop (i + 1) seg) True))"

definition kv_pair :: "argsKV \<Rightarrow> bytes \<times> bytes" where
  "kv_pair kv = (kv_key kv, kv_value kv)"

lemma cookieScanner_loop_value:
  assumes "b = pre @ val @ rest" and "k = length pre" and "i = length pre + length val"
  shows "cookieScanner_loop b rest i False k kv =
     (kv\<lparr>kv_value := decodeCookieArg (val @ takeWhile (\<lambda>c. c \<noteq> ch CHR '';'') rest) True\<rparr>,
      drop (Suc (length (takeWhile (\<lambda>c. c \<noteq> ch CHR '';'') rest))) rest)"
  using assms
proof (induction rest arbitrary: i val)
  case (Cons c rest)
  with Cons.IH [of "val @ [c]" "Suc i"] show ?case by (cases "c = ch CHR '';''") simp_all
qed simp

lemma cookie_pair_append:
  "ch CHR ''='' \<notin> set pre \<Longrightarrow>
     cookie_pair (pre @ ch CHR ''='' # v) = (decodeCookieArg pre False, decodeCookieArg v True)"
  by (simp add: cookie_pair_def)

lemma cookie_pair_no_eq:
  "ch CHR ''='' \<notin> set seg \<Longrightarrow> cookie_pair seg = ([], decodeCookieArg seg True)"
  by (simp add: cookie_pair_def IndexByte_None [THEN iffD2])

lemma cookieScanner_loop_pair:
  assumes "b = pre @ rest" and "i = length pre" and "set pre \<inter> {ch CHR ''='', ch CHR '';''} = {}"
  shows "map_prod kv_pair id (cookieScanner_loop b rest i True 0 kv) =
     (cookie_pair (pre @ takeWhile (\<lambda>c. c \<noteq> ch CHR '';'') rest),
      drop (Suc (length (takeWhile (\<lambda>c. c \<noteq> ch CHR '';'') rest))) rest)"
  using assms
proof (induction rest arbitrary: i pre)
  case Nil
  then show ?case by (simp add: cookie_pair_no_eq kv_pair_def)
next
  case (Cons c rest)
  consider "c = ch CHR ''=''" | "c = ch CHR '';''" | "c \<noteq> ch CHR ''=''" "c \<noteq> ch CHR '';''"
    by blast
  then show ?case
  proof cases
    case 1
    with Cons.prems show ?thesis
      using cookie_pair_append [of pre "takeWhile (\<lambda>c. c \<noteq> ch CHR '';'') rest"]
      by (simp add: kv_pair_def
          cookieScanner_loop_value [where pre = "pre @ [ch CHR ''='']" and val = "[]"])
  next
    case 2
    with Cons.prems show ?thesis by (simp add: cookie_pair_no_eq kv_pair_def)
  next
    case 3
    with Cons.prems Cons.IH [of "pre @ [c]" "Suc i"] show ?thesis by simp
  qed
qed

definition cookie_item :: "bytes \<Rightarrow> ((bytes \<times> bytes) \<times> bytes) option" where
  "cookie_item = sep_item (ch CHR '';'') cookie_pair"

definition cookie_items :: "bytes \<Rightarrow> (bytes \<times> bytes) list" where
  "cookie_items = sep_items (ch CHR '';'') cookie_pair"

lemma cookieScanner_next_item:
  "map_option (map_prod kv_pair id) (cookieScanner_next kv b) = cookie_item b"
  using cookieScanner_loop_pair [of b "[]" b 0]
  by (simp add: cookieScanner_next_def cookie_item_def sep_item_def Let_def)

definition keep_pair :: "bytes \<times> bytes \<Rightarrow> bool" where
  "keep_pair p \<longleftrightarrow> fst p \<noteq> [] \<or> snd p \<noteq> []"

interpretation cookie_scan: kv_scan_loop cookie_item cookie_items cookieScanner_next
  parseRequestCookies_loop kv_pair keep_pair
proof unfold_locales
  show "cookie_item b = Some (x, b') \<Longrightarrow> length b' < length b" for b x b'
    unfolding cookie_item_def by (rule sep_item_shrinks)
  show "cookie_items b = (case cookie_item b of None \<Rightarrow> [] | Some (x, b') \<Rightarrow> x # cookie_items b')" for b
    unfolding cookie_items_def cookie_item_def by (rule sep_items_unfold)
  show "map_option (map_prod kv_pair id) (cookieScanner_next kv b) = cookie_item b" for kv b
    by (rule cookieScanner_next_item)
  show "keep_pair (kv_pair kv) \<longleftrightarrow> kv_key kv \<noteq> [] \<or> kv_value kv \<noteq> []" for kv
    by (simp add: keep_pair_def kv_pair_def)
  show "parseRequestCookies_loop h b =
         (case cookieScanner_next (last (live h)) b of None \<Rightarrow> h
          | Some (kv, b') \<Rightarrow>
              (let h' = h\<lparr>live := butlast (live h) @ [kv]\<rparr> in
               if length (kv_key kv) > 0 \<or> length (kv_value kv) > 0
               then parseRequestCookies_loop (fst (allocArg h')) b' else parseRequestCookies_loop h' b'))"
    for h b
    by (subst parseRequestCookies_loop.simps) (simp add: Let_def)
qed

text \<open>Text that survives trimming, and text that survives the removal of quotes as well.\<close>

definition arg_text :: "bytes \<Rightarrow> bool" where
  "arg_text s \<longleftrightarrow> 59 \<notin> set s \<and> (s = [] \<or> hd s \<noteq> 32 \<and> last s \<noteq> 32)"

definition value_text :: "bytes \<Rightarrow> bool" where
  "value_text s \<longleftrightarrow> arg_text s \<and> \<not> (length s > 1 \<and> hd s = 34 \<and> last s = 34)"

lemma decodeCookieArg_text: "arg_text s \<Longrightarrow> decodeCookieArg s False = s"
  by (auto simp: decodeCookieArg_def arg_text_def trim_left_id trim_right_id)

lemma decodeCookieArg_value: "value_text s \<Longrightarrow> decodeCookieArg s True = s"
  by (auto simp: decodeCookieArg_def value_text_def arg_text_def trim_left_id trim_right_id)

lemma decodeCookieArg_space [simp]: "decodeCookieArg (32 # s) q = decodeCookieArg s q"
  by (simp add: decodeCookieArg_def)

lemma cookie_pair_space [simp]: "cookie_pair (32 # s) = cookie_pair s"
  by (cases "IndexByte s 61") (simp_all add: cookie_pair_def del: IndexByte_None)

lemma cookie_pair_key_value:
  "arg_text k \<Longrightarrow> 61 \<notin> set k \<Longrightarrow> value_text v \<Longrightarrow> cookie_pair (k @ 61 # v) = (k, v)"
  using cookie_pair_append [of k v] by (simp add: decodeCookieArg_text decodeCookieArg_value)

lemma cookie_pair_value:
  "61 \<notin> set v \<Longrightarrow> value_text v \<Longrightarrow> cookie_pair v = ([], v)"
  by (simp add: cookie_pair_no_eq decodeCookieArg_value)

lemma split_on_parts:
  "(59 :: byte) \<notin> set p \<Longrightarrow> (\<And>a. a \<in> set as \<Longrightarrow> 59 \<notin> set a) \<Longrightarrow>
     split_on 59 (p @ concat (map (\<lambda>a. 59 # 32 # a) as)) = p # map ((#) 32) as"
proof (induction as arbitrary: p)
  case Nil
  then show ?case by (simp add: split_on_no_sep)
next
  case (Cons a as)
  have "split_on 59 ((32 # a) @ concat (map (\<lambda>a. 59 # 32 # a) as)) = (32 # a) # map ((#) 32) as"
    using Cons.prems by (intro Cons.IH) auto
  with Cons.prems split_on_append [of 59 p] show ?case by simp
qed

lemma cookie_items_parts:
  assumes "59 \<notin> set p" and "\<And>a. a \<in> set as \<Longrightarrow> 59 \<notin> set a" and "p \<noteq> []"
  shows "cookie_items (p @ concat (map (\<lambda>a. 59 # 32 # a) as)) = cookie_pair p # map cookie_pair as"
proof -
  have *: "sep_items_of cookie_pair (q # map ((#) 32) as') = cookie_pair q # map cookie_pair as'"
    if "q \<noteq> []" for q as'
    using that
  proof (induction as' arbitrary: q)
    case (Cons a as')
    have "sep_items_of cookie_pair ((32 # a) # map ((#) 32) as') = cookie_pair (32 # a) # map cookie_pair as'"
      by (rule Cons.IH) simp
    then show ?case by simp
  qed simp
  show ?thesis using * [OF assms(3)] split_on_parts [OF assms(1,2)]
    by (simp add: cookie_items_def sep_items_def)
qed

section \<open>Cookies of a request: lemmas\<close>

definition cookie_piece :: "argsKV \<Rightarrow> bytes" where
  "cookie_piece kv = (if kv_key kv = [] then [] else kv_key kv @ [61]) @ kv_value kv"

definition cookie_kv_ok :: "argsKV \<Rightarrow> bool" where
  "cookie_kv_ok kv \<longleftrightarrow> arg_text (kv_key kv) \<and> 61 \<notin> set (kv_key kv) \<and> value_text (kv_value kv)
     \<and> (kv_key kv = [] \<longrightarrow> kv_value kv \<noteq> [] \<and> 61 \<notin> set (kv_value kv))"

lemma appendRequestCookieBytes_pieces:
  "appendRequestCookieBytes dst (kv # kvs) =
     dst @ cookie_piece kv @ concat (map (\<lambda>a. 59 # 32 # a) (map cookie_piece kvs))"
proof (induction kvs arbitrary: dst kv)
  case Nil
  then show ?case by (simp add: cookie_piece_def Let_def)
next
  case (Cons kv' kvs)
  have "appendRequestCookieBytes dst (kv # kv' # kvs) =
      appendRequestCookieBytes (dst @ cookie_piece kv @ [59, 32]) (kv' # kvs)"
    by (simp add: cookie_piece_def Let_def del: appendRequestCookieBytes.simps(2) [of _ kv'])
  with Cons.IH show ?case by simp
qed

lemma cookie_piece_ok:
  assumes "cookie_kv_ok kv"
  shows "cookie_pair (cookie_piece kv) = kv_pair kv" and "59 \<notin> set (cookie_piece kv)"
    and "cookie_piece kv \<noteq> []" and "keep_pair (kv_pair kv)"
  using assms cookie_pair_key_value [of "kv_key kv" "kv_value kv"] cookie_pair_value [of "kv_value kv"]
  by (auto simp: cookie_piece_def cookie_kv_ok_def kv_pair_def keep_pair_def arg_text_def value_text_def)

lemma parseRequestCookies_collects:
  "map kv_pair (live (parseRequestCookies h b)) =
     map kv_pair (live h) @ filter keep_pair (map cookie_pair (split_on (ch CHR '';'') b))"
proof -
  have "\<not> keep_pair (cookie_pair [])"
    by (simp add: keep_pair_def cookie_pair_def decodeCookieArg_def)
  then show ?thesis
    using cookie_scan.parse_collects [of h b]
    by (simp add: parseRequestCookies_def cookie_items_def filter_sep_items)
qed

lemma reparse_request_cookies:
  assumes "\<And>kv. kv \<in> set kvs \<Longrightarrow> cookie_kv_ok kv"
  shows "map kv_pair (live (parseRequestCookies h (appendRequestCookieBytes [] kvs))) =
    map kv_pair (live h) @ map kv_pair kvs"
proof (cases kvs)
  case Nil
  then show ?thesis using parseRequestCookies_collects [of h "[]"]
    by (simp add: keep_pair_def cookie_pair_def decodeCookieArg_def)
next
  case (Cons kv kvs')
  have ok: "cookie_kv_ok kv" "\<And>kv'. kv' \<in> set kvs' \<Longrightarrow> cookie_kv_ok kv'" using assms Cons by auto
  have "split_on 59 (appendRequestCookieBytes [] kvs) =
      cookie_piece kv # map ((#) 32) (map cookie_piece kvs')"
    unfolding Cons appendRequestCookieBytes_pieces append_Nil
    using ok cookie_piece_ok(2) by (intro split_on_parts) auto
  then have "map cookie_pair (split_on 59 (appendRequestCookieBytes [] kvs)) = map kv_pair kvs"
    using ok cookie_piece_ok(1) Cons by simp
  moreover have "filter keep_pair (map kv_pair kvs) = map kv_pair kvs"
    using assms cookie_piece_ok(4) by (intro filter_True) auto
  ultimately show ?thesis using parseRequestCookies_collects [of h "appendRequestCookieBytes [] kvs"]
    by simp
qed

section \<open>Set-Cookie: lemmas\<close>

lemma Cookie_attr_buf:
  "Cookie_attr tm (c\<lparr>ck_bufKV := kv\<rparr>) k v = map_prod (\<lambda>c. c\<lparr>ck_bufKV := kv\<rparr>) id (Cookie_attr tm c k v)"
  by (simp add: Cookie_attr_def Let_def split: option.split prod.split)

lemma Cookie_attr_keeps_buf: "ck_bufKV (fst (Cookie_attr tm c k v)) = ck_bufKV c"
  by (simp add: Cookie_attr_def Let_def split: option.split prod.split)

text \<open>The attributes of a header, one after the other, up to the first error.\<close>

fun Cookie_attrs ::
  "'t timelib \<Rightarrow> 't Cookie \<Rightarrow> (bytes \<times> bytes) list \<Rightarrow> 't Cookie \<times> cookie_err option" where
  "Cookie_attrs tm c [] = (c, None)"
| "Cookie_attrs tm c (kv # kvs) =
     (case Cookie_attr tm c (fst kv) (snd kv) of
        (c, Some err) \<Rightarrow> (c, Some err)
      | (c, None) \<Rightarrow> Cookie_attrs tm c kvs)"

lemma Cookie_attrs_buf:
  "Cookie_attrs tm (c\<lparr>ck_bufKV := kv\<rparr>) kvs = map_prod (\<lambda>c. c\<lparr>ck_bufKV := kv\<rparr>) id (Cookie_attrs tm c kvs)"
proof (induction kvs arbitrary: c)
  case (Cons p kvs)
  then show ?case
    by (cases "Cookie_attr tm c (fst p) (snd p)"; cases "snd (Cookie_attr tm c (fst p) (snd p))")
      (simp_all add: Cookie_attr_buf)
qed simp

lemma Cookie_ParseBytes_loop_attrs:
  "\<exists>kv. Cookie_ParseBytes_loop tm c b =
     map_prod (\<lambda>c. c\<lparr>ck_bufKV := kv\<rparr>) id (Cookie_attrs tm c (cookie_items b))"
proof (induction b arbitrary: c rule: cookie_scan.items_induct)
  case (stop b)
  have "Cookie_ParseBytes_loop tm c b = (c, None)" "cookie_items b = []"
    using cookie_scan.scan_kv_None [of "ck_bufKV c" b] stop
    by (simp_all add: Cookie_ParseBytes_loop.simps [of tm c b] cookie_scan.items_None)
  then show ?case by (intro exI [of _ "ck_bufKV c"]) simp
next
  case (step b x b')
  from step(1) obtain kv where kv: "cookieScanner_next (ck_bufKV c) b = Some (kv, b')" "kv_pair kv = x"
    using cookieScanner_next_item [of "ck_bufKV c" b] by (cases "cookieScanner_next (ck_bufKV c) b") auto
  then have x: "fst x = kv_key kv" "snd x = kv_value kv" by (auto simp: kv_pair_def)
  obtain c1 e where a: "Cookie_attr tm c (kv_key kv) (kv_value kv) = (c1, e)" by fastforce
  show ?case
  proof (cases e)
    case None
    obtain kv' where "Cookie_ParseBytes_loop tm (c1\<lparr>ck_bufKV := kv\<rparr>) b' =
        map_prod (\<lambda>c. c\<lparr>ck_bufKV := kv'\<rparr>) id (Cookie_attrs tm (c1\<lparr>ck_bufKV := kv\<rparr>) (cookie_items b'))"
      using step(2) by blast
    with None a kv x show ?thesis
      by (intro exI [of _ kv']) (simp add: Cookie_ParseBytes_loop.simps [of tm c b] Cookie_attr_buf
          Cookie_attrs_buf cookie_scan.items_Some [OF step(1)] prod.map_comp comp_def)
  next
    case (Some err)
    with a kv x show ?thesis
      by (intro exI [of _ kv]) (simp add: Cookie_ParseBytes_loop.simps [of tm c b] Cookie_attr_buf
          cookie_scan.items_Some [OF step(1)])
  qed
qed

text \<open>The attributes that \<open>AppendBytes\<close> prints.\<close>

definition cookie_attr_list :: "'t timelib \<Rightarrow> 't Cookie \<Rightarrow> bytes list" where
  "cookie_attr_list tm c =
     (if ck_maxAge c > 0 then [strCookieMaxAge @ 61 # AppendUint_loop (nat (ck_maxAge c)) []]
      else if ck_expire c \<noteq> zeroTime tm then [strCookieExpires @ 61 # AppendHTTPDate tm [] (ck_expire c)]
      else [])
     @ (if ck_domain c = [] then [] else [strCookieDomain @ 61 # ck_domain c])
     @ (if ck_path c = [] then [] else [strCookiePath @ 61 # ck_path c])
     @ (if ck_httpOnly c then [strCookieHTTPOnly] else [])
     @ (if ck_secure c then [strCookieSecure] else [])
     @ (case ck_sameSite c of
          CookieSameSiteDisabled \<Rightarrow> []
        | CookieSameSiteDefaultMode \<Rightarrow> [strCookieSameSite]
        | CookieSameSiteLaxMode \<Rightarrow> [strCookieSameSite @ 61 # strCookieSameSiteLax]
        | CookieSameSiteStrictMode \<Rightarrow> [strCookieSameSite @ 61 # strCookieSameSiteStrict]
        | CookieSameSiteNoneMode \<Rightarrow> [strCookieSameSite @ 61 # strCookieSameSiteNone])"

definition cookie_head :: "'t Cookie \<Rightarrow> bytes" where
  "cookie_head c = (if ck_key c = [] then [] else ck_key c @ [61]) @ ck_value c"

lemma append_if: "(if P then d @ x else d) = d @ (if P then x else [])"
  by simp

lemma concat_map_if:
  "concat (map f (if P then [] else [x])) = (if P then [] else f x)"
  "concat (map f (if P then [x] else [])) = (if P then f x else [])"
  "(if \<not> P then y else z) = (if P then z else y)"
  by simp_all

lemma append_sameSite_parts:
  "append_sameSite d m = d @ concat (map (\<lambda>a. 59 # 32 # a)
     (case m of
          CookieSameSiteDisabled \<Rightarrow> []
        | CookieSameSiteDefaultMode \<Rightarrow> [strCookieSameSite]
        | CookieSameSiteLaxMode \<Rightarrow> [strCookieSameSite @ 61 # strCookieSameSiteLax]
        | CookieSameSiteStrictMode \<Rightarrow> [strCookieSameSite @ 61 # strCookieSameSiteStrict]
        | CookieSameSiteNoneMode \<Rightarrow> [strCookieSameSite @ 61 # strCookieSameSiteNone]))"
  by (cases m) (simp_all add: append_sameSite_def)

lemma appendCookiePart_parts: "appendCookiePart d k v = d @ 59 # 32 # k @ 61 # v"
  by (simp add: appendCookiePart_def)

lemma Cookie_AppendBytes_parts:
  "fst (Cookie_AppendBytes tm c []) =
     cookie_head c @ concat (map (\<lambda>a. 59 # 32 # a) (cookie_attr_list tm c))"
proof -
  consider "ck_maxAge c > 0" | "\<not> ck_maxAge c > 0" "ck_expire c = zeroTime tm"
    | "\<not> ck_maxAge c > 0" "ck_expire c \<noteq> zeroTime tm"
    by blast
  then show ?thesis
  proof cases
    case 1
    then have "the (AppendUint d (ck_maxAge c)) = d @ AppendUint_loop (nat (ck_maxAge c)) []" for d
      by (simp add: AppendUint_def)
    with 1 show ?thesis
      by (simp add: Cookie_AppendBytes_def Let_def cookie_head_def cookie_attr_list_def
          appendCookiePart_parts append_sameSite_parts append_if concat_map_if
          split del: if_split cong: if_cong)
  next
    case 2
    then show ?thesis
      by (simp add: Cookie_AppendBytes_def Let_def cookie_head_def cookie_attr_list_def
          appendCookiePart_parts append_sameSite_parts append_if concat_map_if
          split del: if_split cong: if_cong)
  next
    case 3
    then show ?thesis
      by (simp add: Cookie_AppendBytes_def Let_def cookie_head_def cookie_attr_list_def
          appendCookiePart_parts append_sameSite_parts append_if concat_map_if
          split del: if_split cong: if_cong)
  qed
qed

text \<open>What each attribute parses to.\<close>

lemma digits_value_text:
  assumes "list_all is_digit s"
  shows "value_text s"
proof -
  have "\<And>x. x \<in> set s \<Longrightarrow> is_digit x" using assms by (simp add: list_all_iff)
  moreover have "\<not> is_digit 59" "\<not> is_digit 32" "\<not> is_digit 34" by (simp_all add: is_digit_def)
  ultimately show ?thesis unfolding value_text_def arg_text_def
    by (cases "s = []") (auto, (metis hd_in_set last_in_set)+)
qed

definition date_ok :: "'t timelib \<Rightarrow> 't \<Rightarrow> bool" where
  "date_ok tm t \<longleftrightarrow> parseRFC1123 tm (AppendHTTPDate tm [] t) = Some t \<and> value_text (AppendHTTPDate tm [] t)"

definition cookie_ok :: "'t timelib \<Rightarrow> 't Cookie \<Rightarrow> bool" where
  "cookie_ok tm c \<longleftrightarrow> arg_text (ck_key c) \<and> 61 \<notin> set (ck_key c) \<and> value_text (ck_value c)
     \<and> (ck_key c = [] \<longrightarrow> ck_value c \<noteq> [] \<and> 61 \<notin> set (ck_value c))
     \<and> ck_maxAge c < 2 ^ 63 \<and> value_text (ck_domain c) \<and> value_text (ck_path c)
     \<and> (ck_expire c = zeroTime tm \<or> date_ok tm (ck_expire c))"

lemma cookie_names_text:
  "arg_text strCookieMaxAge" "arg_text strCookieExpires" "arg_text strCookieDomain" "arg_text strCookiePath"
  "arg_text strCookieSameSite" "value_text strCookieHTTPOnly" "value_text strCookieSecure"
  "value_text strCookieSameSite" "value_text strCookieSameSiteLax" "value_text strCookieSameSiteStrict"
  "value_text strCookieSameSiteNone"
  "61 \<notin> set strCookieMaxAge" "61 \<notin> set strCookieExpires" "61 \<notin> set strCookieDomain"
  "61 \<notin> set strCookiePath" "61 \<notin> set strCookieSameSite" "61 \<notin> set strCookieHTTPOnly"
  "61 \<notin> set strCookieSecure"
  by (simp_all add: value_text_def arg_text_def str_defs)

lemmas cookie_pair_names =
  cookie_pair_key_value [OF cookie_names_text(1) cookie_names_text(12)]
  cookie_pair_key_value [OF cookie_names_text(2) cookie_names_text(13)]
  cookie_pair_key_value [OF cookie_names_text(3) cookie_names_text(14)]
  cookie_pair_key_value [OF cookie_names_text(4) cookie_names_text(15)]
  cookie_pair_key_value [OF cookie_names_text(5) cookie_names_text(16)]
  cookie_pair_value [OF cookie_names_text(17) cookie_names_text(6)]
  cookie_pair_value [OF cookie_names_text(18) cookie_names_text(7)]
  cookie_pair_value [OF cookie_names_text(16) cookie_names_text(8)]

lemma Cookie_attr_names:
  "Cookie_attr tm c strCookieMaxAge v =
     (case ParseUint v of (n, Some err) \<Rightarrow> (c, Some (CookieUintErr err)) | (n, None) \<Rightarrow> (c\<lparr>ck_maxAge := n\<rparr>, None))"
  "parseRFC1123 tm v = Some t \<Longrightarrow> Cookie_attr tm c strCookieExpires v = (c\<lparr>ck_expire := t\<rparr>, None)"
  "Cookie_attr tm c strCookieDomain v = (c\<lparr>ck_domain := v\<rparr>, None)"
  "Cookie_attr tm c strCookiePath v = (c\<lparr>ck_path := v\<rparr>, None)"
  "Cookie_attr tm c [] strCookieHTTPOnly = (c\<lparr>ck_httpOnly := True\<rparr>, None)"
  "Cookie_attr tm c [] strCookieSecure = (c\<lparr>ck_secure := True\<rparr>, None)"
  "Cookie_attr tm c [] strCookieSameSite = (c\<lparr>ck_sameSite := CookieSameSiteDefaultMode\<rparr>, None)"
  "Cookie_attr tm c strCookieSameSite strCookieSameSiteLax = (c\<lparr>ck_sameSite := CookieSameSiteLaxMode\<rparr>, None)"
  "Cookie_attr tm c strCookieSameSite strCookieSameSiteStrict = (c\<lparr>ck_sameSite := CookieSameSiteStrictMode\<rparr>, None)"
  "Cookie_attr tm c strCookieSameSite strCookieSameSiteNone = (c\<lparr>ck_sameSite := CookieSameSiteNoneMode\<rparr>, None)"
  by (simp_all add: Cookie_attr_def caseInsensitiveCompare_def str_defs Let_def)

text \<open>Running a list of attributes in two parts.\<close>

lemma Cookie_attrs_append:
  "Cookie_attrs tm c xs = (c', None) \<Longrightarrow> Cookie_attrs tm c (xs @ ys) = Cookie_attrs tm c' ys"
  by (induction xs arbitrary: c) (auto split: prod.splits option.splits)

lemma Cookie_attrs_lifetime:
  assumes "cookie_ok tm c" and "ck_expire d = zeroTime tm" and "ck_maxAge d = 0"
  shows "Cookie_attrs tm d (map cookie_pair
      (if ck_maxAge c > 0 then [strCookieMaxAge @ 61 # AppendUint_loop (nat (ck_maxAge c)) []]
       else if ck_expire c \<noteq> zeroTime tm then [strCookieExpires @ 61 # AppendHTTPDate tm [] (ck_expire c)]
       else [])) =
    (d\<lparr>ck_maxAge := max 0 (ck_maxAge c),
       ck_expire := if ck_maxAge c > 0 then zeroTime tm else ck_expire c\<rparr>, None)"
proof (cases "ck_maxAge c > 0")
  case True
  then have "ParseUint (AppendUint_loop (nat (ck_maxAge c)) []) = (ck_maxAge c, None)"
    using assms(1) by (simp add: ParseUint_AppendUint_loop cookie_ok_def nat_less_iff)
  with True assms(2,3) digits_value_text [OF AppendUint_loop_is_digits] show ?thesis
    by (simp add: cookie_pair_names Cookie_attr_names)
next
  case False
  then have "ck_expire c \<noteq> zeroTime tm \<Longrightarrow>
      parseRFC1123 tm (AppendHTTPDate tm [] (ck_expire c)) = Some (ck_expire c)
      \<and> value_text (AppendHTTPDate tm [] (ck_expire c))"
    using assms(1) by (auto simp: cookie_ok_def date_ok_def)
  with False assms(2,3) show ?thesis
    by (cases "ck_expire c = zeroTime tm") (simp_all add: cookie_pair_names Cookie_attr_names)
qed

lemma Cookie_attrs_part:
  assumes "value_text v" and "ck_domain d = [] "
  shows "Cookie_attrs tm d (map cookie_pair (if v = [] then [] else [strCookieDomain @ 61 # v])) =
    (d\<lparr>ck_domain := v\<rparr>, None)"
  using assms by (simp add: cookie_pair_names Cookie_attr_names)

lemma Cookie_attrs_part_path:
  assumes "value_text v" and "ck_path d = []"
  shows "Cookie_attrs tm d (map cookie_pair (if v = [] then [] else [strCookiePath @ 61 # v])) =
    (d\<lparr>ck_path := v\<rparr>, None)"
  using assms by (simp add: cookie_pair_names Cookie_attr_names)

lemma Cookie_attrs_flags:
  assumes "\<not> ck_httpOnly d" and "\<not> ck_secure d"
  shows "Cookie_attrs tm d (map cookie_pair
      ((if h then [strCookieHTTPOnly] else []) @ (if s then [strCookieSecure] else []))) =
    (d\<lparr>ck_httpOnly := h, ck_secure := s\<rparr>, None)"
  using assms by (simp add: cookie_pair_names Cookie_attr_names)

lemma Cookie_attrs_sameSite:
  assumes "ck_sameSite d = CookieSameSiteDisabled"
  shows "Cookie_attrs tm d (map cookie_pair (case m of
          CookieSameSiteDisabled \<Rightarrow> []
        | CookieSameSiteDefaultMode \<Rightarrow> [strCookieSameSite]
        | CookieSameSiteLaxMode \<Rightarrow> [strCookieSameSite @ 61 # strCookieSameSiteLax]
        | CookieSameSiteStrictMode \<Rightarrow> [strCookieSameSite @ 61 # strCookieSameSiteStrict]
        | CookieSameSiteNoneMode \<Rightarrow> [strCookieSameSite @ 61 # strCookieSameSiteNone])) =
    (d\<lparr>ck_sameSite := m\<rparr>, None)"
  using assms by (cases m) (simp_all add: cookie_pair_names Cookie_attr_names cookie_names_text)

lemma Cookie_attrs_printed:
  assumes "cookie_ok tm c"
  shows "Cookie_attrs tm ((Cookie_Reset tm d)\<lparr>ck_key := k, ck_value := v\<rparr>)
      (map cookie_pair (cookie_attr_list tm c)) =
    ((Cookie_CopyTo tm d c)\<lparr>ck_key := k, ck_value := v, ck_maxAge := max 0 (ck_maxAge c),
       ck_expire := if ck_maxAge c > 0 then zeroTime tm else ck_expire c\<rparr>, None)"
proof -
  let ?d = "(Cookie_Reset tm d)\<lparr>ck_key := k, ck_value := v\<rparr>"
  note r = Cookie_Reset_def
  let ?d1 = "?d\<lparr>ck_maxAge := max 0 (ck_maxAge c),
       ck_expire := if ck_maxAge c > 0 then zeroTime tm else ck_expire c\<rparr>"
  have 1: "ck_expire ?d = zeroTime tm" "ck_maxAge ?d = 0" by (simp_all add: r)
  have 2: "ck_domain ?d1 = []" "ck_path (?d1\<lparr>ck_domain := x\<rparr>) = []"
    "\<not> ck_httpOnly (?d1\<lparr>ck_domain := x, ck_path := y\<rparr>)" "\<not> ck_secure (?d1\<lparr>ck_domain := x, ck_path := y\<rparr>)"
    "ck_sameSite (?d1\<lparr>ck_domain := x, ck_path := y, ck_httpOnly := h, ck_secure := s\<rparr>) = CookieSameSiteDisabled"
    for x y h s
    by (simp_all add: r)
  have t: "value_text (ck_domain c)" "value_text (ck_path c)" using assms by (simp_all add: cookie_ok_def)
  show ?thesis
    unfolding cookie_attr_list_def map_append [of cookie_pair "if ck_maxAge c > 0 then _ else _"]
      Cookie_attrs_append [OF Cookie_attrs_lifetime [OF assms 1]]
      map_append [of cookie_pair "if ck_domain c = [] then _ else _"]
      Cookie_attrs_append [OF Cookie_attrs_part [OF t(1) 2(1)]]
      map_append [of cookie_pair "if ck_path c = [] then _ else _"]
      Cookie_attrs_append [OF Cookie_attrs_part_path [OF t(2) 2(2)]]
      append_assoc [of "if ck_httpOnly c then _ else _", symmetric]
      map_append [of cookie_pair "_ @ _"]
      Cookie_attrs_append [OF Cookie_attrs_flags [OF 2(3) 2(4)]] Cookie_attrs_sameSite [OF 2(5)]
    by (simp add: Cookie_CopyTo_def r)
qed

lemma cookie_attr_list_no_semicolon:
  assumes "cookie_ok tm c" and "a \<in> set (cookie_attr_list tm c)"
  shows "59 \<notin> set a"
proof -
  have "59 \<notin> set (AppendUint_loop (nat (ck_maxAge c)) [])"
    using digits_value_text [OF AppendUint_loop_is_digits] by (simp add: value_text_def arg_text_def)
  moreover have "59 \<notin> set (ck_domain c)" "59 \<notin> set (ck_path c)"
    "ck_expire c \<noteq> zeroTime tm \<Longrightarrow> 59 \<notin> set (AppendHTTPDate tm [] (ck_expire c))"
    using assms(1) by (auto simp: cookie_ok_def date_ok_def value_text_def arg_text_def)
  moreover note cookie_names_text [unfolded value_text_def arg_text_def]
  ultimately have "list_all (\<lambda>a. 59 \<notin> set a) (cookie_attr_list tm c)"
    by (cases "ck_sameSite c") (simp_all add: cookie_attr_list_def)
  with assms(2) show ?thesis by (simp add: list_all_iff)
qed

lemma cookie_head_ok:
  assumes "cookie_ok tm c"
  shows "cookie_pair (cookie_head c) = (ck_key c, ck_value c)" and "59 \<notin> set (cookie_head c)"
    and "cookie_head c \<noteq> []"
  using assms cookie_pair_key_value [of "ck_key c" "ck_value c"] cookie_pair_value [of "ck_value c"]
  by (auto simp: cookie_head_def cookie_ok_def arg_text_def value_text_def)

lemma Cookie_ParseBytes_items:
  assumes "cookie_items b = kv # kvs"
  shows "\<exists>x. Cookie_ParseBytes tm d b = map_prod (\<lambda>c. c\<lparr>ck_bufKV := x\<rparr>) id
    (Cookie_attrs tm ((Cookie_Reset tm d)\<lparr>ck_key := fst kv, ck_value := snd kv\<rparr>) kvs)"
proof -
  let ?d = "Cookie_Reset tm d"
  obtain b' where it: "cookie_item b = Some (kv, b')" "cookie_items b' = kvs"
    using assms cookie_scan.items_unfold [of b] by (auto split: option.splits)
  then obtain p where p: "cookieScanner_next (ck_bufKV ?d) b = Some (p, b')" "kv_pair p = kv"
    using cookieScanner_next_item [of "ck_bufKV ?d" b] by (cases "cookieScanner_next (ck_bufKV ?d) b") auto
  let ?c = "?d\<lparr>ck_key := fst kv, ck_value := snd kv\<rparr>"
  have eq: "?d\<lparr>ck_bufKV := p, ck_key := fst kv, ck_value := snd kv\<rparr> = ?c\<lparr>ck_bufKV := p\<rparr>"
    by (rule Cookie.equality) simp_all
  have "Cookie_ParseBytes tm d b =
      Cookie_ParseBytes_loop tm (?d\<lparr>ck_bufKV := p, ck_key := fst kv, ck_value := snd kv\<rparr>) b'"
    using p by (auto simp: Cookie_ParseBytes_def Let_def kv_pair_def)
  then have "Cookie_ParseBytes tm d b = Cookie_ParseBytes_loop tm (?c\<lparr>ck_bufKV := p\<rparr>) b'"
    unfolding eq .
  moreover obtain x where "Cookie_ParseBytes_loop tm (?c\<lparr>ck_bufKV := p\<rparr>) b' =
      map_prod (\<lambda>c. c\<lparr>ck_bufKV := x\<rparr>) id (Cookie_attrs tm (?c\<lparr>ck_bufKV := p\<rparr>) (cookie_items b'))"
    using Cookie_ParseBytes_loop_attrs by blast
  ultimately have "Cookie_ParseBytes tm d b = map_prod (\<lambda>c. c\<lparr>ck_bufKV := x\<rparr>) id (Cookie_attrs tm ?c kvs)"
    by (simp add: it(2) Cookie_attrs_buf prod.map_comp comp_def id_def)
  then show ?thesis ..
qed

section \<open>Properties\<close>

text \<open>
  C25. Printing a cookie and parsing the text gives the cookie back: key, value, domain, path,
  the flags and the SameSite mode, and the age or the date (the date is not printed when an age
  is set). The fields must not hold a semicolon, outer blanks or outer quotes, and a date must
  be one the calendar library reads back.
\<close>

theorem Cookie_print_parse:
  assumes "cookie_ok tm c"
  shows "\<exists>c'. Cookie_ParseBytes tm d (fst (Cookie_AppendBytes tm c [])) = (c', None)
    \<and> ck_key c' = ck_key c \<and> ck_value c' = ck_value c \<and> ck_domain c' = ck_domain c
    \<and> ck_path c' = ck_path c \<and> ck_httpOnly c' = ck_httpOnly c \<and> ck_secure c' = ck_secure c
    \<and> ck_sameSite c' = ck_sameSite c \<and> ck_maxAge c' = max 0 (ck_maxAge c)
    \<and> ck_expire c' = (if ck_maxAge c > 0 then zeroTime tm else ck_expire c)"
proof -
  let ?s = "fst (Cookie_AppendBytes tm c [])"
  have "cookie_items ?s = (ck_key c, ck_value c) # map cookie_pair (cookie_attr_list tm c)"
    using cookie_items_parts [OF cookie_head_ok(2) [OF assms] _ cookie_head_ok(3) [OF assms]]
      cookie_attr_list_no_semicolon [OF assms] cookie_head_ok(1) [OF assms]
    by (simp add: Cookie_AppendBytes_parts)
  from Cookie_ParseBytes_items [OF this, of tm d] show ?thesis
    by (auto simp: Cookie_attrs_printed [OF assms] Cookie_CopyTo_def)
qed

text \<open>A calendar with one instant besides the zero time: the one \<open>CookieExpireDelete\<close> names.\<close>

definition tiny_time :: "bool timelib" where
  "tiny_time = \<lparr>zeroTime = False,
     formatRFC1123 = (\<lambda>t. if t then bytes_of ''Tue, 10 Nov 2009 23:00:00 UTC'' else bytes_of ''Mon, 01 Jan 0001 00:00:00 UTC''),
     parseRFC1123 = (\<lambda>s. if s = bytes_of ''Tue, 10 Nov 2009 23:00:00 GMT'' then Some True else None),
     parseCookieDate = (\<lambda>s. None)\<rparr>"

definition example_cookie :: "bool Cookie" where
  "example_cookie = \<lparr>ck_key = bytes_of ''sid'', ck_value = bytes_of ''a=b'', ck_expire = True, ck_maxAge = 0,
     ck_domain = bytes_of ''foo.com'', ck_path = bytes_of ''/'', ck_httpOnly = True, ck_secure = False,
     ck_sameSite = CookieSameSiteLaxMode, ck_bufKV = \<lparr>kv_key = [], kv_value = [], kv_noValue = False\<rparr>, ck_buf = []\<rparr>"

theorem Cookie_print_parse_witness:
  "\<exists>c'. Cookie_ParseBytes tiny_time example_cookie (fst (Cookie_AppendBytes tiny_time example_cookie [])) = (c', None)
     \<and> ck_expire c' = True \<and> ck_sameSite c' = CookieSameSiteLaxMode"
proof -
  have "cookie_ok tiny_time example_cookie"
    by (simp add: cookie_ok_def date_ok_def tiny_time_def example_cookie_def AppendHTTPDate_def
        value_text_def arg_text_def strGMT_def)
  from Cookie_print_parse [OF this, of example_cookie] show ?thesis
    by (auto simp: example_cookie_def)
qed

text \<open>
  The cookies of a request header: parsing appends the non-empty pairs between semicolons,
  in order, and parsing a printed cookie list gives its keys and values back.
\<close>

theorem request_cookies_print_parse:
  assumes "\<And>kv. kv \<in> set kvs \<Longrightarrow> cookie_kv_ok kv"
  shows "map kv_pair (live (parseRequestCookies h b)) =
      map kv_pair (live h) @ filter keep_pair (map cookie_pair (split_on (ch CHR '';'') b))
    \<and> map kv_pair (live (parseRequestCookies h (appendRequestCookieBytes [] kvs))) =
      map kv_pair (live h) @ map kv_pair kvs"
  using parseRequestCookies_collects reparse_request_cookies [OF assms] by blast

theorem request_cookies_print_parse_witness:
  "map kv_pair (live (parseRequestCookies slice_empty
      (appendRequestCookieBytes [] [set_kv (bytes_of ''a'') (bytes_of ''1'') False,
         set_kv (bytes_of ''b'') (bytes_of ''x=y'') False]))) =
    [(bytes_of ''a'', bytes_of ''1''), (bytes_of ''b'', bytes_of ''x=y'')]"
proof -
  let ?kvs = "[set_kv (bytes_of ''a'') (bytes_of ''1'') False, set_kv (bytes_of ''b'') (bytes_of ''x=y'') False]"
  have ok: "\<And>kv. kv \<in> set ?kvs \<Longrightarrow> cookie_kv_ok kv"
    by (auto simp: cookie_kv_ok_def set_kv_def value_text_def arg_text_def)
  show ?thesis
    using request_cookies_print_parse [of ?kvs slice_empty "[]", OF ok, THEN conjunct2] by (simp add: kv_pair_def set_kv_def)
qed

end
