(* ===== verification/HeaderScan.thy ===== *)
theory HeaderScan
  imports Cookie
begin

text \<open>
  The text layer of \<^verbatim>\<open>header.go\<close>: header names and values, the line and header scanners, and
  the helpers both header types share. \<open>headerScanner.next\<close> works in place: it rewrites the
  names it reads and closes the gaps of folded values by moving the rest of the buffer down. The
  scanner of the model therefore keeps the whole buffer it was given, cut in three: what it has
  passed (\<open>hs_pre\<close>), what it still sees (\<open>hs_b\<close>, the field \<^verbatim>\<open>b\<close> of the source), and what it
  has dropped off the end of its view (\<open>hs_post\<close>).
\<close>


section \<open>Errors\<close>

datatype header_err =
  errNeedMore | errInvalidName | errSmallBuffer
  | InvalidHeaderKey bytes | HeaderUintErr uint_err | NonNumericContentLength
  | NoMethod | EmptyRequestURI | NoWhitespace | BadStatusCode uint_err | BadStatusEnd


section \<open>Names and values\<close>

fun normalizeHeaderKey_loop :: "bytes \<Rightarrow> bytes" where
  "normalizeHeaderKey_loop [] = []"
| "normalizeHeaderKey_loop (p # b) =
     (if p = ch CHR ''-'' then
        p # (case b of [] \<Rightarrow> [] | c # b' \<Rightarrow> toUpperTable c # normalizeHeaderKey_loop b')
      else toLowerTable p # normalizeHeaderKey_loop b)"

definition normalizeHeaderKey :: "bytes \<Rightarrow> bool \<Rightarrow> bytes" where
  "normalizeHeaderKey b disableNormalizing =
     (if disableNormalizing then b
      else case b of [] \<Rightarrow> [] | c # b' \<Rightarrow> toUpperTable c # normalizeHeaderKey_loop b')"

definition AppendNormalizedHeaderKey :: "bytes \<Rightarrow> bytes \<Rightarrow> bytes" where
  "AppendNormalizedHeaderKey dst key = dst @ normalizeHeaderKey key False"

definition removeNewLines :: "bytes \<Rightarrow> bytes" where
  "removeNewLines raw =
     (let foundR = IndexByte raw rChar; foundN = IndexByte raw nChar;
          blank = (\<lambda>start. take start raw
                     @ map (\<lambda>c. if c = rChar \<or> c = nChar then ch CHR '' '' else c) (drop start raw))
      in case foundN of
           Some n \<Rightarrow>
             (case foundR of
                Some r \<Rightarrow> if r > n then blank n else blank r
              | None \<Rightarrow> blank 0)
         | None \<Rightarrow> (case foundR of Some r \<Rightarrow> blank r | None \<Rightarrow> raw))"

definition getHeaderKeyBytes :: "argsKV \<Rightarrow> bytes \<Rightarrow> bool \<Rightarrow> argsKV" where
  "getHeaderKeyBytes kv key disableNormalizing = kv\<lparr>kv_key := normalizeHeaderKey key disableNormalizing\<rparr>"

definition initHeaderKV :: "argsKV \<Rightarrow> bytes \<Rightarrow> bytes \<Rightarrow> bool \<Rightarrow> argsKV" where
  "initHeaderKV kv key value disableNormalizing =
     (getHeaderKeyBytes kv key disableNormalizing)\<lparr>kv_value := removeNewLines value\<rparr>"

definition appendHeaderLine :: "bytes \<Rightarrow> bytes \<Rightarrow> bytes \<Rightarrow> bytes" where
  "appendHeaderLine dst key value = dst @ key @ strColonSpace @ value @ strCRLF"

definition parseContentLength :: "bytes \<Rightarrow> int \<times> header_err option" where
  "parseContentLength b =
     (case parseUintBuf b of
        (v, n, Some err) \<Rightarrow> (-1, Some (HeaderUintErr err))
      | (v, n, None) \<Rightarrow> if n \<noteq> length b then (-1, Some NonNumericContentLength) else (v, None))"


section \<open>Lists of values\<close>

definition stripSpace :: "bytes \<Rightarrow> bytes" where
  "stripSpace b = trim_right (ch CHR '' '') (trim_left (ch CHR '' '') b)"

definition headerValueScanner_next :: "bytes \<Rightarrow> (bytes \<times> bytes) option" where
  "headerValueScanner_next b =
     (if length b = 0 then None
      else case IndexByte b (ch CHR '','') of
             None \<Rightarrow> Some (stripSpace b, [])
           | Some n \<Rightarrow> Some (stripSpace (take n b), drop (n + 1) b))"

lemma headerValueScanner_next_shrinks:
  "headerValueScanner_next b = Some (v, b') \<Longrightarrow> length b' < length b"
  by (auto simp: headerValueScanner_next_def split: option.splits if_splits)

function hasHeaderValue :: "bytes \<Rightarrow> bytes \<Rightarrow> bool" where
  "hasHeaderValue s value =
     (case headerValueScanner_next s of
        None \<Rightarrow> False
      | Some (v, s') \<Rightarrow> if caseInsensitiveCompare v value then True else hasHeaderValue s' value)"
  by pat_completeness auto
termination
  by (relation "measure (length \<circ> fst)") (auto dest: headerValueScanner_next_shrinks)

declare hasHeaderValue.simps [simp del]


section \<open>Lines\<close>

definition nextLine :: "bytes \<Rightarrow> (bytes \<times> bytes) option" where
  "nextLine b =
     (case IndexByte b nChar of
        None \<Rightarrow> None
      | Some nNext \<Rightarrow>
          (let n = (if nNext > 0 \<and> b ! (nNext - 1) = rChar then nNext - 1 else nNext)
           in Some (take n b, drop (nNext + 1) b)))"

lemma nextLine_shrinks: "nextLine b = Some (l, b') \<Longrightarrow> length b' < length b"
  by (auto simp: nextLine_def Let_def split: option.splits dest: IndexByte_Some)

text \<open>The loop that skips empty lines before the first line.\<close>

function firstLine :: "bytes \<Rightarrow> (bytes \<times> bytes) option" where
  "firstLine bNext =
     (case nextLine bNext of
        None \<Rightarrow> None
      | Some (b, bNext) \<Rightarrow> if length b = 0 then firstLine bNext else Some (b, bNext))"
  by pat_completeness auto
termination
  by (relation "measure length") (auto dest: nextLine_shrinks)

declare firstLine.simps [simp del]

definition isOnlyCRLF :: "bytes \<Rightarrow> bool" where
  "isOnlyCRLF b \<longleftrightarrow> list_all (\<lambda>ch. \<not> (ch \<noteq> rChar \<and> ch \<noteq> nChar)) b"

text \<open>
  \<open>readRawHeaders\<close> copies the header block up to its empty line. \<open>n\<close> bytes of \<open>buf\<close> have been
  seen, \<open>b\<close> is what follows them.
\<close>

function readRawHeaders_loop :: "bytes \<Rightarrow> bytes \<Rightarrow> nat \<Rightarrow> bytes \<Rightarrow> bytes \<times> nat \<times> header_err option" where
  "readRawHeaders_loop dst buf n b =
     (case IndexByte b nChar of
        None \<Rightarrow> (dst, 0, Some errNeedMore)
      | Some m0 \<Rightarrow>
          (let m = m0 + 1; n = n + m in
           if m = 2 \<and> b ! 0 = rChar \<or> m = 1 then (dst @ take n buf, n, None)
           else readRawHeaders_loop dst buf n (drop m b)))"
  by pat_completeness auto
termination
  by (relation "measure (\<lambda>(dst, buf, n, b). length b)") (auto dest: IndexByte_Some)

declare readRawHeaders_loop.simps [simp del]

definition readRawHeaders :: "bytes \<Rightarrow> bytes \<Rightarrow> bytes \<times> nat \<times> header_err option" where
  "readRawHeaders dst buf =
     (case IndexByte buf nChar of
        None \<Rightarrow> ([], 0, Some errNeedMore)
      | Some n \<Rightarrow>
          if n = 1 \<and> buf ! 0 = rChar \<or> n = 0 then (dst, n + 1, None)
          else readRawHeaders_loop dst buf (n + 1) (drop (n + 1) buf))"


section \<open>Folded values\<close>

text \<open>
  The loop of \<open>normalizeHeaderValue\<close> drops line breaks and turns the tabs at the start of a
  line into blanks: the kept bytes and the number of bytes dropped.
\<close>

fun normalizeHeaderValue_loop :: "bytes \<Rightarrow> bool \<Rightarrow> bytes \<times> nat" where
  "normalizeHeaderValue_loop [] lineStart = ([], 0)"
| "normalizeHeaderValue_loop (c # ov) lineStart =
     (if c = rChar \<or> c = nChar then
        (case normalizeHeaderValue_loop ov (if c = nChar then True else lineStart) of
           (nv, shrunk) \<Rightarrow> (nv, shrunk + 1))
      else if lineStart \<and> c = 9 then
        (case normalizeHeaderValue_loop ov lineStart of (nv, shrunk) \<Rightarrow> (ch CHR '' '' # nv, shrunk))
      else
        (case normalizeHeaderValue_loop ov False of (nv, shrunk) \<Rightarrow> (c # nv, shrunk)))"

text \<open>
  \<open>normalizeHeaderValue\<close> writes the kept bytes over the start of \<open>ob\<close> and moves what follows
  the value down over the gap. The result is the value, the rewritten buffer, where the new view
  starts in it and how many bytes of its end the view leaves out, and the new header length.
  The value is a prefix of \<open>ob\<close>.
\<close>

definition normalizeHeaderValue :: "bytes \<Rightarrow> bytes \<Rightarrow> int \<Rightarrow> (bytes \<times> bytes \<times> nat \<times> nat \<times> int)" where
  "normalizeHeaderValue ov ob headerLength =
     (case normalizeHeaderValue_loop ov False of
        (nv, shrunk) \<Rightarrow>
          (let write = length nv;
               ob' = nv @ drop (write + shrunk) ob @ drop (length ob - shrunk) ob;
               skip = (if ob' ! write = rChar then (if ob' ! (write + 1) = nChar then 2 else 1)
                       else if ob' ! write = nChar then 1 else 0)
           in (nv, ob', write + skip, shrunk, headerLength - int shrunk)))"


section \<open>The header scanner\<close>

record headerScanner =
  hs_pre :: bytes
  hs_b :: bytes
  hs_post :: bytes
  hs_key :: bytes
  hs_value :: bytes
  hs_err :: "header_err option"
  hs_hLen :: int
  hs_disableNormalizing :: bool
  hs_nextColon :: int
  hs_nextNewLine :: int
  hs_initialized :: bool

definition headerScanner_init :: "bytes \<Rightarrow> bool \<Rightarrow> headerScanner" where
  "headerScanner_init buf disableNormalizing =
     \<lparr>hs_pre = [], hs_b = buf, hs_post = [], hs_key = [], hs_value = [], hs_err = None, hs_hLen = 0,
      hs_disableNormalizing = disableNormalizing, hs_nextColon = 0, hs_nextNewLine = 0,
      hs_initialized = False\<rparr>"

text \<open>\<^verbatim>\<open>s.b = s.b[n:]; s.hLen += n\<close>\<close>

definition hs_advance :: "nat \<Rightarrow> headerScanner \<Rightarrow> headerScanner" where
  "hs_advance n s =
     s\<lparr>hs_pre := hs_pre s @ take n (hs_b s), hs_b := drop n (hs_b s), hs_hLen := hs_hLen s + int n\<rparr>"

text \<open>
  The loop over continuation lines: \<open>n\<close> is the index of the line break that ends the value so
  far. The result is the last such index, whether the value spans lines, and the positions of
  the colon and line break of the following line when that line turns out to be a header.
\<close>

function multiLine_loop :: "bytes \<Rightarrow> nat \<Rightarrow> bool \<Rightarrow> nat \<times> bool \<times> (nat \<times> int) option" where
  "multiLine_loop b n isMultiLineValue =
     (if n + 1 \<ge> length b then (n, isMultiLineValue, None)
      else if b ! (n + 1) \<noteq> ch CHR '' '' \<and> b ! (n + 1) \<noteq> 9 then (n, isMultiLineValue, None)
      else case IndexByte (drop (n + 1) b) nChar of
             None \<Rightarrow> (n, isMultiLineValue, None)
           | Some d \<Rightarrow>
               if d = 0 then (n, isMultiLineValue, None)
               else if d = 1 \<and> b ! (n + 1) = rChar then (n, isMultiLineValue, None)
               else (let e = n + d + 1 in
                     case IndexByte (take d (drop (n + 1) b)) (ch CHR '':'') of
                       Some c \<Rightarrow> (n, isMultiLineValue, Some (c, int d - int c - 1))
                     | None \<Rightarrow> multiLine_loop b e True))"
  by pat_completeness auto
termination
  by (relation "measure (\<lambda>(b, n, _). length b - n)") auto

declare multiLine_loop.simps [simp del]

text \<open>The second half of \<open>next\<close>: the name has been read, \<open>n\<close> is the first line break of \<open>b\<close>.\<close>

definition headerScanner_value :: "headerScanner \<Rightarrow> nat \<Rightarrow> bool \<times> headerScanner" where
  "headerScanner_value s n0 =
     (case multiLine_loop (hs_b s) n0 False of
        (n, isMultiLineValue, hint) \<Rightarrow>
          (let s = (case hint of
                      None \<Rightarrow> s
                    | Some (c, nl) \<Rightarrow> s\<lparr>hs_nextColon := int c, hs_nextNewLine := nl\<rparr>)
           in if n \<ge> length (hs_b s) then (False, s\<lparr>hs_err := Some errNeedMore\<rparr>)
              else
                (let oldPre = hs_pre s; oldB = hs_b s; line = take n oldB;
                     line = (if n > 0 \<and> line ! (n - 1) = rChar then butlast line else line);
                     value = trim_right (ch CHR '' '') line;
                     s = (hs_advance (n + 1) s)\<lparr>hs_value := value\<rparr>
                 in if isMultiLineValue \<and> length value > 0 then
                      (case normalizeHeaderValue value oldB (hs_hLen s) of
                         (nv, ob, start, shrunk, nhl) \<Rightarrow>
                           (True, s\<lparr>hs_value := nv, hs_hLen := nhl,
                                    hs_pre := oldPre @ take start ob,
                                    hs_b := drop start (take (length ob - shrunk) ob),
                                    hs_post := drop (length ob - shrunk) ob @ hs_post s\<rparr>))
                    else if isMultiLineValue then
                      (True, s\<lparr>hs_value := [], hs_hLen := 0, hs_b := [],
                               hs_pre := hs_pre s @ hs_b s\<rparr>)
                    else (True, s))))"

text \<open>The name: its length \<open>n\<close> is known, the blanks after the colon are skipped.\<close>

definition headerScanner_name :: "headerScanner \<Rightarrow> nat \<Rightarrow> bool \<times> headerScanner" where
  "headerScanner_name s n =
     (let key = normalizeHeaderKey (take n (hs_b s)) (hs_disableNormalizing s);
          s = s\<lparr>hs_key := key, hs_b := key @ drop n (hs_b s)\<rparr>;
          blanks = length (takeWhile (\<lambda>c. c = ch CHR '' '') (drop (n + 1) (hs_b s)));
          s = (hs_advance (n + 1 + blanks) s)\<lparr>hs_nextNewLine := hs_nextNewLine s - int blanks\<rparr>
      in if hs_nextNewLine s \<ge> 0
         then headerScanner_value (s\<lparr>hs_nextNewLine := -1\<rparr>) (nat (hs_nextNewLine s))
         else case IndexByte (hs_b s) nChar of
                None \<Rightarrow> (False, s\<lparr>hs_err := Some errNeedMore\<rparr>)
              | Some n \<Rightarrow> headerScanner_value s n)"

definition headerScanner_next :: "headerScanner \<Rightarrow> bool \<times> headerScanner" where
  "headerScanner_next s =
     (let s = (if \<not> hs_initialized s
               then s\<lparr>hs_nextColon := -1, hs_nextNewLine := -1, hs_initialized := True\<rparr> else s);
          bLen = length (hs_b s)
      in if bLen \<ge> 2 \<and> hs_b s ! 0 = rChar \<and> hs_b s ! 1 = nChar then (False, hs_advance 2 s)
         else if bLen \<ge> 1 \<and> hs_b s ! 0 = nChar then (False, hs_advance 1 s)
         else if hs_nextColon s \<ge> 0
         then headerScanner_name (s\<lparr>hs_nextColon := -1\<rparr>) (nat (hs_nextColon s))
         else case IndexByte (hs_b s) nChar of
                None \<Rightarrow> (False, s\<lparr>hs_err := Some errNeedMore\<rparr>)
              | Some x \<Rightarrow>
                  (case IndexByte (hs_b s) (ch CHR '':'') of
                     None \<Rightarrow> (False, s\<lparr>hs_err := Some errNeedMore\<rparr>)
                   | Some n \<Rightarrow>
                       if x < n then (False, s\<lparr>hs_err := Some errInvalidName\<rparr>)
                       else headerScanner_name s n))"

lemma normalizeHeaderValue_loop_length:
  "normalizeHeaderValue_loop ov l = (nv, shrunk) \<Longrightarrow> length nv + shrunk = length ov"
  by (induction ov l arbitrary: nv shrunk rule: normalizeHeaderValue_loop.induct)
    (auto split: if_splits prod.splits)

lemma normalizeHeaderValue_length:
  assumes "normalizeHeaderValue ov ob hl = (nv, ob', start, shrunk, nhl)" and "length ov \<le> length ob"
  shows "length ob' = length ob"
  using assms normalizeHeaderValue_loop_length [of ov False]
  by (auto simp: normalizeHeaderValue_def Let_def split: prod.splits)

lemma length_trim_right: "length (trim_right c xs) \<le> length xs"
  unfolding trim_right_def using length_dropWhile_le [of "\<lambda>x. x = c" "rev xs"] by simp

lemma headerScanner_value_shrinks:
  assumes "headerScanner_value s n0 = (True, s')"
  shows "length (hs_b s') \<le> length (hs_b s)" and "hs_b s \<noteq> []"
proof -
  obtain n multi hint where m: "multiLine_loop (hs_b s) n0 False = (n, multi, hint)"
    by (cases "multiLine_loop (hs_b s) n0 False") auto
  define line where "line = (let l = take n (hs_b s) in if n > 0 \<and> l ! (n - 1) = rChar then butlast l else l)"
  define val where "val = trim_right (ch CHR '' '') line"
  have n: "n < length (hs_b s)"
    using assms m by (cases hint) (auto simp: headerScanner_value_def Let_def split: if_splits)
  have "length val \<le> length (hs_b s)"
    using length_trim_right [of "ch CHR '' ''" line] by (auto simp: val_def line_def Let_def)
  then have *: "length ob = length (hs_b s)" if "normalizeHeaderValue val (hs_b s) hl = (nv, ob, start, shrunk, nhl)"
    for nv ob start shrunk hl nhl
    using normalizeHeaderValue_length [OF that] by simp
  show "hs_b s \<noteq> []" using n by auto
  show "length (hs_b s') \<le> length (hs_b s)"
  proof (cases "multi \<and> length val > 0")
    case True
    obtain nv ob start shrunk nhl where
      nhv: "normalizeHeaderValue val (hs_b s) (hs_hLen s + int (n + 1)) = (nv, ob, start, shrunk, nhl)"
      by (cases "normalizeHeaderValue val (hs_b s) (hs_hLen s + int (n + 1))") auto
    have "hs_b s' = drop start (take (length ob - shrunk) ob)"
      using assms m n True nhv
      by (cases hint)
        (auto simp: headerScanner_value_def Let_def hs_advance_def val_def [symmetric] line_def [symmetric]
          val_def line_def)
    then show ?thesis using * [OF nhv] by simp
  next
    case False
    then have "hs_b s' = drop (n + 1) (hs_b s) \<or> hs_b s' = []"
      using assms m n
      by (cases hint) (auto simp: headerScanner_value_def Let_def hs_advance_def val_def line_def split: if_splits)
    then show ?thesis by auto
  qed
qed

lemma length_normalizeHeaderKey_loop [simp]: "length (normalizeHeaderKey_loop b) = length b"
  by (induction b rule: normalizeHeaderKey_loop.induct) (auto split: list.splits)

lemma length_normalizeHeaderKey [simp]: "length (normalizeHeaderKey b d) = length b"
  by (auto simp: normalizeHeaderKey_def split: list.splits)

lemma headerScanner_name_shrinks:
  assumes "headerScanner_name s n = (True, s')"
  shows "length (hs_b s') < length (hs_b s)"
proof -
  let ?key = "normalizeHeaderKey (take n (hs_b s)) (hs_disableNormalizing s)"
  let ?b = "?key @ drop n (hs_b s)"
  obtain t k m where t: "headerScanner_value t m = (True, s')" "hs_b t = drop (Suc (n + k)) ?b"
    using assms by (auto simp: headerScanner_name_def hs_advance_def Let_def split: if_splits option.splits)
  have "length ?b = length (hs_b s)" by simp
  then show ?thesis using headerScanner_value_shrinks [OF t(1)] t(2) by (cases "hs_b s") auto
qed

lemma headerScanner_next_shrinks:
  "headerScanner_next s = (True, s') \<Longrightarrow> length (hs_b s') < length (hs_b s)"
  by (auto simp: headerScanner_next_def Let_def split: if_splits option.splits
      dest!: headerScanner_name_shrinks)

text \<open>The loops of both \<open>parseHeaders\<close>: \<open>f\<close> is the body, run for every header read.\<close>

function header_loop ::
  "('h \<Rightarrow> bytes \<Rightarrow> bytes \<Rightarrow> 'h) \<Rightarrow> headerScanner \<Rightarrow> 'h \<Rightarrow> 'h \<times> headerScanner" where
  "header_loop f s h =
     (case headerScanner_next s of
        (ok, s') \<Rightarrow> if ok then header_loop f s' (f h (hs_key s') (hs_value s')) else (h, s'))"
  by pat_completeness auto
termination
  by (relation "measure (\<lambda>(f, s, h). length (hs_b s))") (auto dest: headerScanner_next_shrinks [OF sym])

declare header_loop.simps [simp del]

section \<open>Names and values: lemmas\<close>

lemma toUpper_dash: "toUpperTable c = 45 \<longleftrightarrow> c = 45" and toLower_dash: "toLowerTable c = 45 \<longleftrightarrow> c = 45"
  by (auto simp: toUpperTable_def toLowerTable_def word_le_nat_alt unat_word_ariths word_unat_eq_iff unat_sub_if')

lemma toUpperTable_idem: "toUpperTable (toUpperTable c) = toUpperTable c"
  by (auto simp: toUpperTable_def word_le_nat_alt unat_word_ariths unat_sub_if')

lemma normalizeHeaderKey_loop_idem:
  "normalizeHeaderKey_loop (normalizeHeaderKey_loop b) = normalizeHeaderKey_loop b"
  by (induction b rule: normalizeHeaderKey_loop.induct)
    (auto simp: toUpperTable_idem toLowerTable_idem toLower_dash split: list.splits)

lemma normalizeHeaderKey_idem: "normalizeHeaderKey (normalizeHeaderKey b d) d = normalizeHeaderKey b d"
  by (auto simp: normalizeHeaderKey_def toUpperTable_idem normalizeHeaderKey_loop_idem split: list.splits)

lemma upper_lower_or:
  "97 \<le> c \<Longrightarrow> c \<le> 122 \<Longrightarrow> (c - 32) OR 32 = c OR 32" "65 \<le> c \<Longrightarrow> c \<le> 90 \<Longrightarrow> (c + 32) OR 32 = c OR 32"
  for c :: byte
proof -
  have "list_all (\<lambda>n. (word_of_nat n - 32) OR 32 = (word_of_nat n :: byte) OR 32) [97..<123]"
    "list_all (\<lambda>n. (word_of_nat n + 32) OR 32 = (word_of_nat n :: byte) OR 32) [65..<91]"
    by code_simp+
  then have a: "\<And>n. n \<in> set [97..<123] \<Longrightarrow> (word_of_nat n - 32) OR 32 = (word_of_nat n :: byte) OR 32"
    "\<And>n. n \<in> set [65..<91] \<Longrightarrow> (word_of_nat n + 32) OR 32 = (word_of_nat n :: byte) OR 32"
    unfolding list_all_iff by blast+
  have *: "97 \<le> n \<Longrightarrow> n \<le> 122 \<Longrightarrow> (word_of_nat n - 32) OR 32 = (word_of_nat n :: byte) OR 32"
    for n
    by (rule a(1)) (subst set_upt, subst atLeastLessThan_iff, linarith)
  have **: "65 \<le> n \<Longrightarrow> n \<le> 90 \<Longrightarrow> (word_of_nat n + 32) OR 32 = (word_of_nat n :: byte) OR 32" for n
    by (rule a(2)) (subst set_upt, subst atLeastLessThan_iff, linarith)
  have "c = word_of_nat (unat c)" by simp
  then have "97 \<le> unat c \<Longrightarrow> unat c \<le> 122 \<Longrightarrow> (c - 32) OR 32 = c OR 32"
    "65 \<le> unat c \<Longrightarrow> unat c \<le> 90 \<Longrightarrow> (c + 32) OR 32 = c OR 32"
    using * [of "unat c"] ** [of "unat c"] by metis+
  then show "97 \<le> c \<Longrightarrow> c \<le> 122 \<Longrightarrow> (c - 32) OR 32 = c OR 32"
    "65 \<le> c \<Longrightarrow> c \<le> 90 \<Longrightarrow> (c + 32) OR 32 = c OR 32"
    by (simp_all add: word_le_nat_alt)
qed

lemma case_tables_or: "toUpperTable c OR 32 = c OR 32" "toLowerTable c OR 32 = c OR 32"
  using upper_lower_or [of c] by (simp_all add: toUpperTable_def toLowerTable_def)

lemma list_all2_normalizeHeaderKey_loop:
  "list_all2 (\<lambda>x y. x OR 32 = y OR 32) (normalizeHeaderKey_loop b) b"
  by (induction b rule: normalizeHeaderKey_loop.induct) (auto simp: case_tables_or split: list.splits)

text \<open>Normalising a name does not change what it is compared equal to.\<close>

lemma normalizeHeaderKey_compare:
  "caseInsensitiveCompare (normalizeHeaderKey b d) k = caseInsensitiveCompare b k"
proof -
  have "list_all2 (\<lambda>x y. x OR 32 = y OR 32) (normalizeHeaderKey b d) b"
    using list_all2_normalizeHeaderKey_loop
    by (auto simp: normalizeHeaderKey_def case_tables_or list_all2_same split: list.splits)
  then have "list_all2 (\<lambda>x y. x OR 32 = y OR 32) (normalizeHeaderKey b d) k =
      list_all2 (\<lambda>x y. x OR 32 = y OR 32) b k"
    by (simp add: list_all2_conv_all_nth)
  then show ?thesis by (simp add: caseInsensitiveCompare_def)
qed

definition blank_break :: "byte \<Rightarrow> byte" where
  "blank_break c = (if c = rChar \<or> c = nChar then ch CHR '' '' else c)"

lemma blank_id: "rChar \<notin> set b \<Longrightarrow> nChar \<notin> set b \<Longrightarrow> map blank_break b = b"
  by (induction b) (auto simp: blank_break_def)

lemma blank_from:
  assumes "rChar \<notin> set (take n b)" and "nChar \<notin> set (take n b)"
  shows "take n b @ map blank_break (drop n b) = map blank_break b"
proof -
  have "map blank_break b = map blank_break (take n b) @ map blank_break (drop n b)"
    by (simp flip: map_append)
  then show ?thesis by (simp add: blank_id [OF assms])
qed

lemma removeNewLines_eq: "removeNewLines raw = map blank_break raw"
proof -
  have eq: "removeNewLines raw =
      (case IndexByte raw nChar of
         Some n \<Rightarrow> (case IndexByte raw rChar of
             Some r \<Rightarrow> if r > n then take n raw @ map blank_break (drop n raw)
                         else take r raw @ map blank_break (drop r raw)
           | None \<Rightarrow> take 0 raw @ map blank_break (drop 0 raw))
       | None \<Rightarrow> (case IndexByte raw rChar of
             Some r \<Rightarrow> take r raw @ map blank_break (drop r raw) | None \<Rightarrow> raw))"
    unfolding removeNewLines_def Let_def blank_break_def [abs_def] ..
  show ?thesis
  proof (cases "IndexByte raw nChar"; cases "IndexByte raw rChar")
    fix n r assume f: "IndexByte raw nChar = Some n" "IndexByte raw rChar = Some r"
    have "rChar \<notin> set (take n raw)" if "n < r"
      using IndexByte_Some [OF f(2)] set_take_subset_set_take [of n r raw] that by auto
    moreover have "nChar \<notin> set (take r raw)" if "\<not> n < r"
      using IndexByte_Some [OF f(1)] set_take_subset_set_take [of r n raw] that by auto
    ultimately show ?thesis using f IndexByte_Some [OF f(1)] IndexByte_Some [OF f(2)]
      by (cases "n < r") (simp_all add: eq blank_from)
  next
    fix n assume f: "IndexByte raw nChar = Some n" "IndexByte raw rChar = None"
    then show ?thesis by (simp add: eq del: IndexByte_None)
  next
    fix r assume f: "IndexByte raw nChar = None" "IndexByte raw rChar = Some r"
    then have "nChar \<notin> set (take r raw)" by (auto dest: in_set_takeD)
    with f IndexByte_Some [OF f(2)] show ?thesis by (simp add: eq blank_from del: IndexByte_None)
  next
    assume f: "IndexByte raw nChar = None" "IndexByte raw rChar = None"
    then have "map blank_break raw = raw" by (intro blank_id) auto
    with f show ?thesis by (simp add: eq del: IndexByte_None)
  qed
qed

section \<open>Lists of values: lemmas\<close>

lemma headerValueScanner_next_item: "headerValueScanner_next b = sep_item 44 stripSpace b"
proof (cases "IndexByte b 44")
  case None
  then have "takeWhile (\<lambda>x. x \<noteq> 44) b = b" by (simp add: takeWhile_eq_all_conv) metis
  with None show ?thesis
    by (simp add: headerValueScanner_next_def sep_item_def Let_def del: IndexByte_None takeWhile_eq_all_conv)
next
  case (Some n)
  then have "n = length (takeWhile (\<lambda>x. x \<noteq> 44) b)" "take n b = takeWhile (\<lambda>x. x \<noteq> 44) b"
    by (auto simp: IndexByte_takeWhile takeWhile_eq_take [symmetric] split: if_splits)
  with Some show ?thesis by (simp add: headerValueScanner_next_def sep_item_def Let_def)
qed

interpretation value_scan: scanner headerValueScanner_next "sep_items 44 stripSpace"
proof unfold_locales
  show "headerValueScanner_next b = Some (x, b') \<Longrightarrow> length b' < length b" for b x b'
    by (rule headerValueScanner_next_shrinks)
  show "sep_items 44 stripSpace b =
      (case headerValueScanner_next b of None \<Rightarrow> [] | Some (x, b') \<Rightarrow> x # sep_items 44 stripSpace b')" for b
    unfolding headerValueScanner_next_item by (rule sep_items_unfold)
qed

lemma hasHeaderValue_items:
  "hasHeaderValue s v \<longleftrightarrow> list_ex (\<lambda>x. caseInsensitiveCompare x v) (sep_items 44 stripSpace s)"
proof (induction s rule: value_scan.items_induct)
  case (stop b)
  then show ?case by (simp add: hasHeaderValue.simps [of b] value_scan.items_None)
next
  case (step b x b')
  then show ?case by (simp add: hasHeaderValue.simps [of b] value_scan.items_Some)
qed

section \<open>Scanning printed headers: lemmas\<close>

text \<open>A name and a value that one line can carry.\<close>

definition header_key_ok :: "bytes \<Rightarrow> bool" where
  "header_key_ok k \<longleftrightarrow> set k \<inter> {58, 10} = {}"

definition header_value_ok :: "bytes \<Rightarrow> bool" where
  "header_value_ok v \<longleftrightarrow> set v \<inter> {13, 10} = {} \<and> (v = [] \<or> hd v \<noteq> 32 \<and> last v \<noteq> 32)"

text \<open>What follows a line must not read as its continuation.\<close>

definition not_folded :: "bytes \<Rightarrow> bool" where
  "not_folded rest \<longleftrightarrow> rest = [] \<or> hd rest \<noteq> 32 \<and> hd rest \<noteq> 9"

definition scanner_idle :: "headerScanner \<Rightarrow> bool" where
  "scanner_idle s \<longleftrightarrow> hs_initialized s \<and> hs_nextColon s = -1 \<and> hs_nextNewLine s < 0"

lemma multiLine_loop_single:
  assumes "not_folded rest" and "n = Suc (length v)"
  shows "multiLine_loop (v @ 13 # 10 # rest) n False = (n, False, None)"
  using assms by (cases rest) (auto simp: multiLine_loop.simps not_folded_def nth_append)

lemma headerScanner_value_line:
  assumes "hs_b s = v @ 13 # 10 # rest" and "header_value_ok v" and "not_folded rest"
  shows "headerScanner_value s (Suc (length v)) =
    (True, s\<lparr>hs_pre := hs_pre s @ v @ [13, 10], hs_b := rest, hs_value := v,
             hs_hLen := hs_hLen s + int (length v + 2)\<rparr>)"
proof -
  have "trim_right 32 v = v" using assms(2) by (intro trim_right_id) (auto simp: header_value_ok_def)
  moreover have "butlast (v @ [13]) = v" "(v @ [13]) ! length v = 13" by simp_all
  ultimately show ?thesis
    using assms(1) multiLine_loop_single [OF assms(3), of "Suc (length v)" v]
    by (simp add: headerScanner_value_def Let_def hs_advance_def butlast_append)
qed

lemma headerScanner_name_line:
  assumes "hs_b s = k @ 58 # 32 # v @ 13 # 10 # rest" and "header_value_ok v" and "not_folded rest"
    and "hs_nextNewLine s < 0"
  shows "headerScanner_name s (length k) =
    (True, s\<lparr>hs_pre := hs_pre s @ normalizeHeaderKey k (hs_disableNormalizing s) @ [58, 32] @ v @ [13, 10],
             hs_b := rest, hs_key := normalizeHeaderKey k (hs_disableNormalizing s), hs_value := v,
             hs_hLen := hs_hLen s + int (length k + length v + 4), hs_nextNewLine := hs_nextNewLine s - 1\<rparr>)"
proof -
  let ?k = "normalizeHeaderKey k (hs_disableNormalizing s)"
  let ?t = "s\<lparr>hs_key := ?k, hs_pre := hs_pre s @ ?k @ [58, 32], hs_b := v @ 13 # 10 # rest,
      hs_hLen := hs_hLen s + int (length k + 2), hs_nextNewLine := hs_nextNewLine s - 1\<rparr>"
  have "takeWhile (\<lambda>c. c = 32) (v @ 13 # 10 # rest) = []"
    using assms(2) by (cases v) (auto simp: header_value_ok_def)
  moreover have "IndexByte (v @ 13 # 10 # rest) 10 = Some (Suc (length v))"
    using assms(2) IndexByte_append [of 10 "v @ [13]" rest] by (simp add: header_value_ok_def)
  ultimately have "headerScanner_name s (length k) = headerScanner_value ?t (Suc (length v))"
    using assms(1,4) by (simp add: headerScanner_name_def Let_def hs_advance_def)
  also have "\<dots> = (True, ?t\<lparr>hs_pre := hs_pre ?t @ v @ [13, 10], hs_b := rest, hs_value := v,
             hs_hLen := hs_hLen ?t + int (length v + 2)\<rparr>)"
    using assms(2,3) by (intro headerScanner_value_line) simp_all
  finally show ?thesis by simp
qed

definition header_line :: "bytes \<times> bytes \<Rightarrow> bytes" where
  "header_line kv = appendHeaderLine [] (fst kv) (snd kv)"

lemma header_line_eq: "header_line (k, v) @ rest = k @ 58 # 32 # v @ 13 # 10 # rest"
  by (simp add: header_line_def appendHeaderLine_def str_defs)

definition header_kv_ok :: "bytes \<times> bytes \<Rightarrow> bool" where
  "header_kv_ok kv \<longleftrightarrow> header_key_ok (fst kv) \<and> header_value_ok (snd kv)"

lemma headerScanner_next_line:
  assumes "hs_b s = header_line (k, v) @ rest" and "header_key_ok k" and "header_value_ok v"
    and "not_folded rest" and "scanner_idle s"
  shows "\<exists>s'. headerScanner_next s = (True, s') \<and> scanner_idle s' \<and> hs_b s' = rest
    \<and> hs_key s' = normalizeHeaderKey k (hs_disableNormalizing s) \<and> hs_value s' = v
    \<and> hs_hLen s' = hs_hLen s + int (length (header_line (k, v)))
    \<and> hs_pre s' = hs_pre s @ header_line (normalizeHeaderKey k (hs_disableNormalizing s), v)
    \<and> hs_post s' = hs_post s \<and> hs_err s' = hs_err s
    \<and> hs_disableNormalizing s' = hs_disableNormalizing s"
proof -
  have b: "hs_b s = k @ 58 # 32 # v @ 13 # 10 # rest" using assms(1) by (simp only: header_line_eq)
  have colon: "IndexByte (hs_b s) 58 = Some (length k)"
    using assms(2) b by (simp add: header_key_ok_def)
  obtain x where nl: "IndexByte (hs_b s) 10 = Some x" "\<not> x < length k"
  proof -
    have "10 \<in> set (hs_b s)" using b by simp
    then obtain x where x: "IndexByte (hs_b s) 10 = Some x" by (cases "IndexByte (hs_b s) 10") auto
    have "\<not> x < length k"
    proof
      assume "x < length k"
      with IndexByte_Some [OF x] b have "k ! x = 10" by (simp add: nth_append)
      with \<open>x < length k\<close> assms(2) show False by (auto simp: header_key_ok_def dest: nth_mem)
    qed
    with x that show thesis by blast
  qed
  have first: "hs_b s ! 0 \<noteq> 10" "\<not> (hs_b s ! 0 = 13 \<and> hs_b s ! 1 = 10)"
    using assms(2) b by (cases k; cases "tl k"; auto simp: header_key_ok_def)+
  have "headerScanner_next s = headerScanner_name s (length k)"
    using assms(5) colon nl first by (auto simp: headerScanner_next_def Let_def scanner_idle_def)
  then show ?thesis using headerScanner_name_line [OF b assms(3,4)] assms(5)
    by (simp add: scanner_idle_def header_line_def appendHeaderLine_def str_defs)
qed

text \<open>The end of the block.\<close>

lemma headerScanner_next_end:
  assumes "hs_b s = 13 # 10 # rest" and "scanner_idle s"
  shows "headerScanner_next s = (False, hs_advance 2 s)"
  using assms by (simp add: headerScanner_next_def Let_def scanner_idle_def)

lemma header_lines_not_folded:
  assumes "\<And>kv. kv \<in> set kvs \<Longrightarrow> not_folded (fst kv) \<and> fst kv \<noteq> []"
  shows "not_folded (concat (map header_line kvs) @ 13 # 10 # rest)"
proof (cases kvs)
  case (Cons kv kvs')
  then obtain c k v where "kv = (c # k, v)" using assms [of kv] by (cases kv; cases "fst kv") auto
  with assms [of kv] Cons show ?thesis
    by (simp add: not_folded_def header_line_def appendHeaderLine_def)
qed (simp add: not_folded_def)

definition header_field_ok :: "bytes \<times> bytes \<Rightarrow> bool" where
  "header_field_ok kv \<longleftrightarrow> header_key_ok (fst kv) \<and> header_value_ok (snd kv) \<and> not_folded (fst kv) \<and> fst kv \<noteq> []"

lemma header_loop_block:
  assumes "\<And>kv. kv \<in> set kvs \<Longrightarrow> header_field_ok kv" and "scanner_idle s"
    and "hs_b s = concat (map header_line kvs) @ 13 # 10 # rest"
  shows "\<exists>s'. header_loop f s h =
      (foldl (\<lambda>h (k, v). f h (normalizeHeaderKey k (hs_disableNormalizing s)) v) h kvs, s')
    \<and> hs_b s' = rest \<and> hs_err s' = hs_err s \<and> hs_post s' = hs_post s
    \<and> hs_hLen s' = hs_hLen s + int (length (concat (map header_line kvs)) + 2)
    \<and> hs_pre s' = hs_pre s @ concat (map (\<lambda>(k, v). header_line (normalizeHeaderKey k (hs_disableNormalizing s), v)) kvs)
        @ [13, 10]"
  using assms
proof (induction kvs arbitrary: s h)
  case Nil
  then have "header_loop f s h = (h, hs_advance 2 s)"
    using headerScanner_next_end by (simp add: header_loop.simps [of f s h])
  with Nil show ?case by (simp add: hs_advance_def)
next
  case (Cons kv kvs)
  obtain k v where kv: "kv = (k, v)" by fastforce
  have ok: "header_key_ok k" "header_value_ok v" using Cons.prems(1) [of kv] kv by (auto simp: header_field_ok_def)
  have nf: "not_folded (concat (map header_line kvs) @ 13 # 10 # rest)"
    using Cons.prems(1) by (intro header_lines_not_folded) (auto simp: header_field_ok_def)
  obtain s1 where s1: "headerScanner_next s = (True, s1)" "scanner_idle s1"
    "hs_b s1 = concat (map header_line kvs) @ 13 # 10 # rest"
    "hs_key s1 = normalizeHeaderKey k (hs_disableNormalizing s)" "hs_value s1 = v"
    "hs_hLen s1 = hs_hLen s + int (length (header_line (k, v)))"
    "hs_pre s1 = hs_pre s @ header_line (normalizeHeaderKey k (hs_disableNormalizing s), v)"
    "hs_post s1 = hs_post s" "hs_err s1 = hs_err s" "hs_disableNormalizing s1 = hs_disableNormalizing s"
    using headerScanner_next_line [OF _ ok nf Cons.prems(2)] Cons.prems(3) kv by auto
  have "\<And>kv. kv \<in> set kvs \<Longrightarrow> header_field_ok kv" using Cons.prems(1) by simp
  from Cons.IH [OF this s1(2,3), of "f h (hs_key s1) (hs_value s1)"]
  obtain s' where "header_loop f s1 (f h (hs_key s1) (hs_value s1)) =
      (foldl (\<lambda>h (k, v). f h (normalizeHeaderKey k (hs_disableNormalizing s1)) v) (f h (hs_key s1) (hs_value s1)) kvs, s')"
    "hs_b s' = rest" "hs_err s' = hs_err s1" "hs_post s' = hs_post s1"
    "hs_hLen s' = hs_hLen s1 + int (length (concat (map header_line kvs)) + 2)"
    "hs_pre s' = hs_pre s1 @ concat (map (\<lambda>(k, v). header_line (normalizeHeaderKey k (hs_disableNormalizing s1), v)) kvs)
        @ [13, 10]"
    by blast
  then show ?case using s1(1,4-) kv
    by (intro exI [of _ s']) (simp add: header_loop.simps [of f s h])
qed

lemma scanner_init:
  "headerScanner_next (headerScanner_init buf d) =
     headerScanner_next ((headerScanner_init buf d)\<lparr>hs_nextColon := -1, hs_nextNewLine := -1, hs_initialized := True\<rparr>)"
  by (simp add: headerScanner_next_def headerScanner_init_def Let_def)

lemma header_loop_init:
  assumes "\<And>kv. kv \<in> set kvs \<Longrightarrow> header_field_ok kv"
  shows "\<exists>s'. header_loop f (headerScanner_init (concat (map header_line kvs) @ 13 # 10 # rest) d) h =
      (foldl (\<lambda>h (k, v). f h (normalizeHeaderKey k d) v) h kvs, s')
    \<and> hs_b s' = rest \<and> hs_err s' = None \<and> hs_post s' = []
    \<and> hs_hLen s' = int (length (concat (map header_line kvs)) + 2)
    \<and> hs_pre s' = concat (map (\<lambda>(k, v). header_line (normalizeHeaderKey k d, v)) kvs) @ [13, 10]"
proof -
  let ?buf = "concat (map header_line kvs) @ 13 # 10 # rest"
  let ?s = "(headerScanner_init ?buf d)\<lparr>hs_nextColon := -1, hs_nextNewLine := -1, hs_initialized := True\<rparr>"
  have "header_loop f (headerScanner_init ?buf d) h = header_loop f ?s h"
    by (simp only: header_loop.simps [of f "headerScanner_init ?buf d" h] header_loop.simps [of f ?s h] scanner_init)
  moreover have "scanner_idle ?s" "hs_b ?s = ?buf" by (simp_all add: scanner_idle_def headerScanner_init_def)
  ultimately show ?thesis using header_loop_block [OF assms, of kvs ?s rest f h]
    by (simp add: headerScanner_init_def)
qed

section \<open>Properties\<close>

text \<open>
  Normalising a header name keeps its length, is idempotent, and never changes which names
  it equals when case is ignored.
\<close>

theorem normalizeHeaderKey_laws:
  "length (normalizeHeaderKey b d) = length b
   \<and> normalizeHeaderKey (normalizeHeaderKey b d) d = normalizeHeaderKey b d
   \<and> caseInsensitiveCompare (normalizeHeaderKey b d) k = caseInsensitiveCompare b k"
  by (simp add: normalizeHeaderKey_idem normalizeHeaderKey_compare)

text \<open>
  \<open>removeNewLines\<close>, wherever it starts rewriting, replaces every carriage return and line
  feed by a blank and nothing else, so a value that went through it cannot start a new line.
\<close>

theorem removeNewLines_correct:
  "removeNewLines raw = map (\<lambda>c. if c = rChar \<or> c = nChar then ch CHR '' '' else c) raw
   \<and> set (removeNewLines raw) \<inter> {rChar, nChar} = {}"
  by (auto simp: removeNewLines_eq blank_break_def split: if_splits)

text \<open>
  C32. \<open>hasHeaderValue\<close> holds exactly if some element of the comma-separated list, without its
  outer blanks, equals the value up to case.
\<close>

theorem hasHeaderValue_correct:
  assumes "v \<noteq> []"
  shows "hasHeaderValue s v \<longleftrightarrow>
    (\<exists>x \<in> set (split_on (ch CHR '','') s). caseInsensitiveCompare (stripSpace x) v)"
proof -
  have "\<not> caseInsensitiveCompare (stripSpace []) v"
    using assms by (auto simp: stripSpace_def caseInsensitiveCompare_def)
  from filter_sep_items [of "\<lambda>x. caseInsensitiveCompare x v" stripSpace 44 s, OF this]
  have "(filter (\<lambda>x. caseInsensitiveCompare x v) (sep_items 44 stripSpace s) = []) =
      (filter (\<lambda>x. caseInsensitiveCompare x v) (map stripSpace (split_on 44 s)) = [])" by simp
  then show ?thesis by (auto simp: hasHeaderValue_items list_ex_iff filter_empty_conv)
qed

theorem hasHeaderValue_correct_witness:
  "hasHeaderValue (bytes_of ''foo, Keep-Alive'') (bytes_of ''keep-alive'')"
proof -
  have "\<exists>x \<in> set (split_on (ch CHR '','') (bytes_of ''foo, Keep-Alive'')).
      caseInsensitiveCompare (stripSpace x) (bytes_of ''keep-alive'')"
    by code_simp
  with hasHeaderValue_correct [of "bytes_of ''keep-alive''" "bytes_of ''foo, Keep-Alive''"] show ?thesis by simp
qed

text \<open>
  C31. The header scanner reads a printed header block line by line: it sees every field with its
  normalised name and its value, in order, stops after the empty line with no error, counts
  exactly the bytes of the block, and leaves what follows untouched.
\<close>

theorem header_block_scan:
  assumes "\<And>kv. kv \<in> set kvs \<Longrightarrow> header_field_ok kv"
  shows "\<exists>s. header_loop f (headerScanner_init (concat (map header_line kvs) @ strCRLF @ rest) d) h =
      (foldl (\<lambda>h (k, v). f h (normalizeHeaderKey k d) v) h kvs, s)
    \<and> hs_b s = rest \<and> hs_post s = [] \<and> hs_err s = None
    \<and> hs_hLen s = int (length (concat (map header_line kvs) @ strCRLF))"
  using header_loop_init [OF assms, of kvs f rest d h] by (auto simp: strCRLF_def)

theorem header_block_scan_witness:
  "\<exists>s. header_loop (\<lambda>h k v. h @ [(k, v)])
      (headerScanner_init (header_line (bytes_of ''content-type'', bytes_of ''a'') @ strCRLF @ [1, 2]) False) [] =
      ([(bytes_of ''Content-Type'', bytes_of ''a'')], s) \<and> hs_b s = [1, 2]"
proof -
  have "normalizeHeaderKey (bytes_of ''content-type'') False = bytes_of ''Content-Type''" by code_simp
  moreover have "header_field_ok kv" if "kv \<in> set [(bytes_of ''content-type'', bytes_of ''a'')]" for kv
    using that by (simp add: header_field_ok_def header_key_ok_def header_value_ok_def not_folded_def)
  note header_block_scan [OF this, where f = "\<lambda>h k v. h @ [(k, v)]" and rest = "[1, 2]" and d = False and h = "[]"]
  ultimately show ?thesis by fastforce
qed

end
