(* ===== verification/RequestHeader.thy ===== *)
theory RequestHeader
  imports HeaderScan
begin

text \<open>
  \<open>RequestHeader\<close> of \<^verbatim>\<open>header.go\<close>: the struct, its setters and getters, cookies, printing and
  parsing. Methods that use the scratch pair \<^verbatim>\<open>bufKV\<close> return the changed header; a getter that
  only reads is a function to its value. A \<^verbatim>\<open>nil\<close> result of \<open>Peek\<close> is the empty list.
\<close>


section \<open>The struct\<close>

record RequestHeader =
  rq_disableNormalizing :: bool
  rq_noHTTP11 :: bool
  rq_connectionClose :: bool
  rq_cookiesCollected :: bool
  rq_contentLength :: int
  rq_contentLengthBytes :: bytes
  rq_secureErrorLogMessage :: bool
  rq_method :: bytes
  rq_requestURI :: bytes
  rq_proto :: bytes
  rq_host :: bytes
  rq_contentType :: bytes
  rq_userAgent :: bytes
  rq_h :: "argsKV slice"
  rq_bufKV :: argsKV
  rq_cookies :: "argsKV slice"
  rq_rawHeaders :: bytes

definition nilable :: "bytes option \<Rightarrow> bytes" where
  "nilable v = (case v of Some b \<Rightarrow> b | None \<Rightarrow> [])"

definition RequestHeader_resetSkipNormalize :: "RequestHeader \<Rightarrow> RequestHeader" where
  "RequestHeader_resetSkipNormalize h =
     h\<lparr>rq_noHTTP11 := False, rq_connectionClose := False, rq_contentLength := 0,
       rq_contentLengthBytes := [], rq_method := [], rq_proto := [], rq_requestURI := [],
       rq_host := [], rq_contentType := [], rq_userAgent := [], rq_h := slice_reset (rq_h h),
       rq_cookies := slice_reset (rq_cookies h), rq_cookiesCollected := False, rq_rawHeaders := []\<rparr>"

definition RequestHeader_Reset :: "RequestHeader \<Rightarrow> RequestHeader" where
  "RequestHeader_Reset h = RequestHeader_resetSkipNormalize (h\<lparr>rq_disableNormalizing := False\<rparr>)"

definition RequestHeader_CopyTo :: "RequestHeader \<Rightarrow> RequestHeader \<Rightarrow> RequestHeader" where
  "RequestHeader_CopyTo h dst =
     (let dst = RequestHeader_Reset dst in
      dst\<lparr>rq_disableNormalizing := rq_disableNormalizing h, rq_noHTTP11 := rq_noHTTP11 h,
          rq_connectionClose := rq_connectionClose h, rq_contentLength := rq_contentLength h,
          rq_contentLengthBytes := rq_contentLengthBytes h, rq_method := rq_method h,
          rq_proto := rq_proto h, rq_requestURI := rq_requestURI h, rq_host := rq_host h,
          rq_contentType := rq_contentType h, rq_userAgent := rq_userAgent h,
          rq_h := copyArgs (rq_h dst) (rq_h h), rq_cookies := copyArgs (rq_cookies dst) (rq_cookies h),
          rq_cookiesCollected := rq_cookiesCollected h, rq_rawHeaders := rq_rawHeaders h\<rparr>)"

definition RequestHeader_DisableNormalizing :: "RequestHeader \<Rightarrow> RequestHeader" where
  "RequestHeader_DisableNormalizing h = h\<lparr>rq_disableNormalizing := True\<rparr>"

definition RequestHeader_EnableNormalizing :: "RequestHeader \<Rightarrow> RequestHeader" where
  "RequestHeader_EnableNormalizing h = h\<lparr>rq_disableNormalizing := False\<rparr>"


section \<open>Fields with their own slot\<close>

definition RequestHeader_SetConnectionClose :: "RequestHeader \<Rightarrow> RequestHeader" where
  "RequestHeader_SetConnectionClose h = h\<lparr>rq_connectionClose := True\<rparr>"

definition RequestHeader_ResetConnectionClose :: "RequestHeader \<Rightarrow> RequestHeader" where
  "RequestHeader_ResetConnectionClose h =
     (if rq_connectionClose h
      then h\<lparr>rq_connectionClose := False, rq_h := delAllArgs (rq_h h) strConnection\<rparr> else h)"

definition RequestHeader_ContentLength :: "RequestHeader \<Rightarrow> int" where
  "RequestHeader_ContentLength h = rq_contentLength h"

definition RequestHeader_SetContentLength :: "RequestHeader \<Rightarrow> int \<Rightarrow> RequestHeader" where
  "RequestHeader_SetContentLength h contentLength =
     (let h = h\<lparr>rq_contentLength := contentLength\<rparr> in
      if contentLength \<ge> 0 then
        h\<lparr>rq_contentLengthBytes := the (AppendUint [] contentLength),
          rq_h := delAllArgs (rq_h h) strTransferEncoding\<rparr>
      else
        h\<lparr>rq_contentLengthBytes := [],
          rq_h := setArg (rq_h h) strTransferEncoding strChunked argsHasValue\<rparr>)"

definition RequestHeader_ContentType :: "RequestHeader \<Rightarrow> bytes" where
  "RequestHeader_ContentType h = rq_contentType h"

definition RequestHeader_SetContentType :: "RequestHeader \<Rightarrow> bytes \<Rightarrow> RequestHeader" where
  "RequestHeader_SetContentType h contentType = h\<lparr>rq_contentType := contentType\<rparr>"

definition RequestHeader_SetMultipartFormBoundary :: "RequestHeader \<Rightarrow> bytes \<Rightarrow> RequestHeader" where
  "RequestHeader_SetMultipartFormBoundary h boundary =
     (let b = strMultipartFormData @ [ch CHR '';'', ch CHR '' ''] @ strBoundary @ [ch CHR ''=''] @ boundary;
          h = h\<lparr>rq_bufKV := (rq_bufKV h)\<lparr>kv_value := b\<rparr>\<rparr>
      in RequestHeader_SetContentType h (kv_value (rq_bufKV h)))"

text \<open>The loop of \<open>MultipartFormBoundary\<close>; \<open>None\<close> is \<^verbatim>\<open>nil\<close>.\<close>

function MultipartFormBoundary_loop :: "bytes \<Rightarrow> nat \<Rightarrow> bytes option" where
  "MultipartFormBoundary_loop b n =
     (if length b = 0 then None
      else
        (let n = n + 1;
             n = n + length (takeWhile (\<lambda>c. c = ch CHR '' '') (drop n b));
             b = drop n b
         in if \<not> prefix strBoundary b then
              (case IndexByte b (ch CHR '';'') of
                 None \<Rightarrow> None
               | Some n \<Rightarrow> MultipartFormBoundary_loop b n)
            else
              (let b = drop (length strBoundary) b in
               if length b = 0 \<or> hd b \<noteq> ch CHR ''='' then None
               else
                 (let b = drop 1 b;
                      b = (case IndexByte b (ch CHR '';'') of Some n \<Rightarrow> take n b | None \<Rightarrow> b)
                  in Some (if length b > 1 \<and> hd b = 34 \<and> last b = 34 then butlast (tl b) else b)))))"
  by pat_completeness auto
termination
  by (relation "measure (\<lambda>(b, n). length b)") auto

declare MultipartFormBoundary_loop.simps [simp del]

definition RequestHeader_MultipartFormBoundary :: "RequestHeader \<Rightarrow> bytes option" where
  "RequestHeader_MultipartFormBoundary h =
     (let b = RequestHeader_ContentType h in
      if \<not> prefix strMultipartFormData b then None
      else
        (let b = drop (length strMultipartFormData) b in
         if length b = 0 \<or> hd b \<noteq> ch CHR '';'' then None
         else MultipartFormBoundary_loop b 0))"

definition RequestHeader_SetHost :: "RequestHeader \<Rightarrow> bytes \<Rightarrow> RequestHeader" where
  "RequestHeader_SetHost h host = h\<lparr>rq_host := host\<rparr>"

definition RequestHeader_SetUserAgent :: "RequestHeader \<Rightarrow> bytes \<Rightarrow> RequestHeader" where
  "RequestHeader_SetUserAgent h userAgent = h\<lparr>rq_userAgent := userAgent\<rparr>"

definition RequestHeader_Method :: "RequestHeader \<Rightarrow> bytes" where
  "RequestHeader_Method h = (if length (rq_method h) = 0 then strGet else rq_method h)"

definition RequestHeader_SetMethod :: "RequestHeader \<Rightarrow> bytes \<Rightarrow> RequestHeader" where
  "RequestHeader_SetMethod h meth = h\<lparr>rq_method := meth\<rparr>"

definition RequestHeader_Protocol :: "RequestHeader \<Rightarrow> bytes" where
  "RequestHeader_Protocol h = (if length (rq_proto h) = 0 then strHTTP11 else rq_proto h)"

definition RequestHeader_SetProtocol :: "RequestHeader \<Rightarrow> bytes \<Rightarrow> RequestHeader" where
  "RequestHeader_SetProtocol h proto = h\<lparr>rq_proto := proto, rq_noHTTP11 := proto \<noteq> strHTTP11\<rparr>"

definition RequestHeader_RequestURI :: "RequestHeader \<Rightarrow> bytes" where
  "RequestHeader_RequestURI h = (if length (rq_requestURI h) = 0 then strSlash else rq_requestURI h)"

definition RequestHeader_SetRequestURI :: "RequestHeader \<Rightarrow> bytes \<Rightarrow> RequestHeader" where
  "RequestHeader_SetRequestURI h requestURI = h\<lparr>rq_requestURI := requestURI\<rparr>"

definition RequestHeader_IsGet :: "RequestHeader \<Rightarrow> bool" where
  "RequestHeader_IsGet h \<longleftrightarrow> RequestHeader_Method h = strGet"

definition RequestHeader_IsPost :: "RequestHeader \<Rightarrow> bool" where
  "RequestHeader_IsPost h \<longleftrightarrow> RequestHeader_Method h = strPost"

definition RequestHeader_IsPut :: "RequestHeader \<Rightarrow> bool" where
  "RequestHeader_IsPut h \<longleftrightarrow> RequestHeader_Method h = strPut"

definition RequestHeader_IsHead :: "RequestHeader \<Rightarrow> bool" where
  "RequestHeader_IsHead h \<longleftrightarrow> RequestHeader_Method h = strHead"

definition RequestHeader_IsDelete :: "RequestHeader \<Rightarrow> bool" where
  "RequestHeader_IsDelete h \<longleftrightarrow> RequestHeader_Method h = strDelete"

definition RequestHeader_IsConnect :: "RequestHeader \<Rightarrow> bool" where
  "RequestHeader_IsConnect h \<longleftrightarrow> RequestHeader_Method h = strConnect"

definition RequestHeader_IsOptions :: "RequestHeader \<Rightarrow> bool" where
  "RequestHeader_IsOptions h \<longleftrightarrow> RequestHeader_Method h = strOptions"

definition RequestHeader_IsTrace :: "RequestHeader \<Rightarrow> bool" where
  "RequestHeader_IsTrace h \<longleftrightarrow> RequestHeader_Method h = strTrace"

definition RequestHeader_IsPatch :: "RequestHeader \<Rightarrow> bool" where
  "RequestHeader_IsPatch h \<longleftrightarrow> RequestHeader_Method h = strPatch"

definition RequestHeader_IsHTTP11 :: "RequestHeader \<Rightarrow> bool" where
  "RequestHeader_IsHTTP11 h \<longleftrightarrow> \<not> rq_noHTTP11 h"

definition RequestHeader_ignoreBody :: "RequestHeader \<Rightarrow> bool" where
  "RequestHeader_ignoreBody h \<longleftrightarrow> RequestHeader_IsGet h \<or> RequestHeader_IsHead h"


section \<open>Cookies\<close>

text \<open>
  \<open>collectCookies\<close> moves the Cookie headers out of the header list into the cookie list; a
  removed entry is kept behind the visible ones.
\<close>

fun collectCookies_loop ::
  "argsKV list \<Rightarrow> argsKV list \<Rightarrow> argsKV list \<Rightarrow> argsKV slice \<Rightarrow> argsKV slice \<times> argsKV slice" where
  "collectCookies_loop pre [] spr cookies = (\<lparr>live = pre, spare = spr\<rparr>, cookies)"
| "collectCookies_loop pre (kv # rest) spr cookies =
     (if caseInsensitiveCompare (kv_key kv) strCookie
      then collectCookies_loop pre rest (kv # spr) (parseRequestCookies cookies (kv_value kv))
      else collectCookies_loop (pre @ [kv]) rest spr cookies)"

definition RequestHeader_collectCookies :: "RequestHeader \<Rightarrow> RequestHeader" where
  "RequestHeader_collectCookies h =
     (if rq_cookiesCollected h then h
      else
        (case collectCookies_loop [] (live (rq_h h)) (spare (rq_h h)) (rq_cookies h) of
           (hh, cookies) \<Rightarrow> h\<lparr>rq_h := hh, rq_cookies := cookies, rq_cookiesCollected := True\<rparr>))"

definition RequestHeader_SetCookie :: "RequestHeader \<Rightarrow> bytes \<Rightarrow> bytes \<Rightarrow> RequestHeader" where
  "RequestHeader_SetCookie h key value =
     (let h = RequestHeader_collectCookies h
      in h\<lparr>rq_cookies := setArg (rq_cookies h) key value argsHasValue\<rparr>)"

definition RequestHeader_DelCookie :: "RequestHeader \<Rightarrow> bytes \<Rightarrow> RequestHeader" where
  "RequestHeader_DelCookie h key =
     (let h = RequestHeader_collectCookies h in h\<lparr>rq_cookies := delAllArgs (rq_cookies h) key\<rparr>)"

definition RequestHeader_DelAllCookies :: "RequestHeader \<Rightarrow> RequestHeader" where
  "RequestHeader_DelAllCookies h =
     (let h = RequestHeader_collectCookies h in h\<lparr>rq_cookies := slice_reset (rq_cookies h)\<rparr>)"

definition RequestHeader_Cookie :: "RequestHeader \<Rightarrow> bytes \<Rightarrow> bytes option \<times> RequestHeader" where
  "RequestHeader_Cookie h key =
     (let h = RequestHeader_collectCookies h in (peekArg (rq_cookies h) key, h))"

definition RequestHeader_VisitAllCookie :: "RequestHeader \<Rightarrow> (bytes \<times> bytes) list \<times> RequestHeader" where
  "RequestHeader_VisitAllCookie h =
     (let h = RequestHeader_collectCookies h in (visitArgs (rq_cookies h), h))"


section \<open>Generic setters and getters\<close>

definition RequestHeader_setSpecialHeader :: "RequestHeader \<Rightarrow> bytes \<Rightarrow> bytes \<Rightarrow> bool \<times> RequestHeader" where
  "RequestHeader_setSpecialHeader h key value =
     (if length key = 0 then (False, h)
      else
        (let k = hd key OR 0x20 in
         if k = ch CHR ''c'' then
           (if caseInsensitiveCompare strContentType key then (True, RequestHeader_SetContentType h value)
            else if caseInsensitiveCompare strContentLength key then
              (case parseContentLength value of
                 (contentLength, None) \<Rightarrow>
                   (True, h\<lparr>rq_contentLength := contentLength, rq_contentLengthBytes := value\<rparr>)
               | (contentLength, Some err) \<Rightarrow> (True, h))
            else if caseInsensitiveCompare strConnection key then
              (if strClose = value then (True, RequestHeader_SetConnectionClose h)
               else
                 (let h = RequestHeader_ResetConnectionClose h
                  in (True, h\<lparr>rq_h := setArg (rq_h h) key value argsHasValue\<rparr>)))
            else if caseInsensitiveCompare strCookie key then
              (let h = RequestHeader_collectCookies h
               in (True, h\<lparr>rq_cookies := parseRequestCookies (rq_cookies h) value\<rparr>))
            else (False, h))
         else if k = ch CHR ''t'' then
           (if caseInsensitiveCompare strTransferEncoding key then (True, h) else (False, h))
         else if k = ch CHR ''h'' then
           (if caseInsensitiveCompare strHost key then (True, RequestHeader_SetHost h value) else (False, h))
         else if k = ch CHR ''u'' then
           (if caseInsensitiveCompare strUserAgent key then (True, RequestHeader_SetUserAgent h value)
            else (False, h))
         else (False, h)))"

definition RequestHeader_SetCanonical :: "RequestHeader \<Rightarrow> bytes \<Rightarrow> bytes \<Rightarrow> RequestHeader" where
  "RequestHeader_SetCanonical h key value =
     (case RequestHeader_setSpecialHeader h key value of
        (True, h) \<Rightarrow> h
      | (False, h) \<Rightarrow> h\<lparr>rq_h := setArg (rq_h h) key value argsHasValue\<rparr>)"

definition RequestHeader_Set :: "RequestHeader \<Rightarrow> bytes \<Rightarrow> bytes \<Rightarrow> RequestHeader" where
  "RequestHeader_Set h key value =
     (let h = h\<lparr>rq_bufKV := initHeaderKV (rq_bufKV h) key value (rq_disableNormalizing h)\<rparr>
      in RequestHeader_SetCanonical h (kv_key (rq_bufKV h)) (kv_value (rq_bufKV h)))"

definition RequestHeader_SetBytesKV :: "RequestHeader \<Rightarrow> bytes \<Rightarrow> bytes \<Rightarrow> RequestHeader" where
  "RequestHeader_SetBytesKV h key value =
     (let h = h\<lparr>rq_bufKV := (rq_bufKV h)\<lparr>kv_key := normalizeHeaderKey key (rq_disableNormalizing h)\<rparr>\<rparr>
      in RequestHeader_SetCanonical h (kv_key (rq_bufKV h)) value)"

definition RequestHeader_SetBytesK :: "RequestHeader \<Rightarrow> bytes \<Rightarrow> bytes \<Rightarrow> RequestHeader" where
  "RequestHeader_SetBytesK h key value =
     (let h = h\<lparr>rq_bufKV := (rq_bufKV h)\<lparr>kv_value := value\<rparr>\<rparr>
      in RequestHeader_SetBytesKV h key (kv_value (rq_bufKV h)))"

definition RequestHeader_SetBytesV :: "RequestHeader \<Rightarrow> bytes \<Rightarrow> bytes \<Rightarrow> RequestHeader" where
  "RequestHeader_SetBytesV h key value =
     (let h = h\<lparr>rq_bufKV := getHeaderKeyBytes (rq_bufKV h) key (rq_disableNormalizing h)\<rparr>
      in RequestHeader_SetCanonical h (kv_key (rq_bufKV h)) value)"

definition RequestHeader_AddBytesKV :: "RequestHeader \<Rightarrow> bytes \<Rightarrow> bytes \<Rightarrow> RequestHeader" where
  "RequestHeader_AddBytesKV h key value =
     (case RequestHeader_setSpecialHeader h key value of
        (True, h) \<Rightarrow> h
      | (False, h) \<Rightarrow>
          (let h = h\<lparr>rq_bufKV := getHeaderKeyBytes (rq_bufKV h) key (rq_disableNormalizing h)\<rparr>
           in h\<lparr>rq_h := appendArg (rq_h h) (kv_key (rq_bufKV h)) value argsHasValue\<rparr>))"

definition RequestHeader_Add :: "RequestHeader \<Rightarrow> bytes \<Rightarrow> bytes \<Rightarrow> RequestHeader" where
  "RequestHeader_Add h key value = RequestHeader_AddBytesKV h key value"

definition RequestHeader_del :: "RequestHeader \<Rightarrow> bytes \<Rightarrow> RequestHeader" where
  "RequestHeader_del h key =
     (let h = (if key = HeaderHost then h\<lparr>rq_host := []\<rparr>
               else if key = HeaderContentType then h\<lparr>rq_contentType := []\<rparr>
               else if key = HeaderUserAgent then h\<lparr>rq_userAgent := []\<rparr>
               else if key = HeaderCookie then h\<lparr>rq_cookies := slice_reset (rq_cookies h)\<rparr>
               else if key = HeaderContentLength then h\<lparr>rq_contentLength := 0, rq_contentLengthBytes := []\<rparr>
               else if key = HeaderConnection then h\<lparr>rq_connectionClose := False\<rparr>
               else h)
      in h\<lparr>rq_h := delAllArgs (rq_h h) key\<rparr>)"

definition RequestHeader_Del :: "RequestHeader \<Rightarrow> bytes \<Rightarrow> RequestHeader" where
  "RequestHeader_Del h key =
     (let h = h\<lparr>rq_bufKV := getHeaderKeyBytes (rq_bufKV h) key (rq_disableNormalizing h)\<rparr>
      in RequestHeader_del h (kv_key (rq_bufKV h)))"

definition RequestHeader_peek :: "RequestHeader \<Rightarrow> bytes \<Rightarrow> bytes" where
  "RequestHeader_peek h key =
     (if key = HeaderHost then rq_host h
      else if key = HeaderContentType then RequestHeader_ContentType h
      else if key = HeaderUserAgent then rq_userAgent h
      else if key = HeaderConnection then
        (if rq_connectionClose h then strClose else nilable (peekArg (rq_h h) key))
      else if key = HeaderContentLength then rq_contentLengthBytes h
      else if key = HeaderCookie then
        (if rq_cookiesCollected h then appendRequestCookieBytes [] (live (rq_cookies h))
         else nilable (peekArg (rq_h h) key))
      else nilable (peekArg (rq_h h) key))"

definition RequestHeader_Peek :: "RequestHeader \<Rightarrow> bytes \<Rightarrow> bytes \<times> RequestHeader" where
  "RequestHeader_Peek h key =
     (let h = h\<lparr>rq_bufKV := getHeaderKeyBytes (rq_bufKV h) key (rq_disableNormalizing h)\<rparr>
      in (RequestHeader_peek h (kv_key (rq_bufKV h)), h))"

definition RequestHeader_ConnectionUpgrade :: "RequestHeader \<Rightarrow> bool \<times> RequestHeader" where
  "RequestHeader_ConnectionUpgrade h =
     (case RequestHeader_Peek h HeaderConnection of (v, h) \<Rightarrow> (hasHeaderValue v strUpgrade, h))"

definition RequestHeader_Referer :: "RequestHeader \<Rightarrow> bytes \<times> RequestHeader" where
  "RequestHeader_Referer h = RequestHeader_Peek h strReferer"

definition RequestHeader_SetReferer :: "RequestHeader \<Rightarrow> bytes \<Rightarrow> RequestHeader" where
  "RequestHeader_SetReferer h referer = RequestHeader_SetBytesK h strReferer referer"

definition RequestHeader_SetByteRange :: "RequestHeader \<Rightarrow> int \<Rightarrow> int \<Rightarrow> RequestHeader" where
  "RequestHeader_SetByteRange h startPos endPos =
     (let b = strBytes @ [ch CHR ''=''];
          (b, endPos) = (if startPos \<ge> 0 then (the (AppendUint b startPos), endPos)
                         else (b, wrap64 (- startPos)));
          b = b @ [ch CHR ''-''];
          b = (if endPos \<ge> 0 then the (AppendUint b endPos) else b);
          h = h\<lparr>rq_bufKV := (rq_bufKV h)\<lparr>kv_value := b\<rparr>\<rparr>
      in RequestHeader_SetCanonical h strRange (kv_value (rq_bufKV h)))"

definition RequestHeader_HasAcceptEncodingBytes :: "RequestHeader \<Rightarrow> bytes \<Rightarrow> bool" where
  "RequestHeader_HasAcceptEncodingBytes h acceptEncoding =
     (let ae = RequestHeader_peek h strAcceptEncoding in
      case Index ae acceptEncoding of
        None \<Rightarrow> False
      | Some n \<Rightarrow>
          (let b = drop (n + length acceptEncoding) ae in
           if length b > 0 \<and> hd b \<noteq> ch CHR '','' then False
           else if n = 0 then True
           else ae ! (n - 1) = ch CHR '' ''))"

text \<open>\<open>VisitAll\<close> collects the cookies and prints them into the scratch pair.\<close>

definition RequestHeader_VisitAll :: "RequestHeader \<Rightarrow> (bytes \<times> bytes) list \<times> RequestHeader" where
  "RequestHeader_VisitAll h =
     (let out = (if length (rq_host h) > 0 then [(strHost, rq_host h)] else [])
            @ (if length (rq_contentLengthBytes h) > 0 then [(strContentLength, rq_contentLengthBytes h)] else [])
            @ (if length (RequestHeader_ContentType h) > 0
               then [(strContentType, RequestHeader_ContentType h)] else [])
            @ (if length (rq_userAgent h) > 0 then [(strUserAgent, rq_userAgent h)] else []);
          h = RequestHeader_collectCookies h;
          (out, h) =
            (if length (live (rq_cookies h)) > 0 then
               (let h = h\<lparr>rq_bufKV := (rq_bufKV h)\<lparr>kv_value :=
                      appendRequestCookieBytes [] (live (rq_cookies h))\<rparr>\<rparr>
                in (out @ [(strCookie, kv_value (rq_bufKV h))], h))
             else (out, h));
          out = out @ visitArgs (rq_h h);
          out = (if rq_connectionClose h then out @ [(strConnection, strClose)] else out)
      in (out, h))"

definition RequestHeader_Len :: "RequestHeader \<Rightarrow> nat \<times> RequestHeader" where
  "RequestHeader_Len h = (case RequestHeader_VisitAll h of (out, h) \<Rightarrow> (length out, h))"


section \<open>Printing\<close>

definition RequestHeader_AppendBytes :: "RequestHeader \<Rightarrow> bytes \<Rightarrow> bytes" where
  "RequestHeader_AppendBytes h dst =
     (let dst = dst @ RequestHeader_Method h @ [ch CHR '' ''] @ RequestHeader_RequestURI h
            @ [ch CHR '' ''] @ RequestHeader_Protocol h @ strCRLF;
          dst = (if length (rq_userAgent h) > 0 then appendHeaderLine dst strUserAgent (rq_userAgent h) else dst);
          dst = (if length (rq_host h) > 0 then appendHeaderLine dst strHost (rq_host h) else dst);
          contentType = RequestHeader_ContentType h;
          contentType = (if length contentType = 0 \<and> \<not> RequestHeader_ignoreBody h
                         then strDefaultContentType else contentType);
          dst = (if length contentType > 0 then appendHeaderLine dst strContentType contentType else dst);
          dst = (if length (rq_contentLengthBytes h) > 0
                 then appendHeaderLine dst strContentLength (rq_contentLengthBytes h) else dst);
          dst = foldl (\<lambda>dst kv. appendHeaderLine dst (kv_key kv) (kv_value kv)) dst (live (rq_h h));
          dst = (if length (live (rq_cookies h)) > 0
                 then appendRequestCookieBytes (dst @ strCookie @ strColonSpace) (live (rq_cookies h)) @ strCRLF
                 else dst);
          dst = (if rq_connectionClose h then appendHeaderLine dst strConnection strClose else dst)
      in dst @ strCRLF)"

definition RequestHeader_Header :: "RequestHeader \<Rightarrow> bytes \<times> RequestHeader" where
  "RequestHeader_Header h =
     (let b = RequestHeader_AppendBytes h [] in (b, h\<lparr>rq_bufKV := (rq_bufKV h)\<lparr>kv_value := b\<rparr>\<rparr>))"


section \<open>Parsing\<close>

definition RequestHeader_parseFirstLine ::
  "RequestHeader \<Rightarrow> bytes \<Rightarrow> RequestHeader \<times> nat \<times> header_err option" where
  "RequestHeader_parseFirstLine h buf =
     (case firstLine buf of
        None \<Rightarrow> (h, 0, Some errNeedMore)
      | Some (b, bNext) \<Rightarrow>
          (case IndexByte b (ch CHR '' '') of
             None \<Rightarrow> (h, 0, Some NoMethod)
           | Some n \<Rightarrow>
               if n = 0 then (h, 0, Some NoMethod)
               else
                 (let h = h\<lparr>rq_method := take n b\<rparr>; b = drop (n + 1) b in
                  case LastIndexByte b (ch CHR '' '') of
                    None \<Rightarrow>
                      (h\<lparr>rq_noHTTP11 := True, rq_proto := strHTTP10, rq_requestURI := b\<rparr>,
                       length buf - length bNext, None)
                  | Some n \<Rightarrow>
                      if n = 0 then (h, 0, Some EmptyRequestURI)
                      else
                        (let h = (if drop (n + 1) b \<noteq> strHTTP11 then h\<lparr>rq_noHTTP11 := True\<rparr> else h);
                             protoStr = (if drop (n + 1) b \<noteq> strHTTP11 then drop (n + 1) b else strHTTP11)
                         in (h\<lparr>rq_proto := protoStr, rq_requestURI := take n b\<rparr>,
                             length buf - length bNext, None)))))"

text \<open>The body of the loop of \<open>parseHeaders\<close>, with the local error variable.\<close>

definition RequestHeader_parseHeader ::
  "RequestHeader \<times> header_err option \<Rightarrow> bytes \<Rightarrow> bytes \<Rightarrow> RequestHeader \<times> header_err option" where
  "RequestHeader_parseHeader he key value =
     (case he of
        (h, err) \<Rightarrow>
          (let other = (h\<lparr>rq_h := appendArg (rq_h h) key value argsHasValue\<rparr>, err) in
           if length key > 0 then
             (if IndexByte key (ch CHR '' '') \<noteq> None \<or> IndexByte key 9 \<noteq> None
              then (h, Some (InvalidHeaderKey key))
              else
                (let k = hd key OR 0x20 in
                 if k = ch CHR ''h'' \<and> caseInsensitiveCompare key strHost then (h\<lparr>rq_host := value\<rparr>, err)
                 else if k = ch CHR ''u'' \<and> caseInsensitiveCompare key strUserAgent
                 then (h\<lparr>rq_userAgent := value\<rparr>, err)
                 else if k = ch CHR ''c'' then
                   (if caseInsensitiveCompare key strContentType then (h\<lparr>rq_contentType := value\<rparr>, err)
                    else if caseInsensitiveCompare key strContentLength then
                      (if rq_contentLength h \<noteq> -1 then
                         (case parseContentLength value of
                            (contentLength, Some nerr) \<Rightarrow>
                              (h\<lparr>rq_contentLength := -2\<rparr>, if err = None then Some nerr else err)
                          | (contentLength, None) \<Rightarrow>
                              (h\<lparr>rq_contentLength := contentLength, rq_contentLengthBytes := value\<rparr>, err))
                       else (h, err))
                    else if caseInsensitiveCompare key strConnection then
                      (if value = strClose then (h\<lparr>rq_connectionClose := True\<rparr>, err)
                       else (h\<lparr>rq_connectionClose := False,
                               rq_h := appendArg (rq_h h) key value argsHasValue\<rparr>, err))
                    else other)
                 else if k = ch CHR ''t'' \<and> caseInsensitiveCompare key strTransferEncoding then
                   (if value \<noteq> strIdentity
                    then (h\<lparr>rq_contentLength := -1,
                            rq_h := setArg (rq_h h) strTransferEncoding strChunked argsHasValue\<rparr>, err)
                    else (h, err))
                 else other))
           else other))"

text \<open>
  \<open>parseHeaders\<close> and \<open>parse\<close> also return the buffer as the scanner left it: the reader whose
  buffer it is goes on from there.
\<close>

definition RequestHeader_parseHeaders ::
  "RequestHeader \<Rightarrow> bytes \<Rightarrow> RequestHeader \<times> int \<times> header_err option \<times> bytes" where
  "RequestHeader_parseHeaders h buf =
     (case header_loop RequestHeader_parseHeader (headerScanner_init buf (rq_disableNormalizing h))
             (h\<lparr>rq_contentLength := -2\<rparr>, None) of
        ((h, err), s) \<Rightarrow>
          (let err = (if hs_err s \<noteq> None \<and> err = None then hs_err s else err);
               buf' = hs_pre s @ hs_b s @ hs_post s
           in if err \<noteq> None then (h\<lparr>rq_connectionClose := True\<rparr>, 0, err, buf')
              else
                (let h = (if rq_contentLength h < 0 then h\<lparr>rq_contentLengthBytes := []\<rparr> else h);
                     h = (if rq_noHTTP11 h \<and> \<not> rq_connectionClose h
                          then h\<lparr>rq_connectionClose :=
                                 \<not> hasHeaderValue (nilable (peekArg (rq_h h) strConnection)) strKeepAlive\<rparr>
                          else h)
                 in (h, hs_hLen s, None, buf'))))"

definition RequestHeader_parse ::
  "RequestHeader \<Rightarrow> bytes \<Rightarrow> RequestHeader \<times> int \<times> header_err option \<times> bytes" where
  "RequestHeader_parse h buf =
     (case RequestHeader_parseFirstLine h buf of
        (h, m, Some err) \<Rightarrow> (h, 0, Some err, buf)
      | (h, m, None) \<Rightarrow>
          (case readRawHeaders [] (drop m buf) of
             (raw, _, Some err) \<Rightarrow> (h\<lparr>rq_rawHeaders := raw\<rparr>, 0, Some err, buf)
           | (raw, _, None) \<Rightarrow>
               (case RequestHeader_parseHeaders (h\<lparr>rq_rawHeaders := raw\<rparr>) (drop m buf) of
                  (h, n, Some err, buf') \<Rightarrow> (h, 0, Some err, take m buf @ buf')
                | (h, n, None, buf') \<Rightarrow> (h, int m + n, None, take m buf @ buf'))))"

text \<open>\<open>VisitAllInOrder\<close> scans the raw headers again.\<close>

definition RequestHeader_VisitAllInOrder :: "RequestHeader \<Rightarrow> (bytes \<times> bytes) list" where
  "RequestHeader_VisitAllInOrder h =
     fst (header_loop (\<lambda>out key value. if length key > 0 then out @ [(key, value)] else out)
            (headerScanner_init (rq_rawHeaders h) (rq_disableNormalizing h)) [])"

section \<open>Printing and parsing: lemmas\<close>

lemma normalize_names [simp]:
  "normalizeHeaderKey strHost d = strHost" "normalizeHeaderKey strUserAgent d = strUserAgent"
  "normalizeHeaderKey strContentType d = strContentType" "normalizeHeaderKey strContentLength d = strContentLength"
  "normalizeHeaderKey strConnection d = strConnection" "normalizeHeaderKey strCookie d = strCookie"
  "normalizeHeaderKey strTransferEncoding d = strTransferEncoding"
  "normalizeHeaderKey strServer d = strServer" "normalizeHeaderKey strSetCookie d = strSetCookie"
  "normalizeHeaderKey strDate d = strDate"
proof -
  have *: "normalizeHeaderKey s d = s" if "normalizeHeaderKey s False = s" for s
    using that by (cases d) (simp_all add: normalizeHeaderKey_def)
  show "normalizeHeaderKey strHost d = strHost" "normalizeHeaderKey strUserAgent d = strUserAgent"
    "normalizeHeaderKey strContentType d = strContentType" "normalizeHeaderKey strContentLength d = strContentLength"
    "normalizeHeaderKey strConnection d = strConnection" "normalizeHeaderKey strCookie d = strCookie"
    "normalizeHeaderKey strTransferEncoding d = strTransferEncoding"
    "normalizeHeaderKey strServer d = strServer" "normalizeHeaderKey strSetCookie d = strSetCookie"
    "normalizeHeaderKey strDate d = strDate"
    by (rule *, code_simp)+
qed

text \<open>The header fields that \<open>AppendBytes\<close> prints, in order.\<close>

definition opt_field :: "bytes \<Rightarrow> bytes \<Rightarrow> (bytes \<times> bytes) list" where
  "opt_field k v = (if v = [] then [] else [(k, v)])"

definition printed_content_type :: "RequestHeader \<Rightarrow> bytes" where
  "printed_content_type h =
     (if rq_contentType h = [] \<and> \<not> RequestHeader_ignoreBody h then strDefaultContentType else rq_contentType h)"

definition cookie_fields :: "RequestHeader \<Rightarrow> (bytes \<times> bytes) list" where
  "cookie_fields h =
     (if live (rq_cookies h) = [] then []
      else [(strCookie, appendRequestCookieBytes [] (live (rq_cookies h)))])"

definition request_fields :: "RequestHeader \<Rightarrow> (bytes \<times> bytes) list" where
  "request_fields h =
     opt_field strUserAgent (rq_userAgent h) @ opt_field strHost (rq_host h)
     @ opt_field strContentType (printed_content_type h) @ opt_field strContentLength (rq_contentLengthBytes h)
     @ map kv_pair (live (rq_h h)) @ cookie_fields h
     @ (if rq_connectionClose h then [(strConnection, strClose)] else [])"

definition request_line :: "RequestHeader \<Rightarrow> bytes" where
  "request_line h = RequestHeader_Method h @ 32 # RequestHeader_RequestURI h @ 32 # RequestHeader_Protocol h @ strCRLF"

lemma appendRequestCookieBytes_dst: "appendRequestCookieBytes dst kvs = dst @ appendRequestCookieBytes [] kvs"
  by (cases kvs) (simp_all only: appendRequestCookieBytes_pieces, simp_all)

lemma appendHeaderLine_eq: "appendHeaderLine dst k v = dst @ header_line (k, v)"
  by (simp add: header_line_def appendHeaderLine_def)

lemma opt_field_line:
  "(if length v > 0 then appendHeaderLine dst k v else dst) = dst @ concat (map header_line (opt_field k v))"
  by (simp add: opt_field_def appendHeaderLine_eq)

lemma foldl_header_lines:
  "foldl (\<lambda>dst kv. appendHeaderLine dst (kv_key kv) (kv_value kv)) dst kvs =
     dst @ concat (map header_line (map kv_pair kvs))"
  by (induction kvs arbitrary: dst) (simp_all add: appendHeaderLine_eq kv_pair_def)

lemma RequestHeader_AppendBytes_fields:
  "RequestHeader_AppendBytes h [] = request_line h @ concat (map header_line (request_fields h)) @ strCRLF"
proof -
  have cookie: "(if length (live (rq_cookies h)) > 0
      then appendRequestCookieBytes (dst @ strCookie @ strColonSpace) (live (rq_cookies h)) @ strCRLF else dst) =
      dst @ concat (map header_line (cookie_fields h))" for dst
    using appendRequestCookieBytes_dst [of "dst @ strCookie @ strColonSpace"]
    by (simp add: cookie_fields_def header_line_def appendHeaderLine_def)
  have close: "(if rq_connectionClose h then appendHeaderLine dst strConnection strClose else dst) =
      dst @ concat (map header_line (if rq_connectionClose h then [(strConnection, strClose)] else []))" for dst
    by (simp add: appendHeaderLine_eq)
  have ct: "(if length (rq_contentType h) = 0 \<and> \<not> RequestHeader_ignoreBody h
      then strDefaultContentType else rq_contentType h) = printed_content_type h"
    by (simp add: printed_content_type_def)
  have "RequestHeader_AppendBytes h [] =
      ((((((request_line h @ concat (map header_line (opt_field strUserAgent (rq_userAgent h))))
        @ concat (map header_line (opt_field strHost (rq_host h))))
        @ concat (map header_line (opt_field strContentType (printed_content_type h))))
        @ concat (map header_line (opt_field strContentLength (rq_contentLengthBytes h))))
        @ concat (map header_line (map kv_pair (live (rq_h h)))))
        @ concat (map header_line (cookie_fields h)))
        @ concat (map header_line (if rq_connectionClose h then [(strConnection, strClose)] else []))
        @ strCRLF"
    unfolding RequestHeader_AppendBytes_def Let_def RequestHeader_ContentType_def
      opt_field_line ct foldl_header_lines cookie close
    by (simp add: request_line_def)
  then show ?thesis by (simp only: request_fields_def map_append concat_append append_assoc)
qed

text \<open>The request line.\<close>

definition request_line_ok :: "RequestHeader \<Rightarrow> bool" where
  "request_line_ok h \<longleftrightarrow> set (RequestHeader_Method h) \<inter> {32, 10} = {} \<and> 10 \<notin> set (RequestHeader_RequestURI h)
     \<and> set (RequestHeader_Protocol h) \<inter> {32, 10} = {}"

lemma nextLine_crlf: "10 \<notin> set l \<Longrightarrow> nextLine (l @ 13 # 10 # rest) = Some (l, rest)"
  using IndexByte_append [of 10 "l @ [13]" rest] by (simp add: nextLine_def nth_append)

lemma firstLine_crlf: "10 \<notin> set l \<Longrightarrow> l \<noteq> [] \<Longrightarrow> firstLine (l @ 13 # 10 # rest) = Some (l, rest)"
  by (subst firstLine.simps) (simp add: nextLine_crlf)

lemma Method_nonempty: "RequestHeader_Method h \<noteq> []" and RequestURI_nonempty: "RequestHeader_RequestURI h \<noteq> []"
  by (auto simp: RequestHeader_Method_def RequestHeader_RequestURI_def str_defs)

lemma parseFirstLine_print:
  assumes "request_line_ok h"
  shows "RequestHeader_parseFirstLine g (request_line h @ rest) =
    (g\<lparr>rq_method := RequestHeader_Method h,
       rq_noHTTP11 := (rq_noHTTP11 g \<or> RequestHeader_Protocol h \<noteq> strHTTP11),
       rq_proto := RequestHeader_Protocol h, rq_requestURI := RequestHeader_RequestURI h\<rparr>,
     length (request_line h), None)"
proof -
  let ?M = "RequestHeader_Method h" and ?U = "RequestHeader_RequestURI h" and ?P = "RequestHeader_Protocol h"
  let ?l = "?M @ 32 # ?U @ 32 # ?P"
  have "firstLine (request_line h @ rest) = Some (?l, rest)"
    using assms firstLine_crlf [of ?l rest] by (simp add: request_line_def strCRLF_def request_line_ok_def)
  moreover have "IndexByte ?l 32 = Some (length ?M)" using assms by (simp add: request_line_ok_def)
  moreover have "LastIndexByte (?U @ 32 # ?P) 32 = Some (length ?U)"
    using assms by (simp add: request_line_ok_def)
  ultimately show ?thesis using Method_nonempty [of h] RequestURI_nonempty [of h]
    by (cases g) (auto simp: RequestHeader_parseFirstLine_def)
qed

text \<open>The raw copy of the header block.\<close>

lemma header_line_break:
  assumes "header_field_ok kv"
  obtains m where "length (header_line kv) = Suc m" and "4 \<le> m"
    and "\<And>rest. IndexByte (header_line kv @ rest) 10 = Some m"
proof -
  obtain k v where kv: "kv = (k, v)" by fastforce
  have "10 \<notin> set (k @ 58 # 32 # v @ [13])" and "k \<noteq> []"
    using assms kv by (auto simp: header_field_ok_def header_key_ok_def header_value_ok_def)
  then show thesis using IndexByte_append [of 10 "k @ 58 # 32 # v @ [13]"] kv
    by (intro that [of "length k + length v + 3"])
      (auto simp: header_line_def appendHeaderLine_def str_defs Suc_le_eq)
qed

lemma readRawHeaders_loop_block:
  assumes "\<And>kv. kv \<in> set kvs \<Longrightarrow> header_field_ok kv"
  shows "\<exists>d m. readRawHeaders_loop dst buf n (concat (map header_line kvs) @ 13 # 10 # rest) = (d, m, None)"
  using assms
proof (induction kvs arbitrary: n)
  case Nil
  then show ?case by (simp add: readRawHeaders_loop.simps)
next
  case (Cons kv kvs)
  let ?r = "concat (map header_line kvs) @ 13 # 10 # rest"
  have "header_field_ok kv" using Cons.prems by simp
  then obtain m where m: "length (header_line kv) = Suc m" "4 \<le> m"
    "\<And>rest. IndexByte (header_line kv @ rest) 10 = Some m"
    by (rule header_line_break) blast
  have "readRawHeaders_loop dst buf n (header_line kv @ ?r) = readRawHeaders_loop dst buf (n + Suc m) ?r"
    using m by (subst readRawHeaders_loop.simps) (simp add: Let_def)
  with Cons.IH [of "n + Suc m"] Cons.prems show ?case by simp
qed

lemma readRawHeaders_block:
  assumes "\<And>kv. kv \<in> set kvs \<Longrightarrow> header_field_ok kv"
  shows "\<exists>d m. readRawHeaders dst (concat (map header_line kvs) @ 13 # 10 # rest) = (d, m, None)"
proof (cases kvs)
  case Nil
  then show ?thesis by (simp add: readRawHeaders_def)
next
  case (Cons kv kvs')
  have "header_field_ok kv" using assms Cons by simp
  then obtain m where m: "length (header_line kv) = Suc m" "4 \<le> m"
    "\<And>rest. IndexByte (header_line kv @ rest) 10 = Some m"
    by (rule header_line_break) blast
  let ?r = "concat (map header_line kvs') @ 13 # 10 # rest"
  let ?buf = "header_line kv @ ?r"
  have "readRawHeaders dst ?buf = readRawHeaders_loop dst ?buf (Suc m) ?r"
    using m by (simp add: readRawHeaders_def)
  moreover have "\<exists>d n. readRawHeaders_loop dst ?buf (Suc m) ?r = (d, n, None)"
    using assms Cons by (intro readRawHeaders_loop_block) auto
  ultimately show ?thesis using Cons by simp
qed

text \<open>What the loop body does with each kind of field.\<close>

definition plain_field :: "bool \<Rightarrow> bytes \<times> bytes \<Rightarrow> bool" where
  "plain_field d kv \<longleftrightarrow> header_field_ok kv \<and> set (fst kv) \<inter> {32, 9} = {} \<and> normalizeHeaderKey (fst kv) d = fst kv
     \<and> \<not> caseInsensitiveCompare (fst kv) strHost \<and> \<not> caseInsensitiveCompare (fst kv) strUserAgent
     \<and> \<not> caseInsensitiveCompare (fst kv) strContentType \<and> \<not> caseInsensitiveCompare (fst kv) strContentLength
     \<and> \<not> caseInsensitiveCompare (fst kv) strConnection \<and> \<not> caseInsensitiveCompare (fst kv) strTransferEncoding"

lemma parseHeader_plain:
  assumes "plain_field d kv"
  shows "RequestHeader_parseHeader (h, err) (fst kv) (snd kv) =
    (h\<lparr>rq_h := appendArg (rq_h h) (fst kv) (snd kv) argsHasValue\<rparr>, err)"
proof -
  have "IndexByte (fst kv) 32 = None" "IndexByte (fst kv) 9 = None"
    using assms by (auto simp: plain_field_def)
  with assms show ?thesis
    by (simp add: RequestHeader_parseHeader_def plain_field_def Let_def del: IndexByte_None)
qed

lemma parseHeader_names:
  "RequestHeader_parseHeader (h, err) strHost v = (h\<lparr>rq_host := v\<rparr>, err)"
  "RequestHeader_parseHeader (h, err) strUserAgent v = (h\<lparr>rq_userAgent := v\<rparr>, err)"
  "RequestHeader_parseHeader (h, err) strContentType v = (h\<lparr>rq_contentType := v\<rparr>, err)"
  "rq_contentLength h \<noteq> -1 \<Longrightarrow> parseContentLength v = (n, None) \<Longrightarrow>
     RequestHeader_parseHeader (h, err) strContentLength v =
       (h\<lparr>rq_contentLength := n, rq_contentLengthBytes := v\<rparr>, err)"
  "RequestHeader_parseHeader (h, err) strConnection strClose = (h\<lparr>rq_connectionClose := True\<rparr>, err)"
  "RequestHeader_parseHeader (h, err) strCookie v = (h\<lparr>rq_h := appendArg (rq_h h) strCookie v argsHasValue\<rparr>, err)"
  by (simp_all add: RequestHeader_parseHeader_def caseInsensitiveCompare_def str_defs Let_def)

definition header_step ::
  "bool \<Rightarrow> RequestHeader \<times> header_err option \<Rightarrow> bytes \<times> bytes \<Rightarrow> RequestHeader \<times> header_err option" where
  "header_step d he kv = RequestHeader_parseHeader he (normalizeHeaderKey (fst kv) d) (snd kv)"

lemma header_step_eq: "(\<lambda>h (k, v). RequestHeader_parseHeader h (normalizeHeaderKey k d) v) = header_step d"
  by (intro ext) (simp add: header_step_def split: prod.split)

definition append_fields :: "argsKV slice \<Rightarrow> (bytes \<times> bytes) list \<Rightarrow> argsKV slice" where
  "append_fields h kvs = foldl (\<lambda>h kv. appendArg h (fst kv) (snd kv) argsHasValue) h kvs"

lemma live_append_fields: "map kv_pair (live (append_fields h kvs)) = map kv_pair (live h) @ kvs"
  unfolding append_fields_def by (induction kvs arbitrary: h) (simp_all add: kv_pair_def set_kv_def)

lemma steps_plain:
  "(\<And>kv. kv \<in> set kvs \<Longrightarrow> plain_field d kv) \<Longrightarrow>
     foldl (header_step d) (g, e) kvs = (g\<lparr>rq_h := append_fields (rq_h g) kvs\<rparr>, e)"
proof (induction kvs arbitrary: g)
  case (Cons kv kvs)
  have "header_step d (g, e) kv = (g\<lparr>rq_h := appendArg (rq_h g) (fst kv) (snd kv) argsHasValue\<rparr>, e)"
    using Cons.prems parseHeader_plain [of d kv] by (simp add: header_step_def plain_field_def)
  with Cons show ?case by (simp add: append_fields_def)
qed (simp add: append_fields_def)

lemma steps_opt:
  "rq_userAgent g = [] \<Longrightarrow>
     foldl (header_step d) (g, e) (opt_field strUserAgent v) = (g\<lparr>rq_userAgent := v\<rparr>, e)"
  "rq_host g = [] \<Longrightarrow> foldl (header_step d) (g, e) (opt_field strHost v) = (g\<lparr>rq_host := v\<rparr>, e)"
  "rq_contentType g = [] \<Longrightarrow>
     foldl (header_step d) (g, e) (opt_field strContentType v) = (g\<lparr>rq_contentType := v\<rparr>, e)"
  by (simp_all add: opt_field_def header_step_def parseHeader_names)

lemma steps_length:
  assumes "rq_contentLength g = -2" and "rq_contentLengthBytes g = []"
    and "v = [] \<or> parseContentLength v = (n, None)"
  shows "foldl (header_step d) (g, e) (opt_field strContentLength v) =
    (g\<lparr>rq_contentLength := if v = [] then -2 else n, rq_contentLengthBytes := v\<rparr>, e)"
proof (cases "v = []")
  case False
  with assms(3) have "parseContentLength v = (n, None)" by simp
  with False assms(1) show ?thesis by (simp add: opt_field_def header_step_def parseHeader_names)
qed (use assms in \<open>simp add: opt_field_def\<close>)

lemma steps_cookie:
  "foldl (header_step d) (g, e) (cookie_fields h) = (g\<lparr>rq_h := append_fields (rq_h g) (cookie_fields h)\<rparr>, e)"
  by (simp add: cookie_fields_def append_fields_def header_step_def parseHeader_names)

lemma steps_close:
  "foldl (header_step d) (g, e) (if c then [(strConnection, strClose)] else []) =
     (if c then g\<lparr>rq_connectionClose := True\<rparr> else g, e)"
  by (simp add: header_step_def parseHeader_names)

definition request_ok :: "bool \<Rightarrow> RequestHeader \<Rightarrow> bool" where
  "request_ok d h \<longleftrightarrow> request_line_ok h \<and> header_value_ok (rq_userAgent h) \<and> header_value_ok (rq_host h)
     \<and> header_value_ok (rq_contentType h) \<and> header_value_ok (rq_contentLengthBytes h)
     \<and> (rq_contentLengthBytes h = [] \<or> parseContentLength (rq_contentLengthBytes h) = (rq_contentLength h, None) \<and> 0 \<le> rq_contentLength h)
     \<and> list_all (\<lambda>kv. plain_field d (kv_pair kv)) (live (rq_h h))
     \<and> header_value_ok (appendRequestCookieBytes [] (live (rq_cookies h)))"

lemma field_names_ok:
  "header_value_ok v \<Longrightarrow> header_field_ok (strUserAgent, v)" "header_value_ok v \<Longrightarrow> header_field_ok (strHost, v)"
  "header_value_ok v \<Longrightarrow> header_field_ok (strContentType, v)"
  "header_value_ok v \<Longrightarrow> header_field_ok (strContentLength, v)"
  "header_value_ok v \<Longrightarrow> header_field_ok (strCookie, v)" "header_field_ok (strConnection, strClose)"
  "header_value_ok strDefaultContentType"
  by (simp_all add: header_field_ok_def header_key_ok_def not_folded_def header_value_ok_def str_defs)

lemma request_fields_ok:
  assumes "request_ok d h" and "kv \<in> set (request_fields h)"
  shows "header_field_ok kv"
proof -
  have "kv \<in> set (opt_field strUserAgent (rq_userAgent h)) \<or> kv \<in> set (opt_field strHost (rq_host h))
    \<or> kv \<in> set (opt_field strContentType (printed_content_type h))
    \<or> kv \<in> set (opt_field strContentLength (rq_contentLengthBytes h))
    \<or> kv \<in> kv_pair ` set (live (rq_h h)) \<or> kv \<in> set (cookie_fields h) \<or> kv = (strConnection, strClose)"
    using assms(2) by (auto simp: request_fields_def split: if_splits)
  moreover have "header_value_ok (printed_content_type h)"
    using assms(1) field_names_ok(7) by (simp add: printed_content_type_def request_ok_def)
  ultimately show ?thesis using assms(1) field_names_ok
    by (auto simp: request_ok_def opt_field_def cookie_fields_def list_all_iff plain_field_def split: if_splits)
qed

definition fresh_request :: "RequestHeader \<Rightarrow> bool" where
  "fresh_request g \<longleftrightarrow> rq_userAgent g = [] \<and> rq_host g = [] \<and> rq_contentType g = []
     \<and> rq_contentLengthBytes g = [] \<and> live (rq_h g) = [] \<and> \<not> rq_connectionClose g"

lemma request_steps:
  assumes "request_ok d h" and "fresh_request g" and "rq_contentLength g = -2"
  shows "\<exists>g'. foldl (header_step d) (g, None) (request_fields h) = (g', None)
    \<and> rq_userAgent g' = rq_userAgent h \<and> rq_host g' = rq_host h \<and> rq_contentType g' = printed_content_type h
    \<and> rq_contentLengthBytes g' = rq_contentLengthBytes h
    \<and> rq_contentLength g' = (if rq_contentLengthBytes h = [] then -2 else rq_contentLength h)
    \<and> map kv_pair (live (rq_h g')) = map kv_pair (live (rq_h h)) @ cookie_fields h
    \<and> rq_connectionClose g' = rq_connectionClose h \<and> rq_noHTTP11 g' = rq_noHTTP11 g
    \<and> rq_method g' = rq_method g \<and> rq_proto g' = rq_proto g \<and> rq_requestURI g' = rq_requestURI g"
proof -
  let ?n = "rq_contentLength h" and ?v = "rq_contentLengthBytes h"
  let ?g3 = "g\<lparr>rq_userAgent := rq_userAgent h, rq_host := rq_host h, rq_contentType := printed_content_type h\<rparr>"
  let ?g4 = "?g3\<lparr>rq_contentLength := if ?v = [] then -2 else ?n, rq_contentLengthBytes := ?v\<rparr>"
  let ?g5 = "?g4\<lparr>rq_h := append_fields (rq_h ?g4) (map kv_pair (live (rq_h h)))\<rparr>"
  have g: "rq_userAgent g = []" "rq_host (g\<lparr>rq_userAgent := x\<rparr>) = []"
    "rq_contentType (g\<lparr>rq_userAgent := x, rq_host := y\<rparr>) = []"
    "rq_contentLength ?g3 = -2" "rq_contentLengthBytes ?g3 = []" for x y
    using assms(2,3) by (simp_all add: fresh_request_def)
  have v: "?v = [] \<or> parseContentLength ?v = (?n, None)" using assms(1) by (auto simp: request_ok_def)
  have plain: "plain_field d kv" if "kv \<in> set (map kv_pair (live (rq_h h)))" for kv
    using assms(1) that by (auto simp: request_ok_def list_all_iff)
  have 5: "foldl (header_step d) (g', e) (map kv_pair (live (rq_h h))) =
      (g'\<lparr>rq_h := append_fields (rq_h g') (map kv_pair (live (rq_h h)))\<rparr>, e)" for g' e
    by (rule steps_plain) (rule plain)
  have r: "foldl (header_step d) (g, None) (request_fields h) =
    (let g6 = ?g5\<lparr>rq_h := append_fields (rq_h ?g5) (cookie_fields h)\<rparr>
     in if rq_connectionClose h then g6\<lparr>rq_connectionClose := True\<rparr> else g6, None)"
    unfolding request_fields_def foldl_append steps_opt(1) [OF g(1)] steps_opt(2) [OF g(2)] steps_opt(3) [OF g(3)]
      steps_length [OF g(4,5) v] 5 steps_cookie steps_close Let_def ..
  show ?thesis
    using assms(2,3) unfolding r by (simp add: Let_def fresh_request_def live_append_fields)
qed

lemma caseInsensitiveCompare_refl: "caseInsensitiveCompare k k"
  by (simp add: caseInsensitiveCompare_def list_all2_same)

lemma no_connection_field:
  assumes "request_ok d h" and "map kv_pair (live l) = map kv_pair (live (rq_h h)) @ cookie_fields h"
  shows "peekArg l strConnection = None"
proof -
  have "kv_key ` set (live l) = fst ` set (map kv_pair (live l))"
    by (auto simp: kv_pair_def image_image)
  also have "\<dots> = fst ` (kv_pair ` set (live (rq_h h)) \<union> set (cookie_fields h))"
    using assms(2) by simp
  finally have keys: "kv_key ` set (live l) = kv_key ` set (live (rq_h h)) \<union> fst ` set (cookie_fields h)"
    by (simp add: image_Un image_image kv_pair_def)
  have "kv_key kv \<noteq> strConnection" if "kv \<in> set (live (rq_h h))" for kv
    using assms(1) that caseInsensitiveCompare_refl
    by (auto simp: request_ok_def list_all_iff plain_field_def kv_pair_def)
  moreover have "strConnection \<notin> fst ` set (cookie_fields h)"
    by (simp add: cookie_fields_def str_defs)
  ultimately have "strConnection \<notin> kv_key ` set (live l)" unfolding keys by (metis UnE imageE)
  then show ?thesis by (simp add: peekArg_list list_peek_None)
qed

lemma hasHeaderValue_Nil [simp]: "\<not> hasHeaderValue [] v"
  by (simp add: hasHeaderValue.simps headerValueScanner_next_def)

lemma request_print_parse:
  assumes "request_ok (rq_disableNormalizing g) h"
  defines "s \<equiv> RequestHeader_AppendBytes h []"
  shows "\<exists>g' buf'. RequestHeader_parse (RequestHeader_resetSkipNormalize g) (s @ body) =
      (g', int (length s), None, buf') \<and> drop (length s) buf' = body \<and> length buf' = length (s @ body)
    \<and> rq_method g' = RequestHeader_Method h \<and> rq_requestURI g' = RequestHeader_RequestURI h
    \<and> rq_proto g' = RequestHeader_Protocol h \<and> rq_userAgent g' = rq_userAgent h \<and> rq_host g' = rq_host h
    \<and> rq_contentType g' = printed_content_type h \<and> rq_contentLengthBytes g' = rq_contentLengthBytes h
    \<and> rq_contentLength g' = (if rq_contentLengthBytes h = [] then -2 else rq_contentLength h)
    \<and> map kv_pair (live (rq_h g')) = map kv_pair (live (rq_h h)) @ cookie_fields h
    \<and> rq_connectionClose g' = (rq_connectionClose h \<or> RequestHeader_Protocol h \<noteq> strHTTP11)"
proof -
  let ?d = "rq_disableNormalizing g" and ?P = "RequestHeader_Protocol h"
  let ?block = "concat (map header_line (request_fields h))"
  let ?rest = "?block @ 13 # 10 # body"
  let ?g0 = "RequestHeader_resetSkipNormalize g"
  let ?g1 = "?g0\<lparr>rq_method := RequestHeader_Method h, rq_noHTTP11 := (rq_noHTTP11 ?g0 \<or> ?P \<noteq> strHTTP11),
      rq_proto := ?P, rq_requestURI := RequestHeader_RequestURI h\<rparr>"
  have buf: "s @ body = request_line h @ ?rest"
    by (simp add: s_def RequestHeader_AppendBytes_fields strCRLF_def)
  have len: "length s = length (request_line h) + length ?block + 2"
    by (simp add: s_def RequestHeader_AppendBytes_fields strCRLF_def)
  note ok = request_fields_ok [OF assms(1)]
  have first: "RequestHeader_parseFirstLine ?g0 (s @ body) = (?g1, length (request_line h), None)"
    unfolding buf using assms(1) by (intro parseFirstLine_print) (simp add: request_ok_def)
  obtain raw m where raw: "readRawHeaders [] ?rest = (raw, m, None)"
    using readRawHeaders_block [OF ok] by blast
  let ?g2 = "?g1\<lparr>rq_rawHeaders := raw, rq_contentLength := -2\<rparr>"
  have d: "rq_disableNormalizing (?g1\<lparr>rq_rawHeaders := raw\<rparr>) = ?d"
    by (simp add: RequestHeader_resetSkipNormalize_def)
  obtain sc where sc: "header_loop RequestHeader_parseHeader (headerScanner_init ?rest ?d) (?g2, None) =
      (foldl (header_step ?d) (?g2, None) (request_fields h), sc)" "hs_b sc = body" "hs_err sc = None"
      "hs_post sc = []" "hs_hLen sc = int (length ?block + 2)"
      "hs_pre sc = concat (map (\<lambda>(k, v). header_line (normalizeHeaderKey k ?d, v)) (request_fields h)) @ [13, 10]"
    using header_loop_init [OF ok, of "request_fields h" RequestHeader_parseHeader body ?d "(?g2, None)"]
    unfolding header_step_eq by blast
  have "fresh_request ?g2" "rq_contentLength ?g2 = -2"
    by (simp_all add: fresh_request_def RequestHeader_resetSkipNormalize_def)
  from request_steps [OF assms(1) this] obtain g3 where
    g3: "foldl (header_step ?d) (?g2, None) (request_fields h) = (g3, None)"
      "rq_userAgent g3 = rq_userAgent h" "rq_host g3 = rq_host h" "rq_contentType g3 = printed_content_type h"
      "rq_contentLengthBytes g3 = rq_contentLengthBytes h"
      "rq_contentLength g3 = (if rq_contentLengthBytes h = [] then -2 else rq_contentLength h)"
      "map kv_pair (live (rq_h g3)) = map kv_pair (live (rq_h h)) @ cookie_fields h"
      "rq_connectionClose g3 = rq_connectionClose h" "rq_noHTTP11 g3 = rq_noHTTP11 ?g2"
      "rq_method g3 = rq_method ?g2" "rq_proto g3 = rq_proto ?g2" "rq_requestURI g3 = rq_requestURI ?g2"
    by blast
  let ?g4 = "if rq_contentLength g3 < 0 then g3\<lparr>rq_contentLengthBytes := []\<rparr> else g3"
  let ?g5 = "if rq_noHTTP11 g3 \<and> \<not> rq_connectionClose g3 then ?g4\<lparr>rq_connectionClose := True\<rparr> else ?g4"
  have peek: "peekArg (rq_h g3) strConnection = None" by (rule no_connection_field [OF assms(1) g3(7)])
  have "RequestHeader_parseHeaders (?g1\<lparr>rq_rawHeaders := raw\<rparr>) ?rest =
      (?g5, int (length ?block + 2), None, hs_pre sc @ body)"
    using sc g3(1) peek
    by (simp add: RequestHeader_parseHeaders_def d nilable_def Let_def del: append_assoc)
  then have parse: "RequestHeader_parse ?g0 (s @ body) =
      (?g5, int (length s), None, request_line h @ hs_pre sc @ body)"
    using first raw len unfolding buf by (simp add: RequestHeader_parse_def)
  have "length (hs_pre sc) = length ?block + 2"
    unfolding sc(6) by (simp add: length_concat comp_def case_prod_beta header_line_def appendHeaderLine_def)
  then have "drop (length s) (request_line h @ hs_pre sc @ body) = body
      \<and> length (request_line h @ hs_pre sc @ body) = length (s @ body)" by (simp add: len)
  moreover have "rq_contentLength g3 < 0 \<longleftrightarrow> rq_contentLengthBytes h = []"
    using assms(1) g3(6) by (auto simp: request_ok_def)
  moreover have "rq_noHTTP11 g3 \<longleftrightarrow> ?P \<noteq> strHTTP11"
    using g3(9) by (simp add: RequestHeader_resetSkipNormalize_def)
  ultimately show ?thesis using parse g3(2-8,10-) by auto
qed

section \<open>Properties\<close>

text \<open>
  C15. Printing a request header and parsing the bytes gives the header back, and the parser
  stops exactly at the first byte of the body: method, URI, protocol, the fields with their own
  slot and the other fields in order, with the cookies as one Cookie field. A request that is
  not HTTP/1.1 and has no keep-alive is marked to close its connection. The parts must fit on
  their lines, and the other fields must not be ones the parser treats specially.
\<close>

theorem RequestHeader_print_parse:
  assumes "request_ok (rq_disableNormalizing g) h"
  defines "s \<equiv> RequestHeader_AppendBytes h []"
  shows "\<exists>g' buf'. RequestHeader_parse (RequestHeader_resetSkipNormalize g) (s @ body) =
      (g', int (length s), None, buf') \<and> drop (length s) buf' = body
    \<and> rq_method g' = RequestHeader_Method h \<and> rq_requestURI g' = RequestHeader_RequestURI h
    \<and> rq_proto g' = RequestHeader_Protocol h \<and> rq_userAgent g' = rq_userAgent h \<and> rq_host g' = rq_host h
    \<and> rq_contentType g' = printed_content_type h \<and> rq_contentLengthBytes g' = rq_contentLengthBytes h
    \<and> rq_contentLength g' = (if rq_contentLengthBytes h = [] then -2 else rq_contentLength h)
    \<and> map kv_pair (live (rq_h g')) = map kv_pair (live (rq_h h)) @ cookie_fields h
    \<and> rq_connectionClose g' = (rq_connectionClose h \<or> RequestHeader_Protocol h \<noteq> strHTTP11)"
  using request_print_parse [OF assms(1), of body] unfolding s_def by blast

definition example_request :: RequestHeader where
  "example_request = \<lparr>rq_disableNormalizing = False, rq_noHTTP11 = False, rq_connectionClose = True,
     rq_cookiesCollected = True, rq_contentLength = 5, rq_contentLengthBytes = bytes_of ''5'',
     rq_secureErrorLogMessage = False, rq_method = bytes_of ''POST'', rq_requestURI = bytes_of ''/a?b'', rq_proto = [],
     rq_host = bytes_of ''foo.com'', rq_contentType = [], rq_userAgent = [],
     rq_h = \<lparr>live = [set_kv (bytes_of ''X-Id'') (bytes_of ''1'') False], spare = []\<rparr>,
     rq_bufKV = set_kv [] [] False,
     rq_cookies = \<lparr>live = [set_kv (bytes_of ''c'') (bytes_of ''d'') False], spare = []\<rparr>, rq_rawHeaders = []\<rparr>"

lemma example_request_ok:
  "request_ok False example_request" "request_ok (rq_disableNormalizing example_request) example_request"
proof -
  show ok: "request_ok False example_request" by code_simp
  show "request_ok (rq_disableNormalizing example_request) example_request" using ok by (simp add: example_request_def)
qed

theorem RequestHeader_print_parse_witness:
  "\<exists>g' buf'. RequestHeader_parse (RequestHeader_resetSkipNormalize example_request)
      (RequestHeader_AppendBytes example_request [] @ bytes_of ''hello'') =
      (g', int (length (RequestHeader_AppendBytes example_request [])), None, buf')
    \<and> rq_host g' = bytes_of ''foo.com'' \<and> rq_contentLength g' = 5"
  using RequestHeader_print_parse [OF example_request_ok(2), of "bytes_of ''hello''"] by (auto simp: example_request_def)



section \<open>Names that match a known one\<close>

text \<open>
  Known names are compared byte by byte with bit 5 set, so a control byte may stand for a dash.
  For names of printable bytes, matching a known name means normalising to it.
\<close>

definition name_letters :: bytes where
  "name_letters = bytes_of ''-ABCDEFGHIJKLMNOPQRSTUVWXYZabcdefghijklmnopqrstuvwxyz''"

lemma or32_cases:
  fixes x z :: byte
  assumes "x OR 32 = z"
  shows "x = z \<or> x = z XOR 32"
proof (cases "bit x 5")
  case True
  have b: "bit (32 :: byte) n \<longleftrightarrow> n = 5" for n
    using bit_exp_iff [where ?'a = byte, of 5 n] by (auto simp: power_numeral dest: bit_imp_le_length)
  have "bit (x OR 32) n \<longleftrightarrow> bit x n" for n using True b [of n] by (auto simp only: bit_or_iff)
  then have "x OR 32 = x" by (intro bit_eqI) simp
  with assms show ?thesis by simp
next
  case False
  have b: "bit (32 :: byte) n \<longleftrightarrow> n = 5" for n
    using bit_exp_iff [where ?'a = byte, of 5 n] by (auto simp: power_numeral dest: bit_imp_le_length)
  have "bit ((x OR 32) XOR 32) n \<longleftrightarrow> bit x n" for n
    using False b [of n] by (auto simp only: bit_or_iff bit_xor_iff)
  then have "(x OR 32) XOR 32 = x" by (intro bit_eqI) simp
  with assms show ?thesis by simp
qed

lemma name_letters_tables:
  "list_all (\<lambda>y. let z = y OR 32 in
     toLowerTable z = toLowerTable y \<and> toUpperTable z = toUpperTable y
     \<and> (z XOR 32 < 32 \<or> toLowerTable (z XOR 32) = toLowerTable y \<and> toUpperTable (z XOR 32) = toUpperTable y))
   name_letters"
  by code_simp

definition same_case_fold :: "byte \<Rightarrow> byte \<Rightarrow> bool" where
  "same_case_fold x y \<longleftrightarrow> toLowerTable x = toLowerTable y \<and> toUpperTable x = toUpperTable y"

lemma or32_same_fold:
  assumes "x OR 32 = y OR 32" and "y \<in> set name_letters" and "32 \<le> x"
  shows "same_case_fold x y"
proof -
  have "x = y OR 32 \<or> x = (y OR 32) XOR 32" by (rule or32_cases [OF assms(1)])
  moreover have "\<not> x < 32" using assms(3) by simp
  ultimately show ?thesis using assms(2) name_letters_tables
    by (auto simp: list_all_iff Let_def same_case_fold_def)
qed

lemma normalizeHeaderKey_loop_fold:
  "list_all2 same_case_fold a b \<Longrightarrow> normalizeHeaderKey_loop a = normalizeHeaderKey_loop b"
proof (induction a arbitrary: b rule: normalizeHeaderKey_loop.induct)
  case (2 p a)
  then obtain q b' where b: "b = q # b'" "same_case_fold p q" "list_all2 same_case_fold a b'"
    by (cases b) auto
  have d: "p = 45 \<longleftrightarrow> q = 45" using b(2) toLower_dash unfolding same_case_fold_def by metis
  show ?case
  proof (cases "p = 45")
    case True
    show ?thesis
    proof (cases a)
      case Nil
      with b d True show ?thesis by simp
    next
      case (Cons c a')
      then obtain e b'' where e: "b' = e # b''" "same_case_fold c e" "list_all2 same_case_fold a' b''"
        using b(3) by (cases b') auto
      have "normalizeHeaderKey_loop a' = normalizeHeaderKey_loop b''"
        using "2.IH"(1) [of c a' b''] True Cons e(3) by simp
      with e True Cons b(1) d show ?thesis by (simp add: same_case_fold_def)
    qed
  next
    case False
    have "normalizeHeaderKey_loop a = normalizeHeaderKey_loop b'"
      using "2.IH"(2) [of b'] False b(3) by simp
    with b d False show ?thesis by (simp add: same_case_fold_def)
  qed
qed simp

lemma normalizeHeaderKey_fold:
  "list_all2 same_case_fold a b \<Longrightarrow> normalizeHeaderKey a False = normalizeHeaderKey b False"
  by (cases a; cases b) (auto simp: normalizeHeaderKey_def same_case_fold_def normalizeHeaderKey_loop_fold)

definition printable_key :: "bytes \<Rightarrow> bool" where
  "printable_key k \<longleftrightarrow> list_all (\<lambda>c. 32 \<le> c) k"

lemma known_name:
  assumes "caseInsensitiveCompare s (normalizeHeaderKey k False)" and "printable_key k"
    and "list_all (\<lambda>c. c \<in> set name_letters) s" and "normalizeHeaderKey s False = s"
  shows "normalizeHeaderKey k False = s"
proof -
  have "caseInsensitiveCompare k s"
    using assms(1) normalizeHeaderKey_compare [of k False s]
    by (auto simp: caseInsensitiveCompare_def list_all2_conv_all_nth)
  then have "list_all2 same_case_fold k s"
    using assms(2,3) or32_same_fold
    by (auto simp: caseInsensitiveCompare_def list_all2_conv_all_nth printable_key_def list_all_length)
  from normalizeHeaderKey_fold [OF this] assms(4) show ?thesis by simp
qed

lemma known_names:
  assumes "printable_key k"
  shows "caseInsensitiveCompare strContentType (normalizeHeaderKey k False) \<longleftrightarrow> normalizeHeaderKey k False = strContentType"
    and "caseInsensitiveCompare strContentLength (normalizeHeaderKey k False) \<longleftrightarrow> normalizeHeaderKey k False = strContentLength"
    and "caseInsensitiveCompare strConnection (normalizeHeaderKey k False) \<longleftrightarrow> normalizeHeaderKey k False = strConnection"
    and "caseInsensitiveCompare strCookie (normalizeHeaderKey k False) \<longleftrightarrow> normalizeHeaderKey k False = strCookie"
    and "caseInsensitiveCompare strTransferEncoding (normalizeHeaderKey k False) \<longleftrightarrow> normalizeHeaderKey k False = strTransferEncoding"
    and "caseInsensitiveCompare strHost (normalizeHeaderKey k False) \<longleftrightarrow> normalizeHeaderKey k False = strHost"
    and "caseInsensitiveCompare strUserAgent (normalizeHeaderKey k False) \<longleftrightarrow> normalizeHeaderKey k False = strUserAgent"
    and "caseInsensitiveCompare strServer (normalizeHeaderKey k False) \<longleftrightarrow> normalizeHeaderKey k False = strServer"
    and "caseInsensitiveCompare strSetCookie (normalizeHeaderKey k False) \<longleftrightarrow> normalizeHeaderKey k False = strSetCookie"
    and "caseInsensitiveCompare strDate (normalizeHeaderKey k False) \<longleftrightarrow> normalizeHeaderKey k False = strDate"
proof -
  have *: "caseInsensitiveCompare s (normalizeHeaderKey k False) \<longleftrightarrow> normalizeHeaderKey k False = s"
    if "list_all (\<lambda>c. c \<in> set name_letters) s" "normalizeHeaderKey s False = s" for s
    using known_name [OF _ assms that] caseInsensitiveCompare_refl by metis
  show "caseInsensitiveCompare strContentType (normalizeHeaderKey k False) \<longleftrightarrow> normalizeHeaderKey k False = strContentType"
    "caseInsensitiveCompare strContentLength (normalizeHeaderKey k False) \<longleftrightarrow> normalizeHeaderKey k False = strContentLength"
    "caseInsensitiveCompare strConnection (normalizeHeaderKey k False) \<longleftrightarrow> normalizeHeaderKey k False = strConnection"
    "caseInsensitiveCompare strCookie (normalizeHeaderKey k False) \<longleftrightarrow> normalizeHeaderKey k False = strCookie"
    "caseInsensitiveCompare strTransferEncoding (normalizeHeaderKey k False) \<longleftrightarrow> normalizeHeaderKey k False = strTransferEncoding"
    "caseInsensitiveCompare strHost (normalizeHeaderKey k False) \<longleftrightarrow> normalizeHeaderKey k False = strHost"
    "caseInsensitiveCompare strUserAgent (normalizeHeaderKey k False) \<longleftrightarrow> normalizeHeaderKey k False = strUserAgent"
    "caseInsensitiveCompare strServer (normalizeHeaderKey k False) \<longleftrightarrow> normalizeHeaderKey k False = strServer"
    "caseInsensitiveCompare strSetCookie (normalizeHeaderKey k False) \<longleftrightarrow> normalizeHeaderKey k False = strSetCookie"
    "caseInsensitiveCompare strDate (normalizeHeaderKey k False) \<longleftrightarrow> normalizeHeaderKey k False = strDate"
    by (rule *, code_simp, simp)+
qed

section \<open>Properties of setters\<close>

lemma peek_setArg: "nilable (peekArg (setArg h k v False) k) = v"
  using args_store.lookup_update_same [of h k v] by (simp add: nilable_def)

lemma nilable_del: "nilable (peekArg (delAllArgs h k) k) = []"
  using args_store.delete_removes [of h k] by (simp add: nilable_def)

lemma request_names_distinct:
  "strContentType \<noteq> strHost" "strContentType \<noteq> strUserAgent" "strContentType \<noteq> strConnection"
  "strConnection \<noteq> strHost" "strConnection \<noteq> strUserAgent" "strHost \<noteq> strUserAgent"
  "strConnection \<noteq> strContentLength" "strContentType \<noteq> strContentLength" "strHost \<noteq> strContentLength"
  "strUserAgent \<noteq> strContentLength" "strConnection \<noteq> strCookie"
  "strContentLength \<noteq> strCookie" "strContentType \<noteq> strCookie" "strHost \<noteq> strCookie" "strUserAgent \<noteq> strCookie"
  by (simp_all add: str_defs)

lemma setSpecial_generic:
  assumes "\<not> caseInsensitiveCompare strContentType k" "\<not> caseInsensitiveCompare strContentLength k"
    "\<not> caseInsensitiveCompare strConnection k" "\<not> caseInsensitiveCompare strCookie k"
    "\<not> caseInsensitiveCompare strTransferEncoding k" "\<not> caseInsensitiveCompare strHost k"
    "\<not> caseInsensitiveCompare strUserAgent k"
  shows "RequestHeader_setSpecialHeader h k v = (False, h)"
  using assms by (simp add: RequestHeader_setSpecialHeader_def Let_def)

lemma compare_names_or: "k \<noteq> [] \<Longrightarrow> caseInsensitiveCompare s k \<Longrightarrow> hd k OR 32 = hd s OR 32"
  by (cases k; cases s) (auto simp: caseInsensitiveCompare_def)

lemma setSpecial_names:
  "RequestHeader_setSpecialHeader h strContentType v = (True, h\<lparr>rq_contentType := v\<rparr>)"
  "RequestHeader_setSpecialHeader h strHost v = (True, h\<lparr>rq_host := v\<rparr>)"
  "RequestHeader_setSpecialHeader h strUserAgent v = (True, h\<lparr>rq_userAgent := v\<rparr>)"
  "RequestHeader_setSpecialHeader h strConnection v =
     (if strClose = v then (True, RequestHeader_SetConnectionClose h)
      else (let h = RequestHeader_ResetConnectionClose h
            in (True, h\<lparr>rq_h := setArg (rq_h h) strConnection v argsHasValue\<rparr>)))"
  by (simp_all add: RequestHeader_setSpecialHeader_def RequestHeader_SetContentType_def RequestHeader_SetHost_def
      RequestHeader_SetUserAgent_def caseInsensitiveCompare_def str_defs Let_def)

lemmas header_name_defs = HeaderHost_def HeaderContentType_def HeaderUserAgent_def HeaderConnection_def
  HeaderContentLength_def HeaderCookie_def

lemma header_names_str:
  "HeaderHost = strHost" "HeaderContentType = strContentType" "HeaderUserAgent = strUserAgent"
  "HeaderConnection = strConnection" "HeaderContentLength = strContentLength" "HeaderCookie = strCookie"
  by (simp_all add: str_defs)

text \<open>
  C27. What \<open>Set\<close> stores under a name, \<open>Peek\<close> returns under every spelling of the name, with
  line breaks in the value blanked; this holds for the fields with a slot of their own and for
  all others, except the three names \<open>Set\<close> manages itself. \<open>Del\<close> removes every trace of a
  name.
\<close>

theorem RequestHeader_set_peek_del:
  assumes "\<not> rq_disableNormalizing h" and "printable_key k" and "normalizeHeaderKey k' False = normalizeHeaderKey k False"
  shows "(normalizeHeaderKey k False \<notin> {strContentLength, strTransferEncoding, strCookie} \<longrightarrow>
      fst (RequestHeader_Peek (RequestHeader_Set h k v) k') = removeNewLines v)
    \<and> fst (RequestHeader_Peek (RequestHeader_Del h k) k') = []"
proof -
  let ?k = "normalizeHeaderKey k False" and ?v = "removeNewLines v"
  note kn = known_names [OF assms(2)]
  let ?h = "h\<lparr>rq_bufKV := initHeaderKV (rq_bufKV h) k v False\<rparr>"
  have set: "RequestHeader_Set h k v = RequestHeader_SetCanonical ?h ?k ?v"
    using assms(1) by (simp add: RequestHeader_Set_def initHeaderKV_def getHeaderKeyBytes_def)
  have peek: "fst (RequestHeader_Peek g k') = RequestHeader_peek g ?k" if "\<not> rq_disableNormalizing g" for g
    using that assms(3)
    by (simp add: RequestHeader_Peek_def RequestHeader_peek_def getHeaderKeyBytes_def RequestHeader_ContentType_def)
  have part1: "fst (RequestHeader_Peek (RequestHeader_Set h k v) k') = ?v"
    if "?k \<notin> {strContentLength, strTransferEncoding, strCookie}"
  proof -
    consider "?k = strContentType" | "?k = strHost" | "?k = strUserAgent" | "?k = strConnection"
      | "?k \<notin> {strContentType, strHost, strUserAgent, strConnection}" by blast
    then have "RequestHeader_peek (RequestHeader_SetCanonical ?h ?k ?v) ?k = ?v
        \<and> \<not> rq_disableNormalizing (RequestHeader_SetCanonical ?h ?k ?v)"
    proof cases
      case 4
      then show ?thesis using assms(1) request_names_distinct
        by (auto simp: RequestHeader_SetCanonical_def setSpecial_names RequestHeader_peek_def header_names_str
            RequestHeader_SetConnectionClose_def RequestHeader_ResetConnectionClose_def Let_def peek_setArg)
    next
      case 5
      then have "RequestHeader_setSpecialHeader ?h ?k ?v = (False, ?h)"
        using that kn by (intro setSpecial_generic) auto
      then show ?thesis using assms(1) 5 that
        by (simp add: RequestHeader_SetCanonical_def RequestHeader_peek_def header_names_str peek_setArg)
    qed (use assms(1) request_names_distinct in \<open>simp_all add: RequestHeader_SetCanonical_def setSpecial_names
        RequestHeader_peek_def header_names_str RequestHeader_ContentType_def\<close>)
    then show ?thesis by (simp add: set peek)
  qed
  have del: "RequestHeader_Del h k =
      RequestHeader_del (h\<lparr>rq_bufKV := getHeaderKeyBytes (rq_bufKV h) k False\<rparr>) ?k"
    using assms(1) by (simp add: RequestHeader_Del_def getHeaderKeyBytes_def)
  have "fst (RequestHeader_Peek (RequestHeader_Del h k) k') = []"
    using assms(1) request_names_distinct
    by (simp add: del peek RequestHeader_del_def RequestHeader_peek_def RequestHeader_ContentType_def
        nilable_del Let_def header_names_str)
  with part1 show ?thesis by blast
qed

theorem RequestHeader_set_peek_del_witness:
  "fst (RequestHeader_Peek (RequestHeader_Set example_request (bytes_of ''hOST'') (bytes_of ''a'')) (bytes_of ''host'')) =
     bytes_of ''a''"
proof -
  have 1: "printable_key (bytes_of ''hOST'')" by code_simp
  have 2: "removeNewLines (bytes_of ''a'') = bytes_of ''a''" by code_simp
  have 3: "normalizeHeaderKey (bytes_of ''host'') False = normalizeHeaderKey (bytes_of ''hOST'') False" by code_simp
  have 4: "normalizeHeaderKey (bytes_of ''hOST'') False \<notin> {strContentLength, strTransferEncoding, strCookie}"
    by code_simp
  have 5: "\<not> rq_disableNormalizing example_request" by (simp add: example_request_def)
  show ?thesis
    using RequestHeader_set_peek_del [OF 5 1 3, of "bytes_of ''a''"] 2 4 by argo
qed

text \<open>Chunked framing, once seen, stays.\<close>

lemma parseHeader_chunked_stays:
  "rq_contentLength h = -1 \<Longrightarrow> rq_contentLength (fst (RequestHeader_parseHeader (h, err) k v)) = -1"
  by (auto simp: RequestHeader_parseHeader_def Let_def split: prod.splits option.splits)

lemma parseHeader_error_stays:
  "err \<noteq> None \<Longrightarrow> snd (RequestHeader_parseHeader (h, err) k v) \<noteq> None"
  by (auto simp: RequestHeader_parseHeader_def Let_def split: prod.splits option.splits)

lemma parseHeader_chunked:
  assumes "caseInsensitiveCompare k strTransferEncoding" and "v \<noteq> strIdentity"
  shows "snd (RequestHeader_parseHeader (h, err) k v) \<noteq> None
    \<or> rq_contentLength (fst (RequestHeader_parseHeader (h, err) k v)) = -1"
proof -
  obtain c k' where k: "k = c # k'" using assms(1) by (cases k) (auto simp: caseInsensitiveCompare_def str_defs)
  then have "c OR 32 = ch CHR ''t''"
    using assms(1) by (auto simp: caseInsensitiveCompare_def str_defs)
  moreover have "ch CHR ''t'' \<noteq> ch CHR ''h''" "ch CHR ''t'' \<noteq> ch CHR ''u''" "ch CHR ''t'' \<noteq> ch CHR ''c''" by simp_all
  ultimately show ?thesis
    using assms k by (auto simp: RequestHeader_parseHeader_def Let_def simp del: IndexByte.simps)
qed

lemma steps_chunked_stays:
  "rq_contentLength (fst he) = -1 \<Longrightarrow> rq_contentLength (fst (foldl (header_step d) he kvs)) = -1"
proof (induction kvs arbitrary: he)
  case (Cons kv kvs)
  then have "rq_contentLength (fst (header_step d he kv)) = -1"
    using parseHeader_chunked_stays [of "fst he" "snd he"] by (simp add: header_step_def)
  with Cons.IH show ?case by simp
qed simp

lemma steps_error_stays: "snd he \<noteq> None \<Longrightarrow> snd (foldl (header_step d) he kvs) \<noteq> None"
proof (induction kvs arbitrary: he)
  case (Cons kv kvs)
  then have "snd (header_step d he kv) \<noteq> None"
    using parseHeader_error_stays [of "snd he" "fst he"] by (simp add: header_step_def)
  with Cons.IH show ?case by simp
qed simp

lemma steps_chunked:
  assumes "(k, v) \<in> set kvs" and "caseInsensitiveCompare k strTransferEncoding" and "v \<noteq> strIdentity"
  shows "snd (foldl (header_step d) he kvs) \<noteq> None \<or> rq_contentLength (fst (foldl (header_step d) he kvs)) = -1"
proof -
  obtain a b where kvs: "kvs = a @ (k, v) # b" using assms(1) by (meson split_list)
  let ?he = "foldl (header_step d) he a"
  have "caseInsensitiveCompare (normalizeHeaderKey k d) strTransferEncoding"
    using assms(2) normalizeHeaderKey_compare by simp
  then have "snd (header_step d ?he (k, v)) \<noteq> None \<or> rq_contentLength (fst (header_step d ?he (k, v))) = -1"
    using parseHeader_chunked [OF _ assms(3), of _ "fst ?he" "snd ?he"] by (simp add: header_step_def)
  then show ?thesis
    unfolding kvs foldl_append foldl_Cons using steps_chunked_stays steps_error_stays by blast
qed

text \<open>
  C16. In a request, Transfer-Encoding decides the framing of the body: when one of the header
  fields is a Transfer-Encoding other than identity, no Content-Length field before or after it
  has any effect. A request with both is read as chunked and forwarded without a length, so two
  parsers cannot disagree about where its body ends.
\<close>

theorem request_transfer_encoding_wins:
  assumes "(k, v) \<in> set kvs" and "caseInsensitiveCompare k strTransferEncoding" and "v \<noteq> strIdentity"
    and "\<And>kv. kv \<in> set kvs \<Longrightarrow> header_field_ok kv"
    and "RequestHeader_parseHeaders h (concat (map header_line kvs) @ strCRLF @ body) = (g, n, None, buf)"
  shows "rq_contentLength g = -1 \<and> rq_contentLengthBytes g = []"
proof -
  let ?d = "rq_disableNormalizing h" and ?h = "h\<lparr>rq_contentLength := -2\<rparr>"
  obtain sc where sc: "header_loop RequestHeader_parseHeader
      (headerScanner_init (concat (map header_line kvs) @ 13 # 10 # body) ?d) (?h, None) =
      (foldl (header_step ?d) (?h, None) kvs, sc)"
    using header_loop_init [OF assms(4), of kvs RequestHeader_parseHeader body ?d "(?h, None)"]
    unfolding header_step_eq by blast
  obtain g1 e1 where g1: "foldl (header_step ?d) (?h, None) kvs = (g1, e1)"
    by (cases "foldl (header_step ?d) (?h, None) kvs") auto
  have "e1 \<noteq> None \<or> rq_contentLength g1 = -1"
    using steps_chunked [OF assms(1-3), of ?d "(?h, None)"] g1 by simp
  moreover have "e1 = None"
    using assms(5) sc g1 by (auto simp: RequestHeader_parseHeaders_def strCRLF_def Let_def split: if_splits)
  ultimately show ?thesis
    using assms(5) sc g1 by (auto simp: RequestHeader_parseHeaders_def strCRLF_def Let_def split: if_splits)
qed

theorem request_transfer_encoding_wins_witness:
  "\<exists>g n buf. RequestHeader_parseHeaders example_request
      (concat (map header_line [(strTransferEncoding, strChunked), (strContentLength, bytes_of ''5'')]) @ strCRLF @ []) =
      (g, n, None, buf) \<and> rq_contentLength g = -1"
proof -
  let ?kvs = "[(strTransferEncoding, strChunked), (strContentLength, bytes_of ''5'')]"
  let ?p = "RequestHeader_parseHeaders example_request (concat (map header_line ?kvs) @ strCRLF @ [])"
  have ok: "header_field_ok kv" if "kv \<in> set ?kvs" for kv
    using that by (auto simp: header_field_ok_def header_key_ok_def header_value_ok_def not_folded_def str_defs)
  have "fst (snd (snd ?p)) = None" by code_simp
  then obtain g n buf where p: "?p = (g, n, None, buf)" by (cases ?p) auto
  have "rq_contentLength g = -1 \<and> rq_contentLengthBytes g = []"
  proof (rule request_transfer_encoding_wins [OF _ _ _ ok p])
    show "(strTransferEncoding, strChunked) \<in> set ?kvs" by simp
    show "caseInsensitiveCompare strTransferEncoding strTransferEncoding" by (rule caseInsensitiveCompare_refl)
    show "strChunked \<noteq> strIdentity" by (simp add: str_defs)
  qed
  with p show ?thesis by blast
qed

end
