(* ===== verification/Status.thy ===== *)
theory Status
  imports Bytesconv
begin

text \<open>
  \<^verbatim>\<open>status.go\<close>: the status codes, their messages and the status lines of responses. The table
  \<open>statusLines\<close> filled at start-up is the function that computes its entries.
\<close>


section \<open>Status codes\<close>

definition StatusContinue :: int where [str_defs]:
  "StatusContinue = 100"

definition StatusSwitchingProtocols :: int where [str_defs]:
  "StatusSwitchingProtocols = 101"

definition StatusProcessing :: int where [str_defs]:
  "StatusProcessing = 102"

definition StatusEarlyHints :: int where [str_defs]:
  "StatusEarlyHints = 103"

definition StatusOK :: int where [str_defs]:
  "StatusOK = 200"

definition StatusCreated :: int where [str_defs]:
  "StatusCreated = 201"

definition StatusAccepted :: int where [str_defs]:
  "StatusAccepted = 202"

definition StatusNonAuthoritativeInfo :: int where [str_defs]:
  "StatusNonAuthoritativeInfo = 203"

definition StatusNoContent :: int where [str_defs]:
  "StatusNoContent = 204"

definition StatusResetContent :: int where [str_defs]:
  "StatusResetContent = 205"

definition StatusPartialContent :: int where [str_defs]:
  "StatusPartialContent = 206"

definition StatusMultiStatus :: int where [str_defs]:
  "StatusMultiStatus = 207"

definition StatusAlreadyReported :: int where [str_defs]:
  "StatusAlreadyReported = 208"

definition StatusIMUsed :: int where [str_defs]:
  "StatusIMUsed = 226"

definition StatusMultipleChoices :: int where [str_defs]:
  "StatusMultipleChoices = 300"

definition StatusMovedPermanently :: int where [str_defs]:
  "StatusMovedPermanently = 301"

definition StatusFound :: int where [str_defs]:
  "StatusFound = 302"

definition StatusSeeOther :: int where [str_defs]:
  "StatusSeeOther = 303"

definition StatusNotModified :: int where [str_defs]:
  "StatusNotModified = 304"

definition StatusUseProxy :: int where [str_defs]:
  "StatusUseProxy = 305"

definition StatusTemporaryRedirect :: int where [str_defs]:
  "StatusTemporaryRedirect = 307"

definition StatusPermanentRedirect :: int where [str_defs]:
  "StatusPermanentRedirect = 308"

definition StatusBadRequest :: int where [str_defs]:
  "StatusBadRequest = 400"

definition StatusUnauthorized :: int where [str_defs]:
  "StatusUnauthorized = 401"

definition StatusPaymentRequired :: int where [str_defs]:
  "StatusPaymentRequired = 402"

definition StatusForbidden :: int where [str_defs]:
  "StatusForbidden = 403"

definition StatusNotFound :: int where [str_defs]:
  "StatusNotFound = 404"

definition StatusMethodNotAllowed :: int where [str_defs]:
  "StatusMethodNotAllowed = 405"

definition StatusNotAcceptable :: int where [str_defs]:
  "StatusNotAcceptable = 406"

definition StatusProxyAuthRequired :: int where [str_defs]:
  "StatusProxyAuthRequired = 407"

definition StatusRequestTimeout :: int where [str_defs]:
  "StatusRequestTimeout = 408"

definition StatusConflict :: int where [str_defs]:
  "StatusConflict = 409"

definition StatusGone :: int where [str_defs]:
  "StatusGone = 410"

definition StatusLengthRequired :: int where [str_defs]:
  "StatusLengthRequired = 411"

definition StatusPreconditionFailed :: int where [str_defs]:
  "StatusPreconditionFailed = 412"

definition StatusRequestEntityTooLarge :: int where [str_defs]:
  "StatusRequestEntityTooLarge = 413"

definition StatusRequestURITooLong :: int where [str_defs]:
  "StatusRequestURITooLong = 414"

definition StatusUnsupportedMediaType :: int where [str_defs]:
  "StatusUnsupportedMediaType = 415"

definition StatusRequestedRangeNotSatisfiable :: int where [str_defs]:
  "StatusRequestedRangeNotSatisfiable = 416"

definition StatusExpectationFailed :: int where [str_defs]:
  "StatusExpectationFailed = 417"

definition StatusTeapot :: int where [str_defs]:
  "StatusTeapot = 418"

definition StatusMisdirectedRequest :: int where [str_defs]:
  "StatusMisdirectedRequest = 421"

definition StatusUnprocessableEntity :: int where [str_defs]:
  "StatusUnprocessableEntity = 422"

definition StatusLocked :: int where [str_defs]:
  "StatusLocked = 423"

definition StatusFailedDependency :: int where [str_defs]:
  "StatusFailedDependency = 424"

definition StatusUpgradeRequired :: int where [str_defs]:
  "StatusUpgradeRequired = 426"

definition StatusPreconditionRequired :: int where [str_defs]:
  "StatusPreconditionRequired = 428"

definition StatusTooManyRequests :: int where [str_defs]:
  "StatusTooManyRequests = 429"

definition StatusRequestHeaderFieldsTooLarge :: int where [str_defs]:
  "StatusRequestHeaderFieldsTooLarge = 431"

definition StatusUnavailableForLegalReasons :: int where [str_defs]:
  "StatusUnavailableForLegalReasons = 451"

definition StatusInternalServerError :: int where [str_defs]:
  "StatusInternalServerError = 500"

definition StatusNotImplemented :: int where [str_defs]:
  "StatusNotImplemented = 501"

definition StatusBadGateway :: int where [str_defs]:
  "StatusBadGateway = 502"

definition StatusServiceUnavailable :: int where [str_defs]:
  "StatusServiceUnavailable = 503"

definition StatusGatewayTimeout :: int where [str_defs]:
  "StatusGatewayTimeout = 504"

definition StatusHTTPVersionNotSupported :: int where [str_defs]:
  "StatusHTTPVersionNotSupported = 505"

definition StatusVariantAlsoNegotiates :: int where [str_defs]:
  "StatusVariantAlsoNegotiates = 506"

definition StatusInsufficientStorage :: int where [str_defs]:
  "StatusInsufficientStorage = 507"

definition StatusLoopDetected :: int where [str_defs]:
  "StatusLoopDetected = 508"

definition StatusNotExtended :: int where [str_defs]:
  "StatusNotExtended = 510"

definition StatusNetworkAuthenticationRequired :: int where [str_defs]:
  "StatusNetworkAuthenticationRequired = 511"

definition statusMessageMin :: int where [str_defs]:
  "statusMessageMin = 100"

definition statusMessageMax :: int where [str_defs]:
  "statusMessageMax = 511"


section \<open>Messages\<close>

definition statusMessages :: "(int \<times> bytes) list" where
  "statusMessages =
     [(StatusContinue, bytes_of ''Continue''),
      (StatusSwitchingProtocols, bytes_of ''Switching Protocols''),
      (StatusProcessing, bytes_of ''Processing''),
      (StatusEarlyHints, bytes_of ''Early Hints''),
      (StatusOK, bytes_of ''OK''),
      (StatusCreated, bytes_of ''Created''),
      (StatusAccepted, bytes_of ''Accepted''),
      (StatusNonAuthoritativeInfo, bytes_of ''Non-Authoritative Information''),
      (StatusNoContent, bytes_of ''No Content''),
      (StatusResetContent, bytes_of ''Reset Content''),
      (StatusPartialContent, bytes_of ''Partial Content''),
      (StatusMultiStatus, bytes_of ''Multi-Status''),
      (StatusAlreadyReported, bytes_of ''Already Reported''),
      (StatusIMUsed, bytes_of ''IM Used''),
      (StatusMultipleChoices, bytes_of ''Multiple Choices''),
      (StatusMovedPermanently, bytes_of ''Moved Permanently''),
      (StatusFound, bytes_of ''Found''),
      (StatusSeeOther, bytes_of ''See Other''),
      (StatusNotModified, bytes_of ''Not Modified''),
      (StatusUseProxy, bytes_of ''Use Proxy''),
      (StatusTemporaryRedirect, bytes_of ''Temporary Redirect''),
      (StatusPermanentRedirect, bytes_of ''Permanent Redirect''),
      (StatusBadRequest, bytes_of ''Bad Request''),
      (StatusUnauthorized, bytes_of ''Unauthorized''),
      (StatusPaymentRequired, bytes_of ''Payment Required''),
      (StatusForbidden, bytes_of ''Forbidden''),
      (StatusNotFound, bytes_of ''Not Found''),
      (StatusMethodNotAllowed, bytes_of ''Method Not Allowed''),
      (StatusNotAcceptable, bytes_of ''Not Acceptable''),
      (StatusProxyAuthRequired, bytes_of ''Proxy Authentication Required''),
      (StatusRequestTimeout, bytes_of ''Request Timeout''),
      (StatusConflict, bytes_of ''Conflict''),
      (StatusGone, bytes_of ''Gone''),
      (StatusLengthRequired, bytes_of ''Length Required''),
      (StatusPreconditionFailed, bytes_of ''Precondition Failed''),
      (StatusRequestEntityTooLarge, bytes_of ''Request Entity Too Large''),
      (StatusRequestURITooLong, bytes_of ''Request URI Too Long''),
      (StatusUnsupportedMediaType, bytes_of ''Unsupported Media Type''),
      (StatusRequestedRangeNotSatisfiable, bytes_of ''Requested Range Not Satisfiable''),
      (StatusExpectationFailed, bytes_of ''Expectation Failed''),
      (StatusTeapot, bytes_of ''I'' @ [39] @ bytes_of ''m a teapot''),
      (StatusMisdirectedRequest, bytes_of ''Misdirected Request''),
      (StatusUnprocessableEntity, bytes_of ''Unprocessable Entity''),
      (StatusLocked, bytes_of ''Locked''),
      (StatusFailedDependency, bytes_of ''Failed Dependency''),
      (StatusUpgradeRequired, bytes_of ''Upgrade Required''),
      (StatusPreconditionRequired, bytes_of ''Precondition Required''),
      (StatusTooManyRequests, bytes_of ''Too Many Requests''),
      (StatusRequestHeaderFieldsTooLarge, bytes_of ''Request Header Fields Too Large''),
      (StatusUnavailableForLegalReasons, bytes_of ''Unavailable For Legal Reasons''),
      (StatusInternalServerError, bytes_of ''Internal Server Error''),
      (StatusNotImplemented, bytes_of ''Not Implemented''),
      (StatusBadGateway, bytes_of ''Bad Gateway''),
      (StatusServiceUnavailable, bytes_of ''Service Unavailable''),
      (StatusGatewayTimeout, bytes_of ''Gateway Timeout''),
      (StatusHTTPVersionNotSupported, bytes_of ''HTTP Version Not Supported''),
      (StatusVariantAlsoNegotiates, bytes_of ''Variant Also Negotiates''),
      (StatusInsufficientStorage, bytes_of ''Insufficient Storage''),
      (StatusLoopDetected, bytes_of ''Loop Detected''),
      (StatusNotExtended, bytes_of ''Not Extended''),
      (StatusNetworkAuthenticationRequired, bytes_of ''Network Authentication Required'')]"

definition unknownStatus :: bytes where [str_defs]:
  "unknownStatus = bytes_of ''Unknown Status Code''"

text \<open>A code without an entry has the empty string in the table.\<close>

definition StatusMessage :: "int \<Rightarrow> bytes" where
  "StatusMessage statusCode =
     (if statusCode < statusMessageMin \<or> statusCode > statusMessageMax then unknownStatus
      else case map_of statusMessages statusCode of Some s \<Rightarrow> s | None \<Rightarrow> unknownStatus)"

text \<open>\<^verbatim>\<open>fmt.Sprintf("%d")\<close>\<close>

definition sprint_int :: "int \<Rightarrow> bytes" where
  "sprint_int n = (if n < 0 then ch CHR ''-'' # AppendUint_loop (nat (- n)) [] else AppendUint_loop (nat n) [])"

definition invalidStatusLine :: "int \<Rightarrow> bytes" where
  "invalidStatusLine statusCode =
     bytes_of ''HTTP/1.1 '' @ sprint_int statusCode @ [ch CHR '' ''] @ StatusMessage statusCode @ [rChar, nChar]"

definition statusLines :: "int \<Rightarrow> bytes" where
  "statusLines i =
     bytes_of ''HTTP/1.1 '' @ sprint_int i @ [ch CHR '' ''] @ StatusMessage i @ [rChar, nChar]"

definition statusLine :: "int \<Rightarrow> bytes" where
  "statusLine statusCode =
     (if statusCode < 0 \<or> statusCode > statusMessageMax then invalidStatusLine statusCode
      else statusLines statusCode)"

end
