(* ===== verification/ResponseHeader.thy ===== *)
theory ResponseHeader
  imports RequestHeader Status
begin

text \<open>
  \<open>ResponseHeader\<close> of \<^verbatim>\<open>header.go\<close>: the struct, its setters and getters, cookies, printing and
  parsing, on the same scanner as request headers. The Date line comes from the variable
  \<open>serverDate\<close>, which a goroutine refreshes every second: its current value is an argument of
  the printer.
\<close>


section \<open>The struct\<close>

record ResponseHeader =
  rs_disableNormalizing :: bool
  rs_noHTTP11 :: bool
  rs_connectionClose :: bool
  rs_noDefaultContentType :: bool
  rs_noDefaultDate :: bool
  rs_statusCode :: int
  rs_contentLength :: int
  rs_contentLengthBytes :: bytes
  rs_secureErrorLogMessage :: bool
  rs_contentType :: bytes
  rs_server :: bytes
  rs_h :: "argsKV slice"
  rs_bufKV :: argsKV
  rs_cookies :: "argsKV slice"

definition ResponseHeader_SetNoDefaultContentType :: "ResponseHeader \<Rightarrow> bool \<Rightarrow> ResponseHeader" where
  "ResponseHeader_SetNoDefaultContentType h noDefaultContentType =
     h\<lparr>rs_noDefaultContentType := noDefaultContentType\<rparr>"

definition ResponseHeader_resetSkipNormalize :: "ResponseHeader \<Rightarrow> ResponseHeader" where
  "ResponseHeader_resetSkipNormalize h =
     h\<lparr>rs_noHTTP11 := False, rs_connectionClose := False, rs_statusCode := 0, rs_contentLength := 0,
       rs_contentLengthBytes := [], rs_contentType := [], rs_server := [], rs_h := slice_reset (rs_h h),
       rs_cookies := slice_reset (rs_cookies h)\<rparr>"

definition ResponseHeader_Reset :: "ResponseHeader \<Rightarrow> ResponseHeader" where
  "ResponseHeader_Reset h =
     (let h = h\<lparr>rs_disableNormalizing := False\<rparr>;
          h = ResponseHeader_SetNoDefaultContentType h False;
          h = h\<lparr>rs_noDefaultDate := False\<rparr>
      in ResponseHeader_resetSkipNormalize h)"

definition ResponseHeader_CopyTo :: "ResponseHeader \<Rightarrow> ResponseHeader \<Rightarrow> ResponseHeader" where
  "ResponseHeader_CopyTo h dst =
     (let dst = ResponseHeader_Reset dst in
      dst\<lparr>rs_disableNormalizing := rs_disableNormalizing h, rs_noHTTP11 := rs_noHTTP11 h,
          rs_connectionClose := rs_connectionClose h,
          rs_noDefaultContentType := rs_noDefaultContentType h, rs_noDefaultDate := rs_noDefaultDate h,
          rs_statusCode := rs_statusCode h, rs_contentLength := rs_contentLength h,
          rs_contentLengthBytes := rs_contentLengthBytes h, rs_contentType := rs_contentType h,
          rs_server := rs_server h, rs_h := copyArgs (rs_h dst) (rs_h h),
          rs_cookies := copyArgs (rs_cookies dst) (rs_cookies h)\<rparr>)"

definition ResponseHeader_DisableNormalizing :: "ResponseHeader \<Rightarrow> ResponseHeader" where
  "ResponseHeader_DisableNormalizing h = h\<lparr>rs_disableNormalizing := True\<rparr>"

definition ResponseHeader_EnableNormalizing :: "ResponseHeader \<Rightarrow> ResponseHeader" where
  "ResponseHeader_EnableNormalizing h = h\<lparr>rs_disableNormalizing := False\<rparr>"

definition ResponseHeader_IsHTTP11 :: "ResponseHeader \<Rightarrow> bool" where
  "ResponseHeader_IsHTTP11 h \<longleftrightarrow> \<not> rs_noHTTP11 h"


section \<open>Fields with their own slot\<close>

definition ResponseHeader_StatusCode :: "ResponseHeader \<Rightarrow> int" where
  "ResponseHeader_StatusCode h = (if rs_statusCode h = 0 then StatusOK else rs_statusCode h)"

definition ResponseHeader_SetStatusCode :: "ResponseHeader \<Rightarrow> int \<Rightarrow> ResponseHeader" where
  "ResponseHeader_SetStatusCode h statusCode = h\<lparr>rs_statusCode := statusCode\<rparr>"

definition ResponseHeader_ConnectionClose :: "ResponseHeader \<Rightarrow> bool" where
  "ResponseHeader_ConnectionClose h = rs_connectionClose h"

definition ResponseHeader_SetConnectionClose :: "ResponseHeader \<Rightarrow> ResponseHeader" where
  "ResponseHeader_SetConnectionClose h = h\<lparr>rs_connectionClose := True\<rparr>"

definition ResponseHeader_ResetConnectionClose :: "ResponseHeader \<Rightarrow> ResponseHeader" where
  "ResponseHeader_ResetConnectionClose h =
     (if rs_connectionClose h
      then h\<lparr>rs_connectionClose := False, rs_h := delAllArgs (rs_h h) strConnection\<rparr> else h)"

definition ResponseHeader_mustSkipContentLength :: "ResponseHeader \<Rightarrow> bool" where
  "ResponseHeader_mustSkipContentLength h =
     (let statusCode = ResponseHeader_StatusCode h in
      if statusCode < 100 \<or> statusCode = StatusOK then False
      else statusCode = StatusNotModified \<or> statusCode = StatusNoContent \<or> statusCode < 200)"

definition ResponseHeader_ContentLength :: "ResponseHeader \<Rightarrow> int" where
  "ResponseHeader_ContentLength h = rs_contentLength h"

definition ResponseHeader_SetContentLength :: "ResponseHeader \<Rightarrow> int \<Rightarrow> ResponseHeader" where
  "ResponseHeader_SetContentLength h contentLength =
     (if ResponseHeader_mustSkipContentLength h then h
      else
        (let h = h\<lparr>rs_contentLength := contentLength\<rparr> in
         if contentLength \<ge> 0 then
           h\<lparr>rs_contentLengthBytes := the (AppendUint [] contentLength),
             rs_h := delAllArgs (rs_h h) strTransferEncoding\<rparr>
         else
           (let h = h\<lparr>rs_contentLengthBytes := []\<rparr>;
                value = strChunked;
                (h, value) = (if contentLength = -2 then (ResponseHeader_SetConnectionClose h, strIdentity)
                              else (h, value))
            in h\<lparr>rs_h := setArg (rs_h h) strTransferEncoding value argsHasValue\<rparr>)))"

definition ResponseHeader_ContentType :: "ResponseHeader \<Rightarrow> bytes" where
  "ResponseHeader_ContentType h =
     (if \<not> rs_noDefaultContentType h \<and> length (rs_contentType h) = 0 then defaultContentType
      else rs_contentType h)"

definition ResponseHeader_isCompressibleContentType :: "ResponseHeader \<Rightarrow> bool" where
  "ResponseHeader_isCompressibleContentType h =
     (let contentType = ResponseHeader_ContentType h
      in prefix strTextSlash contentType \<or> prefix strApplicationSlash contentType)"

definition ResponseHeader_SetContentType :: "ResponseHeader \<Rightarrow> bytes \<Rightarrow> ResponseHeader" where
  "ResponseHeader_SetContentType h contentType = h\<lparr>rs_contentType := contentType\<rparr>"

definition ResponseHeader_Server :: "ResponseHeader \<Rightarrow> bytes" where
  "ResponseHeader_Server h = rs_server h"

definition ResponseHeader_SetServer :: "ResponseHeader \<Rightarrow> bytes \<Rightarrow> ResponseHeader" where
  "ResponseHeader_SetServer h server = h\<lparr>rs_server := server\<rparr>"


section \<open>Generic setters and getters\<close>

text \<open>\<open>allocArg\<close> and the assignments to the new entry, for a Set-Cookie value; the entry's flag is left alone.\<close>

definition add_set_cookie :: "argsKV slice \<Rightarrow> bytes \<Rightarrow> argsKV slice" where
  "add_set_cookie cookies value =
     (case allocArg cookies of
        (cookies, i) \<Rightarrow> slice_update cookies i (\<lambda>kv. kv\<lparr>kv_key := getCookieKey value, kv_value := value\<rparr>))"

definition ResponseHeader_setSpecialHeader :: "ResponseHeader \<Rightarrow> bytes \<Rightarrow> bytes \<Rightarrow> bool \<times> ResponseHeader" where
  "ResponseHeader_setSpecialHeader h key value =
     (if length key = 0 then (False, h)
      else
        (let k = hd key OR 0x20 in
         if k = ch CHR ''c'' then
           (if caseInsensitiveCompare strContentType key then (True, ResponseHeader_SetContentType h value)
            else if caseInsensitiveCompare strContentLength key then
              (case parseContentLength value of
                 (contentLength, None) \<Rightarrow>
                   (True, h\<lparr>rs_contentLength := contentLength, rs_contentLengthBytes := value\<rparr>)
               | (contentLength, Some err) \<Rightarrow> (True, h))
            else if caseInsensitiveCompare strConnection key then
              (if strClose = value then (True, ResponseHeader_SetConnectionClose h)
               else
                 (let h = ResponseHeader_ResetConnectionClose h
                  in (True, h\<lparr>rs_h := setArg (rs_h h) key value argsHasValue\<rparr>)))
            else (False, h))
         else if k = ch CHR ''s'' then
           (if caseInsensitiveCompare strServer key then (True, ResponseHeader_SetServer h value)
            else if caseInsensitiveCompare strSetCookie key then
              (True, h\<lparr>rs_cookies := add_set_cookie (rs_cookies h) value\<rparr>)
            else (False, h))
         else if k = ch CHR ''t'' then
           (if caseInsensitiveCompare strTransferEncoding key then (True, h) else (False, h))
         else if k = ch CHR ''d'' then
           (if caseInsensitiveCompare strDate key then (True, h) else (False, h))
         else (False, h)))"

definition ResponseHeader_SetCanonical :: "ResponseHeader \<Rightarrow> bytes \<Rightarrow> bytes \<Rightarrow> ResponseHeader" where
  "ResponseHeader_SetCanonical h key value =
     (case ResponseHeader_setSpecialHeader h key value of
        (True, h) \<Rightarrow> h
      | (False, h) \<Rightarrow> h\<lparr>rs_h := setArg (rs_h h) key value argsHasValue\<rparr>)"

definition ResponseHeader_Set :: "ResponseHeader \<Rightarrow> bytes \<Rightarrow> bytes \<Rightarrow> ResponseHeader" where
  "ResponseHeader_Set h key value =
     (let h = h\<lparr>rs_bufKV := initHeaderKV (rs_bufKV h) key value (rs_disableNormalizing h)\<rparr>
      in ResponseHeader_SetCanonical h (kv_key (rs_bufKV h)) (kv_value (rs_bufKV h)))"

definition ResponseHeader_SetBytesKV :: "ResponseHeader \<Rightarrow> bytes \<Rightarrow> bytes \<Rightarrow> ResponseHeader" where
  "ResponseHeader_SetBytesKV h key value =
     (let h = h\<lparr>rs_bufKV := (rs_bufKV h)\<lparr>kv_key := normalizeHeaderKey key (rs_disableNormalizing h)\<rparr>\<rparr>
      in ResponseHeader_SetCanonical h (kv_key (rs_bufKV h)) value)"

definition ResponseHeader_SetBytesK :: "ResponseHeader \<Rightarrow> bytes \<Rightarrow> bytes \<Rightarrow> ResponseHeader" where
  "ResponseHeader_SetBytesK h key value =
     (let h = h\<lparr>rs_bufKV := (rs_bufKV h)\<lparr>kv_value := value\<rparr>\<rparr>
      in ResponseHeader_SetBytesKV h key (kv_value (rs_bufKV h)))"

definition ResponseHeader_SetBytesV :: "ResponseHeader \<Rightarrow> bytes \<Rightarrow> bytes \<Rightarrow> ResponseHeader" where
  "ResponseHeader_SetBytesV h key value =
     (let h = h\<lparr>rs_bufKV := getHeaderKeyBytes (rs_bufKV h) key (rs_disableNormalizing h)\<rparr>
      in ResponseHeader_SetCanonical h (kv_key (rs_bufKV h)) value)"

definition ResponseHeader_AddBytesKV :: "ResponseHeader \<Rightarrow> bytes \<Rightarrow> bytes \<Rightarrow> ResponseHeader" where
  "ResponseHeader_AddBytesKV h key value =
     (case ResponseHeader_setSpecialHeader h key value of
        (True, h) \<Rightarrow> h
      | (False, h) \<Rightarrow>
          (let h = h\<lparr>rs_bufKV := getHeaderKeyBytes (rs_bufKV h) key (rs_disableNormalizing h)\<rparr>
           in h\<lparr>rs_h := appendArg (rs_h h) (kv_key (rs_bufKV h)) value argsHasValue\<rparr>))"

definition ResponseHeader_Add :: "ResponseHeader \<Rightarrow> bytes \<Rightarrow> bytes \<Rightarrow> ResponseHeader" where
  "ResponseHeader_Add h key value = ResponseHeader_AddBytesKV h key value"

definition ResponseHeader_del :: "ResponseHeader \<Rightarrow> bytes \<Rightarrow> ResponseHeader" where
  "ResponseHeader_del h key =
     (let h = (if key = HeaderContentType then h\<lparr>rs_contentType := []\<rparr>
               else if key = HeaderServer then h\<lparr>rs_server := []\<rparr>
               else if key = HeaderSetCookie then h\<lparr>rs_cookies := slice_reset (rs_cookies h)\<rparr>
               else if key = HeaderContentLength then h\<lparr>rs_contentLength := 0, rs_contentLengthBytes := []\<rparr>
               else if key = HeaderConnection then h\<lparr>rs_connectionClose := False\<rparr>
               else h)
      in h\<lparr>rs_h := delAllArgs (rs_h h) key\<rparr>)"

definition ResponseHeader_Del :: "ResponseHeader \<Rightarrow> bytes \<Rightarrow> ResponseHeader" where
  "ResponseHeader_Del h key =
     (let h = h\<lparr>rs_bufKV := getHeaderKeyBytes (rs_bufKV h) key (rs_disableNormalizing h)\<rparr>
      in ResponseHeader_del h (kv_key (rs_bufKV h)))"

definition ResponseHeader_peek :: "ResponseHeader \<Rightarrow> bytes \<Rightarrow> bytes" where
  "ResponseHeader_peek h key =
     (if key = HeaderContentType then ResponseHeader_ContentType h
      else if key = HeaderServer then ResponseHeader_Server h
      else if key = HeaderConnection then
        (if ResponseHeader_ConnectionClose h then strClose else nilable (peekArg (rs_h h) key))
      else if key = HeaderContentLength then rs_contentLengthBytes h
      else if key = HeaderSetCookie then appendResponseCookieBytes [] (live (rs_cookies h))
      else nilable (peekArg (rs_h h) key))"

definition ResponseHeader_Peek :: "ResponseHeader \<Rightarrow> bytes \<Rightarrow> bytes \<times> ResponseHeader" where
  "ResponseHeader_Peek h key =
     (let h = h\<lparr>rs_bufKV := getHeaderKeyBytes (rs_bufKV h) key (rs_disableNormalizing h)\<rparr>
      in (ResponseHeader_peek h (kv_key (rs_bufKV h)), h))"

definition ResponseHeader_ConnectionUpgrade :: "ResponseHeader \<Rightarrow> bool \<times> ResponseHeader" where
  "ResponseHeader_ConnectionUpgrade h =
     (case ResponseHeader_Peek h HeaderConnection of (v, h) \<Rightarrow> (hasHeaderValue v strUpgrade, h))"

text \<open>\<open>SetContentRange\<close> panics, as \<open>AppendUint\<close> does, on a negative number.\<close>

definition ResponseHeader_SetContentRange :: "ResponseHeader \<Rightarrow> int \<Rightarrow> int \<Rightarrow> int \<Rightarrow> ResponseHeader option" where
  "ResponseHeader_SetContentRange h startPos endPos contentLength =
     (case AppendUint (strBytes @ [ch CHR '' '']) startPos of
        None \<Rightarrow> None
      | Some b \<Rightarrow>
          (case AppendUint (b @ [ch CHR ''-'']) endPos of
             None \<Rightarrow> None
           | Some b \<Rightarrow>
               (case AppendUint (b @ [ch CHR ''/'']) contentLength of
                  None \<Rightarrow> None
                | Some b \<Rightarrow>
                    (let h = h\<lparr>rs_bufKV := (rs_bufKV h)\<lparr>kv_value := b\<rparr>\<rparr>
                     in Some (ResponseHeader_SetCanonical h strContentRange (kv_value (rs_bufKV h)))))))"

definition ResponseHeader_SetLastModified :: "'t timelib \<Rightarrow> ResponseHeader \<Rightarrow> 't \<Rightarrow> ResponseHeader" where
  "ResponseHeader_SetLastModified tm h t =
     (let h = h\<lparr>rs_bufKV := (rs_bufKV h)\<lparr>kv_value := AppendHTTPDate tm [] t\<rparr>\<rparr>
      in ResponseHeader_SetCanonical h strLastModified (kv_value (rs_bufKV h)))"

definition ResponseHeader_VisitAll :: "ResponseHeader \<Rightarrow> (bytes \<times> bytes) list" where
  "ResponseHeader_VisitAll h =
     (if length (rs_contentLengthBytes h) > 0 then [(strContentLength, rs_contentLengthBytes h)] else [])
     @ (let contentType = ResponseHeader_ContentType h
        in if length contentType > 0 then [(strContentType, contentType)] else [])
     @ (let server = ResponseHeader_Server h in if length server > 0 then [(strServer, server)] else [])
     @ (if length (live (rs_cookies h)) > 0
        then map (\<lambda>(k, v). (strSetCookie, v)) (visitArgs (rs_cookies h)) else [])
     @ visitArgs (rs_h h)
     @ (if ResponseHeader_ConnectionClose h then [(strConnection, strClose)] else [])"

definition ResponseHeader_Len :: "ResponseHeader \<Rightarrow> nat" where
  "ResponseHeader_Len h = length (ResponseHeader_VisitAll h)"


section \<open>Cookies\<close>

definition ResponseHeader_VisitAllCookie :: "ResponseHeader \<Rightarrow> (bytes \<times> bytes) list" where
  "ResponseHeader_VisitAllCookie h = visitArgs (rs_cookies h)"

definition ResponseHeader_PeekCookie :: "ResponseHeader \<Rightarrow> bytes \<Rightarrow> bytes option" where
  "ResponseHeader_PeekCookie h key = peekArg (rs_cookies h) key"

text \<open>\<open>SetCookie\<close> prints the cookie into the cookie's own buffer, so it returns the cookie too.\<close>

definition ResponseHeader_SetCookie ::
  "'t timelib \<Rightarrow> ResponseHeader \<Rightarrow> 't Cookie \<Rightarrow> ResponseHeader \<times> 't Cookie" where
  "ResponseHeader_SetCookie tm h cookie =
     (case Cookie_Cookie tm cookie of
        (s, cookie) \<Rightarrow> (h\<lparr>rs_cookies := setArg (rs_cookies h) (ck_key cookie) s argsHasValue\<rparr>, cookie))"

definition ResponseHeader_DelCookie :: "ResponseHeader \<Rightarrow> bytes \<Rightarrow> ResponseHeader" where
  "ResponseHeader_DelCookie h key = h\<lparr>rs_cookies := delAllArgs (rs_cookies h) key\<rparr>"

definition ResponseHeader_DelAllCookies :: "ResponseHeader \<Rightarrow> ResponseHeader" where
  "ResponseHeader_DelAllCookies h = h\<lparr>rs_cookies := slice_reset (rs_cookies h)\<rparr>"

text \<open>
  The cookie of \<open>DelClientCookie\<close> comes from the pool, where only reset cookies are put;
  \<open>CookieExpireDelete\<close> is a date in the past, a value of package \<^verbatim>\<open>time\<close>.
\<close>

definition ResponseHeader_DelClientCookie ::
  "'t timelib \<Rightarrow> 't \<Rightarrow> 't Cookie \<Rightarrow> ResponseHeader \<Rightarrow> bytes \<Rightarrow> ResponseHeader" where
  "ResponseHeader_DelClientCookie tm CookieExpireDelete pooled h key =
     (let h = ResponseHeader_DelCookie h key;
          c = Cookie_Reset tm pooled;
          c = Cookie_SetKey c key;
          c = Cookie_SetExpire c CookieExpireDelete
      in fst (ResponseHeader_SetCookie tm h c))"

definition ResponseHeader_Cookie :: "'t timelib \<Rightarrow> ResponseHeader \<Rightarrow> 't Cookie \<Rightarrow> bool \<times> 't Cookie" where
  "ResponseHeader_Cookie tm h cookie =
     (case peekArg (rs_cookies h) (ck_key cookie) of
        None \<Rightarrow> (False, cookie)
      | Some v \<Rightarrow> (True, fst (Cookie_ParseBytes tm cookie v)))"


section \<open>Printing\<close>

definition ResponseHeader_AppendBytes :: "bytes \<Rightarrow> ResponseHeader \<Rightarrow> bytes \<Rightarrow> bytes" where
  "ResponseHeader_AppendBytes serverDate h dst =
     (let statusCode = ResponseHeader_StatusCode h;
          statusCode = (if statusCode < 0 then StatusOK else statusCode);
          dst = dst @ statusLine statusCode;
          server = ResponseHeader_Server h;
          dst = (if length server \<noteq> 0 then appendHeaderLine dst strServer server else dst);
          dst = (if \<not> rs_noDefaultDate h then appendHeaderLine dst strDate serverDate else dst);
          dst = (if ResponseHeader_ContentLength h \<noteq> 0 \<or> length (rs_contentType h) > 0 then
                   (let contentType = ResponseHeader_ContentType h
                    in if length contentType > 0 then appendHeaderLine dst strContentType contentType else dst)
                 else dst);
          dst = (if length (rs_contentLengthBytes h) > 0
                 then appendHeaderLine dst strContentLength (rs_contentLengthBytes h) else dst);
          dst = foldl (\<lambda>dst kv. if rs_noDefaultDate h \<or> kv_key kv \<noteq> strDate
                               then appendHeaderLine dst (kv_key kv) (kv_value kv) else dst)
                  dst (live (rs_h h));
          dst = foldl (\<lambda>dst kv. appendHeaderLine dst strSetCookie (kv_value kv)) dst (live (rs_cookies h));
          dst = (if ResponseHeader_ConnectionClose h then appendHeaderLine dst strConnection strClose else dst)
      in dst @ strCRLF)"

definition ResponseHeader_Header :: "bytes \<Rightarrow> ResponseHeader \<Rightarrow> bytes \<times> ResponseHeader" where
  "ResponseHeader_Header serverDate h =
     (let b = ResponseHeader_AppendBytes serverDate h []
      in (b, h\<lparr>rs_bufKV := (rs_bufKV h)\<lparr>kv_value := b\<rparr>\<rparr>))"


section \<open>Parsing\<close>

definition ResponseHeader_parseFirstLine ::
  "ResponseHeader \<Rightarrow> bytes \<Rightarrow> ResponseHeader \<times> nat \<times> header_err option" where
  "ResponseHeader_parseFirstLine h buf =
     (case firstLine buf of
        None \<Rightarrow> (h, 0, Some errNeedMore)
      | Some (b, bNext) \<Rightarrow>
          (case IndexByte b (ch CHR '' '') of
             None \<Rightarrow> (h, 0, Some NoWhitespace)
           | Some n \<Rightarrow>
               (let h = h\<lparr>rs_noHTTP11 := take n b \<noteq> strHTTP11\<rparr>; b = drop (n + 1) b in
                case parseUintBuf b of
                  (v, n, Some err) \<Rightarrow> (h\<lparr>rs_statusCode := v\<rparr>, 0, Some (BadStatusCode err))
                | (v, n, None) \<Rightarrow>
                    if length b > n \<and> b ! n \<noteq> ch CHR '' ''
                    then (h\<lparr>rs_statusCode := v\<rparr>, 0, Some BadStatusEnd)
                    else (h\<lparr>rs_statusCode := v\<rparr>, length buf - length bNext, None))))"

text \<open>The body of the loop of \<open>parseHeaders\<close>. A bad Content-Length is not an error here.\<close>

definition ResponseHeader_parseHeader :: "ResponseHeader \<Rightarrow> bytes \<Rightarrow> bytes \<Rightarrow> ResponseHeader" where
  "ResponseHeader_parseHeader h key value =
     (if length key > 0 then
        (let k = hd key OR 0x20;
             other = h\<lparr>rs_h := appendArg (rs_h h) key value argsHasValue\<rparr>
         in if k = ch CHR ''c'' then
              (if caseInsensitiveCompare key strContentType then h\<lparr>rs_contentType := value\<rparr>
               else if caseInsensitiveCompare key strContentLength then
                 (if rs_contentLength h \<noteq> -1 then
                    (case parseContentLength value of
                       (contentLength, Some err) \<Rightarrow> h\<lparr>rs_contentLength := -2\<rparr>
                     | (contentLength, None) \<Rightarrow>
                         h\<lparr>rs_contentLength := contentLength, rs_contentLengthBytes := value\<rparr>)
                  else h)
               else if caseInsensitiveCompare key strConnection then
                 (if value = strClose then h\<lparr>rs_connectionClose := True\<rparr>
                  else h\<lparr>rs_connectionClose := False, rs_h := appendArg (rs_h h) key value argsHasValue\<rparr>)
               else other)
            else if k = ch CHR ''s'' then
              (if caseInsensitiveCompare key strServer then h\<lparr>rs_server := value\<rparr>
               else if caseInsensitiveCompare key strSetCookie
               then h\<lparr>rs_cookies := add_set_cookie (rs_cookies h) value\<rparr>
               else other)
            else if k = ch CHR ''t'' \<and> caseInsensitiveCompare key strTransferEncoding then
              (if length value > 0 \<and> value \<noteq> strIdentity
               then h\<lparr>rs_contentLength := -1,
                      rs_h := setArg (rs_h h) strTransferEncoding strChunked argsHasValue\<rparr>
               else h)
            else other)
      else h)"

text \<open>As for requests, the buffer as the scanner left it is part of the result.\<close>

definition ResponseHeader_parseHeaders ::
  "ResponseHeader \<Rightarrow> bytes \<Rightarrow> ResponseHeader \<times> nat \<times> header_err option \<times> bytes" where
  "ResponseHeader_parseHeaders h buf =
     (case header_loop ResponseHeader_parseHeader (headerScanner_init buf (rs_disableNormalizing h))
             (h\<lparr>rs_contentLength := -2\<rparr>) of
        (h, s) \<Rightarrow>
          (let buf' = hs_pre s @ hs_b s @ hs_post s in
           if hs_err s \<noteq> None then (h\<lparr>rs_connectionClose := True\<rparr>, 0, hs_err s, buf')
           else
             (let h = (if rs_contentLength h < 0 then h\<lparr>rs_contentLengthBytes := []\<rparr> else h);
                  h = (if rs_contentLength h = -2 then
                         (case ResponseHeader_ConnectionUpgrade h of
                            (upgrade, h) \<Rightarrow>
                              if \<not> upgrade \<and> \<not> ResponseHeader_mustSkipContentLength h
                              then h\<lparr>rs_h := setArg (rs_h h) strTransferEncoding strIdentity argsHasValue,
                                     rs_connectionClose := True\<rparr>
                              else h)
                       else h);
                  h = (if rs_noHTTP11 h \<and> \<not> rs_connectionClose h
                       then h\<lparr>rs_connectionClose :=
                              \<not> hasHeaderValue (nilable (peekArg (rs_h h) strConnection)) strKeepAlive\<rparr>
                       else h)
              in (h, length buf - length (hs_b s), None, buf'))))"

definition ResponseHeader_parse ::
  "ResponseHeader \<Rightarrow> bytes \<Rightarrow> ResponseHeader \<times> nat \<times> header_err option \<times> bytes" where
  "ResponseHeader_parse h buf =
     (case ResponseHeader_parseFirstLine h buf of
        (h, m, Some err) \<Rightarrow> (h, 0, Some err, buf)
      | (h, m, None) \<Rightarrow>
          (case ResponseHeader_parseHeaders h (drop m buf) of
             (h, n, Some err, buf') \<Rightarrow> (h, 0, Some err, take m buf @ buf')
           | (h, n, None, buf') \<Rightarrow> (h, m + n, None, take m buf @ buf')))"

section \<open>Printing and parsing: lemmas\<close>

text \<open>The status line.\<close>

definition printed_status :: "ResponseHeader \<Rightarrow> int" where
  "printed_status h = (let statusCode = ResponseHeader_StatusCode h in if statusCode < 0 then StatusOK else statusCode)"

lemma printed_status_pos: "0 < printed_status h"
  by (auto simp: printed_status_def ResponseHeader_StatusCode_def StatusOK_def Let_def)

lemma StatusMessage_no_newline: "10 \<notin> set (StatusMessage c)"
proof -
  have all: "list_all (\<lambda>(c, m). 10 \<notin> set m) statusMessages" and unknown: "10 \<notin> set unknownStatus"
    by code_simp+
  have "10 \<notin> set m" if "map_of statusMessages c = Some m" for m
    using all map_of_SomeD [OF that] by (auto simp: list_all_iff)
  with unknown show ?thesis by (auto simp: StatusMessage_def split: option.split)
qed

lemma statusLine_print:
  "0 \<le> c \<Longrightarrow> statusLine c = (strHTTP11 @ 32 # AppendUint_loop (nat c) [] @ 32 # StatusMessage c) @ [13, 10]"
  by (simp add: statusLine_def statusLines_def invalidStatusLine_def sprint_int_def str_defs)

lemma digits_no_newline: "10 \<notin> set (AppendUint_loop n [])"
proof
  assume "10 \<in> set (AppendUint_loop n [])"
  then have "is_digit 10" using AppendUint_loop_is_digits [of n] by (auto simp: list_all_iff)
  then show False by (simp add: is_digit_def)
qed

lemma response_parseFirstLine_print:
  assumes "0 < c" and "c < 2 ^ 63"
  shows "ResponseHeader_parseFirstLine g (statusLine c @ rest) =
    (g\<lparr>rs_noHTTP11 := False, rs_statusCode := c\<rparr>, length (statusLine c), None)"
proof -
  let ?d = "AppendUint_loop (nat c) []"
  let ?l = "strHTTP11 @ 32 # ?d @ 32 # StatusMessage c"
  have line: "statusLine c = ?l @ [13, 10]" using assms(1) statusLine_print by simp
  have l: "10 \<notin> set ?l" using digits_no_newline StatusMessage_no_newline by (auto simp: str_defs)
  have "firstLine (?l @ 13 # 10 # rest) = Some (?l, rest)"
    by (rule firstLine_crlf [OF l]) simp
  then have first: "firstLine (statusLine c @ rest) = Some (?l, rest)" unfolding line by simp
  have sp: "IndexByte ?l 32 = Some (length strHTTP11)" by (rule IndexByte_append) (simp add: str_defs)
  have "nat c < 2 ^ 63" using assms(2) by simp
  then have "parseUintBuf (?d @ 32 # StatusMessage c) = (c, length ?d, None)"
    using parseUintBuf_AppendUint [of "nat c" "32 # StatusMessage c"] assms(1) by (simp add: is_digit_def)
  then show ?thesis
    unfolding ResponseHeader_parseFirstLine_def first by (simp add: sp nth_append)
qed

text \<open>The header fields that \<open>AppendBytes\<close> prints, in order.\<close>

definition response_type :: "ResponseHeader \<Rightarrow> bytes" where
  "response_type h =
     (if ResponseHeader_ContentLength h \<noteq> 0 \<or> rs_contentType h \<noteq> [] then ResponseHeader_ContentType h else [])"

definition date_fields :: "bytes \<Rightarrow> ResponseHeader \<Rightarrow> (bytes \<times> bytes) list" where
  "date_fields date h = (if rs_noDefaultDate h then [] else [(strDate, date)])"

definition other_fields :: "ResponseHeader \<Rightarrow> (bytes \<times> bytes) list" where
  "other_fields h = map kv_pair (filter (\<lambda>kv. rs_noDefaultDate h \<or> kv_key kv \<noteq> strDate) (live (rs_h h)))"

definition set_cookie_fields :: "ResponseHeader \<Rightarrow> (bytes \<times> bytes) list" where
  "set_cookie_fields h = map (\<lambda>kv. (strSetCookie, kv_value kv)) (live (rs_cookies h))"

definition close_field :: "bool \<Rightarrow> (bytes \<times> bytes) list" where
  "close_field c = (if c then [(strConnection, strClose)] else [])"

definition response_fields :: "bytes \<Rightarrow> ResponseHeader \<Rightarrow> (bytes \<times> bytes) list" where
  "response_fields date h =
     opt_field strServer (rs_server h) @ date_fields date h @ opt_field strContentType (response_type h)
     @ opt_field strContentLength (rs_contentLengthBytes h) @ other_fields h @ set_cookie_fields h
     @ close_field (rs_connectionClose h)"

lemma foldl_header_lines_if:
  "foldl (\<lambda>dst kv. if P kv then appendHeaderLine dst (kv_key kv) (kv_value kv) else dst) dst kvs =
     dst @ concat (map header_line (map kv_pair (filter P kvs)))"
  by (induction kvs arbitrary: dst) (simp_all add: appendHeaderLine_eq kv_pair_def)

lemma foldl_cookie_lines:
  "foldl (\<lambda>dst kv. appendHeaderLine dst k (kv_value kv)) dst kvs =
     dst @ concat (map header_line (map (\<lambda>kv. (k, kv_value kv)) kvs))"
  by (induction kvs arbitrary: dst) (simp_all add: appendHeaderLine_eq)

lemma ResponseHeader_AppendBytes_fields:
  "ResponseHeader_AppendBytes date h [] =
     statusLine (printed_status h) @ concat (map header_line (response_fields date h)) @ strCRLF"
proof -
  have status: "(if ResponseHeader_StatusCode h < 0 then StatusOK else ResponseHeader_StatusCode h) = printed_status h"
    by (simp add: printed_status_def)
  have server: "(if length v \<noteq> 0 then appendHeaderLine dst k v else dst) = dst @ concat (map header_line (opt_field k v))"
    for dst k v by (simp add: opt_field_def appendHeaderLine_eq)
  have date: "(if \<not> rs_noDefaultDate h then appendHeaderLine dst strDate date else dst) =
      dst @ concat (map header_line (date_fields date h))" for dst
    by (simp add: date_fields_def appendHeaderLine_eq)
  have ct: "(if ResponseHeader_ContentLength h \<noteq> 0 \<or> length (rs_contentType h) > 0
      then dst @ concat (map header_line (opt_field strContentType (ResponseHeader_ContentType h))) else dst) =
      dst @ concat (map header_line (opt_field strContentType (response_type h)))" for dst
    by (simp add: response_type_def opt_field_def)
  have close: "(if rs_connectionClose h then appendHeaderLine dst strConnection strClose else dst) =
      dst @ concat (map header_line (close_field (rs_connectionClose h)))" for dst
    by (simp add: close_field_def appendHeaderLine_eq)
  have "ResponseHeader_AppendBytes date h [] =
      (((((((statusLine (printed_status h) @ concat (map header_line (opt_field strServer (rs_server h))))
        @ concat (map header_line (date_fields date h)))
        @ concat (map header_line (opt_field strContentType (response_type h))))
        @ concat (map header_line (opt_field strContentLength (rs_contentLengthBytes h))))
        @ concat (map header_line (other_fields h)))
        @ concat (map header_line (set_cookie_fields h)))
        @ concat (map header_line (close_field (rs_connectionClose h))))
        @ strCRLF"
    unfolding ResponseHeader_AppendBytes_def Let_def ResponseHeader_Server_def ResponseHeader_ConnectionClose_def
      status server date ct opt_field_line foldl_header_lines_if foldl_cookie_lines close
      other_fields_def set_cookie_fields_def
    by simp
  then show ?thesis by (simp only: response_fields_def map_append concat_append append_assoc)
qed

text \<open>What the loop body does with each kind of field.\<close>

definition response_plain :: "bool \<Rightarrow> bytes \<times> bytes \<Rightarrow> bool" where
  "response_plain d kv \<longleftrightarrow> header_field_ok kv \<and> normalizeHeaderKey (fst kv) d = fst kv
     \<and> \<not> caseInsensitiveCompare (fst kv) strContentType \<and> \<not> caseInsensitiveCompare (fst kv) strContentLength
     \<and> \<not> caseInsensitiveCompare (fst kv) strConnection \<and> \<not> caseInsensitiveCompare (fst kv) strServer
     \<and> \<not> caseInsensitiveCompare (fst kv) strSetCookie \<and> \<not> caseInsensitiveCompare (fst kv) strTransferEncoding"

definition response_step :: "bool \<Rightarrow> ResponseHeader \<Rightarrow> bytes \<times> bytes \<Rightarrow> ResponseHeader" where
  "response_step d h kv = ResponseHeader_parseHeader h (normalizeHeaderKey (fst kv) d) (snd kv)"

lemma response_step_eq: "(\<lambda>h (k, v). ResponseHeader_parseHeader h (normalizeHeaderKey k d) v) = response_step d"
  by (intro ext) (simp add: response_step_def split: prod.split)

lemma response_step_plain:
  "response_plain d kv \<Longrightarrow>
     response_step d h kv = h\<lparr>rs_h := appendArg (rs_h h) (fst kv) (snd kv) argsHasValue\<rparr>"
  by (simp add: response_step_def ResponseHeader_parseHeader_def response_plain_def header_field_ok_def Let_def)

lemma response_steps_plain:
  "(\<And>kv. kv \<in> set kvs \<Longrightarrow> response_plain d kv) \<Longrightarrow>
     foldl (response_step d) g kvs = g\<lparr>rs_h := append_fields (rs_h g) kvs\<rparr>"
  by (induction kvs arbitrary: g) (simp_all add: append_fields_def response_step_plain)

lemma response_parseHeader_names:
  "ResponseHeader_parseHeader h strServer v = h\<lparr>rs_server := v\<rparr>"
  "ResponseHeader_parseHeader h strContentType v = h\<lparr>rs_contentType := v\<rparr>"
  "rs_contentLength h \<noteq> -1 \<Longrightarrow> parseContentLength v = (n, None) \<Longrightarrow>
     ResponseHeader_parseHeader h strContentLength v = h\<lparr>rs_contentLength := n, rs_contentLengthBytes := v\<rparr>"
  "ResponseHeader_parseHeader h strConnection strClose = h\<lparr>rs_connectionClose := True\<rparr>"
  "ResponseHeader_parseHeader h strSetCookie v = h\<lparr>rs_cookies := add_set_cookie (rs_cookies h) v\<rparr>"
  "ResponseHeader_parseHeader h strDate v = h\<lparr>rs_h := appendArg (rs_h h) strDate v argsHasValue\<rparr>"
  "ResponseHeader_parseHeader h strTransferEncoding strIdentity = h"
  "ResponseHeader_parseHeader h strTransferEncoding strChunked =
     h\<lparr>rs_contentLength := -1, rs_h := setArg (rs_h h) strTransferEncoding strChunked argsHasValue\<rparr>"
  by (simp_all add: ResponseHeader_parseHeader_def caseInsensitiveCompare_def str_defs Let_def)

lemma response_steps_opt:
  "rs_server g = [] \<Longrightarrow> foldl (response_step d) g (opt_field strServer v) = g\<lparr>rs_server := v\<rparr>"
  "rs_contentType g = [] \<Longrightarrow> foldl (response_step d) g (opt_field strContentType v) = g\<lparr>rs_contentType := v\<rparr>"
  "foldl (response_step d) g (close_field c) = (if c then g\<lparr>rs_connectionClose := True\<rparr> else g)"
  "foldl (response_step d) g (date_fields date h) = g\<lparr>rs_h := append_fields (rs_h g) (date_fields date h)\<rparr>"
  by (simp_all add: opt_field_def response_step_def response_parseHeader_names close_field_def date_fields_def
      append_fields_def)

lemma live_add_set_cookie:
  "map kv_pair (live (add_set_cookie c v)) = map kv_pair (live c) @ [(getCookieKey v, v)]"
proof -
  obtain kv where "live (fst (allocArg c)) = live c @ [kv]" "snd (allocArg c) = length (live c)"
    by (rule allocArg_live)
  then show ?thesis
    by (cases "allocArg c") (simp add: add_set_cookie_def live_slice_update kv_pair_def)
qed

lemma response_steps_cookies:
  "foldl (response_step d) g (map (\<lambda>kv. (strSetCookie, kv_value kv)) cs) =
     g\<lparr>rs_cookies := foldl add_set_cookie (rs_cookies g) (map kv_value cs)\<rparr>"
  by (induction cs arbitrary: g) (simp_all add: response_step_def response_parseHeader_names)

lemma live_add_set_cookies:
  "map kv_pair (live (foldl add_set_cookie c vs)) = map kv_pair (live c) @ map (\<lambda>v. (getCookieKey v, v)) vs"
  by (induction vs arbitrary: c) (simp_all add: live_add_set_cookie)

text \<open>How \<open>SetContentLength\<close> frames the body: a length, chunks, or the end of the connection.\<close>

definition framing_field :: "int \<Rightarrow> (bytes \<times> bytes) list" where
  "framing_field n =
     (if 0 \<le> n then [] else [(strTransferEncoding, if n = -2 then strIdentity else strChunked)])"

definition framing_bytes :: "int \<Rightarrow> bytes" where
  "framing_bytes n = (if 0 \<le> n then AppendUint_loop (nat n) [] else [])"

definition response_ok :: "bool \<Rightarrow> bytes \<Rightarrow> ResponseHeader \<Rightarrow> bool" where
  "response_ok d date h \<longleftrightarrow> ResponseHeader_StatusCode h < 2 ^ 63 \<and> header_value_ok date
     \<and> header_value_ok (rs_server h) \<and> header_value_ok (rs_contentType h)
     \<and> list_all (\<lambda>kv. response_plain d (kv_pair kv)) (live (rs_h h))
     \<and> list_all (\<lambda>kv. header_value_ok (kv_value kv) \<and> kv_key kv = getCookieKey (kv_value kv)) (live (rs_cookies h))"

lemma list_set_absent: "k \<notin> kv_key ` set xs \<Longrightarrow> list_set xs k v nv = xs @ [set_kv k v nv]"
  by (rule list_set_new)

lemma list_del_absent: "k \<notin> kv_key ` set xs \<Longrightarrow> list_del xs k = xs"
  by (auto simp: list_del_def image_iff intro!: filter_True)

lemma response_plain_keys:
  assumes "response_plain d kv"
  shows "fst kv \<noteq> strTransferEncoding" and "fst kv \<noteq> strConnection"
  using assms caseInsensitiveCompare_refl by (auto simp: response_plain_def)

lemma response_ok_absent:
  assumes "response_ok d date h"
  shows "strTransferEncoding \<notin> kv_key ` set (live (rs_h h))" and "strConnection \<notin> kv_key ` set (live (rs_h h))"
proof -
  have "response_plain d (kv_pair kv)" if "kv \<in> set (live (rs_h h))" for kv
    using assms that by (simp add: response_ok_def list_all_iff)
  then have "kv_key kv \<noteq> strTransferEncoding \<and> kv_key kv \<noteq> strConnection" if "kv \<in> set (live (rs_h h))" for kv
    using that response_plain_keys [of d "kv_pair kv"] by (simp add: kv_pair_def)
  then show "strTransferEncoding \<notin> kv_key ` set (live (rs_h h))" "strConnection \<notin> kv_key ` set (live (rs_h h))"
    by (metis imageE)+
qed

lemma SetContentLength_framing:
  assumes "response_ok d date h" and "\<not> ResponseHeader_mustSkipContentLength h" and "-2 \<le> n"
  defines "g \<equiv> ResponseHeader_SetContentLength h n"
  shows "other_fields g = other_fields h @ framing_field n" and "rs_contentLengthBytes g = framing_bytes n"
    and "rs_contentLength g = n" and "rs_connectionClose g = (rs_connectionClose h \<or> n = -2)"
    and "rs_server g = rs_server h" and "rs_contentType g = rs_contentType h" and "rs_cookies g = rs_cookies h"
    and "printed_status g = printed_status h" and "date_fields date g = date_fields date h"
    and "response_type g = (if n \<noteq> 0 \<or> rs_contentType h \<noteq> [] then ResponseHeader_ContentType h else [])"
proof -
  have te: "strTransferEncoding \<noteq> strDate" by (simp add: str_defs)
  note absent = response_ok_absent(1) [OF assms(1)]
  note defs = g_def ResponseHeader_SetContentLength_def Let_def AppendUint_def framing_bytes_def framing_field_def
    ResponseHeader_SetConnectionClose_def list_set_absent [OF absent] list_del_absent [OF absent] other_fields_def
  show "other_fields g = other_fields h @ framing_field n"
    using assms(2,3) te by (auto simp: defs kv_pair_def set_kv_def)
  show "rs_contentLengthBytes g = framing_bytes n" "rs_contentLength g = n"
    "rs_connectionClose g = (rs_connectionClose h \<or> n = -2)" "rs_server g = rs_server h"
    "rs_contentType g = rs_contentType h" "rs_cookies g = rs_cookies h"
    "printed_status g = printed_status h" "date_fields date g = date_fields date h"
    "response_type g = (if n \<noteq> 0 \<or> rs_contentType h \<noteq> [] then ResponseHeader_ContentType h else [])"
    using assms(2,3)
    by (auto simp: defs printed_status_def ResponseHeader_StatusCode_def date_fields_def response_type_def
        ResponseHeader_ContentLength_def ResponseHeader_ContentType_def)
qed

lemma framing_parse:
  assumes "n < 2 ^ 63" and "0 \<le> n"
  shows "parseContentLength (framing_bytes n) = (n, None)" and "framing_bytes n \<noteq> []"
proof -
  have "nat n < 2 ^ 63" using assms by simp
  then show "parseContentLength (framing_bytes n) = (n, None)"
    using parseUintBuf_AppendUint [of "nat n" "[]"] assms(2) by (simp add: parseContentLength_def framing_bytes_def)
  show "framing_bytes n \<noteq> []" using assms(2) by (simp add: framing_bytes_def)
qed

lemma digits_value_ok: "header_value_ok (AppendUint_loop n [])"
proof -
  have "is_digit c" if "c \<in> set (AppendUint_loop n [])" for c
    using AppendUint_loop_is_digits [of n] that by (auto simp: list_all_iff)
  then have "c \<noteq> 13 \<and> c \<noteq> 10 \<and> c \<noteq> 32" if "c \<in> set (AppendUint_loop n [])" for c
    using that by (force simp: is_digit_def)
  then have "\<not> (13 \<in> set (AppendUint_loop n []))" "\<not> (10 \<in> set (AppendUint_loop n []))"
    "hd (AppendUint_loop n []) \<noteq> 32" "last (AppendUint_loop n []) \<noteq> 32"
    by (metis AppendUint_loop_nonempty hd_in_set last_in_set)+
  then show ?thesis by (simp add: header_value_ok_def)
qed

lemma response_field_names_ok:
  "header_value_ok v \<Longrightarrow> header_field_ok (strServer, v)" "header_value_ok v \<Longrightarrow> header_field_ok (strDate, v)"
  "header_value_ok v \<Longrightarrow> header_field_ok (strSetCookie, v)"
  "header_value_ok v \<Longrightarrow> header_field_ok (strTransferEncoding, v)"
  "header_value_ok strIdentity" "header_value_ok strChunked" "header_value_ok defaultContentType" "header_value_ok []"
  by (simp_all add: header_field_ok_def header_key_ok_def not_folded_def header_value_ok_def str_defs)

definition framed_fields :: "bytes \<Rightarrow> ResponseHeader \<Rightarrow> int \<Rightarrow> (bytes \<times> bytes) list" where
  "framed_fields date h n =
     opt_field strServer (rs_server h) @ date_fields date h
     @ opt_field strContentType (if n \<noteq> 0 \<or> rs_contentType h \<noteq> [] then ResponseHeader_ContentType h else [])
     @ opt_field strContentLength (framing_bytes n) @ (other_fields h @ framing_field n) @ set_cookie_fields h
     @ close_field (rs_connectionClose h \<or> n = -2)"

lemma framed_fields_print:
  assumes "response_ok d date h" and "\<not> ResponseHeader_mustSkipContentLength h" and "-2 \<le> n"
  shows "response_fields date (ResponseHeader_SetContentLength h n) = framed_fields date h n"
  using SetContentLength_framing [OF assms] by (simp add: response_fields_def framed_fields_def set_cookie_fields_def)

lemma framed_fields_ok:
  assumes "response_ok d date h" and "kv \<in> set (framed_fields date h n)"
  shows "header_field_ok kv"
proof -
  have "header_value_ok (ResponseHeader_ContentType h)"
    using assms(1) response_field_names_ok(7) by (simp add: ResponseHeader_ContentType_def response_ok_def)
  moreover have "header_value_ok (framing_bytes n)"
    using digits_value_ok by (simp add: framing_bytes_def response_field_names_ok)
  moreover have "header_field_ok kv" if "kv \<in> set (other_fields h)"
    using assms(1) that by (auto simp: other_fields_def response_ok_def list_all_iff response_plain_def)
  moreover have "header_field_ok kv" if "kv \<in> set (set_cookie_fields h)"
    using assms(1) that response_field_names_ok(3) by (auto simp: set_cookie_fields_def response_ok_def list_all_iff)
  moreover have opt: "header_field_ok kv" if "kv \<in> set (opt_field k v)" "header_field_ok (k, v)" for k v
    using that by (auto simp: opt_field_def split: if_splits)
  moreover have "header_field_ok kv" if "kv \<in> set (date_fields date h)"
    using assms(1) that response_field_names_ok(2) by (auto simp: date_fields_def response_ok_def split: if_splits)
  moreover have "header_field_ok kv" if "kv \<in> set (framing_field n)"
    using that response_field_names_ok(4-6) by (auto simp: framing_field_def split: if_splits)
  moreover have "header_field_ok kv" if "kv \<in> set (close_field c)" for c
    using that field_names_ok by (auto simp: close_field_def split: if_splits)
  moreover have "header_field_ok (strServer, rs_server h)"
    using assms(1) response_field_names_ok(1) by (simp add: response_ok_def)
  moreover have "header_value_ok (if c then ResponseHeader_ContentType h else [])" for c
    using calculation(1) response_field_names_ok(8) by simp
  ultimately show ?thesis
    using assms(2) field_names_ok(3,4) unfolding framed_fields_def set_append by blast
qed

lemma live_keys_append_fields:
  "kv_key ` set (live (append_fields h kvs)) = kv_key ` set (live h) \<union> fst ` set kvs"
proof -
  have "kv_key ` set (live (append_fields h kvs)) = fst ` set (map kv_pair (live (append_fields h kvs)))"
    by (auto simp: kv_pair_def image_image)
  then show ?thesis unfolding live_append_fields by (simp add: kv_pair_def image_image image_Un)
qed

lemma other_fields_plain:
  assumes "response_ok d date h" and "kv \<in> set (other_fields h)"
  shows "response_plain d kv"
  using assms by (auto simp: other_fields_def response_ok_def list_all_iff)

lemma parsed_fields_absent:
  assumes "response_ok d date h" and "live l = []" and "s \<in> {strTransferEncoding, strConnection}"
  shows "s \<notin> kv_key ` set (live (append_fields (append_fields l (date_fields date h)) (other_fields h)))"
proof -
  have "fst kv \<noteq> s" if "kv \<in> set (other_fields h)" for kv
    using response_plain_keys [OF other_fields_plain [OF assms(1) that]] assms(3) by auto
  moreover have "fst kv \<noteq> s" if "kv \<in> set (date_fields date h)" for kv
    using that assms(3) by (auto simp: date_fields_def str_defs split: if_splits)
  ultimately show ?thesis using assms(2) by (auto simp: live_keys_append_fields)
qed

text \<open>The header after the loop over the printed fields.\<close>

definition framed_header :: "bytes \<Rightarrow> ResponseHeader \<Rightarrow> int \<Rightarrow> ResponseHeader \<Rightarrow> ResponseHeader" where
  "framed_header date h n g =
     (let l = append_fields (append_fields (rs_h g) (date_fields date h)) (other_fields h) in
      g\<lparr>rs_server := rs_server h,
        rs_contentType := (if n \<noteq> 0 \<or> rs_contentType h \<noteq> [] then ResponseHeader_ContentType h else []),
        rs_contentLength := n, rs_contentLengthBytes := framing_bytes n,
        rs_h := (if n = -1 then setArg l strTransferEncoding strChunked argsHasValue else l),
        rs_cookies := foldl add_set_cookie (rs_cookies g) (map kv_value (live (rs_cookies h))),
        rs_connectionClose := (rs_connectionClose h \<or> n = -2)\<rparr>)"

lemma framed_steps:
  assumes "response_ok d date h" and "-2 \<le> n" and "n < 2 ^ 63" and "rs_server g = []" and "rs_contentType g = []"
    and "rs_contentLengthBytes g = []" and "rs_contentLength g = -2" and "\<not> rs_connectionClose g"
  shows "foldl (response_step d) g (framed_fields date h n) = framed_header date h n g"
proof -
  let ?ct = "if n \<noteq> 0 \<or> rs_contentType h \<noteq> [] then ResponseHeader_ContentType h else []"
  let ?l1 = "append_fields (rs_h g) (date_fields date h)"
  let ?g2 = "g\<lparr>rs_server := rs_server h, rs_h := ?l1, rs_contentType := ?ct\<rparr>"
  let ?g3 = "if 0 \<le> n then ?g2\<lparr>rs_contentLength := n, rs_contentLengthBytes := framing_bytes n\<rparr> else ?g2"
  let ?g4 = "?g3\<lparr>rs_h := append_fields ?l1 (other_fields h)\<rparr>"
  let ?g5 = "if n = -1 then ?g4\<lparr>rs_contentLength := -1,
      rs_h := setArg (rs_h ?g4) strTransferEncoding strChunked argsHasValue\<rparr> else ?g4"
  have 2: "foldl (response_step d) (foldl (response_step d) (foldl (response_step d) g
      (opt_field strServer (rs_server h))) (date_fields date h)) (opt_field strContentType ?ct) = ?g2"
    using assms(4,5) by (simp add: response_steps_opt)
  have 3: "foldl (response_step d) ?g2 (opt_field strContentLength (framing_bytes n)) = ?g3"
  proof (cases "0 \<le> n")
    case True
    with assms(3) framing_parse [of n] assms(7) show ?thesis
      by (simp add: opt_field_def response_step_def response_parseHeader_names)
  qed (simp add: framing_bytes_def opt_field_def)
  have 4: "foldl (response_step d) ?g3 (other_fields h) = ?g4"
    using response_steps_plain [of "other_fields h" d ?g3] other_fields_plain [OF assms(1)] by simp
  have 5: "foldl (response_step d) ?g4 (framing_field n) = ?g5"
    using assms(2) by (auto simp: framing_field_def response_step_def response_parseHeader_names)
  have "foldl (response_step d) g (framed_fields date h n) =
      foldl (response_step d) (foldl (response_step d) ?g5 (set_cookie_fields h))
        (close_field (rs_connectionClose h \<or> n = -2))"
    unfolding framed_fields_def foldl_append 2 3 4 5 ..
  also have "\<dots> = framed_header date h n g"
    unfolding set_cookie_fields_def response_steps_cookies response_steps_opt(3) framed_header_def Let_def
    using assms(2,6,7,8) by (intro ResponseHeader.equality) (auto simp: framing_bytes_def)
  finally show ?thesis .
qed

lemma close_not_upgrade: "\<not> hasHeaderValue strClose strUpgrade"
  by code_simp

lemma no_upgrade:
  assumes "peekArg (rs_h g) strConnection = None"
  obtains kv where "ResponseHeader_ConnectionUpgrade g = (False, g\<lparr>rs_bufKV := kv\<rparr>)"
proof -
  have "HeaderConnection = strConnection" "normalizeHeaderKey HeaderConnection (rs_disableNormalizing g) = strConnection"
    using normalize_names(5) by (simp_all add: header_names_str)
  moreover have "strConnection \<noteq> HeaderContentType" "strConnection \<noteq> HeaderServer" by (simp_all add: str_defs)
  ultimately show thesis using assms close_not_upgrade
    by (intro that [of "getHeaderKeyBytes (rs_bufKV g) HeaderConnection (rs_disableNormalizing g)"])
      (simp add: ResponseHeader_ConnectionUpgrade_def ResponseHeader_Peek_def ResponseHeader_peek_def
        getHeaderKeyBytes_def nilable_def Let_def)
qed

text \<open>The end of \<open>parseHeaders\<close>.\<close>

lemma framed_parseHeaders:
  assumes ok: "response_ok (rs_disableNormalizing g) date h" and n: "-2 \<le> n" "n < 2 ^ 63"
    and g: "rs_server g = []" "rs_contentType g = []" "rs_contentLengthBytes g = []" "\<not> rs_connectionClose g"
      "live (rs_h g) = []" "\<not> rs_noHTTP11 g" "\<not> ResponseHeader_mustSkipContentLength g"
  defines "blk \<equiv> concat (map header_line (framed_fields date h n)) @ [13, 10]"
  shows "\<exists>g' buf'. ResponseHeader_parseHeaders g (blk @ body) = (g', length blk, None, buf')
    \<and> drop (length blk) buf' = body \<and> length buf' = length (blk @ body)
    \<and> rs_server g' = rs_server h \<and> rs_contentLength g' = n \<and> rs_contentLengthBytes g' = framing_bytes n
    \<and> rs_contentType g' = (if n \<noteq> 0 \<or> rs_contentType h \<noteq> [] then ResponseHeader_ContentType h else [])
    \<and> map kv_pair (live (rs_h g')) = date_fields date h @ other_fields h @ framing_field n
    \<and> live (rs_cookies g') = live (foldl add_set_cookie (rs_cookies g) (map kv_value (live (rs_cookies h))))
    \<and> rs_connectionClose g' = (rs_connectionClose h \<or> n = -2)
    \<and> rs_statusCode g' = rs_statusCode g \<and> \<not> rs_noHTTP11 g'"
proof -
  let ?d = "rs_disableNormalizing g" and ?kvs = "framed_fields date h n"
  let ?l = "append_fields (append_fields (rs_h g) (date_fields date h)) (other_fields h)"
  let ?g1 = "g\<lparr>rs_contentLength := -2\<rparr>"
  let ?f = "framed_header date h n ?g1"
  have blk: "blk @ body = concat (map header_line ?kvs) @ 13 # 10 # body" by (simp add: blk_def)
  have steps: "foldl (response_step ?d) ?g1 ?kvs = ?f"
    using framed_steps [OF ok n, of ?g1] g by simp
  obtain sc where sc: "header_loop ResponseHeader_parseHeader (headerScanner_init (blk @ body) ?d) ?g1 = (?f, sc)"
    "hs_b sc = body" "hs_err sc = None" "hs_post sc = []"
    "hs_pre sc = concat (map (\<lambda>(k, v). header_line (normalizeHeaderKey k ?d, v)) ?kvs) @ [13, 10]"
    using header_loop_init [OF framed_fields_ok [OF ok, of _ n], of ?kvs ResponseHeader_parseHeader body ?d ?g1]
    unfolding response_step_eq steps blk by blast
  have absent: "strTransferEncoding \<notin> kv_key ` set (live ?l)" "strConnection \<notin> kv_key ` set (live ?l)"
    using parsed_fields_absent [OF ok g(5)] by auto
  have "rs_h ?f = (if n = -1 then setArg ?l strTransferEncoding strChunked argsHasValue else ?l)"
    by (simp add: framed_header_def Let_def)
  moreover have "strConnection \<noteq> strTransferEncoding" by (simp add: str_defs)
  ultimately have conn: "peekArg (rs_h ?f) strConnection = None"
    using absent by (auto simp: peekArg_list list_peek_None list_set_absent set_kv_def)
  have pairs: "map kv_pair (live ?l) = date_fields date h @ other_fields h"
    using g(5) by (simp add: live_append_fields)
  have len: "length (hs_pre sc) = length blk"
    unfolding sc(5) blk_def by (simp add: length_concat comp_def case_prod_beta header_line_def appendHeaderLine_def)
  obtain kv where up: "ResponseHeader_ConnectionUpgrade (?f\<lparr>rs_contentLengthBytes := []\<rparr>) =
      (False, ?f\<lparr>rs_contentLengthBytes := [], rs_bufKV := kv\<rparr>)"
    using no_upgrade [of "?f\<lparr>rs_contentLengthBytes := []\<rparr>"] conn by auto
  have skip: "\<not> ResponseHeader_mustSkipContentLength (?f\<lparr>rs_contentLengthBytes := [], rs_bufKV := kv\<rparr>)"
    using g(7)
    by (auto simp: ResponseHeader_mustSkipContentLength_def ResponseHeader_StatusCode_def framed_header_def Let_def
        split: if_splits)
  have fields: "rs_contentLength ?f = n" "rs_connectionClose ?f = (rs_connectionClose h \<or> n = -2)"
    "\<not> rs_noHTTP11 ?f" "rs_contentLengthBytes ?f = framing_bytes n" "rs_server ?f = rs_server h"
    "rs_contentType ?f = (if n \<noteq> 0 \<or> rs_contentType h \<noteq> [] then ResponseHeader_ContentType h else [])"
    "rs_cookies ?f = foldl add_set_cookie (rs_cookies g) (map kv_value (live (rs_cookies h)))"
    "rs_statusCode ?f = rs_statusCode g" "rs_h ?f = (if n = -1 then setArg ?l strTransferEncoding strChunked argsHasValue else ?l)"
    using g(6) by (simp_all add: framed_header_def Let_def)
  have d: "rs_disableNormalizing ?g1 = ?d" by simp
  let ?buf = "hs_pre sc @ body"
  have drop: "drop (length blk) ?buf = body" "length ?buf = length (blk @ body)" using len by simp_all
  show ?thesis
  proof (cases "n = -2")
    case True
    let ?g' = "?f\<lparr>rs_contentLengthBytes := [], rs_bufKV := kv,
        rs_h := setArg ?l strTransferEncoding strIdentity argsHasValue, rs_connectionClose := True\<rparr>"
    have "ResponseHeader_parseHeaders g (blk @ body) = (?g', length blk, None, ?buf)"
      using True fields up skip sc(1-4) by (simp add: ResponseHeader_parseHeaders_def Let_def)
    then show ?thesis using True fields drop pairs absent(1)
      by (intro exI [of _ ?g'] exI [of _ ?buf])
        (simp add: list_set_absent set_kv_def kv_pair_def framing_field_def framing_bytes_def)
  next
    case False
    let ?g' = "if n < 0 then ?f\<lparr>rs_contentLengthBytes := []\<rparr> else ?f"
    have "ResponseHeader_parseHeaders g (blk @ body) = (?g', length blk, None, ?buf)"
      using False fields sc(1-4) by (simp add: ResponseHeader_parseHeaders_def Let_def)
    then show ?thesis using False fields drop pairs absent(1) n(1)
      by (intro exI [of _ ?g'] exI [of _ ?buf])
        (auto simp: list_set_absent set_kv_def kv_pair_def framing_field_def framing_bytes_def)
  qed
qed

lemma response_print_parse:
  assumes "response_ok (rs_disableNormalizing g) date h" and "\<not> ResponseHeader_mustSkipContentLength h"
    and "-2 \<le> n" and "n < 2 ^ 63"
  defines "s \<equiv> ResponseHeader_AppendBytes date (ResponseHeader_SetContentLength h n) []"
  shows "\<exists>g' buf'. ResponseHeader_parse (ResponseHeader_resetSkipNormalize g) (s @ body) = (g', length s, None, buf')
    \<and> drop (length s) buf' = body \<and> length buf' = length (s @ body)
    \<and> rs_statusCode g' = printed_status h \<and> rs_server g' = rs_server h \<and> rs_contentLength g' = n
    \<and> rs_contentLengthBytes g' = (if 0 \<le> n then AppendUint_loop (nat n) [] else [])
    \<and> rs_contentType g' = (if n \<noteq> 0 \<or> rs_contentType h \<noteq> [] then ResponseHeader_ContentType h else [])
    \<and> map kv_pair (live (rs_h g')) = date_fields date h @ other_fields h @
        (if 0 \<le> n then [] else [(strTransferEncoding, if n = -2 then strIdentity else strChunked)])
    \<and> map kv_pair (live (rs_cookies g')) = map kv_pair (live (rs_cookies h))
    \<and> rs_connectionClose g' = (rs_connectionClose h \<or> n = -2)"
proof -
  let ?c = "printed_status h"
  let ?g0 = "ResponseHeader_resetSkipNormalize g"
  let ?g1 = "?g0\<lparr>rs_noHTTP11 := False, rs_statusCode := ?c\<rparr>"
  let ?blk = "concat (map header_line (framed_fields date h n)) @ [13, 10]"
  have s: "s = statusLine ?c @ ?blk"
    unfolding s_def ResponseHeader_AppendBytes_fields framed_fields_print [OF assms(1-3)]
    using SetContentLength_framing(8) [OF assms(1-3)] by (simp add: strCRLF_def)
  have "?c < 2 ^ 63" using assms(1) by (auto simp: response_ok_def printed_status_def StatusOK_def Let_def)
  then have first: "ResponseHeader_parseFirstLine ?g0 (s @ body) = (?g1, length (statusLine ?c), None)"
    using response_parseFirstLine_print [OF printed_status_pos, of h ?g0 "?blk @ body"] by (simp add: s)
  have "\<not> ResponseHeader_mustSkipContentLength ?g1"
    using assms(2) printed_status_pos [of h]
    by (auto simp: ResponseHeader_mustSkipContentLength_def ResponseHeader_StatusCode_def printed_status_def Let_def
        split: if_splits)
  moreover have "response_ok (rs_disableNormalizing ?g1) date h"
    using assms(1) by (simp add: ResponseHeader_resetSkipNormalize_def)
  ultimately obtain g' buf' where g': "ResponseHeader_parseHeaders ?g1 (?blk @ body) = (g', length ?blk, None, buf')"
    "drop (length ?blk) buf' = body" "length buf' = length (?blk @ body)" "rs_server g' = rs_server h" "rs_contentLength g' = n"
    "rs_contentLengthBytes g' = framing_bytes n"
    "rs_contentType g' = (if n \<noteq> 0 \<or> rs_contentType h \<noteq> [] then ResponseHeader_ContentType h else [])"
    "map kv_pair (live (rs_h g')) = date_fields date h @ other_fields h @ framing_field n"
    "live (rs_cookies g') = live (foldl add_set_cookie (rs_cookies ?g1) (map kv_value (live (rs_cookies h))))"
    "rs_connectionClose g' = (rs_connectionClose h \<or> n = -2)" "rs_statusCode g' = rs_statusCode ?g1"
    using framed_parseHeaders [of ?g1 date h n body] assms(3,4)
    by (auto simp: ResponseHeader_resetSkipNormalize_def)
  have "map kv_pair (live (rs_cookies g')) = map (\<lambda>v. (getCookieKey v, v)) (map kv_value (live (rs_cookies h)))"
    unfolding g'(9) live_add_set_cookies by (simp add: ResponseHeader_resetSkipNormalize_def)
  also have "\<dots> = map kv_pair (live (rs_cookies h))"
    using assms(1) by (auto simp: response_ok_def list_all_iff kv_pair_def)
  finally have "map kv_pair (live (rs_cookies g')) = map kv_pair (live (rs_cookies h))" .
  moreover have "drop (length (statusLine ?c)) (s @ body) = ?blk @ body"
    "take (length (statusLine ?c)) (s @ body) = statusLine ?c" by (simp_all add: s)
  then have "ResponseHeader_parse ?g0 (s @ body) = (g', length s, None, statusLine ?c @ buf')"
    using first g'(1) by (simp add: ResponseHeader_parse_def s)
  moreover have "drop (length s) (statusLine ?c @ buf') = body" and "length (statusLine ?c @ buf') = length (s @ body)"
    using g'(2,3) by (simp_all add: s)
  ultimately show ?thesis using g'(4-8,10,11)
    by (intro exI [of _ g'] exI [of _ "statusLine ?c @ buf'"]) (simp add: framing_bytes_def framing_field_def)
qed

section \<open>Properties\<close>

text \<open>
  C5. A response header on which \<open>SetContentLength\<close> has chosen the framing of the body (a
  length, \<open>-1\<close> for chunks, \<open>-2\<close> for everything up to the end of the connection) is printed so
  that the parser finds the same framing: content length, its bytes, the Transfer-Encoding field
  and whether the connection is closed come back, with the status code, the server, the type,
  all other fields in order after the Date, and the cookies; the parser stops exactly at the
  first byte of the body. The response must be one that may carry a body.
\<close>

theorem ResponseHeader_print_parse:
  assumes "response_ok (rs_disableNormalizing g) date h" and "\<not> ResponseHeader_mustSkipContentLength h"
    and "-2 \<le> n" and "n < 2 ^ 63"
  defines "s \<equiv> ResponseHeader_AppendBytes date (ResponseHeader_SetContentLength h n) []"
  shows "\<exists>g' buf'. ResponseHeader_parse (ResponseHeader_resetSkipNormalize g) (s @ body) = (g', length s, None, buf')
    \<and> drop (length s) buf' = body
    \<and> rs_statusCode g' = printed_status h \<and> rs_server g' = rs_server h \<and> rs_contentLength g' = n
    \<and> rs_contentLengthBytes g' = (if 0 \<le> n then AppendUint_loop (nat n) [] else [])
    \<and> rs_contentType g' = (if n \<noteq> 0 \<or> rs_contentType h \<noteq> [] then ResponseHeader_ContentType h else [])
    \<and> map kv_pair (live (rs_h g')) = date_fields date h @ other_fields h @
        (if 0 \<le> n then [] else [(strTransferEncoding, if n = -2 then strIdentity else strChunked)])
    \<and> map kv_pair (live (rs_cookies g')) = map kv_pair (live (rs_cookies h))
    \<and> rs_connectionClose g' = (rs_connectionClose h \<or> n = -2)"
  using response_print_parse [OF assms(1-4), of body] unfolding s_def by blast

definition example_response :: ResponseHeader where
  "example_response = \<lparr>rs_disableNormalizing = False, rs_noHTTP11 = False, rs_connectionClose = False,
     rs_noDefaultContentType = False, rs_noDefaultDate = False, rs_statusCode = 404, rs_contentLength = 0,
     rs_contentLengthBytes = [], rs_secureErrorLogMessage = False, rs_contentType = [],
     rs_server = bytes_of ''fasthttp'',
     rs_h = \<lparr>live = [set_kv (bytes_of ''X-Id'') (bytes_of ''1'') False], spare = []\<rparr>,
     rs_bufKV = set_kv [] [] False,
     rs_cookies = \<lparr>live = [set_kv (bytes_of ''a'') (bytes_of ''a=b; path=/'') False], spare = []\<rparr>\<rparr>"

lemma example_response_ok:
  "response_ok (rs_disableNormalizing example_response) (bytes_of ''now'') example_response"
  "response_ok False (bytes_of ''now'') example_response"
proof -
  show ok: "response_ok False (bytes_of ''now'') example_response" by code_simp
  show "response_ok (rs_disableNormalizing example_response) (bytes_of ''now'') example_response" using ok by (simp add: example_response_def)
qed

theorem ResponseHeader_print_parse_witness:
  "\<exists>g' buf'. ResponseHeader_parse (ResponseHeader_resetSkipNormalize example_response)
      (ResponseHeader_AppendBytes (bytes_of ''now'') (ResponseHeader_SetContentLength example_response (-1)) []
         @ bytes_of ''0'') =
      (g', length (ResponseHeader_AppendBytes (bytes_of ''now'')
              (ResponseHeader_SetContentLength example_response (-1)) []), None, buf')
    \<and> rs_statusCode g' = 404 \<and> rs_contentLength g' = -1 \<and> \<not> rs_connectionClose g'"
proof -
  note 1 = example_response_ok(1)
  have 2: "\<not> ResponseHeader_mustSkipContentLength example_response" by code_simp
  have 3: "printed_status example_response = 404" by code_simp
  have 4: "\<not> rs_connectionClose example_response" by (simp add: example_response_def)
  show ?thesis using ResponseHeader_print_parse [OF 1 2, of "-1" "bytes_of ''0''"] 3 4 by auto
qed

end
