(* ===== verification/HeaderRead.thy ===== *)
theory HeaderRead
  imports ResponseHeader
begin

text \<open>
  Reading headers from a connection: the operations of \<^verbatim>\<open>bufio.Reader\<close> that \<^verbatim>\<open>header.go\<close> uses,
  and \<open>Read\<close> and \<open>tryRead\<close> of both header types. A buffered reader is the stream of bytes
  still to come with the error behind it, the size of its buffer, and how many bytes of the
  stream it already holds. \<open>br_avail\<close> stands for the connection: how many of the bytes not yet
  buffered its next read delivers (at least one, at most what there is room for).
\<close>


section \<open>Buffered readers\<close>

record bufreader = reader +
  br_size :: nat
  br_buffered :: nat
  br_avail :: "nat \<Rightarrow> nat"

definition br_rest :: "bufreader \<Rightarrow> nat" where
  "br_rest r = length (rd_data r) - br_buffered r"

definition br_fill :: "bufreader \<Rightarrow> bufreader \<times> io_err option" where
  "br_fill r =
     (if br_rest r = 0 then (r, Some (rd_err r))
      else (r\<lparr>br_buffered := br_buffered r +
               min (min (br_size r - br_buffered r) (br_rest r)) (max 1 (br_avail r (br_rest r)))\<rparr>, None))"

text \<open>\<open>Peek\<close> fills the buffer until it has \<open>n\<close> bytes, is full, or the connection fails.\<close>

function br_Peek_loop :: "bufreader \<Rightarrow> nat \<Rightarrow> bufreader \<times> io_err option" where
  "br_Peek_loop r n =
     (if br_buffered r < n \<and> br_buffered r < br_size r then
        (case br_fill r of (r', Some err) \<Rightarrow> (r', Some err) | (r', None) \<Rightarrow> br_Peek_loop r' n)
      else (r, None))"
  by pat_completeness auto
termination
  by (relation "measure (\<lambda>(r, n). br_size r - br_buffered r)") (auto simp: br_fill_def br_rest_def split: if_splits)

declare br_Peek_loop.simps [simp del]

definition br_Peek :: "bufreader \<Rightarrow> nat \<Rightarrow> bytes \<times> io_err option \<times> bufreader" where
  "br_Peek r n =
     (case br_Peek_loop r n of
        (r, err) \<Rightarrow>
          if n > br_size r then (take (br_buffered r) (rd_data r), Some ErrBufferFull, r)
          else if br_buffered r < n then
            (take (br_buffered r) (rd_data r), Some (case err of Some e \<Rightarrow> e | None \<Rightarrow> ErrBufferFull), r)
          else (take n (rd_data r), None, r))"

definition br_Buffered :: "bufreader \<Rightarrow> nat" where
  "br_Buffered r = br_buffered r"

text \<open>\<open>Discard\<close>: whether it failed, and the reader. A negative count is an error.\<close>

function br_Discard_loop :: "bufreader \<Rightarrow> nat \<Rightarrow> bool \<times> bufreader" where
  "br_Discard_loop r remain =
     (if br_rest r = 0 \<and> br_buffered r = 0 then (True, r)
      else
        (let r = (if br_buffered r = 0 then fst (br_fill r) else r);
             skip = min (br_buffered r) remain;
             r = r\<lparr>rd_data := drop skip (rd_data r), br_buffered := br_buffered r - skip\<rparr>
         in if remain = skip \<or> skip = 0 then (remain \<noteq> skip, r) else br_Discard_loop r (remain - skip)))"
  by pat_completeness auto
termination
  by (relation "measure (\<lambda>(r, n). n)") auto

declare br_Discard_loop.simps [simp del]

definition br_Discard :: "bufreader \<Rightarrow> int \<Rightarrow> bool \<times> bufreader" where
  "br_Discard r n = (if n < 0 then (True, r) else if n = 0 then (False, r) else br_Discard_loop r (nat n))"


section \<open>Errors of reading a header\<close>

text \<open>
  An error message of \<open>headerErrorMsg\<close> carries the kind of header, the error, the size of the
  buffer and, unless the log must not show it, the start and the end of the buffer.
\<close>

datatype header_kind = RequestKind | ResponseKind

datatype msg_cause = CauseParse header_err | CauseIO io_err | CauseSmallBuffer

datatype read_err =
  NeedMore
  | ReadEOF
  | ErrTimeout
  | ErrNothingRead io_err
  | ReadHeadersFailed header_kind io_err
  | HeaderErrorMsg header_kind msg_cause nat "(bytes \<times> bytes) option"
  | ErrSmallBuffer read_err
  | SmallBufferMsg header_kind bool

datatype 'a panics = Panic | Ret 'a

text \<open>\<open>bufferSnippet\<close> shows the whole buffer when the end part is empty.\<close>

definition bufferSnippet :: "bytes \<Rightarrow> bytes \<times> bytes" where
  "bufferSnippet b =
     (let n = int (length b); start = 200; end' = n - start;
          (start, end') = (if start \<ge> end' then (n, n) else (start, end'));
          bStart = take (nat start) b; bEnd = drop (nat end') b
      in if length bEnd = 0 then (b, []) else (bStart, bEnd))"

definition headerErrorMsg :: "header_kind \<Rightarrow> msg_cause \<Rightarrow> bytes \<Rightarrow> bool \<Rightarrow> read_err" where
  "headerErrorMsg typ err b secureErrorLogMessage =
     (if secureErrorLogMessage then HeaderErrorMsg typ err (length b) None
      else HeaderErrorMsg typ err (length b) (Some (bufferSnippet b)))"

definition headerError ::
  "header_kind \<Rightarrow> io_err option \<Rightarrow> header_err \<Rightarrow> bytes \<Rightarrow> bool \<Rightarrow> read_err" where
  "headerError typ err errParse b secureErrorLogMessage =
     (if errParse \<noteq> errNeedMore then headerErrorMsg typ (CauseParse errParse) b secureErrorLogMessage
      else
        (case err of
           None \<Rightarrow> NeedMore
         | Some err \<Rightarrow>
             if isOnlyCRLF b then ReadEOF
             else if err \<noteq> ErrBufferFull then headerErrorMsg typ (CauseIO err) b secureErrorLogMessage
             else ErrSmallBuffer (headerErrorMsg typ CauseSmallBuffer b secureErrorLogMessage)))"

text \<open>
  \<open>mustPeekBuffered\<close> and \<open>mustDiscard\<close> panic when the reader cannot do what they ask.
\<close>

definition mustPeekBuffered :: "bufreader \<Rightarrow> bytes panics" where
  "mustPeekBuffered r =
     (case br_Peek r (br_Buffered r) of
        (buf, err, _) \<Rightarrow> if length buf = 0 \<or> err \<noteq> None then Panic else Ret buf)"

definition mustDiscard :: "bufreader \<Rightarrow> int \<Rightarrow> bufreader panics" where
  "mustDiscard r n = (case br_Discard r n of (failed, r) \<Rightarrow> if failed then Panic else Ret r)"

text \<open>The parser works in the buffer of the reader: what it rewrites, the reader delivers.\<close>

definition br_overwrite :: "bufreader \<Rightarrow> bytes \<Rightarrow> bufreader" where
  "br_overwrite r buf = r\<lparr>rd_data := buf @ drop (length buf) (rd_data r)\<rparr>"


section \<open>Request headers\<close>

definition RequestHeader_tryRead ::
  "RequestHeader \<Rightarrow> bufreader \<Rightarrow> nat \<Rightarrow> (RequestHeader \<times> read_err option \<times> bufreader) panics" where
  "RequestHeader_tryRead h r n =
     (let h = RequestHeader_resetSkipNormalize h in
      case br_Peek r n of
        (b, err, r) \<Rightarrow>
          if length b = 0 then
            (case err of
               Some EOF \<Rightarrow> Ret (h, Some ReadEOF, r)
             | None \<Rightarrow> Panic
             | Some ErrBufferFull \<Rightarrow> Ret (h, Some (SmallBufferMsg RequestKind False), r)
             | Some err \<Rightarrow>
                 if n = 1 then Ret (h, Some (ErrNothingRead err), r)
                 else Ret (h, Some (ReadHeadersFailed RequestKind err), r))
          else
            (case mustPeekBuffered r of
               Panic \<Rightarrow> Panic
             | Ret b \<Rightarrow>
                 (case RequestHeader_parse h b of
                    (h, headersLen, Some errParse, b') \<Rightarrow>
                      Ret (h, Some (headerError RequestKind err errParse b' (rq_secureErrorLogMessage h)),
                           br_overwrite r b')
                  | (h, headersLen, None, b') \<Rightarrow>
                      (case mustDiscard (br_overwrite r b') headersLen of
                         Panic \<Rightarrow> Panic
                       | Ret r \<Rightarrow> Ret (h, None, r)))))"


lemma br_Peek_loop_size: "br_Peek_loop r n = (r', err) \<Longrightarrow> br_size r' = br_size r"
proof (induction r n arbitrary: r' err rule: br_Peek_loop.induct)
  case (1 r n)
  obtain r1 e where f: "br_fill r = (r1, e)" "br_size r1 = br_size r"
    by (cases "br_fill r") (auto simp: br_fill_def split: if_splits)
  show ?case
  proof (cases "br_buffered r < n \<and> br_buffered r < br_size r \<and> e = None")
    case True
    then have "br_Peek_loop r1 n = (r', err)" using 1(2) f by (simp add: br_Peek_loop.simps [of r n])
    then have "br_size r' = br_size r1" by (rule "1.IH" [rotated 3]) (use True f in auto)
    with f show ?thesis by simp
  next
    case False
    then show ?thesis using 1(2) f by (cases e) (auto simp: br_Peek_loop.simps [of r n] split: if_splits)
  qed
qed

lemma br_Peek_ok:
  "br_Peek r n = (b, None, r') \<Longrightarrow> n \<le> br_buffered r' \<and> n \<le> br_size r' \<and> br_size r' = br_size r"
  by (auto simp: br_Peek_def br_Peek_loop_size split: prod.splits if_splits)

lemma headerError_NeedMore: "headerError typ err e b s = NeedMore \<longleftrightarrow> e = errNeedMore \<and> err = None"
  by (auto simp: headerError_def headerErrorMsg_def split: option.splits if_splits)

lemma RequestHeader_tryRead_NeedMore:
  assumes "RequestHeader_tryRead h r n = Ret (h', Some NeedMore, r')"
  shows "n \<le> br_buffered r' \<and> n \<le> br_size r' \<and> br_size r' = br_size r"
proof -
  obtain b err r1 where p: "br_Peek r n = (b, err, r1)" by (cases "br_Peek r n") auto
  have *: "err = None \<and> br_buffered r' = br_buffered r1 \<and> br_size r' = br_size r1"
    using assms p
    by (auto simp: RequestHeader_tryRead_def headerError_NeedMore br_overwrite_def Let_def
        split: if_splits panics.splits option.splits prod.splits io_err.splits)
  with p br_Peek_ok [of r n b r1] show ?thesis by auto
qed

text \<open>
  The loop of \<open>Read\<close> ends because each round that asks for more bytes has at least as many as
  it asked for and never asks for more than the buffer holds.
\<close>

function RequestHeader_Read_loop ::
  "RequestHeader \<Rightarrow> bufreader \<Rightarrow> nat \<Rightarrow> (RequestHeader \<times> read_err option \<times> bufreader) panics" where
  "RequestHeader_Read_loop h r n =
     (case RequestHeader_tryRead h r n of
        Panic \<Rightarrow> Panic
      | Ret (h, None, r) \<Rightarrow> Ret (h, None, r)
      | Ret (h, Some err, r) \<Rightarrow>
          if err \<noteq> NeedMore then Ret (RequestHeader_resetSkipNormalize h, Some err, r)
          else RequestHeader_Read_loop h r (br_Buffered r + 1))"
  by pat_completeness auto
termination
  by (relation "measure (\<lambda>(h, r, n). br_size r + 1 - n)")
    (auto simp: br_Buffered_def dest!: RequestHeader_tryRead_NeedMore)

declare RequestHeader_Read_loop.simps [simp del]

definition RequestHeader_Read ::
  "RequestHeader \<Rightarrow> bufreader \<Rightarrow> (RequestHeader \<times> read_err option \<times> bufreader) panics" where
  "RequestHeader_Read h r = RequestHeader_Read_loop h r 1"


section \<open>Response headers\<close>

definition ResponseHeader_tryRead ::
  "ResponseHeader \<Rightarrow> bufreader \<Rightarrow> nat \<Rightarrow> (ResponseHeader \<times> read_err option \<times> bufreader) panics" where
  "ResponseHeader_tryRead h r n =
     (let h = ResponseHeader_resetSkipNormalize h in
      case br_Peek r n of
        (b, err, r) \<Rightarrow>
          if length b = 0 then
            (if err = Some TimeoutErr then Ret (h, Some ErrTimeout, r)
             else if n = 1 \<or> err = Some EOF then Ret (h, Some ReadEOF, r)
             else if err = Some ErrBufferFull then
               Ret (h, Some (SmallBufferMsg ResponseKind (rs_secureErrorLogMessage h)), r)
             else (case err of
                     Some e \<Rightarrow> Ret (h, Some (ReadHeadersFailed ResponseKind e), r)
                   | None \<Rightarrow> Panic))
          else
            (case mustPeekBuffered r of
               Panic \<Rightarrow> Panic
             | Ret b \<Rightarrow>
                 (case ResponseHeader_parse h b of
                    (h, headersLen, Some errParse, b') \<Rightarrow>
                      Ret (h, Some (headerError ResponseKind err errParse b' (rs_secureErrorLogMessage h)),
                           br_overwrite r b')
                  | (h, headersLen, None, b') \<Rightarrow>
                      (case mustDiscard (br_overwrite r b') (int headersLen) of
                         Panic \<Rightarrow> Panic
                       | Ret r \<Rightarrow> Ret (h, None, r)))))"

lemma ResponseHeader_tryRead_NeedMore:
  assumes "ResponseHeader_tryRead h r n = Ret (h', Some NeedMore, r')"
  shows "n \<le> br_buffered r' \<and> n \<le> br_size r' \<and> br_size r' = br_size r"
proof -
  obtain b err r1 where p: "br_Peek r n = (b, err, r1)" by (cases "br_Peek r n") auto
  have *: "err = None \<and> br_buffered r' = br_buffered r1 \<and> br_size r' = br_size r1"
    using assms p
    by (auto simp: ResponseHeader_tryRead_def headerError_NeedMore br_overwrite_def Let_def
        split: if_splits panics.splits option.splits prod.splits)
  with p br_Peek_ok [of r n b r1] show ?thesis by auto
qed

function ResponseHeader_Read_loop ::
  "ResponseHeader \<Rightarrow> bufreader \<Rightarrow> nat \<Rightarrow> (ResponseHeader \<times> read_err option \<times> bufreader) panics" where
  "ResponseHeader_Read_loop h r n =
     (case ResponseHeader_tryRead h r n of
        Panic \<Rightarrow> Panic
      | Ret (h, None, r) \<Rightarrow> Ret (h, None, r)
      | Ret (h, Some err, r) \<Rightarrow>
          if err \<noteq> NeedMore then Ret (ResponseHeader_resetSkipNormalize h, Some err, r)
          else ResponseHeader_Read_loop h r (br_Buffered r + 1))"
  by pat_completeness auto
termination
  by (relation "measure (\<lambda>(h, r, n). br_size r + 1 - n)")
    (auto simp: br_Buffered_def dest!: ResponseHeader_tryRead_NeedMore)

declare ResponseHeader_Read_loop.simps [simp del]

definition ResponseHeader_Read ::
  "ResponseHeader \<Rightarrow> bufreader \<Rightarrow> (ResponseHeader \<times> read_err option \<times> bufreader) panics" where
  "ResponseHeader_Read h r = ResponseHeader_Read_loop h r 1"

section \<open>The buffered reader: lemmas\<close>

definition br_wf :: "bufreader \<Rightarrow> bool" where
  "br_wf r \<longleftrightarrow> br_buffered r \<le> br_size r \<and> br_buffered r \<le> length (rd_data r)"

text \<open>\<open>Peek\<close> moves bytes into the buffer and nothing else.\<close>

definition br_same :: "bufreader \<Rightarrow> bufreader \<Rightarrow> bool" where
  "br_same r r' \<longleftrightarrow> rd_data r' = rd_data r \<and> rd_err r' = rd_err r \<and> br_size r' = br_size r \<and> br_avail r' = br_avail r
     \<and> br_buffered r \<le> br_buffered r'"

lemma br_fill_wf:
  assumes "br_wf r" and "br_buffered r < br_size r"
  shows "br_same r (fst (br_fill r)) \<and> br_wf (fst (br_fill r))
    \<and> snd (br_fill r) = (if br_buffered r = length (rd_data r) then Some (rd_err r) else None)
    \<and> (snd (br_fill r) = None \<longrightarrow> br_buffered r < br_buffered (fst (br_fill r)))"
  using assms by (auto simp: br_fill_def br_rest_def br_same_def br_wf_def)

lemma br_same_trans: "br_same a b \<Longrightarrow> br_same b c \<Longrightarrow> br_same a c"
  by (auto simp: br_same_def)

lemma br_same_refl [simp]: "br_same a a"
  by (simp add: br_same_def)

lemma br_Peek_loop_spec:
  assumes "br_wf r" and "br_Peek_loop r n = (r', err)"
  shows "br_same r r' \<and> br_wf r'
    \<and> (if n \<le> length (rd_data r) \<and> n \<le> br_size r then n \<le> br_buffered r' \<and> err = None
       else if br_size r \<le> length (rd_data r) then br_buffered r' = br_size r \<and> err = None
       else br_buffered r' = length (rd_data r) \<and> err = Some (rd_err r))"
  using assms
proof (induction r n arbitrary: r' err rule: br_Peek_loop.induct)
  case (1 r n)
  obtain r1 e where f: "br_fill r = (r1, e)" by (cases "br_fill r") auto
  show ?case
  proof (cases "br_buffered r < n \<and> br_buffered r < br_size r")
    case more: True
    note w = br_fill_wf [OF 1(2)]
    show ?thesis
    proof (cases e)
      case None
      have "br_Peek_loop r1 n = (r', err)" using 1(3) f None more by (simp add: br_Peek_loop.simps [of r n])
      moreover have "br_wf r1" "br_same r r1" using w more f by auto
      ultimately have "br_same r1 r' \<and> br_wf r'
        \<and> (if n \<le> length (rd_data r1) \<and> n \<le> br_size r1 then n \<le> br_buffered r' \<and> err = None
           else if br_size r1 \<le> length (rd_data r1) then br_buffered r' = br_size r1 \<and> err = None
           else br_buffered r' = length (rd_data r1) \<and> err = Some (rd_err r1))"
        by (intro "1.IH") (use None f more in auto)
      with \<open>br_same r r1\<close> show ?thesis by (auto simp: br_same_def)
    next
      case (Some x)
      then have "r' = r1" "err = Some x" using 1(3) f more by (simp_all add: br_Peek_loop.simps [of r n])
      moreover have "br_buffered r = length (rd_data r)" "x = rd_err r" "br_same r r1" "br_wf r1"
        using w more f Some by (auto split: if_splits)
      ultimately show ?thesis using more 1(2) f Some by (auto simp: br_same_def br_wf_def)
    qed
  next
    case False
    then have "r' = r" "err = None" using 1(3) by (auto simp: br_Peek_loop.simps [of r n])
    with False 1(2) show ?thesis by (auto simp: br_wf_def)
  qed
qed

lemma br_Peek_spec:
  assumes "br_wf r" and "br_Peek r n = (b, err, r')"
  shows "br_same r r' \<and> br_wf r'
    \<and> (if n \<le> length (rd_data r) \<and> n \<le> br_size r then n \<le> br_buffered r' \<and> err = None \<and> b = take n (rd_data r)
       else if br_size r \<le> length (rd_data r) \<or> br_size r < n
       then br_buffered r' = min (br_size r) (length (rd_data r)) \<and> err = Some ErrBufferFull \<and> b = take (br_buffered r') (rd_data r)
       else br_buffered r' = length (rd_data r) \<and> err = Some (rd_err r) \<and> b = rd_data r)"
proof -
  obtain r1 e where p: "br_Peek_loop r n = (r1, e)" by (cases "br_Peek_loop r n") auto
  show ?thesis
    using br_Peek_loop_spec [OF assms(1) p] assms(2)
    by (auto simp: br_Peek_def p br_same_def br_wf_def split: if_splits)
qed

lemma mustPeekBuffered_ok:
  assumes "br_wf r" and "0 < br_buffered r"
  shows "mustPeekBuffered r = Ret (take (br_buffered r) (rd_data r))"
  using assms
  by (auto simp: mustPeekBuffered_def br_Buffered_def br_Peek_def br_Peek_loop.simps [of r] br_wf_def)

lemma mustDiscard_ok:
  assumes "br_wf r" and "n \<le> br_buffered r"
  shows "mustDiscard r (int n) = Ret (r\<lparr>rd_data := drop n (rd_data r), br_buffered := br_buffered r - n\<rparr>)"
proof (cases "n = 0")
  case False
  with assms have "\<not> (br_rest r = 0 \<and> br_buffered r = 0)" "min (br_buffered r) n = n" by (auto simp: br_wf_def)
  with False assms show ?thesis
    by (simp add: mustDiscard_def br_Discard_def br_Discard_loop.simps Let_def)
qed (simp add: mustDiscard_def br_Discard_def)


section \<open>Incomplete headers: lemmas\<close>

lemma strict_prefix_append:
  "strict_prefix p (a @ b) \<longleftrightarrow> strict_prefix p a \<or> (\<exists>q. p = a @ q \<and> strict_prefix q b)"
  by (auto simp: strict_prefix_def prefix_append)

lemma strict_prefix_line: "10 \<notin> set l \<Longrightarrow> strict_prefix p (l @ [10]) \<Longrightarrow> 10 \<notin> set p"
  by (auto simp: strict_prefix_def prefix_append prefix_Cons dest: set_mono_prefix)

lemma header_line_no_break:
  assumes "header_field_ok kv"
  obtains l where "header_line kv = l @ [10]" and "10 \<notin> set l"
proof -
  obtain k v where kv: "kv = (k, v)" by fastforce
  show thesis using assms kv
    by (intro that [of "k @ 58 # 32 # v @ [13]"])
      (auto simp: header_line_def appendHeaderLine_def str_defs header_field_ok_def header_key_ok_def header_value_ok_def)
qed

lemma readRawHeaders_loop_incomplete:
  assumes "\<And>kv. kv \<in> set kvs \<Longrightarrow> header_field_ok kv" and "strict_prefix q (concat (map header_line kvs) @ [13, 10])"
  shows "\<exists>d m. readRawHeaders_loop dst buf n q = (d, m, Some errNeedMore)"
  using assms
proof (induction kvs arbitrary: n q)
  case Nil
  then have "10 \<notin> set q" using strict_prefix_line [of "[13]" q] by simp
  then have "IndexByte q 10 = None" by simp
  then show ?case by (simp add: readRawHeaders_loop.simps del: IndexByte_None)
next
  case (Cons kv kvs)
  have ok: "header_field_ok kv" using Cons.prems by simp
  have "strict_prefix q (header_line kv) \<or>
      (\<exists>q'. q = header_line kv @ q' \<and> strict_prefix q' (concat (map header_line kvs) @ [13, 10]))"
    using Cons.prems(2) by (simp add: strict_prefix_append)
  then show ?case
  proof
    assume "strict_prefix q (header_line kv)"
    then have "10 \<notin> set q" using header_line_no_break [OF ok] strict_prefix_line by metis
    then have "IndexByte q 10 = None" by simp
    then show ?thesis by (simp add: readRawHeaders_loop.simps del: IndexByte_None)
  next
    assume "\<exists>q'. q = header_line kv @ q' \<and> strict_prefix q' (concat (map header_line kvs) @ [13, 10])"
    then obtain q' where q': "q = header_line kv @ q'" "strict_prefix q' (concat (map header_line kvs) @ [13, 10])"
      by blast
    obtain m where m: "length (header_line kv) = Suc m" "4 \<le> m"
      "\<And>rest. IndexByte (header_line kv @ rest) 10 = Some m"
      using header_line_break [OF ok] by blast
    have "readRawHeaders_loop dst buf n q = readRawHeaders_loop dst buf (n + Suc m) q'"
      using m q'(1) by (subst readRawHeaders_loop.simps) (simp add: Let_def)
    with Cons.IH [OF _ q'(2), of "n + Suc m"] Cons.prems(1) show ?thesis by simp
  qed
qed

lemma readRawHeaders_incomplete:
  assumes "\<And>kv. kv \<in> set kvs \<Longrightarrow> header_field_ok kv" and "strict_prefix q (concat (map header_line kvs) @ [13, 10])"
  shows "\<exists>d m. readRawHeaders dst q = (d, m, Some errNeedMore)"
proof (cases "IndexByte q 10")
  case None
  then show ?thesis by (simp add: readRawHeaders_def del: IndexByte_None)
next
  case (Some n)
  then have q10: "10 \<in> set q" by (metis IndexByte_None option.distinct(1))
  then obtain kv kvs' where kvs: "kvs = kv # kvs'"
    using assms(2) strict_prefix_line [of "[13]" q] by (cases kvs) auto
  have ok: "header_field_ok kv" using assms(1) kvs by simp
  then have "\<not> strict_prefix q (header_line kv)" using q10 header_line_no_break [OF ok] strict_prefix_line by metis
  then obtain q' where q': "q = header_line kv @ q'" "strict_prefix q' (concat (map header_line kvs') @ [13, 10])"
    using assms(2) kvs strict_prefix_append [of q "header_line kv" "concat (map header_line kvs') @ [13, 10]"] by auto
  obtain m where m: "length (header_line kv) = Suc m" "4 \<le> m" "\<And>rest. IndexByte (header_line kv @ rest) 10 = Some m"
    using header_line_break [OF ok] by blast
  have "readRawHeaders dst q = readRawHeaders_loop dst q (Suc m) q'"
    using m q'(1) by (simp add: readRawHeaders_def)
  then show ?thesis using readRawHeaders_loop_incomplete [OF _ q'(2)] assms(1) kvs by simp
qed

lemma RequestHeader_parse_incomplete:
  assumes "request_ok d h" and "strict_prefix p (RequestHeader_AppendBytes h [])"
  shows "\<exists>g'. RequestHeader_parse g p = (g', 0, Some errNeedMore, p) \<and> rq_disableNormalizing g' = rq_disableNormalizing g"
proof -
  let ?blk = "concat (map header_line (request_fields h)) @ [13, 10]"
  let ?l = "RequestHeader_Method h @ 32 # RequestHeader_RequestURI h @ 32 # RequestHeader_Protocol h @ [13]"
  have line: "request_line h = ?l @ [10]" "10 \<notin> set ?l"
    using assms(1) by (simp_all add: request_line_def str_defs request_ok_def request_line_ok_def)
  have "strict_prefix p (request_line h) \<or> (\<exists>q. p = request_line h @ q \<and> strict_prefix q ?blk)"
    using assms(2) unfolding RequestHeader_AppendBytes_fields by (simp add: strict_prefix_append strCRLF_def)
  then show ?thesis
  proof
    assume "strict_prefix p (request_line h)"
    then have "10 \<notin> set p" using strict_prefix_line line by metis
    then have "IndexByte p 10 = None" by simp
    then have "firstLine p = None" by (simp add: firstLine.simps nextLine_def del: IndexByte_None)
    then show ?thesis by (simp add: RequestHeader_parse_def RequestHeader_parseFirstLine_def)
  next
    assume "\<exists>q. p = request_line h @ q \<and> strict_prefix q ?blk"
    then obtain q where q: "p = request_line h @ q" "strict_prefix q ?blk" by blast
    obtain raw m where "readRawHeaders [] q = (raw, m, Some errNeedMore)"
      using readRawHeaders_incomplete [OF request_fields_ok [OF assms(1)] q(2)] by blast
    moreover have "request_line_ok h" using assms(1) by (simp add: request_ok_def)
    ultimately show ?thesis using parseFirstLine_print [of h g q] q(1) by (simp add: RequestHeader_parse_def)
  qed
qed

section \<open>Properties\<close>

text \<open>One round of \<open>Read\<close> while the header is incomplete, and the round that completes it.\<close>

lemma tryRead_round:
  assumes "br_wf r" and "0 < n" and "n \<le> length (rd_data r)" and "n \<le> br_size r"
  obtains r1 where "br_same r r1" and "br_wf r1" and "n \<le> br_buffered r1"
    and "RequestHeader_tryRead g r n =
      (case RequestHeader_parse (RequestHeader_resetSkipNormalize g) (take (br_buffered r1) (rd_data r)) of
         (h, headersLen, Some errParse, b') \<Rightarrow>
           Ret (h, Some (headerError RequestKind None errParse b' (rq_secureErrorLogMessage h)), br_overwrite r1 b')
       | (h, headersLen, None, b') \<Rightarrow>
           (case mustDiscard (br_overwrite r1 b') headersLen of Panic \<Rightarrow> Panic | Ret r \<Rightarrow> Ret (h, None, r)))"
proof -
  obtain b err r1 where p: "br_Peek r n = (b, err, r1)" by (cases "br_Peek r n") auto
  have s: "br_same r r1" "br_wf r1" "n \<le> br_buffered r1" "err = None" "b = take n (rd_data r)"
    using br_Peek_spec [OF assms(1) p] assms(3,4) by auto
  then have "mustPeekBuffered r1 = Ret (take (br_buffered r1) (rd_data r))"
    using mustPeekBuffered_ok [of r1] assms(2) by (simp add: br_same_def)
  moreover have "b \<noteq> []" using s(5) assms(2,3) by auto
  ultimately show thesis using p s by (intro that [of r1]) (simp_all add: RequestHeader_tryRead_def)
qed

lemma overwrite_same: "br_overwrite r (take n (rd_data r)) = r"
proof -
  have "take n (rd_data r) @ drop (min (length (rd_data r)) n) (rd_data r) = rd_data r"
    by (cases "n \<le> length (rd_data r)") simp_all
  then show ?thesis by (simp add: br_overwrite_def)
qed

text \<open>What \<open>Read\<close> gives back of a printed header.\<close>

definition request_read_back :: "RequestHeader \<Rightarrow> RequestHeader \<Rightarrow> bool" where
  "request_read_back h g \<longleftrightarrow>
     rq_method g = RequestHeader_Method h \<and> rq_requestURI g = RequestHeader_RequestURI h
     \<and> rq_proto g = RequestHeader_Protocol h \<and> rq_userAgent g = rq_userAgent h \<and> rq_host g = rq_host h
     \<and> rq_contentType g = printed_content_type h \<and> rq_contentLengthBytes g = rq_contentLengthBytes h
     \<and> rq_contentLength g = (if rq_contentLengthBytes h = [] then -2 else rq_contentLength h)
     \<and> map kv_pair (live (rq_h g)) = map kv_pair (live (rq_h h)) @ cookie_fields h
     \<and> rq_connectionClose g = (rq_connectionClose h \<or> RequestHeader_Protocol h \<noteq> strHTTP11)"

text \<open>One try on a printed header: it is not yet in the buffer, or it is read.\<close>

lemma tryRead_complete:
  assumes "request_ok (rq_disableNormalizing g) h" and "br_wf r" and "0 < n"
    and "rd_data r = RequestHeader_AppendBytes h [] @ body" and "n \<le> length (RequestHeader_AppendBytes h [])"
    and "length (RequestHeader_AppendBytes h []) \<le> br_size r"
  obtains (more) g1 r1 where "RequestHeader_tryRead g r n = Ret (g1, Some NeedMore, r1)"
      and "rq_disableNormalizing g1 = rq_disableNormalizing g" and "br_same r r1" and "br_wf r1"
      and "br_buffered r1 < length (RequestHeader_AppendBytes h [])"
    | (ready) g' r' where "RequestHeader_tryRead g r n = Ret (g', None, r')" and "request_read_back h g'"
      and "rd_data r' = body" and "rd_err r' = rd_err r" and "br_wf r'" and "br_size r' = br_size r"
proof -
  let ?s = "RequestHeader_AppendBytes h []" and ?g0 = "RequestHeader_resetSkipNormalize g"
  have len: "n \<le> length (rd_data r)" "n \<le> br_size r" using assms(4-6) by auto
  obtain r1 where r1: "br_same r r1" "br_wf r1" "n \<le> br_buffered r1" "RequestHeader_tryRead g r n =
      (case RequestHeader_parse ?g0 (take (br_buffered r1) (rd_data r)) of
         (h, headersLen, Some errParse, b') \<Rightarrow>
           Ret (h, Some (headerError RequestKind None errParse b' (rq_secureErrorLogMessage h)), br_overwrite r1 b')
       | (h, headersLen, None, b') \<Rightarrow>
           (case mustDiscard (br_overwrite r1 b') headersLen of Panic \<Rightarrow> Panic | Ret r \<Rightarrow> Ret (h, None, r)))"
    by (rule tryRead_round [OF assms(2,3) len, where g = g]) (rule that)
  let ?k = "br_buffered r1"
  have data: "rd_data r1 = ?s @ body" using r1(1) assms(4) by (simp add: br_same_def)
  show thesis
  proof (cases "?k < length ?s")
    case True
    then have "strict_prefix (take ?k (rd_data r)) ?s"
      using assms(4) by (auto simp: strict_prefix_def take_is_prefix)
    then obtain g1 where g1: "RequestHeader_parse ?g0 (take ?k (rd_data r)) = (g1, 0, Some errNeedMore, take ?k (rd_data r))"
      and d: "rq_disableNormalizing g1 = rq_disableNormalizing g"
      using RequestHeader_parse_incomplete [OF assms(1), of _ ?g0]
      by (auto simp: RequestHeader_resetSkipNormalize_def)
    have tr: "RequestHeader_tryRead g r n = Ret (g1, Some NeedMore, r1)"
      using r1(4) g1 data assms(4) overwrite_same [of r1 ?k] by (simp add: headerError_def)
    from more [OF this d r1(1,2) True] show thesis .
  next
    case False
    let ?b = "take (?k - length ?s) body"
    have b: "take ?k (rd_data r) = ?s @ ?b" using False assms(4) by simp
    obtain g' buf' where g': "RequestHeader_parse ?g0 (?s @ ?b) = (g', int (length ?s), None, buf')"
      "drop (length ?s) buf' = ?b" "length buf' = length (?s @ ?b)" "request_read_back h g'"
      using request_print_parse [OF assms(1), of ?b] unfolding request_read_back_def by blast
    have k: "?k = length (?s @ ?b)" using r1(2) False data by (auto simp: br_wf_def min_def)
    have rest: "drop ?k (rd_data r1) = drop (?k - length ?s) body" using False data by simp
    let ?r = "br_overwrite r1 buf'"
    have "br_wf ?r" "length ?s \<le> br_buffered ?r"
      using r1(2) False g'(3) k by (auto simp: br_wf_def br_overwrite_def)
    then have "mustDiscard ?r (int (length ?s)) =
        Ret (?r\<lparr>rd_data := drop (length ?s) (rd_data ?r), br_buffered := br_buffered ?r - length ?s\<rparr>)"
      by (rule mustDiscard_ok)
    moreover have "drop (length ?s) (rd_data ?r) = body"
      using g'(2,3) k rest by (simp add: br_overwrite_def)
    ultimately have "RequestHeader_tryRead g r n =
        Ret (g', None, ?r\<lparr>rd_data := body, br_buffered := ?k - length ?s\<rparr>)"
      unfolding r1(4) b using g'(1) by (simp add: br_overwrite_def)
    moreover have "?k - length ?s \<le> length body" using r1(2) data by (auto simp: br_wf_def)
    ultimately show thesis using g'(4) r1(1,2)
      by (intro ready [of g' "?r\<lparr>rd_data := body, br_buffered := ?k - length ?s\<rparr>"])
        (auto simp: br_same_def br_wf_def br_overwrite_def)
  qed
qed

lemma Read_loop_complete:
  assumes "request_ok (rq_disableNormalizing g) h" and "br_wf r" and "0 < n"
    and "rd_data r = RequestHeader_AppendBytes h [] @ body" and "n \<le> length (RequestHeader_AppendBytes h [])"
    and "length (RequestHeader_AppendBytes h []) \<le> br_size r"
  shows "\<exists>g' r'. RequestHeader_Read_loop g r n = Ret (g', None, r') \<and> request_read_back h g'
    \<and> rd_data r' = body \<and> rd_err r' = rd_err r \<and> br_wf r' \<and> br_size r' = br_size r"
  using assms
proof (induction g r n rule: RequestHeader_Read_loop.induct)
  case (1 g r n)
  from 1(2-7) show ?case
  proof (cases rule: tryRead_complete)
    case (more g1 r1)
    have "\<exists>g' r'. RequestHeader_Read_loop g1 r1 (br_Buffered r1 + 1) = Ret (g', None, r') \<and> request_read_back h g'
        \<and> rd_data r' = body \<and> rd_err r' = rd_err r1 \<and> br_wf r' \<and> br_size r' = br_size r1"
      by (rule "1.IH" [OF more(1) refl refl refl])
        (use 1(2,5,7) more in \<open>auto simp: br_Buffered_def br_same_def\<close>)
    then show ?thesis using more(1,3) by (simp add: RequestHeader_Read_loop.simps [of g r n] br_same_def)
  next
    case (ready g' r')
    then show ?thesis by (simp add: RequestHeader_Read_loop.simps [of g r n])
  qed
qed


text \<open>
  C4. Reading a request header from a connection does not depend on how its bytes arrive: as
  long as the header fits into the reader's buffer, \<open>Read\<close> returns the header that was printed
  and leaves the reader at the first byte of the body, for every way of cutting the stream into
  reads and for every part of it that is already buffered.
\<close>

theorem RequestHeader_Read_any_chunks:
  assumes "request_ok (rq_disableNormalizing g) h" and "br_wf r"
    and "rd_data r = RequestHeader_AppendBytes h [] @ body"
    and "length (RequestHeader_AppendBytes h []) \<le> br_size r"
  shows "\<exists>g' r'. RequestHeader_Read g r = Ret (g', None, r') \<and> request_read_back h g'
    \<and> rd_data r' = body \<and> rd_err r' = rd_err r \<and> br_wf r' \<and> br_size r' = br_size r"
proof -
  have "0 < length (RequestHeader_AppendBytes h [])"
    by (simp add: RequestHeader_AppendBytes_fields request_line_def)
  then have "1 \<le> length (RequestHeader_AppendBytes h [])" by linarith
  then show ?thesis unfolding RequestHeader_Read_def using assms by (intro Read_loop_complete) simp_all
qed

theorem RequestHeader_Read_any_chunks_witness:
  "let r = \<lparr>rd_data = RequestHeader_AppendBytes example_request [] @ bytes_of ''hello'', rd_err = EOF,
        br_size = 4096, br_buffered = 0, br_avail = (\<lambda>_. 1)\<rparr>
   in \<exists>g' r'. RequestHeader_Read example_request r = Ret (g', None, r')
        \<and> rd_data r' = bytes_of ''hello'' \<and> rq_contentLength g' = 5"
proof -
  let ?r = "\<lparr>rd_data = RequestHeader_AppendBytes example_request [] @ bytes_of ''hello'', rd_err = EOF,
      br_size = 4096, br_buffered = 0, br_avail = (\<lambda>_. 1)\<rparr> :: bufreader"
  have "request_ok (rq_disableNormalizing example_request) example_request" by (rule example_request_ok)
  moreover have "length (RequestHeader_AppendBytes example_request []) \<le> 4096" by code_simp
  moreover have "br_wf ?r" by (simp add: br_wf_def)
  ultimately show ?thesis
    using RequestHeader_Read_any_chunks [of example_request example_request ?r "bytes_of ''hello''"]
    by (auto simp: request_read_back_def example_request_def)
qed

text \<open>Headers that never get complete: the rounds before the last one, and the last one.\<close>

lemma tryRead_incomplete:
  assumes "request_ok d h" and "br_wf r" and "strict_prefix (take (br_size r) (rd_data r)) (RequestHeader_AppendBytes h [])"
    and "0 < n" and "n \<le> length (rd_data r)" and "n \<le> br_size r"
  obtains g1 r1 where "RequestHeader_tryRead g r n = Ret (g1, Some NeedMore, r1)" and "br_same r r1" and "br_wf r1"
    and "n \<le> br_buffered r1"
proof -
  let ?g0 = "RequestHeader_resetSkipNormalize g"
  obtain r1 where r1: "br_same r r1" "br_wf r1" "n \<le> br_buffered r1" "RequestHeader_tryRead g r n =
      (case RequestHeader_parse ?g0 (take (br_buffered r1) (rd_data r)) of
         (h, headersLen, Some errParse, b') \<Rightarrow>
           Ret (h, Some (headerError RequestKind None errParse b' (rq_secureErrorLogMessage h)), br_overwrite r1 b')
       | (h, headersLen, None, b') \<Rightarrow>
           (case mustDiscard (br_overwrite r1 b') headersLen of Panic \<Rightarrow> Panic | Ret r \<Rightarrow> Ret (h, None, r)))"
    by (rule tryRead_round [OF assms(2,4-6), where g = g]) (rule that)
  have "br_buffered r1 \<le> br_size r" using r1(1,2) by (simp add: br_same_def br_wf_def)
  then have "prefix (take (br_buffered r1) (rd_data r)) (take (br_size r) (rd_data r))"
    by (metis min.absorb1 take_is_prefix take_take)
  then have "strict_prefix (take (br_buffered r1) (rd_data r)) (RequestHeader_AppendBytes h [])"
    using assms(3) by (metis prefix_order.le_less_trans)
  then obtain g1 where "RequestHeader_parse ?g0 (take (br_buffered r1) (rd_data r)) =
      (g1, 0, Some errNeedMore, take (br_buffered r1) (rd_data r))"
    using RequestHeader_parse_incomplete [OF assms(1)] by blast
  then have "RequestHeader_tryRead g r n = Ret (g1, Some NeedMore, r1)"
    using r1(1,4) overwrite_same [of r1 "br_buffered r1"] by (simp add: headerError_def br_same_def)
  then show thesis using r1(1-3) by (rule that)
qed

definition incomplete_error :: "bool \<Rightarrow> bufreader \<Rightarrow> read_err" where
  "incomplete_error secure r =
     (let b = take (br_size r) (rd_data r) in
      if br_size r \<le> length (rd_data r) then ErrSmallBuffer (headerErrorMsg RequestKind CauseSmallBuffer b secure)
      else headerErrorMsg RequestKind (CauseIO (rd_err r)) b secure)"

lemma tryRead_last:
  assumes "request_ok d h" and "br_wf r" and "strict_prefix (take (br_size r) (rd_data r)) (RequestHeader_AppendBytes h [])"
    and "\<not> isOnlyCRLF (take (br_size r) (rd_data r))" and "rd_err r \<noteq> ErrBufferFull"
    and "n = Suc (length (take (br_size r) (rd_data r)))"
  shows "\<exists>g1 r1 secure. RequestHeader_tryRead g r n = Ret (g1, Some (incomplete_error secure r), r1)"
proof -
  let ?g0 = "RequestHeader_resetSkipNormalize g" and ?b = "take (br_size r) (rd_data r)"
  obtain b err r1 where p: "br_Peek r n = (b, err, r1)" by (cases "br_Peek r n") auto
  have "isOnlyCRLF []" by (simp add: isOnlyCRLF_def)
  then have nonempty: "?b \<noteq> []" using assms(4) by metis
  have s: "br_same r r1" "br_wf r1" "br_buffered r1 = length ?b" "b = ?b" "err =
      Some (if br_size r \<le> length (rd_data r) then ErrBufferFull else rd_err r)"
    using br_Peek_spec [OF assms(2) p] assms(6) by (auto simp: min_def split: if_splits)
  moreover have "take (length ?b) (rd_data r) = ?b" by (cases "br_size r \<le> length (rd_data r)") simp_all
  ultimately have "mustPeekBuffered r1 = Ret ?b"
    using mustPeekBuffered_ok [of r1] nonempty by (simp add: br_same_def)
  moreover obtain g1 where "RequestHeader_parse ?g0 ?b = (g1, 0, Some errNeedMore, ?b)"
    using RequestHeader_parse_incomplete [OF assms(1,3)] by blast
  ultimately show ?thesis
    using p s(4,5) nonempty assms(4,5)
    by (auto simp: RequestHeader_tryRead_def headerError_def incomplete_error_def Let_def)
qed

lemma Read_loop_incomplete:
  assumes "request_ok d h" and "br_wf r" and "strict_prefix (take (br_size r) (rd_data r)) (RequestHeader_AppendBytes h [])"
    and "\<not> isOnlyCRLF (take (br_size r) (rd_data r))" and "rd_err r \<noteq> ErrBufferFull"
    and "0 < n" and "n \<le> Suc (length (take (br_size r) (rd_data r)))"
  shows "\<exists>g' r' secure. RequestHeader_Read_loop g r n = Ret (g', Some (incomplete_error secure r), r')"
  using assms
proof (induction g r n rule: RequestHeader_Read_loop.induct)
  case (1 g r n)
  show ?case
  proof (cases "n = Suc (length (take (br_size r) (rd_data r)))")
    case True
    obtain g1 r1 secure where "RequestHeader_tryRead g r n = Ret (g1, Some (incomplete_error secure r), r1)"
      using tryRead_last [OF 1(2-6) True] by blast
    then show ?thesis
      by (auto simp: RequestHeader_Read_loop.simps [of g r n] incomplete_error_def headerErrorMsg_def Let_def)
  next
    case False
    then have n: "n \<le> length (rd_data r)" "n \<le> br_size r" using 1(8) by auto
    obtain g1 r1 where r1: "RequestHeader_tryRead g r n = Ret (g1, Some NeedMore, r1)" "br_same r r1" "br_wf r1"
      "n \<le> br_buffered r1"
      using tryRead_incomplete [OF 1(2-4,7) n] by blast
    then have same: "rd_data r1 = rd_data r" "br_size r1 = br_size r" "rd_err r1 = rd_err r"
      by (simp_all add: br_same_def)
    have "\<exists>g' r' secure. RequestHeader_Read_loop g1 r1 (br_Buffered r1 + 1) = Ret (g', Some (incomplete_error secure r1), r')"
      by (rule "1.IH" [OF r1(1) refl refl refl])
        (use 1(2,4-6) r1(3) same in \<open>auto simp: br_Buffered_def br_wf_def\<close>)
    moreover have "incomplete_error secure r1 = incomplete_error secure r" for secure
      using same by (simp add: incomplete_error_def Let_def)
    ultimately show ?thesis using r1(1) by (simp add: RequestHeader_Read_loop.simps [of g r n])
  qed
qed

text \<open>
  C21. When the header cannot be completed, \<open>Read\<close> ends with an error and never with a header:
  a header longer than the buffer gives \<open>ErrSmallBuffer\<close>, a connection that fails inside the
  header gives its error, and one that is closed before the first byte gives EOF.
\<close>

theorem RequestHeader_Read_incomplete:
  assumes "br_wf r" and "rd_err r \<noteq> ErrBufferFull" and "request_ok d h"
    and "hd (RequestHeader_Method h) \<noteq> 13" and "0 < br_size r"
  shows "(strict_prefix (take (br_size r) (rd_data r)) (RequestHeader_AppendBytes h []) \<and> rd_data r \<noteq> [] \<longrightarrow>
      (\<exists>g' r' secure. RequestHeader_Read g r = Ret (g', Some (
         let b = take (br_size r) (rd_data r) in
         if br_size r \<le> length (rd_data r) then ErrSmallBuffer (headerErrorMsg RequestKind CauseSmallBuffer b secure)
         else headerErrorMsg RequestKind (CauseIO (rd_err r)) b secure), r')))
    \<and> (rd_data r = [] \<longrightarrow>
      (\<exists>g' r'. RequestHeader_Read g r = Ret (g', Some (if rd_err r = EOF then ReadEOF else ErrNothingRead (rd_err r)), r')))"
proof (intro conjI impI)
  assume *: "strict_prefix (take (br_size r) (rd_data r)) (RequestHeader_AppendBytes h []) \<and> rd_data r \<noteq> []"
  let ?b = "take (br_size r) (rd_data r)"
  have "?b \<noteq> []" using * assms(5) by simp
  moreover have "prefix ?b (RequestHeader_AppendBytes h [])" using * by (simp add: strict_prefix_def)
  ultimately have "hd ?b = hd (RequestHeader_AppendBytes h [])" by (auto simp: prefix_def)
  also have "\<dots> = hd (RequestHeader_Method h)"
    using Method_nonempty [of h] by (simp add: RequestHeader_AppendBytes_fields request_line_def)
  finally have hd: "hd ?b = hd (RequestHeader_Method h)" .
  have "10 \<notin> set (RequestHeader_Method h)" using assms(3) by (simp add: request_ok_def request_line_ok_def)
  then have "hd ?b \<noteq> 13" "hd ?b \<noteq> 10"
    using assms(4) hd Method_nonempty [of h] by (metis hd_in_set)+
  with \<open>?b \<noteq> []\<close> have "\<not> isOnlyCRLF ?b" by (cases ?b) (auto simp: isOnlyCRLF_def)
  then have "\<exists>g' r' secure. RequestHeader_Read_loop g r 1 = Ret (g', Some (incomplete_error secure r), r')"
    using * assms(1-3) by (intro Read_loop_incomplete) auto
  then show "\<exists>g' r' secure. RequestHeader_Read g r = Ret (g', Some (
         let b = take (br_size r) (rd_data r) in
         if br_size r \<le> length (rd_data r) then ErrSmallBuffer (headerErrorMsg RequestKind CauseSmallBuffer b secure)
         else headerErrorMsg RequestKind (CauseIO (rd_err r)) b secure), r')"
    by (simp add: RequestHeader_Read_def incomplete_error_def)
next
  assume empty: "rd_data r = []"
  obtain b err r1 where p: "br_Peek r 1 = (b, err, r1)" by (cases "br_Peek r 1") auto
  have "b = []" "err = Some (rd_err r)" using br_Peek_spec [OF assms(1) p] empty assms(5) by auto
  with p assms(2) show "\<exists>g' r'. RequestHeader_Read g r =
      Ret (g', Some (if rd_err r = EOF then ReadEOF else ErrNothingRead (rd_err r)), r')"
    by (cases "rd_err r") (simp_all add: RequestHeader_Read_def RequestHeader_Read_loop.simps [of g r]
        RequestHeader_tryRead_def)
qed

theorem RequestHeader_Read_incomplete_witness:
  "let r = \<lparr>rd_data = take 20 (RequestHeader_AppendBytes example_request []), rd_err = EOF,
        br_size = 16, br_buffered = 0, br_avail = (\<lambda>_. 3)\<rparr>
   in \<exists>g' r' m. RequestHeader_Read example_request r = Ret (g', Some (ErrSmallBuffer m), r')"
proof -
  let ?r = "\<lparr>rd_data = take 20 (RequestHeader_AppendBytes example_request []), rd_err = EOF,
      br_size = 16, br_buffered = 0, br_avail = (\<lambda>_. 3)\<rparr> :: bufreader"
  note 1 = example_request_ok(1)
  have 2: "hd (RequestHeader_Method example_request) \<noteq> 13" by code_simp
  have 3: "length (RequestHeader_AppendBytes example_request []) \<ge> 20" by code_simp
  have 4: "RequestHeader_AppendBytes example_request [] \<noteq> []" using 3 by auto
  have "strict_prefix (take 16 (RequestHeader_AppendBytes example_request [])) (RequestHeader_AppendBytes example_request [])"
    using 3 by (auto simp: strict_prefix_def take_is_prefix)
  with RequestHeader_Read_incomplete [of ?r False example_request example_request] 1 2 3 4 show ?thesis
    by (auto simp: br_wf_def Let_def)
qed

section \<open>Where the code departs from its intent\<close>


text \<open>Lines with their line breaks.\<close>

definition crlf_lines :: "string list \<Rightarrow> bytes" where
  "crlf_lines ls = concat (map (\<lambda>l. bytes_of l @ strCRLF) ls)"

text \<open>
  A header whose value is folded over two lines loses the position of the body. Closing the
  gap moves the rest of the buffer down, and the two header types count the moved bytes
  differently: a response skips as many bytes of the body as the gap had, and a request leaves
  as many copied bytes behind the body, where the next request is read from.
\<close>

theorem folded_header_shifts_body:
  "(case ResponseHeader_parse (ResponseHeader_resetSkipNormalize example_response)
       (crlf_lines [''HTTP/1.1 200 OK'', ''A: b'', '' c'', ''Content-Length: 3'', ''''] @ bytes_of ''xyz'') of
      (h, n, err, buf) \<Rightarrow> err = None \<and> rs_contentLength h = 3 \<and> drop n buf = bytes_of ''zyz'')
   \<and> (case RequestHeader_parse (RequestHeader_resetSkipNormalize example_request)
       (crlf_lines [''PUT / HTTP/1.1'', ''A: b'', '' c'', ''Content-Length: 3'', ''''] @ bytes_of ''xyz'') of
      (h, n, err, buf) \<Rightarrow> err = None \<and> rq_contentLength h = 3 \<and> drop (nat n) buf = bytes_of ''xyzyz'')"
  by code_simp

text \<open>
  \<open>HasAcceptEncoding\<close> finds an encoding after a comma only when a blank follows the comma.
\<close>

lemma HasAcceptEncoding_needs_blank:
  "\<not> RequestHeader_HasAcceptEncodingBytes
      (RequestHeader_Set example_request (bytes_of ''Accept-Encoding'') (bytes_of ''deflate,gzip'')) (bytes_of ''gzip'')
   \<and> RequestHeader_HasAcceptEncodingBytes
      (RequestHeader_Set example_request (bytes_of ''Accept-Encoding'') (bytes_of ''deflate, gzip'')) (bytes_of ''gzip'')"
  by code_simp

text \<open>
  \<open>Set\<close> blanks line breaks in a value, \<open>Add\<close> does not: a value with a line break becomes a
  header of its own in what is printed, and the parser takes it for one.
\<close>

lemma Add_injects_header:
  "rq_host (fst (RequestHeader_parse (RequestHeader_resetSkipNormalize example_request)
     (RequestHeader_AppendBytes (RequestHeader_Add example_request (bytes_of ''X-A'')
        (bytes_of ''1'' @ strCRLF @ bytes_of ''Host: evil'')) []))) = bytes_of ''evil''
   \<and> rq_host (fst (RequestHeader_parse (RequestHeader_resetSkipNormalize example_request)
     (RequestHeader_AppendBytes (RequestHeader_Set example_request (bytes_of ''X-A'')
        (bytes_of ''1'' @ strCRLF @ bytes_of ''Host: evil'')) []))) = rq_host example_request"
  by code_simp

end
