(* ===== verification/Body.thy ===== *)
theory Body
  imports HeaderRead
begin

text \<open>
  Message bodies of \<^verbatim>\<open>http.go\<close>: fixed-size, chunked and identity bodies, reading and writing. A
  reader is the stream of bytes still to come and the error behind it, as in \<^verbatim>\<open>bytesconv.go\<close>.
  One call of \<^verbatim>\<open>bufio.Reader.Read\<close> returns some of those bytes; how many is up to the buffer and
  the connection, and is given by the argument \<open>avail\<close>, a function of the number of bytes left.
  A buffer \<open>dst\<close> is its visible bytes and its capacity; \<open>Panic\<close> is a Go panic.
\<close>


section \<open>Buffers and readers\<close>

datatype body_err =
  ErrBodyTooLarge
  | ErrBrokenChunk
  | errChunkedStream
  | BodyHexErr hex_err
  | BodyIOErr io_err

text \<open>\<open>round2\<close> works on the low 32 bits of its argument.\<close>

definition round2 :: "int \<Rightarrow> int" where
  "round2 n =
     (if n \<le> 0 then 0
      else
        (let x = (word_of_int (n - 1) :: 32 word);
             x = x OR drop_bit 1 x;
             x = x OR drop_bit 2 x;
             x = x OR drop_bit 4 x;
             x = x OR drop_bit 8 x;
             x = x OR drop_bit 16 x
         in uint (x + 1)))"

text \<open>One \<open>Read\<close> into a slice of \<open>len\<close> bytes: the bytes, and the error when there are none.\<close>

definition reader_Read :: "(nat \<Rightarrow> nat) \<Rightarrow> reader \<Rightarrow> nat \<Rightarrow> bytes \<times> io_err option \<times> reader" where
  "reader_Read avail r len =
     (let left = length (rd_data r) in
      if len = 0 then ([], None, r)
      else if left = 0 then ([], Some (rd_err r), r)
      else
        (let nn = min len (min left (max 1 (avail left)))
         in (take nn (rd_data r), None, r\<lparr>rd_data := drop nn (rd_data r)\<rparr>)))"

lemma reader_Read_progress:
  assumes "reader_Read avail r len = (p, err, r')"
  shows "length p \<le> len \<and> rd_data r = p @ rd_data r' \<and> rd_err r' = rd_err r
    \<and> (0 < len \<longrightarrow> (p = [] \<longleftrightarrow> rd_data r = []) \<and> err = (if p = [] then Some (rd_err r) else None))"
  using assms by (auto simp: reader_Read_def Let_def min_def max_def split: if_splits)

lemma reader_Read_parts:
  assumes "reader_Read avail r len = (p, err, r')" and "0 < len"
  shows "length p \<le> len" and "rd_data r = p @ rd_data r'" and "rd_err r' = rd_err r" and "p = [] \<longleftrightarrow> rd_data r = []"
    and "err = (if p = [] then Some (rd_err r) else None)"
  using reader_Read_progress [OF assms(1)] assms(2) by argo+

definition reader_ReadByte :: "reader \<Rightarrow> (byte + io_err) \<times> reader" where
  "reader_ReadByte r =
     (case rd_data r of
        [] \<Rightarrow> (Inr (rd_err r), r)
      | c # cs \<Rightarrow> (Inl c, r\<lparr>rd_data := cs\<rparr>))"


section \<open>Fixed-size bodies\<close>

text \<open>
  The loop fills \<open>dst\<close> up to \<open>dstLen\<close>; \<open>dst\<close> is what has been filled so far, so its length is
  the variable \<^verbatim>\<open>offset\<close>.
\<close>

function appendBodyFixedSize_loop ::
  "(nat \<Rightarrow> nat) \<Rightarrow> reader \<Rightarrow> bytes \<Rightarrow> nat \<Rightarrow> (bytes \<times> body_err option \<times> reader) panics" where
  "appendBodyFixedSize_loop avail r dst dstLen =
     (case reader_Read avail r (dstLen - length dst) of
        (p, err, r') \<Rightarrow>
          if length p = 0 then
            (case err of
               Some err \<Rightarrow>
                 Ret (dst, Some (BodyIOErr (if err = EOF then ErrUnexpectedEOF else err)), r')
             | None \<Rightarrow> Panic)
          else if length (dst @ p) = dstLen then Ret (dst @ p, None, r')
          else appendBodyFixedSize_loop avail r' (dst @ p) dstLen)"
  by pat_completeness auto
termination
  by (relation "measure (\<lambda>(avail, r, dst, dstLen). dstLen - length dst)")
    (auto dest!: reader_Read_progress [OF sym] simp flip: length_greater_0_conv)

declare appendBodyFixedSize_loop.simps [simp del]

definition appendBodyFixedSize ::
  "(nat \<Rightarrow> nat) \<Rightarrow> reader \<Rightarrow> bytes \<Rightarrow> nat \<Rightarrow> nat \<Rightarrow> (bytes \<times> nat \<times> body_err option \<times> reader) panics" where
  "appendBodyFixedSize avail r dst capacity n =
     (if n = 0 then Ret (dst, capacity, None, r)
      else
        (let dstLen = length dst + n;
             capacity = (if capacity < dstLen then nat (round2 (int dstLen)) else capacity)
         in if dstLen > capacity then Panic
            else
              (case appendBodyFixedSize_loop avail r dst dstLen of
                 Panic \<Rightarrow> Panic
               | Ret (dst, err, r) \<Rightarrow> Ret (dst, capacity, err, r))))"


section \<open>Chunked bodies\<close>

definition readCrLf :: "reader \<Rightarrow> body_err option \<times> reader" where
  "readCrLf r =
     (case reader_ReadByte r of
        (Inr err, r) \<Rightarrow> (Some ErrBrokenChunk, r)
      | (Inl c, r) \<Rightarrow>
          if c \<noteq> rChar then (Some ErrBrokenChunk, r)
          else
            (case reader_ReadByte r of
               (Inr err, r) \<Rightarrow> (Some ErrBrokenChunk, r)
             | (Inl c, r) \<Rightarrow> if c \<noteq> nChar then (Some ErrBrokenChunk, r) else (None, r)))"

text \<open>The loop that skips blanks after the size; the byte that ends it is read back.\<close>

fun skip_blanks :: "bytes \<Rightarrow> bytes" where
  "skip_blanks [] = []"
| "skip_blanks (c # cs) = (if c = ch CHR '' '' then skip_blanks cs else c # cs)"

definition parseChunkSize :: "reader \<Rightarrow> int \<times> body_err option \<times> reader" where
  "parseChunkSize r =
     (case readHexInt r of
        (n, Some err, r) \<Rightarrow> (-1, Some (BodyHexErr err), r)
      | (n, None, r) \<Rightarrow>
          (let r = r\<lparr>rd_data := skip_blanks (rd_data r)\<rparr> in
           if rd_data r = [] then (-1, Some ErrBrokenChunk, r)
           else
             (case readCrLf r of
                (Some err, r) \<Rightarrow> (-1, Some err, r)
              | (None, r) \<Rightarrow> (n, None, r))))"


lemma skip_blanks_length: "length (skip_blanks b) \<le> length b"
  by (induction b) auto

lemma readHexInt_loop_length:
  "readHexInt_loop b e n i = (v, None, rest) \<Longrightarrow> length rest \<le> length b \<and> (i = 0 \<longrightarrow> length rest < length b)"
proof (induction b e n i rule: readHexInt_loop.induct)
  case (2 c cs err n i)
  then show ?case by (fastforce simp: Let_def split: if_splits)
qed (simp split: if_splits)

lemma parseChunkSize_shrinks:
  assumes "parseChunkSize r = (n, None, r')"
  shows "length (rd_data r') < length (rd_data r)"
proof -
  obtain v e rest where h: "readHexInt_loop (rd_data r) (rd_err r) 0 0 = (v, e, rest)"
    by (cases "readHexInt_loop (rd_data r) (rd_err r) 0 0") auto
  have e: "e = None"
    using assms h by (cases e) (auto simp: parseChunkSize_def readHexInt_def)
  have "length rest < length (rd_data r)" using readHexInt_loop_length h e by blast
  moreover have "length (rd_data r') \<le> length rest"
    using assms h e skip_blanks_length [of rest]
    by (auto simp: parseChunkSize_def readHexInt_def readCrLf_def reader_ReadByte_def Let_def
        split: if_splits list.splits prod.splits option.splits)
  ultimately show ?thesis by linarith
qed

lemma appendBodyFixedSize_loop_shrinks:
  "appendBodyFixedSize_loop avail r dst dstLen = Ret (dst', err, r') \<Longrightarrow> length (rd_data r') \<le> length (rd_data r)"
proof (induction avail r dst dstLen rule: appendBodyFixedSize_loop.induct)
  case (1 avail r dst dstLen)
  obtain p e r1 where p: "reader_Read avail r (dstLen - length dst) = (p, e, r1)"
    by (cases "reader_Read avail r (dstLen - length dst)") auto
  have "length (rd_data r1) \<le> length (rd_data r)" using reader_Read_progress [OF p] by auto
  moreover have "length (rd_data r') \<le> length (rd_data r1)"
    using 1(2) p 1(1) [OF p [symmetric] refl]
    by (auto simp: appendBodyFixedSize_loop.simps [of avail r] split: if_splits option.splits)
  ultimately show ?case by linarith
qed

lemma appendBodyFixedSize_shrinks:
  "appendBodyFixedSize avail r dst capacity n = Ret (dst', c', err, r') \<Longrightarrow> length (rd_data r') \<le> length (rd_data r)"
  by (auto simp: appendBodyFixedSize_def Let_def split: if_splits panics.splits
      dest: appendBodyFixedSize_loop_shrinks)

function readBodyChunked_loop ::
  "(nat \<Rightarrow> nat) \<Rightarrow> reader \<Rightarrow> int \<Rightarrow> bytes \<Rightarrow> nat \<Rightarrow> (bytes \<times> nat \<times> body_err option \<times> reader) panics" where
  "readBodyChunked_loop avail r maxBodySize dst capacity =
     (case parseChunkSize r of
        (chunkSize, Some err, r') \<Rightarrow> Ret (dst, capacity, Some err, r')
      | (chunkSize, None, r') \<Rightarrow>
          if maxBodySize > 0 \<and> int (length dst) + chunkSize > maxBodySize
          then Ret (dst, capacity, Some ErrBodyTooLarge, r')
          else
            (case appendBodyFixedSize avail r' dst capacity (nat (chunkSize + int (length strCRLF))) of
               Panic \<Rightarrow> Panic
             | Ret (dst, capacity, Some err, r'') \<Rightarrow> Ret (dst, capacity, Some err, r'')
             | Ret (dst, capacity, None, r'') \<Rightarrow>
                 if drop (length dst - length strCRLF) dst \<noteq> strCRLF
                 then Ret (dst, capacity, Some ErrBrokenChunk, r'')
                 else
                   (let dst = take (length dst - length strCRLF) dst in
                    if chunkSize = 0 then Ret (dst, capacity, None, r'')
                    else readBodyChunked_loop avail r'' maxBodySize dst capacity)))"
  by pat_completeness auto
termination
  by (relation "measure (\<lambda>(avail, r, m, dst, c). length (rd_data r))")
    (auto dest!: parseChunkSize_shrinks [OF sym] appendBodyFixedSize_shrinks)

declare readBodyChunked_loop.simps [simp del]


text \<open>A buffer that is not empty is a programming error for \<open>readBodyChunked\<close>.\<close>

definition readBodyChunked ::
  "(nat \<Rightarrow> nat) \<Rightarrow> reader \<Rightarrow> int \<Rightarrow> bytes \<Rightarrow> nat \<Rightarrow> (bytes \<times> nat \<times> body_err option \<times> reader) panics" where
  "readBodyChunked avail r maxBodySize dst capacity =
     (if length dst > 0 then Panic else readBodyChunked_loop avail r maxBodySize dst capacity)"


section \<open>Bodies that end with the connection\<close>

text \<open>
  \<open>dst\<close> is \<^verbatim>\<open>dst[:offset]\<close> of the source and \<open>dstLen\<close> the length of the whole buffer. A buffer
  shorter than \<^verbatim>\<open>offset\<close> makes the slice expression panic.
\<close>

function readBodyIdentity_loop ::
  "(nat \<Rightarrow> nat) \<Rightarrow> reader \<Rightarrow> int \<Rightarrow> bytes \<Rightarrow> nat \<Rightarrow> (bytes \<times> nat \<times> body_err option \<times> reader) panics" where
  "readBodyIdentity_loop avail r maxBodySize dst dstLen =
     (if length dst > dstLen then Panic
      else
        (case reader_Read avail r (dstLen - length dst) of
           (p, err, r') \<Rightarrow>
             if length p = 0 then
               (case err of
                  Some err \<Rightarrow> Ret (dst, dstLen, if err = EOF then None else Some (BodyIOErr err), r')
                | None \<Rightarrow> Panic)
             else
               (let dst = dst @ p; offset = int (length dst) in
                if maxBodySize > 0 \<and> offset > maxBodySize
                then Ret (dst, dstLen, Some ErrBodyTooLarge, r')
                else if dstLen = length dst then
                  (let n = round2 (2 * offset);
                       n = (if maxBodySize > 0 \<and> n > maxBodySize then maxBodySize + 1 else n)
                   in readBodyIdentity_loop avail r' maxBodySize dst (nat n))
                else readBodyIdentity_loop avail r' maxBodySize dst dstLen)))"
  by pat_completeness auto
termination
  by (relation "measure (\<lambda>(avail, r, m, dst, l). length (rd_data r))")
    (auto dest!: reader_Read_progress [OF sym] simp flip: length_greater_0_conv)

declare readBodyIdentity_loop.simps [simp del]

definition readBodyIdentity ::
  "(nat \<Rightarrow> nat) \<Rightarrow> reader \<Rightarrow> int \<Rightarrow> nat \<Rightarrow> (bytes \<times> nat \<times> body_err option \<times> reader) panics" where
  "readBodyIdentity avail r maxBodySize capacity =
     readBodyIdentity_loop avail r maxBodySize [] (if capacity = 0 then 1024 else capacity)"


section \<open>Bodies by their content length\<close>

text \<open>The argument \<open>dst\<close> of \<open>readBody\<close> is cut to length zero: only its capacity is used.\<close>

definition readBody ::
  "(nat \<Rightarrow> nat) \<Rightarrow> reader \<Rightarrow> int \<Rightarrow> int \<Rightarrow> nat \<Rightarrow> (bytes \<times> nat \<times> body_err option \<times> reader) panics" where
  "readBody avail r contentLength maxBodySize capacity =
     (if contentLength \<ge> 0 then
        (if maxBodySize > 0 \<and> contentLength > maxBodySize then Ret ([], capacity, Some ErrBodyTooLarge, r)
         else appendBodyFixedSize avail r [] capacity (nat contentLength))
      else if contentLength = -1 then readBodyChunked avail r maxBodySize [] capacity
      else readBodyIdentity avail r maxBodySize capacity)"

definition readBodyWithStreaming ::
  "(nat \<Rightarrow> nat) \<Rightarrow> reader \<Rightarrow> int \<Rightarrow> int \<Rightarrow> nat \<Rightarrow> (bytes \<times> nat \<times> body_err option \<times> reader) panics" where
  "readBodyWithStreaming avail r contentLength maxBodySize capacity =
     (if contentLength = -1 then Ret ([], 0, Some errChunkedStream, r)
      else
        (let readN = maxBodySize;
             readN = (if readN > contentLength then contentLength else readN);
             readN = (if readN > 8 * 1024 then 8 * 1024 else readN)
         in case (if contentLength \<ge> 0 \<and> maxBodySize \<ge> contentLength
                  then appendBodyFixedSize avail r [] capacity (nat readN)
                  else readBodyIdentity avail r readN capacity) of
              Panic \<Rightarrow> Panic
            | Ret (b, c, Some err, r) \<Rightarrow> Ret (b, c, Some err, r)
            | Ret (b, c, None, r) \<Rightarrow>
                if contentLength > maxBodySize then Ret (b, c, Some ErrBodyTooLarge, r) else Ret (b, c, None, r)))"


section \<open>Writing bodies\<close>

text \<open>
  The bytes handed to the writer and the error of the body stream; the writer's own errors are
  returned unchanged and end the loop.
\<close>

definition writeChunk :: "bytes \<Rightarrow> bytes" where
  "writeChunk b = the (writeHexInt (int (length b))) @ strCRLF @ b @ strCRLF"

definition copyBufSize :: nat where
  "copyBufSize = 4096"

function writeBodyChunked :: "(nat \<Rightarrow> nat) \<Rightarrow> reader \<Rightarrow> bytes \<times> io_err option" where
  "writeBodyChunked avail r =
     (case reader_Read avail r copyBufSize of
        (p, err, r') \<Rightarrow>
          if length p = 0 then (if err = Some EOF then (writeChunk [], None) else ([], err))
          else (case writeBodyChunked avail r' of (out, err) \<Rightarrow> (writeChunk p @ out, err)))"
  by pat_completeness auto
termination
  by (relation "measure (\<lambda>(avail, r). length (rd_data r))")
    (auto dest!: reader_Read_progress [OF sym] simp flip: length_greater_0_conv)

declare writeBodyChunked.simps [simp del]

datatype copy_err = CopyIOErr io_err | CopiedInstead int int

definition copyZeroAlloc :: "reader \<Rightarrow> bytes \<times> io_err option" where
  "copyZeroAlloc r = (rd_data r, if rd_err r = EOF then None else Some (rd_err r))"

definition writeBodyFixedSize :: "reader \<Rightarrow> int \<Rightarrow> bytes \<times> copy_err option" where
  "writeBodyFixedSize r bodySize =
     (case copyZeroAlloc r of
        (out, Some err) \<Rightarrow> (out, Some (CopyIOErr err))
      | (out, None) \<Rightarrow>
          (out, if int (length out) \<noteq> bodySize then Some (CopiedInstead (int (length out)) bodySize) else None))"

section \<open>Rounding up\<close>

text \<open>The shifts of \<open>round2\<close> smear every bit over the ones below it.\<close>

lemma smear_step:
  fixes x y :: "32 word"
  assumes "\<And>i. bit y i \<longleftrightarrow> (\<exists>c<m. bit x (i + c))"
  shows "bit (y OR drop_bit m y) i \<longleftrightarrow> (\<exists>c<2 * m. bit x (i + c))"
proof -
  have "(\<exists>c<m. bit x (i + c)) \<or> (\<exists>c<m. bit x (m + i + c)) \<longleftrightarrow> (\<exists>c<2 * m. bit x (i + c))"
  proof safe
    fix c assume "c < m" "bit x (i + c)"
    then show "\<exists>c<2 * m. bit x (i + c)" by (intro exI [of _ c]) simp
  next
    fix c assume "c < m" "bit x (m + i + c)"
    then show "\<exists>c<2 * m. bit x (i + c)" by (intro exI [of _ "m + c"]) (simp add: ac_simps)
  next
    fix c assume c: "c < 2 * m" "bit x (i + c)" "\<not> (\<exists>c<m. bit x (m + i + c))"
    then have "c < m" using c(3) by (metis add.assoc add.commute le_add_diff_inverse less_diff_conv2 mult_2 not_le)
    with c show "\<exists>c<m. bit x (i + c)" by blast
  qed
  then show ?thesis by (simp add: bit_or_iff bit_drop_bit_eq assms)
qed

definition smear :: "32 word \<Rightarrow> 32 word" where
  "smear x =
     (let x = x OR drop_bit 1 x; x = x OR drop_bit 2 x; x = x OR drop_bit 4 x; x = x OR drop_bit 8 x
      in x OR drop_bit 16 x)"

lemma bit_smear: "bit (smear x) i \<longleftrightarrow> (\<exists>j\<ge>i. bit x j)"
proof -
  let ?a = "x OR drop_bit 1 x"
  let ?b = "?a OR drop_bit 2 ?a"
  let ?c = "?b OR drop_bit 4 ?b"
  let ?d = "?c OR drop_bit 8 ?c"
  have 0: "bit x i \<longleftrightarrow> (\<exists>c<1. bit x (i + c))" for i by simp
  have 1: "bit ?a i \<longleftrightarrow> (\<exists>c<2. bit x (i + c))" for i using smear_step [of x 1 x i, OF 0] by simp
  have 2: "bit ?b i \<longleftrightarrow> (\<exists>c<4. bit x (i + c))" for i using smear_step [of ?a 2 x i, OF 1] by simp
  have 3: "bit ?c i \<longleftrightarrow> (\<exists>c<8. bit x (i + c))" for i using smear_step [of ?b 4 x i, OF 2] by simp
  have 4: "bit ?d i \<longleftrightarrow> (\<exists>c<16. bit x (i + c))" for i using smear_step [of ?c 8 x i, OF 3] by simp
  have "bit (smear x) i \<longleftrightarrow> (\<exists>c<32. bit x (i + c))"
    using smear_step [of ?d 16 x i, OF 4] by (simp add: smear_def)
  also have "\<dots> \<longleftrightarrow> (\<exists>j\<ge>i. bit x j)"
  proof safe
    fix j assume j: "i \<le> j" "bit x j"
    then have "j < 32" using bit_imp_le_length [of x j] by simp
    with j show "\<exists>c<32. bit x (i + c)" by (intro exI [of _ "j - i"]) simp
  qed (metis le_add1)
  finally show ?thesis .
qed

lemma round2_smear: "0 < n \<Longrightarrow> round2 n = uint (smear (word_of_int (n - 1)) + 1)"
  by (simp add: round2_def smear_def Let_def)

lemma top_bit:
  assumes "0 < (v :: int)"
  obtains k where "2 ^ k \<le> v" and "v < 2 ^ Suc k"
proof -
  have "v < 2 ^ nat v" using assms by (metis int_nat_eq less_exp less_le_not_le nat_0_le of_nat_less_numeral_power_cancel_iff)
  then have ex: "\<exists>m. v < 2 ^ m" by blast
  define m where "m = (LEAST m. v < 2 ^ m)"
  have m: "v < 2 ^ m" unfolding m_def using ex by (rule LeastI_ex)
  then obtain k where k: "m = Suc k" using assms by (cases m) auto
  have "\<not> v < 2 ^ k" using not_less_Least [of k "\<lambda>m. v < 2 ^ m"] k by (simp add: m_def)
  then have "2 ^ k \<le> v" by simp
  then show thesis using m unfolding k by (rule that)
qed

lemma smear_mask:
  assumes "2 ^ k \<le> v" and "v < 2 ^ Suc k" and "k < 32"
  shows "smear (word_of_int v) = mask (Suc k)"
proof (rule bit_word_eqI)
  fix i assume "i < LENGTH(32)"
  have bits: "bit v k" "\<And>j. k < j \<Longrightarrow> \<not> bit v j"
  proof -
    have "v div 2 ^ k = 1" using assms(1,2) by (intro int_div_pos_eq [where r = "v - 2 ^ k"]) auto
    then show "bit v k" by (simp add: bit_iff_odd)
    fix j assume "k < j"
    then have "(2 :: int) ^ Suc k \<le> 2 ^ j" by (intro power_increasing) auto
    moreover have "0 \<le> v" using assms(1) by (meson order_trans zero_le_numeral zero_le_power)
    ultimately have "v div 2 ^ j = 0" using assms(2) by (intro div_pos_pos_trivial) auto
    then show "\<not> bit v j" by (simp add: bit_iff_odd)
  qed
  show "bit (smear (word_of_int v)) i \<longleftrightarrow> bit (mask (Suc k) :: 32 word) i"
    using \<open>i < LENGTH(32)\<close> assms(3) bits
    by (auto simp: bit_smear bit_word_of_int_iff bit_mask_iff less_Suc_eq_le) (meson not_le order_trans)
qed

lemma round2_power:
  assumes "2 ^ k < n" and "n \<le> 2 ^ Suc k" and "k < 32"
  shows "round2 n = (if k = 31 then 0 else 2 ^ Suc k)"
proof -
  have "0 < n" using assms(1) by (meson order_less_trans zero_less_numeral zero_less_power)
  have "smear (word_of_int (n - 1)) = mask (Suc k)" using assms by (intro smear_mask) auto
  then have "smear (word_of_int (n - 1)) + 1 = 2 ^ Suc k" by (simp add: mask_eq_exp_minus_1)
  then have "round2 n = uint (2 ^ Suc k :: 32 word)" using round2_smear [OF \<open>0 < n\<close>] by simp
  also have "\<dots> = 2 ^ Suc k mod 2 ^ 32"
    using uint_word_of_int [of "2 ^ Suc k", where 'a = 32] by (simp add: take_bit_eq_mod)
  also have "\<dots> = (if k = 31 then 0 else 2 ^ Suc k)"
  proof (cases "k = 31")
    case False
    then have "(2 :: int) ^ Suc k < 2 ^ 32" using assms(3) by (intro power_strict_increasing) auto
    with False show ?thesis by (simp only: mod_pos_pos_trivial if_False) simp
  qed simp
  finally show ?thesis .
qed

lemma round2_ge:
  assumes "0 < n" and "n \<le> 2 ^ 31"
  shows "\<exists>k. round2 n = 2 ^ k \<and> n \<le> 2 ^ k \<and> 2 ^ k < 2 * n"
proof (cases "n = 1")
  case True
  then have "round2 n = 2 ^ 0" by (simp add: round2_def)
  with True show ?thesis by (intro exI [of _ 0]) simp
next
  case False
  then have "0 < n - 1" using assms(1) by simp
  then obtain k where k: "2 ^ k \<le> n - 1" "n - 1 < 2 ^ Suc k" by (rule top_bit)
  have "(2 :: int) ^ k < 2 ^ 31" using k(1) assms(2) by linarith
  then have "k < 31" by (rule power_less_imp_less_exp [rotated]) simp
  moreover have "round2 n = (if k = 31 then 0 else 2 ^ Suc k)"
    using k \<open>k < 31\<close> by (intro round2_power) auto
  ultimately show ?thesis using k by (intro exI [of _ "Suc k"]) simp
qed

lemma round2_zero: "2 ^ 31 < n \<Longrightarrow> n \<le> 2 ^ 32 \<Longrightarrow> round2 n = 0"
  using round2_power [of 31 n] by simp

section \<open>Reading bodies: lemmas\<close>

definition unexpected :: "io_err \<Rightarrow> body_err" where
  "unexpected e = BodyIOErr (if e = EOF then ErrUnexpectedEOF else e)"

text \<open>The loop over \<open>Read\<close> takes what it asks for, in whatever pieces it comes.\<close>

lemma appendBodyFixedSize_loop_spec:
  "length dst < dstLen \<Longrightarrow>
   appendBodyFixedSize_loop avail r dst dstLen =
     (let k = dstLen - length dst in
      Ret (dst @ take k (rd_data r), if k \<le> length (rd_data r) then None else Some (unexpected (rd_err r)),
           r\<lparr>rd_data := drop k (rd_data r)\<rparr>))"
proof (induction avail r dst dstLen rule: appendBodyFixedSize_loop.induct)
  case (1 avail r dst dstLen)
  obtain p e r1 where p: "reader_Read avail r (dstLen - length dst) = (p, e, r1)"
    by (cases "reader_Read avail r (dstLen - length dst)") auto
  have pr: "length p \<le> dstLen - length dst" "rd_data r = p @ rd_data r1" "rd_err r1 = rd_err r"
    "p = [] \<longleftrightarrow> rd_data r = []" "e = (if p = [] then Some (rd_err r) else None)"
    by (rule reader_Read_parts [OF p], use 1(2) in simp)+
  have r1: "r1 = r\<lparr>rd_data := drop (length p) (rd_data r)\<rparr>"
    by (rule reader.equality) (simp_all add: pr(2,3))
  note unf = appendBodyFixedSize_loop.simps [of avail r dst dstLen]
  show ?case
  proof (cases "p = []")
    case True
    then have "rd_data r = []" using pr(4) by simp
    moreover from this have "r1 = r" using r1 by simp
    ultimately show ?thesis using True pr(5) p 1(2) by (simp add: unf unexpected_def)
  next
    case ne: False
    show ?thesis
    proof (cases "length (dst @ p) = dstLen")
      case True
      then have "dstLen - length dst = length p" by simp
      moreover have "take (length p) (rd_data r) = p" "length p \<le> length (rd_data r)" using pr(2) by simp_all
      ultimately show ?thesis using ne True p pr(5) r1 by (simp add: unf Let_def)
    next
      case False
      then have less: "length (dst @ p) < dstLen" using pr(1) 1(2) by simp
      have "appendBodyFixedSize_loop avail r dst dstLen = appendBodyFixedSize_loop avail r1 (dst @ p) dstLen"
        using ne False p by (simp add: unf)
      also have "\<dots> = (let k = dstLen - length (dst @ p) in
          Ret ((dst @ p) @ take k (rd_data r1), if k \<le> length (rd_data r1) then None else Some (unexpected (rd_err r1)),
               r1\<lparr>rd_data := drop k (rd_data r1)\<rparr>))"
        using 1(1) [OF p [symmetric] refl] ne False less by simp
      also have "\<dots> = (let k = dstLen - length dst in
          Ret (dst @ take k (rd_data r), if k \<le> length (rd_data r) then None else Some (unexpected (rd_err r)),
               r\<lparr>rd_data := drop k (rd_data r)\<rparr>))"
      proof -
        have k: "dstLen - length (dst @ p) = dstLen - length dst - length p" by simp
        have "r1\<lparr>rd_data := x\<rparr> = r\<lparr>rd_data := x\<rparr>" for x unfolding r1 by simp
        then show ?thesis unfolding Let_def k pr(2) using pr(1,3) less by (simp, linarith)
      qed
      finally show ?thesis .
    qed
  qed
qed

definition grown :: "nat \<Rightarrow> nat \<Rightarrow> nat" where
  "grown capacity dstLen = (if capacity < dstLen then nat (round2 (int dstLen)) else capacity)"

lemma grown_ge: "dstLen \<le> 2 ^ 31 \<Longrightarrow> dstLen \<le> grown capacity dstLen"
proof -
  assume a: "dstLen \<le> 2 ^ 31"
  show ?thesis
  proof (cases "capacity < dstLen")
    case True
    have "int dstLen \<le> 2 ^ 31" using a by (metis of_nat_le_iff of_nat_numeral of_nat_power)
    then obtain k where "round2 (int dstLen) = 2 ^ k" "int dstLen \<le> 2 ^ k"
      using round2_ge [of "int dstLen"] True by auto
    with True show ?thesis by (simp add: grown_def nat_le_iff le_nat_iff)
  qed (simp add: grown_def)
qed

lemma appendBodyFixedSize_spec:
  assumes "length dst + n \<le> 2 ^ 31"
  shows "appendBodyFixedSize avail r dst capacity n =
    Ret (dst @ take n (rd_data r), if n = 0 then capacity else grown capacity (length dst + n),
         if n \<le> length (rd_data r) then None else Some (unexpected (rd_err r)), r\<lparr>rd_data := drop n (rd_data r)\<rparr>)"
proof (cases "n = 0")
  case False
  have "\<not> grown capacity (length dst + n) < length dst + n" using grown_ge [OF assms] by (simp add: not_less)
  moreover have "appendBodyFixedSize_loop avail r dst (length dst + n) =
      Ret (dst @ take n (rd_data r), if n \<le> length (rd_data r) then None else Some (unexpected (rd_err r)),
           r\<lparr>rd_data := drop n (rd_data r)\<rparr>)"
    using appendBodyFixedSize_loop_spec [of dst "length dst + n" avail r] False by (simp add: Let_def)
  ultimately show ?thesis using False
    by (simp add: appendBodyFixedSize_def Let_def grown_def [symmetric])
qed (simp add: appendBodyFixedSize_def)

text \<open>The size line of a chunk.\<close>

lemma parseChunkSize_print:
  assumes "n < 2 ^ 60"
  shows "parseChunkSize \<lparr>rd_data = writeHexInt_loop n [] @ 13 # 10 # rest, rd_err = e\<rparr> =
    (int n, None, \<lparr>rd_data = rest, rd_err = e\<rparr>)"
proof -
  have "\<not> is_hex 13" by (simp add: is_hex_def hex2intTable_def)
  then have "readHexInt \<lparr>rd_data = writeHexInt_loop n [] @ 13 # 10 # rest, rd_err = e\<rparr> =
      (int n, None, \<lparr>rd_data = 13 # 10 # rest, rd_err = e\<rparr>)"
    using readHexInt_writeHexInt_loop [OF assms, of "13 # 10 # rest" e] by (simp add: readHexInt_def)
  then show ?thesis by (simp add: parseChunkSize_def readCrLf_def reader_ReadByte_def Let_def)
qed

lemma writeChunk_eq: "writeChunk b = writeHexInt_loop (length b) [] @ 13 # 10 # b @ [13, 10]"
  by (simp add: writeChunk_def writeHexInt_def strCRLF_def)

text \<open>One chunk of a chunked body.\<close>

lemma readBodyChunked_step:
  assumes "length dst + length b + 2 \<le> 2 ^ 31" and "maxBodySize \<le> 0 \<or> int (length dst + length b) \<le> maxBodySize"
  shows "\<exists>c'. readBodyChunked_loop avail \<lparr>rd_data = writeChunk b @ rest, rd_err = e\<rparr> maxBodySize dst c =
    (if b = [] then Ret (dst, c', None, \<lparr>rd_data = rest, rd_err = e\<rparr>)
     else readBodyChunked_loop avail \<lparr>rd_data = rest, rd_err = e\<rparr> maxBodySize (dst @ b) c')"
proof -
  let ?r = "\<lparr>rd_data = writeChunk b @ rest, rd_err = e\<rparr>"
  let ?r1 = "\<lparr>rd_data = b @ 13 # 10 # rest, rd_err = e\<rparr>"
  have "length b < 2 ^ 60" using assms(1) by simp
  then have p: "parseChunkSize ?r = (int (length b), None, ?r1)"
    using parseChunkSize_print [of "length b" "b @ 13 # 10 # rest" e] by (simp add: writeChunk_eq)
  let ?c = "grown c (length dst + (length b + 2))"
  have crlf: "nat (int (length b) + int (length strCRLF)) = length b + 2" "length strCRLF = 2" "strCRLF = [13, 10]"
    by (simp_all add: strCRLF_def nat_add_distrib)
  have a: "appendBodyFixedSize avail ?r1 dst c (length b + 2) =
      Ret (dst @ b @ [13, 10], ?c, None, \<lparr>rd_data = rest, rd_err = e\<rparr>)"
    using appendBodyFixedSize_spec [of dst "length b + 2" avail ?r1 c] assms(1) by simp
  have m: "(maxBodySize > 0 \<and> int (length dst) + int (length b) > maxBodySize) = False" using assms(2) by auto
  have "drop (length (dst @ b @ [13, 10]) - 2) (dst @ b @ [13, 10]) = [13, 10 :: byte]"
    "take (length (dst @ b @ [13, 10]) - 2) (dst @ b @ [13, 10]) = dst @ b" by simp_all
  then show ?thesis
    unfolding readBodyChunked_loop.simps [of avail ?r]
    by (intro exI [of _ ?c]) (simp only: p prod.case option.case m if_False crlf(1) a panics.case Let_def, simp add: crlf(3))
qed

lemma readBodyChunked_chunks:
  assumes "\<And>b. b \<in> set bs \<Longrightarrow> b \<noteq> []" and "length dst + length (concat bs) + 2 \<le> 2 ^ 31"
    and "maxBodySize \<le> 0 \<or> int (length dst + length (concat bs)) \<le> maxBodySize"
  shows "\<exists>c'. readBodyChunked_loop avail
      \<lparr>rd_data = concat (map writeChunk bs) @ writeChunk [] @ rest, rd_err = e\<rparr> maxBodySize dst c =
    Ret (dst @ concat bs, c', None, \<lparr>rd_data = rest, rd_err = e\<rparr>)"
  using assms
proof (induction bs arbitrary: dst c)
  case Nil
  then show ?case using readBodyChunked_step [of dst "[]" maxBodySize avail rest e c] by simp
next
  case (Cons b bs)
  let ?rest = "concat (map writeChunk bs) @ writeChunk [] @ rest"
  obtain c1 where c1: "readBodyChunked_loop avail \<lparr>rd_data = writeChunk b @ ?rest, rd_err = e\<rparr> maxBodySize dst c =
      readBodyChunked_loop avail \<lparr>rd_data = ?rest, rd_err = e\<rparr> maxBodySize (dst @ b) c1"
    using readBodyChunked_step [of dst b maxBodySize avail ?rest e c] Cons.prems by auto
  have "\<exists>c'. readBodyChunked_loop avail \<lparr>rd_data = ?rest, rd_err = e\<rparr> maxBodySize (dst @ b) c1 =
      Ret ((dst @ b) @ concat bs, c', None, \<lparr>rd_data = rest, rd_err = e\<rparr>)"
    using Cons.prems by (intro Cons.IH) auto
  with c1 show ?case by simp
qed

text \<open>The writer cuts the stream into non-empty chunks.\<close>

lemma writeBodyChunked_chunks:
  "\<exists>bs. (\<forall>b \<in> set bs. b \<noteq> [] \<and> length b \<le> copyBufSize) \<and> concat bs = rd_data r
     \<and> writeBodyChunked avail r =
        (concat (map writeChunk bs) @ (if rd_err r = EOF then writeChunk [] else []),
         if rd_err r = EOF then None else Some (rd_err r))"
proof (induction avail r rule: writeBodyChunked.induct)
  case (1 avail r)
  obtain p e r1 where p: "reader_Read avail r copyBufSize = (p, e, r1)"
    by (cases "reader_Read avail r copyBufSize") auto
  have pr: "length p \<le> copyBufSize" "rd_data r = p @ rd_data r1" "rd_err r1 = rd_err r"
    "p = [] \<longleftrightarrow> rd_data r = []" "e = (if p = [] then Some (rd_err r) else None)"
    by (rule reader_Read_parts [OF p], simp add: copyBufSize_def)+
  show ?case
  proof (cases "p = []")
    case True
    then have "rd_data r = []" using pr(4) by simp
    with True show ?thesis using p pr(5)
      by (intro exI [of _ "[]"]) (simp add: writeBodyChunked.simps [of avail r])
  next
    case False
    then obtain bs where bs: "\<forall>b \<in> set bs. b \<noteq> [] \<and> length b \<le> copyBufSize" "concat bs = rd_data r1"
      "writeBodyChunked avail r1 =
        (concat (map writeChunk bs) @ (if rd_err r1 = EOF then writeChunk [] else []),
         if rd_err r1 = EOF then None else Some (rd_err r1))"
      using 1 [OF p [symmetric] refl] by auto
    then show ?thesis using False p pr(1-3,5)
      by (intro exI [of _ "p # bs"]) (simp add: writeBodyChunked.simps [of avail r])
  qed
qed

text \<open>Identity bodies.\<close>

lemma readBodyIdentity_loop_spec:
  assumes "length dst < dstLen" and "length dst + length (rd_data r) \<le> 2 ^ 30"
    and "maxBodySize \<le> 0 \<or> int (length dst) \<le> maxBodySize"
  shows "\<exists>b c e r'. readBodyIdentity_loop avail r maxBodySize dst dstLen = Ret (b, c, e, r')
    \<and> dst @ rd_data r = b @ rd_data r' \<and> rd_err r' = rd_err r
    \<and> (if maxBodySize \<le> 0 \<or> int (length dst + length (rd_data r)) \<le> maxBodySize
       then rd_data r' = [] \<and> e = (if rd_err r = EOF then None else Some (BodyIOErr (rd_err r)))
       else e = Some ErrBodyTooLarge \<and> int (length b) > maxBodySize)"
  using assms
proof (induction "length (rd_data r)" arbitrary: r dst dstLen rule: less_induct)
  case (less r dst dstLen)
  note l1 = less(2) and l2 = less(3) and l3 = less(4)
  obtain p err r1 where p: "reader_Read avail r (dstLen - length dst) = (p, err, r1)"
    by (cases "reader_Read avail r (dstLen - length dst)") auto
  have pr: "length p \<le> dstLen - length dst" "rd_data r = p @ rd_data r1" "rd_err r1 = rd_err r"
    "p = [] \<longleftrightarrow> rd_data r = []" "err = (if p = [] then Some (rd_err r) else None)"
    by (rule reader_Read_parts [OF p], use l1 in simp)+
  note unf = readBodyIdentity_loop.simps [of avail r maxBodySize dst dstLen]
  show ?case
  proof (cases "p = []")
    case True
    then have "rd_data r = []" using pr(4) by simp
    moreover from this have "rd_data r1 = []" using pr(2) by simp
    moreover have "readBodyIdentity_loop avail r maxBodySize dst dstLen =
        Ret (dst, dstLen, if rd_err r = EOF then None else Some (BodyIOErr (rd_err r)), r1)"
      using True p pr(5) l1 by (simp add: unf)
    ultimately show ?thesis using pr(3) l3 by auto
  next
    case ne: False
    let ?d = "dst @ p"
    let ?n = "round2 (2 * int (length ?d))"
    let ?n' = "if maxBodySize > 0 \<and> ?n > maxBodySize then maxBodySize + 1 else ?n"
    have more: "length ?d + length (rd_data r1) = length dst + length (rd_data r)" using pr(2) by simp
    show ?thesis
    proof (cases "maxBodySize > 0 \<and> int (length ?d) > maxBodySize")
      case True
      then have "readBodyIdentity_loop avail r maxBodySize dst dstLen = Ret (?d, dstLen, Some ErrBodyTooLarge, r1)"
        using ne p l1 by (simp add: unf Let_def)
      then show ?thesis using True pr(2,3) by auto
    next
      case small: False
      define l where "l = (if dstLen = length ?d then nat ?n' else dstLen)"
      have step: "readBodyIdentity_loop avail r maxBodySize dst dstLen = readBodyIdentity_loop avail r1 maxBodySize ?d l"
        using ne p l1 small by (auto simp: unf Let_def l_def)
      have l: "length ?d < l"
      proof (cases "dstLen = length ?d")
        case True
        have pos: "0 < 2 * int (length ?d)" using ne by (cases p) simp_all
        have "length ?d \<le> 2 ^ 30" using more l2 by linarith
        then have "int (length ?d) \<le> 2 ^ 30" by (metis of_nat_le_iff of_nat_numeral of_nat_power)
        then obtain k where "?n = 2 ^ k" "2 * int (length ?d) \<le> 2 ^ k" using round2_ge [OF pos] by auto
        then have "int (length ?d) < ?n" using pos by linarith
        then have "int (length ?d) < ?n'" using small by auto
        with True show ?thesis by (simp add: l_def zless_nat_eq_int_zless)
      next
        case False
        then show ?thesis using pr(1) l1 by (simp add: l_def)
      qed
      have "\<exists>b c e r'. readBodyIdentity_loop avail r1 maxBodySize ?d l = Ret (b, c, e, r')
        \<and> ?d @ rd_data r1 = b @ rd_data r' \<and> rd_err r' = rd_err r1
        \<and> (if maxBodySize \<le> 0 \<or> int (length ?d + length (rd_data r1)) \<le> maxBodySize
           then rd_data r' = [] \<and> e = (if rd_err r1 = EOF then None else Some (BodyIOErr (rd_err r1)))
           else e = Some ErrBodyTooLarge \<and> int (length b) > maxBodySize)"
      proof (rule less.hyps)
        have "0 < length p" using ne by simp
        then show "length (rd_data r1) < length (rd_data r)" using pr(2) by simp
        show "length ?d < l" by (rule l)
        show "length ?d + length (rd_data r1) \<le> 2 ^ 30" using more l2 by simp
        show "maxBodySize \<le> 0 \<or> int (length ?d) \<le> maxBodySize" using small by linarith
      qed
      then show ?thesis unfolding step more pr(3) using pr(2) by simp
    qed
  qed
qed


section \<open>Properties\<close>

lemma chunked_round:
  assumes "length data + 2 \<le> 2 ^ 31" and "maxBodySize \<le> 0 \<or> int (length data) \<le> maxBodySize"
  shows "\<exists>out c'. writeBodyChunked avail \<lparr>rd_data = data, rd_err = EOF\<rparr> = (out, None)
    \<and> readBodyChunked avail' \<lparr>rd_data = out @ rest, rd_err = e\<rparr> maxBodySize [] c =
        Ret (data, c', None, \<lparr>rd_data = rest, rd_err = e\<rparr>)"
proof -
  obtain bs where bs: "\<forall>b \<in> set bs. b \<noteq> [] \<and> length b \<le> copyBufSize" "concat bs = data"
    "writeBodyChunked avail \<lparr>rd_data = data, rd_err = EOF\<rparr> = (concat (map writeChunk bs) @ writeChunk [], None)"
    using writeBodyChunked_chunks [of "\<lparr>rd_data = data, rd_err = EOF\<rparr>" avail] by auto
  have "\<exists>c'. readBodyChunked_loop avail' \<lparr>rd_data = concat (map writeChunk bs) @ writeChunk [] @ rest, rd_err = e\<rparr>
      maxBodySize [] c = Ret ([] @ concat bs, c', None, \<lparr>rd_data = rest, rd_err = e\<rparr>)"
    using bs(1,2) assms by (intro readBodyChunked_chunks) auto
  then show ?thesis using bs(2,3) by (simp add: readBodyChunked_def)
qed

text \<open>
  C6. A chunked body is read back as it was written: whatever pieces the writer gets from its
  stream and whatever pieces the reader gets from its connection, the body is the whole stream,
  and the reader stops at the first byte after the last chunk. The body must be within the
  limit, and below two gigabytes.
\<close>

theorem chunked_write_read:
  assumes "length data + 2 \<le> 2 ^ 31" and "maxBodySize \<le> 0 \<or> int (length data) \<le> maxBodySize"
  shows "\<exists>out c'. writeBodyChunked avail \<lparr>rd_data = data, rd_err = EOF\<rparr> = (out, None)
    \<and> readBodyChunked avail' \<lparr>rd_data = out @ rest, rd_err = e\<rparr> maxBodySize [] c =
        Ret (data, c', None, \<lparr>rd_data = rest, rd_err = e\<rparr>)"
  using assms by (rule chunked_round)

theorem chunked_write_read_witness:
  "\<exists>out c'. writeBodyChunked (\<lambda>_. 3) \<lparr>rd_data = bytes_of ''hello'', rd_err = EOF\<rparr> = (out, None)
    \<and> readBodyChunked (\<lambda>n. n) \<lparr>rd_data = out @ [1], rd_err = OtherIOErr\<rparr> 5 [] 0 =
        Ret (bytes_of ''hello'', c', None, \<lparr>rd_data = [1], rd_err = OtherIOErr\<rparr>)"
  by (rule chunked_write_read) (simp_all add: bytes_of_def)

text \<open>
  C22. \<open>readBody\<close> for each kind of framing, with every way the connection delivers the bytes: a
  body of known length is exactly that many bytes, and a stream that ends early is an error with
  the bytes that came; a body above the limit is refused before a byte of it is read; a body that
  ends with the connection is everything up to the end, and is refused once it exceeds the limit.
\<close>

theorem readBody_correct:
  assumes "length (rd_data r) \<le> 2 ^ 30" and "n \<le> 2 ^ 31"
  shows "\<exists>c' b e r' c'' .
      readBody avail r (int n) maxBodySize c =
        (if maxBodySize > 0 \<and> int n > maxBodySize then Ret ([], c, Some ErrBodyTooLarge, r)
         else Ret (take n (rd_data r), c', if n \<le> length (rd_data r) then None
             else Some (BodyIOErr (if rd_err r = EOF then ErrUnexpectedEOF else rd_err r)),
             r\<lparr>rd_data := drop n (rd_data r)\<rparr>))
    \<and> readBody avail r (-2) maxBodySize c = Ret (b, c'', e, r') \<and> rd_data r = b @ rd_data r'
    \<and> (if maxBodySize \<le> 0 \<or> int (length (rd_data r)) \<le> maxBodySize
       then rd_data r' = [] \<and> e = (if rd_err r = EOF then None else Some (BodyIOErr (rd_err r)))
       else e = Some ErrBodyTooLarge)"
proof -
  have fixed: "readBody avail r (int n) maxBodySize c =
        (if maxBodySize > 0 \<and> int n > maxBodySize then Ret ([], c, Some ErrBodyTooLarge, r)
         else Ret (take n (rd_data r), if n = 0 then c else grown c n, if n \<le> length (rd_data r) then None
             else Some (BodyIOErr (if rd_err r = EOF then ErrUnexpectedEOF else rd_err r)),
             r\<lparr>rd_data := drop n (rd_data r)\<rparr>))"
    using appendBodyFixedSize_spec [of "[]" n avail r c] assms(2) by (simp add: readBody_def unexpected_def)
  have room: "length ([] :: bytes) < (if c = 0 then 1024 else c)" by simp
  have start: "length ([] :: bytes) + length (rd_data r) \<le> 2 ^ 30" "maxBodySize \<le> 0 \<or> int (length ([] :: bytes)) \<le> maxBodySize"
    using assms(1) by auto
  obtain b c'' e r' where "readBodyIdentity_loop avail r maxBodySize [] (if c = 0 then 1024 else c) = Ret (b, c'', e, r')"
    "rd_data r = b @ rd_data r'" "(if maxBodySize \<le> 0 \<or> int (length (rd_data r)) \<le> maxBodySize
       then rd_data r' = [] \<and> e = (if rd_err r = EOF then None else Some (BodyIOErr (rd_err r)))
       else e = Some ErrBodyTooLarge \<and> int (length b) > maxBodySize)"
    using readBodyIdentity_loop_spec [OF room start, of avail] unfolding list.size append_Nil add_0 by blast
  with fixed show ?thesis by (auto simp: readBody_def readBodyIdentity_def split: if_splits)
qed

theorem readBody_correct_witness:
  "\<exists>c' . readBody (\<lambda>_. 1) \<lparr>rd_data = bytes_of ''abc'', rd_err = EOF\<rparr> (int 2) 10 0 =
     Ret (bytes_of ''ab'', c', None, \<lparr>rd_data = bytes_of ''c'', rd_err = EOF\<rparr>)"
  using readBody_correct [of "\<lparr>rd_data = bytes_of ''abc'', rd_err = EOF\<rparr>" 2 "\<lambda>_. 1" 10 0]
  by (auto simp: bytes_of_def)

text \<open>What a successful read of a given length returns, without any bound on the length.\<close>

lemma appendBodyFixedSize_ok:
  assumes "appendBodyFixedSize avail r dst c n = Ret (dst', c', None, r')"
  shows "dst' = dst @ take n (rd_data r) \<and> length dst' = length dst + n"
proof (cases "n = 0")
  case False
  then have "appendBodyFixedSize_loop avail r dst (length dst + n) = Ret (dst', None, r')"
    using assms by (auto simp: appendBodyFixedSize_def Let_def split: if_splits panics.splits)
  then show ?thesis
    using appendBodyFixedSize_loop_spec [of dst "length dst + n" avail r] False
    by (auto simp: Let_def split: if_splits)
qed (use assms in \<open>simp add: appendBodyFixedSize_def\<close>)

lemma readBodyChunked_loop_limit:
  assumes "readBodyChunked_loop avail r maxBodySize dst c = Ret (b, c', None, r')" and "0 < maxBodySize"
  shows "int (length b) \<le> maxBodySize"
  using assms(1)
proof (induction "length (rd_data r)" arbitrary: r dst c rule: less_induct)
  case (less r dst c)
  obtain n e r1 where n: "parseChunkSize r = (n, e, r1)" by (cases "parseChunkSize r") auto
  note unf = readBodyChunked_loop.simps [of avail r maxBodySize dst c]
  have e: "e = None" using less(2) n by (cases e) (auto simp: unf)
  have m: "int (length dst) + n \<le> maxBodySize"
    using less(2) n e assms(2) by (auto simp: unf split: if_splits)
  let ?k = "nat (n + int (length strCRLF))"
  obtain d c1 r2 where d: "appendBodyFixedSize avail r1 dst c ?k = Ret (d, c1, None, r2)"
    and rest: "(if drop (length d - length strCRLF) d \<noteq> strCRLF then Ret (d, c1, Some ErrBrokenChunk, r2)
       else (let d = take (length d - length strCRLF) d in
         if n = 0 then Ret (d, c1, None, r2) else readBodyChunked_loop avail r2 maxBodySize d c1)) = Ret (b, c', None, r')"
    using less(2) n e m by (auto simp: unf split: if_splits panics.splits option.splits)
  have len: "length d = length dst + ?k" using appendBodyFixedSize_ok [OF d] by blast
  show ?case
  proof (cases "n = 0")
    case True
    then have "b = take (length d - length strCRLF) d" using rest by (auto simp: Let_def split: if_splits)
    with True m len show ?thesis by simp
  next
    case False
    then have "readBodyChunked_loop avail r2 maxBodySize (take (length d - length strCRLF) d) c1 = Ret (b, c', None, r')"
      using rest by (auto simp: Let_def split: if_splits)
    moreover have "length (rd_data r2) < length (rd_data r)"
      using parseChunkSize_shrinks n e appendBodyFixedSize_shrinks [OF d] by fastforce
    ultimately show ?thesis using less(1) by blast
  qed
qed

lemma readBodyIdentity_loop_limit:
  assumes "readBodyIdentity_loop avail r maxBodySize dst l = Ret (b, c', None, r')" and "int (length dst) \<le> maxBodySize"
    and "0 < maxBodySize"
  shows "int (length b) \<le> maxBodySize"
  using assms(1,2)
proof (induction "length (rd_data r)" arbitrary: r dst l rule: less_induct)
  case (less r dst l)
  obtain p e r1 where p: "reader_Read avail r (l - length dst) = (p, e, r1)"
    by (cases "reader_Read avail r (l - length dst)") auto
  note unf = readBodyIdentity_loop.simps [of avail r maxBodySize dst l]
  show ?case
  proof (cases "p = []")
    case True
    then show ?thesis using less(2,3) p by (auto simp: unf split: if_splits option.splits)
  next
    case False
    let ?n = "round2 (2 * int (length (dst @ p)))"
    define l' where "l' = (if l = length (dst @ p) then nat (if maxBodySize < ?n then maxBodySize + 1 else ?n) else l)"
    have small: "int (length (dst @ p)) \<le> maxBodySize"
      using less(2) p False assms(3) by (auto simp: unf Let_def split: if_splits)
    then have "readBodyIdentity_loop avail r1 maxBodySize (dst @ p) l' = Ret (b, c', None, r')"
      using less(2) p False assms(3) by (auto simp: unf Let_def l'_def split: if_splits)
    moreover have "rd_data r = p @ rd_data r1" using reader_Read_progress [OF p] by blast
    then have "length (rd_data r1) < length (rd_data r)" using False by (cases p) simp_all
    ultimately show ?thesis using less(1) small by blast
  qed
qed

lemma readBody_within:
  assumes "readBody avail r contentLength maxBodySize c = Ret (b, c', None, r')" and "0 < maxBodySize"
  shows "int (length b) \<le> maxBodySize"
proof -
  consider "0 \<le> contentLength" | "contentLength = -1" | "contentLength < -1" by linarith
  then show ?thesis
  proof cases
    case 1
    then have "appendBodyFixedSize avail r [] c (nat contentLength) = Ret (b, c', None, r')" "contentLength \<le> maxBodySize"
      using assms by (auto simp: readBody_def split: if_splits)
    then have "length b = nat contentLength" using appendBodyFixedSize_ok by (metis add_0 list.size(3))
    with 1 \<open>contentLength \<le> maxBodySize\<close> show ?thesis by simp
  next
    case 2
    then have "readBodyChunked_loop avail r maxBodySize [] c = Ret (b, c', None, r')"
      using assms(1) by (simp add: readBody_def readBodyChunked_def)
    then show ?thesis by (rule readBodyChunked_loop_limit) (rule assms(2))
  next
    case 3
    then have "readBodyIdentity_loop avail r maxBodySize [] (if c = 0 then 1024 else c) = Ret (b, c', None, r')"
      using assms(1) by (simp add: readBody_def readBodyIdentity_def)
    then show ?thesis by (rule readBodyIdentity_loop_limit) (use assms(2) in simp_all)
  qed
qed

text \<open>
  C17. No body that \<open>readBody\<close> returns without an error is longer than a positive limit, for
  every kind of framing, whatever the peer sends and however it arrives.
\<close>

theorem readBody_limit:
  assumes "readBody avail r contentLength maxBodySize c = Ret (b, c', None, r')" and "0 < maxBodySize"
  shows "int (length b) \<le> maxBodySize"
  using assms by (rule readBody_within)

theorem readBody_limit_witness:
  "readBody (\<lambda>_. 1) \<lparr>rd_data = bytes_of ''abc'', rd_err = EOF\<rparr> 2 2 8 =
      Ret (bytes_of ''ab'', 8, None, \<lparr>rd_data = bytes_of ''c'', rd_err = EOF\<rparr>)
    \<and> int (length (bytes_of ''ab'')) \<le> 2"
proof -
  have read: "readBody (\<lambda>_. 1) \<lparr>rd_data = bytes_of ''abc'', rd_err = EOF\<rparr> 2 2 8 =
      Ret (bytes_of ''ab'', 8, None, \<lparr>rd_data = bytes_of ''c'', rd_err = EOF\<rparr>)"
    by (simp add: readBody_def appendBodyFixedSize_spec grown_def bytes_of_def)
  from read readBody_limit [OF read] show ?thesis by simp
qed

text \<open>
  \<open>round2\<close> is the least power of two that is not below its argument, for arguments up to
  two gigabytes; above that it is zero, and \<open>appendBodyFixedSize\<close> panics on a buffer it has to
  grow that far.
\<close>

theorem round2_correct:
  assumes "0 < n" and "n \<le> 2 ^ 32"
  shows "if n \<le> 2 ^ 31 then \<exists>k. round2 n = 2 ^ k \<and> n \<le> 2 ^ k \<and> 2 ^ k < 2 * n
    else round2 n = 0 \<and> appendBodyFixedSize avail r [] 0 (nat n) = Panic"
  using round2_ge [OF assms(1)] round2_zero [OF _ assms(2)] assms(1)
  by (auto simp: appendBodyFixedSize_def Let_def)

theorem round2_correct_witness:
  "round2 (2 ^ 31 + 1) = 0 \<and> appendBodyFixedSize (\<lambda>_. 1) \<lparr>rd_data = [], rd_err = EOF\<rparr> [] 0 (nat (2 ^ 31 + 1)) = Panic"
  using round2_correct [of "2 ^ 31 + 1" "\<lambda>_. 1" "\<lparr>rd_data = [], rd_err = EOF\<rparr>"] by simp

end
