(* ===== verification/PerIPConn.thy ===== *)
theory PerIPConn
  imports Bytesconv "HOL-Library.Multiset"
begin

text \<open>
  \<^verbatim>\<open>peripconn.go\<close>: the counter of open connections per IPv4 address, and \<open>wrapPerIPConn\<close> of
  \<^verbatim>\<open>server.go\<close>, which enforces the limit with it. Each method of the counter runs under its
  mutex. A connection is its remote address; its other operations are the net package's.
\<close>


section \<open>The counter\<close>

record perIPConnCounter =
  pc_m :: "(32 word \<rightharpoonup> int) option"

text \<open>A missing key of a Go map reads as zero.\<close>

definition pc_get :: "(32 word \<rightharpoonup> int) \<Rightarrow> 32 word \<Rightarrow> int" where
  "pc_get m ip = (case m ip of Some n \<Rightarrow> n | None \<Rightarrow> 0)"

definition perIPConnCounter_Register :: "perIPConnCounter \<Rightarrow> 32 word \<Rightarrow> int \<times> perIPConnCounter" where
  "perIPConnCounter_Register cc ip =
     (let m = (case pc_m cc of None \<Rightarrow> Map.empty | Some m \<Rightarrow> m);
          n = pc_get m ip + 1
      in (n, cc\<lparr>pc_m := Some (m(ip \<mapsto> n))\<rparr>))"

text \<open>\<open>None\<close> is the panic of an unbalanced \<open>Unregister\<close>.\<close>

definition perIPConnCounter_Unregister :: "perIPConnCounter \<Rightarrow> 32 word \<Rightarrow> perIPConnCounter option" where
  "perIPConnCounter_Unregister cc ip =
     (case pc_m cc of
        None \<Rightarrow> None
      | Some m \<Rightarrow>
          (let n = pc_get m ip - 1 in
           if n < 0 then None else Some (cc\<lparr>pc_m := Some (m(ip \<mapsto> n))\<rparr>)))"


section \<open>Addresses\<close>

text \<open>A remote address: a TCP address with its IP, or another kind of address.\<close>

datatype net_addr = TCPAddr bytes | OtherAddr

definition getConnIP4 :: "net_addr \<Rightarrow> bytes option" where
  "getConnIP4 addr = (case addr of TCPAddr ip \<Rightarrow> To4 ip | OtherAddr \<Rightarrow> Some IPv4zero)"

definition ip2uint32 :: "bytes option \<Rightarrow> 32 word" where
  "ip2uint32 ip =
     (case ip of
        None \<Rightarrow> 0
      | Some ip \<Rightarrow>
          if length ip \<noteq> 4 then 0
          else push_bit 24 (ucast (ip ! 0)) OR push_bit 16 (ucast (ip ! 1))
               OR push_bit 8 (ucast (ip ! 2)) OR ucast (ip ! 3))"

definition uint322ip :: "32 word \<Rightarrow> bytes" where
  "uint322ip ip = [ucast (drop_bit 24 ip), ucast (drop_bit 16 ip), ucast (drop_bit 8 ip), ucast ip]"

definition getUint32IP :: "net_addr \<Rightarrow> 32 word" where
  "getUint32IP c = ip2uint32 (getConnIP4 c)"


section \<open>Wrapped connections\<close>

text \<open>
  The connections a server has accepted with a limit of \<open>MaxConnsPerIP\<close>: those it serves, by
  the address they are counted under, those it serves without counting them because their address has
  the key zero (not IPv4, or not TCP), and those \<open>wrapPerIPConn\<close> has registered and is about to
  turn away. \<open>Register\<close>, the \<open>Unregister\<close> of a refused connection and \<open>Close\<close> of a served one
  are separate critical sections, so other goroutines run between them.
\<close>

record ip_system =
  ips_counter :: perIPConnCounter
  ips_open :: "32 word multiset"
  ips_uncounted :: "net_addr multiset"
  ips_rejecting :: "32 word multiset"

text \<open>The first critical section of \<open>wrapPerIPConn\<close>. A connection whose key is zero is served uncounted.\<close>

definition wrapPerIPConn :: "int \<Rightarrow> ip_system \<Rightarrow> net_addr \<Rightarrow> ip_system" where
  "wrapPerIPConn MaxConnsPerIP s c =
     (let ip = getUint32IP c in
      if ip = 0 then s\<lparr>ips_uncounted := add_mset c (ips_uncounted s)\<rparr>
      else
        (case perIPConnCounter_Register (ips_counter s) ip of
           (n, cc) \<Rightarrow>
             if n > MaxConnsPerIP
             then s\<lparr>ips_counter := cc, ips_rejecting := add_mset ip (ips_rejecting s)\<rparr>
             else s\<lparr>ips_counter := cc, ips_open := add_mset ip (ips_open s)\<rparr>))"

text \<open>Its second one, for a connection that is turned away.\<close>

definition wrapPerIPConn_reject :: "ip_system \<Rightarrow> 32 word \<Rightarrow> ip_system option" where
  "wrapPerIPConn_reject s ip =
     map_option (\<lambda>cc. s\<lparr>ips_counter := cc, ips_rejecting := ips_rejecting s - {#ip#}\<rparr>)
       (perIPConnCounter_Unregister (ips_counter s) ip)"

definition perIPConn_Close :: "ip_system \<Rightarrow> 32 word \<Rightarrow> ip_system option" where
  "perIPConn_Close s ip =
     map_option (\<lambda>cc. s\<lparr>ips_counter := cc, ips_open := ips_open s - {#ip#}\<rparr>)
       (perIPConnCounter_Unregister (ips_counter s) ip)"

text \<open>An uncounted connection is not wrapped, so \<open>Close\<close> is the connection's own.\<close>

definition uncounted_Close :: "ip_system \<Rightarrow> net_addr \<Rightarrow> ip_system" where
  "uncounted_Close s c = s\<lparr>ips_uncounted := ips_uncounted s - {#c#}\<rparr>"

datatype ip_event = Accepted net_addr | Refused "32 word" | Closed "32 word" | ClosedUncounted net_addr

inductive ip_step :: "int \<Rightarrow> ip_system \<Rightarrow> ip_event \<Rightarrow> ip_system \<Rightarrow> bool" for MaxConnsPerIP :: int where
  accepted: "ip_step MaxConnsPerIP s (Accepted c) (wrapPerIPConn MaxConnsPerIP s c)"
| refused: "ip \<in># ips_rejecting s \<Longrightarrow> wrapPerIPConn_reject s ip = Some t \<Longrightarrow> ip_step MaxConnsPerIP s (Refused ip) t"
| closed: "ip \<in># ips_open s \<Longrightarrow> perIPConn_Close s ip = Some t \<Longrightarrow> ip_step MaxConnsPerIP s (Closed ip) t"
| closed_uncounted: "c \<in># ips_uncounted s \<Longrightarrow> ip_step MaxConnsPerIP s (ClosedUncounted c) (uncounted_Close s c)"

definition ip_start :: "ip_system \<Rightarrow> bool" where
  "ip_start s \<longleftrightarrow> s = \<lparr>ips_counter = \<lparr>pc_m = None\<rparr>, ips_open = {#}, ips_uncounted = {#}, ips_rejecting = {#}\<rparr>"


section \<open>Lemmas\<close>

definition pc_count :: "perIPConnCounter \<Rightarrow> 32 word \<Rightarrow> int" where
  "pc_count cc ip = (case pc_m cc of None \<Rightarrow> 0 | Some m \<Rightarrow> pc_get m ip)"

lemma Register_count:
  "perIPConnCounter_Register cc ip = (n, cc') \<Longrightarrow>
     n = pc_count cc ip + 1 \<and> pc_count cc' = (pc_count cc)(ip := n) \<and> pc_m cc' \<noteq> None"
  by (cases "pc_m cc") (auto simp: perIPConnCounter_Register_def pc_count_def pc_get_def Let_def)

lemma Unregister_count:
  "0 < pc_count cc ip \<Longrightarrow>
     \<exists>cc'. perIPConnCounter_Unregister cc ip = Some cc' \<and> pc_count cc' = (pc_count cc)(ip := pc_count cc ip - 1)"
  by (cases "pc_m cc")
    (auto simp: perIPConnCounter_Unregister_def pc_count_def pc_get_def Let_def fun_eq_iff)

definition ip_inv :: "int \<Rightarrow> ip_system \<Rightarrow> bool" where
  "ip_inv MaxConnsPerIP s \<longleftrightarrow>
     (\<forall>ip. pc_count (ips_counter s) ip = int (count (ips_open s) ip + count (ips_rejecting s) ip)
         \<and> (count (ips_open s) ip = 0 \<or> int (count (ips_open s) ip) \<le> MaxConnsPerIP))
     \<and> 0 \<notin># ips_open s + ips_rejecting s \<and> (\<forall>c. c \<in># ips_uncounted s \<longrightarrow> getUint32IP c = 0)"

lemma ip_inv_accept:
  assumes "ip_inv m s"
  shows "ip_inv m (wrapPerIPConn m s c)"
proof (cases "getUint32IP c = 0")
  case False
  let ?ip = "getUint32IP c"
  obtain n cc where r: "perIPConnCounter_Register (ips_counter s) ?ip = (n, cc)"
    by (cases "perIPConnCounter_Register (ips_counter s) ?ip") auto
  have n: "n = int (count (ips_open s) ?ip + count (ips_rejecting s) ?ip) + 1" "pc_count cc = (pc_count (ips_counter s))(?ip := n)"
    using Register_count [OF r] assms by (auto simp: ip_inv_def)
  show ?thesis using assms False n r by (auto simp: wrapPerIPConn_def ip_inv_def Let_def)
qed (use assms in \<open>auto simp: wrapPerIPConn_def ip_inv_def\<close>)

lemma Unregister_inv:
  assumes "ip_inv m s" and "ip \<in># ips_open s + ips_rejecting s"
  obtains cc where "perIPConnCounter_Unregister (ips_counter s) ip = Some cc"
    and "pc_count cc = (pc_count (ips_counter s))(ip := pc_count (ips_counter s) ip - 1)"
proof -
  have "0 < count (ips_open s) ip + count (ips_rejecting s) ip"
    using assms(2) by auto
  moreover have "pc_count (ips_counter s) ip = int (count (ips_open s) ip + count (ips_rejecting s) ip)"
    using assms(1) unfolding ip_inv_def by blast
  ultimately have "0 < pc_count (ips_counter s) ip" by linarith
  then show thesis using Unregister_count that by blast
qed

lemma ip_inv_remove:
  assumes "ip_inv m s" and "pc_count cc = (pc_count (ips_counter s))(ip := pc_count (ips_counter s) ip - 1)"
  shows "ip \<in># ips_open s \<Longrightarrow> ip_inv m (s\<lparr>ips_counter := cc, ips_open := ips_open s - {#ip#}\<rparr>)"
    and "ip \<in># ips_rejecting s \<Longrightarrow> ip_inv m (s\<lparr>ips_counter := cc, ips_rejecting := ips_rejecting s - {#ip#}\<rparr>)"
proof -
  have c: "pc_count (ips_counter s) i = int (count (ips_open s) i + count (ips_rejecting s) i)"
    "count (ips_open s) i = 0 \<or> int (count (ips_open s) i) \<le> m" "0 \<notin># ips_open s + ips_rejecting s"
    "\<forall>c. c \<in># ips_uncounted s \<longrightarrow> getUint32IP c = 0" for i
    using assms(1) by (auto simp: ip_inv_def)
  show "ip_inv m (s\<lparr>ips_counter := cc, ips_open := ips_open s - {#ip#}\<rparr>)" if "ip \<in># ips_open s"
  proof -
    have pos: "0 < count (ips_open s) ip" using that by simp
    then have "int (count (ips_open s) ip) \<le> m" using c(2) [of ip] by linarith
    with pos show ?thesis using c assms(2) by (auto simp: ip_inv_def of_nat_diff dest: in_diffD)
  qed
  show "ip_inv m (s\<lparr>ips_counter := cc, ips_rejecting := ips_rejecting s - {#ip#}\<rparr>)" if "ip \<in># ips_rejecting s"
  proof -
    have "0 < count (ips_rejecting s) ip" using that by simp
    then show ?thesis using c assms(2) by (auto simp: ip_inv_def of_nat_diff dest: in_diffD)
  qed
qed

lemma ip_inv_step:
  assumes "ip_inv m s" and "ip_step m s e t"
  shows "ip_inv m t"
  using assms(2)
proof cases
  case (accepted c)
  then show ?thesis using ip_inv_accept [OF assms(1)] by simp
next
  case (refused ip)
  then obtain cc where "perIPConnCounter_Unregister (ips_counter s) ip = Some cc"
    "pc_count cc = (pc_count (ips_counter s))(ip := pc_count (ips_counter s) ip - 1)"
    using Unregister_inv [OF assms(1), of ip] by auto
  with refused ip_inv_remove(2) [OF assms(1)] show ?thesis by (auto simp: wrapPerIPConn_reject_def)
next
  case (closed ip)
  then obtain cc where "perIPConnCounter_Unregister (ips_counter s) ip = Some cc"
    "pc_count cc = (pc_count (ips_counter s))(ip := pc_count (ips_counter s) ip - 1)"
    using Unregister_inv [OF assms(1), of ip] by auto
  with closed ip_inv_remove(1) [OF assms(1)] show ?thesis by (auto simp: perIPConn_Close_def)
next
  case (closed_uncounted c)
  then show ?thesis using assms(1) by (auto simp: uncounted_Close_def ip_inv_def dest: in_diffD)
qed

interpretation per_ip: event_system ip_start "ip_step m" "ip_inv m" for m
proof
  show "ip_inv m s" if "ip_start s" for s
    using that by (simp add: ip_start_def ip_inv_def pc_count_def)
  show "ip_inv m t" if "ip_inv m s" "ip_step m s e t" for s e t
    using ip_inv_step that by blast
qed


section \<open>Properties\<close>

text \<open>The connections that are served from the addresses with a key, counted or not.\<close>

definition served_from :: "ip_system \<Rightarrow> 32 word \<Rightarrow> nat" where
  "served_from s ip = count (ips_open s) ip + size (filter_mset (\<lambda>c. getUint32IP c = ip) (ips_uncounted s))"

text \<open>
  C18. In every state a server can reach, however the connection attempts, refusals and closes
  interleave: no address with a key other than zero has more served connections than \<open>MaxConnsPerIP\<close>,
  its counter is the number of its connections that are served or being refused, and closing or
  refusing one of them never hits the panic of an unbalanced \<open>Unregister\<close>. The key zero stands for all
  addresses that are not IPv4, or not TCP: its connections are served without being counted, so the
  limit says nothing of them (\<open>IPv6_unlimited\<close>).
\<close>

theorem perIPConn_limit:
  assumes "reachable ip_start (ip_step MaxConnsPerIP) s" and "0 \<le> MaxConnsPerIP"
  shows "(ip \<noteq> 0 \<longrightarrow> int (served_from s ip) \<le> MaxConnsPerIP)
    \<and> (\<forall>c \<in># ips_uncounted s. getUint32IP c = 0) \<and> count (ips_open s) 0 = 0
    \<and> pc_count (ips_counter s) ip = int (count (ips_open s) ip + count (ips_rejecting s) ip)
    \<and> (ip \<in># ips_open s \<longrightarrow> perIPConn_Close s ip \<noteq> None)
    \<and> (ip \<in># ips_rejecting s \<longrightarrow> wrapPerIPConn_reject s ip \<noteq> None)"
proof -
  have inv: "ip_inv MaxConnsPerIP s" using assms(1) by (rule per_ip.reachable_inv)
  then have "count (ips_open s) ip = 0 \<or> int (count (ips_open s) ip) \<le> MaxConnsPerIP"
    unfolding ip_inv_def by blast
  then have "int (count (ips_open s) ip) \<le> MaxConnsPerIP" using assms(2) by linarith
  moreover have un: "\<forall>c \<in># ips_uncounted s. getUint32IP c = 0" "count (ips_open s) 0 = 0"
    using inv unfolding ip_inv_def by (auto simp: count_eq_zero_iff)
  moreover have "served_from s ip = count (ips_open s) ip" if "ip \<noteq> 0"
  proof -
    have "filter_mset (\<lambda>c. getUint32IP c = ip) (ips_uncounted s) = {#}"
      by (rule multiset_eqI) (use that un(1) in \<open>auto simp: count_eq_zero_iff\<close>)
    then show ?thesis by (simp add: served_from_def)
  qed
  moreover have "pc_count (ips_counter s) ip = int (count (ips_open s) ip + count (ips_rejecting s) ip)"
    using inv unfolding ip_inv_def by blast
  moreover have "perIPConnCounter_Unregister (ips_counter s) ip \<noteq> None" if "ip \<in># ips_open s + ips_rejecting s"
    using Unregister_inv [OF inv that] by auto
  ultimately show ?thesis by (auto simp: perIPConn_Close_def wrapPerIPConn_reject_def)
qed

definition example_addr :: net_addr where
  "example_addr = TCPAddr [10, 0, 0, 1]"

theorem perIPConn_limit_witness:
  "let s = wrapPerIPConn 1 (wrapPerIPConn 1 \<lparr>ips_counter = \<lparr>pc_m = None\<rparr>, ips_open = {#}, ips_uncounted = {#}, ips_rejecting = {#}\<rparr>
        example_addr) example_addr
   in int (served_from s (getUint32IP example_addr)) \<le> 1"
proof -
  let ?s0 = "\<lparr>ips_counter = \<lparr>pc_m = None\<rparr>, ips_open = {#}, ips_uncounted = {#}, ips_rejecting = {#}\<rparr>"
  have "reachable ip_start (ip_step 1) ?s0" by (rule reach_start) (simp add: ip_start_def)
  then have "reachable ip_start (ip_step 1) (wrapPerIPConn 1 ?s0 example_addr)" by (rule reach_step) (rule accepted)
  then have r: "reachable ip_start (ip_step 1) (wrapPerIPConn 1 (wrapPerIPConn 1 ?s0 example_addr) example_addr)"
    by (rule reach_step) (rule accepted)
  have "getUint32IP example_addr \<noteq> 0" by code_simp
  then show ?thesis using perIPConn_limit [OF r, of "getUint32IP example_addr"] by (simp add: Let_def)
qed

text \<open>An address that is not IPv4 can have any number of served connections under any limit.\<close>

lemma IPv6_unlimited:
  assumes "getUint32IP c = 0"
  shows "\<exists>s. reachable ip_start (ip_step MaxConnsPerIP) s \<and> count (ips_uncounted s) c = n"
proof (induction n)
  case 0
  show ?case by (intro exI conjI, rule reach_start) (auto simp: ip_start_def)
next
  case (Suc n)
  then obtain s where s: "reachable ip_start (ip_step MaxConnsPerIP) s" "count (ips_uncounted s) c = n" by blast
  have "reachable ip_start (ip_step MaxConnsPerIP) (wrapPerIPConn MaxConnsPerIP s c)" by (rule reach_step [OF s(1) accepted])
  moreover have "count (ips_uncounted (wrapPerIPConn MaxConnsPerIP s c)) c = Suc n" using assms s(2) by (simp add: wrapPerIPConn_def)
  ultimately show ?case by blast
qed

lemma IPv6_has_no_key: "getUint32IP (TCPAddr [0x20, 1, 0xd, 0xb8, 0, 0, 0, 0, 0, 0, 0, 0, 0, 0, 0, 1]) = 0"
  by code_simp

text \<open>
  The 32-bit key of an IPv4 address determines the address: converting it back gives the
  four bytes, and converting a key to an address and back gives the key. An address that is not
  a 4-byte one has the key zero, under which connections are not counted.
\<close>

theorem ip_uint32_inverse:
  "uint322ip (ip2uint32 (Some [a, b, c, d])) = [a, b, c, d] \<and> ip2uint32 (Some (uint322ip w)) = w
   \<and> getUint32IP (TCPAddr (v4InV6Prefix @ [a, b, c, d])) = getUint32IP (TCPAddr [a, b, c, d])
   \<and> getUint32IP OtherAddr = 0"
proof -
  have high: "bit x n \<Longrightarrow> n < 8" for x :: byte and n using bit_imp_le_length [of x n] by simp
  have "uint322ip (ip2uint32 (Some [a, b, c, d])) = [a, b, c, d]"
    by (simp add: uint322ip_def ip2uint32_def)
      (intro conjI bit_word_eqI; auto simp: bit_ucast_iff bit_drop_bit_eq bit_or_iff bit_push_bit_iff dest: high)
  moreover have "ip2uint32 (Some (uint322ip w)) = w"
  proof (rule bit_word_eqI)
    fix n assume n: "n < LENGTH(32)"
    then consider "n < 8" | "8 \<le> n" "n < 16" | "16 \<le> n" "n < 24" | "24 \<le> n" "n < 32" by fastforce
    then show "bit (ip2uint32 (Some (uint322ip w))) n \<longleftrightarrow> bit w n"
      by cases (auto simp: uint322ip_def ip2uint32_def bit_ucast_iff bit_drop_bit_eq bit_or_iff bit_push_bit_iff)
  qed
  moreover have "getUint32IP (TCPAddr (v4InV6Prefix @ [a, b, c, d])) = getUint32IP (TCPAddr [a, b, c, d])"
    by (simp add: getUint32IP_def getConnIP4_def To4_def v4InV6Prefix_def)
  moreover have "getUint32IP OtherAddr = 0"
    by (simp add: getUint32IP_def getConnIP4_def ip2uint32_def IPv4zero_def v4InV6Prefix_def)
  ultimately show ?thesis by simp
qed

end
