(* ===== verification/Message.thy ===== *)
theory Message
  imports Body PerIPConn
begin

text \<open>
  The \<open>Request\<close> and \<open>Response\<close> objects of \<^verbatim>\<open>http.go\<close>: header, body in its three forms (pooled
  buffer, raw slice, stream), the operations on them, reading from and writing to a connection.
  A pooled buffer is its bytes; its capacity, which only says when memory is allocated, is an
  argument of the functions that look at it. A \<^verbatim>\<open>bufio.Writer\<close> is the list of bytes written to it.
  Package \<^verbatim>\<open>mime/multipart\<close> is the record \<open>multipart_lib\<close> and a form a value of an arbitrary type.
\<close>


section \<open>Streams, forms and errors\<close>

text \<open>
  An \<^verbatim>\<open>io.Reader\<close> given as body: what it delivers and how it cuts it, its \<^verbatim>\<open>N\<close> if it is an
  \<^verbatim>\<open>io.LimitedReader\<close>, and the result of \<^verbatim>\<open>Close\<close> if it is an \<^verbatim>\<open>io.Closer\<close>.
\<close>

record body_stream =
  bs_reader :: reader
  bs_avail :: "nat \<Rightarrow> nat"
  bs_LimitedReader :: "int option"
  bs_Closer :: "io_err option option"

definition limitedReaderSize :: "body_stream \<Rightarrow> int" where
  "limitedReaderSize r = (case bs_LimitedReader r of None \<Rightarrow> -1 | Some n \<Rightarrow> n)"

text \<open>
  \<open>ReadForm data boundary maxMemory\<close> parses a form from the bytes the limited reader gives and
  says how many of them it took; \<open>WriteForm\<close> prints a form.
\<close>

record ('f, 'e) multipart_lib =
  ml_ReadForm :: "bytes \<Rightarrow> bytes \<Rightarrow> int \<Rightarrow> ('e + 'f) \<times> nat"
  ml_WriteForm :: "'f \<Rightarrow> bytes \<Rightarrow> 'e + bytes"
  ml_Error :: "'e \<Rightarrow> bytes"

datatype 'e msg_err =
  MsgHeader read_err
  | MsgBody body_err
  | MsgIO io_err
  | MsgCopy copy_err
  | ErrGetOnly
  | errRequestHostRequired
  | FormSize int
  | FormErr 'e
  | NonPostBody

text \<open>
  How the connection behaves while bodies are read: how many bytes a read delivers and how many
  are left in the buffer after a body, both by the number of bytes that have not been consumed.
\<close>

record conn_env =
  ce_avail :: "nat \<Rightarrow> nat"
  ce_buffered :: "nat \<Rightarrow> nat"

definition br_reader :: "bufreader \<Rightarrow> reader" where
  "br_reader r = \<lparr>rd_data = rd_data r, rd_err = rd_err r\<rparr>"

definition br_after :: "conn_env \<Rightarrow> bufreader \<Rightarrow> reader \<Rightarrow> bufreader" where
  "br_after env r r' =
     (let left = length (rd_data r')
      in r\<lparr>rd_data := rd_data r', rd_err := rd_err r',
           br_buffered := min (ce_buffered env left) (min (br_size r) left)\<rparr>)"


section \<open>Requests: the struct and its body\<close>

record 'f Request =
  q_Header :: RequestHeader
  q_uri :: URI
  q_postArgs :: Args
  q_bodyStream :: "body_stream option"
  q_body :: "bytes option"
  q_bodyRaw :: "bytes option"
  q_multipartForm :: "'f option"
  q_multipartFormBoundary :: bytes
  q_secureErrorLogMessage :: bool
  q_parsedURI :: bool
  q_parsedPostArgs :: bool
  q_keepBodyBuffer :: bool
  q_isTLS :: bool
  q_timeout :: int

definition Request_closeBodyStream :: "'f Request \<Rightarrow> io_err option \<times> 'f Request" where
  "Request_closeBodyStream req =
     (case q_bodyStream req of
        None \<Rightarrow> (None, req)
      | Some s \<Rightarrow> (case bs_Closer s of Some err \<Rightarrow> err | None \<Rightarrow> None, req\<lparr>q_bodyStream := None\<rparr>))"

definition Request_RemoveMultipartFormFiles :: "'f Request \<Rightarrow> 'f Request" where
  "Request_RemoveMultipartFormFiles req = req\<lparr>q_multipartForm := None, q_multipartFormBoundary := []\<rparr>"

text \<open>\<open>bodyBuffer\<close> drops the raw body and makes sure there is a buffer.\<close>

definition Request_bodyBuffer :: "'f Request \<Rightarrow> bytes \<times> 'f Request" where
  "Request_bodyBuffer req =
     (let b = (case q_body req of None \<Rightarrow> [] | Some b \<Rightarrow> b)
      in (b, req\<lparr>q_body := Some b, q_bodyRaw := None\<rparr>))"

text \<open>A stream is copied into the buffer; its error, if it has one, becomes the body.\<close>

definition read_stream :: "(io_err \<Rightarrow> bytes) \<Rightarrow> body_stream \<Rightarrow> bytes" where
  "read_stream Error s =
     (case copyZeroAlloc (bs_reader s) of (b, None) \<Rightarrow> b | (b, Some err) \<Rightarrow> Error err)"

definition Request_bodyBytes :: "(io_err \<Rightarrow> bytes) \<Rightarrow> 'f Request \<Rightarrow> bytes option \<times> 'f Request" where
  "Request_bodyBytes Error req =
     (case q_bodyRaw req of
        Some b \<Rightarrow> (Some b, req)
      | None \<Rightarrow>
          (let req = (case q_bodyStream req of
                 None \<Rightarrow> req
               | Some s \<Rightarrow>
                   (let req = snd (Request_bodyBuffer req);
                        req = snd (Request_closeBodyStream req)
                    in req\<lparr>q_body := Some (read_stream Error s)\<rparr>))
           in (q_body req, req)))"

definition Request_onlyMultipartForm :: "'f Request \<Rightarrow> bool" where
  "Request_onlyMultipartForm req \<longleftrightarrow>
     q_multipartForm req \<noteq> None \<and> (case q_body req of None \<Rightarrow> True | Some b \<Rightarrow> length b = 0)"

text \<open>\<open>Panic\<close> is the panic of \<open>WriteMultipartForm\<close> on an empty boundary.\<close>

definition WriteMultipartForm :: "('f, 'e) multipart_lib \<Rightarrow> 'f \<Rightarrow> bytes \<Rightarrow> ('e + bytes) panics" where
  "WriteMultipartForm lib f boundary =
     (if length boundary = 0 then Panic else Ret (ml_WriteForm lib f boundary))"

definition marshalMultipartForm :: "('f, 'e) multipart_lib \<Rightarrow> 'f \<Rightarrow> bytes \<Rightarrow> ('e + bytes) panics" where
  "marshalMultipartForm lib f boundary = WriteMultipartForm lib f boundary"

definition Request_Body ::
  "(io_err \<Rightarrow> bytes) \<Rightarrow> ('f, 'e) multipart_lib \<Rightarrow> 'f Request \<Rightarrow> (bytes option \<times> 'f Request) panics" where
  "Request_Body Error lib req =
     (case q_bodyRaw req of
        Some b \<Rightarrow> Ret (Some b, req)
      | None \<Rightarrow>
          if Request_onlyMultipartForm req then
            (case marshalMultipartForm lib (the (q_multipartForm req)) (q_multipartFormBoundary req) of
               Panic \<Rightarrow> Panic
             | Ret (Inl err) \<Rightarrow> Ret (Some (ml_Error lib err), req)
             | Ret (Inr body) \<Rightarrow> Ret (Some body, req))
          else Ret (Request_bodyBytes Error req))"

definition Request_AppendBody :: "'f Request \<Rightarrow> bytes \<Rightarrow> 'f Request" where
  "Request_AppendBody req p =
     (let req = Request_RemoveMultipartFormFiles req;
          req = snd (Request_closeBodyStream req);
          (b, req) = Request_bodyBuffer req
      in req\<lparr>q_body := Some (b @ p)\<rparr>)"

definition Request_SetBody :: "'f Request \<Rightarrow> bytes \<Rightarrow> 'f Request" where
  "Request_SetBody req body =
     (let req = Request_RemoveMultipartFormFiles req;
          req = snd (Request_closeBodyStream req);
          (b, req) = Request_bodyBuffer req
      in req\<lparr>q_body := Some body\<rparr>)"

definition Request_ResetBody :: "'f Request \<Rightarrow> 'f Request" where
  "Request_ResetBody req =
     (let req = req\<lparr>q_bodyRaw := None\<rparr>;
          req = Request_RemoveMultipartFormFiles req;
          req = snd (Request_closeBodyStream req)
      in case q_body req of
           None \<Rightarrow> req
         | Some b \<Rightarrow> if q_keepBodyBuffer req then req\<lparr>q_body := Some []\<rparr> else req\<lparr>q_body := None\<rparr>)"

definition Request_SetBodyRaw :: "'f Request \<Rightarrow> bytes option \<Rightarrow> 'f Request" where
  "Request_SetBodyRaw req body = (Request_ResetBody req)\<lparr>q_bodyRaw := body\<rparr>"

definition Request_SetBodyStream :: "'f Request \<Rightarrow> body_stream option \<Rightarrow> int \<Rightarrow> 'f Request" where
  "Request_SetBodyStream req bodyStream bodySize =
     (let req = (Request_ResetBody req)\<lparr>q_bodyStream := bodyStream\<rparr>
      in req\<lparr>q_Header := RequestHeader_SetContentLength (q_Header req) bodySize\<rparr>)"

definition Request_IsBodyStream :: "'f Request \<Rightarrow> bool" where
  "Request_IsBodyStream req \<longleftrightarrow> q_bodyStream req \<noteq> None"

text \<open>\<open>ReleaseBody\<close> dereferences the buffer without a check.\<close>

definition Request_ReleaseBody :: "'f Request \<Rightarrow> nat \<Rightarrow> int \<Rightarrow> 'f Request panics" where
  "Request_ReleaseBody req capacity sz =
     (let req = req\<lparr>q_bodyRaw := None\<rparr> in
      if q_body req = None then Panic
      else if int capacity > sz then Ret ((snd (Request_closeBodyStream req))\<lparr>q_body := None\<rparr>)
      else Ret req)"

definition Request_SwapBody :: "(io_err \<Rightarrow> bytes) \<Rightarrow> 'f Request \<Rightarrow> bytes \<Rightarrow> bytes \<times> 'f Request" where
  "Request_SwapBody Error req body =
     (let (bb, req) = Request_bodyBuffer req;
          (bb, req) = (case q_bodyStream req of
             None \<Rightarrow> (bb, req)
           | Some s \<Rightarrow> (read_stream Error s, snd (Request_closeBodyStream req)))
      in (bb, req\<lparr>q_bodyRaw := None, q_body := Some body\<rparr>))"

definition Request_BodyWriteTo ::
  "(io_err \<Rightarrow> bytes) \<Rightarrow> ('f, 'e) multipart_lib \<Rightarrow> 'f Request \<Rightarrow> (bytes \<times> 'e msg_err option \<times> 'f Request) panics" where
  "Request_BodyWriteTo Error lib req =
     (case q_bodyStream req of
        Some s \<Rightarrow>
          (case copyZeroAlloc (bs_reader s) of
             (b, err) \<Rightarrow> Ret (b, map_option MsgIO err, snd (Request_closeBodyStream req)))
      | None \<Rightarrow>
          if Request_onlyMultipartForm req then
            (case WriteMultipartForm lib (the (q_multipartForm req)) (q_multipartFormBoundary req) of
               Panic \<Rightarrow> Panic
             | Ret (Inl err) \<Rightarrow> Ret ([], Some (FormErr err), req)
             | Ret (Inr b) \<Rightarrow> Ret (b, None, req))
          else (case Request_bodyBytes Error req of (b, req) \<Rightarrow> Ret (nilable b, None, req)))"


section \<open>Requests: header, URI and arguments\<close>

definition Request_parseURI :: "'f Request \<Rightarrow> uri_err option \<times> 'f Request" where
  "Request_parseURI req =
     (if q_parsedURI req then (None, req)
      else
        (let req = req\<lparr>q_parsedURI := True\<rparr> in
         case URI_parse (q_uri req) (rq_host (q_Header req)) (RequestHeader_RequestURI (q_Header req)) (q_isTLS req) of
           (u, err) \<Rightarrow> (err, req\<lparr>q_uri := u\<rparr>)))"

definition Request_URI :: "'f Request \<Rightarrow> URI \<times> 'f Request" where
  "Request_URI req = (let req = snd (Request_parseURI req) in (q_uri req, req))"

definition Request_SetHost :: "'f Request \<Rightarrow> bytes \<Rightarrow> 'f Request" where
  "Request_SetHost req host =
     (case Request_URI req of (u, req) \<Rightarrow> req\<lparr>q_uri := URI_SetHost u host\<rparr>)"

definition Request_Host :: "'f Request \<Rightarrow> bytes \<times> 'f Request" where
  "Request_Host req = (case Request_URI req of (u, req) \<Rightarrow> (u_host u, req))"

definition Request_SetRequestURI :: "'f Request \<Rightarrow> bytes \<Rightarrow> 'f Request" where
  "Request_SetRequestURI req requestURI =
     req\<lparr>q_Header := RequestHeader_SetRequestURI (q_Header req) requestURI, q_parsedURI := False\<rparr>"

definition Request_RequestURI :: "'f Request \<Rightarrow> bytes \<times> 'f Request" where
  "Request_RequestURI req =
     (let req = (if q_parsedURI req
                 then (case URI_RequestURI (q_uri req) of
                         (requestURI, u) \<Rightarrow> Request_SetRequestURI (req\<lparr>q_uri := u\<rparr>) requestURI)
                 else req)
      in (RequestHeader_RequestURI (q_Header req), req))"

definition Request_ConnectionClose :: "'f Request \<Rightarrow> bool" where
  "Request_ConnectionClose req = rq_connectionClose (q_Header req)"

definition Request_SetConnectionClose :: "'f Request \<Rightarrow> 'f Request" where
  "Request_SetConnectionClose req = req\<lparr>q_Header := RequestHeader_SetConnectionClose (q_Header req)\<rparr>"

definition Request_parsePostArgs :: "(io_err \<Rightarrow> bytes) \<Rightarrow> 'f Request \<Rightarrow> 'f Request" where
  "Request_parsePostArgs Error req =
     (if q_parsedPostArgs req then req
      else
        (let req = req\<lparr>q_parsedPostArgs := True\<rparr> in
         if \<not> prefix strPostArgsContentType (RequestHeader_ContentType (q_Header req)) then req
         else
           (case Request_bodyBytes Error req of
              (b, req) \<Rightarrow> req\<lparr>q_postArgs := Args_ParseBytes (q_postArgs req) (nilable b)\<rparr>)))"

definition Request_PostArgs :: "(io_err \<Rightarrow> bytes) \<Rightarrow> 'f Request \<Rightarrow> Args \<times> 'f Request" where
  "Request_PostArgs Error req = (let req = Request_parsePostArgs Error req in (q_postArgs req, req))"

definition Request_resetSkipHeader :: "'f Request \<Rightarrow> 'f Request" where
  "Request_resetSkipHeader req =
     (let req = Request_ResetBody req
      in req\<lparr>q_uri := URI_Reset (q_uri req), q_parsedURI := False, q_postArgs := Args_Reset (q_postArgs req),
             q_parsedPostArgs := False, q_isTLS := False\<rparr>)"

definition Request_Reset :: "'f Request \<Rightarrow> 'f Request" where
  "Request_Reset req =
     (Request_resetSkipHeader (req\<lparr>q_Header := RequestHeader_Reset (q_Header req)\<rparr>))\<lparr>q_timeout := 0\<rparr>"

definition Request_copyToSkipBody :: "'f Request \<Rightarrow> 'f Request \<Rightarrow> 'f Request" where
  "Request_copyToSkipBody req dst =
     (let dst = Request_Reset dst
      in dst\<lparr>q_Header := RequestHeader_CopyTo (q_Header req) (q_Header dst),
             q_uri := URI_CopyTo (q_uri req) (q_uri dst), q_parsedURI := q_parsedURI req,
             q_postArgs := Args_CopyTo (q_postArgs req) (q_postArgs dst),
             q_parsedPostArgs := q_parsedPostArgs req, q_isTLS := q_isTLS req\<rparr>)"

definition Request_CopyTo :: "'f Request \<Rightarrow> 'f Request \<Rightarrow> 'f Request" where
  "Request_CopyTo req dst =
     (let dst = Request_copyToSkipBody req dst in
      case q_bodyRaw req of
        Some raw \<Rightarrow>
          (let dst = dst\<lparr>q_bodyRaw := Some raw\<rparr>
           in if q_body dst \<noteq> None then dst\<lparr>q_body := Some []\<rparr> else dst)
      | None \<Rightarrow>
          (case q_body req of
             Some b \<Rightarrow> (snd (Request_bodyBuffer dst))\<lparr>q_body := Some b\<rparr>
           | None \<Rightarrow> if q_body dst \<noteq> None then dst\<lparr>q_body := Some []\<rparr> else dst))"

definition swapRequestBody :: "'f Request \<Rightarrow> 'f Request \<Rightarrow> 'f Request \<times> 'f Request" where
  "swapRequestBody a b =
     (a\<lparr>q_body := q_body b, q_bodyRaw := q_bodyRaw b, q_bodyStream := q_bodyStream b\<rparr>,
      b\<lparr>q_body := q_body a, q_bodyRaw := q_bodyRaw a, q_bodyStream := q_bodyStream a\<rparr>)"



section \<open>Requests: reading\<close>

definition defaultMaxInMemoryFileSize :: int where
  "defaultMaxInMemoryFileSize = 16 * 1024 * 1024"

definition readMultipartForm ::
  "('f, 'e) multipart_lib \<Rightarrow> reader \<Rightarrow> bytes \<Rightarrow> int \<Rightarrow> int \<Rightarrow> ('e msg_err + 'f) \<times> reader" where
  "readMultipartForm lib r boundary sz maxInMemoryFileSize =
     (if sz \<le> 0 then (Inl (FormSize sz), r)
      else
        (let data = take (nat sz) (rd_data r) in
         case ml_ReadForm lib data boundary maxInMemoryFileSize of
           (f, used) \<Rightarrow>
             (map_sum FormErr id f, r\<lparr>rd_data := drop (min used (length data)) (rd_data r)\<rparr>)))"

definition Request_MayContinue :: "'f Request \<Rightarrow> bool" where
  "Request_MayContinue req \<longleftrightarrow> RequestHeader_peek (q_Header req) strExpect = str100Continue"

definition Request_ContinueReadBody ::
  "('f, 'e) multipart_lib \<Rightarrow> conn_env \<Rightarrow> nat \<Rightarrow> 'f Request \<Rightarrow> bufreader \<Rightarrow> int \<Rightarrow> bool
     \<Rightarrow> ('f Request \<times> 'e msg_err option \<times> bufreader) panics" where
  "Request_ContinueReadBody lib env capacity req r maxBodySize preParseMultipartForm =
     (let contentLength = RequestHeader_ContentLength (q_Header req) in
      if contentLength > 0 \<and> maxBodySize > 0 \<and> contentLength > maxBodySize
      then Ret (req, Some (MsgBody ErrBodyTooLarge), r)
      else
        (let pre = contentLength > 0 \<and> preParseMultipartForm;
             req = (if pre
                    then req\<lparr>q_multipartFormBoundary := nilable (RequestHeader_MultipartFormBoundary (q_Header req))\<rparr>
                    else req)
         in if pre \<and> length (q_multipartFormBoundary req) > 0
               \<and> length (RequestHeader_peek (q_Header req) strContentEncoding) = 0 then
              (case readMultipartForm lib (br_reader r) (q_multipartFormBoundary req) contentLength
                      defaultMaxInMemoryFileSize of
                 (Inl err, r') \<Rightarrow> Ret (Request_Reset (req\<lparr>q_multipartForm := None\<rparr>), Some err, br_after env r r')
               | (Inr f, r') \<Rightarrow> Ret (req\<lparr>q_multipartForm := Some f\<rparr>, None, br_after env r r'))
            else if contentLength = -2 then
              Ret (if \<not> RequestHeader_ignoreBody (q_Header req)
                   then req\<lparr>q_Header := RequestHeader_SetContentLength (q_Header req) 0\<rparr> else req, None, r)
            else
              (let req = snd (Request_bodyBuffer req) in
               case readBody (ce_avail env) (br_reader r) contentLength maxBodySize capacity of
                 Panic \<Rightarrow> Panic
               | Ret (b, _, Some err, r') \<Rightarrow>
                   Ret (Request_Reset (req\<lparr>q_body := Some b\<rparr>), Some (MsgBody err), br_after env r r')
               | Ret (b, _, None, r') \<Rightarrow>
                   Ret (req\<lparr>q_body := Some b,
                            q_Header := RequestHeader_SetContentLength (q_Header req) (int (length b))\<rparr>,
                        None, br_after env r r'))))"

definition Request_readLimitBody ::
  "('f, 'e) multipart_lib \<Rightarrow> conn_env \<Rightarrow> nat \<Rightarrow> 'f Request \<Rightarrow> bufreader \<Rightarrow> int \<Rightarrow> bool \<Rightarrow> bool
     \<Rightarrow> ('f Request \<times> 'e msg_err option \<times> bufreader) panics" where
  "Request_readLimitBody lib env capacity req r maxBodySize getOnly preParseMultipartForm =
     (if getOnly \<and> \<not> RequestHeader_IsGet (q_Header req) then Ret (req, Some ErrGetOnly, r)
      else if Request_MayContinue req then Ret (req, None, r)
      else Request_ContinueReadBody lib env capacity req r maxBodySize preParseMultipartForm)"

definition Request_ReadLimitBody ::
  "('f, 'e) multipart_lib \<Rightarrow> conn_env \<Rightarrow> nat \<Rightarrow> 'f Request \<Rightarrow> bufreader \<Rightarrow> int
     \<Rightarrow> ('f Request \<times> 'e msg_err option \<times> bufreader) panics" where
  "Request_ReadLimitBody lib env capacity req r maxBodySize =
     (let req = Request_resetSkipHeader req in
      case RequestHeader_Read (q_Header req) r of
        Panic \<Rightarrow> Panic
      | Ret (h, Some err, r) \<Rightarrow> Ret (req\<lparr>q_Header := h\<rparr>, Some (MsgHeader err), r)
      | Ret (h, None, r) \<Rightarrow>
          Request_readLimitBody lib env capacity (req\<lparr>q_Header := h\<rparr>) r maxBodySize False True)"

definition Request_Read ::
  "('f, 'e) multipart_lib \<Rightarrow> conn_env \<Rightarrow> nat \<Rightarrow> 'f Request \<Rightarrow> bufreader
     \<Rightarrow> ('f Request \<times> 'e msg_err option \<times> bufreader) panics" where
  "Request_Read lib env capacity req r = Request_ReadLimitBody lib env capacity req r 0"


section \<open>Requests: writing\<close>

text \<open>Standard base64, as \<^verbatim>\<open>base64.StdEncoding.Encode\<close> writes it.\<close>

definition base64_char :: "nat \<Rightarrow> byte" where
  "base64_char i = bytes_of ''ABCDEFGHIJKLMNOPQRSTUVWXYZabcdefghijklmnopqrstuvwxyz0123456789+/'' ! i"

fun base64_encode :: "bytes \<Rightarrow> bytes" where
  "base64_encode [] = []"
| "base64_encode [a] =
     (let v = unat a * 16 in [base64_char (v div 64), base64_char (v mod 64), ch CHR ''='', ch CHR ''=''])"
| "base64_encode [a, b] =
     (let v = (unat a * 256 + unat b) * 4
      in [base64_char (v div 4096), base64_char (v div 64 mod 64), base64_char (v mod 64), ch CHR ''=''])"
| "base64_encode (a # b # c # rest) =
     (let v = unat a * 65536 + unat b * 256 + unat c
      in [base64_char (v div 262144), base64_char (v div 4096 mod 64), base64_char (v div 64 mod 64),
          base64_char (v mod 64)] @ base64_encode rest)"

text \<open>
  The first part of \<open>Write\<close> fills in host, request URI and credentials from the URI, unless the
  header has a host and the URI was never parsed. The scratch value that the credentials are
  built in is not used afterwards.
\<close>

definition Request_Write_uri :: "'f Request \<Rightarrow> 'f Request option" where
  "Request_Write_uri req =
     (if length (rq_host (q_Header req)) = 0 \<or> q_parsedURI req then
        (case Request_URI req of
           (uri, req) \<Rightarrow>
             (let host = u_host uri in
              if length host = 0 then None
              else
                (let req = req\<lparr>q_Header := RequestHeader_SetHost (q_Header req) host\<rparr>;
                     (requestURI, uri) = URI_RequestURI uri;
                     req = req\<lparr>q_uri := uri, q_Header := RequestHeader_SetRequestURI (q_Header req) requestURI\<rparr>
                 in Some (if length (u_username uri) > 0
                          then req\<lparr>q_Header := RequestHeader_SetBytesKV (q_Header req) strAuthorization
                                 (strBasicSpace @ base64_encode (u_username uri @ strColon @ u_password uri))\<rparr>
                          else req))))
      else Some req)"

definition Request_writeBodyStream :: "'f Request \<Rightarrow> bytes \<times> 'e msg_err option \<times> 'f Request" where
  "Request_writeBodyStream req =
     (let s = the (q_bodyStream req);
          contentLength = RequestHeader_ContentLength (q_Header req);
          (contentLength, req) =
            (if contentLength < 0 \<and> limitedReaderSize s \<ge> 0
             then (limitedReaderSize s,
                   req\<lparr>q_Header := RequestHeader_SetContentLength (q_Header req) (limitedReaderSize s)\<rparr>)
             else (contentLength, req));
          req = (if contentLength \<ge> 0 then req
                 else req\<lparr>q_Header := RequestHeader_SetContentLength (q_Header req) (-1)\<rparr>);
          (hdr, h) = RequestHeader_Header (q_Header req);
          (out, err) =
            (if contentLength \<ge> 0
             then (case writeBodyFixedSize (bs_reader s) contentLength of (out, err) \<Rightarrow> (out, map_option MsgCopy err))
             else (case writeBodyChunked (bs_avail s) (bs_reader s) of (out, err) \<Rightarrow> (out, map_option MsgIO err)));
          (err1, req) = Request_closeBodyStream (req\<lparr>q_Header := h\<rparr>)
      in (hdr @ out, if err = None then map_option MsgIO err1 else err, req))"

text \<open>
  The rest of \<open>Write\<close> for a body that is not a stream. As in the source, the last error can only
  be reached with an empty body, so it is never returned.
\<close>

definition Request_Write_body ::
  "(io_err \<Rightarrow> bytes) \<Rightarrow> ('f, 'e) multipart_lib \<Rightarrow> 'f Request \<Rightarrow> (bytes \<times> 'e msg_err option \<times> 'f Request) panics" where
  "Request_Write_body Error lib req =
     (let (body, req) = Request_bodyBytes Error req;
          send = (\<lambda>body req.
            (let (body, req) =
                   (if length body = 0
                    then (case Args_QueryString (q_postArgs req) of (s, a) \<Rightarrow> (s, req\<lparr>q_postArgs := a\<rparr>))
                    else (body, req));
                 hasBody = (length body \<noteq> 0 \<or> \<not> RequestHeader_ignoreBody (q_Header req));
                 req = (if hasBody
                        then req\<lparr>q_Header := RequestHeader_SetContentLength (q_Header req) (int (length body))\<rparr>
                        else req);
                 (hdr, h) = RequestHeader_Header (q_Header req);
                 req = req\<lparr>q_Header := h\<rparr>
             in if hasBody then Ret (hdr @ body, None, req)
                else if length body > 0 then Ret (hdr, Some NonPostBody, req)
                else Ret (hdr, None, req)))
      in if Request_onlyMultipartForm req then
           (case marshalMultipartForm lib (the (q_multipartForm req)) (q_multipartFormBoundary req) of
              Panic \<Rightarrow> Panic
            | Ret (Inl err) \<Rightarrow> Ret ([], Some (FormErr err), req)
            | Ret (Inr body) \<Rightarrow>
                send body (req\<lparr>q_Header :=
                  RequestHeader_SetMultipartFormBoundary (q_Header req) (q_multipartFormBoundary req)\<rparr>))
         else send (nilable body) req)"

definition Request_Write ::
  "(io_err \<Rightarrow> bytes) \<Rightarrow> ('f, 'e) multipart_lib \<Rightarrow> 'f Request \<Rightarrow> (bytes \<times> 'e msg_err option \<times> 'f Request) panics" where
  "Request_Write Error lib req =
     (case Request_Write_uri req of
        None \<Rightarrow> Ret ([], Some errRequestHostRequired, snd (Request_URI req))
      | Some req \<Rightarrow>
          if q_bodyStream req \<noteq> None then Ret (Request_writeBodyStream req)
          else Request_Write_body Error lib req)"


section \<open>Responses: the struct and its body\<close>

record Response =
  p_Header :: ResponseHeader
  p_ImmediateHeaderFlush :: bool
  p_bodyStream :: "body_stream option"
  p_body :: "bytes option"
  p_bodyRaw :: "bytes option"
  p_SkipBody :: bool
  p_keepBodyBuffer :: bool
  p_secureErrorLogMessage :: bool
  p_raddr :: "net_addr option"
  p_laddr :: "net_addr option"

definition Response_StatusCode :: "Response \<Rightarrow> int" where
  "Response_StatusCode resp = ResponseHeader_StatusCode (p_Header resp)"

definition Response_SetStatusCode :: "Response \<Rightarrow> int \<Rightarrow> Response" where
  "Response_SetStatusCode resp statusCode = resp\<lparr>p_Header := ResponseHeader_SetStatusCode (p_Header resp) statusCode\<rparr>"

definition Response_ConnectionClose :: "Response \<Rightarrow> bool" where
  "Response_ConnectionClose resp = ResponseHeader_ConnectionClose (p_Header resp)"

definition Response_SetConnectionClose :: "Response \<Rightarrow> Response" where
  "Response_SetConnectionClose resp = resp\<lparr>p_Header := ResponseHeader_SetConnectionClose (p_Header resp)\<rparr>"

definition Response_parseNetConn :: "Response \<Rightarrow> net_addr \<Rightarrow> net_addr \<Rightarrow> Response" where
  "Response_parseNetConn resp raddr laddr = resp\<lparr>p_raddr := Some raddr, p_laddr := Some laddr\<rparr>"

definition Response_closeBodyStream :: "Response \<Rightarrow> io_err option \<times> Response" where
  "Response_closeBodyStream resp =
     (case p_bodyStream resp of
        None \<Rightarrow> (None, resp)
      | Some s \<Rightarrow> (case bs_Closer s of Some err \<Rightarrow> err | None \<Rightarrow> None, resp\<lparr>p_bodyStream := None\<rparr>))"

definition Response_bodyBuffer :: "Response \<Rightarrow> bytes \<times> Response" where
  "Response_bodyBuffer resp =
     (let b = (case p_body resp of None \<Rightarrow> [] | Some b \<Rightarrow> b)
      in (b, resp\<lparr>p_body := Some b, p_bodyRaw := None\<rparr>))"

definition Response_bodyBytes :: "Response \<Rightarrow> bytes option" where
  "Response_bodyBytes resp = (case p_bodyRaw resp of Some b \<Rightarrow> Some b | None \<Rightarrow> p_body resp)"

text \<open>Unlike the request's, the response's stream is read before the raw body is looked at.\<close>

definition Response_Body :: "(io_err \<Rightarrow> bytes) \<Rightarrow> Response \<Rightarrow> bytes option \<times> Response" where
  "Response_Body Error resp =
     (let resp = (case p_bodyStream resp of
            None \<Rightarrow> resp
          | Some s \<Rightarrow>
              (let resp = snd (Response_bodyBuffer resp);
                   resp = snd (Response_closeBodyStream resp)
               in resp\<lparr>p_body := Some (read_stream Error s)\<rparr>))
      in (Response_bodyBytes resp, resp))"

definition Response_AppendBody :: "Response \<Rightarrow> bytes \<Rightarrow> Response" where
  "Response_AppendBody resp p =
     (let resp = snd (Response_closeBodyStream resp);
          (b, resp) = Response_bodyBuffer resp
      in resp\<lparr>p_body := Some (b @ p)\<rparr>)"

definition Response_SetBody :: "Response \<Rightarrow> bytes \<Rightarrow> Response" where
  "Response_SetBody resp body =
     (let resp = snd (Response_closeBodyStream resp);
          (b, resp) = Response_bodyBuffer resp
      in resp\<lparr>p_body := Some body\<rparr>)"

definition Response_ResetBody :: "Response \<Rightarrow> Response" where
  "Response_ResetBody resp =
     (let resp = resp\<lparr>p_bodyRaw := None\<rparr>;
          resp = snd (Response_closeBodyStream resp)
      in case p_body resp of
           None \<Rightarrow> resp
         | Some b \<Rightarrow> if p_keepBodyBuffer resp then resp\<lparr>p_body := Some []\<rparr> else resp\<lparr>p_body := None\<rparr>)"

definition Response_SetBodyRaw :: "Response \<Rightarrow> bytes option \<Rightarrow> Response" where
  "Response_SetBodyRaw resp body = (Response_ResetBody resp)\<lparr>p_bodyRaw := body\<rparr>"

definition Response_SetBodyStream :: "Response \<Rightarrow> body_stream option \<Rightarrow> int \<Rightarrow> Response" where
  "Response_SetBodyStream resp bodyStream bodySize =
     (let resp = (Response_ResetBody resp)\<lparr>p_bodyStream := bodyStream\<rparr>
      in resp\<lparr>p_Header := ResponseHeader_SetContentLength (p_Header resp) bodySize\<rparr>)"

definition Response_IsBodyStream :: "Response \<Rightarrow> bool" where
  "Response_IsBodyStream resp \<longleftrightarrow> p_bodyStream resp \<noteq> None"

definition Response_ReleaseBody :: "Response \<Rightarrow> nat \<Rightarrow> int \<Rightarrow> Response panics" where
  "Response_ReleaseBody resp capacity sz =
     (let resp = resp\<lparr>p_bodyRaw := None\<rparr> in
      if p_body resp = None then Panic
      else if int capacity > sz then Ret ((snd (Response_closeBodyStream resp))\<lparr>p_body := None\<rparr>)
      else Ret resp)"

definition Response_SwapBody :: "(io_err \<Rightarrow> bytes) \<Rightarrow> Response \<Rightarrow> bytes \<Rightarrow> bytes \<times> Response" where
  "Response_SwapBody Error resp body =
     (let (bb, resp) = Response_bodyBuffer resp;
          (bb, resp) = (case p_bodyStream resp of
             None \<Rightarrow> (bb, resp)
           | Some s \<Rightarrow> (read_stream Error s, snd (Response_closeBodyStream resp)))
      in (bb, resp\<lparr>p_bodyRaw := None, p_body := Some body\<rparr>))"

definition Response_BodyWriteTo :: "Response \<Rightarrow> bytes \<times> io_err option \<times> Response" where
  "Response_BodyWriteTo resp =
     (case p_bodyStream resp of
        Some s \<Rightarrow>
          (case copyZeroAlloc (bs_reader s) of (b, err) \<Rightarrow> (b, err, snd (Response_closeBodyStream resp)))
      | None \<Rightarrow> (nilable (Response_bodyBytes resp), None, resp))"

definition Response_resetSkipHeader :: "Response \<Rightarrow> Response" where
  "Response_resetSkipHeader resp = Response_ResetBody resp"

definition Response_Reset :: "Response \<Rightarrow> Response" where
  "Response_Reset resp =
     (Response_resetSkipHeader (resp\<lparr>p_Header := ResponseHeader_Reset (p_Header resp)\<rparr>))
       \<lparr>p_SkipBody := False, p_raddr := None, p_laddr := None, p_ImmediateHeaderFlush := False\<rparr>"

definition Response_copyToSkipBody :: "Response \<Rightarrow> Response \<Rightarrow> Response" where
  "Response_copyToSkipBody resp dst =
     (let dst = Response_Reset dst
      in dst\<lparr>p_Header := ResponseHeader_CopyTo (p_Header resp) (p_Header dst), p_SkipBody := p_SkipBody resp,
             p_raddr := p_raddr resp, p_laddr := p_laddr resp\<rparr>)"

definition Response_CopyTo :: "Response \<Rightarrow> Response \<Rightarrow> Response" where
  "Response_CopyTo resp dst =
     (let dst = Response_copyToSkipBody resp dst in
      case p_bodyRaw resp of
        Some raw \<Rightarrow>
          (let dst = dst\<lparr>p_bodyRaw := Some raw\<rparr>
           in if p_body dst \<noteq> None then dst\<lparr>p_body := Some []\<rparr> else dst)
      | None \<Rightarrow>
          (case p_body resp of
             Some b \<Rightarrow> (snd (Response_bodyBuffer dst))\<lparr>p_body := Some b\<rparr>
           | None \<Rightarrow> if p_body dst \<noteq> None then dst\<lparr>p_body := Some []\<rparr> else dst))"

definition swapResponseBody :: "Response \<Rightarrow> Response \<Rightarrow> Response \<times> Response" where
  "swapResponseBody a b =
     (a\<lparr>p_body := p_body b, p_bodyRaw := p_bodyRaw b, p_bodyStream := p_bodyStream b\<rparr>,
      b\<lparr>p_body := p_body a, p_bodyRaw := p_bodyRaw a, p_bodyStream := p_bodyStream a\<rparr>)"


section \<open>Responses: reading, compressing, writing\<close>

definition Response_mustSkipBody :: "Response \<Rightarrow> bool" where
  "Response_mustSkipBody resp \<longleftrightarrow> p_SkipBody resp \<or> ResponseHeader_mustSkipContentLength (p_Header resp)"

text \<open>The two reads of the header: a 100 Continue response is skipped once.\<close>

definition Response_readHeader ::
  "ResponseHeader \<Rightarrow> bufreader \<Rightarrow> (ResponseHeader \<times> read_err option \<times> bufreader) panics" where
  "Response_readHeader h r =
     (case ResponseHeader_Read h r of
        Panic \<Rightarrow> Panic
      | Ret (h, Some err, r) \<Rightarrow> Ret (h, Some err, r)
      | Ret (h, None, r) \<Rightarrow>
          if ResponseHeader_StatusCode h = StatusContinue then ResponseHeader_Read h r else Ret (h, None, r))"

definition Response_ReadLimitBody ::
  "conn_env \<Rightarrow> nat \<Rightarrow> Response \<Rightarrow> bufreader \<Rightarrow> int \<Rightarrow> (Response \<times> 'e msg_err option \<times> bufreader) panics" where
  "Response_ReadLimitBody env capacity resp r maxBodySize =
     (let resp = Response_resetSkipHeader resp in
      case Response_readHeader (p_Header resp) r of
        Panic \<Rightarrow> Panic
      | Ret (h, Some err, r) \<Rightarrow> Ret (resp\<lparr>p_Header := h\<rparr>, Some (MsgHeader err), r)
      | Ret (h, None, r) \<Rightarrow>
          (let resp = resp\<lparr>p_Header := h\<rparr> in
           if Response_mustSkipBody resp then Ret (resp, None, r)
           else
             (let resp = snd (Response_bodyBuffer resp) in
              case readBody (ce_avail env) (br_reader r) (ResponseHeader_ContentLength (p_Header resp))
                     maxBodySize capacity of
                Panic \<Rightarrow> Panic
              | Ret (b, _, Some err, r') \<Rightarrow> Ret (resp\<lparr>p_body := Some b\<rparr>, Some (MsgBody err), br_after env r r')
              | Ret (b, _, None, r') \<Rightarrow>
                  Ret (resp\<lparr>p_body := Some b,
                            p_Header := ResponseHeader_SetContentLength (p_Header resp) (int (length b))\<rparr>,
                       None, br_after env r r'))))"

definition Response_Read ::
  "conn_env \<Rightarrow> nat \<Rightarrow> Response \<Rightarrow> bufreader \<Rightarrow> (Response \<times> 'e msg_err option \<times> bufreader) panics" where
  "Response_Read env capacity resp r = Response_ReadLimitBody env capacity resp r 0"

definition minCompressLen :: nat where
  "minCompressLen = 200"

text \<open>
  \<open>gzipBody\<close>, \<open>deflateBody\<close> and \<open>brotliBody\<close> differ in the compressor and the name they set. The
  compressor of bytes and the one that wraps a stream are arguments; they return no errors.
\<close>

definition Response_compressBody ::
  "(bytes \<Rightarrow> bytes) \<Rightarrow> (body_stream \<Rightarrow> body_stream) \<Rightarrow> bytes \<Rightarrow> Response \<Rightarrow> Response" where
  "Response_compressBody compress compressStream encoding resp =
     (if length (ResponseHeader_peek (p_Header resp) strContentEncoding) > 0 then resp
      else if \<not> ResponseHeader_isCompressibleContentType (p_Header resp) then resp
      else
        (case p_bodyStream resp of
           Some s \<Rightarrow>
             (let resp = resp\<lparr>p_Header := ResponseHeader_SetContentLength (p_Header resp) (-1),
                              p_bodyStream := Some (compressStream s)\<rparr>
              in resp\<lparr>p_Header := ResponseHeader_SetCanonical (p_Header resp) strContentEncoding encoding\<rparr>)
         | None \<Rightarrow>
             (let bodyBytes = nilable (Response_bodyBytes resp) in
              if length bodyBytes < minCompressLen then resp
              else
                (let resp = resp\<lparr>p_body := Some (compress bodyBytes), p_bodyRaw := None\<rparr>
                 in resp\<lparr>p_Header := ResponseHeader_SetCanonical (p_Header resp) strContentEncoding encoding\<rparr>))))"

definition Response_gzipBody ::
  "(int \<Rightarrow> bytes \<Rightarrow> bytes) \<Rightarrow> (int \<Rightarrow> body_stream \<Rightarrow> body_stream) \<Rightarrow> Response \<Rightarrow> int \<Rightarrow> Response" where
  "Response_gzipBody gz gzStream resp level = Response_compressBody (gz level) (gzStream level) strGzip resp"

definition Response_deflateBody ::
  "(int \<Rightarrow> bytes \<Rightarrow> bytes) \<Rightarrow> (int \<Rightarrow> body_stream \<Rightarrow> body_stream) \<Rightarrow> Response \<Rightarrow> int \<Rightarrow> Response" where
  "Response_deflateBody df dfStream resp level = Response_compressBody (df level) (dfStream level) strDeflate resp"

definition Response_brotliBody ::
  "(int \<Rightarrow> bytes \<Rightarrow> bytes) \<Rightarrow> (int \<Rightarrow> body_stream \<Rightarrow> body_stream) \<Rightarrow> Response \<Rightarrow> int \<Rightarrow> Response" where
  "Response_brotliBody br brStream resp level = Response_compressBody (br level) (brStream level) strBr resp"

definition Response_writeBodyStream :: "bytes \<Rightarrow> Response \<Rightarrow> bool \<Rightarrow> bytes \<times> 'e msg_err option \<times> Response" where
  "Response_writeBodyStream serverDate resp sendBody =
     (let s = the (p_bodyStream resp);
          contentLength = ResponseHeader_ContentLength (p_Header resp);
          (contentLength, resp) =
            (if contentLength < 0 \<and> limitedReaderSize s \<ge> 0
             then (limitedReaderSize s,
                   resp\<lparr>p_Header := ResponseHeader_SetContentLength (p_Header resp) (limitedReaderSize s)\<rparr>)
             else (contentLength, resp));
          resp = (if contentLength \<ge> 0 then resp
                  else resp\<lparr>p_Header := ResponseHeader_SetContentLength (p_Header resp) (-1)\<rparr>);
          (hdr, h) = ResponseHeader_Header serverDate (p_Header resp);
          (out, err) =
            (if \<not> sendBody then ([], None)
             else if contentLength \<ge> 0
             then (case writeBodyFixedSize (bs_reader s) contentLength of (out, err) \<Rightarrow> (out, map_option MsgCopy err))
             else (case writeBodyChunked (bs_avail s) (bs_reader s) of (out, err) \<Rightarrow> (out, map_option MsgIO err)));
          (err1, resp) = Response_closeBodyStream (resp\<lparr>p_Header := h\<rparr>)
      in (hdr @ out, if err = None then map_option MsgIO err1 else err, resp))"

definition Response_Write :: "bytes \<Rightarrow> Response \<Rightarrow> bytes \<times> 'e msg_err option \<times> Response" where
  "Response_Write serverDate resp =
     (let sendBody = \<not> Response_mustSkipBody resp in
      if p_bodyStream resp \<noteq> None then Response_writeBodyStream serverDate resp sendBody
      else
        (let body = nilable (Response_bodyBytes resp);
             bodyLen = length body;
             resp = (if sendBody \<or> bodyLen > 0
                     then resp\<lparr>p_Header := ResponseHeader_SetContentLength (p_Header resp) (int bodyLen)\<rparr>
                     else resp);
             (hdr, h) = ResponseHeader_Header serverDate (p_Header resp);
             resp = resp\<lparr>p_Header := h\<rparr>
         in (if sendBody then hdr @ body else hdr, None, resp)))"

definition Response_WriteGzipLevel ::
  "(int \<Rightarrow> bytes \<Rightarrow> bytes) \<Rightarrow> (int \<Rightarrow> body_stream \<Rightarrow> body_stream) \<Rightarrow> bytes \<Rightarrow> Response \<Rightarrow> int
     \<Rightarrow> bytes \<times> 'e msg_err option \<times> Response" where
  "Response_WriteGzipLevel gz gzStream serverDate resp level =
     Response_Write serverDate (Response_gzipBody gz gzStream resp level)"

definition Response_WriteDeflateLevel ::
  "(int \<Rightarrow> bytes \<Rightarrow> bytes) \<Rightarrow> (int \<Rightarrow> body_stream \<Rightarrow> body_stream) \<Rightarrow> bytes \<Rightarrow> Response \<Rightarrow> int
     \<Rightarrow> bytes \<times> 'e msg_err option \<times> Response" where
  "Response_WriteDeflateLevel df dfStream serverDate resp level =
     Response_Write serverDate (Response_deflateBody df dfStream resp level)"


section \<open>Body operations\<close>

text \<open>
  What the body operations promise while the body is in the buffer: it is replaced, appended to,
  swapped and reset. The client's view is the run of writes through a \<open>BodyWriter\<close>.
\<close>

locale body_store =
  fixes body :: "'m \<Rightarrow> bytes"
    and buffered :: "'m \<Rightarrow> bool"
    and setb :: "'m \<Rightarrow> bytes \<Rightarrow> 'm"
    and appendb :: "'m \<Rightarrow> bytes \<Rightarrow> 'm"
    and resetb :: "'m \<Rightarrow> 'm"
    and swapb :: "'m \<Rightarrow> bytes \<Rightarrow> bytes \<times> 'm"
  assumes body_set: "body (setb m b) = b" and buffered_set: "buffered (setb m b)"
    and body_append: "buffered m \<Longrightarrow> body (appendb m p) = body m @ p" and buffered_append: "buffered (appendb m p)"
    and body_reset: "body (resetb m) = []" and buffered_reset: "buffered (resetb m)"
    and swap_old: "buffered m \<Longrightarrow> fst (swapb m b) = body m"
    and swap_new: "body (snd (swapb m b)) = b" and buffered_swap: "buffered (snd (swapb m b))"
begin

lemma appends: "buffered m \<Longrightarrow> body (foldl appendb m ps) = body m @ concat ps \<and> buffered (foldl appendb m ps)"
  by (induction ps arbitrary: m) (simp_all add: body_append buffered_append)

lemma set_appends: "body (foldl appendb (setb m b) ps) = b @ concat ps"
  using appends [OF buffered_set] by (simp add: body_set)

lemma reset_appends: "body (foldl appendb (resetb m) ps) = concat ps"
  using appends [OF buffered_reset] by (simp add: body_reset)

lemma swap_appends:
  "fst (swapb (foldl appendb (snd (swapb m b)) ps) c) = b @ concat ps"
  using appends [OF buffered_swap] by (simp add: swap_old swap_new)

end

definition request_body :: "(io_err \<Rightarrow> bytes) \<Rightarrow> 'f Request \<Rightarrow> bytes" where
  "request_body Error req = nilable (fst (Request_bodyBytes Error req))"

definition response_body :: "(io_err \<Rightarrow> bytes) \<Rightarrow> Response \<Rightarrow> bytes" where
  "response_body Error resp = nilable (fst (Response_Body Error resp))"

lemmas request_body_defs = request_body_def Request_bodyBytes_def Request_SetBody_def Request_AppendBody_def
  Request_ResetBody_def Request_SwapBody_def Request_bodyBuffer_def Request_closeBodyStream_def
  Request_RemoveMultipartFormFiles_def Request_SetBodyRaw_def Request_SetBodyStream_def nilable_def Let_def

lemmas response_body_defs = response_body_def Response_Body_def Response_bodyBytes_def Response_SetBody_def
  Response_AppendBody_def Response_ResetBody_def Response_SwapBody_def Response_bodyBuffer_def
  Response_closeBodyStream_def Response_SetBodyRaw_def Response_SetBodyStream_def nilable_def Let_def

interpretation req: body_store "request_body Error" "\<lambda>req. q_bodyRaw req = None \<and> q_bodyStream req = None"
    Request_SetBody Request_AppendBody Request_ResetBody "Request_SwapBody Error"
  by unfold_locales (simp_all add: request_body_defs split: option.splits)

interpretation resp: body_store "response_body Error" "\<lambda>resp. p_bodyRaw resp = None \<and> p_bodyStream resp = None"
    Response_SetBody Response_AppendBody Response_ResetBody "Response_SwapBody Error"
  by unfold_locales (simp_all add: response_body_defs split: option.splits)

end
