(* ===== verification/ResponseRead.thy ===== *)
theory ResponseRead
  imports HeaderRead
begin

text \<open>
  \<open>ResponseHeader.Read\<close> of \<^verbatim>\<open>header.go\<close> on a connection that delivers its bytes in pieces. Unlike
  the request parser, the response parser starts on an incomplete header and rewrites the names
  it has seen in the buffer of the reader; the next round parses what it left there.
\<close>


section \<open>The scanner on an incomplete block\<close>

definition names_normal :: "bool \<Rightarrow> (bytes \<times> bytes) list \<Rightarrow> bool" where
  "names_normal d kvs \<longleftrightarrow> (\<forall>kv \<in> set kvs. normalizeHeaderKey (fst kv) d = fst kv)"

lemma headerScanner_next_no_break:
  assumes "scanner_idle s" and "10 \<notin> set (hs_b s)"
  shows "headerScanner_next s = (False, s\<lparr>hs_err := Some errNeedMore\<rparr>)"
proof -
  have "IndexByte (hs_b s) 10 = None" using assms(2) by simp
  moreover have *: "hs_b s ! i \<noteq> 10" if "i < length (hs_b s)" for i using assms(2) nth_mem [OF that] by metis
  have "\<not> (2 \<le> length (hs_b s) \<and> hs_b s ! 1 = 10)" "\<not> (1 \<le> length (hs_b s) \<and> hs_b s ! 0 = 10)"
    using * [of 0] * [of 1] by (force, force)
  ultimately show ?thesis using assms(1)
    by (auto simp: headerScanner_next_def scanner_idle_def Let_def simp del: IndexByte_None)
qed

lemma strict_prefix_not_folded:
  assumes "not_folded b" and "strict_prefix q b"
  shows "not_folded q"
  using assms by (cases q; cases b) (auto simp: not_folded_def)

lemma header_loop_incomplete:
  assumes "\<And>kv. kv \<in> set kvs \<Longrightarrow> header_field_ok kv" and "names_normal (hs_disableNormalizing s) kvs" and "scanner_idle s"
    and "strict_prefix (hs_b s) (concat (map header_line kvs) @ [13, 10])"
  shows "\<exists>h' s'. header_loop f s h = (h', s') \<and> hs_err s' = Some errNeedMore
    \<and> hs_pre s' @ hs_b s' @ hs_post s' = hs_pre s @ hs_b s @ hs_post s"
  using assms
proof (induction kvs arbitrary: s h)
  case Nil
  then have "10 \<notin> set (hs_b s)" using strict_prefix_line [of "[13]" "hs_b s"] by simp
  from headerScanner_next_no_break [OF Nil.prems(3) this] show ?case by (simp add: header_loop.simps [of f s h])
next
  case (Cons kv kvs)
  obtain k v where kv: "kv = (k, v)" by fastforce
  have okf: "header_field_ok kv" and norm: "normalizeHeaderKey k (hs_disableNormalizing s) = k"
    using Cons.prems(1,2) kv by (auto simp: names_normal_def)
  then have ok: "header_key_ok k" "header_value_ok v" using kv by (auto simp: header_field_ok_def)
  have "strict_prefix (hs_b s) (header_line kv) \<or>
      (\<exists>q. hs_b s = header_line kv @ q \<and> strict_prefix q (concat (map header_line kvs) @ [13, 10]))"
    using Cons.prems(4) by (simp add: strict_prefix_append)
  then show ?case
  proof
    assume "strict_prefix (hs_b s) (header_line kv)"
    then have "10 \<notin> set (hs_b s)" using header_line_no_break [OF okf] strict_prefix_line by metis
    from headerScanner_next_no_break [OF Cons.prems(3) this] show ?thesis by (simp add: header_loop.simps [of f s h])
  next
    assume "\<exists>q. hs_b s = header_line kv @ q \<and> strict_prefix q (concat (map header_line kvs) @ [13, 10])"
    then obtain q where q: "hs_b s = header_line kv @ q" "strict_prefix q (concat (map header_line kvs) @ [13, 10])" by blast
    have nf: "not_folded q"
      using Cons.prems(1) header_lines_not_folded [of kvs "[]"]
      by (intro strict_prefix_not_folded [OF _ q(2)]) (auto simp: header_field_ok_def)
    obtain s1 where s1: "headerScanner_next s = (True, s1)" "scanner_idle s1" "hs_b s1 = q"
      "hs_pre s1 = hs_pre s @ header_line kv" "hs_post s1 = hs_post s"
      "hs_disableNormalizing s1 = hs_disableNormalizing s"
      using headerScanner_next_line [OF _ ok nf Cons.prems(3)] q(1) kv norm by auto
    obtain h' s' where "header_loop f s1 (f h (hs_key s1) (hs_value s1)) = (h', s')" "hs_err s' = Some errNeedMore"
      "hs_pre s' @ hs_b s' @ hs_post s' = hs_pre s1 @ hs_b s1 @ hs_post s1"
      using Cons.IH [of s1 "f h (hs_key s1) (hs_value s1)"] Cons.prems(1,2) s1 q(2) by (auto simp: names_normal_def)
    then show ?thesis using s1 q(1) by (simp add: header_loop.simps [of f s h])
  qed
qed

lemma header_loop_init_incomplete:
  assumes "\<And>kv. kv \<in> set kvs \<Longrightarrow> header_field_ok kv" and "names_normal d kvs"
    and "strict_prefix q (concat (map header_line kvs) @ [13, 10])"
  shows "\<exists>h' s'. header_loop f (headerScanner_init q d) h = (h', s') \<and> hs_err s' = Some errNeedMore
    \<and> hs_pre s' @ hs_b s' @ hs_post s' = q"
proof -
  let ?s = "(headerScanner_init q d)\<lparr>hs_nextColon := -1, hs_nextNewLine := -1, hs_initialized := True\<rparr>"
  have "header_loop f (headerScanner_init q d) h = header_loop f ?s h"
    by (simp only: header_loop.simps [of f "headerScanner_init q d" h] header_loop.simps [of f ?s h] scanner_init)
  moreover have "scanner_idle ?s" "hs_b ?s = q" "hs_pre ?s = []" "hs_post ?s = []" "hs_disableNormalizing ?s = d"
    by (simp_all add: scanner_idle_def headerScanner_init_def)
  ultimately show ?thesis using header_loop_incomplete [OF assms(1), of kvs ?s f h] assms(2,3) by simp
qed


section \<open>Incomplete response headers\<close>

lemma framed_fields_normal:
  assumes "response_ok d date h"
  shows "names_normal d (framed_fields date h n)"
proof -
  have "normalizeHeaderKey (fst kv) d = fst kv" if "kv \<in> set (other_fields h)" for kv
    using other_fields_plain [OF assms that] by (simp add: response_plain_def)
  then show ?thesis
    by (auto simp: names_normal_def framed_fields_def opt_field_def date_fields_def framing_field_def set_cookie_fields_def
        close_field_def split: if_splits)
qed

lemma statusLine_break:
  obtains l where "statusLine (printed_status h) = l @ [10]" and "10 \<notin> set l"
proof -
  let ?c = "printed_status h"
  show thesis
    using statusLine_print [of ?c] printed_status_pos [of h] digits_no_newline [of "nat ?c"] StatusMessage_no_newline [of ?c]
    by (intro that [of "strHTTP11 @ 32 # AppendUint_loop (nat ?c) [] @ 32 # StatusMessage ?c @ [13]"])
      (auto simp: str_defs)
qed

lemma header_loop_inv:
  assumes "\<And>h k v. P h \<Longrightarrow> P (f h k v)" and "P h" and "header_loop f s h = (h', s')"
  shows "P h'"
  using assms
proof (induction f s h rule: header_loop.induct)
  case (1 f s h)
  obtain ok s1 where s1: "headerScanner_next s = (ok, s1)" by fastforce
  show ?case
  proof (cases ok)
    case True
    then show ?thesis using "1.IH" [OF s1 [symmetric]] "1.prems" s1
      by (simp add: header_loop.simps [of f s h])
  next
    case False
    then show ?thesis using "1.prems" s1 by (simp add: header_loop.simps [of f s h])
  qed
qed

lemma parseHeader_disableNormalizing:
  "rs_disableNormalizing (ResponseHeader_parseHeader h k v) = rs_disableNormalizing h"
  by (simp add: ResponseHeader_parseHeader_def Let_def split: prod.splits option.splits)

lemma ResponseHeader_parse_incomplete:
  assumes "response_ok (rs_disableNormalizing g) date h" and "\<not> ResponseHeader_mustSkipContentLength h" and "-2 \<le> n"
    and "strict_prefix p (ResponseHeader_AppendBytes date (ResponseHeader_SetContentLength h n) [])"
  shows "\<exists>g'. ResponseHeader_parse g p = (g', 0, Some errNeedMore, p)
    \<and> rs_disableNormalizing g' = rs_disableNormalizing g"
proof -
  let ?c = "printed_status h" and ?kvs = "framed_fields date h n" and ?d = "rs_disableNormalizing g"
  let ?blk = "concat (map header_line ?kvs) @ [13, 10]"
  have s: "ResponseHeader_AppendBytes date (ResponseHeader_SetContentLength h n) [] = statusLine ?c @ ?blk"
    unfolding ResponseHeader_AppendBytes_fields framed_fields_print [OF assms(1-3)]
    using SetContentLength_framing(8) [OF assms(1-3)] by (simp add: strCRLF_def)
  have "strict_prefix p (statusLine ?c) \<or> (\<exists>q. p = statusLine ?c @ q \<and> strict_prefix q ?blk)"
    using assms(4) unfolding s by (simp only: strict_prefix_append)
  then show ?thesis
  proof
    assume "strict_prefix p (statusLine ?c)"
    then have "10 \<notin> set p" using statusLine_break [of h] strict_prefix_line by metis
    then have "IndexByte p 10 = None" by simp
    then have "firstLine p = None" by (simp add: firstLine.simps nextLine_def del: IndexByte_None)
    then show ?thesis by (simp add: ResponseHeader_parse_def ResponseHeader_parseFirstLine_def)
  next
    assume "\<exists>q. p = statusLine ?c @ q \<and> strict_prefix q ?blk"
    then obtain q where q: "p = statusLine ?c @ q" "strict_prefix q ?blk" by blast
    let ?g1 = "g\<lparr>rs_noHTTP11 := False, rs_statusCode := ?c\<rparr>"
    have "?c < 2 ^ 63" using assms(1) by (auto simp: response_ok_def printed_status_def StatusOK_def Let_def)
    then have first: "ResponseHeader_parseFirstLine g p = (?g1, length (statusLine ?c), None)"
      using response_parseFirstLine_print [OF printed_status_pos, of h g q] by (simp add: q(1))
    have ok: "header_field_ok kv" if "kv \<in> set ?kvs" for kv by (rule framed_fields_ok [OF assms(1) that])
    obtain h' sc where sc: "header_loop ResponseHeader_parseHeader (headerScanner_init q ?d) (?g1\<lparr>rs_contentLength := -2\<rparr>) = (h', sc)"
      "hs_err sc = Some errNeedMore" "hs_pre sc @ hs_b sc @ hs_post sc = q"
      using header_loop_init_incomplete [OF ok framed_fields_normal [OF assms(1)] q(2),
          of ResponseHeader_parseHeader "?g1\<lparr>rs_contentLength := -2\<rparr>"] by auto
    have "rs_disableNormalizing h' = ?d"
      by (rule header_loop_inv [OF _ _ sc(1), where P = "\<lambda>h. rs_disableNormalizing h = ?d"])
        (simp_all add: parseHeader_disableNormalizing)
    moreover have "ResponseHeader_parseHeaders ?g1 q = (h'\<lparr>rs_connectionClose := True\<rparr>, 0, Some errNeedMore, q)"
      using sc by (simp add: ResponseHeader_parseHeaders_def)
    ultimately show ?thesis using first unfolding ResponseHeader_parse_def q(1) by simp
  qed
qed


section \<open>Reading response headers\<close>

lemma response_tryRead_round:
  assumes "br_wf r" and "0 < n" and "n \<le> length (rd_data r)" and "n \<le> br_size r"
  obtains r1 where "br_same r r1" and "br_wf r1" and "n \<le> br_buffered r1"
    and "ResponseHeader_tryRead g r n =
      (case ResponseHeader_parse (ResponseHeader_resetSkipNormalize g) (take (br_buffered r1) (rd_data r)) of
         (h, headersLen, Some errParse, b') \<Rightarrow>
           Ret (h, Some (headerError ResponseKind None errParse b' (rs_secureErrorLogMessage h)), br_overwrite r1 b')
       | (h, headersLen, None, b') \<Rightarrow>
           (case mustDiscard (br_overwrite r1 b') (int headersLen) of Panic \<Rightarrow> Panic | Ret r \<Rightarrow> Ret (h, None, r)))"
proof -
  obtain b err r1 where p: "br_Peek r n = (b, err, r1)" by (cases "br_Peek r n") auto
  have s: "br_same r r1" "br_wf r1" "n \<le> br_buffered r1" "err = None" "b = take n (rd_data r)"
    using br_Peek_spec [OF assms(1) p] assms(3,4) by auto
  then have "mustPeekBuffered r1 = Ret (take (br_buffered r1) (rd_data r))"
    using mustPeekBuffered_ok [of r1] assms(2) by (simp add: br_same_def)
  moreover have "b \<noteq> []" using s(5) assms(2,3) by auto
  ultimately show thesis using p s by (intro that [of r1]) (simp_all add: ResponseHeader_tryRead_def)
qed

text \<open>What \<open>Read\<close> gives back of a header printed with the framing \<open>n\<close>.\<close>

definition response_read_back :: "bytes \<Rightarrow> ResponseHeader \<Rightarrow> int \<Rightarrow> ResponseHeader \<Rightarrow> bool" where
  "response_read_back date h n g \<longleftrightarrow>
     rs_statusCode g = printed_status h \<and> rs_server g = rs_server h \<and> rs_contentLength g = n
     \<and> rs_contentLengthBytes g = (if 0 \<le> n then AppendUint_loop (nat n) [] else [])
     \<and> rs_contentType g = (if n \<noteq> 0 \<or> rs_contentType h \<noteq> [] then ResponseHeader_ContentType h else [])
     \<and> map kv_pair (live (rs_h g)) = date_fields date h @ other_fields h @
         (if 0 \<le> n then [] else [(strTransferEncoding, if n = -2 then strIdentity else strChunked)])
     \<and> map kv_pair (live (rs_cookies g)) = map kv_pair (live (rs_cookies h))
     \<and> rs_connectionClose g = (rs_connectionClose h \<or> n = -2)"

definition framed_bytes :: "bytes \<Rightarrow> ResponseHeader \<Rightarrow> int \<Rightarrow> bytes" where
  "framed_bytes date h n = ResponseHeader_AppendBytes date (ResponseHeader_SetContentLength h n) []"

lemma response_Read_loop_complete:
  assumes "response_ok (rs_disableNormalizing g) date h" and "\<not> ResponseHeader_mustSkipContentLength h"
    and "-2 \<le> n" and "n < 2 ^ 63" and "br_wf r" and "0 < m"
    and "rd_data r = framed_bytes date h n @ body" and "m \<le> length (framed_bytes date h n)"
    and "length (framed_bytes date h n) \<le> br_size r"
  shows "\<exists>g' r'. ResponseHeader_Read_loop g r m = Ret (g', None, r') \<and> response_read_back date h n g'
    \<and> rd_data r' = body \<and> rd_err r' = rd_err r \<and> br_wf r' \<and> br_size r' = br_size r"
  using assms
proof (induction g r m rule: ResponseHeader_Read_loop.induct)
  case (1 g r m)
  let ?s = "framed_bytes date h n" and ?g0 = "ResponseHeader_resetSkipNormalize g"
  have ok: "response_ok (rs_disableNormalizing ?g0) date h"
    using 1(2) by (simp add: ResponseHeader_resetSkipNormalize_def)
  have len: "m \<le> length (rd_data r)" "m \<le> br_size r" using 1(8-10) by auto
  obtain r1 where r1: "br_same r r1" "br_wf r1" "m \<le> br_buffered r1" "ResponseHeader_tryRead g r m =
      (case ResponseHeader_parse ?g0 (take (br_buffered r1) (rd_data r)) of
         (h, headersLen, Some errParse, b') \<Rightarrow>
           Ret (h, Some (headerError ResponseKind None errParse b' (rs_secureErrorLogMessage h)), br_overwrite r1 b')
       | (h, headersLen, None, b') \<Rightarrow>
           (case mustDiscard (br_overwrite r1 b') (int headersLen) of Panic \<Rightarrow> Panic | Ret r \<Rightarrow> Ret (h, None, r)))"
    by (rule response_tryRead_round [OF 1(6,7) len, where g = g]) (rule that)
  let ?k = "br_buffered r1"
  have data: "rd_data r1 = ?s @ body" using r1(1) 1(8) by (simp add: br_same_def)
  show ?case
  proof (cases "?k < length ?s")
    case True
    then have "strict_prefix (take ?k (rd_data r)) ?s"
      using 1(8) by (auto simp: strict_prefix_def take_is_prefix)
    then obtain g1 where g1: "ResponseHeader_parse ?g0 (take ?k (rd_data r)) = (g1, 0, Some errNeedMore, take ?k (rd_data r))"
      and d: "rs_disableNormalizing g1 = rs_disableNormalizing g"
      using ResponseHeader_parse_incomplete [OF ok 1(3,4)] unfolding framed_bytes_def
      by (auto simp: ResponseHeader_resetSkipNormalize_def)
    have tr: "ResponseHeader_tryRead g r m = Ret (g1, Some NeedMore, r1)"
      using r1(4) g1 data 1(8) overwrite_same [of r1 ?k] by (simp add: headerError_def)
    have "\<exists>g' r'. ResponseHeader_Read_loop g1 r1 (br_Buffered r1 + 1) = Ret (g', None, r') \<and> response_read_back date h n g'
        \<and> rd_data r' = body \<and> rd_err r' = rd_err r1 \<and> br_wf r' \<and> br_size r' = br_size r1"
      by (rule "1.IH" [OF tr refl refl refl])
        (use 1(2-5,10) r1 data True d in \<open>auto simp: br_Buffered_def br_same_def\<close>)
    then show ?thesis using r1(1) tr by (simp add: ResponseHeader_Read_loop.simps [of g r m] br_same_def)
  next
    case False
    let ?b = "take (?k - length ?s) body"
    have b: "take ?k (rd_data r) = ?s @ ?b" using False 1(8) by simp
    obtain g' buf' where g': "ResponseHeader_parse ?g0 (?s @ ?b) = (g', length ?s, None, buf')"
      "drop (length ?s) buf' = ?b" "length buf' = length (?s @ ?b)" "response_read_back date h n g'"
      using response_print_parse [OF 1(2-5), of ?b] unfolding response_read_back_def framed_bytes_def by blast
    have k: "?k = length (?s @ ?b)" using r1(2) False data by (auto simp: br_wf_def min_def)
    have rest: "drop ?k (rd_data r1) = drop (?k - length ?s) body" using False data by simp
    let ?r = "br_overwrite r1 buf'"
    have "br_wf ?r" "length ?s \<le> br_buffered ?r"
      using r1(2) False g'(3) k by (auto simp: br_wf_def br_overwrite_def)
    then have "mustDiscard ?r (int (length ?s)) =
        Ret (?r\<lparr>rd_data := drop (length ?s) (rd_data ?r), br_buffered := br_buffered ?r - length ?s\<rparr>)"
      by (rule mustDiscard_ok)
    moreover have "drop (length ?s) (rd_data ?r) = body"
      using g'(2,3) k rest by (simp add: br_overwrite_def)
    ultimately have "ResponseHeader_tryRead g r m =
        Ret (g', None, ?r\<lparr>rd_data := body, br_buffered := ?k - length ?s\<rparr>)"
      unfolding r1(4) b using g'(1) by (simp add: br_overwrite_def)
    moreover have "?k - length ?s \<le> length body" using r1(2) data by (auto simp: br_wf_def)
    ultimately show ?thesis using g'(4) r1(1,2)
      by (auto simp: ResponseHeader_Read_loop.simps [of g r m] br_same_def br_wf_def br_overwrite_def)
  qed
qed

lemma response_Read_complete:
  assumes "response_ok (rs_disableNormalizing g) date h" and "\<not> ResponseHeader_mustSkipContentLength h"
    and "-2 \<le> n" and "n < 2 ^ 63" and "br_wf r" and "rd_data r = framed_bytes date h n @ body"
    and "length (framed_bytes date h n) \<le> br_size r"
  shows "\<exists>g' r'. ResponseHeader_Read g r = Ret (g', None, r') \<and> response_read_back date h n g'
    \<and> rd_data r' = body \<and> rd_err r' = rd_err r \<and> br_wf r' \<and> br_size r' = br_size r"
proof -
  have "1 \<le> length (framed_bytes date h n)"
    by (simp add: framed_bytes_def ResponseHeader_AppendBytes_fields Suc_le_eq strCRLF_def)
  then show ?thesis unfolding ResponseHeader_Read_def using assms by (intro response_Read_loop_complete) simp_all
qed

end
