(* ===== verification/MessageIO.thy ===== *)
theory MessageIO
  imports Message ResponseRead
begin

text \<open>
  Whole messages on a connection: what \<open>Write\<close> of \<^verbatim>\<open>http.go\<close> puts on it, \<open>Read\<close> takes off it. The
  requests covered are those whose body is in memory; the responses have a body that was set,
  given raw, or given as a stream. Copies, limits and compression are at the end.
\<close>


section \<open>Bodies: lemmas\<close>

lemma plain_field_keys:
  assumes "plain_field d kv"
  shows "fst kv \<noteq> strTransferEncoding"
proof
  assume "fst kv = strTransferEncoding"
  then have "caseInsensitiveCompare (fst kv) strTransferEncoding" by (simp add: caseInsensitiveCompare_refl)
  with assms show False unfolding plain_field_def by blast
qed

lemma request_SetContentLength_ok:
  assumes "request_ok d h" and "0 \<le> n" and "n < 2 ^ 63"
  defines "g \<equiv> RequestHeader_SetContentLength h n"
  shows "request_ok d g" and "rq_contentLength g = n" and "rq_contentLengthBytes g = framing_bytes n"
    and "map kv_pair (live (rq_h g)) = map kv_pair (live (rq_h h))" and "rq_cookies g = rq_cookies h"
    and "rq_method g = rq_method h" and "rq_requestURI g = rq_requestURI h" and "rq_proto g = rq_proto h"
    and "rq_host g = rq_host h" and "rq_userAgent g = rq_userAgent h" and "rq_contentType g = rq_contentType h"
    and "rq_connectionClose g = rq_connectionClose h"
proof -
  have plain: "plain_field d (kv_pair kv)" if "kv \<in> set (live (rq_h h))" for kv
    using assms(1) that by (simp add: request_ok_def list_all_iff)
  have "kv_key kv \<noteq> strTransferEncoding" if "kv \<in> set (live (rq_h h))" for kv
    using plain_field_keys [OF plain [OF that]] by (simp add: kv_pair_def)
  then have "strTransferEncoding \<notin> kv_key ` set (live (rq_h h))" by (metis imageE)
  then have h: "live (rq_h g) = live (rq_h h)"
    using assms(2) by (simp add: g_def RequestHeader_SetContentLength_def Let_def list_del_absent)
  have bytes: "rq_contentLengthBytes g = framing_bytes n"
    using assms(2) by (simp add: g_def RequestHeader_SetContentLength_def Let_def framing_bytes_def AppendUint_def)
  show "request_ok d g"
    using assms(1) framing_parse [OF assms(3,2)] digits_value_ok [of "nat n"] assms(2) bytes h
    by (auto simp: request_ok_def request_line_ok_def g_def RequestHeader_SetContentLength_def Let_def
        RequestHeader_Method_def RequestHeader_RequestURI_def RequestHeader_Protocol_def framing_bytes_def)
  show "rq_contentLengthBytes g = framing_bytes n" by (rule bytes)
  show "map kv_pair (live (rq_h g)) = map kv_pair (live (rq_h h))" by (simp add: h)
qed (simp_all add: g_def RequestHeader_SetContentLength_def Let_def)

text \<open>Reading a body whose length is known.\<close>

lemma readBody_fixed:
  assumes "rd_data r = data @ rest" and "length data \<le> 2 ^ 31" and "maxBodySize \<le> 0 \<or> int (length data) \<le> maxBodySize"
  shows "\<exists>c'. readBody avail r (int (length data)) maxBodySize c = Ret (data, c', None, r\<lparr>rd_data := rest\<rparr>)"
  using appendBodyFixedSize_spec [of "[]" "length data" avail r c] assms by (auto simp: readBody_def)

text \<open>The requests whose printed form is a header and a body of known length.\<close>

definition message_body :: "'f Request \<Rightarrow> bytes" where
  "message_body req =
     (let b = (case q_bodyRaw req of Some b \<Rightarrow> b | None \<Rightarrow> nilable (q_body req))
      in if b = [] then Args_AppendBytes (q_postArgs req) [] else b)"

definition message_header :: "'f Request \<Rightarrow> RequestHeader" where
  "message_header req =
     (if message_body req \<noteq> [] \<or> \<not> RequestHeader_ignoreBody (q_Header req)
      then RequestHeader_SetContentLength (q_Header req) (int (length (message_body req))) else q_Header req)"

definition message_ok :: "bool \<Rightarrow> 'f Request \<Rightarrow> bool" where
  "message_ok d req \<longleftrightarrow>
     request_ok d (q_Header req) \<and> rq_host (q_Header req) \<noteq> [] \<and> \<not> q_parsedURI req
     \<and> q_bodyStream req = None \<and> q_multipartForm req = None
     \<and> length (message_body req) \<le> 2 ^ 31
     \<and> (message_body req = [] \<and> RequestHeader_ignoreBody (q_Header req) \<longrightarrow> rq_contentLengthBytes (q_Header req) = [])
     \<and> \<not> prefix strMultipartFormData (rq_contentType (q_Header req))
     \<and> \<not> Request_MayContinue req"

lemma Request_Write_message_bytes:
  assumes "rq_host (q_Header req) \<noteq> []" and "\<not> q_parsedURI req" and "q_bodyStream req = None" and "q_multipartForm req = None"
  shows "\<exists>req'. Request_Write Error lib req =
    Ret (RequestHeader_AppendBytes (message_header req) [] @ message_body req, None, req')"
proof -
  have "Request_Write_uri req = Some req" using assms by (simp add: Request_Write_uri_def)
  moreover have "Request_bodyBytes Error req =
      (case q_bodyRaw req of Some b \<Rightarrow> Some b | None \<Rightarrow> q_body req, req)"
    using assms by (simp add: Request_bodyBytes_def split: option.splits)
  moreover have "\<not> Request_onlyMultipartForm req"
    using assms by (simp add: Request_onlyMultipartForm_def)
  ultimately show ?thesis using assms(3)
    by (auto simp: Request_Write_def Request_Write_body_def message_header_def message_body_def
        RequestHeader_Header_def Args_QueryString_def Let_def nilable_def split: option.splits)
qed

lemma Request_Write_message:
  assumes "message_ok d req"
  shows "\<exists>req'. Request_Write Error lib req =
    Ret (RequestHeader_AppendBytes (message_header req) [] @ message_body req, None, req')"
  using assms by (intro Request_Write_message_bytes) (simp_all add: message_ok_def)

lemma br_after_wf:
  "br_wf (br_after env r r')" "rd_data (br_after env r r') = rd_data r'" "rd_err (br_after env r r') = rd_err r'"
  "br_size (br_after env r r') = br_size r"
  by (simp_all add: br_after_def br_wf_def Let_def min_le_iff_disj)

lemma peek_plain_name:
  "RequestHeader_peek h strExpect = nilable (peekArg (rq_h h) strExpect)"
  by (simp add: RequestHeader_peek_def str_defs)

lemma list_peek_pairs: "list_peek xs k = map_of (map kv_pair xs) k"
  by (induction xs) (auto simp: kv_pair_def)

lemma MayContinue_read_back:
  assumes "map kv_pair (live l) = map kv_pair (live m) @ cookie_fields h"
  shows "nilable (peekArg l strExpect) = nilable (peekArg m strExpect)"
proof -
  have "map_of (cookie_fields h) strExpect = None" by (simp add: cookie_fields_def str_defs)
  then show ?thesis by (simp add: peekArg_list list_peek_pairs assms map_add_def split: option.splits)
qed

lemma read_back_no_form:
  assumes "request_read_back h g" and "\<not> prefix strMultipartFormData (rq_contentType h)"
  shows "RequestHeader_MultipartFormBoundary g = None"
proof -
  have "\<not> prefix strMultipartFormData strDefaultContentType" by code_simp
  then have "\<not> prefix strMultipartFormData (rq_contentType g)"
    using assms by (auto simp: request_read_back_def printed_content_type_def)
  then show ?thesis by (simp add: RequestHeader_MultipartFormBoundary_def RequestHeader_ContentType_def)
qed

lemma read_back_set_length:
  assumes "request_ok d h" and "request_read_back h g" and "rq_contentLengthBytes h = framing_bytes n"
    and "rq_contentLength h = n" and "0 \<le> n"
  shows "request_read_back h (RequestHeader_SetContentLength g n)"
proof -
  have "kv_key kv \<noteq> strTransferEncoding" if "kv \<in> set (live (rq_h g))" for kv
  proof -
    have "kv_pair kv \<in> set (map kv_pair (live (rq_h h)) @ cookie_fields h)"
      using that assms(2) unfolding request_read_back_def by (metis image_eqI image_set)
    then consider "kv_pair kv \<in> set (map kv_pair (live (rq_h h)))" | "kv_pair kv \<in> set (cookie_fields h)"
      unfolding set_append by (meson UnE)
    then show ?thesis
    proof cases
      case 1
      then have "plain_field d (kv_pair kv)" using assms(1) by (auto simp: request_ok_def list_all_iff)
      then show ?thesis using plain_field_keys by (metis fst_conv kv_pair_def)
    next
      case 2
      then have "kv_key kv = strCookie" by (simp add: cookie_fields_def kv_pair_def split: if_splits)
      then show ?thesis by (simp add: str_defs)
    qed
  qed
  then have "strTransferEncoding \<notin> kv_key ` set (live (rq_h g))" by (metis imageE)
  then have "live (rq_h (RequestHeader_SetContentLength g n)) = live (rq_h g)"
    using assms(5) by (simp add: RequestHeader_SetContentLength_def Let_def list_del_absent)
  moreover have "framing_bytes n \<noteq> []" using assms(5) by (simp add: framing_bytes_def)
  ultimately show ?thesis using assms(2-)
    by (simp add: request_read_back_def RequestHeader_SetContentLength_def Let_def framing_bytes_def AppendUint_def)
qed


text \<open>Reading a printed request, header and body.\<close>

lemma message_header_ok:
  assumes "message_ok d q"
  shows "request_ok d (message_header q)" and "rq_contentType (message_header q) = rq_contentType (q_Header q)"
    and "RequestHeader_Method (message_header q) = RequestHeader_Method (q_Header q)"
    and "map kv_pair (live (rq_h (message_header q))) = map kv_pair (live (rq_h (q_Header q)))"
    and "rq_contentLengthBytes (message_header q) = [] \<Longrightarrow>
           message_body q = [] \<and> RequestHeader_ignoreBody (message_header q)"
    and "rq_contentLengthBytes (message_header q) \<noteq> [] \<Longrightarrow>
           rq_contentLengthBytes (message_header q) = framing_bytes (int (length (message_body q)))
           \<and> rq_contentLength (message_header q) = int (length (message_body q))"
proof -
  have ok: "request_ok d (q_Header q)" "length (message_body q) \<le> 2 ^ 31"
    "message_body q = [] \<and> RequestHeader_ignoreBody (q_Header q) \<Longrightarrow> rq_contentLengthBytes (q_Header q) = []"
    using assms by (auto simp: message_ok_def)
  have n: "0 \<le> int (length (message_body q))" "int (length (message_body q)) < 2 ^ 63" using ok(2) by auto
  note set = request_SetContentLength_ok [OF ok(1) n]
  have ne: "framing_bytes (int (length (message_body q))) \<noteq> []" by (simp add: framing_bytes_def)
  note defs = message_header_def RequestHeader_Method_def RequestHeader_ignoreBody_def RequestHeader_IsGet_def
    RequestHeader_IsHead_def
  show "request_ok d (message_header q)" "rq_contentType (message_header q) = rq_contentType (q_Header q)"
    "RequestHeader_Method (message_header q) = RequestHeader_Method (q_Header q)"
    "map kv_pair (live (rq_h (message_header q))) = map kv_pair (live (rq_h (q_Header q)))"
    using set ok(1) by (simp_all add: defs)
  show "rq_contentLengthBytes (message_header q) = [] \<Longrightarrow>
      message_body q = [] \<and> RequestHeader_ignoreBody (message_header q)"
    using set(3) ne by (auto simp: message_header_def split: if_splits)
  show "rq_contentLengthBytes (message_header q) \<noteq> [] \<Longrightarrow>
      rq_contentLengthBytes (message_header q) = framing_bytes (int (length (message_body q)))
      \<and> rq_contentLength (message_header q) = int (length (message_body q))"
    using set(2,3) ok(3) by (auto simp: message_header_def split: if_splits)
qed

lemma resetSkipHeader_body [simp]:
  "q_Header (Request_resetSkipHeader g) = q_Header g" "q_bodyRaw (Request_resetSkipHeader g) = None"
  "q_bodyStream (Request_resetSkipHeader g) = None" "q_multipartForm (Request_resetSkipHeader g) = None"
  "nilable (q_body (Request_resetSkipHeader g)) = []" "q_parsedURI (Request_resetSkipHeader g) = False"
  "q_parsedPostArgs (Request_resetSkipHeader g) = False" "q_isTLS (Request_resetSkipHeader g) = False"
  by (simp_all add: Request_resetSkipHeader_def Request_ResetBody_def Request_RemoveMultipartFormFiles_def
      Request_closeBodyStream_def Let_def nilable_def split: option.splits)

definition message_read :: "'f Request \<Rightarrow> 'f Request \<Rightarrow> bool" where
  "message_read q g \<longleftrightarrow>
     request_read_back (message_header q) (q_Header g) \<and> nilable (q_body g) = message_body q
     \<and> q_bodyRaw g = None \<and> q_bodyStream g = None \<and> q_multipartForm g = None"

lemma ContinueReadBody_message:
  assumes "message_ok d q" and "request_read_back (message_header q) (q_Header g)" and "rd_data r = message_body q @ rest"
    and "br_wf r" and "maxBodySize \<le> 0 \<or> int (length (message_body q)) \<le> maxBodySize"
    and "q_bodyRaw g = None" and "q_bodyStream g = None" and "q_multipartForm g = None" and "nilable (q_body g) = []"
  shows "\<exists>g' r'. Request_ContinueReadBody lib env capacity g r maxBodySize pre = Ret (g', None, r') \<and> message_read q g'
    \<and> rd_data r' = rest \<and> rd_err r' = rd_err r \<and> br_wf r' \<and> br_size r' = br_size r"
proof (cases "rq_contentLengthBytes (message_header q) = []")
  case True
  note m = message_header_ok [OF assms(1)]
  have cl: "rq_contentLength (q_Header g) = -2" and meth: "RequestHeader_Method (q_Header g) = RequestHeader_Method (message_header q)"
    using True assms(2) by (auto simp: request_read_back_def RequestHeader_Method_def str_defs)
  have "RequestHeader_ignoreBody (q_Header g)"
    using m(5) [OF True] meth by (simp add: RequestHeader_ignoreBody_def RequestHeader_IsGet_def RequestHeader_IsHead_def)
  then show ?thesis using cl assms(2-) m(5) [OF True]
    by (simp add: Request_ContinueReadBody_def RequestHeader_ContentLength_def message_read_def)
next
  case False
  note m = message_header_ok [OF assms(1)]
  let ?n = "int (length (message_body q))"
  have cl: "rq_contentLength (q_Header g) = ?n"
    using m(6) [OF False] False assms(2) by (simp add: request_read_back_def)
  have form: "RequestHeader_MultipartFormBoundary (q_Header g) = None"
    using read_back_no_form [OF assms(2)] m(2) assms(1) by (simp add: message_ok_def)
  obtain c' where body: "readBody (ce_avail env) (br_reader r) ?n maxBodySize capacity =
      Ret (message_body q, c', None, (br_reader r)\<lparr>rd_data := rest\<rparr>)"
    using readBody_fixed [of "br_reader r"] assms(1,3,5) by (fastforce simp: br_reader_def message_ok_def)
  have "request_read_back (message_header q) (RequestHeader_SetContentLength (q_Header g) ?n)"
    by (rule read_back_set_length [OF m(1) assms(2)]) (use m(6) [OF False] in auto)
  then show ?thesis using cl form body assms(5-)
    by (auto simp: Request_ContinueReadBody_def RequestHeader_ContentLength_def Let_def nilable_def
        Request_bodyBuffer_def message_read_def br_after_wf br_reader_def)
qed

lemma Request_read_message:
  assumes "message_ok (rq_disableNormalizing (q_Header g)) q" and "br_wf r"
    and "rd_data r = RequestHeader_AppendBytes (message_header q) [] @ message_body q @ rest"
    and "length (RequestHeader_AppendBytes (message_header q) []) \<le> br_size r"
    and "maxBodySize \<le> 0 \<or> int (length (message_body q)) \<le> maxBodySize"
  shows "\<exists>g' r'. Request_ReadLimitBody lib env capacity g r maxBodySize = Ret (g', None, r') \<and> message_read q g'
    \<and> rd_data r' = rest \<and> rd_err r' = rd_err r \<and> br_wf r' \<and> br_size r' = br_size r"
proof -
  note m = message_header_ok [OF assms(1)]
  have "1 \<le> length (RequestHeader_AppendBytes (message_header q) [])"
    by (simp add: RequestHeader_AppendBytes_fields request_line_def Suc_le_eq)
  then obtain h r1 where h: "RequestHeader_Read (q_Header g) r = Ret (h, None, r1)"
    "request_read_back (message_header q) h" "rd_data r1 = message_body q @ rest" "rd_err r1 = rd_err r" "br_wf r1"
    "br_size r1 = br_size r"
    using Read_loop_complete [OF m(1) assms(2) _ assms(3) _ assms(4), of 1] by (auto simp: RequestHeader_Read_def)
  let ?g = "(Request_resetSkipHeader g)\<lparr>q_Header := h\<rparr>"
  have "nilable (peekArg (rq_h h) strExpect) = nilable (peekArg (rq_h (message_header q)) strExpect)"
    by (rule MayContinue_read_back) (use h(2) in \<open>simp add: request_read_back_def\<close>)
  also have "\<dots> = nilable (peekArg (rq_h (q_Header q)) strExpect)"
    by (simp add: peekArg_list list_peek_pairs m(4))
  finally have may: "\<not> Request_MayContinue ?g"
    using assms(1) by (simp add: message_ok_def Request_MayContinue_def peek_plain_name)
  have "\<exists>g' r'. Request_ContinueReadBody lib env capacity ?g r1 maxBodySize True = Ret (g', None, r') \<and> message_read q g'
      \<and> rd_data r' = rest \<and> rd_err r' = rd_err r1 \<and> br_wf r' \<and> br_size r' = br_size r1"
    by (rule ContinueReadBody_message [OF assms(1) _ h(3,5) assms(5)]) (simp_all add: h(2))
  then show ?thesis using h may by (simp add: Request_ReadLimitBody_def Request_readLimitBody_def Let_def)
qed

text \<open>Responses: the ways to give a body, and what is written for each.\<close>

definition response_with_body :: "Response \<Rightarrow> bytes \<Rightarrow> Response \<Rightarrow> bool" where
  "response_with_body p data q \<longleftrightarrow>
     q = Response_SetBody p data \<or> q = Response_SetBodyRaw p (Some data)
     \<or> (\<exists>s n. q = Response_SetBodyStream p (Some s) n \<and> (n = -1 \<or> n = int (length data))
            \<and> bs_reader s = \<lparr>rd_data = data, rd_err = EOF\<rparr> \<and> bs_LimitedReader s = None
            \<and> (bs_Closer s = None \<or> bs_Closer s = Some None))"

lemma SetContentLength_status [simp]:
  "rs_statusCode (ResponseHeader_SetContentLength h n) = rs_statusCode h"
  by (simp add: ResponseHeader_SetContentLength_def ResponseHeader_SetConnectionClose_def Let_def)

lemma mustSkip_status:
  "rs_statusCode g = rs_statusCode h \<Longrightarrow> ResponseHeader_mustSkipContentLength g = ResponseHeader_mustSkipContentLength h"
  by (simp add: ResponseHeader_mustSkipContentLength_def ResponseHeader_StatusCode_def)

lemma SetContentLength_skip [simp]:
  "ResponseHeader_mustSkipContentLength (ResponseHeader_SetContentLength h n) = ResponseHeader_mustSkipContentLength h"
  by (rule mustSkip_status) simp

lemma SetContentLength_twice:
  assumes "response_ok d date h" and "\<not> ResponseHeader_mustSkipContentLength h"
  shows "ResponseHeader_AppendBytes date (ResponseHeader_SetContentLength (ResponseHeader_SetContentLength h (-1)) (-1)) []
    = framed_bytes date h (-1)"
proof -
  let ?h = "ResponseHeader_SetContentLength h (-1)"
  let ?g = "ResponseHeader_SetContentLength ?h (-1)"
  note absent = response_ok_absent(1) [OF assms(1)]
  have skip: "\<not> ResponseHeader_mustSkipContentLength ?h"
    using assms(2) by simp
  have "list_set (xs @ [set_kv k v False]) k v False = xs @ [set_kv k v False]" if "k \<notin> kv_key ` set xs" for xs k v
    using that by (induction xs) (auto simp: set_kv_def)
  then have l: "live (rs_h ?g) = live (rs_h ?h)"
    using assms(2) skip absent by (simp add: ResponseHeader_SetContentLength_def Let_def list_set_absent)
  have f: "rs_server ?g = rs_server ?h" "rs_contentLength ?g = rs_contentLength ?h"
    "rs_contentLengthBytes ?g = rs_contentLengthBytes ?h" "rs_contentType ?g = rs_contentType ?h"
    "rs_cookies ?g = rs_cookies ?h" "rs_connectionClose ?g = rs_connectionClose ?h" "rs_statusCode ?g = rs_statusCode ?h"
    "rs_noDefaultDate ?g = rs_noDefaultDate ?h" "rs_noDefaultContentType ?g = rs_noDefaultContentType ?h"
    using assms(2) skip by (simp_all add: ResponseHeader_SetContentLength_def Let_def)
  show ?thesis unfolding framed_bytes_def
    by (simp add: ResponseHeader_AppendBytes_fields response_fields_def response_type_def date_fields_def other_fields_def
        set_cookie_fields_def printed_status_def l f ResponseHeader_StatusCode_def ResponseHeader_ContentLength_def
        ResponseHeader_ContentType_def)
qed

lemma Response_Write_with_body:
  assumes "response_with_body p data q" and "response_ok d date (p_Header p)" and "\<not> Response_mustSkipBody p"
  shows "\<exists>n out q'. (Response_Write date q :: bytes \<times> 'e msg_err option \<times> Response) = (framed_bytes date (p_Header p) n @ out, None, q')
    \<and> (n = int (length data) \<and> out = data
       \<or> n = -1 \<and> (\<exists>avail. writeBodyChunked avail \<lparr>rd_data = data, rd_err = EOF\<rparr> = (out, None)))"
proof -
  have skip: "\<not> p_SkipBody p" "\<not> ResponseHeader_mustSkipContentLength (p_Header p)"
    using assms(3) by (auto simp: Response_mustSkipBody_def)
  consider (buffer) "p_bodyStream q = None" "nilable (Response_bodyBytes q) = data" "p_Header q = p_Header p" "\<not> p_SkipBody q"
    | (stream) s n where "q = Response_SetBodyStream p (Some s) n" "n = -1 \<or> n = int (length data)"
      "bs_reader s = \<lparr>rd_data = data, rd_err = EOF\<rparr>" "bs_LimitedReader s = None"
      "bs_Closer s = None \<or> bs_Closer s = Some None"
    using assms(1) skip(1) unfolding response_with_body_def
    by (auto simp: Response_SetBody_def Response_SetBodyRaw_def Response_ResetBody_def Response_bodyBytes_def
        Response_bodyBuffer_def Response_closeBodyStream_def nilable_def Let_def split: option.splits)
  then show ?thesis
  proof cases
    case buffer
    then show ?thesis using skip
      by (auto simp: Response_Write_def Response_mustSkipBody_def ResponseHeader_Header_def framed_bytes_def Let_def)
  next
    case stream
    let ?h = "ResponseHeader_SetContentLength (p_Header p) n"
    have reset: "p_Header (Response_ResetBody p) = p_Header p" "p_SkipBody (Response_ResetBody p) = p_SkipBody p"
      by (simp_all add: Response_ResetBody_def Response_closeBodyStream_def Let_def split: option.splits)
    have q: "p_bodyStream q = Some s" "p_Header q = ?h" "\<not> p_SkipBody q"
      using stream(1) skip(1) by (simp_all add: Response_SetBodyStream_def reset Let_def)
    have "rs_contentLength ?h = n" "\<not> ResponseHeader_mustSkipContentLength ?h" 
      using skip(2) SetContentLength_framing(3) [OF assms(2) skip(2)] stream(2) by auto
    moreover obtain out where out: "writeBodyChunked (bs_avail s) \<lparr>rd_data = data, rd_err = EOF\<rparr> = (out, None)"
      using writeBodyChunked_chunks [of "\<lparr>rd_data = data, rd_err = EOF\<rparr>" "bs_avail s"] by auto
    ultimately have "\<exists>q'. (Response_Write date q :: bytes \<times> 'e msg_err option \<times> Response) =
        (framed_bytes date (p_Header p) n @ (if n = -1 then out else data), None, q')"
      using stream(2-) q SetContentLength_twice [OF assms(2) skip(2)]
      by (auto simp: Response_Write_def Response_mustSkipBody_def Response_writeBodyStream_def ResponseHeader_Header_def
          ResponseHeader_ContentLength_def limitedReaderSize_def writeBodyFixedSize_def copyZeroAlloc_def
          Response_closeBodyStream_def framed_bytes_def Let_def)
    then show ?thesis using stream(2) out by (cases "n = -1") auto
  qed
qed


text \<open>What is left of a response after its body has been read and its length recorded.\<close>

definition response_read :: "bytes \<Rightarrow> Response \<Rightarrow> bytes \<Rightarrow> Response \<Rightarrow> bool" where
  "response_read date p data g \<longleftrightarrow>
     nilable (p_body g) = data \<and> p_bodyRaw g = None \<and> p_bodyStream g = None
     \<and> rs_statusCode (p_Header g) = printed_status (p_Header p) \<and> rs_server (p_Header g) = rs_server (p_Header p)
     \<and> rs_contentLength (p_Header g) = int (length data)
     \<and> map kv_pair (live (rs_h (p_Header g))) = date_fields date (p_Header p) @ other_fields (p_Header p)
     \<and> map kv_pair (live (rs_cookies (p_Header g))) = map kv_pair (live (rs_cookies (p_Header p)))
     \<and> rs_connectionClose (p_Header g) = rs_connectionClose (p_Header p)"

lemma pairs_list_del: "map kv_pair (list_del xs k) = filter (\<lambda>kv. fst kv \<noteq> k) (map kv_pair xs)"
  by (induction xs) (auto simp: list_del_def kv_pair_def)

lemma response_fields_no_framing:
  assumes "response_ok d date h"
  shows "filter (\<lambda>kv. fst kv \<noteq> strTransferEncoding) (date_fields date h @ other_fields h @
      (if 0 \<le> n then [] else [(strTransferEncoding, t)])) = date_fields date h @ other_fields h"
proof -
  have "fst kv \<noteq> strTransferEncoding" if "kv \<in> set (other_fields h)" for kv
    using response_plain_keys [OF other_fields_plain [OF assms that]] by simp
  moreover have "fst kv \<noteq> strTransferEncoding" if "kv \<in> set (date_fields date h)" for kv
    using that by (auto simp: date_fields_def str_defs split: if_splits)
  ultimately show ?thesis by (auto intro: filter_True)
qed

lemma readBody_framed:
  assumes "n = int (length data) \<and> out = data \<or> n = -1 \<and> writeBodyChunked avail \<lparr>rd_data = data, rd_err = EOF\<rparr> = (out, None)"
    and "length data + 2 \<le> 2 ^ 31" and "maxBodySize \<le> 0 \<or> int (length data) \<le> maxBodySize" and "rd_data r = out @ rest"
  shows "\<exists>c'. readBody avail' r n maxBodySize c = Ret (data, c', None, r\<lparr>rd_data := rest\<rparr>)"
proof (cases "n = -1")
  case False
  with assms show ?thesis using readBody_fixed [of r data rest maxBodySize avail' c] by simp
next
  case True
  with assms(1) have out: "writeBodyChunked avail \<lparr>rd_data = data, rd_err = EOF\<rparr> = (out, None)" by simp
  have r: "r = \<lparr>rd_data = out @ rest, rd_err = rd_err r\<rparr>" using assms(4) by (intro reader.equality) simp_all
  obtain c' where "readBodyChunked avail' \<lparr>rd_data = out @ rest, rd_err = rd_err r\<rparr> maxBodySize [] c =
      Ret (data, c', None, \<lparr>rd_data = rest, rd_err = rd_err r\<rparr>)"
    using chunked_round [OF assms(2,3), of avail avail' rest "rd_err r" c] out by auto
  moreover have "r\<lparr>rd_data := rest\<rparr> = \<lparr>rd_data = rest, rd_err = rd_err r\<rparr>" by (intro reader.equality) simp_all
  ultimately show ?thesis using True r by (simp add: readBody_def)
qed

lemma Response_ReadLimitBody_framed:
  assumes "response_ok (rs_disableNormalizing (p_Header g)) date (p_Header p)" and "\<not> Response_mustSkipBody p" and "\<not> p_SkipBody g"
    and "n = int (length data) \<and> out = data \<or> n = -1 \<and> writeBodyChunked avail \<lparr>rd_data = data, rd_err = EOF\<rparr> = (out, None)"
    and "length data + 2 \<le> 2 ^ 31" and "maxBodySize \<le> 0 \<or> int (length data) \<le> maxBodySize"
    and "br_wf r" and "rd_data r = framed_bytes date (p_Header p) n @ out @ rest"
    and "length (framed_bytes date (p_Header p) n) \<le> br_size r"
  shows "\<exists>g' r'. (Response_ReadLimitBody env c g r maxBodySize :: (Response \<times> 'e msg_err option \<times> bufreader) panics) =
      Ret (g', None, r') \<and> response_read date p data g'
    \<and> rd_data r' = rest \<and> rd_err r' = rd_err r \<and> br_wf r' \<and> br_size r' = br_size r"
proof -
  let ?h = "p_Header p"
  have n: "-2 \<le> n" "n < 2 ^ 63" and skip: "\<not> ResponseHeader_mustSkipContentLength ?h"
    using assms(2,4,5) by (auto simp: Response_mustSkipBody_def)
  obtain g1 r1 where g1: "ResponseHeader_Read (p_Header g) r = Ret (g1, None, r1)" "response_read_back date ?h n g1"
    "rd_data r1 = out @ rest" "rd_err r1 = rd_err r" "br_wf r1" "br_size r1 = br_size r"
    using response_Read_complete [OF assms(1) skip n assms(7,8,9)] by blast
  have status: "rs_statusCode g1 = printed_status ?h" "rs_contentLength g1 = n"
    using g1(2) by (simp_all add: response_read_back_def)
  have "ResponseHeader_mustSkipContentLength g1 = ResponseHeader_mustSkipContentLength ?h"
    "ResponseHeader_StatusCode g1 \<noteq> StatusContinue"
    using skip status(1) printed_status_pos [of ?h]
    by (auto simp: ResponseHeader_mustSkipContentLength_def ResponseHeader_StatusCode_def printed_status_def StatusOK_def
        StatusContinue_def StatusNotModified_def StatusNoContent_def Let_def split: if_splits)
  with skip have g1': "\<not> ResponseHeader_mustSkipContentLength g1" "ResponseHeader_StatusCode g1 \<noteq> StatusContinue" by auto
  let ?g = "Response_resetSkipHeader g"
  have reset: "p_Header ?g = p_Header g" "p_SkipBody ?g = p_SkipBody g" "p_bodyStream ?g = None"
    by (simp_all add: Response_resetSkipHeader_def Response_ResetBody_def Response_closeBodyStream_def Let_def split: option.splits)
  have hdr: "Response_readHeader (p_Header ?g) r = Ret (g1, None, r1)"
    using g1(1) g1'(2) by (simp add: Response_readHeader_def reset(1))
  obtain c' where body: "readBody (ce_avail env) (br_reader r1) n maxBodySize c =
      Ret (data, c', None, (br_reader r1)\<lparr>rd_data := rest\<rparr>)"
    using readBody_framed [OF assms(4-6), of "br_reader r1" rest] g1(3) by (auto simp: br_reader_def)
  let ?h' = "ResponseHeader_SetContentLength g1 (int (length data))"
  have "map kv_pair (live (rs_h ?h')) = date_fields date ?h @ other_fields ?h"
    using g1(2) g1'(1) response_fields_no_framing [OF assms(1), of n]
    by (simp add: ResponseHeader_SetContentLength_def Let_def pairs_list_del response_read_back_def)
  moreover have "rs_server ?h' = rs_server ?h" "rs_contentLength ?h' = int (length data)"
    "map kv_pair (live (rs_cookies ?h')) = map kv_pair (live (rs_cookies ?h))"
    "rs_connectionClose ?h' = (rs_connectionClose ?h \<or> n = -2)"
    using g1(2) g1'(1) by (simp_all add: ResponseHeader_SetContentLength_def Let_def response_read_back_def)
  ultimately have "response_read date p data
      (?g\<lparr>p_bodyRaw := None, p_body := Some data, p_Header := ?h'\<rparr>)"
    using status(1) reset(3) assms(4) by (auto simp: response_read_def nilable_def)
  then show ?thesis using hdr g1' reset assms(3) body status(2) g1(4,6)
    by (auto simp: Response_ReadLimitBody_def Response_mustSkipBody_def Response_bodyBuffer_def
        ResponseHeader_ContentLength_def br_after_wf br_reader_def Let_def)
qed

section \<open>Copies\<close>

text \<open>Entries that carry their value: what every setter of a header makes.\<close>

definition kvs_normal :: "argsKV slice \<Rightarrow> bool" where
  "kvs_normal l \<longleftrightarrow> map norm_kv (live l) = live l"

lemma RequestHeader_CopyTo_fields:
  fixes dst :: RequestHeader
  assumes "kvs_normal (rq_h h)" and "kvs_normal (rq_cookies h)"
  defines "g \<equiv> RequestHeader_CopyTo h dst"
  shows "live (rq_h g) = live (rq_h h)" "live (rq_cookies g) = live (rq_cookies h)" "rq_method g = rq_method h"
    "rq_requestURI g = rq_requestURI h" "rq_proto g = rq_proto h" "rq_host g = rq_host h" "rq_userAgent g = rq_userAgent h"
    "rq_contentType g = rq_contentType h" "rq_contentLengthBytes g = rq_contentLengthBytes h"
    "rq_connectionClose g = rq_connectionClose h"
  using assms by (simp_all add: RequestHeader_CopyTo_def kvs_normal_def Let_def)

lemma AppendBytes_same:
  assumes "live (rq_h g) = live (rq_h h)" "live (rq_cookies g) = live (rq_cookies h)" "rq_method g = rq_method h"
    "rq_requestURI g = rq_requestURI h" "rq_proto g = rq_proto h" "rq_host g = rq_host h" "rq_userAgent g = rq_userAgent h"
    "rq_contentType g = rq_contentType h" "rq_contentLengthBytes g = rq_contentLengthBytes h"
    "rq_connectionClose g = rq_connectionClose h"
  shows "RequestHeader_AppendBytes g [] = RequestHeader_AppendBytes h []" "RequestHeader_ignoreBody g = RequestHeader_ignoreBody h"
proof -
  have line: "RequestHeader_Method g = RequestHeader_Method h" "RequestHeader_RequestURI g = RequestHeader_RequestURI h"
    "RequestHeader_Protocol g = RequestHeader_Protocol h"
    using assms by (simp_all add: RequestHeader_Method_def RequestHeader_RequestURI_def RequestHeader_Protocol_def)
  then show ign: "RequestHeader_ignoreBody g = RequestHeader_ignoreBody h"
    by (simp add: RequestHeader_ignoreBody_def RequestHeader_IsGet_def RequestHeader_IsHead_def)
  have "request_fields g = request_fields h"
    using assms ign by (simp add: request_fields_def printed_content_type_def cookie_fields_def)
  moreover have "request_line g = request_line h" using line by (simp add: request_line_def)
  ultimately show "RequestHeader_AppendBytes g [] = RequestHeader_AppendBytes h []"
    by (simp only: RequestHeader_AppendBytes_fields)
qed

lemma SetContentLength_same:
  assumes "live (rq_h g) = live (rq_h h)" "live (rq_cookies g) = live (rq_cookies h)" "rq_method g = rq_method h"
    "rq_requestURI g = rq_requestURI h" "rq_proto g = rq_proto h" "rq_host g = rq_host h" "rq_userAgent g = rq_userAgent h"
    "rq_contentType g = rq_contentType h" "rq_connectionClose g = rq_connectionClose h"
  shows "RequestHeader_AppendBytes (RequestHeader_SetContentLength g n) [] =
    RequestHeader_AppendBytes (RequestHeader_SetContentLength h n) []"
  by (rule AppendBytes_same) (use assms in \<open>simp_all add: RequestHeader_SetContentLength_def Let_def\<close>)


definition request_kvs_normal :: "'f Request \<Rightarrow> bool" where
  "request_kvs_normal req \<longleftrightarrow> kvs_normal (rq_h (q_Header req)) \<and> kvs_normal (rq_cookies (q_Header req))
     \<and> kvs_normal (a_args (q_postArgs req))"

lemma Request_CopyTo_parts:
  fixes req dst :: "'f Request"
  assumes "request_kvs_normal req"
  defines "g \<equiv> Request_CopyTo req dst"
  shows "message_body g = message_body req"
    and "RequestHeader_AppendBytes (message_header g) [] = RequestHeader_AppendBytes (message_header req) []"
    and "q_bodyStream g = None" and "q_multipartForm g = None" and "q_parsedURI g = q_parsedURI req"
    and "rq_host (q_Header g) = rq_host (q_Header req)"
proof -
  have kv: "kvs_normal (rq_h (q_Header req))" "kvs_normal (rq_cookies (q_Header req))"
    "map norm_kv (live (a_args (q_postArgs req))) = live (a_args (q_postArgs req))"
    using assms by (auto simp: request_kvs_normal_def kvs_normal_def)
  have g: "q_Header g = RequestHeader_CopyTo (q_Header req) (q_Header (Request_Reset dst))"
    "q_postArgs g = Args_CopyTo (q_postArgs req) (q_postArgs (Request_Reset dst))"
    "q_parsedURI g = q_parsedURI req"
    by (simp_all add: g_def Request_CopyTo_def Request_copyToSkipBody_def Request_bodyBuffer_def Let_def split: option.splits)
  have reset: "q_bodyRaw (Request_Reset dst) = None" "q_bodyStream (Request_Reset dst) = None"
    "q_multipartForm (Request_Reset dst) = None" "nilable (q_body (Request_Reset dst)) = []"
    by (simp_all add: Request_Reset_def)
  show "q_bodyStream g = None" "q_multipartForm g = None"
    using reset by (simp_all add: g_def Request_CopyTo_def Request_copyToSkipBody_def Request_bodyBuffer_def Let_def split: option.splits)
  show "q_parsedURI g = q_parsedURI req" by (rule g(3))
  note f = RequestHeader_CopyTo_fields [OF kv(1,2), of "q_Header (Request_Reset dst)"]
  show "rq_host (q_Header g) = rq_host (q_Header req)" by (simp add: g f)
  have args: "Args_AppendBytes (q_postArgs g) [] = Args_AppendBytes (q_postArgs req) []"
    using kv(3) by (simp add: g Args_AppendBytes_def Args_CopyTo_def Let_def)
  have body: "(case q_bodyRaw g of Some b \<Rightarrow> b | None \<Rightarrow> nilable (q_body g)) =
      (case q_bodyRaw req of Some b \<Rightarrow> b | None \<Rightarrow> nilable (q_body req))"
    using reset by (auto simp: g_def Request_CopyTo_def Request_copyToSkipBody_def Request_bodyBuffer_def nilable_def Let_def
        split: option.splits)
  show mb: "message_body g = message_body req" unfolding message_body_def Let_def body args ..
  show "RequestHeader_AppendBytes (message_header g) [] = RequestHeader_AppendBytes (message_header req) []"
    unfolding message_header_def mb g(1)
    using AppendBytes_same [of "RequestHeader_CopyTo (q_Header req) (q_Header (Request_Reset dst))" "q_Header req"]
      SetContentLength_same [of "RequestHeader_CopyTo (q_Header req) (q_Header (Request_Reset dst))" "q_Header req"] f
    by simp
qed

section \<open>Properties\<close>

text \<open>
  Where a request goes: to the host and the target of its URI, once that has been parsed (as it has for
  every request a client sends), with the credentials of the URI as an \<open>Authorization\<close> field; else to
  the host and target its header names.
\<close>

definition request_host :: "'f Request \<Rightarrow> bytes" where
  "request_host q = (if q_parsedURI q then u_host (q_uri q) else rq_host (q_Header q))"

definition request_target :: "'f Request \<Rightarrow> bytes" where
  "request_target q = (if q_parsedURI q then fst (URI_RequestURI (q_uri q)) else rq_requestURI (q_Header q))"

definition request_credentials :: "'f Request \<Rightarrow> bytes option" where
  "request_credentials q =
     (if q_parsedURI q \<and> u_username (q_uri q) \<noteq> []
      then Some (strBasicSpace @ base64_encode (u_username (q_uri q) @ strColon @ u_password (q_uri q))) else None)"

text \<open>The request as a receiver sees it: addressed, and without a parsed URI.\<close>

definition addressed :: "'f Request \<Rightarrow> 'f Request" where
  "addressed q =
     (let h = (q_Header q)\<lparr>rq_host := request_host q, rq_requestURI := request_target q\<rparr>
      in q\<lparr>q_parsedURI := False,
           q_Header := (case request_credentials q of None \<Rightarrow> h
                        | Some v \<Rightarrow> h\<lparr>rq_h := setArg (rq_h h) strAuthorization v argsHasValue\<rparr>)\<rparr>)"

lemma addressed_simps [simp]:
  "q_bodyStream (addressed q) = q_bodyStream q" "q_multipartForm (addressed q) = q_multipartForm q"
  "q_bodyRaw (addressed q) = q_bodyRaw q" "q_body (addressed q) = q_body q" "q_postArgs (addressed q) = q_postArgs q"
  "rq_host (q_Header (addressed q)) = request_host q" "rq_requestURI (q_Header (addressed q)) = request_target q"
  "rq_method (q_Header (addressed q)) = rq_method (q_Header q)" "\<not> q_parsedURI (addressed q)"
  by (simp_all add: addressed_def Let_def split: option.splits)

lemma authorization_key: "normalizeHeaderKey strAuthorization b = strAuthorization" "hd strAuthorization OR 0x20 = 97" "strAuthorization \<noteq> []"
proof -
  have "normalizeHeaderKey strAuthorization True = strAuthorization" "normalizeHeaderKey strAuthorization False = strAuthorization"
    by code_simp+
  then show "normalizeHeaderKey strAuthorization b = strAuthorization" by (cases b) simp_all
  show "hd strAuthorization OR 0x20 = 97" "strAuthorization \<noteq> []" by code_simp+
qed

lemma set_authorization:
  "RequestHeader_SetBytesKV h strAuthorization v =
     h\<lparr>rq_bufKV := (rq_bufKV h)\<lparr>kv_key := strAuthorization\<rparr>, rq_h := setArg (rq_h h) strAuthorization v argsHasValue\<rparr>"
  by (simp add: RequestHeader_SetBytesKV_def RequestHeader_SetCanonical_def RequestHeader_setSpecialHeader_def Let_def authorization_key)

lemma message_body_cong:
  "q_bodyRaw a = q_bodyRaw b \<Longrightarrow> q_body a = q_body b \<Longrightarrow> q_postArgs a = q_postArgs b \<Longrightarrow> message_body a = message_body b"
  unfolding message_body_def Let_def by (simp cong: if_cong option.case_cong)

text \<open>The scratch pair of a header does not show in what is printed.\<close>

lemma scratch_unprinted:
  "RequestHeader_ignoreBody (h\<lparr>rq_bufKV := kv\<rparr>) = RequestHeader_ignoreBody h"
  "RequestHeader_AppendBytes (h\<lparr>rq_bufKV := kv\<rparr>) [] = RequestHeader_AppendBytes h []"
  "RequestHeader_SetContentLength (h\<lparr>rq_bufKV := kv\<rparr>) n = (RequestHeader_SetContentLength h n)\<lparr>rq_bufKV := kv\<rparr>"
proof -
  show ignore: "RequestHeader_ignoreBody (h\<lparr>rq_bufKV := kv\<rparr>) = RequestHeader_ignoreBody h"
    by (simp add: RequestHeader_ignoreBody_def RequestHeader_IsGet_def RequestHeader_IsHead_def RequestHeader_Method_def)
  show "RequestHeader_AppendBytes (h\<lparr>rq_bufKV := kv\<rparr>) [] = RequestHeader_AppendBytes h []"
    by (simp add: ignore RequestHeader_AppendBytes_fields request_line_def request_fields_def printed_content_type_def cookie_fields_def
        RequestHeader_Method_def RequestHeader_RequestURI_def RequestHeader_Protocol_def)
  show "RequestHeader_SetContentLength (h\<lparr>rq_bufKV := kv\<rparr>) n = (RequestHeader_SetContentLength h n)\<lparr>rq_bufKV := kv\<rparr>"
    by (simp add: RequestHeader_SetContentLength_def Let_def)
qed

text \<open>What the first step of \<open>Write\<close> leaves to be printed is the addressed request.\<close>

lemma Write_uri_addressed:
  assumes "request_host q \<noteq> []"
  obtains q1 kv where "Request_Write_uri q = Some q1" and "q_Header q1 = (q_Header (addressed q))\<lparr>rq_bufKV := kv\<rparr>"
    and "q_bodyStream q1 = q_bodyStream q" and "q_multipartForm q1 = q_multipartForm q" and "q_bodyRaw q1 = q_bodyRaw q"
    and "q_body q1 = q_body q" and "q_postArgs q1 = q_postArgs q"
proof (cases "q_parsedURI q")
  case False
  then have "Request_Write_uri q = Some q" "q_Header q = (q_Header (addressed q))\<lparr>rq_bufKV := rq_bufKV (q_Header q)\<rparr>"
    using assms by (simp_all add: Request_Write_uri_def request_host_def addressed_def request_credentials_def request_target_def Let_def)
  then show thesis by (rule that) simp_all
next
  case True
  obtain b u where r: "URI_RequestURI (q_uri q) = (b, u)" by (metis surj_pair)
  have u: "u_username u = u_username (q_uri q)" "u_password u = u_password (q_uri q)"
    using r by (auto simp: URI_RequestURI_def Let_def split: if_splits prod.splits)
  define h where "h = (q_Header q)\<lparr>rq_host := u_host (q_uri q), rq_requestURI := b\<rparr>"
  define v where "v = strBasicSpace @ base64_encode (u_username u @ strColon @ u_password u)"
  define h' where "h' = (if u_username u = [] then h
    else h\<lparr>rq_bufKV := (rq_bufKV h)\<lparr>kv_key := strAuthorization\<rparr>, rq_h := setArg (rq_h h) strAuthorization v argsHasValue\<rparr>)"
  have "Request_Write_uri q = Some (q\<lparr>q_uri := u, q_Header := h'\<rparr>)"
    using True assms r by (simp add: Request_Write_uri_def Request_URI_def Request_parseURI_def request_host_def set_authorization
        RequestHeader_SetHost_def RequestHeader_SetRequestURI_def h'_def h_def v_def Let_def)
  moreover have "q_Header (q\<lparr>q_uri := u, q_Header := h'\<rparr>) = (q_Header (addressed q))\<lparr>rq_bufKV := rq_bufKV h'\<rparr>"
    using True r u by (simp add: h'_def h_def v_def addressed_def request_credentials_def request_host_def request_target_def Let_def)
  ultimately show thesis by (rule that) simp_all
qed

lemma Write_body_bytes:
  assumes "q_bodyStream req = None" and "q_multipartForm req = None"
  shows "\<exists>req'. Request_Write_body Error lib req =
    Ret (RequestHeader_AppendBytes (message_header req) [] @ message_body req, None, req')"
proof -
  have "Request_bodyBytes Error req = (case q_bodyRaw req of Some b \<Rightarrow> Some b | None \<Rightarrow> q_body req, req)"
    using assms by (simp add: Request_bodyBytes_def split: option.splits)
  moreover have "\<not> Request_onlyMultipartForm req"
    using assms by (simp add: Request_onlyMultipartForm_def)
  ultimately show ?thesis using assms
    by (auto simp: Request_Write_body_def message_header_def message_body_def
        RequestHeader_Header_def Args_QueryString_def Let_def nilable_def split: option.splits)
qed

lemma Request_Write_addressed:
  assumes "request_host q \<noteq> []" and "q_bodyStream q = None" and "q_multipartForm q = None"
  shows "\<exists>q'. Request_Write Error lib q =
    Ret (RequestHeader_AppendBytes (message_header (addressed q)) [] @ message_body (addressed q), None, q')"
proof -
  obtain q1 kv where q1: "Request_Write_uri q = Some q1" "q_Header q1 = (q_Header (addressed q))\<lparr>rq_bufKV := kv\<rparr>"
    "q_bodyStream q1 = q_bodyStream q" "q_multipartForm q1 = q_multipartForm q" "q_bodyRaw q1 = q_bodyRaw q"
    "q_body q1 = q_body q" "q_postArgs q1 = q_postArgs q" by (rule Write_uri_addressed [OF assms(1)])
  have b: "message_body q1 = message_body (addressed q)" by (rule message_body_cong) (simp_all add: q1)
  then have "RequestHeader_AppendBytes (message_header q1) [] = RequestHeader_AppendBytes (message_header (addressed q)) []"
    by (simp add: message_header_def q1(2) scratch_unprinted)
  then show ?thesis
    using Write_body_bytes [of q1 Error lib] q1(1,3,4) assms(2,3) b by (simp add: Request_Write_def)
qed

text \<open>
  C2. A request whose body is in memory, written to a connection, is read back whole by a server: the
  header (with the length of the body), the body, and the connection left at the first byte of
  the next message, for every way the bytes arrive. The host and the target that the server reads
  are those of the request's URI, with its credentials as the \<open>Authorization\<close>, when the URI has been
  parsed, and else those of the header (\<open>addressed\<close>). The parts must fit on their lines and the header
  into the buffer; the request has a host, is no multipart form and does not ask for 100-continue.
\<close>

theorem Request_write_read:
  assumes "message_ok (rq_disableNormalizing (q_Header g)) (addressed q)" and "Request_Write Error lib q = Ret (out, err, q')"
    and "br_wf r" and "rd_data r = out @ rest" and "length out \<le> br_size r + length (message_body q)"
    and "maxBodySize \<le> 0 \<or> int (length (message_body q)) \<le> maxBodySize"
  shows "err = None \<and> (\<exists>g' r'. Request_ReadLimitBody lib' env capacity g r maxBodySize = Ret (g', None, r')
    \<and> message_read (addressed q) g' \<and> nilable (q_body g') = message_body q
    \<and> rq_host (q_Header g') = request_host q \<and> rq_requestURI (q_Header g') = (if request_target q = [] then strSlash else request_target q)
    \<and> rd_data r' = rest \<and> rd_err r' = rd_err r \<and> br_wf r')"
proof -
  have ok: "request_host q \<noteq> []" "q_bodyStream q = None" "q_multipartForm q = None" using assms(1) by (simp_all add: message_ok_def)
  have b: "message_body (addressed q) = message_body q" by (rule message_body_cong) simp_all
  obtain q1 where "Request_Write Error lib q =
      Ret (RequestHeader_AppendBytes (message_header (addressed q)) [] @ message_body (addressed q), None, q1)"
    using Request_Write_addressed [OF ok] by blast
  then have out: "out = RequestHeader_AppendBytes (message_header (addressed q)) [] @ message_body q" "err = None"
    using assms(2) b by simp_all
  obtain g' r' where g: "Request_ReadLimitBody lib' env capacity g r maxBodySize = Ret (g', None, r')" "message_read (addressed q) g'"
    "rd_data r' = rest" "rd_err r' = rd_err r" "br_wf r'"
    using Request_read_message [OF assms(1,3), of rest maxBodySize lib' env capacity] assms(4-6) out b by auto
  have "rq_host (message_header (addressed q)) = request_host q" "rq_requestURI (message_header (addressed q)) = request_target q"
    by (simp_all add: message_header_def RequestHeader_SetContentLength_def Let_def)
  then have "rq_host (q_Header g') = request_host q" "rq_requestURI (q_Header g') = (if request_target q = [] then strSlash else request_target q)"
    "nilable (q_body g') = message_body q"
    using g(2) b by (simp_all add: message_read_def request_read_back_def RequestHeader_RequestURI_def)
  then show ?thesis using g out(2) by blast
qed

definition example_message :: "unit Request" where
  "example_message = \<lparr>q_Header = example_request,
     q_uri = \<lparr>u_pathOriginal = [], u_scheme = [], u_path = [], u_queryString = [], u_hash = [], u_host = [],
       u_queryArgs = \<lparr>a_args = \<lparr>live = [], spare = []\<rparr>, a_buf = []\<rparr>, u_parsedQueryArgs = False,
       u_DisablePathNormalizing = False, u_fullURI = [], u_requestURI = [], u_username = [], u_password = []\<rparr>,
     q_postArgs = \<lparr>a_args = \<lparr>live = [], spare = []\<rparr>, a_buf = []\<rparr>, q_bodyStream = None,
     q_body = Some (bytes_of ''hello world''), q_bodyRaw = None, q_multipartForm = None, q_multipartFormBoundary = [],
     q_secureErrorLogMessage = False, q_parsedURI = False, q_parsedPostArgs = False, q_keepBodyBuffer = False,
     q_isTLS = False, q_timeout = 0\<rparr>"

definition no_forms :: "(unit, unit) multipart_lib" where
  "no_forms = \<lparr>ml_ReadForm = (\<lambda>_ _ _. (Inl (), 0)), ml_WriteForm = (\<lambda>_ _. Inl ()), ml_Error = (\<lambda>_. [])\<rparr>"

lemma example_message_ok: "message_ok (rq_disableNormalizing (q_Header example_message)) example_message"
proof -
  note 1 = example_request_ok(1)
  have 2: "message_body example_message = bytes_of ''hello world''"
    by (simp add: message_body_def example_message_def nilable_def bytes_of_def)
  have 3: "\<not> prefix strMultipartFormData (rq_contentType example_request)" by code_simp
  have 4: "RequestHeader_peek example_request strExpect \<noteq> str100Continue" by code_simp
  have 5: "rq_host example_request \<noteq> []" "\<not> rq_disableNormalizing example_request"
    by (simp_all add: example_request_def bytes_of_def)
  show ?thesis unfolding message_ok_def 2 using 1 3 4 5
    by (simp add: example_message_def Request_MayContinue_def)
qed

text \<open>A client's request: its URI has been parsed and has credentials; its header names nothing.\<close>

definition example_sent :: "unit Request" where
  "example_sent = example_message
     \<lparr>q_parsedURI := True, q_Header := (q_Header example_message)\<lparr>rq_host := [], rq_requestURI := []\<rparr>,
      q_uri := (q_uri example_message)\<lparr>u_host := bytes_of ''foo.com'', u_path := bytes_of ''/a b'', u_queryString := bytes_of ''c'',
        u_username := bytes_of ''me'', u_password := bytes_of ''pw''\<rparr>\<rparr>"

lemma example_sent_body: "message_body example_sent = bytes_of ''hello world''"
  by (simp add: message_body_def example_sent_def example_message_def nilable_def bytes_of_def)

lemma example_sent_parts:
  "request_host example_sent = bytes_of ''foo.com''" "request_target example_sent = bytes_of ''/a%20b?c''"
  "request_credentials example_sent = Some (bytes_of ''Basic bWU6cHc='')"
proof -
  show "request_host example_sent = bytes_of ''foo.com''" "request_target example_sent = bytes_of ''/a%20b?c''" by code_simp+
  have "base64_encode (bytes_of ''me:pw'') = bytes_of ''bWU6cHc=''"
    by (simp add: bytes_of_def base64_char_def Let_def)
  then show "request_credentials example_sent = Some (bytes_of ''Basic bWU6cHc='')"
    by (simp add: request_credentials_def example_sent_def strBasicSpace_def strColon_def bytes_of_def)
qed

definition example_sent_header :: RequestHeader where
  "example_sent_header = (q_Header example_message)
     \<lparr>rq_host := bytes_of ''foo.com'', rq_requestURI := bytes_of ''/a%20b?c'',
      rq_h := setArg (rq_h example_request) strAuthorization (bytes_of ''Basic bWU6cHc='') argsHasValue\<rparr>"

lemma example_sent_header: "q_Header (addressed example_sent) = example_sent_header"
  by (simp add: addressed_def example_sent_parts example_sent_header_def)
    (simp add: example_sent_def example_message_def)

lemma example_sent_ok: "message_ok False (addressed example_sent)"
proof -
  have 1: "request_ok False (q_Header (addressed example_sent))" unfolding example_sent_header by code_simp
  have 2: "message_body (addressed example_sent) = bytes_of ''hello world''"
    unfolding example_sent_body [symmetric] by (rule message_body_cong) simp_all
  have 3: "\<not> prefix strMultipartFormData (rq_contentType (q_Header (addressed example_sent)))"
    unfolding example_sent_header by code_simp
  have 4: "\<not> Request_MayContinue (addressed example_sent)" unfolding Request_MayContinue_def example_sent_header by code_simp
  have 5: "request_host example_sent \<noteq> []" by (simp add: example_sent_parts bytes_of_def)
  show ?thesis unfolding message_ok_def 2 using 1 3 4 5
    by (simp add: example_sent_def example_message_def bytes_of_def)
qed

theorem Request_write_read_witness:
  "\<exists>out q' g' r'. Request_Write (\<lambda>_. []) no_forms example_sent = Ret (out, None, q')
    \<and> Request_ReadLimitBody no_forms \<lparr>ce_avail = (\<lambda>_. 2), ce_buffered = (\<lambda>_. 1)\<rparr> 0 example_message
        \<lparr>rd_data = out @ bytes_of ''GET'', rd_err = EOF, br_size = 4096, br_buffered = 0, br_avail = (\<lambda>_. 3)\<rparr> 20 =
        Ret (g', None, r')
    \<and> nilable (q_body g') = bytes_of ''hello world'' \<and> rd_data r' = bytes_of ''GET''
    \<and> rq_host (q_Header g') = bytes_of ''foo.com'' \<and> rq_requestURI (q_Header g') = bytes_of ''/a%20b?c''"
proof -
  let ?q = example_sent
  have d: "\<not> rq_disableNormalizing (q_Header example_message)" by (simp add: example_message_def example_request_def)
  have ok: "message_ok (rq_disableNormalizing (q_Header example_message)) (addressed ?q)" using example_sent_ok d by simp
  have h: "bytes_of ''/a%20b?c'' \<noteq> []" by (simp add: bytes_of_def)
  let ?out = "RequestHeader_AppendBytes (message_header (addressed ?q)) [] @ message_body (addressed ?q)"
  have w: "\<exists>q'. Request_Write (\<lambda>_. []) no_forms ?q = Ret (?out, None, q')"
    by (rule Request_Write_addressed) (simp_all add: example_sent_def example_message_def request_host_def bytes_of_def)
  then obtain q' where w: "Request_Write (\<lambda>_. []) no_forms ?q = Ret (?out, None, q')" by blast
  let ?r = "\<lparr>rd_data = ?out @ bytes_of ''GET'', rd_err = EOF, br_size = 4096, br_buffered = 0, br_avail = (\<lambda>_. 3)\<rparr> :: bufreader"
  have b: "message_body (addressed ?q) = message_body ?q" by (rule message_body_cong) simp_all
  have "length (RequestHeader_AppendBytes (RequestHeader_SetContentLength example_sent_header 11) []) \<le> 4096" by code_simp
  moreover have "message_header (addressed ?q) = RequestHeader_SetContentLength example_sent_header 11"
    unfolding message_header_def b example_sent_body example_sent_header by (simp add: bytes_of_def)
  ultimately have "length ?out \<le> br_size ?r + length (message_body ?q)" using b by simp
  moreover have "br_wf ?r" by (simp add: br_wf_def)
  moreover have "int (length (message_body ?q)) \<le> 20" unfolding example_sent_body by (simp add: bytes_of_def)
  ultimately have "\<exists>g' r'. Request_ReadLimitBody no_forms \<lparr>ce_avail = (\<lambda>_. 2), ce_buffered = (\<lambda>_. 1)\<rparr> 0 example_message ?r 20 =
      Ret (g', None, r') \<and> message_read (addressed ?q) g' \<and> nilable (q_body g') = message_body ?q
    \<and> rq_host (q_Header g') = request_host ?q \<and> rq_requestURI (q_Header g') = (if request_target ?q = [] then strSlash else request_target ?q)
    \<and> rd_data r' = bytes_of ''GET'' \<and> rd_err r' = rd_err ?r \<and> br_wf r'"
    using Request_write_read [OF ok w, of ?r "bytes_of ''GET''" 20 no_forms] by simp
  then show ?thesis using w example_sent_body h example_sent_parts(1,2) by metis
qed

text \<open>
  C3. A response, whether its body was set, given raw or given as a stream of known or unknown
  length, is read back whole by a client: status, server, fields, cookies and body, with the
  connection left at the first byte of the next response.
\<close>

theorem Response_write_read:
  assumes "response_with_body p data q" and "(Response_Write date q :: bytes \<times> 'e msg_err option \<times> Response) = (out, err, q')"
    and "response_ok (rs_disableNormalizing (p_Header g)) date (p_Header p)" and "\<not> Response_mustSkipBody p" and "\<not> p_SkipBody g"
    and "length data + 2 \<le> 2 ^ 31" and "maxBodySize \<le> 0 \<or> int (length data) \<le> maxBodySize"
    and "br_wf r" and "rd_data r = out @ rest" and "length out \<le> br_size r"
  shows "err = None \<and> (\<exists>g' r'. (Response_ReadLimitBody env c g r maxBodySize :: (Response \<times> 'e msg_err option \<times> bufreader) panics) =
      Ret (g', None, r') \<and> response_read date p data g' \<and> rd_data r' = rest \<and> rd_err r' = rd_err r \<and> br_wf r')"
proof -
  obtain n body q1 where w: "(Response_Write date q :: bytes \<times> 'e msg_err option \<times> Response) =
      (framed_bytes date (p_Header p) n @ body, None, q1)"
    "n = int (length data) \<and> body = data
       \<or> n = -1 \<and> (\<exists>avail. writeBodyChunked avail \<lparr>rd_data = data, rd_err = EOF\<rparr> = (body, None))"
    using Response_Write_with_body [OF assms(1,3,4)] by blast
  then obtain avail where n: "n = int (length data) \<and> body = data
      \<or> n = -1 \<and> writeBodyChunked avail \<lparr>rd_data = data, rd_err = EOF\<rparr> = (body, None)" by blast
  have out: "out = framed_bytes date (p_Header p) n @ body" "err = None" using w(1) assms(2) by simp_all
  show ?thesis
    using Response_ReadLimitBody_framed [OF assms(3-5) n assms(6-8), of rest env c, where 'e = 'e] assms(9,10) out by auto
qed

definition example_reply :: Response where
  "example_reply = \<lparr>p_Header = example_response, p_ImmediateHeaderFlush = False, p_bodyStream = None, p_body = None,
     p_bodyRaw = None, p_SkipBody = False, p_keepBodyBuffer = False, p_secureErrorLogMessage = False, p_raddr = None,
     p_laddr = None\<rparr>"

theorem Response_write_read_witness:
  "let s = \<lparr>bs_reader = \<lparr>rd_data = bytes_of ''hello'', rd_err = EOF\<rparr>, bs_avail = (\<lambda>_. 2), bs_LimitedReader = None, bs_Closer = None\<rparr>;
       q = Response_SetBodyStream example_reply (Some s) (-1)
   in \<exists>out q' g' r'. (Response_Write (bytes_of ''now'') q :: bytes \<times> unit msg_err option \<times> Response) = (out, None, q')
        \<and> (Response_ReadLimitBody \<lparr>ce_avail = (\<lambda>_. 2), ce_buffered = (\<lambda>_. 1)\<rparr> 0 example_reply
            \<lparr>rd_data = out @ bytes_of ''HTTP'', rd_err = EOF, br_size = length out, br_buffered = 0, br_avail = (\<lambda>_. 3)\<rparr> 10
            :: (Response \<times> unit msg_err option \<times> bufreader) panics) = Ret (g', None, r')
        \<and> nilable (p_body g') = bytes_of ''hello'' \<and> rs_statusCode (p_Header g') = 404 \<and> rd_data r' = bytes_of ''HTTP''"
proof -
  let ?data = "bytes_of ''hello''" and ?date = "bytes_of ''now''"
  let ?s = "\<lparr>bs_reader = \<lparr>rd_data = ?data, rd_err = EOF\<rparr>, bs_avail = (\<lambda>_. 2), bs_LimitedReader = None, bs_Closer = None\<rparr> :: body_stream"
  let ?q = "Response_SetBodyStream example_reply (Some ?s) (-1)"
  have hdr: "p_Header example_reply = example_response" by (simp add: example_reply_def)
  have 1: "response_ok (rs_disableNormalizing (p_Header example_reply)) ?date (p_Header example_reply)"
    unfolding hdr by (rule example_response_ok)
  have 2: "\<not> Response_mustSkipBody example_reply" "\<not> p_SkipBody example_reply"
    unfolding Response_mustSkipBody_def hdr by (simp_all add: example_reply_def) code_simp
  have 3: "response_with_body example_reply ?data ?q" 
    unfolding response_with_body_def by (intro disjI2 exI [of _ ?s] exI [of _ "-1"]) simp
  obtain out q' where w: "(Response_Write ?date ?q :: bytes \<times> unit msg_err option \<times> Response) = (out, None, q')"
    using Response_Write_with_body [OF 3 1 2(1), where 'e = unit] by blast
  let ?r = "\<lparr>rd_data = out @ bytes_of ''HTTP'', rd_err = EOF, br_size = length out, br_buffered = 0, br_avail = (\<lambda>_. 3)\<rparr> :: bufreader"
  have 5: "length ?data + 2 \<le> 2 ^ 31" "10 \<le> (0 :: int) \<or> int (length ?data) \<le> 10" by (simp_all add: bytes_of_def)
  have 6: "br_wf ?r" "length out \<le> br_size ?r" by (simp_all add: br_wf_def)
  have st: "printed_status example_response = 404" by code_simp
  have "\<exists>g' r'. (Response_ReadLimitBody \<lparr>ce_avail = (\<lambda>_. 2), ce_buffered = (\<lambda>_. 1)\<rparr> 0 example_reply ?r 10
        :: (Response \<times> unit msg_err option \<times> bufreader) panics) = Ret (g', None, r')
      \<and> response_read ?date example_reply ?data g' \<and> rd_data r' = bytes_of ''HTTP'' \<and> rd_err r' = rd_err ?r \<and> br_wf r'"
    using Response_write_read [OF 3 w 1 2 5 6(1) _ 6(2), of "bytes_of ''HTTP''"] by simp
  then show ?thesis using w st hdr unfolding Let_def response_read_def by metis
qed


text \<open>
  C33. Bodies are written in pieces: after \<open>SetBody\<close> or \<open>ResetBody\<close>, any run of writes through the
  body writer leaves the concatenation, for requests and responses; \<open>SwapBody\<close> returns what was
  written since the last swap. A body given raw or as a stream is different: the first write
  drops it, and only what is written from then on is kept.
\<close>

theorem message_body_writes:
  "request_body Error (foldl Request_AppendBody (Request_SetBody req b) ps) = b @ concat ps
   \<and> request_body Error (foldl Request_AppendBody (Request_ResetBody req) ps) = concat ps
   \<and> fst (Request_SwapBody Error (foldl Request_AppendBody (snd (Request_SwapBody Error req b)) ps) c) = b @ concat ps
   \<and> request_body Error (Request_AppendBody (Request_SetBodyRaw req (Some raw)) p) = p
   \<and> request_body Error (Request_AppendBody (Request_SetBodyStream req (Some s) n) p) = p
   \<and> response_body Error (foldl Response_AppendBody (Response_SetBody resp b) ps) = b @ concat ps
   \<and> response_body Error (foldl Response_AppendBody (Response_ResetBody resp) ps) = concat ps
   \<and> fst (Response_SwapBody Error (foldl Response_AppendBody (snd (Response_SwapBody Error resp b)) ps) c) = b @ concat ps
   \<and> response_body Error (Response_AppendBody (Response_SetBodyRaw resp (Some raw)) p) = p
   \<and> response_body Error (Response_AppendBody (Response_SetBodyStream resp (Some s) n) p) = p"
  by (intro conjI req.set_appends req.reset_appends req.swap_appends resp.set_appends resp.reset_appends resp.swap_appends)
    (simp_all add: request_body_defs response_body_defs split: option.splits)

text \<open>
  A copy made by \<open>CopyTo\<close> into any other request is written as the same bytes as the original,
  whatever the other request held, when the original has no body stream and no multipart form, and
  its header, not its URI, says where it goes.
\<close>

theorem Request_copy_writes_same:
  assumes "request_kvs_normal req" and "rq_host (q_Header req) \<noteq> []" and "\<not> q_parsedURI req" and "q_bodyStream req = None"
    and "q_multipartForm req = None"
  shows "\<exists>out a b. Request_Write Error lib req = Ret (out, None, a)
    \<and> Request_Write Error lib (Request_CopyTo req dst) = Ret (out, None, b)"
proof -
  note copy = Request_CopyTo_parts [OF assms(1), of dst]
  obtain a where "Request_Write Error lib req =
      Ret (RequestHeader_AppendBytes (message_header req) [] @ message_body req, None, a)"
    using Request_Write_message_bytes [OF assms(2-)] by blast
  moreover obtain b where "Request_Write Error lib (Request_CopyTo req dst) =
      Ret (RequestHeader_AppendBytes (message_header req) [] @ message_body req, None, b)"
    using Request_Write_message_bytes [of "Request_CopyTo req dst" Error lib] copy assms(2,3) by auto
  ultimately show ?thesis by blast
qed

theorem Request_copy_writes_same_witness:
  "\<exists>out a b. Request_Write (\<lambda>_. []) no_forms example_message = Ret (out, None, a)
    \<and> Request_Write (\<lambda>_. []) no_forms (Request_CopyTo example_message (Request_SetBody example_message [1])) = Ret (out, None, b)"
proof -
  have 1: "request_kvs_normal example_message"
    by (simp add: request_kvs_normal_def kvs_normal_def example_message_def example_request_def set_kv_def norm_kv_def)
  show ?thesis
    by (rule Request_copy_writes_same [OF 1]) (simp_all add: example_message_def example_request_def bytes_of_def)
qed

lemma Reset_body [simp]: "nilable (q_body (Request_Reset req)) = []"
  by (simp add: Request_Reset_def)

text \<open>
  Reading with a positive limit: a request that was read without an error has a body buffer within the
  limit, and a request that was not, for whatever reason, has none, so no part of a refused or
  broken body is left in the object.
\<close>

theorem Request_body_within_limit:
  assumes "Request_ReadLimitBody lib env capacity req r maxBodySize = Ret (req', err, r')" and "0 < maxBodySize"
  shows "int (length (nilable (q_body req'))) \<le> (if err = None then maxBodySize else 0)"
proof -
  let ?req = "Request_resetSkipHeader req"
  obtain h e r1 where h: "RequestHeader_Read (q_Header ?req) r = Ret (h, e, r1)"
    using assms(1) by (cases "RequestHeader_Read (q_Header ?req) r") (auto simp: Request_ReadLimitBody_def Let_def)
  show ?thesis
  proof (cases e)
    case (Some x)
    then show ?thesis using assms(1) h by (auto simp: Request_ReadLimitBody_def Let_def)
  next
    case None
    let ?g = "?req\<lparr>q_Header := h\<rparr>"
    show ?thesis
    proof (cases "Request_MayContinue ?g")
      case True
      then have "req' = ?g" "err = None"
        using assms(1) h None by (simp_all add: Request_ReadLimitBody_def Request_readLimitBody_def Let_def)
      then show ?thesis using assms(2) by simp
    next
      case False
      then have c: "Request_ContinueReadBody lib env capacity ?g r1 maxBodySize True = Ret (req', err, r')"
        using assms(1) h None by (simp add: Request_ReadLimitBody_def Request_readLimitBody_def Let_def)
      let ?n = "rq_contentLength h"
      let ?rb = "readBody (ce_avail env) (br_reader r1) ?n maxBodySize capacity"
      have "nilable (q_body req') = [] \<or> (\<exists>b c' r2. ?rb = Ret (b, c', None, r2) \<and> q_body req' = Some b \<and> err = None)"
        using c by (auto simp: Request_ContinueReadBody_def RequestHeader_ContentLength_def Request_bodyBuffer_def Let_def
            split: if_splits panics.splits option.splits sum.splits prod.splits)
      then show ?thesis using readBody_within [OF _ assms(2)] assms(2) by (auto simp: nilable_def)
    qed
  qed
qed


theorem Request_body_within_limit_witness:
  "\<exists>g' r'. Request_ReadLimitBody no_forms \<lparr>ce_avail = (\<lambda>_. 2), ce_buffered = (\<lambda>_. 1)\<rparr> 0 example_message
      \<lparr>rd_data = RequestHeader_AppendBytes (message_header example_message) [] @ message_body example_message,
        rd_err = EOF, br_size = 4096, br_buffered = 0, br_avail = (\<lambda>_. 3)\<rparr> 20 = Ret (g', None, r')
    \<and> int (length (nilable (q_body g'))) \<le> 20"
proof -
  let ?r = "\<lparr>rd_data = RequestHeader_AppendBytes (message_header example_message) [] @ message_body example_message,
      rd_err = EOF, br_size = 4096, br_buffered = 0, br_avail = (\<lambda>_. 3)\<rparr> :: bufreader"
  have body: "int (length (message_body example_message)) \<le> 20"
    by (simp add: message_body_def example_message_def nilable_def bytes_of_def)
  have "length (RequestHeader_AppendBytes (message_header example_message) []) \<le> 4096" by code_simp
  then obtain g' r' where r: "Request_ReadLimitBody no_forms \<lparr>ce_avail = (\<lambda>_. 2), ce_buffered = (\<lambda>_. 1)\<rparr> 0
      example_message ?r 20 = Ret (g', None, r')"
    using Request_read_message [OF example_message_ok, of ?r "[]" 20] body by (fastforce simp: br_wf_def)
  from Request_body_within_limit [OF r] show ?thesis using r by auto
qed

lemma SetCanonical_encoding:
  "ResponseHeader_SetCanonical h strContentEncoding e = h\<lparr>rs_h := setArg (rs_h h) strContentEncoding e argsHasValue\<rparr>"
  by (simp add: ResponseHeader_SetCanonical_def ResponseHeader_setSpecialHeader_def caseInsensitiveCompare_def str_defs Let_def)

lemma peek_encoding: "ResponseHeader_peek h strContentEncoding = nilable (peekArg (rs_h h) strContentEncoding)"
  by (simp add: ResponseHeader_peek_def str_defs)

text \<open>
  Compressing a response whose body is in memory never changes what a client that understands the encoding sees: either
  the response is left as it is, or its Content-Encoding is set and its body decompresses to the
  body it had. A second compression, with whatever compressor, does nothing more.
\<close>

theorem Response_compress_transparent:
  fixes compressStream :: "body_stream \<Rightarrow> body_stream"
  assumes "\<And>b. decompress (compress b) = b" and "encoding \<noteq> []" and "p_bodyStream p = None"
  defines "q \<equiv> Response_compressBody compress compressStream encoding p"
  shows "(q = p \<or> ResponseHeader_peek (p_Header q) strContentEncoding = encoding
            \<and> decompress (nilable (Response_bodyBytes q)) = nilable (Response_bodyBytes p)
            \<and> minCompressLen \<le> length (nilable (Response_bodyBytes p)))
    \<and> (q \<noteq> p \<longrightarrow> Response_compressBody compress' compressStream' encoding' q = q)"
proof -
  let ?bb = "nilable (Response_bodyBytes p)"
  let ?h = "(p_Header p)\<lparr>rs_h := setArg (rs_h (p_Header p)) strContentEncoding encoding argsHasValue\<rparr>"
  have "q = p \<or> q = p\<lparr>p_body := Some (compress ?bb), p_bodyRaw := None, p_Header := ?h\<rparr> \<and> minCompressLen \<le> length ?bb"
    using assms(3) by (auto simp: q_def Response_compressBody_def SetCanonical_encoding Let_def)
  then show ?thesis
  proof
    assume q: "q = p\<lparr>p_body := Some (compress ?bb), p_bodyRaw := None, p_Header := ?h\<rparr> \<and> minCompressLen \<le> length ?bb"
    then have peek: "ResponseHeader_peek (p_Header q) strContentEncoding = encoding"
      using peek_setArg by (simp add: peek_encoding)
    moreover have "nilable (Response_bodyBytes q) = compress ?bb" using q by (simp add: Response_bodyBytes_def nilable_def)
    moreover have "Response_compressBody compress' compressStream' encoding' q = q"
      using peek assms(2) by (simp add: Response_compressBody_def)
    ultimately show ?thesis using q assms(1) by auto
  qed simp
qed

theorem Response_compress_transparent_witness:
  "let p = Response_SetBody example_reply (replicate 300 7);
       q = Response_compressBody (\<lambda>b. rev b) (\<lambda>s. s) strGzip p
   in q \<noteq> p \<and> ResponseHeader_peek (p_Header q) strContentEncoding = strGzip
      \<and> rev (nilable (Response_bodyBytes q)) = nilable (Response_bodyBytes p)"
proof -
  let ?p = "Response_SetBody example_reply (replicate 300 7)"
  let ?q = "Response_compressBody (\<lambda>b. rev b) (\<lambda>s. s) strGzip ?p"
  have 1: "strGzip \<noteq> []" "p_bodyStream ?p = None"
    by (simp_all add: str_defs Response_SetBody_def Response_bodyBuffer_def Response_closeBodyStream_def example_reply_def)
  have hdr: "p_Header ?p = example_response"
    by (simp add: Response_SetBody_def Response_bodyBuffer_def Response_closeBodyStream_def example_reply_def)
  have 2: "ResponseHeader_peek example_response strContentEncoding = []" by code_simp
  have 3: "ResponseHeader_isCompressibleContentType example_response" by code_simp
  have 4: "nilable (Response_bodyBytes ?p) = replicate 300 7"
    by (simp add: Response_SetBody_def Response_bodyBuffer_def Response_closeBodyStream_def Response_bodyBytes_def
        example_reply_def nilable_def)
  have "ResponseHeader_peek (p_Header ?q) strContentEncoding = strGzip"
    using 1(2) 2 3 4 peek_setArg
    by (simp add: Response_compressBody_def hdr minCompressLen_def SetCanonical_encoding peek_encoding Let_def)
  then have ne: "?q \<noteq> ?p" using 2 1(1) hdr by metis
  have "rev (rev b) = b" for b :: bytes by simp
  from Response_compress_transparent [where p = ?p and compressStream = "\<lambda>s. s" and compress = rev and decompress = rev,
      OF this 1] ne
  show ?thesis unfolding Let_def by blast
qed

end
