(* ===== verification/Streaming.thy ===== *)
theory Streaming
  imports MessageIO
begin

text \<open>
  Request bodies that are streamed: \<open>requestStream\<close> of \<^verbatim>\<open>streaming.go\<close> and \<open>ContinueReadBodyStream\<close> of
  \<^verbatim>\<open>http.go\<close>, which prefetches the first part of the body and leaves the rest on the connection. The
  stream and the server share the connection's reader; it is passed along.
\<close>


section \<open>The stream\<close>

text \<open>\<open>st_pos\<close> is the position of the \<^verbatim>\<open>bytes.Reader\<close> over the prefetched bytes.\<close>

record requestStream =
  st_prefetchedBytes :: bytes
  st_pos :: nat
  st_totalBytesRead :: int
  st_contentLength :: int
  st_chunkLeft :: int

definition acquireRequestStream :: "bytes \<Rightarrow> int \<Rightarrow> requestStream" where
  "acquireRequestStream b contentLength =
     \<lparr>st_prefetchedBytes = b, st_pos = 0, st_totalBytesRead = 0, st_contentLength = contentLength, st_chunkLeft = 0\<rparr>"

text \<open>The start of \<open>Read\<close> on a chunked body: the size of the current chunk, or how the stream ends.\<close>

definition requestStream_chunk :: "requestStream \<Rightarrow> reader \<Rightarrow> (body_err + int) \<times> reader" where
  "requestStream_chunk rs r =
     (if st_chunkLeft rs = 0 then
        (case parseChunkSize r of
           (chunkSize, Some err, r) \<Rightarrow> (Inl err, r)
         | (chunkSize, None, r) \<Rightarrow>
             if chunkSize = 0 then
               (case readCrLf r of
                  (Some err, r) \<Rightarrow> (Inl err, r)
                | (None, r) \<Rightarrow> (Inl (BodyIOErr EOF), r))
             else (Inr chunkSize, r))
      else (Inr (st_chunkLeft rs), r))"

definition requestStream_Read_chunked ::
  "(nat \<Rightarrow> nat) \<Rightarrow> requestStream \<Rightarrow> reader \<Rightarrow> nat \<Rightarrow> bytes \<times> body_err option \<times> requestStream \<times> reader" where
  "requestStream_Read_chunked avail rs r len =
     (case requestStream_chunk rs r of
        (Inl err, r) \<Rightarrow> ([], Some err, rs, r)
      | (Inr chunkLeft, r) \<Rightarrow>
          (let bytesToRead = (if chunkLeft < int len then nat chunkLeft else len) in
           case reader_Read avail r bytesToRead of
             (p, err, r) \<Rightarrow>
               (let rs = rs\<lparr>st_totalBytesRead := st_totalBytesRead rs + int (length p),
                            st_chunkLeft := chunkLeft - int (length p)\<rparr>;
                    err = (if err = Some EOF then Some ErrUnexpectedEOF else err)
                in if err = None \<and> st_chunkLeft rs = 0
                   then (case readCrLf r of (err, r) \<Rightarrow> (p, err, rs, r))
                   else (p, map_option BodyIOErr err, rs, r))))"

text \<open>\<open>Panic\<close> is the slice expression \<^verbatim>\<open>p[:left]\<close> with a negative bound.\<close>

definition requestStream_Read ::
  "(nat \<Rightarrow> nat) \<Rightarrow> requestStream \<Rightarrow> reader \<Rightarrow> nat \<Rightarrow> (bytes \<times> body_err option \<times> requestStream \<times> reader) panics" where
  "requestStream_Read avail rs r len =
     (if st_contentLength rs = -1 then Ret (requestStream_Read_chunked avail rs r len)
      else if st_totalBytesRead rs = st_contentLength rs then Ret ([], Some (BodyIOErr EOF), rs, r)
      else
        (let prefetchedSize = int (length (st_prefetchedBytes rs)) in
         if prefetchedSize > st_totalBytesRead rs then
           (let left = prefetchedSize - st_totalBytesRead rs;
                len = (if int len > left then nat left else len);
                rest = drop (st_pos rs) (st_prefetchedBytes rs);
                p = take len rest;
                err = (if rest = [] then Some (BodyIOErr EOF) else None);
                rs = rs\<lparr>st_pos := st_pos rs + length p, st_totalBytesRead := st_totalBytesRead rs + int (length p)\<rparr>
            in if int (length p) = st_contentLength rs then Ret (p, Some (BodyIOErr EOF), rs, r)
               else Ret (p, err, rs, r))
         else
           (let left = st_contentLength rs - st_totalBytesRead rs in
            if int len > left \<and> left < 0 then Panic
            else
              (let len = (if int len > left then nat left else len) in
               case reader_Read avail r len of
                 (p, err, r) \<Rightarrow>
                   (let rs = rs\<lparr>st_totalBytesRead := st_totalBytesRead rs + int (length p)\<rparr> in
                    if err \<noteq> None then Ret (p, map_option BodyIOErr err, rs, r)
                    else Ret (p, if st_totalBytesRead rs = st_contentLength rs then Some (BodyIOErr EOF) else None, rs, r))))))"

definition releaseRequestStream :: "requestStream \<Rightarrow> requestStream" where
  "releaseRequestStream rs = rs\<lparr>st_prefetchedBytes := [], st_pos := 0, st_totalBytesRead := 0, st_chunkLeft := 0\<rparr>"


section \<open>Copying a stream\<close>

text \<open>
  \<open>copyZeroAlloc\<close> on a request stream, as \<open>bodyBytes\<close> uses it: reads of 4096 bytes until the end of
  the stream, which is not an error.
\<close>

partial_function (option) requestStream_copy ::
  "(nat \<Rightarrow> nat) \<Rightarrow> requestStream \<Rightarrow> reader \<Rightarrow> (bytes \<times> body_err option \<times> requestStream \<times> reader) panics option" where
  "requestStream_copy avail rs r =
     (case requestStream_Read avail rs r copyBufSize of
        Panic \<Rightarrow> Some Panic
      | Ret (p, Some err, rs, r) \<Rightarrow> Some (Ret (p, if err = BodyIOErr EOF then None else Some err, rs, r))
      | Ret (p, None, rs, r) \<Rightarrow>
          Option.bind (requestStream_copy avail rs r)
            (\<lambda>res. Some (case res of Panic \<Rightarrow> Panic | Ret (b, err, rs, r) \<Rightarrow> Ret (p @ b, err, rs, r))))"

declare requestStream_copy.simps [code]


section \<open>Reading a request with a streamed body\<close>

text \<open>
  A request whose body is a \<open>requestStream\<close> is the request and the stream; \<open>None\<close> is a request with
  no such stream. A multipart form is read as in \<open>ContinueReadBody\<close>.
\<close>

definition Request_ContinueReadBodyStream ::
  "('f, 'e) multipart_lib \<Rightarrow> conn_env \<Rightarrow> nat \<Rightarrow> 'f Request \<Rightarrow> bufreader \<Rightarrow> int \<Rightarrow> bool
     \<Rightarrow> ('f Request \<times> requestStream option \<times> 'e msg_err option \<times> bufreader) panics" where
  "Request_ContinueReadBodyStream lib env capacity req r maxBodySize preParseMultipartForm =
     (let contentLength = RequestHeader_ContentLength (q_Header req);
          pre = contentLength > 0 \<and> preParseMultipartForm;
          req = (if pre
                 then req\<lparr>q_multipartFormBoundary := nilable (RequestHeader_MultipartFormBoundary (q_Header req))\<rparr>
                 else req)
      in if pre \<and> length (q_multipartFormBoundary req) > 0
            \<and> length (RequestHeader_peek (q_Header req) strContentEncoding) = 0 then
           (case readMultipartForm lib (br_reader r) (q_multipartFormBoundary req) contentLength
                   defaultMaxInMemoryFileSize of
              (Inl err, r') \<Rightarrow> Ret (Request_Reset (req\<lparr>q_multipartForm := None\<rparr>), None, Some err, br_after env r r')
            | (Inr f, r') \<Rightarrow> Ret (req\<lparr>q_multipartForm := Some f\<rparr>, None, None, br_after env r r'))
         else if contentLength = -2 then
           Ret (req\<lparr>q_Header := RequestHeader_SetContentLength (q_Header req) 0\<rparr>, None, None, r)
         else
           (let req = snd (Request_bodyBuffer req) in
            case readBodyWithStreaming (ce_avail env) (br_reader r) contentLength maxBodySize capacity of
              Panic \<Rightarrow> Panic
            | Ret (b, _, None, r') \<Rightarrow>
                Ret (req\<lparr>q_body := Some b, q_Header := RequestHeader_SetContentLength (q_Header req) contentLength\<rparr>,
                     Some (acquireRequestStream b contentLength), None, br_after env r r')
            | Ret (b, _, Some err, r') \<Rightarrow>
                if err = ErrBodyTooLarge then
                  Ret (req\<lparr>q_body := Some b, q_Header := RequestHeader_SetContentLength (q_Header req) contentLength\<rparr>,
                       Some (acquireRequestStream b contentLength), None, br_after env r r')
                else if err = errChunkedStream then
                  Ret (req\<lparr>q_body := Some b\<rparr>, Some (acquireRequestStream b (-1)), None, br_after env r r')
                else Ret (Request_Reset (req\<lparr>q_body := Some b\<rparr>), None, Some (MsgBody err), br_after env r r')))"

definition Request_readBodyStream ::
  "('f, 'e) multipart_lib \<Rightarrow> conn_env \<Rightarrow> nat \<Rightarrow> 'f Request \<Rightarrow> bufreader \<Rightarrow> int \<Rightarrow> bool \<Rightarrow> bool
     \<Rightarrow> ('f Request \<times> requestStream option \<times> 'e msg_err option \<times> bufreader) panics" where
  "Request_readBodyStream lib env capacity req r maxBodySize getOnly preParseMultipartForm =
     (if getOnly \<and> \<not> RequestHeader_IsGet (q_Header req) then Ret (req, None, Some ErrGetOnly, r)
      else if Request_MayContinue req then Ret (req, None, None, r)
      else Request_ContinueReadBodyStream lib env capacity req r maxBodySize preParseMultipartForm)"


section \<open>Streams of known length: lemmas\<close>

lemma copy_step:
  assumes "requestStream_Read avail rs r copyBufSize = Ret (p, None, rs1, r1)"
    and "requestStream_copy avail rs1 r1 = Some (Ret (b, err, rs2, r2))"
  shows "requestStream_copy avail rs r = Some (Ret (p @ b, err, rs2, r2))"
  by (subst requestStream_copy.simps) (simp add: assms)

lemma copy_end:
  assumes "requestStream_Read avail rs r copyBufSize = Ret (p, Some err, rs1, r1)"
  shows "requestStream_copy avail rs r = Some (Ret (p, if err = BodyIOErr EOF then None else Some err, rs1, r1))"
  by (subst requestStream_copy.simps) (simp add: assms)

text \<open>\<open>t\<close> bytes of the stream have been read.\<close>

definition stream_at :: "bytes \<Rightarrow> nat \<Rightarrow> nat \<Rightarrow> requestStream" where
  "stream_at pre n t = \<lparr>st_prefetchedBytes = pre, st_pos = min t (length pre), st_totalBytesRead = int t,
     st_contentLength = int n, st_chunkLeft = 0\<rparr>"

lemma acquire_stream_at: "acquireRequestStream pre (int n) = stream_at pre n 0"
  by (simp add: acquireRequestStream_def stream_at_def)

lemma Read_prefetched:
  assumes "t < length pre" and "length pre \<le> n"
  defines "p \<equiv> take copyBufSize (drop t pre)"
  shows "requestStream_Read avail (stream_at pre n t) r copyBufSize =
    Ret (p, if length p = n then Some (BodyIOErr EOF) else None, stream_at pre n (t + length p), r)"
proof -
  have len: "(if int copyBufSize > int (length pre) - int t then nat (int (length pre) - int t) else copyBufSize) =
      min copyBufSize (length pre - t)" using assms(1) by auto
  have p: "take (min copyBufSize (length pre - t)) (drop t pre) = p" by (simp add: p_def min_def)
  have le: "t + length p \<le> length pre" "drop t pre \<noteq> []" using assms(1) by (simp_all add: p_def)
  have pos: "min t (length pre) = t" "min (t + length p) (length pre) = t + length p" using assms(1) le(1) by simp_all
  show ?thesis using assms(1,2) le(2)
    by (simp only: requestStream_Read_def stream_at_def Let_def requestStream.simps len pos p)
      (simp add: pos)
qed

lemma Read_connection:
  assumes "length pre \<le> t" and "t < n" and "reader_Read avail r (min copyBufSize (n - t)) = (p, err, r')"
  shows "requestStream_Read avail (stream_at pre n t) r copyBufSize =
    Ret (p, if err \<noteq> None then map_option BodyIOErr err else if t + length p = n then Some (BodyIOErr EOF) else None,
         stream_at pre n (t + length p), r')"
proof -
  have "(if int copyBufSize > int n - int t then nat (int n - int t) else copyBufSize) = min copyBufSize (n - t)"
    using assms(2) by auto
  then show ?thesis using assms by (auto simp: requestStream_Read_def stream_at_def Let_def)
qed

lemma copy_fixed:
  assumes "t \<le> n" and "length pre \<le> n"
  defines "k \<equiv> \<lambda>t. n - max t (length pre)"
  shows "\<exists>rs'. requestStream_copy avail (stream_at pre n t) r =
    Some (Ret (drop t pre @ take (k t) (rd_data r),
               if k t \<le> length (rd_data r) \<or> rd_err r = EOF then None else Some (BodyIOErr (rd_err r)),
               rs', r\<lparr>rd_data := drop (k t) (rd_data r)\<rparr>))"
  using assms(1)
proof (induction "n - t" arbitrary: t r rule: less_induct)
  case less
  consider "t = n" | "t < length pre" | "length pre \<le> t" "t < n" using less.prems by linarith
  then show ?case
  proof cases
    case 1
    then have "requestStream_Read avail (stream_at pre n t) r copyBufSize = Ret ([], Some (BodyIOErr EOF), stream_at pre n t, r)"
      by (simp add: requestStream_Read_def stream_at_def)
    from copy_end [OF this] 1 assms(2) show ?thesis by (simp add: k_def)
  next
    case 2
    let ?p = "take copyBufSize (drop t pre)"
    note rd = Read_prefetched [OF 2 assms(2), of avail r]
    show ?thesis
    proof (cases "length ?p = n")
      case True
      then have "t = 0" "length pre = n" using 2 assms(2) by auto
      with True copy_end [of avail "stream_at pre n t" r ?p] rd show ?thesis by (auto simp: k_def)
    next
      case False
      have pos: "0 < length ?p" "t + length ?p \<le> length pre" using 2 by (simp_all add: copyBufSize_def)
      then have lt: "n - (t + length ?p) < n - t" "t + length ?p \<le> n" using 2 assms(2) by linarith+
      obtain rs' where "requestStream_copy avail (stream_at pre n (t + length ?p)) r =
          Some (Ret (drop (t + length ?p) pre @ take (k (t + length ?p)) (rd_data r),
               if k (t + length ?p) \<le> length (rd_data r) \<or> rd_err r = EOF then None else Some (BodyIOErr (rd_err r)),
               rs', r\<lparr>rd_data := drop (k (t + length ?p)) (rd_data r)\<rparr>))"
        using less.hyps [OF lt, of r] by blast
      moreover have "k (t + length ?p) = k t" using pos 2 by (simp add: k_def max_def)
      moreover have "?p @ drop (t + length ?p) pre = drop t pre"
        by (metis append_take_drop_id drop_drop add.commute append_eq_conv_conj length_take take_drop)
      ultimately show ?thesis using copy_step [OF rd [unfolded if_not_P [OF False]]] by (metis append.assoc)
    qed
  next
    case 3
    have kt: "k t = n - t" using 3 by (simp add: k_def max_def)
    let ?len = "min copyBufSize (n - t)"
    obtain p err r' where p: "reader_Read avail r ?len = (p, err, r')" by (cases "reader_Read avail r ?len") auto
    have len: "0 < ?len" using 3 by (simp add: copyBufSize_def)
    note pr = reader_Read_parts [OF p len]
    note rd = Read_connection [OF 3 p]
    have r': "r' = r\<lparr>rd_data := drop (length p) (rd_data r)\<rparr>" by (rule reader.equality) (simp_all add: pr(2,3))
    show ?thesis
    proof (cases "p = []")
      case True
      then have d: "rd_data r = []" "err = Some (rd_err r)" using pr(4,5) by simp_all
      then have "requestStream_Read avail (stream_at pre n t) r copyBufSize =
          Ret ([], Some (BodyIOErr (rd_err r)), stream_at pre n t, r)" using rd True r' by simp
      from copy_end [OF this] show ?thesis using d kt 3 by (auto simp: r' True)
    next
      case ne: False
      show ?thesis
      proof (cases "t + length p = n")
        case True
        then have "n - t = length p" by simp
        moreover have "take (length p) (rd_data r) = p" "length p \<le> length (rd_data r)" using pr(2) by simp_all
        ultimately show ?thesis using copy_end [of avail "stream_at pre n t" r p] rd ne True pr(5) r' kt 3 by auto
      next
        case False
        have more: "t + length p < n" using False pr(1) 3(2) by auto
        have "0 < length p" using ne by simp
        then have lt: "n - (t + length p) < n - t" "t + length p \<le> n" using more by linarith+
        obtain rs' where "requestStream_copy avail (stream_at pre n (t + length p)) r' =
            Some (Ret (drop (t + length p) pre @ take (k (t + length p)) (rd_data r'),
               if k (t + length p) \<le> length (rd_data r') \<or> rd_err r' = EOF then None else Some (BodyIOErr (rd_err r')),
               rs', r'\<lparr>rd_data := drop (k (t + length p)) (rd_data r')\<rparr>))"
          using less.hyps [OF lt, of r'] by blast
        moreover have "max (t + length p) (length pre) = t + length p" using 3(1) by simp
        then have "k (t + length p) = n - t - length p" by (simp add: k_def)
        moreover have "take (n - t) (rd_data r) = p @ take (n - t - length p) (rd_data r')"
          "drop (n - t) (rd_data r) = drop (n - t - length p) (rd_data r')"
          "n - t - length p \<le> length (rd_data r') \<longleftrightarrow> n - t \<le> length (rd_data r)"
          using pr(2) more by auto
        moreover have "r'\<lparr>rd_data := x\<rparr> = r\<lparr>rd_data := x\<rparr>" for x by (simp add: r')
        ultimately show ?thesis
          using copy_step [of avail "stream_at pre n t" r p "stream_at pre n (t + length p)" r'] rd ne False pr(3,5) kt 3 by auto
      qed
    qed
  qed
qed


section \<open>Chunked streams: lemmas\<close>

text \<open>The connection in the middle of a chunk of which \<open>x\<close> is still to come, or between chunks.\<close>

definition in_chunk :: "bytes \<Rightarrow> bytes \<Rightarrow> bytes" where
  "in_chunk x rest = (if x = [] then rest else x @ 13 # 10 # rest)"

definition chunk_state :: "bytes \<Rightarrow> requestStream \<Rightarrow> bool" where
  "chunk_state x rs \<longleftrightarrow> st_contentLength rs = -1 \<and> st_chunkLeft rs = int (length x)"

lemma readCrLf_print: "readCrLf \<lparr>rd_data = 13 # 10 # rest, rd_err = e\<rparr> = (None, \<lparr>rd_data = rest, rd_err = e\<rparr>)"
  by (simp add: readCrLf_def reader_ReadByte_def)

lemma Read_in_chunk:
  assumes "chunk_state x rs" and "x \<noteq> []"
  obtains p x' rs' where "x = p @ x'" and "p \<noteq> []" and "chunk_state x' rs'"
    and "requestStream_Read avail rs \<lparr>rd_data = in_chunk x rest, rd_err = e\<rparr> copyBufSize =
      Ret (p, None, rs', \<lparr>rd_data = in_chunk x' rest, rd_err = e\<rparr>)"
proof -
  let ?r = "\<lparr>rd_data = x @ 13 # 10 # rest, rd_err = e\<rparr>"
  let ?len = "if st_chunkLeft rs < int copyBufSize then nat (st_chunkLeft rs) else copyBufSize"
  have len: "?len = min (length x) copyBufSize" using assms(1) by (auto simp: chunk_state_def)
  obtain p err r1 where p: "reader_Read avail ?r ?len = (p, err, r1)" by (cases "reader_Read avail ?r ?len") auto
  have "0 < ?len" unfolding len using assms(2) by (simp add: copyBufSize_def)
  note pr = reader_Read_parts [OF p this]
  have ne: "p \<noteq> []" "err = None" using pr(4,5) by auto
  have le: "length p \<le> length x" using pr(1) unfolding len by simp
  have "x @ 13 # 10 # rest = p @ rd_data r1" using pr(2) by simp
  then obtain x' where x: "x = p @ x'" and rest: "rd_data r1 = x' @ 13 # 10 # rest"
    using le by (auto simp: append_eq_append_conv2)
  have r1: "r1 = \<lparr>rd_data = x' @ 13 # 10 # rest, rd_err = e\<rparr>"
    using rest pr(3) by (intro reader.equality) simp_all
  let ?rs = "rs\<lparr>st_totalBytesRead := st_totalBytesRead rs + int (length p), st_chunkLeft := st_chunkLeft rs - int (length p)\<rparr>"
  have st: "chunk_state x' ?rs" using assms(1) x le by (auto simp: chunk_state_def)
  have "requestStream_chunk rs ?r = (Inr (st_chunkLeft rs), ?r)"
    using assms by (simp add: requestStream_chunk_def chunk_state_def)
  then have "requestStream_Read_chunked avail rs ?r copyBufSize =
      (if x' = [] then (p, None, ?rs, \<lparr>rd_data = rest, rd_err = e\<rparr>) else (p, None, ?rs, r1))"
    using p ne r1 st readCrLf_print [of rest e]
    by (auto simp: requestStream_Read_chunked_def chunk_state_def Let_def)
  then show thesis
    using assms(1,2) x ne(1) st r1
    by (intro that [of p x' ?rs]) (auto simp: requestStream_Read_def chunk_state_def in_chunk_def)
qed

lemma Read_next_chunk:
  assumes "chunk_state [] rs" and "b \<noteq> []" and "length b < 2 ^ 60"
  defines "rs' \<equiv> rs\<lparr>st_chunkLeft := int (length b)\<rparr>"
  shows "chunk_state b rs'" and "requestStream_Read avail rs \<lparr>rd_data = writeChunk b @ rest, rd_err = e\<rparr> len =
    requestStream_Read avail rs' \<lparr>rd_data = in_chunk b rest, rd_err = e\<rparr> len"
proof -
  have "requestStream_chunk rs \<lparr>rd_data = writeChunk b @ rest, rd_err = e\<rparr> =
      (Inr (int (length b)), \<lparr>rd_data = in_chunk b rest, rd_err = e\<rparr>)"
    using assms(1,2) parseChunkSize_print [OF assms(3), of "b @ 13 # 10 # rest" e]
    by (simp add: requestStream_chunk_def chunk_state_def writeChunk_eq in_chunk_def)
  moreover have "requestStream_chunk rs' \<lparr>rd_data = in_chunk b rest, rd_err = e\<rparr> =
      (Inr (int (length b)), \<lparr>rd_data = in_chunk b rest, rd_err = e\<rparr>)"
    using assms(2) by (simp add: requestStream_chunk_def rs'_def)
  ultimately show "requestStream_Read avail rs \<lparr>rd_data = writeChunk b @ rest, rd_err = e\<rparr> len =
      requestStream_Read avail rs' \<lparr>rd_data = in_chunk b rest, rd_err = e\<rparr> len"
    using assms(1)
    by (simp add: requestStream_Read_def requestStream_Read_chunked_def chunk_state_def rs'_def Let_def)
  show "chunk_state b rs'" using assms(1) by (simp add: rs'_def chunk_state_def)
qed

lemma Read_last_chunk:
  assumes "chunk_state [] rs"
  shows "requestStream_Read avail rs \<lparr>rd_data = writeChunk [] @ rest, rd_err = e\<rparr> len =
    Ret ([], Some (BodyIOErr EOF), rs, \<lparr>rd_data = rest, rd_err = e\<rparr>)"
  using assms parseChunkSize_print [of 0 "13 # 10 # rest" e] readCrLf_print [of rest e]
  by (simp add: requestStream_Read_def requestStream_Read_chunked_def requestStream_chunk_def chunk_state_def writeChunk_eq)

lemma copy_chunked:
  assumes "chunk_state x rs" and "\<And>b. b \<in> set bs \<Longrightarrow> b \<noteq> [] \<and> length b < 2 ^ 60"
  shows "\<exists>rs'. requestStream_copy avail rs
      \<lparr>rd_data = in_chunk x (concat (map writeChunk bs) @ writeChunk [] @ rest), rd_err = e\<rparr> =
    Some (Ret (x @ concat bs, None, rs', \<lparr>rd_data = rest, rd_err = e\<rparr>))"
  using assms
proof (induction "length (x @ concat bs)" arbitrary: x bs rs rule: less_induct)
  case less
  show ?case
  proof (cases "x = [] \<and> bs = []")
    case True
    then show ?thesis using copy_end [OF Read_last_chunk [of rs avail rest e]] less.prems(1) by (auto simp: in_chunk_def)
  next
    case False
    obtain y bs' rs1 where y: "y \<noteq> []" "x @ concat bs = y @ concat bs'" "set bs' \<subseteq> set bs" "chunk_state y rs1"
      "requestStream_Read avail rs \<lparr>rd_data = in_chunk x (concat (map writeChunk bs) @ writeChunk [] @ rest), rd_err = e\<rparr> copyBufSize =
       requestStream_Read avail rs1 \<lparr>rd_data = in_chunk y (concat (map writeChunk bs') @ writeChunk [] @ rest), rd_err = e\<rparr> copyBufSize"
    proof (cases "x = []")
      case True
      then obtain b bs' where bs: "bs = b # bs'" using False by (cases bs) auto
      then have b: "b \<noteq> []" "length b < 2 ^ 60" using less.prems(2) by auto
      have st: "chunk_state [] rs" using less.prems(1) True by simp
      note n = Read_next_chunk [OF st b]
      from n(2) [of avail "concat (map writeChunk bs') @ writeChunk [] @ rest" e copyBufSize]
      show thesis using True bs b(1) n(1)
        by (intro that [of b bs' "rs\<lparr>st_chunkLeft := int (length b)\<rparr>"]) (auto simp: in_chunk_def)
    qed (use less.prems(1) in \<open>auto intro: that [of x bs rs]\<close>)
    let ?tail = "concat (map writeChunk bs') @ writeChunk [] @ rest"
    obtain p y' rs2 where p: "y = p @ y'" "p \<noteq> []" "chunk_state y' rs2"
      "requestStream_Read avail rs1 \<lparr>rd_data = in_chunk y ?tail, rd_err = e\<rparr> copyBufSize =
        Ret (p, None, rs2, \<lparr>rd_data = in_chunk y' ?tail, rd_err = e\<rparr>)"
      by (rule Read_in_chunk [OF y(4,1), of avail ?tail e]) (rule that)
    have "length (y' @ concat bs') < length (x @ concat bs)" using p(1,2) y(2) by simp
    then obtain rs3 where "requestStream_copy avail rs2 \<lparr>rd_data = in_chunk y' ?tail, rd_err = e\<rparr> =
        Some (Ret (y' @ concat bs', None, rs3, \<lparr>rd_data = rest, rd_err = e\<rparr>))"
      using less.hyps [of y' bs' rs2] p(3) less.prems(2) y(3) by blast
    from copy_step [OF y(5) [unfolded p(4)] this] show ?thesis using y(2) p(1) by auto
  qed
qed


section \<open>Properties\<close>

lemma prefetch_fixed:
  assumes "rd_data r = data @ rest" and "int (length data) \<le> maxBodySize"
  shows "\<exists>c'. readBodyWithStreaming avail r (int (length data)) maxBodySize c =
    Ret (take 8192 data, c', None, r\<lparr>rd_data := drop 8192 data @ rest\<rparr>)"
proof -
  define k where "k = min (length data) 8192"
  have kb: "k \<le> length (rd_data r)" "k \<le> 2 ^ 31" using assms(1) by (simp_all add: k_def)
  have parts: "take k (rd_data r) = take 8192 data" "drop k (rd_data r) = drop 8192 data @ rest"
    using assms(1) by (auto simp: k_def min_def)
  define m where "m = (if maxBodySize > int (length data) then int (length data) else maxBodySize)"
  have m: "nat (if m > 8 * 1024 then 8 * 1024 else m) = k" using assms(2) by (auto simp: m_def k_def)
  obtain c' where "appendBodyFixedSize avail r [] c k = Ret (take 8192 data, c', None, r\<lparr>rd_data := drop 8192 data @ rest\<rparr>)"
    using appendBodyFixedSize_spec [of "[]" k avail r c] kb parts by auto
  then show ?thesis using assms(2) unfolding readBodyWithStreaming_def Let_def m_def [symmetric] m by auto
qed

lemma example_no_form: "RequestHeader_MultipartFormBoundary (RequestHeader_SetContentLength example_request n) = None"
  by (simp add: RequestHeader_MultipartFormBoundary_def RequestHeader_ContentType_def RequestHeader_SetContentLength_def
      example_request_def str_defs Let_def)

text \<open>
  C20. A handler that reads the whole body stream of a request gets the body and nothing else, and
  the connection is left at the first byte after it: for a body of known length within the
  limit, of which up to 8192 bytes were prefetched, and for a chunked body of any size, however
  the bytes arrive.
\<close>

theorem streamed_body_correct:
  assumes "RequestHeader_MultipartFormBoundary (q_Header req) = None" and "rq_contentLength (q_Header req) = n"
    and "n = int (length data) \<and> out = data \<and> n \<le> maxBodySize
      \<or> n = -1 \<and> writeBodyChunked avail' \<lparr>rd_data = data, rd_err = EOF\<rparr> = (out, None)"
    and "rd_data r = out @ rest"
  shows "\<exists>req' st r' st'. Request_ContinueReadBodyStream lib env capacity req r maxBodySize pre = Ret (req', Some st, None, r')
    \<and> requestStream_copy avail st (br_reader r') = Some (Ret (data, None, st', \<lparr>rd_data = rest, rd_err = rd_err r\<rparr>))"
proof (cases "n = -1")
  case False
  then have n: "n = int (length data)" "out = data" "n \<le> maxBodySize" using assms(3) by auto
  let ?p = "take 8192 data"
  obtain c' where rb: "readBodyWithStreaming (ce_avail env) (br_reader r) n maxBodySize capacity =
      Ret (?p, c', None, (br_reader r)\<lparr>rd_data := drop 8192 data @ rest\<rparr>)"
    using prefetch_fixed [of "br_reader r" data rest maxBodySize] assms(4) n by (fastforce simp: br_reader_def)
  let ?r = "\<lparr>rd_data = drop 8192 data @ rest, rd_err = rd_err r\<rparr>"
  let ?k = "length data - max 0 (length ?p)"
  have "?k = length (drop 8192 data)" by (simp add: min_def)
  then have tail: "take ?k (drop 8192 data @ rest) = drop 8192 data" "drop ?k (drop 8192 data @ rest) = rest"
    "?k \<le> length (drop 8192 data @ rest)" by (simp_all only: append_eq_conv_conj [symmetric] take_append drop_append) simp_all
  obtain st' where "requestStream_copy avail (stream_at ?p (length data) 0) ?r = Some (Ret (data, None, st', \<lparr>rd_data = rest, rd_err = rd_err r\<rparr>))"
    using copy_fixed [of 0 "length data" ?p avail ?r] tail by auto
  moreover have "\<exists>req' r'. Request_ContinueReadBodyStream lib env capacity req r maxBodySize pre =
      Ret (req', Some (acquireRequestStream ?p (int (length data))), None, r') \<and> br_reader r' = ?r"
    using rb assms(1,2) False n(1)
    by (auto simp: Request_ContinueReadBodyStream_def RequestHeader_ContentLength_def Request_bodyBuffer_def nilable_def
        br_reader_def br_after_wf Let_def)
  ultimately show ?thesis unfolding acquire_stream_at by metis
next
  case True
  with assms(3) have "writeBodyChunked avail' \<lparr>rd_data = data, rd_err = EOF\<rparr> = (out, None)" by simp
  then obtain bs where bs: "\<forall>b \<in> set bs. b \<noteq> [] \<and> length b \<le> copyBufSize" "concat bs = data"
    "out = concat (map writeChunk bs) @ writeChunk []"
    using writeBodyChunked_chunks [of "\<lparr>rd_data = data, rd_err = EOF\<rparr>" avail'] by auto
  let ?r = "\<lparr>rd_data = out @ rest, rd_err = rd_err r\<rparr>"
  have "chunk_state [] (acquireRequestStream [] (-1))" by (simp add: chunk_state_def acquireRequestStream_def)
  moreover have "b \<noteq> [] \<and> length b < 2 ^ 60" if "b \<in> set bs" for b using bs(1) that by (fastforce simp: copyBufSize_def)
  ultimately obtain st' where "requestStream_copy avail (acquireRequestStream [] (-1)) ?r =
      Some (Ret (data, None, st', \<lparr>rd_data = rest, rd_err = rd_err r\<rparr>))"
    using copy_chunked [of "[]" "acquireRequestStream [] (-1)" bs avail rest "rd_err r"] bs(2,3) by (auto simp: in_chunk_def)
  moreover have "\<exists>req' r'. Request_ContinueReadBodyStream lib env capacity req r maxBodySize pre =
      Ret (req', Some (acquireRequestStream [] (-1)), None, r') \<and> br_reader r' = ?r"
    using True assms(2,4)
    by (auto simp: Request_ContinueReadBodyStream_def RequestHeader_ContentLength_def Request_bodyBuffer_def
        readBodyWithStreaming_def br_reader_def br_after_wf Let_def)
  ultimately show ?thesis by metis
qed

theorem streamed_body_correct_witness:
  "let hdr = RequestHeader_SetContentLength example_request 5;
       req = example_message\<lparr>q_Header := hdr\<rparr>;
       r = \<lparr>rd_data = bytes_of ''helloGET'', rd_err = EOF, br_size = 4096, br_buffered = 0, br_avail = (\<lambda>_. 3)\<rparr>
   in \<exists>req' st r' st'. Request_ContinueReadBodyStream no_forms \<lparr>ce_avail = (\<lambda>_. 2), ce_buffered = (\<lambda>_. 1)\<rparr> 0 req r 10 False =
          Ret (req', Some st, None, r')
        \<and> requestStream_copy (\<lambda>_. 1) st (br_reader r') =
            Some (Ret (bytes_of ''hello'', None, st', \<lparr>rd_data = bytes_of ''GET'', rd_err = EOF\<rparr>))"
proof -
  let ?req = "example_message\<lparr>q_Header := RequestHeader_SetContentLength example_request 5\<rparr>"
  let ?r = "\<lparr>rd_data = bytes_of ''helloGET'', rd_err = EOF, br_size = 4096, br_buffered = 0, br_avail = (\<lambda>_. 3)\<rparr> :: bufreader"
  have 1: "RequestHeader_MultipartFormBoundary (q_Header ?req) = None" using example_no_form by simp
  have 2: "rq_contentLength (q_Header ?req) = 5" by (simp add: RequestHeader_SetContentLength_def Let_def)
  have 3: "5 = int (length (bytes_of ''hello'')) \<and> bytes_of ''hello'' = bytes_of ''hello'' \<and> 5 \<le> (10 :: int)
      \<or> (5 :: int) = -1 \<and> writeBodyChunked (\<lambda>_. 1) \<lparr>rd_data = bytes_of ''hello'', rd_err = EOF\<rparr> = (bytes_of ''hello'', None)"
    by (simp add: bytes_of_def)
  have 4: "rd_data ?r = bytes_of ''hello'' @ bytes_of ''GET''" by (simp add: bytes_of_def)
  show ?thesis unfolding Let_def using streamed_body_correct [OF 1 2 3 4] by simp
qed

text \<open>
  A connection that is closed in the middle of a body of known length: \<open>readBody\<close> reports an
  unexpected end, but the stream reports a normal end, so a handler takes the truncated body
  for the whole one.
\<close>

theorem truncated_stream_unnoticed:
  assumes "length pre + length data < n" and "n \<le> 2 ^ 31" and "maxBodySize \<le> 0 \<or> int n \<le> maxBodySize"
  shows "(\<exists>st' r'. requestStream_copy avail (acquireRequestStream pre (int n)) \<lparr>rd_data = data, rd_err = EOF\<rparr> =
      Some (Ret (pre @ data, None, st', r')))
    \<and> (\<exists>c' r'. readBody avail \<lparr>rd_data = pre @ data, rd_err = EOF\<rparr> (int n) maxBodySize c =
      Ret (pre @ data, c', Some (BodyIOErr ErrUnexpectedEOF), r'))"
proof -
  let ?r = "\<lparr>rd_data = data, rd_err = EOF\<rparr>"
  have "length pre \<le> n" "min (n - length pre) (length data) = length data" using assms(1) by auto
  then have "\<exists>st'. requestStream_copy avail (stream_at pre n 0) ?r = Some (Ret (pre @ data, None, st', ?r\<lparr>rd_data := []\<rparr>))"
    using copy_fixed [of 0 n pre avail ?r] assms(1) by simp
  moreover have "\<exists>c' r'. readBody avail \<lparr>rd_data = pre @ data, rd_err = EOF\<rparr> (int n) maxBodySize c =
      Ret (pre @ data, c', Some (BodyIOErr ErrUnexpectedEOF), r')"
    using appendBodyFixedSize_spec [of "[]" n avail "\<lparr>rd_data = pre @ data, rd_err = EOF\<rparr>" c] assms
    by (auto simp: readBody_def unexpected_def)
  ultimately show ?thesis unfolding acquire_stream_at by blast
qed

theorem truncated_stream_unnoticed_witness:
  "\<exists>st' r'. requestStream_copy (\<lambda>_. 1) (acquireRequestStream (bytes_of ''he'') (int 5)) \<lparr>rd_data = bytes_of ''l'', rd_err = EOF\<rparr> =
      Some (Ret (bytes_of ''hel'', None, st', r'))"
  using truncated_stream_unnoticed [of "bytes_of ''he''" "bytes_of ''l''" 5 0 "\<lambda>_. 1" 0] by (simp add: bytes_of_def)

text \<open>
  C39. A streamed body longer than the limit: the prefetch reads whatever is in its buffer, also what
  follows the body. When the body and the start of the next message arrive together, the first
  read of the stream returns both, and the next one panics.
\<close>

theorem stream_overreads:
  assumes "RequestHeader_MultipartFormBoundary (q_Header req) = None" and "rq_contentLength (q_Header req) = int (length data)"
    and "0 < maxBodySize" and "maxBodySize < int (length data)" and "maxBodySize \<le> 8192" and "rest \<noteq> []"
    and "length (data @ rest) \<le> 4096" and "length (data @ rest) \<le> capacity"
    and "length (data @ rest) \<le> ce_avail env (length (data @ rest))" and "rd_data r = data @ rest"
  shows "\<exists>req' st r' st'. Request_ContinueReadBodyStream lib env capacity req r maxBodySize pre = Ret (req', Some st, None, r')
    \<and> requestStream_Read avail st (br_reader r') copyBufSize = Ret (data @ rest, None, st', br_reader r')
    \<and> requestStream_Read avail st' (br_reader r') copyBufSize = Panic"
proof -
  let ?all = "data @ rest"
  have "?all \<noteq> []" using assms(6) by simp
  then have ne: "?all \<noteq> []" "capacity \<noteq> 0" using assms(8) by (auto simp: length_greater_0_conv [symmetric] simp del: length_greater_0_conv)
  have "reader_Read (ce_avail env) (br_reader r) capacity = (?all, None, \<lparr>rd_data = [], rd_err = rd_err r\<rparr>)"
    using assms(6,8,9,10) ne by (simp add: reader_Read_def br_reader_def Let_def min_def max_def)
  then have id: "readBodyIdentity (ce_avail env) (br_reader r) maxBodySize capacity =
      Ret (?all, capacity, Some ErrBodyTooLarge, \<lparr>rd_data = [], rd_err = rd_err r\<rparr>)"
    using assms(3,4) ne by (simp add: readBodyIdentity_def readBodyIdentity_loop.simps [of _ _ _ "[]"] Let_def)
  then have rb: "readBodyWithStreaming (ce_avail env) (br_reader r) (int (length data)) maxBodySize capacity =
      Ret (?all, capacity, Some ErrBodyTooLarge, \<lparr>rd_data = [], rd_err = rd_err r\<rparr>)"
    using assms(3-5) by (simp add: readBodyWithStreaming_def Let_def)
  let ?st = "acquireRequestStream ?all (int (length data))"
  let ?st' = "?st\<lparr>st_pos := length ?all, st_totalBytesRead := int (length ?all)\<rparr>"
  have "requestStream_Read avail ?st q copyBufSize = Ret (?all, None, ?st', q)" for q
    using assms(3,4,6,7) by (auto simp: requestStream_Read_def acquireRequestStream_def copyBufSize_def Let_def)
  moreover have "requestStream_Read avail ?st' q copyBufSize = Panic" for q
    using assms(3,4,6) by (simp add: requestStream_Read_def acquireRequestStream_def copyBufSize_def Let_def)
  moreover have "\<exists>req' r'. Request_ContinueReadBodyStream lib env capacity req r maxBodySize pre = Ret (req', Some ?st, None, r')"
    using rb assms(1-4)
    by (auto simp: Request_ContinueReadBodyStream_def RequestHeader_ContentLength_def Request_bodyBuffer_def nilable_def Let_def)
  ultimately show ?thesis by blast
qed

theorem stream_overreads_witness:
  "\<exists>req' st r' st'. Request_ContinueReadBodyStream no_forms \<lparr>ce_avail = (\<lambda>_. 4096), ce_buffered = (\<lambda>_. 1)\<rparr> 4096
        (example_message\<lparr>q_Header := RequestHeader_SetContentLength example_request 5\<rparr>)
        \<lparr>rd_data = bytes_of ''hello'' @ bytes_of ''GET'', rd_err = EOF, br_size = 4096, br_buffered = 0, br_avail = (\<lambda>_. 3)\<rparr> 3 False =
      Ret (req', Some st, None, r')
    \<and> requestStream_Read (\<lambda>_. 1) st (br_reader r') copyBufSize = Ret (bytes_of ''hello'' @ bytes_of ''GET'', None, st', br_reader r')
    \<and> requestStream_Read (\<lambda>_. 1) st' (br_reader r') copyBufSize = Panic"
proof -
  let ?req = "example_message\<lparr>q_Header := RequestHeader_SetContentLength example_request 5\<rparr>"
  have 1: "RequestHeader_MultipartFormBoundary (q_Header ?req) = None" using example_no_form by simp
  have 2: "rq_contentLength (q_Header ?req) = int (length (bytes_of ''hello''))"
    by (simp add: RequestHeader_SetContentLength_def bytes_of_def Let_def)
  show ?thesis
    by (rule stream_overreads [OF 1 2]) (simp_all add: bytes_of_def)
qed

end
