(* ===== verification/RequestCtx.thy ===== *)
theory RequestCtx
  imports UserData Streaming
begin

text \<open>
  \<open>RequestCtx\<close> of \<^verbatim>\<open>server.go\<close>: what a request handler sees, the operations it has on request and
  response, and the handlers the package wraps around a handler (\<open>TimeoutHandler\<close>,
  \<open>CompressHandler\<close>). A user value has the type \<open>'v\<close>, a hijack handler the type \<open>'h\<close>. A request body
  that is streamed is the field \<open>x_stream\<close>; all other streams are in the request itself.
\<close>


section \<open>The struct\<close>

record ('f, 'v, 'h) RequestCtx =
  x_Request :: "'f Request"
  x_stream :: "requestStream option"
  x_Response :: Response
  x_userValues :: "'v userDataKV slice"
  x_connID :: "64 word"
  x_connRequestNum :: "64 word"
  x_connTime :: int
  x_time :: int
  x_remoteAddr :: "net_addr option"
  x_timeoutResponse :: "Response option"
  x_hijackHandler :: "'h option"
  x_hijackNoResponse :: bool

text \<open>A new response: every field has its zero value.\<close>

definition zeroArgsKV :: argsKV where
  "zeroArgsKV = set_kv [] [] argsHasValue"

definition zeroResponseHeader :: ResponseHeader where
  "zeroResponseHeader = \<lparr>rs_disableNormalizing = False, rs_noHTTP11 = False, rs_connectionClose = False,
     rs_noDefaultContentType = False, rs_noDefaultDate = False, rs_statusCode = 0, rs_contentLength = 0,
     rs_contentLengthBytes = [], rs_secureErrorLogMessage = False, rs_contentType = [], rs_server = [],
     rs_h = slice_empty, rs_bufKV = zeroArgsKV, rs_cookies = slice_empty\<rparr>"

definition zeroResponse :: Response where
  "zeroResponse = \<lparr>p_Header = zeroResponseHeader, p_ImmediateHeaderFlush = False, p_bodyStream = None, p_body = None,
     p_bodyRaw = None, p_SkipBody = False, p_keepBodyBuffer = False, p_secureErrorLogMessage = False,
     p_raddr = None, p_laddr = None\<rparr>"

type_synonym ('f, 'v, 'h) handler = "('f, 'v, 'h) RequestCtx \<Rightarrow> ('f, 'v, 'h) RequestCtx"


section \<open>Hijacking, user values, identity\<close>

definition ctx_Hijack :: "('f, 'v, 'h) RequestCtx \<Rightarrow> 'h \<Rightarrow> ('f, 'v, 'h) RequestCtx" where
  "ctx_Hijack ctx handler = ctx\<lparr>x_hijackHandler := Some handler\<rparr>"

definition ctx_HijackSetNoResponse :: "('f, 'v, 'h) RequestCtx \<Rightarrow> bool \<Rightarrow> ('f, 'v, 'h) RequestCtx" where
  "ctx_HijackSetNoResponse ctx noResponse = ctx\<lparr>x_hijackNoResponse := noResponse\<rparr>"

definition ctx_Hijacked :: "('f, 'v, 'h) RequestCtx \<Rightarrow> bool" where
  "ctx_Hijacked ctx \<longleftrightarrow> x_hijackHandler ctx \<noteq> None"

definition ctx_SetUserValue :: "('f, 'v, 'h) RequestCtx \<Rightarrow> bytes \<Rightarrow> 'v \<Rightarrow> ('f, 'v, 'h) RequestCtx" where
  "ctx_SetUserValue ctx key value = ctx\<lparr>x_userValues := userData_Set (x_userValues ctx) key value\<rparr>"

definition ctx_UserValue :: "('f, 'v, 'h) RequestCtx \<Rightarrow> bytes \<Rightarrow> 'v option" where
  "ctx_UserValue ctx key = userData_Get (x_userValues ctx) key"

definition ctx_VisitUserValues :: "('f, 'v, 'h) RequestCtx \<Rightarrow> (bytes \<times> 'v) list" where
  "ctx_VisitUserValues ctx = map (\<lambda>kv. (ud_key kv, ud_value kv)) (live (x_userValues ctx))"

definition ctx_ResetUserValues ::
  "('v \<Rightarrow> bool) \<Rightarrow> ('f, 'v, 'h) RequestCtx \<Rightarrow> 'v list \<times> ('f, 'v, 'h) RequestCtx" where
  "ctx_ResetUserValues isCloser ctx =
     (case userData_Reset isCloser (x_userValues ctx) of (closed, d) \<Rightarrow> (closed, ctx\<lparr>x_userValues := d\<rparr>))"

definition ctx_ID :: "('f, 'v, 'h) RequestCtx \<Rightarrow> 64 word" where
  "ctx_ID ctx = push_bit 32 (x_connID ctx) OR x_connRequestNum ctx"

definition zeroTCPAddr :: net_addr where
  "zeroTCPAddr = TCPAddr IPv4zero"

text \<open>\<open>c\<close> is the address of the connection's peer, \<open>None\<close> when the context has no connection.\<close>

definition ctx_RemoteAddr :: "('f, 'v, 'h) RequestCtx \<Rightarrow> net_addr option \<Rightarrow> net_addr" where
  "ctx_RemoteAddr ctx c =
     (case x_remoteAddr ctx of
        Some addr \<Rightarrow> addr
      | None \<Rightarrow> (case c of None \<Rightarrow> zeroTCPAddr | Some addr \<Rightarrow> addr))"

definition ctx_SetRemoteAddr :: "('f, 'v, 'h) RequestCtx \<Rightarrow> net_addr option \<Rightarrow> ('f, 'v, 'h) RequestCtx" where
  "ctx_SetRemoteAddr ctx remoteAddr = ctx\<lparr>x_remoteAddr := remoteAddr\<rparr>"

definition addrToIP :: "net_addr \<Rightarrow> bytes" where
  "addrToIP addr = (case addr of TCPAddr ip \<Rightarrow> ip | OtherAddr \<Rightarrow> IPv4zero)"

definition ctx_RemoteIP :: "('f, 'v, 'h) RequestCtx \<Rightarrow> net_addr option \<Rightarrow> bytes" where
  "ctx_RemoteIP ctx c = addrToIP (ctx_RemoteAddr ctx c)"


section \<open>The request\<close>

definition ctx_URI :: "('f, 'v, 'h) RequestCtx \<Rightarrow> URI \<times> ('f, 'v, 'h) RequestCtx" where
  "ctx_URI ctx = (case Request_URI (x_Request ctx) of (u, req) \<Rightarrow> (u, ctx\<lparr>x_Request := req\<rparr>))"

definition ctx_Path :: "('f, 'v, 'h) RequestCtx \<Rightarrow> bytes \<times> ('f, 'v, 'h) RequestCtx" where
  "ctx_Path ctx = (case ctx_URI ctx of (u, ctx) \<Rightarrow> (URI_Path u, ctx))"

definition ctx_Host :: "('f, 'v, 'h) RequestCtx \<Rightarrow> bytes \<times> ('f, 'v, 'h) RequestCtx" where
  "ctx_Host ctx = (case ctx_URI ctx of (u, ctx) \<Rightarrow> (u_host u, ctx))"

definition ctx_QueryArgs :: "('f, 'v, 'h) RequestCtx \<Rightarrow> Args \<times> ('f, 'v, 'h) RequestCtx" where
  "ctx_QueryArgs ctx =
     (case ctx_URI ctx of
        (u, ctx) \<Rightarrow> (case URI_QueryArgs u of (args, u) \<Rightarrow> (args, ctx\<lparr>x_Request := (x_Request ctx)\<lparr>q_uri := u\<rparr>\<rparr>)))"

definition ctx_PostArgs ::
  "(io_err \<Rightarrow> bytes) \<Rightarrow> ('f, 'v, 'h) RequestCtx \<Rightarrow> Args \<times> ('f, 'v, 'h) RequestCtx" where
  "ctx_PostArgs Error ctx =
     (case Request_PostArgs Error (x_Request ctx) of (args, req) \<Rightarrow> (args, ctx\<lparr>x_Request := req\<rparr>))"

text \<open>\<open>formValue\<close> is what the request's multipart form has under the key, \<open>None\<close> when there is no form.\<close>

definition ctx_FormValue ::
  "(io_err \<Rightarrow> bytes) \<Rightarrow> ('f Request \<Rightarrow> bytes \<Rightarrow> bytes list option) \<Rightarrow> ('f, 'v, 'h) RequestCtx \<Rightarrow> bytes
     \<Rightarrow> bytes option \<times> ('f, 'v, 'h) RequestCtx" where
  "ctx_FormValue Error formValue ctx key =
     (let (args, ctx) = ctx_QueryArgs ctx; v = Args_Peek args key in
      if length (nilable v) > 0 then (v, ctx)
      else
        (let (args, ctx) = ctx_PostArgs Error ctx; v = Args_Peek args key in
         if length (nilable v) > 0 then (v, ctx)
         else
           (case formValue (x_Request ctx) key of
              Some (v # vv) \<Rightarrow> (Some v, ctx)
            | _ \<Rightarrow> (None, ctx))))"

definition ctx_IsHead :: "('f, 'v, 'h) RequestCtx \<Rightarrow> bool" where
  "ctx_IsHead ctx = RequestHeader_IsHead (q_Header (x_Request ctx))"

definition ctx_IsGet :: "('f, 'v, 'h) RequestCtx \<Rightarrow> bool" where
  "ctx_IsGet ctx = RequestHeader_IsGet (q_Header (x_Request ctx))"

text \<open>\<open>before\<close> compares dates and \<open>toSecond\<close> cuts one to the second, as package \<^verbatim>\<open>time\<close> does.\<close>

definition ctx_IfModifiedSince ::
  "'t timelib \<Rightarrow> ('t \<Rightarrow> 't \<Rightarrow> bool) \<Rightarrow> ('t \<Rightarrow> 't) \<Rightarrow> ('f, 'v, 'h) RequestCtx \<Rightarrow> 't \<Rightarrow> bool" where
  "ctx_IfModifiedSince tm before toSecond ctx lastModified =
     (let ifModStr = RequestHeader_peek (q_Header (x_Request ctx)) strIfModifiedSince in
      if length ifModStr = 0 then True
      else
        (case ParseHTTPDate tm ifModStr of
           None \<Rightarrow> True
         | Some ifMod \<Rightarrow> before ifMod (toSecond lastModified)))"


section \<open>The response\<close>

definition ctx_SetConnectionClose :: "('f, 'v, 'h) handler" where
  "ctx_SetConnectionClose ctx = ctx\<lparr>x_Response := Response_SetConnectionClose (x_Response ctx)\<rparr>"

definition ctx_SetStatusCode :: "('f, 'v, 'h) RequestCtx \<Rightarrow> int \<Rightarrow> ('f, 'v, 'h) RequestCtx" where
  "ctx_SetStatusCode ctx statusCode = ctx\<lparr>x_Response := Response_SetStatusCode (x_Response ctx) statusCode\<rparr>"

definition ctx_SetContentType :: "('f, 'v, 'h) RequestCtx \<Rightarrow> bytes \<Rightarrow> ('f, 'v, 'h) RequestCtx" where
  "ctx_SetContentType ctx contentType =
     ctx\<lparr>x_Response := (x_Response ctx)\<lparr>p_Header := ResponseHeader_SetContentType (p_Header (x_Response ctx)) contentType\<rparr>\<rparr>"

definition ctx_SetBody :: "('f, 'v, 'h) RequestCtx \<Rightarrow> bytes \<Rightarrow> ('f, 'v, 'h) RequestCtx" where
  "ctx_SetBody ctx body = ctx\<lparr>x_Response := Response_SetBody (x_Response ctx) body\<rparr>"

definition ctx_ResetBody :: "('f, 'v, 'h) handler" where
  "ctx_ResetBody ctx = ctx\<lparr>x_Response := Response_ResetBody (x_Response ctx)\<rparr>"

definition ctx_Write :: "('f, 'v, 'h) RequestCtx \<Rightarrow> bytes \<Rightarrow> ('f, 'v, 'h) RequestCtx" where
  "ctx_Write ctx p = ctx\<lparr>x_Response := Response_AppendBody (x_Response ctx) p\<rparr>"

definition ctx_SetBodyStream ::
  "('f, 'v, 'h) RequestCtx \<Rightarrow> body_stream option \<Rightarrow> int \<Rightarrow> ('f, 'v, 'h) RequestCtx" where
  "ctx_SetBodyStream ctx bodyStream bodySize =
     ctx\<lparr>x_Response := Response_SetBodyStream (x_Response ctx) bodyStream bodySize\<rparr>"

definition ctx_Error :: "('f, 'v, 'h) RequestCtx \<Rightarrow> bytes \<Rightarrow> int \<Rightarrow> ('f, 'v, 'h) RequestCtx" where
  "ctx_Error ctx msg statusCode =
     (let ctx = ctx\<lparr>x_Response := Response_Reset (x_Response ctx)\<rparr>;
          ctx = ctx_SetStatusCode ctx statusCode;
          ctx = ctx_SetContentType ctx defaultContentType
      in ctx_SetBody ctx msg)"

definition ctx_Success :: "('f, 'v, 'h) RequestCtx \<Rightarrow> bytes \<Rightarrow> bytes \<Rightarrow> ('f, 'v, 'h) RequestCtx" where
  "ctx_Success ctx contentType body = ctx_SetBody (ctx_SetContentType ctx contentType) body"

definition ctx_NotModified :: "('f, 'v, 'h) handler" where
  "ctx_NotModified ctx =
     ctx_SetStatusCode (ctx\<lparr>x_Response := Response_Reset (x_Response ctx)\<rparr>) StatusNotModified"

definition ctx_NotFound :: "('f, 'v, 'h) handler" where
  "ctx_NotFound ctx =
     ctx_SetBody (ctx_SetStatusCode (ctx\<lparr>x_Response := Response_Reset (x_Response ctx)\<rparr>) StatusNotFound)
       (bytes_of ''404 Page not found'')"

definition getRedirectStatusCode :: "int \<Rightarrow> int" where
  "getRedirectStatusCode statusCode =
     (if statusCode = StatusMovedPermanently \<or> statusCode = StatusFound \<or> statusCode = StatusSeeOther
         \<or> statusCode = StatusTemporaryRedirect \<or> statusCode = StatusPermanentRedirect
      then statusCode else StatusFound)"

definition ctx_redirect :: "('f, 'v, 'h) RequestCtx \<Rightarrow> bytes \<Rightarrow> int \<Rightarrow> ('f, 'v, 'h) RequestCtx" where
  "ctx_redirect ctx uri statusCode =
     (let resp = x_Response ctx;
          resp = resp\<lparr>p_Header := ResponseHeader_SetCanonical (p_Header resp) strLocation uri\<rparr>
      in ctx\<lparr>x_Response := Response_SetStatusCode resp (getRedirectStatusCode statusCode)\<rparr>)"

text \<open>\<open>None\<close> is the panic of \<open>URI.Update\<close>. The pooled URI has been reset.\<close>

definition ctx_Redirect ::
  "('f, 'v, 'h) RequestCtx \<Rightarrow> bytes \<Rightarrow> int \<Rightarrow> ('f, 'v, 'h) RequestCtx option" where
  "ctx_Redirect ctx uri statusCode =
     (case ctx_URI ctx of
        (u, ctx) \<Rightarrow>
          (case URI_UpdateBytes (URI_CopyTo u empty_uri) uri of
             None \<Rightarrow> None
           | Some u \<Rightarrow> Some (ctx_redirect ctx (fst (URI_FullURI u)) statusCode)))"


section \<open>Timeouts\<close>

definition ctx_TimeoutErrorWithResponse :: "('f, 'v, 'h) RequestCtx \<Rightarrow> Response \<Rightarrow> ('f, 'v, 'h) RequestCtx" where
  "ctx_TimeoutErrorWithResponse ctx resp = ctx\<lparr>x_timeoutResponse := Some (Response_CopyTo resp zeroResponse)\<rparr>"

definition ctx_TimeoutErrorWithCode ::
  "('f, 'v, 'h) RequestCtx \<Rightarrow> bytes \<Rightarrow> int \<Rightarrow> ('f, 'v, 'h) RequestCtx" where
  "ctx_TimeoutErrorWithCode ctx msg statusCode =
     ctx_TimeoutErrorWithResponse ctx (Response_SetBody (Response_SetStatusCode zeroResponse statusCode) msg)"

definition ctx_TimeoutError :: "('f, 'v, 'h) RequestCtx \<Rightarrow> bytes \<Rightarrow> ('f, 'v, 'h) RequestCtx" where
  "ctx_TimeoutError ctx msg = ctx_TimeoutErrorWithCode ctx msg StatusRequestTimeout"

text \<open>
  The wrapped handler runs in a goroutine of its own. \<open>slot\<close> says whether \<open>concurrencyCh\<close> has room,
  \<open>partial\<close> what the goroutine has done to the context when the timer fires, \<open>None\<close> if it is done
  first.
\<close>

definition TimeoutWithCodeHandler ::
  "('f, 'v, 'h) handler \<Rightarrow> int \<Rightarrow> bytes \<Rightarrow> int \<Rightarrow> bool \<Rightarrow> ('f, 'v, 'h) handler option \<Rightarrow> ('f, 'v, 'h) handler" where
  "TimeoutWithCodeHandler h timeout msg statusCode slot partial ctx =
     (if timeout \<le> 0 then h ctx
      else if \<not> slot then ctx_Error ctx msg StatusTooManyRequests
      else
        (case partial of
           None \<Rightarrow> h ctx
         | Some f \<Rightarrow> ctx_TimeoutErrorWithCode (f ctx) msg statusCode))"

definition TimeoutHandler ::
  "('f, 'v, 'h) handler \<Rightarrow> int \<Rightarrow> bytes \<Rightarrow> bool \<Rightarrow> ('f, 'v, 'h) handler option \<Rightarrow> ('f, 'v, 'h) handler" where
  "TimeoutHandler h timeout msg = TimeoutWithCodeHandler h timeout msg StatusRequestTimeout"


section \<open>Compression\<close>

text \<open>The compressors by level: of bytes, and of streams.\<close>

record compressors =
  cs_gzip :: "int \<Rightarrow> bytes \<Rightarrow> bytes"
  cs_gzipStream :: "int \<Rightarrow> body_stream \<Rightarrow> body_stream"
  cs_deflate :: "int \<Rightarrow> bytes \<Rightarrow> bytes"
  cs_deflateStream :: "int \<Rightarrow> body_stream \<Rightarrow> body_stream"
  cs_brotli :: "int \<Rightarrow> bytes \<Rightarrow> bytes"
  cs_brotliStream :: "int \<Rightarrow> body_stream \<Rightarrow> body_stream"

definition CompressHandlerLevel :: "compressors \<Rightarrow> ('f, 'v, 'h) handler \<Rightarrow> int \<Rightarrow> ('f, 'v, 'h) handler" where
  "CompressHandlerLevel cs h level ctx =
     (let ctx = h ctx; accepts = RequestHeader_HasAcceptEncodingBytes (q_Header (x_Request ctx)) in
      if accepts strGzip then
        ctx\<lparr>x_Response := Response_gzipBody (cs_gzip cs) (cs_gzipStream cs) (x_Response ctx) level\<rparr>
      else if accepts strDeflate then
        ctx\<lparr>x_Response := Response_deflateBody (cs_deflate cs) (cs_deflateStream cs) (x_Response ctx) level\<rparr>
      else ctx)"

definition CompressHandlerBrotliLevel ::
  "compressors \<Rightarrow> ('f, 'v, 'h) handler \<Rightarrow> int \<Rightarrow> int \<Rightarrow> ('f, 'v, 'h) handler" where
  "CompressHandlerBrotliLevel cs h brotliLevel otherLevel ctx =
     (let ctx = h ctx; accepts = RequestHeader_HasAcceptEncodingBytes (q_Header (x_Request ctx)) in
      if accepts strBr then
        ctx\<lparr>x_Response := Response_brotliBody (cs_brotli cs) (cs_brotliStream cs) (x_Response ctx) brotliLevel\<rparr>
      else if accepts strGzip then
        ctx\<lparr>x_Response := Response_gzipBody (cs_gzip cs) (cs_gzipStream cs) (x_Response ctx) otherLevel\<rparr>
      else if accepts strDeflate then
        ctx\<lparr>x_Response := Response_deflateBody (cs_deflate cs) (cs_deflateStream cs) (x_Response ctx) otherLevel\<rparr>
      else ctx)"

end
