(* ===== verification/ServeConn.thy ===== *)
theory ServeConn
  imports RequestCtx
begin

text \<open>
  \<open>serveConn\<close> of \<^verbatim>\<open>server.go\<close>: the loop that reads requests from a connection, calls the handler and
  writes the responses, with keep-alive, pipelining, 100-continue, error responses, timed-out and
  hijacked requests.

  The input of a connection is a byte sequence and the error that ends it; how it is cut into reads
  is arbitrary. The output is what the connection has taken (\<open>sc_out\<close>) and what is still in the
  writer's buffer (\<open>sc_bw\<close>). Time enters as the deadlines that are set, which are logged, as are the
  calls of the connection-state hook and of the handler. The handlers and hooks of the application are
  functions; a handler that reads a streamed body says which reads it makes. The method
  \<open>readLoop\<close>, which \<open>serveConn\<close> calls and no file of the repository declares, is an argument.
\<close>


section \<open>Configuration\<close>

record RequestConfig =
  rc_ReadTimeout :: int
  rc_WriteTimeout :: int
  rc_MaxRequestBodySize :: int

record ('f, 'v, 'h, 'e) Server =
  sv_Handler :: "('f, 'v, 'h) RequestCtx \<Rightarrow> bytes \<Rightarrow> ('f, 'v, 'h) RequestCtx"
  sv_reads :: "('f, 'v, 'h) RequestCtx \<Rightarrow> nat list"
  sv_ErrorHandler :: "(('f, 'v, 'h) RequestCtx \<Rightarrow> 'e msg_err \<Rightarrow> ('f, 'v, 'h) RequestCtx) option"
  sv_HeaderReceived :: "(RequestHeader \<Rightarrow> RequestConfig) option"
  sv_ContinueHandler :: "(RequestHeader \<Rightarrow> bool) option"
  sv_Name :: bytes
  sv_DisableKeepalive :: bool
  sv_ReadBufferSize :: int
  sv_WriteBufferSize :: int
  sv_ReadTimeout :: int
  sv_WriteTimeout :: int
  sv_IdleTimeout :: int
  sv_MaxRequestsPerConn :: int
  sv_MaxRequestBodySize :: int
  sv_ReduceMemoryUsage :: bool
  sv_GetOnly :: bool
  sv_DisablePreParseMultipartForm :: bool
  sv_SecureErrorLogMessage :: bool
  sv_DisableHeaderNamesNormalizing :: bool
  sv_NoDefaultServerHeader :: bool
  sv_NoDefaultDate :: bool
  sv_NoDefaultContentType :: bool
  sv_CloseOnShutdown :: bool
  sv_StreamRequestBody :: bool
  sv_nextProtos :: "bytes \<rightharpoonup> io_err option"

text \<open>
  What the connection does: whether it is a TLS connection and what the handshake gives, whether
  setting a deadline fails, and how many bytes the peer takes before a write fails (\<open>None\<close>: all).
\<close>

record conn =
  cn_TLS :: "(io_err + bytes) option"
  cn_deadlineErr :: "io_err option"
  cn_takes :: "nat option"

text \<open>
  What else the loop depends on: the library for forms, how reads are cut, the capacity of the body
  buffers, the Date header, how much of a response stays in the writer's buffer when it does not fit
  or flushes on its way, which context the pool returns, the clock, whether the server is being shut
  down at the two points of a round where it looks, which user values are closers, and \<open>readLoop\<close>.
\<close>

record ('f, 'v, 'h, 'e) serve_env =
  se_lib :: "('f, 'e) multipart_lib"
  se_reads :: conn_env
  se_capacity :: nat
  se_serverDate :: bytes
  se_kept :: "bytes \<Rightarrow> nat"
  se_pick :: "nat \<Rightarrow> nat option"
  se_now :: "nat \<Rightarrow> int"
  se_stopClose :: "nat \<Rightarrow> bool"
  se_stop :: "nat \<Rightarrow> bool"
  se_isCloser :: "'v \<Rightarrow> bool"
  se_readLoop :: "RequestHeader \<Rightarrow> bufreader \<Rightarrow> (RequestHeader \<times> read_err option \<times> bufreader) panics"

datatype ConnState = StateNew | StateActive | StateIdle | StateHijacked | StateClosed

definition ConnState_String :: "ConnState \<Rightarrow> bytes" where
  "ConnState_String c =
     (case c of
        StateNew \<Rightarrow> bytes_of ''new''
      | StateActive \<Rightarrow> bytes_of ''active''
      | StateIdle \<Rightarrow> bytes_of ''idle''
      | StateHijacked \<Rightarrow> bytes_of ''hijacked''
      | StateClosed \<Rightarrow> bytes_of ''closed'')"

text \<open>A hijack handler gets the bytes of the connection that have not been consumed.\<close>

datatype ('f, 'v, 'h) conn_event =
  SetReadDeadline int
  | SetWriteDeadline int
  | ConnStateIs ConnState
  | Handled "('f, 'v, 'h) RequestCtx"
  | HijackedBy 'h bytes

datatype 'e conn_err = ConnHijacked | ConnMsg "'e msg_err" | ConnWrite | ConnIO io_err

text \<open>
  The variables of the loop. The reader is always there; \<open>sc_hasBr\<close> says whether \<open>br\<close> points to it.
  When it does not, nothing is buffered and the bytes are those of the connection.
\<close>

record ('f, 'v, 'h) serving =
  sc_br :: bufreader
  sc_hasBr :: bool
  sc_bw :: "bytes option"
  sc_out :: bytes
  sc_ctx :: "('f, 'v, 'h) RequestCtx"
  sc_ctxNil :: bool
  sc_pool :: "('f, 'v, 'h) RequestCtx list"
  sc_connRequestNum :: nat
  sc_maxRequestBodySize :: int
  sc_writeTimeout :: int
  sc_connectionClose :: bool
  sc_isHTTP11 :: bool
  sc_reqReset :: bool
  sc_continueReadingRequest :: bool
  sc_log :: "('f, 'v, 'h) conn_event list"

text \<open>A part of the loop goes on, leaves the loop with an error or none, or panics.\<close>

datatype ('s, 'e) flow = Go 's | Stop "'e conn_err option" 's | Crash

definition flow_then :: "('s, 'e) flow \<Rightarrow> ('s \<Rightarrow> ('s, 'e) flow) \<Rightarrow> ('s, 'e) flow" where
  "flow_then m f = (case m of Go s \<Rightarrow> f s | Stop err s \<Rightarrow> Stop err s | Crash \<Rightarrow> Crash)"

definition sc_event :: "('f, 'v, 'h) serving \<Rightarrow> ('f, 'v, 'h) conn_event \<Rightarrow> ('f, 'v, 'h) serving" where
  "sc_event st e = st\<lparr>sc_log := sc_log st @ [e]\<rparr>"


section \<open>Readers, writers and contexts\<close>

definition defaultReadBufferSize :: int where
  "defaultReadBufferSize = 4096"

definition defaultWriteBufferSize :: int where
  "defaultWriteBufferSize = 4096"

text \<open>\<open>bufio\<close> readers have at least 16 bytes.\<close>

definition acquireReader :: "('f, 'v, 'h, 'e) Server \<Rightarrow> ('f, 'v, 'h) serving \<Rightarrow> ('f, 'v, 'h) serving" where
  "acquireReader s st =
     (let n = sv_ReadBufferSize s; n = (if n \<le> 0 then defaultReadBufferSize else n)
      in st\<lparr>sc_br := (sc_br st)\<lparr>br_size := max 16 (nat n), br_buffered := 0\<rparr>, sc_hasBr := True\<rparr>)"

text \<open>What is in the buffer of a reader that is given back or reset is lost.\<close>

definition br_Reset :: "bufreader \<Rightarrow> bufreader" where
  "br_Reset r = r\<lparr>rd_data := drop (br_buffered r) (rd_data r), br_buffered := 0\<rparr>"

definition releaseReader :: "('f, 'v, 'h) serving \<Rightarrow> ('f, 'v, 'h) serving" where
  "releaseReader st = st\<lparr>sc_br := br_Reset (sc_br st), sc_hasBr := False\<rparr>"

definition acquireWriter :: "('f, 'v, 'h) serving \<Rightarrow> ('f, 'v, 'h) serving" where
  "acquireWriter st = (if sc_bw st = None then st\<lparr>sc_bw := Some []\<rparr> else st)"

definition releaseWriter :: "('f, 'v, 'h) serving \<Rightarrow> ('f, 'v, 'h) serving" where
  "releaseWriter st = st\<lparr>sc_bw := None\<rparr>"

text \<open>The connection takes bytes, or fails and has taken some of them.\<close>

definition conn_Write :: "conn \<Rightarrow> bytes \<Rightarrow> bytes \<Rightarrow> bool \<times> bytes" where
  "conn_Write c out p =
     (case cn_takes c of
        None \<Rightarrow> (True, out @ p)
      | Some n \<Rightarrow> (length out + length p \<le> n, out @ take (n - length out) p))"

definition bw_size :: "('f, 'v, 'h, 'e) Server \<Rightarrow> nat" where
  "bw_size s = (let n = sv_WriteBufferSize s in nat (if n \<le> 0 then defaultWriteBufferSize else n))"

text \<open>
  Writing to the buffered writer: what fits stays in the buffer. Otherwise, and when the bytes come
  from a body stream, which flushes on its way, the environment says how much is left in it.
\<close>

definition bw_Write ::
  "('f, 'v, 'h, 'e) Server \<Rightarrow> conn \<Rightarrow> ('f, 'v, 'h, 'e) serve_env \<Rightarrow> bool \<Rightarrow> bytes \<Rightarrow> ('f, 'v, 'h) serving
     \<Rightarrow> bool \<times> ('f, 'v, 'h) serving" where
  "bw_Write s c E flushes p st =
     (let buf = nilable (sc_bw st) @ p in
      if length buf \<le> bw_size s \<and> \<not> flushes then (True, st\<lparr>sc_bw := Some buf\<rparr>)
      else
        (let n = length buf - min (se_kept E buf) (bw_size s) in
         case conn_Write c (sc_out st) (take n buf) of
           (ok, out) \<Rightarrow> (ok, st\<lparr>sc_out := out, sc_bw := Some (drop n buf)\<rparr>)))"

definition bw_Flush :: "conn \<Rightarrow> ('f, 'v, 'h) serving \<Rightarrow> bool \<times> ('f, 'v, 'h) serving" where
  "bw_Flush c st =
     (case conn_Write c (sc_out st) (nilable (sc_bw st)) of
        (ok, out) \<Rightarrow> (ok, st\<lparr>sc_out := out, sc_bw := Some []\<rparr>))"

definition flush_flow :: "conn \<Rightarrow> ('f, 'v, 'h) serving \<Rightarrow> (('f, 'v, 'h) serving, 'e) flow" where
  "flush_flow c st = (case bw_Flush c st of (True, st) \<Rightarrow> Go st | (False, st) \<Rightarrow> Stop (Some ConnWrite) st)"

text \<open>A new context has zero values.\<close>

definition zeroRequestHeader :: RequestHeader where
  "zeroRequestHeader = \<lparr>rq_disableNormalizing = False, rq_noHTTP11 = False, rq_connectionClose = False,
     rq_cookiesCollected = False, rq_contentLength = 0, rq_contentLengthBytes = [], rq_secureErrorLogMessage = False,
     rq_method = [], rq_requestURI = [], rq_proto = [], rq_host = [], rq_contentType = [], rq_userAgent = [],
     rq_h = slice_empty, rq_bufKV = zeroArgsKV, rq_cookies = slice_empty, rq_rawHeaders = []\<rparr>"

definition zeroRequest :: "'f Request" where
  "zeroRequest = \<lparr>q_Header = zeroRequestHeader, q_uri = empty_uri, q_postArgs = \<lparr>a_args = slice_empty, a_buf = []\<rparr>, q_bodyStream = None,
     q_body = None, q_bodyRaw = None, q_multipartForm = None, q_multipartFormBoundary = [],
     q_secureErrorLogMessage = False, q_parsedURI = False, q_parsedPostArgs = False, q_keepBodyBuffer = False,
     q_isTLS = False, q_timeout = 0\<rparr>"

definition newCtx :: "('f, 'v, 'h, 'e) Server \<Rightarrow> ('f, 'v, 'h) RequestCtx" where
  "newCtx s =
     (let keepBodyBuffer = \<not> sv_ReduceMemoryUsage s
      in \<lparr>x_Request = zeroRequest\<lparr>q_keepBodyBuffer := keepBodyBuffer\<rparr>, x_stream = None,
          x_Response = zeroResponse\<lparr>p_keepBodyBuffer := keepBodyBuffer\<rparr>, x_userValues = slice_empty,
          x_connID = 0, x_connRequestNum = 0, x_connTime = 0, x_time = 0, x_remoteAddr = None,
          x_timeoutResponse = None, x_hijackHandler = None, x_hijackNoResponse = False\<rparr>)"

definition acquireCtx ::
  "('f, 'v, 'h, 'e) Server \<Rightarrow> ('f, 'v, 'h, 'e) serve_env \<Rightarrow> ('f, 'v, 'h) RequestCtx list
     \<Rightarrow> ('f, 'v, 'h) RequestCtx \<times> ('f, 'v, 'h) RequestCtx list" where
  "acquireCtx s E pool =
     (case se_pick E (length pool) of
        Some i \<Rightarrow> if i < length pool then (pool ! i, take i pool @ drop (Suc i) pool) else (newCtx s, pool)
      | None \<Rightarrow> (newCtx s, pool))"

definition releaseCtx ::
  "('f, 'v, 'h, 'e) serve_env \<Rightarrow> ('f, 'v, 'h) RequestCtx \<Rightarrow> ('f, 'v, 'h) RequestCtx list
     \<Rightarrow> ('f, 'v, 'h) RequestCtx list panics" where
  "releaseCtx E ctx pool =
     (if x_timeoutResponse ctx \<noteq> None then Panic
      else Ret (snd (ctx_ResetUserValues (se_isCloser E) (ctx\<lparr>x_remoteAddr := None\<rparr>)) # pool))"

text \<open>The first byte is read from the connection and handed to the reader in front of the rest.\<close>

definition acquireByteReader ::
  "('f, 'v, 'h, 'e) Server \<Rightarrow> ('f, 'v, 'h, 'e) serve_env \<Rightarrow> ('f, 'v, 'h) serving
     \<Rightarrow> ('e msg_err option \<times> ('f, 'v, 'h) serving) panics" where
  "acquireByteReader s E st =
     (case releaseCtx E (sc_ctx st) (sc_pool st) of
        Panic \<Rightarrow> Panic
      | Ret pool \<Rightarrow>
          (case acquireCtx s E pool of
             (ctx, pool) \<Rightarrow>
               (let st = st\<lparr>sc_ctx := ctx, sc_pool := pool\<rparr> in
                if rd_data (sc_br st) = [] then Ret (Some (MsgIO EOF), st)
                else Ret (None, acquireReader s st))))"


section \<open>Error responses\<close>

definition Server_getServerName :: "('f, 'v, 'h, 'e) Server \<Rightarrow> bytes" where
  "Server_getServerName s = (if length (sv_Name s) = 0 then defaultServerName else sv_Name s)"

definition serverName :: "('f, 'v, 'h, 'e) Server \<Rightarrow> bytes option" where
  "serverName s = (if sv_NoDefaultServerHeader s then None else Some (Server_getServerName s))"

definition SetServerBytes :: "bytes option \<Rightarrow> ('f, 'v, 'h) RequestCtx \<Rightarrow> ('f, 'v, 'h) RequestCtx" where
  "SetServerBytes name ctx =
     (case name of
        None \<Rightarrow> ctx
      | Some b \<Rightarrow>
          ctx\<lparr>x_Response := (x_Response ctx)\<lparr>p_Header := ResponseHeader_SetServer (p_Header (x_Response ctx)) b\<rparr>\<rparr>)"

text \<open>\<open>writeResponse\<close>: whether writing was without error; a context that timed out panics.\<close>

definition writeResponse ::
  "('f, 'v, 'h, 'e) Server \<Rightarrow> conn \<Rightarrow> ('f, 'v, 'h, 'e) serve_env \<Rightarrow> ('f, 'v, 'h) serving
     \<Rightarrow> ('e conn_err option \<times> ('f, 'v, 'h) serving) panics" where
  "writeResponse s c E st =
     (let ctx = sc_ctx st in
      if x_timeoutResponse ctx \<noteq> None then Panic
      else
        (case Response_Write (se_serverDate E) (x_Response ctx) of
           (p, err, resp) \<Rightarrow>
             (case bw_Write s c E (p_bodyStream (x_Response ctx) \<noteq> None) p st of
                (ok, st) \<Rightarrow>
                  Ret (if ok then map_option ConnMsg err else Some ConnWrite,
                       st\<lparr>sc_ctx := ctx\<lparr>x_Response := Response_Reset resp\<rparr>\<rparr>))))"

definition is_timeout :: "'e msg_err \<Rightarrow> bool" where
  "is_timeout err \<longleftrightarrow> err = MsgIO TimeoutErr \<or> err = MsgBody (BodyIOErr TimeoutErr)"

definition defaultErrorHandler :: "('f, 'v, 'h) RequestCtx \<Rightarrow> 'e msg_err \<Rightarrow> ('f, 'v, 'h) RequestCtx" where
  "defaultErrorHandler ctx err =
     (case err of
        MsgHeader (ErrSmallBuffer e) \<Rightarrow>
          ctx_Error ctx (bytes_of ''Too big request header'') StatusRequestHeaderFieldsTooLarge
      | _ \<Rightarrow>
          if is_timeout err then ctx_Error ctx (bytes_of ''Request timeout'') StatusRequestTimeout
          else ctx_Error ctx (bytes_of ''Error when parsing request'') StatusBadRequest)"

definition writeErrorResponse ::
  "('f, 'v, 'h, 'e) Server \<Rightarrow> conn \<Rightarrow> ('f, 'v, 'h, 'e) serve_env \<Rightarrow> 'e msg_err \<Rightarrow> ('f, 'v, 'h) serving
     \<Rightarrow> ('f, 'v, 'h) serving panics" where
  "writeErrorResponse s c E err st =
     (let errorHandler = (case sv_ErrorHandler s of None \<Rightarrow> defaultErrorHandler | Some f \<Rightarrow> f);
          ctx = errorHandler (sc_ctx st) err;
          ctx = SetServerBytes (serverName s) ctx;
          ctx = ctx_SetConnectionClose ctx;
          st = acquireWriter (st\<lparr>sc_ctx := ctx\<rparr>)
      in case writeResponse s c E st of
           Panic \<Rightarrow> Panic
         | Ret (_, st) \<Rightarrow> Ret (snd (bw_Flush c st)))"

text \<open>
  The server's name is part of the format string of \<^verbatim>\<open>fmt.Fprintf\<close>: \<open>None\<close> when it has a percent sign,
  which \<^verbatim>\<open>fmt\<close> would interpret.
\<close>

definition writeFastError :: "('f, 'v, 'h, 'e) Server \<Rightarrow> bytes \<Rightarrow> int \<Rightarrow> bytes \<Rightarrow> bytes option" where
  "writeFastError s serverDate statusCode msg =
     (let server = (case serverName s of None \<Rightarrow> [] | Some b \<Rightarrow> bytes_of ''Server: '' @ b @ strCRLF);
          date = (if sv_NoDefaultDate s then [] else bytes_of ''Date: '' @ serverDate @ strCRLF)
      in if ch CHR ''%'' \<in> set (server @ date) then None
         else Some (statusLine statusCode @ bytes_of ''Connection: close'' @ strCRLF @ server @ date
                @ bytes_of ''Content-Type: text/plain'' @ strCRLF
                @ bytes_of ''Content-Length: '' @ nilable (AppendUint [] (int (length msg))) @ strCRLF
                @ strCRLF @ msg))"


section \<open>A round of the loop\<close>

definition Server_idleTimeout :: "('f, 'v, 'h, 'e) Server \<Rightarrow> int" where
  "Server_idleTimeout s = (if sv_IdleTimeout s \<noteq> 0 then sv_IdleTimeout s else sv_ReadTimeout s)"

text \<open>Deadlines that are positive are set; \<open>Panic\<close> is the panic when the connection refuses one.\<close>

definition set_deadline ::
  "conn \<Rightarrow> (int \<Rightarrow> ('f, 'v, 'h) conn_event) \<Rightarrow> int \<Rightarrow> ('f, 'v, 'h) serving \<Rightarrow> ('f, 'v, 'h) serving panics" where
  "set_deadline c ev d st =
     (if d \<le> 0 then Ret st else if cn_deadlineErr c \<noteq> None then Panic else Ret (sc_event st (ev d)))"

text \<open>The reader of the round, and the error of waiting for the first byte.\<close>

definition serveConn_reader ::
  "('f, 'v, 'h, 'e) Server \<Rightarrow> conn \<Rightarrow> ('f, 'v, 'h, 'e) serve_env \<Rightarrow> ('f, 'v, 'h) serving
     \<Rightarrow> ('e msg_err option \<times> ('f, 'v, 'h) serving) panics" where
  "serveConn_reader s c E st0 =
     (let st = st0\<lparr>sc_connRequestNum := Suc (sc_connRequestNum st0)\<rparr>;
          keepalive = sc_connRequestNum st > 1
      in case set_deadline c SetReadDeadline (if keepalive then Server_idleTimeout s else 0) st of
           Panic \<Rightarrow> Panic
         | Ret st \<Rightarrow>
             if \<not> sv_ReduceMemoryUsage s \<or> sc_hasBr st then
               (let st = (if sc_hasBr st then st else acquireReader s st) in
                if keepalive then
                  (case br_Peek (sc_br st) 1 of
                     (b, err, r) \<Rightarrow>
                       Ret (if length b = 0 \<and> err \<noteq> Some EOF
                            then map_option (\<lambda>e. MsgHeader (ErrNothingRead e)) err else map_option MsgIO err,
                            st\<lparr>sc_br := r\<rparr>))
                else Ret (None, st))
             else acquireByteReader s E st)"

definition serveConn_setup :: "('f, 'v, 'h, 'e) Server \<Rightarrow> conn \<Rightarrow> ('f, 'v, 'h) RequestCtx \<Rightarrow> ('f, 'v, 'h) RequestCtx" where
  "serveConn_setup s c ctx =
     (let req = x_Request ctx; resp = x_Response ctx; secure = sv_SecureErrorLogMessage s
      in ctx\<lparr>x_Request := req\<lparr>q_isTLS := (cn_TLS c \<noteq> None), q_secureErrorLogMessage := secure,
               q_Header := (q_Header req)\<lparr>rq_secureErrorLogMessage := secure\<rparr>\<rparr>,
             x_Response := resp\<lparr>p_secureErrorLogMessage := secure,
               p_Header := (p_Header resp)\<lparr>rs_noDefaultContentType := sv_NoDefaultContentType s,
                 rs_noDefaultDate := sv_NoDefaultDate s, rs_secureErrorLogMessage := secure\<rparr>\<rparr>\<rparr>)"

definition serveConn_normalizing :: "('f, 'v, 'h, 'e) Server \<Rightarrow> ('f, 'v, 'h) RequestCtx \<Rightarrow> ('f, 'v, 'h) RequestCtx" where
  "serveConn_normalizing s ctx =
     (if sv_DisableHeaderNamesNormalizing s
      then ctx\<lparr>x_Request := (x_Request ctx)\<lparr>q_Header := RequestHeader_DisableNormalizing (q_Header (x_Request ctx))\<rparr>,
               x_Response := (x_Response ctx)\<lparr>p_Header := ResponseHeader_DisableNormalizing (p_Header (x_Response ctx))\<rparr>\<rparr>
      else ctx)"

definition sc_header :: "('f, 'v, 'h) serving \<Rightarrow> RequestHeader" where
  "sc_header st = q_Header (x_Request (sc_ctx st))"

definition sc_setRead :: "('f, 'v, 'h) serving \<Rightarrow> RequestHeader \<Rightarrow> bufreader \<Rightarrow> ('f, 'v, 'h) serving" where
  "sc_setRead st h r =
     st\<lparr>sc_ctx := (sc_ctx st)\<lparr>x_Request := (x_Request (sc_ctx st))\<lparr>q_Header := h\<rparr>\<rparr>, sc_br := r\<rparr>"

text \<open>
  Reading the header. With responses in the writer's buffer the header is tried once; when it is not
  there yet the buffer is flushed first. The error is \<open>Some\<close>; a failed flush leaves the loop.
\<close>

definition serveConn_readHeader ::
  "conn \<Rightarrow> ('f, 'v, 'h, 'e) serve_env \<Rightarrow> ('f, 'v, 'h) serving
     \<Rightarrow> (read_err option \<times> ('f, 'v, 'h) serving, 'e) flow" where
  "serveConn_readHeader c E st =
     (let read = (\<lambda>st. case RequestHeader_Read (sc_header st) (sc_br st) of
            Panic \<Rightarrow> Crash
          | Ret (h, err, r) \<Rightarrow> Go (err, sc_setRead st h r))
      in if length (nilable (sc_bw st)) > 0 then
           (case se_readLoop E (sc_header st) (sc_br st) of
              Panic \<Rightarrow> Crash
            | Ret (h, err, r) \<Rightarrow>
                (let st = sc_setRead st h r in
                 if err = Some NeedMore then
                   (case bw_Flush c st of
                      (True, st) \<Rightarrow> read st
                    | (False, st) \<Rightarrow> Stop (Some ConnWrite) (None, st))
                 else Go (err, st)))
         else read st)"

text \<open>The hook on the header: the deadlines and limits of this request and of those after it.\<close>

definition serveConn_headerReceived ::
  "('f, 'v, 'h, 'e) Server \<Rightarrow> conn \<Rightarrow> ('f, 'v, 'h) serving \<Rightarrow> ('f, 'v, 'h) serving panics" where
  "serveConn_headerReceived s c st =
     (case sv_HeaderReceived s of
        None \<Rightarrow> Ret st
      | Some onHdrRecv \<Rightarrow>
          (let reqConf = onHdrRecv (sc_header st) in
           case set_deadline c SetReadDeadline (rc_ReadTimeout reqConf) st of
             Panic \<Rightarrow> Panic
           | Ret st \<Rightarrow>
               (let st = (if rc_MaxRequestBodySize reqConf > 0
                          then st\<lparr>sc_maxRequestBodySize := rc_MaxRequestBodySize reqConf\<rparr> else st)
                in Ret (if rc_WriteTimeout reqConf > 0 then st\<lparr>sc_writeTimeout := rc_WriteTimeout reqConf\<rparr> else st))))"

text \<open>The body, as a stream or in memory: \<open>continuing\<close> after a 100 Continue.\<close>

definition serveConn_readBody ::
  "('f, 'v, 'h, 'e) Server \<Rightarrow> ('f, 'v, 'h, 'e) serve_env \<Rightarrow> bool \<Rightarrow> ('f, 'v, 'h) serving
     \<Rightarrow> ('e msg_err option \<times> ('f, 'v, 'h) serving) panics" where
  "serveConn_readBody s E continuing st =
     (let ctx = sc_ctx st; req = x_Request ctx; r = sc_br st; maxBody = sc_maxRequestBodySize st;
          pre = \<not> sv_DisablePreParseMultipartForm s
      in if sv_StreamRequestBody s then
           (case (if continuing then Request_ContinueReadBodyStream (se_lib E) (se_reads E) (se_capacity E) req r maxBody pre
                  else Request_readBodyStream (se_lib E) (se_reads E) (se_capacity E) req r maxBody (sv_GetOnly s) pre) of
              Panic \<Rightarrow> Panic
            | Ret (req, rs, err, r) \<Rightarrow> Ret (err, st\<lparr>sc_ctx := ctx\<lparr>x_Request := req, x_stream := rs\<rparr>, sc_br := r\<rparr>))
         else
           (case (if continuing then Request_ContinueReadBody (se_lib E) (se_reads E) (se_capacity E) req r maxBody pre
                  else Request_readLimitBody (se_lib E) (se_reads E) (se_capacity E) req r maxBody (sv_GetOnly s) pre) of
              Panic \<Rightarrow> Panic
            | Ret (req, err, r) \<Rightarrow> Ret (err, st\<lparr>sc_ctx := ctx\<lparr>x_Request := req\<rparr>, sc_br := r\<rparr>)))"

definition serveConn_giveBack :: "('f, 'v, 'h, 'e) Server \<Rightarrow> 'x option \<Rightarrow> ('f, 'v, 'h) serving \<Rightarrow> ('f, 'v, 'h) serving" where
  "serveConn_giveBack s err st =
     (if sv_ReduceMemoryUsage s \<and> br_Buffered (sc_br st) = 0 \<or> err \<noteq> None then releaseReader st else st)"

text \<open>When reading fails: what is an error, and the response to it.\<close>

definition is_EOF :: "'e msg_err \<Rightarrow> bool" where
  "is_EOF err \<longleftrightarrow> err = MsgIO EOF \<or> err = MsgHeader ReadEOF \<or> err = MsgBody (BodyIOErr EOF)"

definition serveConn_failed ::
  "('f, 'v, 'h, 'e) Server \<Rightarrow> conn \<Rightarrow> ('f, 'v, 'h, 'e) serve_env \<Rightarrow> 'e msg_err \<Rightarrow> ('f, 'v, 'h) serving
     \<Rightarrow> (('f, 'v, 'h) serving, 'e) flow" where
  "serveConn_failed s c E err st =
     (let err' = (if is_EOF err then None
                  else (case err of
                          MsgHeader (ErrNothingRead e) \<Rightarrow> if sc_connRequestNum st > 1 then None else Some (MsgIO e)
                        | _ \<Rightarrow> Some err))
      in case err' of
           None \<Rightarrow> Stop None st
         | Some err \<Rightarrow>
             (case writeErrorResponse s c E err st of
                Panic \<Rightarrow> Crash
              | Ret st \<Rightarrow> Stop (Some (ConnMsg err)) st))"

text \<open>The first part of a round: a request is read, or the loop is left.\<close>

definition serveConn_readRequest ::
  "('f, 'v, 'h, 'e) Server \<Rightarrow> conn \<Rightarrow> ('f, 'v, 'h, 'e) serve_env \<Rightarrow> ('f, 'v, 'h) serving
     \<Rightarrow> (('f, 'v, 'h) serving, 'e) flow" where
  "serveConn_readRequest s c E st =
     (case serveConn_reader s c E st of
        Panic \<Rightarrow> Crash
      | Ret (Some err, st) \<Rightarrow> serveConn_failed s c E err (st\<lparr>sc_ctx := serveConn_setup s c (sc_ctx st)\<rparr>)
      | Ret (None, st) \<Rightarrow>
          (let st = st\<lparr>sc_ctx := serveConn_setup s c (sc_ctx st)\<rparr> in
           case set_deadline c SetReadDeadline (sv_ReadTimeout s) st of
             Panic \<Rightarrow> Crash
           | Ret st \<Rightarrow>
               (case serveConn_readHeader c E (st\<lparr>sc_ctx := serveConn_normalizing s (sc_ctx st)\<rparr>) of
                  Crash \<Rightarrow> Crash
                | Stop err (_, st) \<Rightarrow> Stop err st
                | Go (Some err, st) \<Rightarrow>
                    serveConn_failed s c E (MsgHeader err) (serveConn_giveBack s (Some err) st)
                | Go (None, st) \<Rightarrow>
                    (case serveConn_headerReceived s c st of
                       Panic \<Rightarrow> Crash
                     | Ret st \<Rightarrow>
                         (case serveConn_readBody s E False st of
                            Panic \<Rightarrow> Crash
                          | Ret (Some err, st) \<Rightarrow> serveConn_failed s c E err (serveConn_giveBack s (Some err) st)
                          | Ret (None, st) \<Rightarrow>
                              Go (serveConn_giveBack s (None :: 'e msg_err option)
                                    (sc_event st (ConnStateIs StateActive))))))))"

text \<open>
  A request that waits for \<open>100 Continue\<close>: the hook may refuse it, otherwise the interim response is
  sent and the body is read.
\<close>

definition serveConn_continue ::
  "('f, 'v, 'h, 'e) Server \<Rightarrow> conn \<Rightarrow> ('f, 'v, 'h, 'e) serve_env \<Rightarrow> ('f, 'v, 'h) serving
     \<Rightarrow> (('f, 'v, 'h) serving, 'e) flow" where
  "serveConn_continue s c E st =
     (if \<not> Request_MayContinue (x_Request (sc_ctx st)) then Go st
      else
        (let st = (case sv_ContinueHandler s of
               None \<Rightarrow> st
             | Some f \<Rightarrow>
                 (let go = f (sc_header st); st = st\<lparr>sc_continueReadingRequest := go\<rparr> in
                  if go then st
                  else st\<lparr>sc_br := (if sc_hasBr st then br_Reset (sc_br st) else sc_br st),
                          sc_ctx := ctx_SetStatusCode (sc_ctx st) StatusExpectationFailed\<rparr>))
         in if \<not> sc_continueReadingRequest st then Go st
            else
              (case bw_Write s c E False strResponseContinue (acquireWriter st) of
                 (False, st) \<Rightarrow> Stop (Some ConnWrite) st
               | (True, st) \<Rightarrow>
                   (case bw_Flush c st of
                      (False, st) \<Rightarrow> Stop (Some ConnWrite) st
                    | (True, st) \<Rightarrow>
                        (let st = (if sv_ReduceMemoryUsage s then releaseWriter st else st);
                             st = (if sc_hasBr st then st else acquireReader s st)
                         in case serveConn_readBody s E True st of
                              Panic \<Rightarrow> Crash
                            | Ret (None, st) \<Rightarrow> Go (serveConn_giveBack s (None :: 'e msg_err option) st)
                            | Ret (Some err, st) \<Rightarrow>
                                (case writeErrorResponse s c E err (serveConn_giveBack s (Some err) st) of
                                   Panic \<Rightarrow> Crash
                                 | Ret st \<Rightarrow> Stop (Some (ConnMsg err)) st))))))"

text \<open>
  The reads a handler makes on a streamed body, up to the first error. A reader that was given back
  to the pool while the stream still uses it is the same reader here, but what is left in its buffer
  is lost to the connection.
\<close>

fun stream_reads ::
  "(nat \<Rightarrow> nat) \<Rightarrow> requestStream \<Rightarrow> reader \<Rightarrow> nat list \<Rightarrow> (bytes \<times> requestStream \<times> reader) panics" where
  "stream_reads avail rs r [] = Ret ([], rs, r)"
| "stream_reads avail rs r (n # ns) =
     (case requestStream_Read avail rs r n of
        Panic \<Rightarrow> Panic
      | Ret (p, Some err, rs, r) \<Rightarrow> Ret (p, rs, r)
      | Ret (p, None, rs, r) \<Rightarrow>
          (case stream_reads avail rs r ns of
             Panic \<Rightarrow> Panic
           | Ret (b, rs, r) \<Rightarrow> Ret (p @ b, rs, r)))"

definition serveConn_handler ::
  "('f, 'v, 'h, 'e) Server \<Rightarrow> ('f, 'v, 'h, 'e) serve_env \<Rightarrow> ('f, 'v, 'h) serving \<Rightarrow> ('f, 'v, 'h) serving panics" where
  "serveConn_handler s E st =
     (let ctx = sc_ctx st; st = sc_event st (Handled ctx) in
      case x_stream ctx of
        None \<Rightarrow> Ret (st\<lparr>sc_ctx := sv_Handler s ctx []\<rparr>)
      | Some rs \<Rightarrow>
          (case stream_reads (ce_avail (se_reads E)) rs (br_reader (sc_br st)) (sv_reads s ctx) of
             Panic \<Rightarrow> Panic
           | Ret (b, rs, r') \<Rightarrow>
               (let r = br_after (se_reads E) (sc_br st) r'
                in Ret (st\<lparr>sc_ctx := sv_Handler s (ctx\<lparr>x_stream := Some rs\<rparr>) b,
                           sc_br := (if sc_hasBr st then r else br_Reset r)\<rparr>))))"

text \<open>The middle part: the handler is called, and the context is replaced if the request timed out.\<close>

definition serveConn_call ::
  "('f, 'v, 'h, 'e) Server \<Rightarrow> ('f, 'v, 'h, 'e) serve_env \<Rightarrow> 64 word \<Rightarrow> ('f, 'v, 'h) serving
     \<Rightarrow> (('f, 'v, 'h) serving, 'e) flow" where
  "serveConn_call s E connID st =
     (let h = sc_header st;
          st = st\<lparr>sc_connectionClose := (sv_DisableKeepalive s \<or> rq_connectionClose h),
                  sc_isHTTP11 := RequestHeader_IsHTTP11 h,
                  sc_ctx := (SetServerBytes (serverName s) (sc_ctx st))
                    \<lparr>x_connID := connID, x_connRequestNum := of_nat (sc_connRequestNum st),
                     x_time := se_now E (sc_connRequestNum st)\<rparr>\<rparr>
      in case (if sc_continueReadingRequest st then serveConn_handler s E st else Ret st) of
           Panic \<Rightarrow> Crash
         | Ret st \<Rightarrow>
             (case x_timeoutResponse (sc_ctx st) of
                None \<Rightarrow> Go st
              | Some resp \<Rightarrow>
                  (case acquireCtx s E (sc_pool st) of
                     (ctx, pool) \<Rightarrow>
                       Go (st\<lparr>sc_ctx := ctx\<lparr>x_Response := Response_CopyTo resp (x_Response ctx)\<rparr>, sc_pool := pool\<rparr>))))"

text \<open>
  What is set on the response before it is written; the request is reset. The results are the hijack
  handler, whether it is called without a response, the context and whether the connection is closed.
\<close>

definition serveConn_finish ::
  "('f, 'v, 'h, 'e) Server \<Rightarrow> ('f, 'v, 'h, 'e) serve_env \<Rightarrow> nat \<Rightarrow> bool \<Rightarrow> bool \<Rightarrow> ('f, 'v, 'h) RequestCtx
     \<Rightarrow> 'h option \<times> bool \<times> ('f, 'v, 'h) RequestCtx \<times> bool" where
  "serveConn_finish s E num connectionClose isHTTP11 ctx =
     (let ctx = (if \<not> ctx_IsGet ctx \<and> ctx_IsHead ctx
                 then ctx\<lparr>x_Response := (x_Response ctx)\<lparr>p_SkipBody := True\<rparr>\<rparr> else ctx);
          ctx = ctx\<lparr>x_Request := Request_Reset (x_Request ctx), x_stream := None\<rparr>;
          hijackHandler = x_hijackHandler ctx;
          hijackNoResponse = (x_hijackNoResponse ctx \<and> hijackHandler \<noteq> None);
          ctx = ctx\<lparr>x_hijackHandler := None, x_hijackNoResponse := False\<rparr>;
          ctx = (if sv_MaxRequestsPerConn s > 0 \<and> int num \<ge> sv_MaxRequestsPerConn s
                 then ctx_SetConnectionClose ctx else ctx);
          connectionClose = (connectionClose \<or> Response_ConnectionClose (x_Response ctx)
            \<or> sv_CloseOnShutdown s \<and> se_stopClose E num);
          setConnection = (\<lambda>v ctx. ctx\<lparr>x_Response :=
            (x_Response ctx)\<lparr>p_Header := ResponseHeader_SetCanonical (p_Header (x_Response ctx)) strConnection v\<rparr>\<rparr>);
          ctx = (if connectionClose then setConnection strClose ctx
                 else if \<not> isHTTP11 then setConnection strKeepAlive ctx else ctx);
          ctx = (if length (ResponseHeader_Server (p_Header (x_Response ctx))) = 0
                 then SetServerBytes (serverName s) ctx else ctx)
      in (hijackHandler, hijackNoResponse, ctx, connectionClose))"

text \<open>The response is written; it is flushed unless another request is in the reader's buffer.\<close>

definition serveConn_write ::
  "('f, 'v, 'h, 'e) Server \<Rightarrow> conn \<Rightarrow> ('f, 'v, 'h, 'e) serve_env \<Rightarrow> 'h option \<Rightarrow> ('f, 'v, 'h) serving
     \<Rightarrow> (('f, 'v, 'h) serving, 'e) flow" where
  "serveConn_write s c E hijackHandler st =
     (case writeResponse s c E (acquireWriter st) of
        Panic \<Rightarrow> Crash
      | Ret (Some err, st) \<Rightarrow> Stop (Some err) st
      | Ret (None, st) \<Rightarrow>
          flow_then
            (if \<not> sc_hasBr st \<or> br_Buffered (sc_br st) = 0 \<or> sc_connectionClose st then flush_flow c st else Go st)
            (\<lambda>st. if sc_connectionClose st then Stop None st
                  else Go (if sv_ReduceMemoryUsage s \<and> hijackHandler = None then releaseWriter st else st)))"

text \<open>
  The connection is handed to the hijack handler, with what has been read ahead. A context that the
  reader may point into is not given back.
\<close>

definition serveConn_hijack :: "conn \<Rightarrow> 'h \<Rightarrow> ('f, 'v, 'h) serving \<Rightarrow> (('f, 'v, 'h) serving, 'e) flow" where
  "serveConn_hijack c h st =
     (let st = (if sc_hasBr st then st\<lparr>sc_hasBr := False, sc_ctxNil := True\<rparr> else st) in
      flow_then (if sc_bw st = None then Go st else flow_then (flush_flow c st) (\<lambda>st. Go (releaseWriter st)))
        (\<lambda>st. case cn_deadlineErr c of
                Some err \<Rightarrow> Stop (Some (ConnIO err)) st
              | None \<Rightarrow>
                  Stop (Some ConnHijacked)
                    (sc_event (sc_event (sc_event st (SetReadDeadline 0)) (SetWriteDeadline 0))
                       (HijackedBy h (rd_data (sc_br st))))))"

definition serveConn_idle ::
  "('f, 'v, 'h, 'e) serve_env \<Rightarrow> ('f, 'v, 'h) serving \<Rightarrow> (('f, 'v, 'h) serving, 'e) flow" where
  "serveConn_idle E st =
     (let st = sc_event st (ConnStateIs StateIdle);
          st = st\<lparr>sc_ctx := snd (ctx_ResetUserValues (se_isCloser E) (sc_ctx st))\<rparr>
      in if se_stop E (sc_connRequestNum st) then Stop None st else Go st)"

definition serveConn_reply ::
  "('f, 'v, 'h, 'e) Server \<Rightarrow> conn \<Rightarrow> ('f, 'v, 'h, 'e) serve_env \<Rightarrow> ('f, 'v, 'h) serving
     \<Rightarrow> (('f, 'v, 'h) serving, 'e) flow" where
  "serveConn_reply s c E st =
     (case serveConn_finish s E (sc_connRequestNum st) (sc_connectionClose st) (sc_isHTTP11 st) (sc_ctx st) of
        (hijackHandler, hijackNoResponse, ctx, connectionClose) \<Rightarrow>
          (case set_deadline c SetWriteDeadline (sc_writeTimeout st)
                  (st\<lparr>sc_ctx := ctx, sc_reqReset := True, sc_connectionClose := connectionClose\<rparr>) of
             Panic \<Rightarrow> Crash
           | Ret st \<Rightarrow>
               flow_then (if hijackNoResponse then Go st else serveConn_write s c E hijackHandler st)
                 (\<lambda>st. case hijackHandler of
                         Some h \<Rightarrow> serveConn_hijack c h st
                       | None \<Rightarrow> serveConn_idle E st)))"

definition serveConn_round ::
  "('f, 'v, 'h, 'e) Server \<Rightarrow> conn \<Rightarrow> ('f, 'v, 'h, 'e) serve_env \<Rightarrow> 64 word \<Rightarrow> ('f, 'v, 'h) serving
     \<Rightarrow> (('f, 'v, 'h) serving, 'e) flow" where
  "serveConn_round s c E connID st =
     flow_then (serveConn_readRequest s c E st)
       (\<lambda>st. flow_then (serveConn_continue s c E st)
       (\<lambda>st. flow_then (serveConn_call s E connID st)
       (\<lambda>st. serveConn_reply s c E st)))"


section \<open>The loop\<close>

partial_function (option) serveConn_loop ::
  "('f, 'v, 'h, 'e) Server \<Rightarrow> conn \<Rightarrow> ('f, 'v, 'h, 'e) serve_env \<Rightarrow> 64 word \<Rightarrow> ('f, 'v, 'h) serving
     \<Rightarrow> ('e conn_err option \<times> ('f, 'v, 'h) serving) panics option" where
  "serveConn_loop s c E connID st =
     (case serveConn_round s c E connID st of
        Crash \<Rightarrow> Some Panic
      | Stop err st \<Rightarrow> Some (Ret (err, st))
      | Go st \<Rightarrow> serveConn_loop s c E connID st)"

declare serveConn_loop.simps [code]

text \<open>What follows the loop: readers, writers and the context go back to their pools.\<close>

definition serveConn_end ::
  "('f, 'v, 'h, 'e) serve_env \<Rightarrow> ('f, 'v, 'h) serving \<Rightarrow> ('f, 'v, 'h) serving panics" where
  "serveConn_end E st =
     (let st = releaseWriter (if sc_hasBr st then releaseReader st else st) in
      if sc_ctxNil st then Ret st
      else
        (let ctx = sc_ctx st;
             ctx = (if sc_reqReset st then ctx else ctx\<lparr>x_Request := Request_Reset (x_Request ctx), x_stream := None\<rparr>)
         in case releaseCtx E ctx (sc_pool st) of
              Panic \<Rightarrow> Panic
            | Ret pool \<Rightarrow> Ret (st\<lparr>sc_pool := pool\<rparr>)))"

definition DefaultMaxRequestBodySize :: int where
  "DefaultMaxRequestBodySize = 4 * 1024 * 1024"

text \<open>\<open>Inl\<close> is an error of the handshake, \<open>Inr\<close> the negotiated protocol.\<close>

definition Server_getNextProto ::
  "('f, 'v, 'h, 'e) Server \<Rightarrow> conn \<Rightarrow> ('f, 'v, 'h) serving \<Rightarrow> ((io_err + bytes) \<times> ('f, 'v, 'h) serving) panics" where
  "Server_getNextProto s c st =
     (case cn_TLS c of
        None \<Rightarrow> Ret (Inr [], st)
      | Some proto \<Rightarrow>
          (case set_deadline c SetReadDeadline (sv_ReadTimeout s) st of
             Panic \<Rightarrow> Panic
           | Ret st \<Rightarrow>
               (case set_deadline c SetWriteDeadline (sv_WriteTimeout s) st of
                  Panic \<Rightarrow> Panic
                | Ret st \<Rightarrow> Ret (proto, st))))"

text \<open>The variables before the loop. The context is only taken from the pool when the loop is entered.\<close>

definition serveConn_start ::
  "('f, 'v, 'h, 'e) Server \<Rightarrow> ('f, 'v, 'h, 'e) serve_env \<Rightarrow> bufreader \<Rightarrow> ('f, 'v, 'h) RequestCtx list
     \<Rightarrow> ('f, 'v, 'h) serving" where
  "serveConn_start s E r pool =
     (let maxBody = sv_MaxRequestBodySize s; (ctx, pool) = acquireCtx s E pool
      in \<lparr>sc_br = r, sc_hasBr = False, sc_bw = None, sc_out = [], sc_ctx = ctx\<lparr>x_connTime := se_now E 0\<rparr>,
          sc_ctxNil = False, sc_pool = pool, sc_connRequestNum = 0,
          sc_maxRequestBodySize = (if maxBody \<le> 0 then DefaultMaxRequestBodySize else maxBody),
          sc_writeTimeout = sv_WriteTimeout s, sc_connectionClose = False, sc_isHTTP11 = False,
          sc_reqReset = False, sc_continueReadingRequest = True, sc_log = []\<rparr>)"

definition Server_serveConn ::
  "('f, 'v, 'h, 'e) Server \<Rightarrow> conn \<Rightarrow> ('f, 'v, 'h, 'e) serve_env \<Rightarrow> 64 word \<Rightarrow> bufreader \<Rightarrow> ('f, 'v, 'h) RequestCtx list
     \<Rightarrow> ('e conn_err option \<times> ('f, 'v, 'h) serving) panics option" where
  "Server_serveConn s c E connID r pool =
     (let st = serveConn_start s E r pool in
      case Server_getNextProto s c st of
        Panic \<Rightarrow> Some Panic
      | Ret (Inl err, st) \<Rightarrow> Some (Ret (Some (ConnIO err), st\<lparr>sc_pool := pool\<rparr>))
      | Ret (Inr proto, st) \<Rightarrow>
          (case sv_nextProtos s proto of
             Some res \<Rightarrow> Some (Ret (map_option ConnIO res, st\<lparr>sc_pool := pool\<rparr>))
           | None \<Rightarrow>
               Option.bind (serveConn_loop s c E connID st)
                 (\<lambda>res. Some (case res of
                    Panic \<Rightarrow> Panic
                  | Ret (err, st) \<Rightarrow>
                      (case serveConn_end E st of Panic \<Rightarrow> Panic | Ret st \<Rightarrow> Ret (err, st))))))"

end
