(* ===== verification/Pipelining.thy ===== *)
theory Pipelining
  imports ServeConn
begin

text \<open>
  What the loop of \<open>serveConn\<close> does for its clients: requests that are pipelined on a connection are
  handled in order and answered in order.
\<close>


section \<open>Vocabulary\<close>

text \<open>
  The method \<open>readLoop\<close> is called with the intent to \<open>try and read the next headers once\<close>: one
  \<open>tryRead\<close>, and the header reset when it fails.
\<close>

definition readLoop_once ::
  "(RequestHeader \<Rightarrow> bufreader \<Rightarrow> (RequestHeader \<times> read_err option \<times> bufreader) panics) \<Rightarrow> bool" where
  "readLoop_once f \<longleftrightarrow>
     (\<forall>h r. f h r =
        (case RequestHeader_tryRead h r 1 of
           Panic \<Rightarrow> Panic
         | Ret (h, None, r) \<Rightarrow> Ret (h, None, r)
         | Ret (h, Some err, r) \<Rightarrow> Ret (RequestHeader_resetSkipNormalize h, Some err, r)))"

text \<open>A server that reads bodies into memory, without the hooks that replace parts of the loop.\<close>

definition plain_server :: "('f, 'v, 'h, 'e) Server \<Rightarrow> bool" where
  "plain_server s \<longleftrightarrow>
     \<not> sv_StreamRequestBody s \<and> \<not> sv_GetOnly s \<and> \<not> sv_ReduceMemoryUsage s \<and> sv_HeaderReceived s = None"

text \<open>A handler that answers: it does not hijack, time out or set a body stream.\<close>

definition answers :: "('f, 'v, 'h, 'e) Server \<Rightarrow> bool" where
  "answers s \<longleftrightarrow>
     (\<forall>ctx. x_timeoutResponse ctx = None \<and> x_hijackHandler ctx = None \<and> p_bodyStream (x_Response ctx) = None \<longrightarrow>
        (let ctx' = sv_Handler s ctx []
         in x_timeoutResponse ctx' = None \<and> x_hijackHandler ctx' = None \<and> p_bodyStream (x_Response ctx') = None))"

text \<open>A connection that takes what is written and has no errors but its end.\<close>

definition plain_conn :: "conn \<Rightarrow> bool" where
  "plain_conn c \<longleftrightarrow> cn_TLS c = None \<and> cn_deadlineErr c = None \<and> cn_takes c = None"

text \<open>A response object without a trace of an earlier reply: what \<open>Response.Reset\<close> leaves but the settings of the server.\<close>

definition empty_response :: "Response \<Rightarrow> bool" where
  "empty_response resp \<longleftrightarrow>
     p_bodyStream resp = None \<and> p_bodyRaw resp = None \<and> nilable (p_body resp) = [] \<and> \<not> p_SkipBody resp
     \<and> \<not> p_ImmediateHeaderFlush resp \<and> p_raddr resp = None \<and> p_laddr resp = None
     \<and> (let h = p_Header resp
        in \<not> rs_noHTTP11 h \<and> \<not> rs_connectionClose h \<and> rs_statusCode h = 0 \<and> rs_contentLength h = 0
           \<and> rs_contentLengthBytes h = [] \<and> rs_contentType h = [] \<and> live (rs_h h) = [] \<and> live (rs_cookies h) = [])"

text \<open>The settings that the server gives the response before each request.\<close>

definition configured :: "('f, 'v, 'h, 'e) Server \<Rightarrow> Response \<Rightarrow> bool" where
  "configured s resp \<longleftrightarrow>
     (let h = p_Header resp
      in (rs_disableNormalizing h \<longleftrightarrow> sv_DisableHeaderNamesNormalizing s)
         \<and> (rs_noDefaultContentType h \<longleftrightarrow> sv_NoDefaultContentType s) \<and> (rs_noDefaultDate h \<longleftrightarrow> sv_NoDefaultDate s))"

definition clean_ctx :: "('f, 'v, 'h) RequestCtx \<Rightarrow> bool" where
  "clean_ctx ctx \<longleftrightarrow>
     x_timeoutResponse ctx = None \<and> x_hijackHandler ctx = None \<and> x_stream ctx = None
     \<and> live (x_userValues ctx) = [] \<and> empty_response (x_Response ctx) \<and> rs_server (p_Header (x_Response ctx)) = []
     \<and> \<not> rs_disableNormalizing (p_Header (x_Response ctx))
     \<and> (let req = x_Request ctx
        in q_bodyRaw req = None \<and> q_bodyStream req = None \<and> q_multipartForm req = None \<and> nilable (q_body req) = []
           \<and> \<not> rq_disableNormalizing (q_Header req))"

text \<open>
  What the handler is given: a context on which no earlier request or reply has left anything, with an
  empty response that carries the server's settings and its name, and the numbers of the connection
  and of the request.
\<close>

definition new_ctx :: "('f, 'v, 'h, 'e) Server \<Rightarrow> 64 word \<Rightarrow> nat \<Rightarrow> ('f, 'v, 'h) RequestCtx \<Rightarrow> bool" where
  "new_ctx s connID num ctx \<longleftrightarrow>
     x_timeoutResponse ctx = None \<and> x_hijackHandler ctx = None \<and> live (x_userValues ctx) = []
     \<and> empty_response (x_Response ctx) \<and> configured s (x_Response ctx)
     \<and> rs_server (p_Header (x_Response ctx)) = nilable (serverName s)
     \<and> x_connID ctx = connID \<and> x_connRequestNum ctx = of_nat num"

text \<open>The contexts the handler was called with, and the bytes written for the connection so far.\<close>

fun handled :: "('f, 'v, 'h) conn_event list \<Rightarrow> ('f, 'v, 'h) RequestCtx list" where
  "handled [] = []"
| "handled (Handled ctx # log) = ctx # handled log"
| "handled (_ # log) = handled log"

definition written :: "('f, 'v, 'h) serving \<Rightarrow> bytes" where
  "written st = sc_out st @ nilable (sc_bw st)"

text \<open>The reply to request number \<open>num\<close>, and whether the connection is closed after it.\<close>

definition reply ::
  "('f, 'v, 'h, 'e) Server \<Rightarrow> ('f, 'v, 'h, 'e) serve_env \<Rightarrow> nat \<Rightarrow> ('f, 'v, 'h) RequestCtx \<Rightarrow> bytes \<times> bool" where
  "reply s E num ctx =
     (let h = q_Header (x_Request ctx) in
      case serveConn_finish s E num (sv_DisableKeepalive s \<or> rq_connectionClose h) (RequestHeader_IsHTTP11 h)
             (sv_Handler s ctx []) of
        (_, _, ctx', connectionClose) \<Rightarrow>
          (fst (Response_Write (se_serverDate E) (x_Response ctx') :: bytes \<times> 'e msg_err option \<times> Response),
           connectionClose))"

definition request_bytes :: "'f Request \<Rightarrow> bytes" where
  "request_bytes q = RequestHeader_AppendBytes (message_header q) [] @ message_body q"

definition reader_size :: "('f, 'v, 'h, 'e) Server \<Rightarrow> nat" where
  "reader_size s = max 16 (nat (if sv_ReadBufferSize s \<le> 0 then defaultReadBufferSize else sv_ReadBufferSize s))"

definition body_limit :: "('f, 'v, 'h, 'e) Server \<Rightarrow> int" where
  "body_limit s = (if sv_MaxRequestBodySize s \<le> 0 then DefaultMaxRequestBodySize else sv_MaxRequestBodySize s)"

text \<open>The requests the server accepts: well-formed, and within its limits.\<close>

definition acceptable :: "('f, 'v, 'h, 'e) Server \<Rightarrow> 'f Request \<Rightarrow> bool" where
  "acceptable s q \<longleftrightarrow>
     message_ok (sv_DisableHeaderNamesNormalizing s) q
     \<and> length (RequestHeader_AppendBytes (message_header q) []) \<le> reader_size s
     \<and> int (length (message_body q)) \<le> body_limit s"

text \<open>The state between two rounds.\<close>

definition between :: "('f, 'v, 'h, 'e) Server \<Rightarrow> ('f, 'v, 'h) serving \<Rightarrow> bool" where
  "between s st \<longleftrightarrow>
     br_wf (sc_br st) \<and> (sc_connRequestNum st > 0 \<longrightarrow> sc_hasBr st) \<and> (sc_hasBr st \<longrightarrow> br_size (sc_br st) = reader_size s)
     \<and> clean_ctx (sc_ctx st) \<and> \<not> sc_ctxNil st \<and> sc_maxRequestBodySize st = body_limit s
     \<and> sc_continueReadingRequest st"


section \<open>Parts of a round\<close>

lemma handled_append [simp]: "handled (l @ l') = handled l @ handled l'"
  by (induction l rule: handled.induct) simp_all

lemma set_deadline_plain:
  assumes "cn_deadlineErr c = None"
  shows "set_deadline c ev d st = Ret (if d \<le> 0 then st else sc_event st (ev d))"
  using assms by (simp add: set_deadline_def)

lemma conn_Write_plain: "cn_takes c = None \<Longrightarrow> conn_Write c out p = (True, out @ p)"
  by (simp add: conn_Write_def)

lemma written_update [simp]:
  "written (st\<lparr>sc_out := x, sc_bw := Some b\<rparr>) = x @ b" "written (st\<lparr>sc_bw := Some b\<rparr>) = sc_out st @ b"
  "written (st\<lparr>sc_br := r\<rparr>) = written st" "written (st\<lparr>sc_ctx := x'\<rparr>) = written st" "written (st\<lparr>sc_hasBr := hb\<rparr>) = written st"
  "written (st\<lparr>sc_connRequestNum := n\<rparr>) = written st" "written (sc_event st e) = written st"
  by (simp_all add: written_def nilable_def sc_event_def)

lemma bw_Write_plain:
  assumes "cn_takes c = None"
  obtains st' where "bw_Write s c E fl p st = (True, st')" and "written st' = written st @ p" and "sc_bw st' \<noteq> None"
    and "st' = st\<lparr>sc_out := sc_out st', sc_bw := sc_bw st'\<rparr>"
proof -
  define buf where "buf = nilable (sc_bw st) @ p"
  have w: "written st @ p = sc_out st @ buf" by (simp add: written_def buf_def)
  show thesis
  proof (cases "length buf \<le> bw_size s \<and> \<not> fl")
    case True
    then have "bw_Write s c E fl p st = (True, st\<lparr>sc_out := sc_out st, sc_bw := Some buf\<rparr>)"
      unfolding buf_def by (cases st) (simp add: bw_Write_def)
    then show thesis by (rule that) (simp_all add: w)
  next
    case False
    define n where "n = length buf - min (se_kept E buf) (bw_size s)"
    have "bw_Write s c E fl p st = (True, st\<lparr>sc_out := sc_out st @ take n buf, sc_bw := Some (drop n buf)\<rparr>)"
      using False unfolding buf_def n_def by (auto simp: bw_Write_def Let_def conn_Write_plain [OF assms])
    then show thesis by (rule that) (simp_all add: w)
  qed
qed

lemma bw_Flush_plain:
  assumes "cn_takes c = None"
  shows "bw_Flush c st = (True, st\<lparr>sc_out := written st, sc_bw := Some []\<rparr>)"
  by (simp add: bw_Flush_def conn_Write_plain [OF assms] written_def)

lemma SetServerBytes_simps [simp]:
  "x_timeoutResponse (SetServerBytes n ctx) = x_timeoutResponse ctx" "x_stream (SetServerBytes n ctx) = x_stream ctx"
  "x_hijackHandler (SetServerBytes n ctx) = x_hijackHandler ctx" "x_Request (SetServerBytes n ctx) = x_Request ctx"
  "p_bodyStream (x_Response (SetServerBytes n ctx)) = p_bodyStream (x_Response ctx)"
  by (simp_all add: SetServerBytes_def split: option.splits)

lemma SetConnectionClose_simps [simp]:
  "x_timeoutResponse (ctx_SetConnectionClose ctx) = x_timeoutResponse ctx" "x_stream (ctx_SetConnectionClose ctx) = x_stream ctx"
  "x_hijackHandler (ctx_SetConnectionClose ctx) = x_hijackHandler ctx" "x_Request (ctx_SetConnectionClose ctx) = x_Request ctx"
  "p_bodyStream (x_Response (ctx_SetConnectionClose ctx)) = p_bodyStream (x_Response ctx)"
  by (simp_all add: ctx_SetConnectionClose_def Response_SetConnectionClose_def)

lemma Request_Reset_clean [simp]:
  "q_bodyRaw (Request_Reset req) = None" "q_bodyStream (Request_Reset req) = None" "q_multipartForm (Request_Reset req) = None"
  "nilable (q_body (Request_Reset req)) = []" "\<not> rq_disableNormalizing (q_Header (Request_Reset req))"
  by (simp_all add: Request_Reset_def RequestHeader_Reset_def RequestHeader_resetSkipNormalize_def)

lemma finish_parts:
  assumes "serveConn_finish s E num cl v11 ctx = (hh, hn, ctx', cl')"
  shows "hh = x_hijackHandler ctx" and "x_timeoutResponse ctx' = x_timeoutResponse ctx"
    and "p_bodyStream (x_Response ctx') = p_bodyStream (x_Response ctx)" and "x_stream ctx' = None"
    and "x_hijackHandler ctx' = None" and "\<exists>req. x_Request ctx' = Request_Reset req" and "hn \<Longrightarrow> x_hijackHandler ctx \<noteq> None"
proof -
  note d = if_distrib [of x_timeoutResponse] if_distrib [of x_stream] if_distrib [of x_hijackHandler]
    if_distrib [of "\<lambda>x. p_bodyStream (x_Response x)"] if_distrib [of x_Request]
  have "hh = x_hijackHandler ctx \<and> x_timeoutResponse ctx' = x_timeoutResponse ctx
      \<and> p_bodyStream (x_Response ctx') = p_bodyStream (x_Response ctx) \<and> x_stream ctx' = None
      \<and> x_hijackHandler ctx' = None \<and> x_Request ctx' = Request_Reset (x_Request ctx) \<and> (hn \<longrightarrow> x_hijackHandler ctx \<noteq> None)"
    using assms unfolding serveConn_finish_def Let_def prod.inject
    by (elim conjE) (hypsubst, simp add: d cong: if_cong)
  then show "hh = x_hijackHandler ctx" "x_timeoutResponse ctx' = x_timeoutResponse ctx"
    "p_bodyStream (x_Response ctx') = p_bodyStream (x_Response ctx)" "x_stream ctx' = None"
    "x_hijackHandler ctx' = None" "\<exists>req. x_Request ctx' = Request_Reset req" "hn \<Longrightarrow> x_hijackHandler ctx \<noteq> None" by blast+
qed

text \<open>A context that has been answered: only its user values are left.\<close>

definition answered_ctx :: "('f, 'v, 'h) RequestCtx \<Rightarrow> bool" where
  "answered_ctx ctx \<longleftrightarrow> clean_ctx (ctx\<lparr>x_userValues := slice_empty\<rparr>)"

lemma empty_Reset: "empty_response (Response_Reset resp)" "rs_server (p_Header (Response_Reset resp)) = []"
  "\<not> rs_disableNormalizing (p_Header (Response_Reset resp))"
proof -
  let ?resp = "resp\<lparr>p_Header := ResponseHeader_Reset (p_Header resp)\<rparr>"
  have "p_bodyStream (Response_ResetBody p) = None" "p_bodyRaw (Response_ResetBody p) = None"
    "nilable (p_body (Response_ResetBody p)) = []" "p_Header (Response_ResetBody p) = p_Header p" for p
    by (simp_all add: Response_ResetBody_def Response_closeBodyStream_def Let_def nilable_def split: option.splits)
  then show "empty_response (Response_Reset resp)" "rs_server (p_Header (Response_Reset resp)) = []"
    "\<not> rs_disableNormalizing (p_Header (Response_Reset resp))"
    by (simp_all add: Response_Reset_def Response_resetSkipHeader_def ResponseHeader_Reset_def ResponseHeader_resetSkipNormalize_def
        ResponseHeader_SetNoDefaultContentType_def empty_response_def Let_def)
qed

lemma finish_clean:
  assumes "serveConn_finish s E num cl v11 ctx = (hh, hn, ctx', cl')" and "x_timeoutResponse ctx = None"
  shows "answered_ctx (ctx'\<lparr>x_Response := Response_Reset resp\<rparr>)"
  using finish_parts [OF assms(1)] assms(2) empty_Reset [of resp]
  by (auto simp: answered_ctx_def clean_ctx_def slice_empty_def Let_def)

lemma sc_event_simps [simp]:
  "sc_br (sc_event st e) = sc_br st" "sc_hasBr (sc_event st e) = sc_hasBr st" "sc_bw (sc_event st e) = sc_bw st"
  "sc_out (sc_event st e) = sc_out st" "sc_ctx (sc_event st e) = sc_ctx st" "sc_ctxNil (sc_event st e) = sc_ctxNil st"
  "sc_pool (sc_event st e) = sc_pool st" "sc_connRequestNum (sc_event st e) = sc_connRequestNum st"
  "sc_maxRequestBodySize (sc_event st e) = sc_maxRequestBodySize st" "sc_connectionClose (sc_event st e) = sc_connectionClose st"
  "sc_isHTTP11 (sc_event st e) = sc_isHTTP11 st" "sc_continueReadingRequest (sc_event st e) = sc_continueReadingRequest st"
  "sc_reqReset (sc_event st e) = sc_reqReset st" "sc_writeTimeout (sc_event st e) = sc_writeTimeout st"
  "sc_log (sc_event st e) = sc_log st @ [e]"
  by (simp_all add: sc_event_def)

text \<open>What a step leaves as it is: everything but the reader, the context and the output.\<close>

definition same_run :: "('f, 'v, 'h) serving \<Rightarrow> ('f, 'v, 'h) serving \<Rightarrow> bool" where
  "same_run st st' \<longleftrightarrow>
     written st' = written st \<and> handled (sc_log st') = handled (sc_log st) \<and> sc_ctxNil st' = sc_ctxNil st
     \<and> sc_maxRequestBodySize st' = sc_maxRequestBodySize st
     \<and> sc_continueReadingRequest st' = sc_continueReadingRequest st"

lemma same_run_trans: "same_run a b \<Longrightarrow> same_run b c \<Longrightarrow> same_run a c"
  by (simp add: same_run_def)

lemma acquireReader_simps [simp]:
  "sc_hasBr (acquireReader s st)" "br_size (sc_br (acquireReader s st)) = reader_size s"
  "rd_data (sc_br (acquireReader s st)) = rd_data (sc_br st)" "rd_err (sc_br (acquireReader s st)) = rd_err (sc_br st)"
  "br_wf (sc_br (acquireReader s st))" "sc_ctx (acquireReader s st) = sc_ctx st"
  "sc_connRequestNum (acquireReader s st) = sc_connRequestNum st" "same_run st (acquireReader s st)"
  "sc_out (acquireReader s st) = sc_out st" "sc_bw (acquireReader s st) = sc_bw st"
  by (simp_all add: acquireReader_def reader_size_def br_wf_def same_run_def Let_def written_def)

lemma reader_plain:
  assumes "plain_server s" and "cn_deadlineErr c = None" and "between s st"
    and "rd_data (sc_br st) \<noteq> [] \<or> sc_connRequestNum st = 0"
  obtains st' where "serveConn_reader s c E st = Ret (None, st')" and "same_run st st'" and "sc_ctx st' = sc_ctx st"
    and "sc_connRequestNum st' = Suc (sc_connRequestNum st)" and "sc_hasBr st'" and "br_wf (sc_br st')"
    and "br_size (sc_br st') = reader_size s" and "rd_data (sc_br st') = rd_data (sc_br st)"
    and "rd_err (sc_br st') = rd_err (sc_br st)" and "sc_out st' = sc_out st" and "sc_bw st' = sc_bw st"
proof -
  let ?st = "st\<lparr>sc_connRequestNum := Suc (sc_connRequestNum st)\<rparr>"
  have red: "\<not> sv_ReduceMemoryUsage s" using assms(1) by (simp add: plain_server_def)
  show thesis
  proof (cases "sc_connRequestNum st = 0")
    case True
    define st' where "st' = (if sc_hasBr st then ?st else acquireReader s ?st)"
    have "same_run st ?st" by (simp add: same_run_def)
    moreover have "same_run ?st st'" unfolding st'_def using acquireReader_simps(8) [of ?st s] by (simp add: same_run_def)
    ultimately have run: "same_run st st'" by (rule same_run_trans)
    have "serveConn_reader s c E st = Ret (None, st')"
      using True red by (simp add: serveConn_reader_def set_deadline_plain [OF assms(2)] Let_def st'_def)
    from this run show thesis
      by (rule that) (use assms(3) in \<open>simp_all add: st'_def between_def\<close>)
  next
    case False
    define st1 where "st1 = (if Server_idleTimeout s \<le> 0 then ?st else sc_event ?st (SetReadDeadline (Server_idleTimeout s)))"
    have st1: "same_run st st1" "sc_ctx st1 = sc_ctx st" "sc_connRequestNum st1 = Suc (sc_connRequestNum st)"
      "sc_hasBr st1" "sc_br st1 = sc_br st" "sc_out st1 = sc_out st" "sc_bw st1 = sc_bw st"
      using assms(3) False by (simp_all add: st1_def same_run_def between_def)
    obtain b err r where pk: "br_Peek (sc_br st) 1 = (b, err, r)" by (cases "br_Peek (sc_br st) 1") auto
    have data: "rd_data (sc_br st) \<noteq> []" using assms(4) False by simp
    have wf: "br_wf (sc_br st)" "br_size (sc_br st) = reader_size s" using assms(3) False by (simp_all add: between_def)
    have "1 \<le> length (rd_data (sc_br st))" "1 \<le> br_size (sc_br st)"
      using data wf(2) by (simp_all add: Suc_le_eq reader_size_def)
    then have r: "b = take 1 (rd_data (sc_br st))" "err = None" "br_same (sc_br st) r" "br_wf r"
      using br_Peek_spec [OF wf(1) pk] by auto
    have dl: "set_deadline c SetReadDeadline (Server_idleTimeout s) ?st = Ret st1"
      by (simp add: set_deadline_plain [OF assms(2)] st1_def)
    have "serveConn_reader s c E st = Ret (None, st1\<lparr>sc_br := r\<rparr>)"
      using False red st1(3-5) pk r(1,2) data by (simp add: serveConn_reader_def dl Let_def)
    then show thesis
      by (rule that) (use st1 r(3,4) wf(2) in \<open>simp_all add: br_same_def same_run_def\<close>)
  qed
qed

lemma setRead_simps [simp]:
  "sc_header (sc_setRead st h r) = h" "sc_br (sc_setRead st h r) = r" "sc_hasBr (sc_setRead st h r) = sc_hasBr st"
  "sc_connRequestNum (sc_setRead st h r) = sc_connRequestNum st" "sc_bw (sc_setRead st h r) = sc_bw st"
  "sc_ctx (sc_setRead st h r) = (sc_ctx st)\<lparr>x_Request := (x_Request (sc_ctx st))\<lparr>q_Header := h\<rparr>\<rparr>"
  "same_run st (sc_setRead st h r)" "written (sc_setRead st h r) = written st"
  by (simp_all add: sc_setRead_def sc_header_def same_run_def)

lemma readHeader_plain:
  assumes "readLoop_once (se_readLoop E)" and "cn_takes c = None"
    and "request_ok (rq_disableNormalizing (sc_header st)) h" and "br_wf (sc_br st)"
    and "rd_data (sc_br st) = RequestHeader_AppendBytes h [] @ body"
    and "length (RequestHeader_AppendBytes h []) \<le> br_size (sc_br st)"
  obtains st' where "serveConn_readHeader c E st = Go (None, st')" and "same_run st st'"
    and "request_read_back h (sc_header st')" and "rd_data (sc_br st') = body" and "rd_err (sc_br st') = rd_err (sc_br st)"
    and "br_wf (sc_br st')" and "br_size (sc_br st') = br_size (sc_br st)" and "sc_hasBr st' = sc_hasBr st"
    and "sc_connRequestNum st' = sc_connRequestNum st"
    and "sc_ctx st' = (sc_ctx st)\<lparr>x_Request := (x_Request (sc_ctx st))\<lparr>q_Header := sc_header st'\<rparr>\<rparr>"
proof -
  let ?s = "RequestHeader_AppendBytes h []" and ?r = "sc_br st"
  have len: "0 < (1 :: nat)" "1 \<le> length ?s"
    by (simp_all add: RequestHeader_AppendBytes_fields request_line_def Suc_le_eq)
  have read: "\<exists>h' r'. RequestHeader_Read g r = Ret (h', None, r') \<and> request_read_back h h' \<and> rd_data r' = body
      \<and> rd_err r' = rd_err r \<and> br_wf r' \<and> br_size r' = br_size r"
    if "rq_disableNormalizing g = rq_disableNormalizing (sc_header st)" "br_wf r" "rd_data r = ?s @ body" "length ?s \<le> br_size r" for g r
    unfolding RequestHeader_Read_def by (rule Read_loop_complete) (use assms(3) that len in simp_all)
  show thesis
  proof (cases "length (nilable (sc_bw st)) > 0")
    case False
    obtain h' r' where h': "RequestHeader_Read (sc_header st) ?r = Ret (h', None, r')" "request_read_back h h'" "rd_data r' = body"
      "rd_err r' = rd_err ?r" "br_wf r'" "br_size r' = br_size ?r" using read [OF refl assms(4-6)] by blast
    have "serveConn_readHeader c E st = Go (None, sc_setRead st h' r')"
      using False h'(1) by (simp add: serveConn_readHeader_def)
    then show thesis by (rule that) (use h' in simp_all)
  next
    case True
    from assms(3,4) len(1) assms(5) len(2) assms(6) show thesis
    proof (cases rule: tryRead_complete)
      case (more g1 r1)
      let ?h1 = "RequestHeader_resetSkipNormalize g1"
      let ?st1 = "(sc_setRead st ?h1 r1)\<lparr>sc_out := written st, sc_bw := Some []\<rparr>"
      have "se_readLoop E (sc_header st) ?r = Ret (?h1, Some NeedMore, r1)"
        using assms(1) more(1) by (simp add: readLoop_once_def)
      moreover obtain h' r' where h': "RequestHeader_Read ?h1 r1 = Ret (h', None, r')" "request_read_back h h'" "rd_data r' = body"
        "rd_err r' = rd_err r1" "br_wf r'" "br_size r' = br_size r1"
        using read [of ?h1 r1] more assms(5,6) by (auto simp: br_same_def RequestHeader_resetSkipNormalize_def)
      ultimately have "serveConn_readHeader c E st = Go (None, sc_setRead ?st1 h' r')"
        using True by (simp add: serveConn_readHeader_def bw_Flush_plain [OF assms(2)] sc_header_def Let_def)
      then show thesis
        by (rule that) (use h' more(3) in \<open>simp_all add: br_same_def same_run_def sc_setRead_def sc_header_def\<close>)
    next
      case (ready h' r')
      then have "serveConn_readHeader c E st = Go (None, sc_setRead st h' r')"
        using True assms(1) by (simp add: serveConn_readHeader_def readLoop_once_def)
      then show thesis by (rule that) (use ready in simp_all)
    qed
  qed
qed

lemma read_back_no_continue:
  assumes "message_ok d q" and "request_read_back (message_header q) (q_Header g)"
  shows "\<not> Request_MayContinue g"
proof -
  have "nilable (peekArg (rq_h (q_Header g)) strExpect) = nilable (peekArg (rq_h (message_header q)) strExpect)"
    by (rule MayContinue_read_back) (use assms(2) in \<open>simp add: request_read_back_def\<close>)
  also have "\<dots> = nilable (peekArg (rq_h (q_Header q)) strExpect)"
    by (simp add: peekArg_list list_peek_pairs message_header_ok(4) [OF assms(1)])
  finally show ?thesis
    using assms(1) by (simp add: message_ok_def Request_MayContinue_def peek_plain_name)
qed

text \<open>The context of a request that has been read and not been handled.\<close>

definition fresh_ctx :: "('f, 'v, 'h) RequestCtx \<Rightarrow> bool" where
  "fresh_ctx ctx \<longleftrightarrow>
     x_timeoutResponse ctx = None \<and> x_hijackHandler ctx = None \<and> x_stream ctx = None \<and> live (x_userValues ctx) = []
     \<and> empty_response (x_Response ctx) \<and> rs_server (p_Header (x_Response ctx)) = []"

lemma setup_simps:
  "q_bodyRaw (x_Request (serveConn_setup s c ctx)) = q_bodyRaw (x_Request ctx)"
  "q_bodyStream (x_Request (serveConn_setup s c ctx)) = q_bodyStream (x_Request ctx)"
  "q_multipartForm (x_Request (serveConn_setup s c ctx)) = q_multipartForm (x_Request ctx)"
  "q_body (x_Request (serveConn_setup s c ctx)) = q_body (x_Request ctx)"
  "rq_disableNormalizing (q_Header (x_Request (serveConn_setup s c ctx))) = rq_disableNormalizing (q_Header (x_Request ctx))"
  "fresh_ctx (serveConn_setup s c ctx) = fresh_ctx ctx"
  by (simp_all add: serveConn_setup_def fresh_ctx_def empty_response_def Let_def)

lemma normalizing_simps:
  "q_bodyRaw (x_Request (serveConn_normalizing s ctx)) = q_bodyRaw (x_Request ctx)"
  "q_bodyStream (x_Request (serveConn_normalizing s ctx)) = q_bodyStream (x_Request ctx)"
  "q_multipartForm (x_Request (serveConn_normalizing s ctx)) = q_multipartForm (x_Request ctx)"
  "q_body (x_Request (serveConn_normalizing s ctx)) = q_body (x_Request ctx)"
  "rq_disableNormalizing (q_Header (x_Request (serveConn_normalizing s ctx))) \<longleftrightarrow>
     sv_DisableHeaderNamesNormalizing s \<or> rq_disableNormalizing (q_Header (x_Request ctx))"
  "fresh_ctx (serveConn_normalizing s ctx) = fresh_ctx ctx"
  by (simp_all add: serveConn_normalizing_def fresh_ctx_def empty_response_def RequestHeader_DisableNormalizing_def
      ResponseHeader_DisableNormalizing_def Let_def)

lemma setup_configured:
  assumes "\<not> rs_disableNormalizing (p_Header (x_Response ctx))"
  shows "configured s (x_Response (serveConn_normalizing s (serveConn_setup s c ctx)))"
  using assms by (simp add: configured_def serveConn_normalizing_def serveConn_setup_def ResponseHeader_DisableNormalizing_def Let_def)

lemma readBody_plain:
  assumes "plain_server s" and "acceptable s q" and "br_wf (sc_br st)" and "sc_maxRequestBodySize st = body_limit s"
    and "request_read_back (message_header q) (sc_header st)" and "rd_data (sc_br st) = message_body q @ rest"
    and "q_bodyRaw (x_Request (sc_ctx st)) = None" and "q_bodyStream (x_Request (sc_ctx st)) = None"
    and "q_multipartForm (x_Request (sc_ctx st)) = None" and "nilable (q_body (x_Request (sc_ctx st))) = []"
  obtains req r where "serveConn_readBody s E False st = Ret (None, st\<lparr>sc_ctx := (sc_ctx st)\<lparr>x_Request := req\<rparr>, sc_br := r\<rparr>)"
    and "message_read q req" and "rd_data r = rest" and "rd_err r = rd_err (sc_br st)" and "br_wf r" and "br_size r = br_size (sc_br st)"
proof -
  let ?g = "x_Request (sc_ctx st)" and ?pre = "\<not> sv_DisablePreParseMultipartForm s"
  have ok: "message_ok (sv_DisableHeaderNamesNormalizing s) q" and lim: "body_limit s \<le> 0 \<or> int (length (message_body q)) \<le> body_limit s"
    using assms(2) by (simp_all add: acceptable_def)
  have rb: "request_read_back (message_header q) (q_Header ?g)" using assms(5) by (simp add: sc_header_def)
  obtain req r where r: "Request_ContinueReadBody (se_lib E) (se_reads E) (se_capacity E) ?g (sc_br st) (body_limit s) ?pre = Ret (req, None, r)"
    "message_read q req" "rd_data r = rest" "rd_err r = rd_err (sc_br st)" "br_wf r" "br_size r = br_size (sc_br st)"
    using ContinueReadBody_message [OF ok rb assms(6,3) lim assms(7-10)] by blast
  have "\<not> Request_MayContinue ?g" by (rule read_back_no_continue [OF ok rb])
  then have "serveConn_readBody s E False st = Ret (None, st\<lparr>sc_ctx := (sc_ctx st)\<lparr>x_Request := req\<rparr>, sc_br := r\<rparr>)"
    using assms(1,4) r(1) by (simp add: serveConn_readBody_def plain_server_def Request_readLimitBody_def Let_def)
  from that [OF this r(2-)] show thesis .
qed

lemma readRequest_plain:
  assumes "plain_server s" and "plain_conn c" and "readLoop_once (se_readLoop E)" and "between s st" and "acceptable s q"
    and "rd_data (sc_br st) = request_bytes q @ rest"
  obtains st' where "serveConn_readRequest s c E st = Go st'" and "same_run st st'" and "message_read q (x_Request (sc_ctx st'))"
    and "fresh_ctx (sc_ctx st')" and "configured s (x_Response (sc_ctx st'))"
    and "rd_data (sc_br st') = rest" and "rd_err (sc_br st') = rd_err (sc_br st)"
    and "br_wf (sc_br st')" and "br_size (sc_br st') = reader_size s" and "sc_hasBr st'"
    and "sc_connRequestNum st' = Suc (sc_connRequestNum st)"
proof -
  note c = assms(2) [unfolded plain_conn_def, THEN conjunct2, THEN conjunct1]
    assms(2) [unfolded plain_conn_def, THEN conjunct2, THEN conjunct2]
  let ?d = "sv_DisableHeaderNamesNormalizing s"
  have ok: "request_ok ?d (message_header q)" "length (RequestHeader_AppendBytes (message_header q) []) \<le> reader_size s"
    using message_header_ok(1) assms(5) by (auto simp: acceptable_def)
  have "request_bytes q \<noteq> []" by (simp add: request_bytes_def RequestHeader_AppendBytes_fields request_line_def)
  then have "rd_data (sc_br st) \<noteq> [] \<or> sc_connRequestNum st = 0" using assms(6) by simp
  from reader_plain [OF assms(1) c(1) assms(4) this, of E] obtain st1 where st1:
    "serveConn_reader s c E st = Ret (None, st1)" "same_run st st1" "sc_ctx st1 = sc_ctx st"
    "sc_connRequestNum st1 = Suc (sc_connRequestNum st)" "sc_hasBr st1" "br_wf (sc_br st1)"
    "br_size (sc_br st1) = reader_size s" "rd_data (sc_br st1) = rd_data (sc_br st)" "rd_err (sc_br st1) = rd_err (sc_br st)"
    "sc_out st1 = sc_out st" "sc_bw st1 = sc_bw st" .
  define st2 where "st2 = (let st = st1\<lparr>sc_ctx := serveConn_setup s c (sc_ctx st1)\<rparr>
    in if sv_ReadTimeout s \<le> 0 then st else sc_event st (SetReadDeadline (sv_ReadTimeout s)))"
  have st2: "set_deadline c SetReadDeadline (sv_ReadTimeout s) (st1\<lparr>sc_ctx := serveConn_setup s c (sc_ctx st1)\<rparr>) = Ret st2"
    by (simp add: set_deadline_plain [OF c(1)] st2_def Let_def)
  define st3 where "st3 = st2\<lparr>sc_ctx := serveConn_normalizing s (sc_ctx st2)\<rparr>"
  have st3: "sc_br st3 = sc_br st1" "sc_hasBr st3" "sc_connRequestNum st3 = Suc (sc_connRequestNum st)" "same_run st1 st3"
    "sc_ctx st3 = serveConn_normalizing s (serveConn_setup s c (sc_ctx st))"
    using st1 by (auto simp: st3_def st2_def Let_def same_run_def)
  have clean: "clean_ctx (sc_ctx st)" using assms(4) by (simp add: between_def)
  have d: "rq_disableNormalizing (sc_header st3) = ?d"
    using clean by (simp add: sc_header_def st3(5) setup_simps normalizing_simps clean_ctx_def Let_def)
  have "rd_data (sc_br st3) = RequestHeader_AppendBytes (message_header q) [] @ message_body q @ rest"
    using assms(6) st1(8) st3(1) by (simp add: request_bytes_def)
  from readHeader_plain [OF assms(3) c(2) ok(1) [folded d] _ this] st1(6,7) ok(2) st3(1) obtain st4 where st4:
    "serveConn_readHeader c E st3 = Go (None, st4)" "same_run st3 st4" "request_read_back (message_header q) (sc_header st4)"
    "rd_data (sc_br st4) = message_body q @ rest" "rd_err (sc_br st4) = rd_err (sc_br st3)" "br_wf (sc_br st4)"
    "br_size (sc_br st4) = br_size (sc_br st3)" "sc_hasBr st4 = sc_hasBr st3" "sc_connRequestNum st4 = sc_connRequestNum st3"
    "sc_ctx st4 = (sc_ctx st3)\<lparr>x_Request := (x_Request (sc_ctx st3))\<lparr>q_Header := sc_header st4\<rparr>\<rparr>" by metis
  have run: "same_run st st4" by (meson st1(2) st3(4) st4(2) same_run_trans)
  then have lim: "sc_maxRequestBodySize st4 = body_limit s" using assms(4) by (simp add: same_run_def between_def)
  have req: "q_bodyRaw (x_Request (sc_ctx st4)) = None" "q_bodyStream (x_Request (sc_ctx st4)) = None"
    "q_multipartForm (x_Request (sc_ctx st4)) = None" "nilable (q_body (x_Request (sc_ctx st4))) = []"
    using clean st4(10) st3(5) by (simp_all add: setup_simps normalizing_simps clean_ctx_def Let_def)
  have "fresh_ctx (sc_ctx st)" using clean by (simp add: clean_ctx_def fresh_ctx_def)
  then have "fresh_ctx (sc_ctx st3)" unfolding st3(5) setup_simps normalizing_simps .
  then have fresh: "fresh_ctx (sc_ctx st4)" unfolding st4(10) by (simp add: fresh_ctx_def)
  have conf: "configured s (x_Response (sc_ctx st4))"
    using setup_configured [of "sc_ctx st" s c] clean by (simp add: st4(10) st3(5) clean_ctx_def)
  obtain rq r where r: "serveConn_readBody s E False st4 = Ret (None, st4\<lparr>sc_ctx := (sc_ctx st4)\<lparr>x_Request := rq\<rparr>, sc_br := r\<rparr>)"
    "message_read q rq" "rd_data r = rest" "rd_err r = rd_err (sc_br st4)" "br_wf r" "br_size r = br_size (sc_br st4)"
    by (rule readBody_plain [OF assms(1,5) st4(6) lim st4(3,4) req, where E = E]) (rule that)
  let ?st = "sc_event (st4\<lparr>sc_ctx := (sc_ctx st4)\<lparr>x_Request := rq\<rparr>, sc_br := r\<rparr>) (ConnStateIs StateActive)"
  have "serveConn_headerReceived s c st4 = Ret st4"
    using assms(1) by (simp add: serveConn_headerReceived_def plain_server_def)
  moreover have "serveConn_giveBack s (None :: 'd msg_err option) ?st = ?st"
    using assms(1) by (simp add: serveConn_giveBack_def plain_server_def)
  ultimately have "serveConn_readRequest s c E st = Go ?st"
    using st1(1) st2 st4(1) r(1) by (simp add: serveConn_readRequest_def Let_def st3_def)
  moreover have "same_run st ?st" using run by (simp add: same_run_def)
  ultimately show thesis
    using that [of ?st] r fresh conf st1(7,9) st3(1-3) st4(5-9) by (simp add: fresh_ctx_def)
qed

lemma call_plain:
  assumes "answers s" and "fresh_ctx (sc_ctx st)" and "sc_continueReadingRequest st" and "configured s (x_Response (sc_ctx st))"
  obtains ctx st' where "serveConn_call s E connID st = Go st'" and "x_Request ctx = x_Request (sc_ctx st)"
    and "new_ctx s connID (sc_connRequestNum st) ctx"
    and "handled (sc_log st') = handled (sc_log st) @ [ctx]" and "sc_ctx st' = sv_Handler s ctx []"
    and "x_timeoutResponse (sc_ctx st') = None" and "x_hijackHandler (sc_ctx st') = None"
    and "p_bodyStream (x_Response (sc_ctx st')) = None"
    and "sc_connectionClose st' = (sv_DisableKeepalive s \<or> rq_connectionClose (q_Header (x_Request ctx)))"
    and "sc_isHTTP11 st' = RequestHeader_IsHTTP11 (q_Header (x_Request ctx))"
    and "written st' = written st" and "sc_br st' = sc_br st" and "sc_hasBr st' = sc_hasBr st" and "sc_ctxNil st' = sc_ctxNil st"
    and "sc_connRequestNum st' = sc_connRequestNum st" and "sc_maxRequestBodySize st' = sc_maxRequestBodySize st"
    and "sc_continueReadingRequest st'"
proof -
  define ctx where "ctx = (SetServerBytes (serverName s) (sc_ctx st))
    \<lparr>x_connID := connID, x_connRequestNum := of_nat (sc_connRequestNum st), x_time := se_now E (sc_connRequestNum st)\<rparr>"
  have ctx: "x_Request ctx = x_Request (sc_ctx st)" "x_stream ctx = None" "x_timeoutResponse ctx = None"
    "x_hijackHandler ctx = None" "p_bodyStream (x_Response ctx) = None"
    using assms(2) by (simp_all add: ctx_def fresh_ctx_def empty_response_def)
  have new: "new_ctx s connID (sc_connRequestNum st) ctx"
    using assms(2,4) by (cases "serverName s")
      (simp_all add: ctx_def fresh_ctx_def new_ctx_def SetServerBytes_def ResponseHeader_SetServer_def empty_response_def
        configured_def nilable_def Let_def)
  have h: "x_timeoutResponse (sv_Handler s ctx []) = None" "x_hijackHandler (sv_Handler s ctx []) = None"
    "p_bodyStream (x_Response (sv_Handler s ctx [])) = None"
    using assms(1) ctx(3-5) unfolding answers_def Let_def by blast+
  define st1 where "st1 = st\<lparr>sc_connectionClose := (sv_DisableKeepalive s \<or> rq_connectionClose (sc_header st)),
    sc_isHTTP11 := RequestHeader_IsHTTP11 (sc_header st), sc_ctx := ctx\<rparr>"
  have st1: "sc_ctx st1 = ctx" "sc_continueReadingRequest st1" using assms(3) by (simp_all add: st1_def)
  let ?st = "(sc_event st1 (Handled ctx))\<lparr>sc_ctx := sv_Handler s ctx []\<rparr>"
  have "serveConn_handler s E st1 = Ret ?st" using ctx(2) by (simp add: serveConn_handler_def st1(1))
  then have "serveConn_call s E connID st = Go ?st"
    unfolding serveConn_call_def Let_def ctx_def [symmetric] st1_def [symmetric] using st1(2) h(1) by simp
  then show thesis
    by (rule that [OF _ ctx(1) new]) (use h assms(3) ctx(1) in \<open>simp_all add: st1_def sc_header_def sc_event_def written_def\<close>)
qed

lemma writeResponse_plain:
  fixes E :: "('f, 'v, 'h, 'e) serve_env"
  assumes "cn_takes c = None" and "x_timeoutResponse (sc_ctx st) = None" and "p_bodyStream (x_Response (sc_ctx st)) = None"
  obtains st' resp where "writeResponse s c E st = Ret (None, st')"
    and "written st' = written st @ fst (Response_Write (se_serverDate E) (x_Response (sc_ctx st)) :: bytes \<times> 'e msg_err option \<times> Response)"
    and "st' = st\<lparr>sc_out := sc_out st', sc_bw := sc_bw st', sc_ctx := (sc_ctx st)\<lparr>x_Response := Response_Reset resp\<rparr>\<rparr>"
proof -
  obtain p err resp where w: "(Response_Write (se_serverDate E) (x_Response (sc_ctx st)) :: bytes \<times> 'e msg_err option \<times> Response) = (p, err, resp)"
    by (cases "Response_Write (se_serverDate E) (x_Response (sc_ctx st)) :: bytes \<times> 'e msg_err option \<times> Response") auto
  have err: "err = None" using w assms(3) by (auto simp: Response_Write_def Let_def split: prod.splits if_splits)
  obtain st1 where st1: "bw_Write s c E False p st = (True, st1)" "written st1 = written st @ p"
    "st1 = st\<lparr>sc_out := sc_out st1, sc_bw := sc_bw st1\<rparr>"
    by (rule bw_Write_plain [OF assms(1), where s = s and E = E and p = p and st = st and fl = False]) (rule that)
  let ?st = "st1\<lparr>sc_ctx := (sc_ctx st)\<lparr>x_Response := Response_Reset resp\<rparr>\<rparr>"
  have a: "writeResponse s c E st = Ret (None, ?st)"
    using assms(2,3) w err st1(1) by (simp add: writeResponse_def Let_def)
  have b: "?st = st\<lparr>sc_out := sc_out ?st, sc_bw := sc_bw ?st, sc_ctx := (sc_ctx st)\<lparr>x_Response := Response_Reset resp\<rparr>\<rparr>"
    by (subst st1(3)) simp
  have "written ?st = written st @ fst (Response_Write (se_serverDate E) (x_Response (sc_ctx st)) :: bytes \<times> 'e msg_err option \<times> Response)"
    by (simp add: st1(2) w)
  from that [OF a this b] show thesis .
qed

text \<open>The reply is written; when nothing more has arrived, or the connection closes, it is flushed.\<close>

lemma reply_plain:
  fixes E :: "('f, 'v, 'h, 'e) serve_env"
  assumes "\<not> sv_ReduceMemoryUsage s" and "plain_conn c" and "se_stop E = (\<lambda>_. False)"
    and "x_timeoutResponse (sc_ctx st) = None" and "x_hijackHandler (sc_ctx st) = None" and "p_bodyStream (x_Response (sc_ctx st)) = None"
    and "br_wf (sc_br st)" and "br_size (sc_br st) = reader_size s" and "sc_hasBr st" and "\<not> sc_ctxNil st"
    and "sc_maxRequestBodySize st = body_limit s" and "sc_continueReadingRequest st"
    and "serveConn_finish s E (sc_connRequestNum st) (sc_connectionClose st) (sc_isHTTP11 st) (sc_ctx st) = (hh, hn, ctx', close)"
  obtains st' where "serveConn_reply s c E st = (if close then Stop None st' else Go st')"
    and "written st' = written st @ fst (Response_Write (se_serverDate E) (x_Response ctx') :: bytes \<times> 'e msg_err option \<times> Response)"
    and "handled (sc_log st') = handled (sc_log st)" and "sc_br st' = sc_br st" and "sc_connRequestNum st' = sc_connRequestNum st"
    and "\<not> close \<Longrightarrow> between s st'" and "close \<or> rd_data (sc_br st) = [] \<Longrightarrow> sc_out st' = written st'"
    and "x_timeoutResponse (sc_ctx st') = None"
proof -
  note dl = set_deadline_plain [of c, OF assms(2) [unfolded plain_conn_def, THEN conjunct2, THEN conjunct1]]
  have takes: "cn_takes c = None" using assms(2) by (simp add: plain_conn_def)
  note fp = finish_parts [OF assms(13)]
  have hh: "hh = None" using fp(1) assms(5) by simp
  have hn: "\<not> hn" using fp(7) assms(5) by blast
  note red = assms(1)
  define st1 where "st1 = (let st = st\<lparr>sc_ctx := ctx', sc_reqReset := True, sc_connectionClose := close\<rparr>
    in if sc_writeTimeout st \<le> 0 then st else sc_event st (SetWriteDeadline (sc_writeTimeout st)))"
  have d1: "set_deadline c SetWriteDeadline (sc_writeTimeout st) (st\<lparr>sc_ctx := ctx', sc_reqReset := True, sc_connectionClose := close\<rparr>) = Ret st1"
    by (simp add: dl st1_def Let_def)
  define st2 where "st2 = acquireWriter st1"
  have st2: "sc_ctx st2 = ctx'" "written st2 = written st" "handled (sc_log st2) = handled (sc_log st)" "sc_br st2 = sc_br st"
    "sc_hasBr st2" "sc_connectionClose st2 = close" "sc_connRequestNum st2 = sc_connRequestNum st" "\<not> sc_ctxNil st2"
    "sc_maxRequestBodySize st2 = body_limit s" "sc_continueReadingRequest st2"
    using assms(9-12) by (simp_all add: st2_def st1_def acquireWriter_def written_def nilable_def sc_event_def Let_def)
  obtain st3 resp where st3: "writeResponse s c E st2 = Ret (None, st3)"
    "written st3 = written st2 @ fst (Response_Write (se_serverDate E) (x_Response (sc_ctx st2)) :: bytes \<times> 'e msg_err option \<times> Response)"
    "st3 = st2\<lparr>sc_out := sc_out st3, sc_bw := sc_bw st3, sc_ctx := (sc_ctx st2)\<lparr>x_Response := Response_Reset resp\<rparr>\<rparr>"
    by (rule writeResponse_plain [OF takes, where s = s and E = E and st = st2])
      (use fp(2,3) assms(4,6) st2(1) in \<open>auto intro: that\<close>)
  have clean: "answered_ctx (ctx'\<lparr>x_Response := Response_Reset resp\<rparr>)" by (rule finish_clean [OF assms(13,4)])
  obtain out bw where st3_def: "st3 = st2\<lparr>sc_out := out, sc_bw := bw, sc_ctx := ctx'\<lparr>x_Response := Response_Reset resp\<rparr>\<rparr>"
    using st3(3) st2(1) by metis
  let ?flush = "br_Buffered (sc_br st) = 0 \<or> close"
  define st4 where "st4 = (if ?flush then st3\<lparr>sc_out := written st3, sc_bw := Some []\<rparr> else st3)"
  have st4: "sc_ctx st4 = ctx'\<lparr>x_Response := Response_Reset resp\<rparr>" "written st4 = written st3" "handled (sc_log st4) = handled (sc_log st)"
    "sc_br st4 = sc_br st" "sc_hasBr st4" "sc_connectionClose st4 = close" "sc_connRequestNum st4 = sc_connRequestNum st" "\<not> sc_ctxNil st4"
    "sc_maxRequestBodySize st4 = body_limit s" "sc_continueReadingRequest st4" "?flush \<Longrightarrow> sc_out st4 = written st4"
    using st2 by (auto simp: st4_def st3_def)
  have "serveConn_write s c E hh st1 = (if close then Stop None st4 else Go st4)"
    using st3(1) st2(5,6) red st3_def st2(4)
    by (auto simp: serveConn_write_def st2_def [symmetric] flush_flow_def flow_then_def bw_Flush_plain [OF takes] st4_def)
  define st5 where "st5 = (sc_event st4 (ConnStateIs StateIdle))
    \<lparr>sc_ctx := snd (ctx_ResetUserValues (se_isCloser E) (sc_ctx st4))\<rparr>"
  have "serveConn_idle E st4 = Go st5"
    using assms(3) by (simp add: serveConn_idle_def st5_def Let_def)
  have "serveConn_reply s c E st = (if close then Stop None st4 else Go st5)"
    using assms(13) hn hh d1 \<open>serveConn_write s c E hh st1 = _\<close> \<open>serveConn_idle E st4 = Go st5\<close>
    by (simp add: serveConn_reply_def flow_then_def)
  have clean5: "clean_ctx (sc_ctx st5)"
    using clean st4(1)
    by (simp add: st5_def ctx_ResetUserValues_def answered_ctx_def clean_ctx_def userData_Reset_def slice_reset_def slice_empty_def Let_def)
  have flush: "?flush" if "close \<or> rd_data (sc_br st) = []"
    using that assms(7) by (auto simp: br_wf_def br_Buffered_def)
  show thesis
  proof (rule that [of "if close then st4 else st5"])
    show "serveConn_reply s c E st = (if close then Stop None (if close then st4 else st5) else Go (if close then st4 else st5))"
      using \<open>serveConn_reply s c E st = _\<close> by simp
    show "written (if close then st4 else st5) = written st @ fst (Response_Write (se_serverDate E) (x_Response ctx') :: bytes \<times> 'e msg_err option \<times> Response)"
      using st4(2) st3(2) st2(1,2) by (simp add: st5_def)
    show "between s (if close then st4 else st5)" if "\<not> close"
      using that st4 clean5 assms(7-9) by (auto simp: between_def st5_def)
    show "sc_out (if close then st4 else st5) = written (if close then st4 else st5)" if "close \<or> rd_data (sc_br st) = []"
      using st4(11) [OF flush [OF that]] by (simp add: st5_def)
    show "x_timeoutResponse (sc_ctx (if close then st4 else st5)) = None"
      using clean clean5 st4(1) by (simp add: clean_ctx_def answered_ctx_def)
  qed (use st4 in \<open>simp_all add: st5_def\<close>)
qed


section \<open>Rounds and runs\<close>

lemma round_plain:
  fixes E :: "('f, 'v, 'h, 'e) serve_env"
  assumes "plain_server s" and "answers s" and "plain_conn c" and "readLoop_once (se_readLoop E)" and "se_stop E = (\<lambda>_. False)"
    and "between s st" and "acceptable s q" and "rd_data (sc_br st) = request_bytes q @ rest"
  obtains ctx st' where "message_read q (x_Request ctx)" and "new_ctx s connID (Suc (sc_connRequestNum st)) ctx"
    and "\<not> snd (reply s E (Suc (sc_connRequestNum st)) ctx) \<Longrightarrow> between s st'" and "x_timeoutResponse (sc_ctx st') = None"
    and "serveConn_round s c E connID st = (if snd (reply s E (Suc (sc_connRequestNum st)) ctx) then Stop None st' else Go st')"
    and "handled (sc_log st') = handled (sc_log st) @ [ctx]"
    and "written st' = written st @ fst (reply s E (Suc (sc_connRequestNum st)) ctx)"
    and "rd_data (sc_br st') = rest" and "rd_err (sc_br st') = rd_err (sc_br st)"
    and "sc_connRequestNum st' = Suc (sc_connRequestNum st)"
    and "snd (reply s E (Suc (sc_connRequestNum st)) ctx) \<or> rest = [] \<Longrightarrow> sc_out st' = written st'"
proof -
  have sc: "sc_maxRequestBodySize st = body_limit s" "sc_continueReadingRequest st" "\<not> sc_ctxNil st" using assms(6) by (simp_all add: between_def)
  obtain st1 where st1: "serveConn_readRequest s c E st = Go st1" "same_run st st1" "message_read q (x_Request (sc_ctx st1))"
    "fresh_ctx (sc_ctx st1)" "configured s (x_Response (sc_ctx st1))" "rd_data (sc_br st1) = rest"
    "rd_err (sc_br st1) = rd_err (sc_br st)" "br_wf (sc_br st1)"
    "br_size (sc_br st1) = reader_size s" "sc_hasBr st1" "sc_connRequestNum st1 = Suc (sc_connRequestNum st)"
    by (rule readRequest_plain [OF assms(1,3,4,6-8)]) (rule that)
  have "\<not> Request_MayContinue (x_Request (sc_ctx st1))"
    using read_back_no_continue st1(3) assms(7) unfolding message_read_def acceptable_def by blast
  then have cont: "serveConn_continue s c E st1 = Go st1" by (simp add: serveConn_continue_def)
  have run: "written st1 = written st" "handled (sc_log st1) = handled (sc_log st)" "\<not> sc_ctxNil st1"
    "sc_maxRequestBodySize st1 = body_limit s" "sc_continueReadingRequest st1"
    using st1(2) sc by (simp_all add: same_run_def)
  obtain ctx st2 where st2: "serveConn_call s E connID st1 = Go st2" "x_Request ctx = x_Request (sc_ctx st1)"
    "new_ctx s connID (sc_connRequestNum st1) ctx"
    "handled (sc_log st2) = handled (sc_log st1) @ [ctx]" "sc_ctx st2 = sv_Handler s ctx []"
    "x_timeoutResponse (sc_ctx st2) = None" "x_hijackHandler (sc_ctx st2) = None" "p_bodyStream (x_Response (sc_ctx st2)) = None"
    "sc_connectionClose st2 = (sv_DisableKeepalive s \<or> rq_connectionClose (q_Header (x_Request ctx)))"
    "sc_isHTTP11 st2 = RequestHeader_IsHTTP11 (q_Header (x_Request ctx))" "written st2 = written st1" "sc_br st2 = sc_br st1"
    "sc_hasBr st2 = sc_hasBr st1" "sc_ctxNil st2 = sc_ctxNil st1" "sc_connRequestNum st2 = sc_connRequestNum st1"
    "sc_maxRequestBodySize st2 = sc_maxRequestBodySize st1" "sc_continueReadingRequest st2"
    by (rule call_plain [OF assms(2) st1(4) run(5) st1(5), where E = E and connID = connID]) (rule that)
  let ?n = "Suc (sc_connRequestNum st)"
  obtain hh hn ctx' close where fin:
    "serveConn_finish s E (sc_connRequestNum st2) (sc_connectionClose st2) (sc_isHTTP11 st2) (sc_ctx st2) = (hh, hn, ctx', close)"
    by (metis prod_cases4)
  then have rep: "reply s E ?n ctx = (fst (Response_Write (se_serverDate E) (x_Response ctx') :: bytes \<times> 'e msg_err option \<times> Response), close)"
    using st2(5,9,10,15) st1(11) by (simp add: reply_def Let_def)
  obtain st3 where st3: "serveConn_reply s c E st2 = (if close then Stop None st3 else Go st3)"
    "written st3 = written st2 @ fst (Response_Write (se_serverDate E) (x_Response ctx') :: bytes \<times> 'e msg_err option \<times> Response)"
    "handled (sc_log st3) = handled (sc_log st2)" "sc_br st3 = sc_br st2" "sc_connRequestNum st3 = sc_connRequestNum st2"
    "\<not> close \<Longrightarrow> between s st3" "close \<or> rd_data (sc_br st2) = [] \<Longrightarrow> sc_out st3 = written st3" "x_timeoutResponse (sc_ctx st3) = None"
    by (rule reply_plain [OF assms(1) [unfolded plain_server_def, THEN conjunct2, THEN conjunct2, THEN conjunct1] assms(3,5)
          st2(6-8) _ _ _ _ _ st2(17) fin])
      (use st1(8-10) st2(12-14,16) run(3,4) in \<open>auto intro: that\<close>)
  have "serveConn_round s c E connID st = (if close then Stop None st3 else Go st3)"
    by (simp add: serveConn_round_def flow_then_def st1(1) cont st2(1) st3(1))
  then show thesis
    using that [of ctx st3] st1(3,6,7,11) st2(2,3,4,11,12,15) st3(2-8) run(1,2) rep by simp
qed

text \<open>The end of the connection.\<close>

lemma readHeader_EOF:
  assumes "br_wf (sc_br st)" and "rd_data (sc_br st) = []" and "rd_err (sc_br st) = EOF" and "nilable (sc_bw st) = []"
    and "0 < br_size (sc_br st)"
  obtains h r where "serveConn_readHeader c E st = Go (Some ReadEOF, sc_setRead st h r)"
proof -
  obtain b err r where pk: "br_Peek (sc_br st) 1 = (b, err, r)" by (cases "br_Peek (sc_br st) 1") auto
  have "b = []" "err = Some EOF" using br_Peek_spec [OF assms(1) pk] assms(2,3,5) by auto
  then have "RequestHeader_tryRead (sc_header st) (sc_br st) 1 = Ret (RequestHeader_resetSkipNormalize (sc_header st), Some ReadEOF, r)"
    using pk by (simp add: RequestHeader_tryRead_def Let_def)
  then have "RequestHeader_Read (sc_header st) (sc_br st) =
      Ret (RequestHeader_resetSkipNormalize (RequestHeader_resetSkipNormalize (sc_header st)), Some ReadEOF, r)"
    by (simp add: RequestHeader_Read_def RequestHeader_Read_loop.simps)
  then show thesis using assms(4) that by (simp add: serveConn_readHeader_def Let_def)
qed

lemma round_EOF:
  assumes "plain_server s" and "plain_conn c" and "between s st" and "rd_data (sc_br st) = []" and "rd_err (sc_br st) = EOF"
    and "sc_out st = written st"
  obtains st' where "serveConn_round s c E connID st = Stop None st'" and "sc_out st' = written st"
    and "handled (sc_log st') = handled (sc_log st)" and "x_timeoutResponse (sc_ctx st') = None"
proof -
  have dl: "cn_deadlineErr c = None" using assms(2) by (simp add: plain_conn_def)
  have to: "x_timeoutResponse (serveConn_setup s c (sc_ctx st)) = None"
    using assms(3) by (simp add: between_def clean_ctx_def serveConn_setup_def Let_def)
  show thesis
  proof (cases "sc_connRequestNum st = 0")
    case True
    then have "rd_data (sc_br st) \<noteq> [] \<or> sc_connRequestNum st = 0" by simp
    from reader_plain [OF assms(1) dl assms(3) this, of E] obtain st1 where st1: "serveConn_reader s c E st = Ret (None, st1)"
      "same_run st st1" "sc_ctx st1 = sc_ctx st" "sc_connRequestNum st1 = Suc (sc_connRequestNum st)" "sc_hasBr st1" "br_wf (sc_br st1)"
      "br_size (sc_br st1) = reader_size s" "rd_data (sc_br st1) = rd_data (sc_br st)" "rd_err (sc_br st1) = rd_err (sc_br st)"
      "sc_out st1 = sc_out st" "sc_bw st1 = sc_bw st" .
    define st2 where "st2 = (let st = st1\<lparr>sc_ctx := serveConn_setup s c (sc_ctx st1)\<rparr>
      in if sv_ReadTimeout s \<le> 0 then st else sc_event st (SetReadDeadline (sv_ReadTimeout s)))"
    have st2: "set_deadline c SetReadDeadline (sv_ReadTimeout s) (st1\<lparr>sc_ctx := serveConn_setup s c (sc_ctx st1)\<rparr>) = Ret st2"
      by (simp add: set_deadline_plain [OF dl] st2_def Let_def)
    let ?st3 = "st2\<lparr>sc_ctx := serveConn_normalizing s (sc_ctx st2)\<rparr>"
    have st3: "sc_br ?st3 = sc_br st1" "sc_bw ?st3 = sc_bw st" "sc_out ?st3 = sc_out st" "handled (sc_log ?st3) = handled (sc_log st)"
      "x_timeoutResponse (sc_ctx ?st3) = None"
      using st1(2,3,10,11) to by (auto simp: st2_def Let_def same_run_def serveConn_normalizing_def)
    have bw: "nilable (sc_bw st) = []" using assms(6) by (simp add: written_def)
    obtain h r where hr: "serveConn_readHeader c E ?st3 = Go (Some ReadEOF, sc_setRead ?st3 h r)"
      by (rule readHeader_EOF [where st = ?st3 and c = c and E = E])
        (use st3(1,2) st1(6-9) assms(4,5) bw in \<open>auto simp: reader_size_def\<close>)
    let ?st = "serveConn_giveBack s (Some ReadEOF) (sc_setRead ?st3 h r)"
    have "serveConn_readRequest s c E st = Stop None ?st"
      using st1(1) st2 hr by (simp add: serveConn_readRequest_def serveConn_failed_def is_EOF_def Let_def)
    then have "serveConn_round s c E connID st = Stop None ?st" by (simp add: serveConn_round_def flow_then_def)
    then show thesis
      by (rule that) (use st3 assms(6) in \<open>simp_all add: serveConn_giveBack_def releaseReader_def sc_setRead_def\<close>)
  next
    case False
    let ?st = "st\<lparr>sc_connRequestNum := Suc (sc_connRequestNum st)\<rparr>"
    define st1 where "st1 = (if Server_idleTimeout s \<le> 0 then ?st else sc_event ?st (SetReadDeadline (Server_idleTimeout s)))"
    have st1: "sc_hasBr st1" "sc_br st1 = sc_br st" "sc_out st1 = sc_out st" "sc_ctx st1 = sc_ctx st" "handled (sc_log st1) = handled (sc_log st)"
      using assms(3) False by (simp_all add: st1_def between_def)
    have d1: "set_deadline c SetReadDeadline (Server_idleTimeout s) ?st = Ret st1"
      by (simp add: set_deadline_plain [OF dl] st1_def)
    obtain b err r where pk: "br_Peek (sc_br st) 1 = (b, err, r)" by (cases "br_Peek (sc_br st) 1") auto
    have "br_wf (sc_br st)" "0 < br_size (sc_br st)" using assms(3) False by (auto simp: between_def reader_size_def)
    then have "b = []" "err = Some EOF" using br_Peek_spec [OF _ pk] assms(4,5) by auto
    then have "serveConn_reader s c E st = Ret (Some (MsgIO EOF), st1\<lparr>sc_br := r\<rparr>)"
      using False st1(1,2) pk assms(1) by (simp add: serveConn_reader_def d1 Let_def)
    then have "serveConn_round s c E connID st = Stop None (st1\<lparr>sc_br := r, sc_ctx := serveConn_setup s c (sc_ctx st)\<rparr>)"
      using st1(4) by (simp add: serveConn_round_def serveConn_readRequest_def serveConn_failed_def is_EOF_def flow_then_def)
    then show thesis by (rule that) (use st1 assms(6) to in simp_all)
  qed
qed

text \<open>
  The contexts a run of the handler on the requests \<open>qs\<close> gets: one for each request, up to the first
  reply after which the connection is closed. \<open>n\<close> requests came before.
\<close>

fun served ::
  "('f, 'v, 'h, 'e) Server \<Rightarrow> ('f, 'v, 'h, 'e) serve_env \<Rightarrow> 64 word \<Rightarrow> nat \<Rightarrow> 'f Request list \<Rightarrow> ('f, 'v, 'h) RequestCtx list \<Rightarrow> bool" where
  "served s E connID n [] ctxs \<longleftrightarrow> ctxs = []"
| "served s E connID n (q # qs) [] \<longleftrightarrow> False"
| "served s E connID n (q # qs) (ctx # ctxs) \<longleftrightarrow>
     message_read q (x_Request ctx) \<and> new_ctx s connID (Suc n) ctx
     \<and> (if snd (reply s E (Suc n) ctx) then ctxs = [] else served s E connID (Suc n) qs ctxs)"

fun replies :: "('f, 'v, 'h, 'e) Server \<Rightarrow> ('f, 'v, 'h, 'e) serve_env \<Rightarrow> nat \<Rightarrow> ('f, 'v, 'h) RequestCtx list \<Rightarrow> bytes" where
  "replies s E n [] = []"
| "replies s E n (ctx # ctxs) = fst (reply s E (Suc n) ctx) @ replies s E (Suc n) ctxs"

lemma loop_plain:
  assumes "plain_server s" and "answers s" and "plain_conn c" and "readLoop_once (se_readLoop E)" and "se_stop E = (\<lambda>_. False)"
    and "between s st" and "list_all (acceptable s) qs" and "rd_data (sc_br st) = concat (map request_bytes qs)"
    and "rd_err (sc_br st) = EOF" and "qs = [] \<Longrightarrow> sc_out st = written st"
  shows "\<exists>st' ctxs. serveConn_loop s c E connID st = Some (Ret (None, st')) \<and> x_timeoutResponse (sc_ctx st') = None
    \<and> handled (sc_log st') = handled (sc_log st) @ ctxs \<and> served s E connID (sc_connRequestNum st) qs ctxs
    \<and> sc_out st' = written st @ replies s E (sc_connRequestNum st) ctxs"
  using assms(6-)
proof (induction qs arbitrary: st)
  case Nil
  obtain st' where "serveConn_round s c E connID st = Stop None st'" "sc_out st' = written st"
    "handled (sc_log st') = handled (sc_log st)" "x_timeoutResponse (sc_ctx st') = None"
    by (rule round_EOF [OF assms(1,3) Nil(1), where E = E and connID = connID]) (use Nil in \<open>auto intro: that\<close>)
  then show ?case by (subst serveConn_loop.simps) (auto intro!: exI [of _ st'] exI [of _ "[]"])
next
  case (Cons q qs)
  have acc: "acceptable s q" "list_all (acceptable s) qs" using Cons.prems(2) by simp_all
  have data: "rd_data (sc_br st) = request_bytes q @ concat (map request_bytes qs)" using Cons.prems(3) by simp
  let ?n = "sc_connRequestNum st"
  obtain ctx st1 where st1: "message_read q (x_Request ctx)" "new_ctx s connID (Suc ?n) ctx"
    "\<not> snd (reply s E (Suc ?n) ctx) \<Longrightarrow> between s st1" "x_timeoutResponse (sc_ctx st1) = None"
    "serveConn_round s c E connID st = (if snd (reply s E (Suc ?n) ctx) then Stop None st1 else Go st1)"
    "handled (sc_log st1) = handled (sc_log st) @ [ctx]" "written st1 = written st @ fst (reply s E (Suc ?n) ctx)"
    "rd_data (sc_br st1) = concat (map request_bytes qs)" "rd_err (sc_br st1) = rd_err (sc_br st)" "sc_connRequestNum st1 = Suc ?n"
    "snd (reply s E (Suc ?n) ctx) \<or> concat (map request_bytes qs) = [] \<Longrightarrow> sc_out st1 = written st1"
    by (rule round_plain [OF assms(1-5) Cons.prems(1) acc(1) data, where connID = connID]) (rule that)
  show ?case
  proof (cases "snd (reply s E (Suc ?n) ctx)")
    case True
    then have "serveConn_loop s c E connID st = Some (Ret (None, st1))"
      using st1(5) by (subst serveConn_loop.simps) simp
    then show ?thesis
      using True st1 by (intro exI [of _ st1] exI [of _ "[ctx]"]) simp
  next
    case False
    then have "serveConn_loop s c E connID st = serveConn_loop s c E connID st1"
      using st1(5) by (subst serveConn_loop.simps) simp
    moreover obtain st' ctxs where "serveConn_loop s c E connID st1 = Some (Ret (None, st'))" "x_timeoutResponse (sc_ctx st') = None"
      "handled (sc_log st') = handled (sc_log st1) @ ctxs" "served s E connID (sc_connRequestNum st1) qs ctxs"
      "sc_out st' = written st1 @ replies s E (sc_connRequestNum st1) ctxs"
      using Cons.IH [OF st1(3) [OF False] acc(2) st1(8)] st1(9,11) Cons.prems(4) by auto
    ultimately show ?thesis
      using False st1 by (intro exI [of _ st'] exI [of _ "ctx # ctxs"]) simp
  qed
qed

lemma end_plain:
  assumes "x_timeoutResponse (sc_ctx st) = None"
  obtains st' where "serveConn_end E st = Ret st'" and "sc_out st' = sc_out st" and "sc_log st' = sc_log st"
proof -
  define st1 where "st1 = releaseWriter (if sc_hasBr st then releaseReader st else st)"
  have st1: "sc_ctx st1 = sc_ctx st" "sc_out st1 = sc_out st" "sc_log st1 = sc_log st"
    by (simp_all add: st1_def releaseWriter_def releaseReader_def)
  define ctx where "ctx = (if sc_reqReset st1 then sc_ctx st1 else (sc_ctx st1)\<lparr>x_Request := Request_Reset (x_Request (sc_ctx st1)), x_stream := None\<rparr>)"
  have "x_timeoutResponse ctx = None" using assms st1(1) by (simp add: ctx_def)
  then obtain pool where "releaseCtx E ctx (sc_pool st1) = Ret pool" by (auto simp: releaseCtx_def)
  then have "serveConn_end E st = Ret (if sc_ctxNil st1 then st1 else st1\<lparr>sc_pool := pool\<rparr>)"
    unfolding serveConn_end_def Let_def st1_def [symmetric] ctx_def [symmetric] by simp
  then show thesis by (rule that) (simp_all add: st1)
qed

lemma newCtx_clean: "clean_ctx (newCtx s)"
  by (simp add: clean_ctx_def newCtx_def zeroRequest_def zeroRequestHeader_def zeroResponse_def zeroResponseHeader_def
      empty_response_def slice_empty_def nilable_def Let_def)

lemma acquireCtx_clean:
  assumes "list_all clean_ctx pool" and "acquireCtx s E pool = (ctx, pool')"
  shows "clean_ctx ctx"
  using assms newCtx_clean by (auto simp: acquireCtx_def list_all_length split: option.splits if_splits)


lemma pipelined_run:
  assumes "plain_server s" and "answers s" and "plain_conn c" and "sv_nextProtos s [] = None"
    and "readLoop_once (se_readLoop E)" and "se_stop E = (\<lambda>_. False)"
    and "list_all (acceptable s) qs" and "list_all clean_ctx pool"
    and "br_wf r" and "rd_data r = concat (map request_bytes qs)" and "rd_err r = EOF"
  shows "\<exists>st. Server_serveConn s c E connID r pool = Some (Ret (None, st))
    \<and> served s E connID 0 qs (handled (sc_log st)) \<and> sc_out st = replies s E 0 (handled (sc_log st))"
proof -
  define st0 where "st0 = serveConn_start s E r pool"
  obtain ctx pool' where ctx: "acquireCtx s E pool = (ctx, pool')" by fastforce
  have "clean_ctx ctx" by (rule acquireCtx_clean [OF assms(8) ctx])
  then have clean: "clean_ctx (ctx\<lparr>x_connTime := t\<rparr>)" for t by (simp add: clean_ctx_def)
  have st0: "sc_connRequestNum st0 = 0" "sc_log st0 = []" "written st0 = []" "sc_out st0 = []" "sc_br st0 = r" "between s st0"
    using ctx clean assms(9)
    by (simp_all add: st0_def serveConn_start_def written_def nilable_def between_def body_limit_def Let_def)
  obtain st ctxs where st: "serveConn_loop s c E connID st0 = Some (Ret (None, st))" "x_timeoutResponse (sc_ctx st) = None"
    "handled (sc_log st) = ctxs" "served s E connID 0 qs ctxs" "sc_out st = replies s E 0 ctxs"
    using loop_plain [OF assms(1-3,5,6) st0(6) assms(7), where connID = connID] st0(1-5) assms(10,11) by auto
  have "Server_getNextProto s c st0 = Ret (Inr [], st0)"
    using assms(3) by (simp add: Server_getNextProto_def plain_conn_def)
  moreover obtain st' where "serveConn_end E st = Ret st'" "sc_out st' = sc_out st" "sc_log st' = sc_log st"
    by (rule end_plain [OF st(2), where E = E]) (rule that)
  ultimately show ?thesis
    using st assms(4) by (simp add: Server_serveConn_def st0_def)
qed

section \<open>Properties\<close>

text \<open>
  C1. A client that sends well-formed requests within the server's limits over one connection, all at
  once or in pieces, and then closes it: the handler is called for each request in the order they
  were sent, with the header and the body that were sent and with an empty response, so that nothing
  of an earlier request or reply reaches it; and what the server sends is the replies in the same
  order and nothing else. It stops at the first reply that closes the connection (\<open>Connection: close\<close>
  on either side, \<open>DisableKeepalive\<close>, \<open>MaxRequestsPerConn\<close>). The server reads bodies into memory and has
  none of \<open>GetOnly\<close>, \<open>ReduceMemoryUsage\<close> (which loses replies, see \<open>reduced_memory_drops_response\<close>) and
  \<open>HeaderReceived\<close> (\<open>plain_server\<close>); its handler does not hijack the connection, time out or set a body
  stream (\<open>answers\<close>); the connection has no TLS and no errors but its end (\<open>plain_conn\<close>); the server is
  not shut down meanwhile.
\<close>

theorem pipelined_requests_served:
  assumes "plain_server s" and "answers s" and "plain_conn c" and "sv_nextProtos s [] = None"
    and "readLoop_once (se_readLoop E)" and "se_stop E = (\<lambda>_. False)"
    and "list_all (acceptable s) qs" and "list_all clean_ctx pool"
    and "br_wf r" and "rd_data r = concat (map request_bytes qs)" and "rd_err r = EOF"
  shows "\<exists>st. Server_serveConn s c E connID r pool = Some (Ret (None, st))
    \<and> served s E connID 0 qs (handled (sc_log st)) \<and> sc_out st = replies s E 0 (handled (sc_log st))"
  by (rule pipelined_run [OF assms])

definition read_once :: "RequestHeader \<Rightarrow> bufreader \<Rightarrow> (RequestHeader \<times> read_err option \<times> bufreader) panics" where
  "read_once h r =
     (case RequestHeader_tryRead h r 1 of
        Panic \<Rightarrow> Panic
      | Ret (h, None, r) \<Rightarrow> Ret (h, None, r)
      | Ret (h, Some err, r) \<Rightarrow> Ret (RequestHeader_resetSkipNormalize h, Some err, r))"

definition echo :: "('f, 'v, 'h) RequestCtx \<Rightarrow> bytes \<Rightarrow> ('f, 'v, 'h) RequestCtx" where
  "echo ctx b = ctx_SetBody ctx (nilable (q_body (x_Request ctx)) @ b)"

definition echo_server :: "(unit, unit, unit, unit) Server" where
  "echo_server = \<lparr>sv_Handler = echo, sv_reads = (\<lambda>_. []), sv_ErrorHandler = None, sv_HeaderReceived = None, sv_ContinueHandler = None,
     sv_Name = [], sv_DisableKeepalive = False, sv_ReadBufferSize = 0, sv_WriteBufferSize = 0, sv_ReadTimeout = 0, sv_WriteTimeout = 0,
     sv_IdleTimeout = 0, sv_MaxRequestsPerConn = 0, sv_MaxRequestBodySize = 0, sv_ReduceMemoryUsage = False, sv_GetOnly = False,
     sv_DisablePreParseMultipartForm = False, sv_SecureErrorLogMessage = False, sv_DisableHeaderNamesNormalizing = False,
     sv_NoDefaultServerHeader = False, sv_NoDefaultDate = False, sv_NoDefaultContentType = False, sv_CloseOnShutdown = False,
     sv_StreamRequestBody = False, sv_nextProtos = Map.empty\<rparr>"

definition example_conn :: conn where
  "example_conn = \<lparr>cn_TLS = None, cn_deadlineErr = None, cn_takes = None\<rparr>"

definition example_env :: "(unit, unit, unit, unit) serve_env" where
  "example_env = \<lparr>se_lib = no_forms, se_reads = \<lparr>ce_avail = (\<lambda>_. 2), ce_buffered = (\<lambda>_. 1)\<rparr>, se_capacity = 0,
     se_serverDate = bytes_of ''Thu, 01 Jan 1970 00:00:00 GMT'', se_kept = (\<lambda>_. 0), se_pick = (\<lambda>_. None), se_now = (\<lambda>_. 0),
     se_stopClose = (\<lambda>_. False), se_stop = (\<lambda>_. False), se_isCloser = (\<lambda>_. False), se_readLoop = read_once\<rparr>"

lemma read_once: "readLoop_once read_once"
  by (simp add: readLoop_once_def read_once_def)

lemma echo_answers: "answers echo_server"
  by (simp add: answers_def echo_server_def echo_def ctx_SetBody_def Response_SetBody_def Response_closeBodyStream_def
      Response_bodyBuffer_def Let_def split: option.splits)

lemma example_acceptable: "acceptable echo_server example_message"
proof -
  have 1: "length (RequestHeader_AppendBytes (message_header example_message) []) \<le> 4096" by code_simp
  have 2: "message_body example_message = bytes_of ''hello world''"
    by (simp add: message_body_def example_message_def nilable_def bytes_of_def)
  have 3: "\<not> rq_disableNormalizing (q_Header example_message)" by (simp add: example_message_def example_request_def)
  show ?thesis
    using example_message_ok 1 3 unfolding acceptable_def 2
    by (simp add: echo_server_def reader_size_def body_limit_def defaultReadBufferSize_def DefaultMaxRequestBodySize_def bytes_of_def)
qed

theorem pipelined_requests_served_witness:
  "let qs = [example_message, example_message];
       r = \<lparr>rd_data = concat (map request_bytes qs), rd_err = EOF, br_size = 4096, br_buffered = 0, br_avail = (\<lambda>_. 3)\<rparr>
   in \<exists>st. Server_serveConn echo_server example_conn example_env 1 r [] = Some (Ret (None, st))
        \<and> served echo_server example_env 1 0 qs (handled (sc_log st)) \<and> sc_out st = replies echo_server example_env 0 (handled (sc_log st))"
proof -
  have "plain_server echo_server" "plain_conn example_conn" "sv_nextProtos echo_server [] = None"
    "readLoop_once (se_readLoop example_env)" "se_stop example_env = (\<lambda>_. False)"
    by (simp_all add: plain_server_def plain_conn_def echo_server_def example_conn_def example_env_def read_once)
  note h = this(1) echo_answers this(2-)
  show ?thesis unfolding Let_def
    by (rule pipelined_requests_served [OF h]) (simp_all add: example_acceptable br_wf_def)
qed

end
