(* ===== verification/ServingLimits.thy ===== *)
theory ServingLimits
  imports Pipelining
begin

text \<open>
  What the loop of \<open>serveConn\<close> guarantees whatever the client, the handlers and the hooks do, and where
  it does less than it means to.
\<close>


section \<open>What the parts of a round count\<close>

text \<open>A part that neither calls the handler nor starts a round.\<close>

definition quiet :: "('f, 'v, 'h) serving \<Rightarrow> ('f, 'v, 'h) serving \<Rightarrow> bool" where
  "quiet st st' \<longleftrightarrow> handled (sc_log st') = handled (sc_log st) \<and> sc_connRequestNum st' = sc_connRequestNum st"

named_theorems quiets

lemma quiet_trans: "quiet a b \<Longrightarrow> quiet b c \<Longrightarrow> quiet a c"
  by (simp add: quiet_def)

lemma quiet_update [simp]:
  "quiet st (st\<lparr>sc_br := r\<rparr>)" "quiet st (st\<lparr>sc_hasBr := b\<rparr>)" "quiet st (st\<lparr>sc_bw := w\<rparr>)" "quiet st (st\<lparr>sc_out := o'\<rparr>)"
  "quiet st (st\<lparr>sc_ctx := x\<rparr>)" "quiet st (st\<lparr>sc_pool := p\<rparr>)" "quiet st st"
  by (simp_all add: quiet_def)

lemma quiet_deadline [quiets]:
  "set_deadline c SetReadDeadline d st = Ret st' \<Longrightarrow> quiet st st'" "set_deadline c SetWriteDeadline d st = Ret st' \<Longrightarrow> quiet st st'"
  by (auto simp: set_deadline_def quiet_def split: if_splits)

lemma quiet_pools [simp]:
  "quiet st (acquireReader s st)" "quiet st (releaseReader st)" "quiet st (acquireWriter st)" "quiet st (releaseWriter st)"
  by (simp_all add: quiet_def acquireReader_def releaseReader_def acquireWriter_def releaseWriter_def Let_def)

lemma quiet_giveBack [simp]: "quiet st (serveConn_giveBack s err st)"
  by (simp add: serveConn_giveBack_def)

lemma quiet_Write [quiets]: "bw_Write s c E fl p st = (ok, st') \<Longrightarrow> quiet st st'"
  by (auto simp: bw_Write_def quiet_def Let_def split: if_splits prod.splits)

lemma quiet_Flush [quiets]: "bw_Flush c st = (ok, st') \<Longrightarrow> quiet st st'"
  by (auto simp: bw_Flush_def quiet_def split: prod.splits)

lemma quiet_writeResponse [quiets]: "writeResponse s c E st = Ret (err, st') \<Longrightarrow> quiet st st'"
  using quiet_Write [of s c E _ _ st]
  by (fastforce simp: writeResponse_def quiet_def Let_def split: if_splits prod.splits)

lemma quiet_writeErrorResponse [quiets]:
  assumes "writeErrorResponse s c E err st = Ret st'"
  shows "quiet st st'"
proof -
  define ctx where "ctx = ctx_SetConnectionClose (SetServerBytes (serverName s)
    ((case sv_ErrorHandler s of None \<Rightarrow> defaultErrorHandler | Some f \<Rightarrow> f) (sc_ctx st) err))"
  obtain e st1 where w: "writeResponse s c E (acquireWriter (st\<lparr>sc_ctx := ctx\<rparr>)) = Ret (e, st1)" "st' = snd (bw_Flush c st1)"
    using assms unfolding writeErrorResponse_def Let_def ctx_def [symmetric]
    by (cases "writeResponse s c E (acquireWriter (st\<lparr>sc_ctx := ctx\<rparr>))") auto
  have "quiet (acquireWriter (st\<lparr>sc_ctx := ctx\<rparr>)) st1" using w(1) by (rule quiet_writeResponse)
  moreover have "quiet st1 st'" using w(2) quiet_Flush by (metis prod.collapse)
  ultimately show ?thesis using quiet_pools(3) [of "st\<lparr>sc_ctx := ctx\<rparr>"] by (simp add: quiet_def)
qed

lemma quiet_acquireByteReader [quiets]: "acquireByteReader s E st = Ret (err, st') \<Longrightarrow> quiet st st'"
  by (auto simp: acquireByteReader_def quiet_def acquireReader_def Let_def split: panics.splits prod.splits if_splits)

lemma reader_counts:
  assumes "serveConn_reader s c E st = Ret (err, st')"
  shows "handled (sc_log st') = handled (sc_log st) \<and> sc_connRequestNum st' = Suc (sc_connRequestNum st)"
proof -
  let ?st = "st\<lparr>sc_connRequestNum := Suc (sc_connRequestNum st)\<rparr>"
  let ?d = "if sc_connRequestNum ?st > 1 then Server_idleTimeout s else 0"
  obtain st1 where st1: "set_deadline c SetReadDeadline ?d ?st = Ret st1"
    using assms unfolding serveConn_reader_def Let_def by (cases "set_deadline c SetReadDeadline ?d ?st") simp_all
  have "quiet st1 st'"
  proof (cases "\<not> sv_ReduceMemoryUsage s \<or> sc_hasBr st1")
    case True
    have "quiet st1 (if sc_hasBr st1 then st1 else acquireReader s st1)" by simp
    moreover have "\<exists>r. st' = (if sc_hasBr st1 then st1 else acquireReader s st1)\<lparr>sc_br := r\<rparr>
        \<or> st' = (if sc_hasBr st1 then st1 else acquireReader s st1)"
      using assms True unfolding serveConn_reader_def Let_def st1 by (auto split: prod.splits if_splits)
    ultimately show ?thesis by (auto simp: quiet_def)
  next
    case False
    then have "acquireByteReader s E st1 = Ret (err, st')"
      using assms unfolding serveConn_reader_def Let_def st1 by simp
    then show ?thesis by (rule quiet_acquireByteReader)
  qed
  moreover have "quiet ?st st1" using st1 by (rule quiet_deadline)
  ultimately show ?thesis by (simp add: quiet_def)
qed

lemma quiet_setRead [simp]: "quiet st (sc_setRead st h r)"
  by (simp add: sc_setRead_def quiet_def)

lemma quiet_readHeader [quiets]:
  "serveConn_readHeader c E st = Go (err, st') \<Longrightarrow> quiet st st'" "serveConn_readHeader c E st = Stop e (err, st') \<Longrightarrow> quiet st st'"
proof -
  have f: "quiet st st'" if "bw_Flush c (sc_setRead st h r) = (ok, st1)" "quiet st1 st'" for ok st1 h r
    by (meson that quiet_Flush quiet_trans quiet_setRead)
  show "serveConn_readHeader c E st = Go (err, st') \<Longrightarrow> quiet st st'"
    using f by (auto simp: serveConn_readHeader_def Let_def split: panics.splits prod.splits if_splits bool.splits)
  show "serveConn_readHeader c E st = Stop e (err, st') \<Longrightarrow> quiet st st'"
    using f by (auto simp: serveConn_readHeader_def Let_def split: panics.splits prod.splits if_splits bool.splits)
qed

lemma quiet_headerReceived [quiets]:
  assumes "serveConn_headerReceived s c st = Ret st'"
  shows "quiet st st'"
proof (cases "sv_HeaderReceived s")
  case None
  then show ?thesis using assms by (simp add: serveConn_headerReceived_def)
next
  case (Some f)
  then obtain st1 where st1: "set_deadline c SetReadDeadline (rc_ReadTimeout (f (sc_header st))) st = Ret st1"
    using assms by (auto simp: serveConn_headerReceived_def Let_def split: panics.splits)
  then have "sc_log st' = sc_log st1" "sc_connRequestNum st' = sc_connRequestNum st1"
    using assms Some by (auto simp: serveConn_headerReceived_def Let_def split: if_splits)
  with quiet_deadline(1) [OF st1] show ?thesis by (simp add: quiet_def)
qed

lemma quiet_readBody [quiets]: "serveConn_readBody s E b st = Ret (err, st') \<Longrightarrow> quiet st st'"
  by (auto simp: serveConn_readBody_def quiet_def Let_def split: panics.splits prod.splits if_splits)

lemma quiet_failed [quiets]: "serveConn_failed s c E err st = Stop e st' \<Longrightarrow> quiet st st'"
  using quiet_writeErrorResponse [of s c E _ st st']
  by (auto simp: serveConn_failed_def Let_def split: option.splits panics.splits)

lemma failed_not_Go [simp]: "serveConn_failed s c E err st \<noteq> Go st'"
  by (auto simp: serveConn_failed_def Let_def split: option.splits panics.splits)

lemma readRequest_counts:
  assumes "serveConn_readRequest s c E st = Go st' \<or> serveConn_readRequest s c E st = Stop e st'"
  shows "handled (sc_log st') = handled (sc_log st) \<and> sc_connRequestNum st' = Suc (sc_connRequestNum st)"
proof -
  obtain err st1 where st1: "serveConn_reader s c E st = Ret (err, st1)"
    using assms by (cases "serveConn_reader s c E st") (auto simp: serveConn_readRequest_def)
  let ?st2 = "st1\<lparr>sc_ctx := serveConn_setup s c (sc_ctx st1)\<rparr>"
  have "quiet ?st2 st'"
  proof (cases err)
    case (Some e')
    then show ?thesis using assms st1 quiet_failed by (auto simp: serveConn_readRequest_def)
  next
    case None
    obtain st3 where st3: "set_deadline c SetReadDeadline (sv_ReadTimeout s) ?st2 = Ret st3"
      using assms st1 None by (cases "set_deadline c SetReadDeadline (sv_ReadTimeout s) ?st2") (auto simp: serveConn_readRequest_def Let_def)
    let ?st4 = "st3\<lparr>sc_ctx := serveConn_normalizing s (sc_ctx st3)\<rparr>"
    have 4: "quiet ?st2 ?st4" using quiet_deadline(1) [OF st3] by (simp add: quiet_def)
    have "quiet ?st4 st'"
    proof (cases "serveConn_readHeader c E ?st4")
      case (Go x)
      then obtain herr st5 where h: "serveConn_readHeader c E ?st4 = Go (herr, st5)" by (cases x) auto
      have 5: "quiet ?st4 st5" using h by (rule quiet_readHeader)
      have "quiet st5 st'"
      proof (cases herr)
        case (Some e')
        then have "serveConn_failed s c E (MsgHeader e') (serveConn_giveBack s (Some e') st5) = Stop e st'"
          using assms st1 None st3 h by (auto simp: serveConn_readRequest_def Let_def)
        from quiet_failed [OF this] show ?thesis using quiet_giveBack quiet_trans by blast
      next
        case no: None
        obtain st6 where st6: "serveConn_headerReceived s c st5 = Ret st6"
          using assms st1 None st3 h no by (cases "serveConn_headerReceived s c st5") (auto simp: serveConn_readRequest_def Let_def)
        obtain berr st7 where st7: "serveConn_readBody s E False st6 = Ret (berr, st7)"
          using assms st1 None st3 h no st6 by (cases "serveConn_readBody s E False st6") (auto simp: serveConn_readRequest_def Let_def)
        have 7: "quiet st5 st7" by (meson quiet_trans quiet_headerReceived [OF st6] quiet_readBody [OF st7])
        have "quiet st7 st'"
        proof (cases berr)
          case (Some e')
          then have "serveConn_failed s c E e' (serveConn_giveBack s (Some e') st7) = Stop e st'"
            using assms st1 None st3 h no st6 st7 by (auto simp: serveConn_readRequest_def Let_def)
          from quiet_failed [OF this] show ?thesis using quiet_giveBack quiet_trans by blast
        next
          case None
          then have "st' = serveConn_giveBack s (None :: 'd msg_err option) (sc_event st7 (ConnStateIs StateActive))"
            using assms st1 \<open>err = None\<close> st3 h no st6 st7 by (auto simp: serveConn_readRequest_def Let_def)
          then show ?thesis using quiet_giveBack [of "sc_event st7 (ConnStateIs StateActive)" s "None :: 'd msg_err option"]
            by (simp add: quiet_def)
        qed
        with 7 show ?thesis by (rule quiet_trans)
      qed
      with 5 show ?thesis by (rule quiet_trans)
    next
      case (Stop e' x)
      then obtain herr where "serveConn_readHeader c E ?st4 = Stop e' (herr, st')"
        using assms st1 None st3 by (cases x) (auto simp: serveConn_readRequest_def Let_def)
      then show ?thesis by (rule quiet_readHeader)
    next
      case Crash
      then show ?thesis using assms st1 None st3 by (auto simp: serveConn_readRequest_def Let_def)
    qed
    with 4 show ?thesis by (rule quiet_trans)
  qed
  with reader_counts [OF st1] show ?thesis by (simp add: quiet_def)
qed

lemma call_counts:
  assumes "serveConn_call s E connID st = Go st'"
  shows "length (handled (sc_log st')) \<le> Suc (length (handled (sc_log st))) \<and> sc_connRequestNum st' = sc_connRequestNum st"
proof -
  define st1 where "st1 = st\<lparr>sc_connectionClose := (sv_DisableKeepalive s \<or> rq_connectionClose (sc_header st)),
    sc_isHTTP11 := RequestHeader_IsHTTP11 (sc_header st),
    sc_ctx := (SetServerBytes (serverName s) (sc_ctx st))
      \<lparr>x_connID := connID, x_connRequestNum := of_nat (sc_connRequestNum st), x_time := se_now E (sc_connRequestNum st)\<rparr>\<rparr>"
  let ?h = "if sc_continueReadingRequest st1 then serveConn_handler s E st1 else Ret st1"
  obtain st2 where st2: "?h = Ret st2" and st': "sc_log st' = sc_log st2" "sc_connRequestNum st' = sc_connRequestNum st2"
    using assms unfolding serveConn_call_def Let_def st1_def [symmetric]
    by (cases ?h) (auto split: option.splits prod.splits)
  have "length (handled (sc_log st2)) \<le> Suc (length (handled (sc_log st1))) \<and> sc_connRequestNum st2 = sc_connRequestNum st1"
    using st2 by (auto simp: serveConn_handler_def Let_def split: if_splits option.splits panics.splits)
  then show ?thesis using st' by (simp add: st1_def)
qed

lemma call_not_Stop [simp]: "serveConn_call s E connID st \<noteq> Stop e st'"
  by (auto simp: serveConn_call_def Let_def split: option.splits prod.splits panics.splits)

lemma quiet_flush_flow [quiets]: "flush_flow c st = Go st' \<Longrightarrow> quiet st st'" "flush_flow c st = Stop e st' \<Longrightarrow> quiet st st'"
  using quiet_Flush by (auto simp: flush_flow_def split: prod.splits bool.splits)

lemma quiet_continue [quiets]:
  assumes "serveConn_continue s c E st = Go st' \<or> serveConn_continue s c E st = Stop e st'"
  shows "quiet st st'"
proof (cases "Request_MayContinue (x_Request (sc_ctx st))")
  case False
  then show ?thesis using assms by (simp add: serveConn_continue_def)
next
  case True
  define st1 where "st1 = (case sv_ContinueHandler s of
      None \<Rightarrow> st
    | Some f \<Rightarrow>
        (let go = f (sc_header st); st = st\<lparr>sc_continueReadingRequest := go\<rparr> in
         if go then st
         else st\<lparr>sc_br := (if sc_hasBr st then br_Reset (sc_br st) else sc_br st),
                 sc_ctx := ctx_SetStatusCode (sc_ctx st) StatusExpectationFailed\<rparr>))"
  have 1: "quiet st st1" by (simp add: st1_def quiet_def Let_def split: option.splits)
  note def = serveConn_continue_def [of s c E st, folded st1_def, unfolded Let_def]
  show ?thesis
  proof (cases "sc_continueReadingRequest st1")
    case False
    then show ?thesis using assms True 1 unfolding def by simp
  next
    case go: True
    obtain ok st2 where w: "bw_Write s c E False strResponseContinue (acquireWriter st1) = (ok, st2)" by fastforce
    have 2: "quiet st1 st2" by (meson quiet_trans quiet_pools(3) quiet_Write [OF w])
    obtain ok' st3 where f: "bw_Flush c st2 = (ok', st3)" by fastforce
    have 3: "quiet st1 st3" by (rule quiet_trans [OF 2 quiet_Flush [OF f]])
    define st4 where "st4 = (let st = (if sv_ReduceMemoryUsage s then releaseWriter st3 else st3)
      in if sc_hasBr st then st else acquireReader s st)"
    have "quiet st3 st4" by (simp add: st4_def quiet_def releaseWriter_def acquireReader_def Let_def)
    with 3 have 4: "quiet st1 st4" by (rule quiet_trans)
    have "quiet st1 st'"
    proof (cases "ok \<and> ok'")
      case False
      then have "st' = st2 \<or> st' = st3"
        using assms True go w f unfolding def by (cases ok; cases ok') auto
      with 2 3 show ?thesis by auto
    next
      case ok: True
      obtain berr st5 where b: "serveConn_readBody s E True st4 = Ret (berr, st5)"
        using assms True go w f ok unfolding def st4_def Let_def
        by (cases "serveConn_readBody s E True (if sc_hasBr (if sv_ReduceMemoryUsage s then releaseWriter st3 else st3)
            then if sv_ReduceMemoryUsage s then releaseWriter st3 else st3
            else acquireReader s (if sv_ReduceMemoryUsage s then releaseWriter st3 else st3))") auto
      have 5: "quiet st1 st5" by (rule quiet_trans [OF 4 quiet_readBody [OF b]])
      have "st' = serveConn_giveBack s (None :: 'd msg_err option) st5
          \<or> (\<exists>err. writeErrorResponse s c E err (serveConn_giveBack s (Some err) st5) = Ret st')"
        using assms True go w f ok b unfolding def st4_def Let_def by (auto split: option.splits panics.splits)
      then show ?thesis
      proof (elim disjE exE)
        assume "st' = serveConn_giveBack s (None :: 'd msg_err option) st5"
        with 5 show ?thesis by (metis quiet_giveBack quiet_trans)
      next
        fix err assume "writeErrorResponse s c E err (serveConn_giveBack s (Some err) st5) = Ret st'"
        from quiet_writeErrorResponse [OF this] 5 show ?thesis by (meson quiet_giveBack quiet_trans)
      qed
    qed
    with 1 show ?thesis by (rule quiet_trans)
  qed
qed

lemma SetConnectionClose_closes [simp]: "Response_ConnectionClose (x_Response (ctx_SetConnectionClose ctx))"
  by (simp add: ctx_SetConnectionClose_def Response_SetConnectionClose_def Response_ConnectionClose_def
      ResponseHeader_ConnectionClose_def ResponseHeader_SetConnectionClose_def)

lemma finish_max:
  assumes "serveConn_finish s E num cl v11 ctx = (hh, hn, ctx', close)"
    and "sv_MaxRequestsPerConn s > 0" and "int num \<ge> sv_MaxRequestsPerConn s"
  shows "close"
  using assms unfolding serveConn_finish_def Let_def prod.inject by (elim conjE) simp

lemma write_counts:
  fixes s :: "('f, 'v, 'h, 'e) Server"
  assumes "serveConn_write s c E hh st = Go st' \<or> serveConn_write s c E hh st = Stop e st'"
  shows "quiet st st'" and "serveConn_write s c E hh st = Go st' \<Longrightarrow> \<not> sc_connectionClose st"
proof -
  obtain err st1 where w: "writeResponse s c E (acquireWriter st) = Ret (err, st1)"
    using assms by (cases "writeResponse s c E (acquireWriter st)") (auto simp: serveConn_write_def)
  have close: "sc_connectionClose st1 = sc_connectionClose st"
    using w by (auto simp: writeResponse_def acquireWriter_def bw_Write_def Let_def split: if_splits prod.splits)
  have 1: "quiet st st1" by (meson quiet_trans quiet_pools(3) quiet_writeResponse [OF w])
  define fl :: "(('f, 'v, 'h) serving, 'e) flow"
    where "fl = (if \<not> sc_hasBr st1 \<or> br_Buffered (sc_br st1) = 0 \<or> sc_connectionClose st1 then flush_flow c st1 else Go st1)"
  have fl: "quiet st1 st2 \<and> sc_connectionClose st2 = sc_connectionClose st1" if "fl = Go st2 \<or> fl = Stop e2 st2" for st2 e2
    using that by (auto simp: fl_def flush_flow_def bw_Flush_def quiet_def split: if_splits prod.splits bool.splits)
  note def = serveConn_write_def [of s c E hh st, unfolded w]
  have "quiet st1 st' \<and> (serveConn_write s c E hh st = Go st' \<longrightarrow> \<not> sc_connectionClose st1)"
  proof (cases err)
    case (Some e')
    then show ?thesis using assms unfolding def by auto
  next
    case None
    then have eq: "serveConn_write s c E hh st = flow_then fl (\<lambda>st. if sc_connectionClose st then Stop None st
        else Go (if sv_ReduceMemoryUsage s \<and> hh = None then releaseWriter st else st))"
      unfolding def by (simp add: fl_def)
    show ?thesis
    proof (cases fl)
      case (Go st2)
      then have "quiet st1 st2" "sc_connectionClose st2 = sc_connectionClose st1" using fl by blast+
      moreover have "quiet st2 st' \<and> (serveConn_write s c E hh st = Go st' \<longrightarrow> \<not> sc_connectionClose st2)"
        using assms unfolding eq Go flow_then_def by (auto split: if_splits)
      ultimately show ?thesis by (metis quiet_trans)
    next
      case (Stop e' st2)
      then have "quiet st1 st2" using fl by blast
      then show ?thesis using assms unfolding eq Stop flow_then_def by auto
    next
      case Crash
      then show ?thesis using assms unfolding eq Crash flow_then_def by auto
    qed
  qed
  then show "quiet st st'" "serveConn_write s c E hh st = Go st' \<Longrightarrow> \<not> sc_connectionClose st"
    using 1 close by (auto intro: quiet_trans)
qed

lemma reply_counts:
  assumes "serveConn_reply s c E st = Go st' \<or> serveConn_reply s c E st = Stop e st'"
  shows "quiet st st'"
    and "serveConn_reply s c E st = Go st' \<Longrightarrow> sv_MaxRequestsPerConn s \<le> 0 \<or> int (sc_connRequestNum st) < sv_MaxRequestsPerConn s"
proof -
  obtain hh hn ctx' close where fin:
    "serveConn_finish s E (sc_connRequestNum st) (sc_connectionClose st) (sc_isHTTP11 st) (sc_ctx st) = (hh, hn, ctx', close)"
    by (metis prod_cases4)
  let ?st = "st\<lparr>sc_ctx := ctx', sc_reqReset := True, sc_connectionClose := close\<rparr>"
  have "quiet st ?st" by (simp add: quiet_def)
  obtain st1 where d: "set_deadline c SetWriteDeadline (sc_writeTimeout st) ?st = Ret st1"
    using assms fin by (cases "set_deadline c SetWriteDeadline (sc_writeTimeout st) ?st") (auto simp: serveConn_reply_def)
  have close: "sc_connectionClose st1 = close" using d by (auto simp: set_deadline_def split: if_splits)
  have 1: "quiet st st1" by (rule quiet_trans [OF \<open>quiet st ?st\<close> quiet_deadline(2) [OF d]])
  define fl where "fl = (if hn then Go st1 else serveConn_write s c E hh st1)"
  have fl: "quiet st1 st2" if "fl = Go st2 \<or> fl = Stop e2 st2" for st2 e2
    using that by (auto simp: fl_def split: if_splits intro: write_counts(1) [OF disjI1] write_counts(1) [OF disjI2])
  have eq: "serveConn_reply s c E st = flow_then fl (\<lambda>st. case hh of Some h \<Rightarrow> serveConn_hijack c h st | None \<Rightarrow> serveConn_idle E st)"
    using fin d by (simp add: serveConn_reply_def fl_def)
  have hij: "quiet st2 st3" if "serveConn_hijack c h st2 = Stop e2 st3" for h st2 st3 e2
    using that quiet_flush_flow
    by (fastforce simp: serveConn_hijack_def flow_then_def flush_flow_def bw_Flush_def quiet_def releaseWriter_def Let_def
        split: if_splits option.splits flow.splits prod.splits bool.splits)
  have hij': "serveConn_hijack c h st2 \<noteq> Go st3" for h st2 st3
    by (auto simp: serveConn_hijack_def flow_then_def Let_def split: if_splits option.splits flow.splits)
  have idle: "quiet st2 st3" if "serveConn_idle E st2 = Go st3 \<or> serveConn_idle E st2 = Stop e2 st3" for st2 st3 e2
    using that by (auto simp: serveConn_idle_def quiet_def Let_def split: if_splits)
  have "quiet st1 st' \<and> (serveConn_reply s c E st = Go st' \<longrightarrow> \<not> close)"
  proof (cases fl)
    case (Go st2)
    have "quiet st1 st2" using fl Go by blast
    moreover have "quiet st2 st'" using assms unfolding eq Go flow_then_def
      by (auto simp: hij' split: option.splits intro: hij idle [OF disjI1] idle [OF disjI2])
    moreover have "\<not> close" if "serveConn_reply s c E st = Go st'"
    proof (cases hh)
      case None
      then have "\<not> hn" using finish_parts(1,7) [OF fin] by auto
      then show ?thesis using write_counts(2) [of s c E hh st1 st2] Go close by (simp add: fl_def)
    next
      case (Some h)
      then show ?thesis using that unfolding eq Go flow_then_def by (simp add: hij')
    qed
    ultimately show ?thesis by (metis quiet_trans)
  next
    case (Stop e' st2)
    then show ?thesis using assms fl unfolding eq Stop flow_then_def by auto
  next
    case Crash
    then show ?thesis using assms unfolding eq Crash flow_then_def by auto
  qed
  then show "quiet st st'"
    "serveConn_reply s c E st = Go st' \<Longrightarrow> sv_MaxRequestsPerConn s \<le> 0 \<or> int (sc_connRequestNum st) < sv_MaxRequestsPerConn s"
    using 1 finish_max [OF fin] by (auto intro: quiet_trans) (meson not_le)
qed

lemma round_counts:
  assumes "serveConn_round s c E connID st = Go st' \<or> serveConn_round s c E connID st = Stop e st'"
  shows "length (handled (sc_log st')) \<le> Suc (length (handled (sc_log st)))"
    and "serveConn_round s c E connID st = Go st' \<Longrightarrow> sc_connRequestNum st' = Suc (sc_connRequestNum st)
      \<and> (sv_MaxRequestsPerConn s \<le> 0 \<or> int (Suc (sc_connRequestNum st)) < sv_MaxRequestsPerConn s)"
proof -
  let ?c = "\<lambda>st. length (handled (sc_log st))"
  have "?c st' \<le> Suc (?c st) \<and> (serveConn_round s c E connID st = Go st' \<longrightarrow> sc_connRequestNum st' = Suc (sc_connRequestNum st)
      \<and> (sv_MaxRequestsPerConn s \<le> 0 \<or> int (Suc (sc_connRequestNum st)) < sv_MaxRequestsPerConn s))"
  proof (cases "serveConn_readRequest s c E st")
    case (Go st1)
    have 1: "?c st1 = ?c st" "sc_connRequestNum st1 = Suc (sc_connRequestNum st)" using readRequest_counts Go by metis+
    show ?thesis
    proof (cases "serveConn_continue s c E st1")
      case go2: (Go st2)
      have 2: "?c st2 = ?c st1" "sc_connRequestNum st2 = sc_connRequestNum st1" using quiet_continue go2 by (metis quiet_def)+
      show ?thesis
      proof (cases "serveConn_call s E connID st2")
        case go3: (Go st3)
        have 3: "?c st3 \<le> Suc (?c st2)" "sc_connRequestNum st3 = sc_connRequestNum st2" using call_counts [OF go3] by auto
        have eq: "serveConn_round s c E connID st = serveConn_reply s c E st3"
          by (simp add: serveConn_round_def flow_then_def Go go2 go3)
        have "quiet st3 st'" using reply_counts(1) assms unfolding eq by blast
        then show ?thesis using reply_counts(2) [of s c E st3 st'] 1 2 3 unfolding eq by (auto simp: quiet_def)
      qed (use assms Go go2 in \<open>auto simp: serveConn_round_def flow_then_def\<close>)
    next
      case (Stop e' st2)
      then have "st2 = st'" using assms by (auto simp: serveConn_round_def flow_then_def Go)
      then have "quiet st1 st'" using quiet_continue Stop by metis
      then show ?thesis using 1 Stop Go by (simp add: quiet_def serveConn_round_def flow_then_def)
    qed (use assms Go in \<open>auto simp: serveConn_round_def flow_then_def\<close>)
  next
    case (Stop e' st1)
    then have "st1 = st'" using assms by (auto simp: serveConn_round_def flow_then_def)
    then show ?thesis using readRequest_counts Stop by (fastforce simp: serveConn_round_def flow_then_def)
  qed (use assms in \<open>auto simp: serveConn_round_def flow_then_def\<close>)
  then show "?c st' \<le> Suc (?c st)" "serveConn_round s c E connID st = Go st' \<Longrightarrow> sc_connRequestNum st' = Suc (sc_connRequestNum st)
      \<and> (sv_MaxRequestsPerConn s \<le> 0 \<or> int (Suc (sc_connRequestNum st)) < sv_MaxRequestsPerConn s)" by blast+
qed

lemma loop_counts:
  assumes "serveConn_loop s c E connID st = Some (Ret (err, st'))" and "0 < sv_MaxRequestsPerConn s"
    and "int (sc_connRequestNum st) < sv_MaxRequestsPerConn s" and "length (handled (sc_log st)) \<le> sc_connRequestNum st"
  shows "int (length (handled (sc_log st'))) \<le> sv_MaxRequestsPerConn s"
  using assms
proof (induction "nat (sv_MaxRequestsPerConn s) - sc_connRequestNum st" arbitrary: st rule: less_induct)
  case less
  show ?case
  proof (cases "serveConn_round s c E connID st")
    case (Go st1)
    have c: "length (handled (sc_log st1)) \<le> Suc (length (handled (sc_log st)))" using round_counts(1) Go by metis
    have n: "sc_connRequestNum st1 = Suc (sc_connRequestNum st)" "int (Suc (sc_connRequestNum st)) < sv_MaxRequestsPerConn s"
      using round_counts(2) Go less.prems(2) by fastforce+
    have "serveConn_loop s c E connID st1 = Some (Ret (err, st'))"
      using less.prems(1) Go by (simp add: serveConn_loop.simps [of s c E connID st])
    then show ?thesis using less.hyps [of st1] c n less.prems(2,4) by auto
  next
    case (Stop e st1)
    have "length (handled (sc_log st1)) \<le> Suc (length (handled (sc_log st)))" using round_counts(1) Stop by metis
    moreover have "st1 = st'" using less.prems(1) Stop by (simp add: serveConn_loop.simps [of s c E connID st])
    ultimately show ?thesis using less.prems(3,4) by simp
  next
    case Crash
    then show ?thesis using less.prems(1) by (simp add: serveConn_loop.simps [of s c E connID st])
  qed
qed


section \<open>Properties\<close>

text \<open>
  C19. A connection is never used for more than \<open>MaxRequestsPerConn\<close> requests, whatever the client sends and
  the handlers do, hijacking and timeouts included.
\<close>

theorem requests_per_conn_bounded:
  assumes "Server_serveConn s c E connID r pool = Some (Ret (err, st))" and "0 < sv_MaxRequestsPerConn s"
  shows "int (length (handled (sc_log st))) \<le> sv_MaxRequestsPerConn s"
proof -
  define st0 where "st0 = serveConn_start s E r pool"
  have st0: "sc_log st0 = []" "sc_connRequestNum st0 = 0" by (simp_all add: st0_def serveConn_start_def Let_def split: prod.splits)
  obtain proto st1 where p: "Server_getNextProto s c st0 = Ret (proto, st1)"
    using assms(1) unfolding Server_serveConn_def Let_def st0_def [symmetric] by (cases "Server_getNextProto s c st0") auto
  have "quiet st0 st1"
    using p quiet_deadline by (fastforce simp: Server_getNextProto_def quiet_def split: option.splits panics.splits)
  then have st1: "handled (sc_log st1) = []" "sc_connRequestNum st1 = 0" using st0 by (simp_all add: quiet_def)
  show ?thesis
  proof (cases "\<exists>b. proto = Inr b \<and> sv_nextProtos s b = None")
    case True
    then obtain err' st2 where st2: "serveConn_loop s c E connID st1 = Some (Ret (err', st2))" "serveConn_end E st2 = Ret st"
      using assms(1) p unfolding Server_serveConn_def Let_def st0_def [symmetric]
      by (auto simp: bind_eq_Some_conv split: panics.splits prod.splits) (metis panics.exhaust surj_pair)
    have "int (length (handled (sc_log st2))) \<le> sv_MaxRequestsPerConn s"
      by (rule loop_counts [OF st2(1) assms(2)]) (use st1 assms(2) in simp_all)
    moreover have "sc_log st = sc_log st2"
      using st2(2) by (auto simp: serveConn_end_def releaseWriter_def releaseReader_def Let_def split: if_splits panics.splits)
    ultimately show ?thesis by simp
  next
    case False
    then have "handled (sc_log st) = handled (sc_log st1)"
      using assms(1) p unfolding Server_serveConn_def Let_def st0_def [symmetric] by (auto split: sum.splits option.splits)
    then show ?thesis using st1 assms(2) by simp
  qed
qed

theorem requests_per_conn_bounded_witness:
  "let s = echo_server\<lparr>sv_MaxRequestsPerConn := 1\<rparr>;
       r = \<lparr>rd_data = request_bytes example_message @ request_bytes example_message, rd_err = EOF, br_size = 4096, br_buffered = 0,
            br_avail = (\<lambda>_. 3)\<rparr>
   in \<exists>st. Server_serveConn s example_conn example_env 1 r [] = Some (Ret (None, st)) \<and> int (length (handled (sc_log st))) \<le> 1"
proof -
  let ?s = "echo_server\<lparr>sv_MaxRequestsPerConn := 1\<rparr>"
  let ?r = "\<lparr>rd_data = request_bytes example_message @ request_bytes example_message, rd_err = EOF, br_size = 4096, br_buffered = 0,
    br_avail = (\<lambda>_. 3)\<rparr> :: bufreader"
  have 1: "plain_server ?s" "plain_conn example_conn" "sv_nextProtos ?s [] = None" "readLoop_once (se_readLoop example_env)"
    "se_stop example_env = (\<lambda>_. False)"
    by (simp_all add: plain_server_def plain_conn_def echo_server_def example_conn_def example_env_def read_once)
  have 2: "answers ?s" using echo_answers by (simp add: answers_def)
  have 3: "acceptable ?s example_message" using example_acceptable by (simp add: acceptable_def reader_size_def body_limit_def cong: if_cong)
  obtain st where st: "Server_serveConn ?s example_conn example_env 1 ?r [] = Some (Ret (None, st))"
    using pipelined_run [OF 1(1) 2 1(2-), of "[example_message, example_message]" "[]" ?r 1] 3 by (auto simp: br_wf_def)
  with requests_per_conn_bounded [OF this] show ?thesis by (auto simp: Let_def)
qed

text \<open>
  C38. A server that reduces its memory usage gives the writer back after each response, but does not flush
  it while another request is in the reader's buffer: the response to a request with a pipelined
  successor is never sent.
\<close>

theorem reduced_memory_drops_response:
  assumes "sv_ReduceMemoryUsage s" and "sc_bw st = None" and "sc_hasBr st" and "0 < br_buffered (sc_br st)"
    and "\<not> sc_connectionClose st" and "x_timeoutResponse (sc_ctx st) = None" and "p_bodyStream (x_Response (sc_ctx st)) = None"
    and "length (fst (Response_Write (se_serverDate E) (x_Response (sc_ctx st)) :: bytes \<times> 'e msg_err option \<times> Response)) \<le> bw_size s"
  shows "\<exists>st'. (serveConn_write s c (E :: ('f, 'v, 'h, 'e) serve_env) None st :: (('f, 'v, 'h) serving, 'e) flow) = Go st'
    \<and> sc_out st' = sc_out st \<and> sc_bw st' = None"
proof -
  obtain p err resp where w: "(Response_Write (se_serverDate E) (x_Response (sc_ctx st)) :: bytes \<times> 'e msg_err option \<times> Response) = (p, err, resp)"
    by (cases "Response_Write (se_serverDate E) (x_Response (sc_ctx st)) :: bytes \<times> 'e msg_err option \<times> Response") auto
  have err: "err = None" using w assms(7) by (auto simp: Response_Write_def Let_def split: prod.splits if_splits)
  let ?st1 = "acquireWriter st"
  have st1: "?st1 = st\<lparr>sc_bw := Some []\<rparr>" using assms(2) by (simp add: acquireWriter_def)
  have "writeResponse s c E ?st1 = Ret (None, ?st1\<lparr>sc_bw := Some p, sc_ctx := (sc_ctx st)\<lparr>x_Response := Response_Reset resp\<rparr>\<rparr>)"
    using assms(6-8) w err by (simp add: st1 writeResponse_def bw_Write_def nilable_def Let_def)
  then show ?thesis using assms(1,3-5)
    by (simp add: serveConn_write_def st1 flow_then_def br_Buffered_def releaseWriter_def)
qed

definition example_serving :: "(unit, unit, unit, unit) Server \<Rightarrow> (unit, unit, unit) serving" where
  "example_serving s = (serveConn_start s example_env \<lparr>rd_data = bytes_of ''GET'', rd_err = EOF, br_size = 4096, br_buffered = 3,
     br_avail = (\<lambda>_. 3)\<rparr> [])\<lparr>sc_hasBr := True\<rparr>"

lemma example_serving_simps [simp]:
  "sc_bw (example_serving s) = None" "sc_hasBr (example_serving s)" "br_buffered (sc_br (example_serving s)) = 3"
  "\<not> sc_connectionClose (example_serving s)" "sc_ctx (example_serving s) = newCtx s" "sc_out (example_serving s) = []"
  "sc_pool (example_serving s) = []" "sc_log (example_serving s) = []" "sc_continueReadingRequest (example_serving s)"
  "rd_data (sc_br (example_serving s)) = bytes_of ''GET''"
  by (simp_all add: example_serving_def serveConn_start_def acquireCtx_def example_env_def newCtx_def Let_def)

lemma newCtx_simps [simp]:
  "x_timeoutResponse (newCtx s) = None" "p_bodyStream (x_Response (newCtx s)) = None" "x_stream (newCtx s) = None"
  by (simp_all add: newCtx_def zeroResponse_def Let_def)

theorem reduced_memory_drops_response_witness:
  "let n = length (fst (Response_Write (se_serverDate example_env) (x_Response (newCtx (echo_server\<lparr>sv_ReduceMemoryUsage := True\<rparr>)))
             :: bytes \<times> unit msg_err option \<times> Response));
       s = echo_server\<lparr>sv_ReduceMemoryUsage := True, sv_WriteBufferSize := int n + 1\<rparr>
   in \<exists>st'. (serveConn_write s example_conn example_env None (example_serving s) :: ((unit, unit, unit) serving, unit) flow) = Go st'
        \<and> sc_out st' = [] \<and> sc_bw st' = None"
proof -
  define n where "n = length (fst (Response_Write (se_serverDate example_env) (x_Response (newCtx (echo_server\<lparr>sv_ReduceMemoryUsage := True\<rparr>)))
    :: bytes \<times> unit msg_err option \<times> Response))"
  let ?s = "echo_server\<lparr>sv_ReduceMemoryUsage := True, sv_WriteBufferSize := int n + 1\<rparr>"
  have "newCtx ?s = newCtx (echo_server\<lparr>sv_ReduceMemoryUsage := True\<rparr>)" by (simp add: newCtx_def)
  then have "length (fst (Response_Write (se_serverDate example_env) (x_Response (sc_ctx (example_serving ?s)))
      :: bytes \<times> unit msg_err option \<times> Response)) \<le> bw_size ?s"
    by (simp add: n_def bw_size_def)
  then show ?thesis unfolding Let_def n_def [symmetric]
    using reduced_memory_drops_response [of ?s "example_serving ?s" example_env example_conn] by simp
qed

text \<open>
  When the hook has refused one \<open>100-continue\<close> request, the flag that it sets is not reset: later
  requests on the connection that do not expect \<open>100 Continue\<close> never reach the handler.
\<close>

theorem refused_continue_silences_handler:
  assumes "\<not> sc_continueReadingRequest st" and "\<not> Request_MayContinue (x_Request (sc_ctx st))"
    and "flow_then (serveConn_continue s c E st) (serveConn_call s E connID) = Go st'"
  shows "handled (sc_log st') = handled (sc_log st) \<and> \<not> sc_continueReadingRequest st'"
proof -
  have "serveConn_call s E connID st = Go st'" using assms by (simp add: serveConn_continue_def flow_then_def)
  then show ?thesis using assms(1) by (auto simp: serveConn_call_def Let_def split: option.splits prod.splits)
qed

theorem refused_continue_silences_handler_witness:
  "\<exists>st'. flow_then (serveConn_continue echo_server example_conn example_env ((example_serving echo_server)\<lparr>sc_continueReadingRequest := False\<rparr>))
        (serveConn_call echo_server example_env 1) = Go st' \<and> handled (sc_log st') = []"
proof -
  let ?st = "(example_serving echo_server)\<lparr>sc_continueReadingRequest := False\<rparr>"
  have 1: "\<not> Request_MayContinue (x_Request (sc_ctx ?st))"
    by (simp add: Request_MayContinue_def newCtx_def zeroRequest_def zeroRequestHeader_def RequestHeader_peek_def peekArg_list slice_empty_def
        nilable_def str_defs Let_def)
  then have "\<exists>st'. flow_then (serveConn_continue echo_server example_conn example_env ?st) (serveConn_call echo_server example_env 1) = Go st'"
    by (simp add: serveConn_continue_def flow_then_def serveConn_call_def Let_def)
  then show ?thesis using refused_continue_silences_handler [of ?st echo_server example_conn example_env 1] 1 by auto
qed

lemma body_of_simps [simp]:
  "p_SkipBody (x_Response (SetServerBytes n ctx)) = p_SkipBody (x_Response ctx)"
  "Response_bodyBytes (x_Response (SetServerBytes n ctx)) = Response_bodyBytes (x_Response ctx)"
  "p_SkipBody (x_Response (ctx_SetConnectionClose ctx)) = p_SkipBody (x_Response ctx)"
  "Response_bodyBytes (x_Response (ctx_SetConnectionClose ctx)) = Response_bodyBytes (x_Response ctx)"
  "Response_bodyBytes (resp\<lparr>p_Header := h\<rparr>) = Response_bodyBytes resp"
  by (simp_all add: SetServerBytes_def ctx_SetConnectionClose_def Response_SetConnectionClose_def Response_bodyBytes_def split: option.splits)

lemma finish_body:
  assumes "serveConn_finish s E num cl v11 ctx = (hh, hn, ctx', close)" and "ctx_IsGet ctx"
  shows "p_SkipBody (x_Response ctx') = p_SkipBody (x_Response ctx) \<and> Response_bodyBytes (x_Response ctx') = Response_bodyBytes (x_Response ctx)"
proof -
  note d = if_distrib [of "\<lambda>x. p_SkipBody (x_Response x)"] if_distrib [of "\<lambda>x. Response_bodyBytes (x_Response x)"]
  show ?thesis using assms unfolding serveConn_finish_def Let_def prod.inject
    by (elim conjE) (hypsubst, simp add: d cong: if_cong)
qed

lemma CopyTo_body:
  "p_SkipBody (Response_CopyTo resp dst) = p_SkipBody resp" "nilable (Response_bodyBytes (Response_CopyTo resp dst)) = nilable (Response_bodyBytes resp)"
  by (auto simp: Response_CopyTo_def Response_copyToSkipBody_def Response_Reset_def Response_resetSkipHeader_def Response_ResetBody_def
      Response_closeBodyStream_def Response_bodyBuffer_def Response_bodyBytes_def nilable_def Let_def split: option.splits if_splits)

text \<open>
  A \<open>HEAD\<close> request whose handler timed out: the check for \<open>HEAD\<close> looks at the request of the new
  context, so the body of the timeout response is sent.
\<close>

theorem timed_out_head_gets_body:
  assumes "se_pick E (length (sc_pool st)) = None" and "x_stream (sc_ctx st) = None" and "sc_continueReadingRequest st"
    and "\<And>ctx. x_timeoutResponse (sv_Handler s ctx []) = Some resp"
    and "serveConn_call s E connID st = Go st'"
    and "serveConn_finish s E n cl v11 (sc_ctx st') = (hh, hn, ctx', close)"
  shows "p_SkipBody (x_Response ctx') = p_SkipBody resp \<and> nilable (Response_bodyBytes (x_Response ctx')) = nilable (Response_bodyBytes resp)"
proof -
  let ?ctx = "(newCtx s)\<lparr>x_Response := Response_CopyTo resp (x_Response (newCtx s))\<rparr>"
  have ctx: "sc_ctx st' = ?ctx"
    using assms(1-5) by (auto simp: serveConn_call_def serveConn_handler_def acquireCtx_def Let_def)
  then have "ctx_IsGet (sc_ctx st')"
    by (simp add: ctx_IsGet_def newCtx_def zeroRequest_def zeroRequestHeader_def RequestHeader_IsGet_def
        RequestHeader_Method_def Let_def)
  from finish_body [OF assms(6) this] show ?thesis by (simp add: ctx CopyTo_body)
qed

definition slow_server :: "(unit, unit, unit, unit) Server" where
  "slow_server = echo_server\<lparr>sv_Handler := (\<lambda>ctx b. ctx_TimeoutError ctx (bytes_of ''too late''))\<rparr>"

theorem timed_out_head_gets_body_witness:
  "\<exists>st' hh hn ctx' close. serveConn_call slow_server example_env 1 (example_serving slow_server) = Go st'
    \<and> serveConn_finish slow_server example_env 1 False True (sc_ctx st') = (hh, hn, ctx', close)
    \<and> \<not> p_SkipBody (x_Response ctx') \<and> nilable (Response_bodyBytes (x_Response ctx')) = bytes_of ''too late''"
proof -
  let ?st = "example_serving slow_server"
  let ?resp = "Response_CopyTo (Response_SetBody (Response_SetStatusCode zeroResponse StatusRequestTimeout) (bytes_of ''too late'')) zeroResponse"
  have h: "x_timeoutResponse (sv_Handler slow_server ctx []) = Some ?resp" for ctx
    by (simp add: slow_server_def ctx_TimeoutError_def ctx_TimeoutErrorWithCode_def ctx_TimeoutErrorWithResponse_def)
  then obtain st' where st': "serveConn_call slow_server example_env 1 ?st = Go st'"
    by (simp add: serveConn_call_def serveConn_handler_def acquireCtx_def example_env_def Let_def)
  obtain hh hn ctx' close where fin: "serveConn_finish slow_server example_env 1 False True (sc_ctx st') = (hh, hn, ctx', close)"
    by (metis prod_cases4)
  have p: "se_pick example_env (length (sc_pool ?st)) = None" by (simp add: example_env_def)
  have "p_SkipBody (x_Response ctx') = p_SkipBody ?resp \<and> nilable (Response_bodyBytes (x_Response ctx')) = nilable (Response_bodyBytes ?resp)"
    by (rule timed_out_head_gets_body [OF p _ _ h st' fin]) simp_all
  moreover have "\<not> p_SkipBody ?resp" "nilable (Response_bodyBytes ?resp) = bytes_of ''too late''" unfolding CopyTo_body
    by (simp_all add: Response_SetBody_def Response_SetStatusCode_def Response_closeBodyStream_def Response_bodyBuffer_def
        Response_bodyBytes_def zeroResponse_def nilable_def Let_def)
  ultimately have "\<not> p_SkipBody (x_Response ctx') \<and> nilable (Response_bodyBytes (x_Response ctx')) = bytes_of ''too late''" by simp
  with st' fin show ?thesis by blast
qed

lemma writeResponse_br: "writeResponse s c E st = Ret (err, st') \<Longrightarrow> sc_br st' = sc_br st"
  by (auto simp: writeResponse_def bw_Write_def Let_def split: if_splits prod.splits)

lemma flush_flow_br: "flush_flow c st = Go st' \<Longrightarrow> sc_br st' = sc_br st"
  by (auto simp: flush_flow_def bw_Flush_def split: prod.splits bool.splits)

lemma reply_br:
  assumes "serveConn_reply s c E st = Go st'"
  shows "sc_br st' = sc_br st"
proof -
  have deadline: "sc_br st2 = sc_br st1" if "set_deadline c SetWriteDeadline d st1 = Ret st2" for d st1 st2
    using that by (auto simp: set_deadline_def split: if_splits)
  have wr: "sc_br st2 = sc_br st1" if "serveConn_write s c E hh st1 = Go st2" for hh st1 st2
    using that by (auto simp: serveConn_write_def flow_then_def acquireWriter_def releaseWriter_def
        split: if_splits flow.splits panics.splits option.splits prod.splits dest!: writeResponse_br flush_flow_br)
  have idle: "sc_br st2 = sc_br st1" if "serveConn_idle E st1 = Go st2" for st1 st2
    using that by (auto simp: serveConn_idle_def Let_def split: if_splits)
  have hijack: "serveConn_hijack c h st1 \<noteq> Go st2" for h st1 st2
    by (auto simp: serveConn_hijack_def flow_then_def Let_def split: if_splits option.splits flow.splits)
  obtain hh hn ctx' close where fin:
    "serveConn_finish s E (sc_connRequestNum st) (sc_connectionClose st) (sc_isHTTP11 st) (sc_ctx st) = (hh, hn, ctx', close)"
    by (metis prod_cases4)
  let ?st = "st\<lparr>sc_ctx := ctx', sc_reqReset := True, sc_connectionClose := close\<rparr>"
  obtain st1 where d: "set_deadline c SetWriteDeadline (sc_writeTimeout st) ?st = Ret st1"
    using assms fin by (cases "set_deadline c SetWriteDeadline (sc_writeTimeout st) ?st") (auto simp: serveConn_reply_def)
  then have 1: "sc_br st1 = sc_br st" using deadline by fastforce
  have "flow_then (if hn then Go st1 else serveConn_write s c E hh st1)
      (\<lambda>st. case hh of Some h \<Rightarrow> serveConn_hijack c h st | None \<Rightarrow> serveConn_idle E st) = Go st'"
    using assms fin d by (simp add: serveConn_reply_def)
  then obtain st2 where "(if hn then Go st1 else serveConn_write s c E hh st1) = Go st2" "serveConn_idle E st2 = Go st'"
    by (auto simp: flow_then_def hijack split: flow.splits option.splits if_splits)
  then show ?thesis using 1 wr idle by (metis flow.inject(1))
qed

text \<open>
  A streamed chunked body that the handler does not read stays on the connection: it is what the next
  round takes for a request.
\<close>

theorem unread_stream_is_next_request:
  assumes "sv_StreamRequestBody s" and "\<not> sv_GetOnly s" and "sv_reads s = (\<lambda>_. [])" and "sc_hasBr st"
    and "sc_continueReadingRequest st" and "rq_contentLength (sc_header st) = -1" and "\<not> Request_MayContinue (x_Request (sc_ctx st))"
    and "serveConn_readBody s E False st = Ret (None, st1)"
    and "serveConn_call s E connID st1 = Go st2"
  shows "rd_data (sc_br st2) = rd_data (sc_br st)
    \<and> (\<forall>st3. serveConn_reply s c E st2 = Go st3 \<longrightarrow> rd_data (sc_br st3) = rd_data (sc_br st))"
proof -
  have st1: "rd_data (sc_br st1) = rd_data (sc_br st)" "sc_hasBr st1" "sc_continueReadingRequest st1"
    using assms(1,2,4-8)
    by (auto simp: serveConn_readBody_def Request_readBodyStream_def Request_ContinueReadBodyStream_def RequestHeader_ContentLength_def
        sc_header_def readBodyWithStreaming_def br_after_wf br_reader_def Let_def)
  have "rd_data (sc_br st2) = rd_data (sc_br st1)"
    using assms(3,9) st1(2,3)
    by (auto simp: serveConn_call_def serveConn_handler_def br_after_wf br_reader_def Let_def
        split: option.splits prod.splits panics.splits if_splits)
  then show ?thesis using reply_br st1(1) by metis
qed

theorem unread_stream_is_next_request_witness:
  "let s = echo_server\<lparr>sv_StreamRequestBody := True\<rparr>;
       st = sc_setRead (example_serving s) (zeroRequestHeader\<lparr>rq_contentLength := -1\<rparr>) (sc_br (example_serving s))
   in \<exists>st1 st2. serveConn_readBody s example_env False st = Ret (None, st1)
        \<and> serveConn_call s example_env 1 st1 = Go st2 \<and> rd_data (sc_br st2) = bytes_of ''GET''"
proof -
  let ?s = "echo_server\<lparr>sv_StreamRequestBody := True\<rparr>"
  define st where "st = sc_setRead (example_serving ?s) (zeroRequestHeader\<lparr>rq_contentLength := -1\<rparr>) (sc_br (example_serving ?s))"
  have st: "sc_hasBr st" "sc_continueReadingRequest st" "rq_contentLength (sc_header st) = -1"
    "\<not> Request_MayContinue (x_Request (sc_ctx st))" "rd_data (sc_br st) = bytes_of ''GET''" "x_timeoutResponse (sc_ctx st) = None"
    by (simp_all add: st_def sc_setRead_def sc_header_def Request_MayContinue_def newCtx_def zeroRequest_def zeroRequestHeader_def
        RequestHeader_peek_def peekArg_list slice_empty_def nilable_def str_defs Let_def)
  obtain req rs r where st1: "serveConn_readBody ?s example_env False st =
      Ret (None, st\<lparr>sc_ctx := (sc_ctx st)\<lparr>x_Request := req, x_stream := Some rs\<rparr>, sc_br := r\<rparr>)"
    using st(3,4)
    by (auto simp: serveConn_readBody_def Request_readBodyStream_def Request_ContinueReadBodyStream_def RequestHeader_ContentLength_def
        sc_header_def readBodyWithStreaming_def br_reader_def echo_server_def Let_def)
  obtain st2 where st2: "serveConn_call ?s example_env 1 (st\<lparr>sc_ctx := (sc_ctx st)\<lparr>x_Request := req, x_stream := Some rs\<rparr>, sc_br := r\<rparr>) = Go st2"
    using st(1,2,6)
    by (auto simp: serveConn_call_def serveConn_handler_def echo_server_def echo_def ctx_SetBody_def Let_def)
  have "sv_StreamRequestBody ?s" "\<not> sv_GetOnly ?s" "sv_reads ?s = (\<lambda>_. [])" by (simp_all add: echo_server_def)
  from unread_stream_is_next_request [OF this st(1-4) st1 st2, of example_conn] show ?thesis
    unfolding Let_def st_def [symmetric] using st1 st2 st(5) by metis
qed

end
