(* ===== verification/ServerCounts.thy ===== *)
theory ServerCounts
  imports PerIPConn
begin

text \<open>
  How the server counts its connections (\<^verbatim>\<open>server.go\<close>): the atomic counters \<open>concurrency\<close> and \<open>open\<close>,
  which \<open>Serve\<close>, \<open>ServeConn\<close>, \<open>serveConn\<close> and \<open>Shutdown\<close> change in separate steps that goroutines
  interleave. Each connection is where its goroutine is; the state is the two counters, the multiset of
  these places, the number of running \<open>Serve\<close> calls and of registered listeners, where \<open>Shutdown\<close> is and
  the flag \<open>stop\<close>. The channel \<open>done\<close>, which \<open>Shutdown\<close> closes for the handlers, is left out.
\<close>


section \<open>Configuration\<close>

definition DefaultConcurrency :: int where
  "DefaultConcurrency = 256 * 1024"

definition Server_getConcurrency :: "int \<Rightarrow> int" where
  "Server_getConcurrency Concurrency = (let n = Concurrency in if n \<le> 0 then DefaultConcurrency else n)"


section \<open>State and steps\<close>

text \<open>
  A connection of \<open>ServeConn\<close>: \<open>Refused\<close> was counted and is over the limit, \<open>Admitted\<close> was counted,
  \<open>Opened\<close> is counted as open, \<open>Serving\<close> is in \<open>serveConn\<close>, \<open>Cleaning\<close> between the two additions of
  \<open>serveConnCleanup\<close>, \<open>Served\<close> has left \<open>serveConn\<close>. A connection of \<open>Serve\<close>: \<open>Accepted\<close> is counted as open
  and offered to the worker pool, \<open>Working\<close> is in \<open>serveConn\<close>, \<open>WorkCleaning\<close> in its cleanup.
\<close>

datatype conn_place = Refused | Admitted | Opened | Serving | Cleaning | Served | Accepted | Working | WorkCleaning

text \<open>\<open>Shutdown\<close> holds the server's mutex from its start to its return: one call at a time.\<close>

datatype shutdown_place = NotCalled | Stopping | Waiting

record server_counts =
  n_concurrency :: "32 word"
  n_open :: "32 word"
  n_conns :: "conn_place multiset"
  n_ln :: nat
  n_starting :: nat
  n_listening :: nat
  n_shutdown :: shutdown_place
  n_stop :: bool

definition moved :: "server_counts \<Rightarrow> conn_place \<Rightarrow> conn_place \<Rightarrow> server_counts" where
  "moved s a b = s\<lparr>n_conns := n_conns s - {#a#} + {#b#}\<rparr>"

definition gone :: "server_counts \<Rightarrow> conn_place \<Rightarrow> server_counts" where
  "gone s a = s\<lparr>n_conns := n_conns s - {#a#}\<rparr>"

text \<open>\<open>ServeConn\<close>: the connection is counted and compared with the limit in one atomic addition.\<close>

definition ServeConn_enter :: "int \<Rightarrow> server_counts \<Rightarrow> server_counts" where
  "ServeConn_enter Concurrency s =
     (let n = n_concurrency s + 1;
          place = (if n > word_of_int (Server_getConcurrency Concurrency) then Refused else Admitted)
      in s\<lparr>n_concurrency := n, n_conns := n_conns s + {#place#}\<rparr>)"

definition ServeConn_refuse :: "server_counts \<Rightarrow> server_counts" where
  "ServeConn_refuse s = (gone s Refused)\<lparr>n_concurrency := n_concurrency s - 1\<rparr>"

definition ServeConn_open :: "server_counts \<Rightarrow> server_counts" where
  "ServeConn_open s = (moved s Admitted Opened)\<lparr>n_open := n_open s + 1\<rparr>"

definition ServeConn_leave :: "server_counts \<Rightarrow> server_counts" where
  "ServeConn_leave s = (gone s Served)\<lparr>n_concurrency := n_concurrency s - 1\<rparr>"

text \<open>\<open>serveConn\<close>: what it counts on entry, and \<open>serveConnCleanup\<close>, which it defers: two atomic additions.\<close>

definition serveConn_enter :: "server_counts \<Rightarrow> server_counts" where
  "serveConn_enter s = s\<lparr>n_concurrency := n_concurrency s + 1\<rparr>"

definition serveConnCleanup_open :: "server_counts \<Rightarrow> server_counts" where
  "serveConnCleanup_open s = s\<lparr>n_open := n_open s - 1\<rparr>"

definition serveConnCleanup_concurrency :: "server_counts \<Rightarrow> server_counts" where
  "serveConnCleanup_concurrency s = s\<lparr>n_concurrency := n_concurrency s - 1\<rparr>"

text \<open>
  \<open>Serve\<close> registers its listener under the mutex; later, listening counts as one open connection; so
  does each accepted connection.
\<close>

definition Serve_register :: "server_counts \<Rightarrow> server_counts" where
  "Serve_register s = s\<lparr>n_ln := n_ln s + 1, n_starting := n_starting s + 1\<rparr>"

definition Serve_listen :: "server_counts \<Rightarrow> server_counts" where
  "Serve_listen s = s\<lparr>n_open := n_open s + 1, n_starting := n_starting s - 1, n_listening := n_listening s + 1\<rparr>"

definition Serve_return :: "server_counts \<Rightarrow> server_counts" where
  "Serve_return s = s\<lparr>n_open := n_open s - 1, n_listening := n_listening s - 1\<rparr>"

definition Serve_accept :: "server_counts \<Rightarrow> server_counts" where
  "Serve_accept s = s\<lparr>n_open := n_open s + 1, n_conns := n_conns s + {#Accepted#}\<rparr>"

definition Serve_overflow :: "server_counts \<Rightarrow> server_counts" where
  "Serve_overflow s = (gone s Accepted)\<lparr>n_open := n_open s - 1\<rparr>"

text \<open>
  \<open>Shutdown\<close> raises the flag. Without a registered listener it returns at once, and when closing one
  fails it returns with that error; only after all are closed it waits until it sees no open
  connection. On every way out the flag is lowered and the mutex unlocked.
\<close>

definition Shutdown_begin :: "server_counts \<Rightarrow> server_counts" where
  "Shutdown_begin s = s\<lparr>n_stop := True, n_shutdown := Stopping\<rparr>"

definition Shutdown_return :: "server_counts \<Rightarrow> server_counts" where
  "Shutdown_return s = s\<lparr>n_stop := False, n_shutdown := NotCalled\<rparr>"

definition Shutdown_close :: "bool \<Rightarrow> server_counts \<Rightarrow> server_counts" where
  "Shutdown_close closed s =
     (if n_ln s = 0 then Shutdown_return s
      else if \<not> closed then Shutdown_return s
      else s\<lparr>n_shutdown := Waiting\<rparr>)"

definition Shutdown_done :: "server_counts \<Rightarrow> server_counts option" where
  "Shutdown_done s = (if n_open s = 0 then Some (Shutdown_return (s\<lparr>n_ln := 0\<rparr>)) else None)"

definition GetCurrentConcurrency :: "server_counts \<Rightarrow> int" where
  "GetCurrentConcurrency s = uint (n_concurrency s)"

definition GetOpenConnectionsCount :: "server_counts \<Rightarrow> int" where
  "GetOpenConnectionsCount s = (if \<not> n_stop s then sint (n_open s - 1) else sint (n_open s))"

datatype count_event =
  Entered | RefusedOne | OpenedOne | ServeStarted | ServeEnded | ServeCleaned | Left
  | Registered | Listening | Returned | AcceptedOne | Overflowed | WorkStarted | WorkEnded | WorkCleaned
  | ShutdownBegun | ShutdownClosed bool | ShutdownDone

inductive count_step :: "int \<Rightarrow> server_counts \<Rightarrow> count_event \<Rightarrow> server_counts \<Rightarrow> bool" for Concurrency :: int where
  entered: "count_step Concurrency s Entered (ServeConn_enter Concurrency s)"
| refused: "Refused \<in># n_conns s \<Longrightarrow> count_step Concurrency s RefusedOne (ServeConn_refuse s)"
| opened: "Admitted \<in># n_conns s \<Longrightarrow> count_step Concurrency s OpenedOne (ServeConn_open s)"
| serve_started: "Opened \<in># n_conns s \<Longrightarrow> count_step Concurrency s ServeStarted (serveConn_enter (moved s Opened Serving))"
| serve_ended: "Serving \<in># n_conns s \<Longrightarrow> count_step Concurrency s ServeEnded (serveConnCleanup_open (moved s Serving Cleaning))"
| serve_cleaned: "Cleaning \<in># n_conns s \<Longrightarrow>
    count_step Concurrency s ServeCleaned (serveConnCleanup_concurrency (moved s Cleaning Served))"
| left: "Served \<in># n_conns s \<Longrightarrow> count_step Concurrency s Left (ServeConn_leave s)"
| registered: "n_shutdown s = NotCalled \<Longrightarrow> count_step Concurrency s Registered (Serve_register s)"
| listening: "0 < n_starting s \<Longrightarrow> count_step Concurrency s Listening (Serve_listen s)"
| returned: "0 < n_listening s \<Longrightarrow> count_step Concurrency s Returned (Serve_return s)"
| accepted: "0 < n_listening s \<Longrightarrow> count_step Concurrency s AcceptedOne (Serve_accept s)"
| overflowed: "Accepted \<in># n_conns s \<Longrightarrow> count_step Concurrency s Overflowed (Serve_overflow s)"
| work_started: "Accepted \<in># n_conns s \<Longrightarrow> count_step Concurrency s WorkStarted (serveConn_enter (moved s Accepted Working))"
| work_ended: "Working \<in># n_conns s \<Longrightarrow>
    count_step Concurrency s WorkEnded (serveConnCleanup_open (moved s Working WorkCleaning))"
| work_cleaned: "WorkCleaning \<in># n_conns s \<Longrightarrow>
    count_step Concurrency s WorkCleaned (serveConnCleanup_concurrency (gone s WorkCleaning))"
| shutdown_begun: "n_shutdown s = NotCalled \<Longrightarrow> count_step Concurrency s ShutdownBegun (Shutdown_begin s)"
| shutdown_closed: "n_shutdown s = Stopping \<Longrightarrow> count_step Concurrency s (ShutdownClosed closed) (Shutdown_close closed s)"
| shutdown_done: "n_shutdown s = Waiting \<Longrightarrow> Shutdown_done s = Some t \<Longrightarrow> count_step Concurrency s ShutdownDone t"

definition count_start :: server_counts where
  "count_start = \<lparr>n_concurrency = 0, n_open = 0, n_conns = {#}, n_ln = 0, n_starting = 0, n_listening = 0,
     n_shutdown = NotCalled, n_stop = False\<rparr>"

inductive count_reachable :: "int \<Rightarrow> server_counts \<Rightarrow> bool" for Concurrency :: int where
  start: "count_reachable Concurrency count_start"
| step: "count_reachable Concurrency s \<Longrightarrow> count_step Concurrency s e t \<Longrightarrow> count_reachable Concurrency t"


section \<open>The invariant\<close>

text \<open>What each connection contributes to the counters.\<close>

fun concurrency_of :: "conn_place \<Rightarrow> nat" where
  "concurrency_of Serving = 2"
| "concurrency_of Cleaning = 2"
| "concurrency_of Accepted = 0"
| "concurrency_of _ = 1"

fun open_of :: "conn_place \<Rightarrow> nat" where
  "open_of Refused = 0"
| "open_of Admitted = 0"
| "open_of Cleaning = 0"
| "open_of Served = 0"
| "open_of WorkCleaning = 0"
| "open_of _ = 1"

definition tally :: "(conn_place \<Rightarrow> nat) \<Rightarrow> conn_place multiset \<Rightarrow> nat" where
  "tally f M = sum_mset (image_mset f M)"

lemma tally_simps [simp]:
  "tally f {#} = 0" "tally f (add_mset a M) = f a + tally f M" "tally f (M + N) = tally f M + tally f N"
  by (simp_all add: tally_def)

lemma tally_remove: "a \<in># M \<Longrightarrow> tally f (M - {#a#}) = tally f M - f a"
  by (simp add: tally_def image_mset_Diff sum_mset_diff)

lemma tally_ge: "a \<in># M \<Longrightarrow> f a \<le> tally f M"
  by (auto dest!: multi_member_split)

lemma tally_zero: "tally f M = 0 \<longleftrightarrow> (\<forall>a. a \<in># M \<longrightarrow> f a = 0)"
  by (auto simp: tally_def)

definition counts_exact :: "server_counts \<Rightarrow> bool" where
  "counts_exact s \<longleftrightarrow>
     n_concurrency s = of_nat (tally concurrency_of (n_conns s))
     \<and> n_open s = of_nat (tally open_of (n_conns s) + n_listening s)"

lemma remove_word:
  assumes "a \<in># M"
  shows "(of_nat (tally f (M - {#a#})) :: 32 word) = of_nat (tally f M) - of_nat (f a)"
  using tally_ge [OF assms, of f] by (simp add: tally_remove [OF assms] of_nat_diff)

lemma step_exact:
  assumes "count_step C s e t" and "counts_exact s"
  shows "counts_exact t"
  using assms
  by (cases rule: count_step.cases)
    (auto simp: counts_exact_def ServeConn_enter_def ServeConn_refuse_def ServeConn_open_def ServeConn_leave_def
      serveConn_enter_def serveConnCleanup_open_def serveConnCleanup_concurrency_def Serve_register_def Serve_listen_def Serve_return_def Serve_accept_def Serve_overflow_def
      Shutdown_begin_def Shutdown_return_def Shutdown_close_def Shutdown_done_def moved_def gone_def remove_word of_nat_diff Let_def algebra_simps split: if_splits)

lemma reachable_exact: "count_reachable C s \<Longrightarrow> counts_exact s"
proof (induction rule: count_reachable.induct)
  case start
  show ?case by (simp add: counts_exact_def count_start_def)
next
  case (step s e t)
  then show ?case by (blast intro: step_exact)
qed


section \<open>Properties\<close>

lemma tally_replicate: "tally f (replicate_mset k a) = k * f a"
  by (induction k) simp_all

definition one_serving :: server_counts where
  "one_serving = (let s = ServeConn_open (ServeConn_enter 2 count_start) in serveConn_enter (moved s Opened Serving))"

lemma one_serving_reachable: "count_reachable 2 one_serving" "n_conns one_serving = {#Serving#}"
proof -
  let ?a = "ServeConn_enter 2 count_start" and ?b = "ServeConn_open (ServeConn_enter 2 count_start)"
  have c: "n_conns ?a = {#Admitted#}" "n_conns ?b = {#Opened#}"
    by (simp_all add: ServeConn_open_def ServeConn_enter_def moved_def count_start_def Server_getConcurrency_def Let_def)
  have "count_reachable 2 ?a" by (rule count_reachable.step [OF start entered])
  then have "count_reachable 2 ?b" by (rule count_reachable.step [OF _ opened]) (simp add: c)
  then show "count_reachable 2 one_serving" unfolding one_serving_def Let_def
    by (rule count_reachable.step [OF _ serve_started]) (simp add: c)
  show "n_conns one_serving = {#Serving#}" by (simp add: one_serving_def serveConn_enter_def moved_def c Let_def)
qed

text \<open>
  C11. However the steps of the connections interleave, the two counters say exactly where they are: a
  connection that \<open>Serve\<close> accepted is counted once from when it is accepted until it is served, and
  listening counts as one open connection. But a connection of \<open>ServeConn\<close> is counted twice as
  concurrent while it is served.
\<close>

theorem server_counters_exact:
  assumes "count_reachable Concurrency s"
  shows "n_concurrency s = of_nat (tally concurrency_of (n_conns s))
    \<and> n_open s = of_nat (tally open_of (n_conns s) + n_listening s)"
  using reachable_exact [OF assms] by (simp add: counts_exact_def)

theorem server_counters_exact_witness:
  "n_concurrency one_serving = 2 \<and> n_open one_serving = 1"
  using server_counters_exact [OF one_serving_reachable(1)] one_serving_reachable(2)
  by (simp add: one_serving_def ServeConn_open_def ServeConn_enter_def serveConn_enter_def moved_def count_start_def Let_def)

text \<open>
  C40. \<open>ServeConn\<close> refuses connections at half the configured concurrency: with \<open>k\<close> connections being served
  it refuses the next one exactly when \<open>2 k + 1\<close> exceeds the limit.
\<close>

theorem ServeConn_half_concurrency:
  assumes "count_reachable Concurrency s" and "n_conns s = replicate_mset k Serving"
    and "2 * int k + 1 < 2 ^ 32" and "Server_getConcurrency Concurrency < 2 ^ 32"
  shows "Refused \<in># n_conns (ServeConn_enter Concurrency s) \<longleftrightarrow> 2 * int k + 1 > Server_getConcurrency Concurrency"
proof -
  let ?lim = "Server_getConcurrency Concurrency"
  have lim: "0 \<le> ?lim" by (simp add: Server_getConcurrency_def DefaultConcurrency_def Let_def)
  have "n_concurrency s + 1 = word_of_int (2 * int k + 1)"
    using reachable_exact [OF assms(1)] assms(2) by (simp add: counts_exact_def tally_replicate algebra_simps)
  note eq = this
  have small: "uint (word_of_int i :: 32 word) = i" if "0 \<le> i" "i < 2 ^ 32" for i
    using that by (simp add: uint_word_of_int)
  have "uint (word_of_int (2 * int k + 1) :: 32 word) = 2 * int k + 1" "uint (word_of_int ?lim :: 32 word) = ?lim"
    by (rule small; use assms(3,4) lim in linarith)+
  then have "n_concurrency s + 1 > word_of_int ?lim \<longleftrightarrow> 2 * int k + 1 > ?lim"
    unfolding eq by (simp only: word_less_def)
  then show ?thesis using assms(2) by (simp add: ServeConn_enter_def Let_def)
qed

theorem ServeConn_half_concurrency_witness:
  "n_conns one_serving = replicate_mset 1 Serving \<and> Refused \<in># n_conns (ServeConn_enter 2 one_serving)"
proof -
  have k: "n_conns one_serving = replicate_mset 1 Serving" by (simp add: one_serving_reachable(2))
  show ?thesis using ServeConn_half_concurrency [OF one_serving_reachable(1) k] k by (simp add: Server_getConcurrency_def)
qed

text \<open>
  A call of \<open>Shutdown\<close> that comes to waiting returns only when no \<open>Serve\<close> is listening, no accepted
  connection is waiting for a worker and no connection is being served. But without a listener, as on
  a server that is used through \<open>ServeConn\<close> alone, and when a listener cannot be closed, it returns at
  once and leaves the connections open.
\<close>

lemma Shutdown_waits:
  assumes "count_reachable Concurrency s" and "Shutdown_done s = Some t" and "size (n_conns s) + n_listening s < 2 ^ 32"
  shows "n_listening s = 0 \<and> set_mset (n_conns s) \<inter> {Opened, Serving, Accepted, Working} = {}"
proof -
  have "tally open_of M \<le> size M" for M
  proof (induction M)
    case (add a M)
    then show ?case by (cases a) auto
  qed simp
  then have lt: "tally open_of (n_conns s) + n_listening s < 2 ^ 32"
    using assms(3) by (meson add_le_mono1 le_less_trans)
  have "n_open s = of_nat (tally open_of (n_conns s) + n_listening s)" "n_open s = 0"
    using reachable_exact [OF assms(1)] assms(2) by (simp_all add: counts_exact_def Shutdown_done_def split: if_splits)
  then have "(of_nat (tally open_of (n_conns s) + n_listening s) :: 32 word) = 0" by simp
  then have "2 ^ 32 dvd tally open_of (n_conns s) + n_listening s" by (simp only: word_of_nat_eq_0_iff len_num0 len_bit0) simp
  then have "tally open_of (n_conns s) = 0" "n_listening s = 0" using lt by (auto dest: nat_dvd_not_less)
  then show ?thesis by (auto simp: tally_zero)
qed

lemma Shutdown_returns_at_once:
  assumes "n_ln s = 0 \<or> \<not> closed"
  shows "n_shutdown (Shutdown_close closed s) = NotCalled \<and> n_conns (Shutdown_close closed s) = n_conns s
    \<and> n_open (Shutdown_close closed s) = n_open s"
  using assms by (auto simp: Shutdown_close_def Shutdown_return_def)

end
