(* ===== verification/LBClient.thy ===== *)
theory LBClient
  imports Interfaces
begin

text \<open>
  \<^verbatim>\<open>lbclient.go\<close>: the load-balancing client. A balanced client is an argument of the model: the
  number of its pending requests, the outcome of its \<open>DoDeadline\<close>, and the health check. The
  counters \<open>penalty\<close> and \<open>total\<close> are the machine words of the source and change by atomic
  additions, so the goroutines that run \<open>DoDeadline\<close> and the timers interleave between them.
\<close>


section \<open>The client behind the balancer\<close>

record lbClient =
  lb_penalty :: "32 word"
  lb_total :: "64 word"

definition maxPenalty :: "32 word" where
  "maxPenalty = 300"

definition lbClient_decPenalty :: "lbClient \<Rightarrow> lbClient" where
  "lbClient_decPenalty c = c\<lparr>lb_penalty := lb_penalty c + NOT 0\<rparr>"

text \<open>The first atomic addition of \<open>incPenalty\<close>: whether the result is above the limit.\<close>

definition lbClient_incPenalty_add :: "lbClient \<Rightarrow> bool \<times> lbClient" where
  "lbClient_incPenalty_add c =
     (let m = lb_penalty c + 1 in (m > maxPenalty, c\<lparr>lb_penalty := m\<rparr>))"

text \<open>\<open>incPenalty\<close> when no other goroutine runs in between.\<close>

definition lbClient_incPenalty :: "lbClient \<Rightarrow> bool \<times> lbClient" where
  "lbClient_incPenalty c =
     (case lbClient_incPenalty_add c of
        (high, c) \<Rightarrow> if high then (False, lbClient_decPenalty c) else (True, c))"

definition lbClient_PendingRequests :: "int \<Rightarrow> lbClient \<Rightarrow> int" where
  "lbClient_PendingRequests n c = wrap64 (n + uint (lb_penalty c))"

definition lbClient_isHealthy :: "('err option \<Rightarrow> bool) option \<Rightarrow> 'err option \<Rightarrow> bool" where
  "lbClient_isHealthy healthCheck err = (case healthCheck of None \<Rightarrow> err = None | Some hc \<Rightarrow> hc err)"

text \<open>
  \<open>DoDeadline\<close> once the wrapped client has returned \<open>err\<close>: the client, and whether a timer was
  started that will take the penalty back.
\<close>

definition lbClient_DoDeadline ::
  "('err option \<Rightarrow> bool) option \<Rightarrow> 'err option \<Rightarrow> lbClient \<Rightarrow> bool \<times> lbClient" where
  "lbClient_DoDeadline healthCheck err c =
     (if \<not> lbClient_isHealthy healthCheck err then
        (case lbClient_incPenalty c of
           (True, c) \<Rightarrow> (True, c)
         | (False, c) \<Rightarrow> (False, c\<lparr>lb_total := lb_total c + 1\<rparr>))
      else (False, c\<lparr>lb_total := lb_total c + 1\<rparr>))"


section \<open>Choosing a client\<close>

text \<open>
  The loop of \<open>get\<close>: \<open>cs\<close> are the remaining clients with their pending requests, \<open>i\<close> is the
  index of the first of them.
\<close>

fun LBClient_get_loop :: "(int \<times> lbClient) list \<Rightarrow> nat \<Rightarrow> nat \<Rightarrow> int \<Rightarrow> 64 word \<Rightarrow> nat" where
  "LBClient_get_loop [] i minC minN minT = minC"
| "LBClient_get_loop ((p, c) # cs) i minC minN minT =
     (let n = lbClient_PendingRequests p c; t = lb_total c in
      if n < minN \<or> (n = minN \<and> t < minT) then LBClient_get_loop cs (i + 1) i n t
      else LBClient_get_loop cs (i + 1) minC minN minT)"

text \<open>\<open>get\<close> panics, through \<open>init\<close>, without clients.\<close>

definition LBClient_get :: "(int \<times> lbClient) list \<Rightarrow> nat option" where
  "LBClient_get cs =
     (case cs of
        [] \<Rightarrow> None
      | (p, c) # rest \<Rightarrow> Some (LBClient_get_loop rest 1 0 (lbClient_PendingRequests p c) (lb_total c)))"


section \<open>Choosing a client: lemmas\<close>

text \<open>The order \<open>get\<close> minimises: pending requests with penalty first, requests served second.\<close>

definition lb_less :: "int \<times> lbClient \<Rightarrow> int \<times> lbClient \<Rightarrow> bool" where
  "lb_less a b \<longleftrightarrow>
     (let n = lbClient_PendingRequests (fst a) (snd a); m = lbClient_PendingRequests (fst b) (snd b)
      in n < m \<or> n = m \<and> lb_total (snd a) < lb_total (snd b))"

lemma lb_less_irrefl [simp]: "\<not> lb_less a a"
  by (auto simp: lb_less_def Let_def)

lemma lb_less_asym: "lb_less a b \<Longrightarrow> \<not> lb_less b a"
  by (auto simp: lb_less_def Let_def)

definition lb_best :: "(int \<times> lbClient) list \<Rightarrow> nat \<Rightarrow> bool" where
  "lb_best cs k \<longleftrightarrow> k < length cs \<and> (\<forall>j < length cs. \<not> lb_less (cs ! j) (cs ! k)) \<and> (\<forall>j < k. lb_less (cs ! k) (cs ! j))"

lemma get_loop_best:
  assumes "lb_best pre k" and "minN = lbClient_PendingRequests (fst (pre ! k)) (snd (pre ! k))"
    and "minT = lb_total (snd (pre ! k))"
  shows "lb_best (pre @ cs) (LBClient_get_loop cs (length pre) k minN minT)"
  using assms
proof (induction cs arbitrary: pre k minN minT)
  case (Cons x cs)
  obtain p c where x: "x = (p, c)" by fastforce
  let ?n = "lbClient_PendingRequests p c" and ?t = "lb_total c"
  have k: "k < length pre" "\<And>j. j < length pre \<Longrightarrow> \<not> lb_less (pre ! j) (pre ! k)" "\<And>j. j < k \<Longrightarrow> lb_less (pre ! k) (pre ! j)"
    using Cons.prems(1) by (auto simp: lb_best_def)
  have better: "lb_less x (pre ! k) \<longleftrightarrow> ?n < minN \<or> ?n = minN \<and> ?t < minT"
    using Cons.prems(2,3) x by (simp add: lb_less_def Let_def)
  show ?case
  proof (cases "lb_less x (pre ! k)")
    case True
    have less: "lb_less x (pre ! j)" if "j < length pre" for j
      using k(2) [OF that] True by (auto simp: lb_less_def Let_def)
    have "lb_best (pre @ [x]) (length pre)"
      using less lb_less_asym by (auto simp: lb_best_def nth_append less_Suc_eq)
    moreover have "LBClient_get_loop (x # cs) (length pre) k minN minT =
        LBClient_get_loop cs (length (pre @ [x])) (length pre) ?n ?t"
      using True better x by (simp add: Let_def)
    ultimately show ?thesis using Cons.IH [of "pre @ [x]" "length pre" ?n ?t] x by simp
  next
    case False
    then have "lb_best (pre @ [x]) k"
      using k by (auto simp: lb_best_def nth_append less_Suc_eq)
    moreover have "LBClient_get_loop (x # cs) (length pre) k minN minT =
        LBClient_get_loop cs (length (pre @ [x])) k minN minT"
      using False better x by (auto simp: Let_def)
    ultimately show ?thesis using Cons.IH [of "pre @ [x]" k minN minT] Cons.prems k(1) by (simp add: nth_append)
  qed
qed simp

lemma get_best:
  assumes "cs \<noteq> []"
  obtains k where "LBClient_get cs = Some k" and "lb_best cs k"
proof -
  obtain p c rest where cs: "cs = (p, c) # rest" using assms by (cases cs) auto
  have "lb_best [(p, c)] 0" by (simp add: lb_best_def lb_less_def Let_def)
  from get_loop_best [OF this refl refl, of rest] show thesis
    by (intro that [of "LBClient_get_loop rest 1 0 (lbClient_PendingRequests p c) (lb_total c)"])
      (simp_all add: LBClient_get_def cs)
qed


section \<open>Penalties under concurrency\<close>

text \<open>
  A client with the goroutines that touch its penalty: \<open>lbs_timers\<close> penalties wait for their
  timer, and \<open>lbs_over\<close> goroutines have found the penalty above its limit and have not taken
  their addition back yet. \<open>lbs_threads\<close> bounds how many goroutines there are.
\<close>

record lb_system =
  lbs_client :: lbClient
  lbs_timers :: nat
  lbs_over :: nat

datatype lb_event = Succeeded | Penalized | AboveLimit | TakenBack | TimerFired

inductive lb_step :: "nat \<Rightarrow> lb_system \<Rightarrow> lb_event \<Rightarrow> lb_system \<Rightarrow> bool" for threads :: nat where
  succeeded: "lb_step threads s Succeeded
      (s\<lparr>lbs_client := (lbs_client s)\<lparr>lb_total := lb_total (lbs_client s) + 1\<rparr>\<rparr>)"
| penalized: "lbs_over s < threads \<Longrightarrow> lbClient_incPenalty_add (lbs_client s) = (False, c) \<Longrightarrow>
    lb_step threads s Penalized (s\<lparr>lbs_client := c, lbs_timers := lbs_timers s + 1\<rparr>)"
| above: "lbs_over s < threads \<Longrightarrow> lbClient_incPenalty_add (lbs_client s) = (True, c) \<Longrightarrow>
    lb_step threads s AboveLimit (s\<lparr>lbs_client := c, lbs_over := lbs_over s + 1\<rparr>)"
| taken_back: "0 < lbs_over s \<Longrightarrow>
    lb_step threads s TakenBack (s\<lparr>lbs_client := lbClient_decPenalty (lbs_client s), lbs_over := lbs_over s - 1\<rparr>)"
| fired: "0 < lbs_timers s \<Longrightarrow>
    lb_step threads s TimerFired (s\<lparr>lbs_client := lbClient_decPenalty (lbs_client s), lbs_timers := lbs_timers s - 1\<rparr>)"

inductive_cases lb_stepE: "lb_step threads s e t"

definition lb_start :: "lb_system \<Rightarrow> bool" where
  "lb_start s \<longleftrightarrow> lb_penalty (lbs_client s) = 0 \<and> lbs_timers s = 0 \<and> lbs_over s = 0"

definition lb_inv :: "nat \<Rightarrow> lb_system \<Rightarrow> bool" where
  "lb_inv threads s \<longleftrightarrow> unat (lb_penalty (lbs_client s)) = lbs_timers s + lbs_over s \<and> lbs_timers s \<le> 300
     \<and> lbs_over s \<le> threads"

lemma decPenalty_unat: "0 < unat (lb_penalty c) \<Longrightarrow> unat (lb_penalty (lbClient_decPenalty c)) = unat (lb_penalty c) - 1"
proof -
  assume "0 < unat (lb_penalty c)"
  then have "1 \<le> lb_penalty c" by (metis One_nat_def Suc_leI unat_1 word_le_nat_alt)
  then show ?thesis by (simp add: lbClient_decPenalty_def unat_sub)
qed

lemma incPenalty_unat:
  assumes "lbClient_incPenalty_add c = (high, c')" and "unat (lb_penalty c) < 2 ^ 32 - 1"
  shows "unat (lb_penalty c') = unat (lb_penalty c) + 1 \<and> (high \<longleftrightarrow> unat (lb_penalty c) \<ge> 300)"
proof -
  have "unat (lb_penalty c + 1) = unat (lb_penalty c) + 1"
    using assms(2) by (simp add: unat_word_ariths)
  then show ?thesis using assms(1)
    by (auto simp: lbClient_incPenalty_add_def maxPenalty_def Let_def word_less_nat_alt)
qed

lemma lb_inv_step:
  assumes "threads < 2 ^ 31" and "lb_inv threads s" and "lb_step threads s e t"
  shows "lb_inv threads t"
proof -
  have small: "unat (lb_penalty (lbs_client s)) < 2 ^ 32 - 1" using assms(1,2) by (simp add: lb_inv_def)
  show ?thesis using assms(3,2)
  proof cases
    case (penalized c)
    with incPenalty_unat [OF penalized(4) small] assms(2) show ?thesis by (auto simp: lb_inv_def)
  next
    case (above c)
    with incPenalty_unat [OF above(4) small] assms(2) show ?thesis by (auto simp: lb_inv_def)
  next
    case taken_back
    with decPenalty_unat [of "lbs_client s"] assms(2) show ?thesis by (auto simp: lb_inv_def)
  next
    case fired
    with decPenalty_unat [of "lbs_client s"] assms(2) show ?thesis by (auto simp: lb_inv_def)
  qed (auto simp: lb_inv_def)
qed

text \<open>The number of goroutines is bounded; the bound keeps the 32-bit counter from wrapping.\<close>

definition max_goroutines :: nat where
  "max_goroutines = 2 ^ 30"

interpretation penalties: event_system lb_start "lb_step max_goroutines" "lb_inv max_goroutines"
proof
  show "lb_inv max_goroutines s" if "lb_start s" for s
    using that by (simp add: lb_start_def lb_inv_def)
  show "lb_inv max_goroutines t" if "lb_inv max_goroutines s" "lb_step max_goroutines s e t" for s e t
    using lb_inv_step [OF _ that] by (simp add: max_goroutines_def)
qed


section \<open>Properties\<close>

text \<open>
  C30. \<open>get\<close> returns a client that no other client beats on pending requests (with penalty) and
  then on requests served, and the first such client; it panics only without clients.
\<close>

theorem LBClient_get_least_loaded:
  "case LBClient_get cs of
     None \<Rightarrow> cs = []
   | Some k \<Rightarrow> k < length cs \<and> list_all (\<lambda>c. \<not> lb_less c (cs ! k)) cs
       \<and> list_all (\<lambda>c. lb_less (cs ! k) c) (take k cs)"
proof (cases "cs = []")
  case True
  then show ?thesis by (simp add: LBClient_get_def)
next
  case False
  then obtain k where "LBClient_get cs = Some k" "lb_best cs k" by (rule get_best)
  then show ?thesis by (auto simp: lb_best_def list_all_length)
qed

text \<open>
  C29. However requests, penalties and timers of a balanced client interleave, its penalty is the
  number of penalties that are still to be taken back: it never wraps around, at most 300 timers
  are outstanding, and once every goroutine has finished and every timer has fired it is zero.
\<close>

theorem penalty_balanced:
  assumes "reachable lb_start (lb_step max_goroutines) s"
  shows "unat (lb_penalty (lbs_client s)) = lbs_timers s + lbs_over s \<and> lbs_timers s \<le> 300
    \<and> (lbs_timers s = 0 \<and> lbs_over s = 0 \<longrightarrow> lb_penalty (lbs_client s) = 0)"
  using penalties.reachable_inv [OF assms] by (auto simp: lb_inv_def unat_eq_0)

definition example_lb :: lb_system where
  "example_lb = \<lparr>lbs_client = \<lparr>lb_penalty = 0, lb_total = 0\<rparr>, lbs_timers = 0, lbs_over = 0\<rparr>"

theorem penalty_balanced_witness:
  "let s = example_lb\<lparr>lbs_client := \<lparr>lb_penalty = 1, lb_total = 0\<rparr>, lbs_timers := 1\<rparr>
   in unat (lb_penalty (lbs_client s)) = 1 \<and> reachable lb_start (lb_step max_goroutines) s"
proof -
  let ?s = "example_lb\<lparr>lbs_client := \<lparr>lb_penalty = 1, lb_total = 0\<rparr>, lbs_timers := 1\<rparr>"
  have "reachable lb_start (lb_step max_goroutines) example_lb"
    by (rule reach_start) (simp add: lb_start_def example_lb_def)
  moreover have "lbClient_incPenalty_add (lbs_client example_lb) = (False, \<lparr>lb_penalty = 1, lb_total = 0\<rparr>)"
    by (simp add: lbClient_incPenalty_add_def example_lb_def maxPenalty_def)
  then have "lb_step max_goroutines example_lb Penalized ?s"
    using penalized [of example_lb max_goroutines "\<lparr>lb_penalty = 1, lb_total = 0\<rparr>"]
    by (simp add: example_lb_def max_goroutines_def)
  ultimately have "reachable lb_start (lb_step max_goroutines) ?s" by (rule reach_step)
  with penalty_balanced [OF this] show ?thesis by (simp add: example_lb_def)
qed

end
