(* ===== verification/WorkerPool.thy ===== *)
theory WorkerPool
  imports Interfaces
begin

text \<open>
  \<^verbatim>\<open>workerpool.go\<close>: the pool of goroutines that serve connections. A worker is the number of its
  channel. What a worker does between two critical sections is its status: idle in the list
  \<open>ready\<close>; taken out of it for a connection or to be stopped, before the message is sent; with
  the message in its channel; serving; about to release itself; leaving. Each operation below is
  one critical section of the source or one channel operation, so a run is any interleaving of
  them. Times are integers; which new channel the pool hands out is an argument.
\<close>


section \<open>State\<close>

datatype 'c wstatus =
  Unused
  | Idle
  | Claimed 'c
  | Condemned
  | Sent "'c option"
  | Serving 'c
  | Releasing
  | Leaving

record 'c workerPool =
  wp_MaxWorkersCount :: int
  wp_MaxIdleWorkerDuration :: int
  wp_workersCount :: int
  wp_mustStop :: bool
  wp_started :: bool
  wp_ready :: "nat list"
  wp_lastUseTime :: "nat \<Rightarrow> int"
  wp_status :: "nat \<Rightarrow> 'c wstatus"


section \<open>Operations\<close>

text \<open>\<open>Start\<close> and \<open>Stop\<close> panic when called out of turn.\<close>

definition workerPool_Start :: "'c workerPool \<Rightarrow> 'c workerPool option" where
  "workerPool_Start wp = (if wp_started wp then None else Some (wp\<lparr>wp_started := True\<rparr>))"

definition workerPool_Stop :: "'c workerPool \<Rightarrow> 'c workerPool option" where
  "workerPool_Stop wp =
     (if \<not> wp_started wp then None
      else Some (wp\<lparr>wp_started := False, wp_ready := [], wp_mustStop := True,
             wp_status := (\<lambda>w. if w \<in> set (wp_ready wp) then Sent None else wp_status wp w)\<rparr>))"

definition second :: int where
  "second = 1000000000"

definition workerPool_getMaxIdleWorkerDuration :: "'c workerPool \<Rightarrow> int" where
  "workerPool_getMaxIdleWorkerDuration wp =
     (if wp_MaxIdleWorkerDuration wp \<le> 0 then 10 * second else wp_MaxIdleWorkerDuration wp)"

text \<open>The binary search of \<open>clean\<close>; \<open>old\<close> says whether the worker at an index is to be stopped.\<close>

function clean_search :: "(nat \<Rightarrow> bool) \<Rightarrow> int \<Rightarrow> int \<Rightarrow> int" where
  "clean_search old l r =
     (if l \<le> r then
        (let mid = (l + r) div 2 in
         if old (nat mid) then clean_search old (mid + 1) r else clean_search old l (mid - 1))
      else r)"
  by pat_completeness auto
termination
  by (relation "measure (\<lambda>(old, l, r). nat (r - l + 1))") auto

declare clean_search.simps [simp del]

definition workerPool_clean :: "'c workerPool \<Rightarrow> int \<Rightarrow> 'c workerPool" where
  "workerPool_clean wp now =
     (let criticalTime = now - workerPool_getMaxIdleWorkerDuration wp;
          ready = wp_ready wp;
          n = int (length ready);
          i = clean_search (\<lambda>mid. criticalTime > wp_lastUseTime wp (ready ! mid)) 0 (n - 1)
      in if i = -1 then wp
         else
           (let scratch = take (nat (i + 1)) ready in
            wp\<lparr>wp_ready := drop (nat (i + 1)) ready,
               wp_status := (\<lambda>w. if w \<in> set scratch then Condemned else wp_status wp w)\<rparr>))"

text \<open>\<open>getCh\<close> for a connection \<open>c\<close>; \<open>fresh\<close> is the channel the pool would hand out.\<close>

definition workerPool_getCh :: "'c workerPool \<Rightarrow> 'c \<Rightarrow> nat \<Rightarrow> nat option \<times> 'c workerPool" where
  "workerPool_getCh wp c fresh =
     (let ready = wp_ready wp; n = int (length ready) - 1 in
      if n < 0 then
        (if wp_workersCount wp < wp_MaxWorkersCount wp
         then (Some fresh, wp\<lparr>wp_workersCount := wp_workersCount wp + 1,
                  wp_status := (wp_status wp)(fresh := Claimed c)\<rparr>)
         else (None, wp))
      else
        (let w = ready ! nat n
         in (Some w, wp\<lparr>wp_ready := take (nat n) ready, wp_status := (wp_status wp)(w := Claimed c)\<rparr>)))"

text \<open>\<open>release\<close>: the time is read before the lock is taken.\<close>

definition workerPool_release_time :: "'c workerPool \<Rightarrow> nat \<Rightarrow> int \<Rightarrow> 'c workerPool" where
  "workerPool_release_time wp w now =
     wp\<lparr>wp_lastUseTime := (wp_lastUseTime wp)(w := now), wp_status := (wp_status wp)(w := Releasing)\<rparr>"

definition workerPool_release :: "'c workerPool \<Rightarrow> nat \<Rightarrow> bool \<times> 'c workerPool" where
  "workerPool_release wp w =
     (if wp_mustStop wp then (False, wp\<lparr>wp_status := (wp_status wp)(w := Leaving)\<rparr>)
      else (True, wp\<lparr>wp_ready := wp_ready wp @ [w], wp_status := (wp_status wp)(w := Idle)\<rparr>))"

text \<open>The end of \<open>workerFunc\<close>; the channel goes back to the pool.\<close>

definition workerFunc_exit :: "'c workerPool \<Rightarrow> nat \<Rightarrow> 'c workerPool" where
  "workerFunc_exit wp w =
     wp\<lparr>wp_workersCount := wp_workersCount wp - 1, wp_status := (wp_status wp)(w := Unused)\<rparr>"

text \<open>Which errors of a handler \<open>workerFunc\<close> logs, and what it reports of the connection.\<close>

datatype serve_err = errHijacked | ServeErr bytes

datatype conn_state = StateHijacked | StateClosed

definition workerFunc_logs :: "bool \<Rightarrow> serve_err option \<Rightarrow> bool" where
  "workerFunc_logs LogAllErrors err =
     (case err of
        None \<Rightarrow> False
      | Some errHijacked \<Rightarrow> False
      | Some (ServeErr errStr) \<Rightarrow>
          LogAllErrors \<or>
          \<not> (Index errStr (bytes_of ''broken pipe'') \<noteq> None
             \<or> Index errStr (bytes_of ''reset by peer'') \<noteq> None
             \<or> Index errStr (bytes_of ''request headers: small read buffer'') \<noteq> None
             \<or> Index errStr (bytes_of ''unexpected EOF'') \<noteq> None
             \<or> Index errStr (bytes_of ''i/o timeout'') \<noteq> None))"

text \<open>Whether the worker closes the connection, and the state it reports.\<close>

definition workerFunc_finish :: "serve_err option \<Rightarrow> bool \<times> conn_state" where
  "workerFunc_finish err = (if err = Some errHijacked then (False, StateHijacked) else (True, StateClosed))"


section \<open>Runs\<close>

datatype 'c wp_event =
  Started | Stopped | Cleaned int | Notified nat
  | Accepted 'c nat | Rejected 'c | Delivered nat | Received nat
  | Finished nat int | Released nat | Exited nat

inductive wp_step :: "'c workerPool \<Rightarrow> 'c wp_event \<Rightarrow> 'c workerPool \<Rightarrow> bool" where
  started: "workerPool_Start wp = Some wp' \<Longrightarrow> wp_step wp Started wp'"
| stopped: "workerPool_Stop wp = Some wp' \<Longrightarrow> wp_step wp Stopped wp'"
| cleaned: "wp_step wp (Cleaned now) (workerPool_clean wp now)"
| notified: "wp_status wp w = Condemned \<Longrightarrow>
    wp_step wp (Notified w) (wp\<lparr>wp_status := (wp_status wp)(w := Sent None)\<rparr>)"
| accepted: "wp_status wp fresh = Unused \<Longrightarrow> workerPool_getCh wp c fresh = (Some w, wp') \<Longrightarrow>
    wp_step wp (Accepted c w) wp'"
| rejected: "wp_status wp fresh = Unused \<Longrightarrow> workerPool_getCh wp c fresh = (None, wp') \<Longrightarrow>
    wp_step wp (Rejected c) wp'"
| delivered: "wp_status wp w = Claimed c \<Longrightarrow>
    wp_step wp (Delivered w) (wp\<lparr>wp_status := (wp_status wp)(w := Sent (Some c))\<rparr>)"
| received_conn: "wp_status wp w = Sent (Some c) \<Longrightarrow>
    wp_step wp (Received w) (wp\<lparr>wp_status := (wp_status wp)(w := Serving c)\<rparr>)"
| received_nil: "wp_status wp w = Sent None \<Longrightarrow>
    wp_step wp (Received w) (wp\<lparr>wp_status := (wp_status wp)(w := Leaving)\<rparr>)"
| finished: "wp_status wp w = Serving c \<Longrightarrow> wp_step wp (Finished w now) (workerPool_release_time wp w now)"
| released: "wp_status wp w = Releasing \<Longrightarrow> wp_step wp (Released w) (snd (workerPool_release wp w))"
| exited: "wp_status wp w = Leaving \<Longrightarrow> wp_step wp (Exited w) (workerFunc_exit wp w)"

definition wp_start :: "int \<Rightarrow> 'c workerPool \<Rightarrow> bool" where
  "wp_start m wp \<longleftrightarrow> wp_MaxWorkersCount wp = m \<and> wp_workersCount wp = 0 \<and> \<not> wp_mustStop wp \<and> \<not> wp_started wp
     \<and> wp_ready wp = [] \<and> wp_status wp = (\<lambda>_. Unused)"



section \<open>The invariant\<close>

definition wp_live :: "'c workerPool \<Rightarrow> nat set" where
  "wp_live wp = {w. wp_status wp w \<noteq> Unused}"

definition wp_inv :: "int \<Rightarrow> 'c workerPool \<Rightarrow> bool" where
  "wp_inv m wp \<longleftrightarrow> wp_MaxWorkersCount wp = m \<and> finite (wp_live wp) \<and> wp_workersCount wp = int (card (wp_live wp))
     \<and> wp_workersCount wp \<le> max 0 m \<and> distinct (wp_ready wp)
     \<and> set (wp_ready wp) = {w. wp_status wp w = Idle} \<and> (wp_mustStop wp \<longrightarrow> wp_ready wp = [])"

text \<open>Steps that only move one worker that is not idle to another such status.\<close>

lemma wp_inv_move:
  assumes "wp_inv m wp" and "wp_status wp w \<notin> {Unused, Idle}" and "x \<notin> {Unused, Idle}"
    and "wp' = wp\<lparr>wp_lastUseTime := t, wp_status := (wp_status wp)(w := x)\<rparr>"
  shows "wp_inv m wp'"
proof -
  have "wp_live wp' = wp_live wp" using assms(2-4) by (auto simp: wp_live_def)
  moreover have "{w. wp_status wp' w = Idle} = {w. wp_status wp w = Idle}" using assms(2-4) by auto
  ultimately show ?thesis using assms(1,4) unfolding wp_inv_def by simp
qed

text \<open>Steps that take idle workers out of \<open>ready\<close>.\<close>

lemma wp_inv_take:
  assumes inv: "wp_inv m wp" and ready: "wp_ready wp = a @ b"
    and wp': "wp' = wp\<lparr>wp_ready := r, wp_status := (\<lambda>w. if w \<in> set t then x else wp_status wp w)\<rparr>"
    and rt: "(r, t) = (a, b) \<or> (r, t) = (b, a)" and x: "x \<notin> {Unused, Idle}"
  shows "wp_inv m wp'"
proof -
  have idle: "set (wp_ready wp) = {w. wp_status wp w = Idle}" and dist: "distinct (wp_ready wp)"
    using inv by (auto simp: wp_inv_def)
  have "w \<in> set t \<Longrightarrow> wp_status wp w = Idle" for w using idle ready rt by auto
  then have "wp_live wp' = wp_live wp" using x wp' by (auto simp: wp_live_def)
  moreover have "set r = {w. wp_status wp' w = Idle}"
    using idle dist ready wp' rt x by (auto simp: set_eq_iff)
  moreover have "distinct r" using dist ready rt by auto
  ultimately show ?thesis using inv ready wp' rt unfolding wp_inv_def by auto
qed

lemma wp_inv_getCh:
  assumes "wp_inv m wp" and "wp_status wp fresh = Unused" and "workerPool_getCh wp c fresh = (w, wp')"
  shows "wp_inv m wp'"
proof (cases "wp_ready wp = []")
  case True
  have "fresh \<notin> wp_live wp" using assms(2) by (simp add: wp_live_def)
  moreover have "wp_live (wp\<lparr>wp_workersCount := n, wp_status := (wp_status wp)(fresh := Claimed c)\<rparr>) =
      insert fresh (wp_live wp)" for n by (auto simp: wp_live_def)
  moreover have "{w. ((wp_status wp)(fresh := Claimed c)) w = Idle} = {w. wp_status wp w = Idle}" using assms(2) by auto
  ultimately show ?thesis using assms(1,3) True
    by (auto simp: workerPool_getCh_def wp_inv_def Let_def split: if_splits)
next
  case False
  let ?n = "length (wp_ready wp) - 1"
  have r: "wp_ready wp = take ?n (wp_ready wp) @ [wp_ready wp ! ?n]"
    using False by (metis append_butlast_last_id butlast_conv_take last_conv_nth)
  have n: "nat (int (length (wp_ready wp)) - 1) = ?n" by simp
  have "wp' = wp\<lparr>wp_ready := take ?n (wp_ready wp),
      wp_status := (\<lambda>w. if w \<in> set [wp_ready wp ! ?n] then Claimed c else wp_status wp w)\<rparr>"
    using assms(3) False unfolding workerPool_getCh_def Let_def n by (auto simp: fun_upd_def Suc_le_eq)
  with assms(1) r show ?thesis by (rule wp_inv_take) auto
qed

lemma clean_search_bound:
  "-1 \<le> l - 1 \<Longrightarrow> l - 1 \<le> r \<Longrightarrow> l - 1 \<le> clean_search old l r \<and> clean_search old l r \<le> r"
proof (induction old l r rule: clean_search.induct)
  case (1 old l r)
  show ?case
  proof (cases "l \<le> r")
    case True
    let ?m = "(l + r) div 2"
    have m: "l \<le> ?m" "?m \<le> r" using True by auto
    show ?thesis
    proof (cases "old (nat ?m)")
      case o: True
      then have "clean_search old l r = clean_search old (?m + 1) r" using True by (simp add: clean_search.simps [of old l r] Let_def)
      with 1(1) [OF True refl o] 1(3) m show ?thesis by auto
    next
      case o: False
      then have "clean_search old l r = clean_search old l (?m - 1)" using True by (simp add: clean_search.simps [of old l r] Let_def)
      with 1(2) [OF True refl o] 1(3) m show ?thesis by auto
    qed
  next
    case False
    then show ?thesis using 1(3,4) by (simp add: clean_search.simps [of old l r])
  qed
qed

lemma wp_inv_clean:
  assumes "wp_inv m wp"
  shows "wp_inv m (workerPool_clean wp now)"
proof -
  let ?i = "clean_search (\<lambda>mid. now - workerPool_getMaxIdleWorkerDuration wp > wp_lastUseTime wp (wp_ready wp ! mid))
      0 (int (length (wp_ready wp)) - 1)"
  have r: "wp_ready wp = take (nat (?i + 1)) (wp_ready wp) @ drop (nat (?i + 1)) (wp_ready wp)" by simp
  show ?thesis
  proof (cases "?i = -1")
    case False
    then have "workerPool_clean wp now = wp\<lparr>wp_ready := drop (nat (?i + 1)) (wp_ready wp),
        wp_status := (\<lambda>w. if w \<in> set (take (nat (?i + 1)) (wp_ready wp)) then Condemned else wp_status wp w)\<rparr>"
      by (simp add: workerPool_clean_def Let_def)
    with assms r show ?thesis by (rule wp_inv_take) auto
  qed (use assms in \<open>simp add: workerPool_clean_def Let_def\<close>)
qed

lemma wp_inv_release:
  assumes "wp_inv m wp" and "wp_status wp w = Releasing"
  shows "wp_inv m (snd (workerPool_release wp w))"
proof -
  have "w \<notin> set (wp_ready wp)" "w \<in> wp_live wp" using assms by (auto simp: wp_inv_def wp_live_def)
  moreover have "wp_live (wp\<lparr>wp_status := (wp_status wp)(w := x)\<rparr>) = wp_live wp" if "x \<noteq> Unused" for x
    using that assms(2) by (auto simp: wp_live_def)
  moreover have "wp_live (wp\<lparr>wp_ready := y, wp_status := (wp_status wp)(w := x)\<rparr>) = wp_live wp" if "x \<noteq> Unused" for x y
    using that assms(2) by (auto simp: wp_live_def)
  ultimately show ?thesis using assms by (auto simp: workerPool_release_def wp_inv_def)
qed

lemma wp_inv_exit:
  assumes "wp_inv m wp" and "wp_status wp w = Leaving"
  shows "wp_inv m (workerFunc_exit wp w)"
proof -
  have w: "w \<in> wp_live wp" using assms(2) by (simp add: wp_live_def)
  have "wp_live (workerFunc_exit wp w) = wp_live wp - {w}" by (auto simp: workerFunc_exit_def wp_live_def)
  moreover have "card (wp_live wp - {w}) = card (wp_live wp) - 1" "0 < card (wp_live wp)"
    using w assms(1) by (auto simp: wp_inv_def card_gt_0_iff)
  moreover have "{v. wp_status (workerFunc_exit wp w) v = Idle} = {v. wp_status wp v = Idle}"
    using assms(2) by (auto simp: workerFunc_exit_def)
  ultimately show ?thesis using assms(1) by (auto simp: wp_inv_def workerFunc_exit_def of_nat_diff)
qed

lemma wp_inv_step:
  assumes "wp_inv m wp" and "wp_step wp e wp'"
  shows "wp_inv m wp'"
  using assms(2)
proof cases
  case started
  then show ?thesis using assms(1) by (auto simp: workerPool_Start_def wp_inv_def wp_live_def split: if_splits)
next
  case stopped
  then have wp': "wp' = (wp\<lparr>wp_ready := [],
      wp_status := (\<lambda>w. if w \<in> set (wp_ready wp) then Sent None else wp_status wp w)\<rparr>)\<lparr>wp_started := False, wp_mustStop := True\<rparr>"
    by (cases wp) (auto simp: workerPool_Stop_def split: if_splits)
  have "wp_inv m (wp\<lparr>wp_ready := [],
      wp_status := (\<lambda>w. if w \<in> set (wp_ready wp) then Sent None else wp_status wp w)\<rparr>)"
    by (rule wp_inv_take [OF assms(1), where a = "[]" and b = "wp_ready wp" and r = "[]" and t = "wp_ready wp" and x = "Sent None"]) auto
  then show ?thesis unfolding wp' by (auto simp: wp_inv_def wp_live_def)
next
  case (cleaned now)
  then show ?thesis using wp_inv_clean [OF assms(1)] by simp
next
  case (accepted fresh c w)
  then show ?thesis using wp_inv_getCh [OF assms(1)] by blast
next
  case (rejected fresh c)
  then show ?thesis using wp_inv_getCh [OF assms(1)] by blast
next
  case (released w)
  then show ?thesis using wp_inv_release [OF assms(1)] by simp
next
  case (exited w)
  then show ?thesis using wp_inv_exit [OF assms(1)] by simp
next
  case (finished w c now)
  then show ?thesis
    by (intro wp_inv_move [OF assms(1), where w = w and x = Releasing]) (auto simp: workerPool_release_time_def)
qed (rule wp_inv_move [OF assms(1), where t = "wp_lastUseTime wp"]; simp)+

interpretation pool: event_system "wp_start m" wp_step "wp_inv m" for m :: int
proof
  show "wp_inv m wp" if "wp_start m wp" for wp :: "'a workerPool"
    using that by (auto simp: wp_start_def wp_inv_def wp_live_def)
  show "wp_inv m wp'" if "wp_inv m wp" "wp_step wp e wp'" for wp wp' :: "'a workerPool" and e
    using wp_inv_step that by blast
qed



section \<open>Cleaning: lemmas\<close>

lemma clean_search_spec:
  assumes "\<And>i j. i \<le> j \<Longrightarrow> j < n \<Longrightarrow> old j \<Longrightarrow> old i" and "0 \<le> l" and "r < int n"
    and "\<And>k. int k < l \<Longrightarrow> old k" and "\<And>k. k < n \<Longrightarrow> r < int k \<Longrightarrow> \<not> old k" and "l - 1 \<le> r" and "k < n"
  shows "old k \<longleftrightarrow> int k \<le> clean_search old l r"
  using assms
proof (induction old l r rule: clean_search.induct)
  case (1 old l r)
  show ?case
  proof (cases "l \<le> r")
    case True
    let ?m = "(l + r) div 2"
    have m: "l \<le> ?m" "?m \<le> r" using True by auto
    have nat_m: "int (nat ?m) = ?m" "nat ?m < n" using m 1(4,5) by auto
    show ?thesis
    proof (cases "old (nat ?m)")
      case o: True
      have below: "old j" if "int j < ?m + 1" for j
        using 1(3) [of j "nat ?m"] o nat_m that by auto
      have "clean_search old l r = clean_search old (?m + 1) r" using True o by (simp add: clean_search.simps [of old l r] Let_def)
      moreover have "old k \<longleftrightarrow> int k \<le> clean_search old (?m + 1) r"
        using m 1(3-9) below by (intro 1(1) [OF True refl o]) auto
      ultimately show ?thesis by simp
    next
      case o: False
      have above: "\<not> old j" if "j < n" "?m - 1 < int j" for j
        using 1(3) [of "nat ?m" j] o nat_m that by auto
      have "clean_search old l r = clean_search old l (?m - 1)" using True o by (simp add: clean_search.simps [of old l r] Let_def)
      moreover have "old k \<longleftrightarrow> int k \<le> clean_search old l (?m - 1)"
        using m 1(3-9) above by (intro 1(2) [OF True refl o]) auto
      ultimately show ?thesis by simp
    qed
  next
    case False
    then have "r = l - 1" "clean_search old l r = r" using 1(8) by (simp_all add: clean_search.simps [of old l r])
    with 1(6) [of k] 1(7) [of k] 1(9) show ?thesis by (metis diff_add_cancel not_le zle_diff1_eq)
  qed
qed

text \<open>When the idle workers are in the order of their last use, the old ones come first.\<close>

lemma clean_sorted:
  fixes now :: int
  assumes "sorted (map (wp_lastUseTime wp) (wp_ready wp))"
  defines "old \<equiv> \<lambda>w. now - workerPool_getMaxIdleWorkerDuration wp > wp_lastUseTime wp w"
  shows "wp_ready (workerPool_clean wp now) = filter (\<lambda>w. \<not> old w) (wp_ready wp)"
    and "wp_status (workerPool_clean wp now) = (\<lambda>w. if w \<in> set (filter old (wp_ready wp)) then Condemned else wp_status wp w)"
proof -
  let ?r = "wp_ready wp" and ?n = "length (wp_ready wp)"
  let ?old = "\<lambda>mid. old (?r ! mid)"
  define i where "i = clean_search ?old 0 (int ?n - 1)"
  have mono: "?old a" if "a \<le> b" "b < ?n" "?old b" for a b
    using assms(1) that by (auto simp: old_def sorted_iff_nth_mono intro: le_less_trans)
  have i: "-1 \<le> i" "i \<le> int ?n - 1" using clean_search_bound [of 0 "int ?n - 1" ?old] by (auto simp: i_def)
  have spec: "?old k \<longleftrightarrow> int k \<le> i" if "k < ?n" for k
    unfolding i_def using mono that by (intro clean_search_spec [where n = ?n]) auto
  have t: "filter old ?r = take (nat (i + 1)) ?r \<and> filter (\<lambda>w. \<not> old w) ?r = drop (nat (i + 1)) ?r"
  proof -
    have "\<forall>w \<in> set (take (nat (i + 1)) ?r). old w" "\<forall>w \<in> set (drop (nat (i + 1)) ?r). \<not> old w"
      using spec i by (auto simp: in_set_conv_nth)
    then have "filter old (take (nat (i + 1)) ?r) = take (nat (i + 1)) ?r" "filter old (drop (nat (i + 1)) ?r) = []"
      "filter (\<lambda>w. \<not> old w) (take (nat (i + 1)) ?r) = []"
      "filter (\<lambda>w. \<not> old w) (drop (nat (i + 1)) ?r) = drop (nat (i + 1)) ?r"
      by (auto simp: filter_empty_conv)
    then show ?thesis by (metis append_Nil append_Nil2 append_take_drop_id filter_append)
  qed
  have clean: "workerPool_clean wp now = (if i = -1 then wp else wp\<lparr>wp_ready := drop (nat (i + 1)) ?r,
      wp_status := (\<lambda>w. if w \<in> set (take (nat (i + 1)) ?r) then Condemned else wp_status wp w)\<rparr>)"
    by (simp add: workerPool_clean_def i_def old_def Let_def)
  show "wp_ready (workerPool_clean wp now) = filter (\<lambda>w. \<not> old w) ?r"
    using clean t by auto
  show "wp_status (workerPool_clean wp now) = (\<lambda>w. if w \<in> set (filter old ?r) then Condemned else wp_status wp w)"
    using clean t by auto
qed


section \<open>Properties\<close>

text \<open>
  C7. In every state of a worker pool, under every interleaving of accepts, workers, cleaning
  and stopping: \<open>workersCount\<close> is the number of workers that exist and never exceeds
  \<open>MaxWorkersCount\<close>; the list \<open>ready\<close> holds each idle worker once and no other worker, so a
  worker that is handed a connection has an empty channel and serves nothing else; and after
  \<open>Stop\<close> no worker is left waiting for a connection.
\<close>

theorem workerPool_invariant:
  assumes "reachable (wp_start m) wp_step wp"
  shows "wp_workersCount wp = int (card {w. wp_status wp w \<noteq> Unused}) \<and> wp_workersCount wp \<le> max 0 m
    \<and> distinct (wp_ready wp) \<and> set (wp_ready wp) = {w. wp_status wp w = Idle}
    \<and> (wp_mustStop wp \<longrightarrow> (\<forall>w. wp_status wp w \<noteq> Idle))"
proof -
  have inv: "wp_inv m wp" using assms by (rule pool.reachable_inv)
  then have "set (wp_ready wp) = {w. wp_status wp w = Idle}" "wp_mustStop wp \<longrightarrow> wp_ready wp = []"
    by (simp_all add: wp_inv_def)
  then show ?thesis using inv unfolding wp_inv_def wp_live_def by auto
qed

definition example_pool :: "nat workerPool" where
  "example_pool = \<lparr>wp_MaxWorkersCount = 1, wp_MaxIdleWorkerDuration = 0, wp_workersCount = 0, wp_mustStop = False,
     wp_started = False, wp_ready = [], wp_lastUseTime = (\<lambda>_. 0), wp_status = (\<lambda>_. Unused)\<rparr>"

theorem workerPool_invariant_witness:
  "let wp = snd (workerPool_getCh example_pool 7 0)
   in reachable (wp_start 1) wp_step wp \<and> wp_workersCount wp = int (card {w. wp_status wp w \<noteq> Unused})"
proof -
  have "reachable (wp_start 1) wp_step example_pool"
    by (rule reach_start) (simp add: wp_start_def example_pool_def)
  moreover have "wp_step example_pool (Accepted 7 0) (snd (workerPool_getCh example_pool 7 0))"
    by (rule accepted [where fresh = 0]) (simp_all add: workerPool_getCh_def example_pool_def)
  ultimately have r: "reachable (wp_start 1) wp_step (snd (workerPool_getCh example_pool 7 0))" by (rule reach_step)
  from workerPool_invariant [OF r] r show ?thesis by (simp add: Let_def)
qed

text \<open>
  C28. The binary search of \<open>clean\<close> is the filter it stands for: when the idle workers are listed
  in the order of their last use, \<open>clean\<close> takes out exactly those that have been idle for longer
  than the limit, keeps the others in order, and marks the ones taken out to be stopped.
\<close>

theorem workerPool_clean_correct:
  assumes "sorted (map (wp_lastUseTime wp) (wp_ready wp))"
  shows "wp_ready (workerPool_clean wp now) =
      filter (\<lambda>w. \<not> now - workerPool_getMaxIdleWorkerDuration wp > wp_lastUseTime wp w) (wp_ready wp)
    \<and> wp_status (workerPool_clean wp now) =
      (\<lambda>w. if w \<in> set (wp_ready wp) \<and> now - workerPool_getMaxIdleWorkerDuration wp > wp_lastUseTime wp w
           then Condemned else wp_status wp w)"
  using clean_sorted [OF assms] by auto

theorem workerPool_clean_correct_witness:
  "wp_ready (workerPool_clean (example_pool\<lparr>wp_MaxIdleWorkerDuration := 5, wp_ready := [3, 1, 2],
      wp_lastUseTime := (\<lambda>w. if w = 3 then 1 else if w = 1 then 4 else 9)\<rparr>) 10) = [2]"
  using workerPool_clean_correct [of "example_pool\<lparr>wp_MaxIdleWorkerDuration := 5, wp_ready := [3, 1, 2],
      wp_lastUseTime := (\<lambda>w. if w = 3 then 1 else if w = 1 then 4 else 9)\<rparr>" 10]
  by (simp add: workerPool_getMaxIdleWorkerDuration_def)

end
