(* ===== verification/WantConn.thy ===== *)
theory WantConn
  imports HeaderRead
begin

text \<open>
  The waiting callers of \<^verbatim>\<open>client.go\<close>: \<open>wantConn\<close>, on which a caller of \<open>acquireConn\<close> waits for a
  connection, an error or its own timeout, and \<open>wantConnQueue\<close>, the two-stage queue of those
  waiting. The queue refines a list; the contract is a locale.
\<close>


section \<open>Wanted connections\<close>

text \<open>\<open>wc_ready\<close> says that the channel has been closed; closing it again panics.\<close>

record ('c, 'e) wantConn =
  wc_conn :: "'c option"
  wc_err :: "'e option"
  wc_ready :: bool

definition newWantConn :: "('c, 'e) wantConn" where
  "newWantConn = \<lparr>wc_conn = None, wc_err = None, wc_ready = False\<rparr>"

definition waiting :: "('c, 'e) wantConn \<Rightarrow> bool" where
  "waiting w \<longleftrightarrow> \<not> wc_ready w"

definition wc_close :: "('c, 'e) wantConn \<Rightarrow> ('c, 'e) wantConn panics" where
  "wc_close w = (if wc_ready w then Panic else Ret (w\<lparr>wc_ready := True\<rparr>))"

definition tryDeliver ::
  "('c, 'e) wantConn \<Rightarrow> 'c option \<Rightarrow> 'e option \<Rightarrow> (bool \<times> ('c, 'e) wantConn) panics" where
  "tryDeliver w conn err =
     (if wc_conn w \<noteq> None \<or> wc_err w \<noteq> None then Ret (False, w)
      else
        (let w = w\<lparr>wc_conn := conn, wc_err := err\<rparr> in
         if wc_conn w = None \<and> wc_err w = None then Panic
         else (case wc_close w of Panic \<Rightarrow> Panic | Ret w \<Rightarrow> Ret (True, w))))"

text \<open>The part of \<open>cancel\<close> under the mutex of the \<open>wantConn\<close>: the connection is then given back.\<close>

definition wantConn_cancel ::
  "('c, 'e) wantConn \<Rightarrow> 'e \<Rightarrow> ('c option \<times> ('c, 'e) wantConn) panics" where
  "wantConn_cancel w err =
     (case (if wc_conn w = None \<and> wc_err w = None then wc_close w else Ret w) of
        Panic \<Rightarrow> Panic
      | Ret w \<Rightarrow> Ret (wc_conn w, w\<lparr>wc_conn := None, wc_err := Some err\<rparr>))"

text \<open>The channel is closed exactly when there is an answer.\<close>

definition wantConn_ok :: "('c, 'e) wantConn \<Rightarrow> bool" where
  "wantConn_ok w \<longleftrightarrow> (wc_ready w \<longleftrightarrow> wc_conn w \<noteq> None \<or> wc_err w \<noteq> None)"

lemma newWantConn_ok [simp]: "wantConn_ok newWantConn" "waiting newWantConn" "wc_conn newWantConn = None"
  by (simp_all add: wantConn_ok_def newWantConn_def waiting_def)

lemma tryDeliver_ok:
  assumes "wantConn_ok w" and "conn \<noteq> None \<or> err \<noteq> None"
  shows "tryDeliver w conn err =
    Ret (waiting w, if waiting w then w\<lparr>wc_conn := conn, wc_err := err, wc_ready := True\<rparr> else w)"
  using assms by (auto simp: tryDeliver_def wantConn_ok_def waiting_def wc_close_def Let_def)

lemma cancel_ok:
  assumes "wantConn_ok w"
  shows "wantConn_cancel w err = Ret (wc_conn w, w\<lparr>wc_conn := None, wc_err := Some err, wc_ready := True\<rparr>)"
  using assms by (cases w) (auto simp: wantConn_cancel_def wantConn_ok_def wc_close_def)

lemma delivered_ok [simp]:
  "wantConn_ok (w\<lparr>wc_conn := conn, wc_err := Some e, wc_ready := True\<rparr>)"
  "wantConn_ok (w\<lparr>wc_conn := Some c, wc_err := err, wc_ready := True\<rparr>)"
  by (simp_all add: wantConn_ok_def)


section \<open>The queue\<close>

text \<open>Entries of \<open>head\<close> before \<open>headPos\<close> have been set to nil.\<close>

record 'w wantConnQueue =
  wq_head :: "'w option list"
  wq_headPos :: nat
  wq_tail :: "'w list"

definition newQueue :: "'w wantConnQueue" where
  "newQueue = \<lparr>wq_head = [], wq_headPos = 0, wq_tail = []\<rparr>"

definition wantConnQueue_len :: "'w wantConnQueue \<Rightarrow> int" where
  "wantConnQueue_len q = int (length (wq_head q)) - int (wq_headPos q) + int (length (wq_tail q))"

definition pushBack :: "'w wantConnQueue \<Rightarrow> 'w \<Rightarrow> 'w wantConnQueue" where
  "pushBack q w = q\<lparr>wq_tail := wq_tail q @ [w]\<rparr>"

definition popFront :: "'w wantConnQueue \<Rightarrow> 'w option \<times> 'w wantConnQueue" where
  "popFront q =
     (if wq_headPos q \<ge> length (wq_head q) \<and> length (wq_tail q) = 0 then (None, q)
      else
        (let q = (if wq_headPos q \<ge> length (wq_head q)
                  then q\<lparr>wq_head := map Some (wq_tail q), wq_headPos := 0, wq_tail := []\<rparr> else q)
         in (wq_head q ! wq_headPos q,
             q\<lparr>wq_head := (wq_head q)[wq_headPos q := None], wq_headPos := wq_headPos q + 1\<rparr>)))"

definition peekFront :: "'w wantConnQueue \<Rightarrow> 'w option" where
  "peekFront q =
     (if wq_headPos q < length (wq_head q) then wq_head q ! wq_headPos q
      else if length (wq_tail q) > 0 then Some (wq_tail q ! 0)
      else None)"

text \<open>How many entries are left: what the loops over the queue decrease.\<close>

definition wq_left :: "'w wantConnQueue \<Rightarrow> nat" where
  "wq_left q = length (wq_head q) - wq_headPos q + length (wq_tail q)"

lemma popFront_left: "wq_left q > 0 \<Longrightarrow> wq_left (snd (popFront q)) < wq_left q"
  by (auto simp: popFront_def wq_left_def Let_def)

lemma peekFront_left: "peekFront q = Some w \<Longrightarrow> wq_left q > 0"
  by (auto simp: peekFront_def wq_left_def split: if_splits)

lemma len_left: "wantConnQueue_len q > 0 \<Longrightarrow> wq_left q > 0"
  by (auto simp: wantConnQueue_len_def wq_left_def)

text \<open>\<open>clearFront\<close>; \<open>alive\<close> says which entries still wait.\<close>

function clearFront :: "('w \<Rightarrow> bool) \<Rightarrow> 'w wantConnQueue \<Rightarrow> bool \<times> 'w wantConnQueue" where
  "clearFront alive q =
     (case peekFront q of
        None \<Rightarrow> (False, q)
      | Some w \<Rightarrow> if alive w then (False, q) else (True, snd (clearFront alive (snd (popFront q)))))"
  by pat_completeness auto
termination
  by (relation "measure (\<lambda>(alive, q). wq_left q)") (auto dest: peekFront_left intro: popFront_left)

declare clearFront.simps [simp del]

text \<open>
  The loop of \<open>releaseConn\<close> and \<open>decConnsCount\<close>: entries are taken off the queue up to the first one
  that waits. A nil entry would be dereferenced.
\<close>

function nextWaiter :: "('w \<Rightarrow> bool) \<Rightarrow> 'w wantConnQueue \<Rightarrow> ('w option \<times> 'w wantConnQueue) panics" where
  "nextWaiter alive q =
     (if wantConnQueue_len q > 0 then
        (case popFront q of
           (None, q') \<Rightarrow> Panic
         | (Some w, q') \<Rightarrow> if alive w then Ret (Some w, q') else nextWaiter alive q')
      else Ret (None, q))"
  by pat_completeness auto
termination
proof (relation "measure (\<lambda>(alive, q). wq_left q)", goal_cases)
  case (2 alive q x q' a)
  then show ?case using popFront_left [OF len_left, of q] by (cases "popFront q") auto
qed simp

declare nextWaiter.simps [simp del]


section \<open>The contract of a queue\<close>

locale fifo =
  fixes items :: "'q \<Rightarrow> 'w list"
    and ok :: "'q \<Rightarrow> bool"
    and push :: "'q \<Rightarrow> 'w \<Rightarrow> 'q"
    and pop :: "'q \<Rightarrow> 'w option \<times> 'q"
    and peek :: "'q \<Rightarrow> 'w option"
    and size_of :: "'q \<Rightarrow> int"
  assumes push: "ok q \<Longrightarrow> ok (push q w) \<and> items (push q w) = items q @ [w]"
    and pop_Cons: "ok q \<Longrightarrow> items q = w # ws \<Longrightarrow> \<exists>q'. pop q = (Some w, q') \<and> ok q' \<and> items q' = ws"
    and peek: "ok q \<Longrightarrow> peek q = (case items q of [] \<Rightarrow> None | w # ws \<Rightarrow> Some w)"
    and size_of: "ok q \<Longrightarrow> size_of q = int (length (items q))"
begin

text \<open>Any loop that pops until it has an entry with a property finds the first one.\<close>

lemma search_finds:
  assumes search: "\<And>q. search q = (if size_of q > 0 then
      (case pop q of (None, q') \<Rightarrow> Panic | (Some w, q') \<Rightarrow> if P w then Ret (Some w, q') else search q') else Ret (None, q))"
    and "ok q"
  shows "\<exists>q'. search q = Ret (find P (items q), q') \<and> ok q' \<and> items q' = tl (dropWhile (\<lambda>w. \<not> P w) (items q))"
  using assms(2)
proof (induction "items q" arbitrary: q)
  case Nil
  then show ?case using search [of q] size_of [OF Nil(2)] by auto
next
  case (Cons w ws)
  obtain q' where q': "pop q = (Some w, q')" "ok q'" "items q' = ws" using pop_Cons [OF Cons(3)] Cons(2) by metis
  have s: "search q = (if P w then Ret (Some w, q') else search q')"
    using search [of q] q'(1) size_of [OF Cons(3)] Cons(2) [symmetric] by simp
  show ?case
  proof (cases "P w")
    case True
    then show ?thesis using s q' Cons(2) [symmetric] by simp
  next
    case False
    then show ?thesis using s q' Cons(1) [of q'] Cons(2) [symmetric] by simp
  qed
qed

text \<open>A loop that pops while the front lacks a property leaves the list from the first entry that has it.\<close>

lemma clear_drops:
  assumes clear: "\<And>q. clear q = (case peek q of None \<Rightarrow> (False, q)
      | Some w \<Rightarrow> if P w then (False, q) else (True, snd (clear (snd (pop q)))))"
    and "ok q"
  shows "ok (snd (clear q)) \<and> items (snd (clear q)) = dropWhile (\<lambda>w. \<not> P w) (items q)
    \<and> (fst (clear q) \<longleftrightarrow> items (snd (clear q)) \<noteq> items q)"
  using assms(2)
proof (induction "items q" arbitrary: q)
  case Nil
  then show ?case using clear [of q] peek [OF Nil(2)] by auto
next
  case (Cons w ws)
  obtain q' where q': "pop q = (Some w, q')" "ok q'" "items q' = ws" using pop_Cons [OF Cons(3)] Cons(2) by metis
  have s: "clear q = (if P w then (False, q) else (True, snd (clear q')))"
    using clear [of q] q'(1) peek [OF Cons(3)] Cons(2) [symmetric] by simp
  have "length (dropWhile (\<lambda>w. \<not> P w) ws) \<le> length ws" by (rule length_dropWhile_le)
  then have "dropWhile (\<lambda>w. \<not> P w) ws \<noteq> w # ws" by auto
  then show ?case using s Cons(1) [of q'] q' Cons(2) [symmetric] Cons(3) by (cases "P w") auto
qed

end


section \<open>The queue keeps it\<close>

definition wq_items :: "'w wantConnQueue \<Rightarrow> 'w list" where
  "wq_items q = map the (drop (wq_headPos q) (wq_head q)) @ wq_tail q"

definition wq_ok :: "'w wantConnQueue \<Rightarrow> bool" where
  "wq_ok q \<longleftrightarrow> wq_headPos q \<le> length (wq_head q) \<and> None \<notin> set (drop (wq_headPos q) (wq_head q))"

lemma newQueue_ok [simp]: "wq_ok newQueue" "wq_items newQueue = []"
  by (simp_all add: wq_ok_def wq_items_def newQueue_def)

lemma popFront_Cons:
  assumes "wq_ok q" and "wq_items q = w # ws"
  shows "\<exists>q'. popFront q = (Some w, q') \<and> wq_ok q' \<and> wq_items q' = ws"
proof (cases "wq_headPos q < length (wq_head q)")
  case True
  let ?i = "wq_headPos q" and ?l = "wq_head q"
  have d: "drop ?i ?l = ?l ! ?i # drop (Suc ?i) ?l" using True by (simp add: Cons_nth_drop_Suc)
  obtain y where "?l ! ?i = Some y" "None \<notin> set (drop (Suc ?i) ?l)"
    using assms(1) by (cases "?l ! ?i") (auto simp: wq_ok_def d)
  then show ?thesis using True assms(2) by (auto simp: popFront_def wq_ok_def wq_items_def d)
next
  case False
  then obtain ts where t: "wq_tail q = w # ts" "ts = ws" using assms(2) by (simp add: wq_items_def)
  then show ?thesis using False by (auto simp: popFront_def wq_ok_def wq_items_def comp_def)
qed

interpretation wq: fifo wq_items wq_ok pushBack popFront peekFront wantConnQueue_len
proof
  show "wq_ok q \<Longrightarrow> wq_ok (pushBack q w) \<and> wq_items (pushBack q w) = wq_items q @ [w]" for q :: "'w wantConnQueue" and w
    by (simp add: wq_ok_def pushBack_def wq_items_def)
  show "wq_ok q \<Longrightarrow> wq_items q = w # ws \<Longrightarrow> \<exists>q'. popFront q = (Some w, q') \<and> wq_ok q' \<and> wq_items q' = ws"
    for q :: "'w wantConnQueue" and w ws by (rule popFront_Cons)
  show "wq_ok q \<Longrightarrow> peekFront q = (case wq_items q of [] \<Rightarrow> None | w # ws \<Rightarrow> Some w)" for q :: "'w wantConnQueue"
    by (auto simp: peekFront_def wq_ok_def wq_items_def Cons_nth_drop_Suc [symmetric] neq_Nil_conv split: list.splits)
  show "wq_ok q \<Longrightarrow> wantConnQueue_len q = int (length (wq_items q))" for q :: "'w wantConnQueue"
    by (simp add: wantConnQueue_len_def wq_ok_def wq_items_def)
qed

lemma nextWaiter_finds:
  "wq_ok q \<Longrightarrow> \<exists>q'. nextWaiter alive q = Ret (find alive (wq_items q), q') \<and> wq_ok q'
     \<and> wq_items q' = tl (dropWhile (\<lambda>w. \<not> alive w) (wq_items q))"
  by (rule wq.search_finds [OF nextWaiter.simps])

lemma clearFront_drops:
  "wq_ok q \<Longrightarrow> wq_ok (snd (clearFront alive q)) \<and> wq_items (snd (clearFront alive q)) = dropWhile (\<lambda>w. \<not> alive w) (wq_items q)
     \<and> (fst (clearFront alive q) \<longleftrightarrow> wq_items (snd (clearFront alive q)) \<noteq> wq_items q)"
  by (rule wq.clear_drops [OF clearFront.simps])

end
