(* ===== verification/ConnPool.thy ===== *)
theory ConnPool
  imports WantConn "HOL-Library.Multiset"
begin

text \<open>
  The connection pool of \<open>HostClient\<close> (\<^verbatim>\<open>client.go\<close>): idle connections, the count of all of them, the
  callers that wait when the limit is reached, and the goroutine that closes idle connections. The
  operations are the critical sections of the source; the step relation interleaves them. The mutex
  of a \<open>wantConn\<close> is not the one of the pool, so a waiting caller can give up between the moment when
  \<open>releaseConn\<close> picks it and the moment when it hands the connection over.
\<close>


section \<open>The client's state\<close>

text \<open>A connection is a number.\<close>

record clientConn =
  cc_c :: nat
  cc_createdTime :: int
  cc_lastUseTime :: int

datatype acquire_err = ErrNoFreeConns | ErrTimeout | DialErr

record HostClient =
  hc_MaxConns :: int
  hc_MaxConnWaitTimeout :: int
  hc_MaxIdleConnDuration :: int
  hc_conns :: "clientConn list"
  hc_connsCount :: int
  hc_connsCleanerRun :: bool
  hc_connsWait :: "nat wantConnQueue option"
  hc_wants :: "nat \<Rightarrow> (clientConn, acquire_err) wantConn"

definition DefaultMaxConnsPerHost :: int where
  "DefaultMaxConnsPerHost = 512"

definition DefaultMaxIdleConnDuration :: int where
  "DefaultMaxIdleConnDuration = 10 * 1000000000"

definition maxConns :: "HostClient \<Rightarrow> int" where
  "maxConns c = (if hc_MaxConns c \<le> 0 then DefaultMaxConnsPerHost else hc_MaxConns c)"

definition HostClient_SetMaxConns :: "HostClient \<Rightarrow> int \<Rightarrow> HostClient" where
  "HostClient_SetMaxConns c newMaxConns = c\<lparr>hc_MaxConns := newMaxConns\<rparr>"

definition HostClient_ConnsCount :: "HostClient \<Rightarrow> int" where
  "HostClient_ConnsCount c = hc_connsCount c"

definition acquireClientConn :: "nat \<Rightarrow> int \<Rightarrow> clientConn" where
  "acquireClientConn conn now = \<lparr>cc_c = conn, cc_createdTime = now, cc_lastUseTime = 0\<rparr>"


section \<open>Critical sections\<close>

text \<open>The first part of \<open>acquireConn\<close>: an idle connection, leave to dial (and to start the cleaner), or none.\<close>

datatype acquired = GotConn clientConn | MustDial bool | NoneFree

definition acquireConn_pick :: "HostClient \<Rightarrow> bool \<Rightarrow> acquired \<times> HostClient" where
  "acquireConn_pick c connectionClose =
     (let n = length (hc_conns c) in
      if n = 0 then
        (if hc_connsCount c < maxConns c then
           (let startCleaner = (\<not> hc_connsCleanerRun c \<and> \<not> connectionClose)
            in (MustDial startCleaner,
                c\<lparr>hc_connsCount := hc_connsCount c + 1, hc_connsCleanerRun := (hc_connsCleanerRun c \<or> startCleaner)\<rparr>))
         else (NoneFree, c))
      else (GotConn (hc_conns c ! (n - 1)), c\<lparr>hc_conns := take (n - 1) (hc_conns c)\<rparr>))"

text \<open>How long the caller waits, and the error it gets then; no waiting when there is no timeout.\<close>

definition acquireConn_wait :: "HostClient \<Rightarrow> int \<Rightarrow> (int \<times> acquire_err) option" where
  "acquireConn_wait c reqTimeout =
     (if hc_MaxConnWaitTimeout c \<le> 0 then None
      else
        (let timeout = hc_MaxConnWaitTimeout c;
             timeoutOverridden = (reqTimeout > 0 \<and> reqTimeout < timeout)
         in Some (if timeoutOverridden then reqTimeout else timeout,
                  if timeoutOverridden then ErrTimeout else ErrNoFreeConns)))"

text \<open>The caller's \<open>wantConn\<close> has the number \<open>w\<close>.\<close>

definition queueForIdle :: "HostClient \<Rightarrow> nat \<Rightarrow> HostClient" where
  "queueForIdle c w =
     (let c = c\<lparr>hc_wants := (hc_wants c)(w := newWantConn)\<rparr>;
          q = (case hc_connsWait c of None \<Rightarrow> newQueue | Some q \<Rightarrow> q);
          (_, q) = clearFront (\<lambda>w. waiting (hc_wants c w)) q
      in c\<lparr>hc_connsWait := Some (pushBack q w)\<rparr>)"

text \<open>
  The search for a waiting caller, in \<open>releaseConn\<close> and \<open>decConnsCount\<close>. Callers stop waiting at any
  time, but once they do they never wait again, so only the one found can change its mind later.
\<close>

definition popWaiting :: "HostClient \<Rightarrow> (nat option \<times> HostClient) panics" where
  "popWaiting c =
     (case hc_connsWait c of
        None \<Rightarrow> Ret (None, c)
      | Some q \<Rightarrow>
          (case nextWaiter (\<lambda>w. waiting (hc_wants c w)) q of
             Panic \<Rightarrow> Panic
           | Ret (w, q) \<Rightarrow> Ret (w, c\<lparr>hc_connsWait := Some q\<rparr>)))"

text \<open>\<open>decConnsCount\<close>: the caller for whom a connection is dialled instead, if there is one.\<close>

definition decConnsCount :: "HostClient \<Rightarrow> (nat option \<times> HostClient) panics" where
  "decConnsCount c =
     (if hc_MaxConnWaitTimeout c \<le> 0 then Ret (None, c\<lparr>hc_connsCount := hc_connsCount c - 1\<rparr>)
      else
        (case popWaiting c of
           Panic \<Rightarrow> Panic
         | Ret (Some w, c) \<Rightarrow> Ret (Some w, c)
         | Ret (None, c) \<Rightarrow> Ret (None, c\<lparr>hc_connsCount := hc_connsCount c - 1\<rparr>)))"

text \<open>\<open>releaseConn\<close> up to the caller it has picked, and the delivery to that caller.\<close>

definition releaseConn_pick :: "HostClient \<Rightarrow> clientConn \<Rightarrow> (nat option \<times> HostClient) panics" where
  "releaseConn_pick c cc =
     (if hc_MaxConnWaitTimeout c \<le> 0 then Ret (None, c\<lparr>hc_conns := hc_conns c @ [cc]\<rparr>)
      else
        (case popWaiting c of
           Panic \<Rightarrow> Panic
         | Ret (Some w, c) \<Rightarrow> Ret (Some w, c)
         | Ret (None, c) \<Rightarrow> Ret (None, c\<lparr>hc_conns := hc_conns c @ [cc]\<rparr>)))"

definition HostClient_tryDeliver ::
  "HostClient \<Rightarrow> nat \<Rightarrow> clientConn option \<Rightarrow> acquire_err option \<Rightarrow> (bool \<times> HostClient) panics" where
  "HostClient_tryDeliver c w conn err =
     (case tryDeliver (hc_wants c w) conn err of
        Panic \<Rightarrow> Panic
      | Ret (delivered, x) \<Rightarrow> Ret (delivered, c\<lparr>hc_wants := (hc_wants c)(w := x)\<rparr>))"

definition releaseConn_deliver :: "HostClient \<Rightarrow> clientConn \<Rightarrow> nat \<Rightarrow> HostClient panics" where
  "releaseConn_deliver c cc w =
     (case HostClient_tryDeliver c w (Some cc) None of
        Panic \<Rightarrow> Panic
      | Ret (delivered, c) \<Rightarrow> Ret (if delivered then c else c\<lparr>hc_conns := hc_conns c @ [cc]\<rparr>))"

definition HostClient_cancel :: "HostClient \<Rightarrow> nat \<Rightarrow> acquire_err \<Rightarrow> (clientConn option \<times> HostClient) panics" where
  "HostClient_cancel c w err =
     (case wantConn_cancel (hc_wants c w) err of
        Panic \<Rightarrow> Panic
      | Ret (conn, x) \<Rightarrow> Ret (conn, c\<lparr>hc_wants := (hc_wants c)(w := x)\<rparr>))"

text \<open>The connections to be closed; each is then passed to \<open>closeConn\<close>.\<close>

definition CloseIdleConnections :: "HostClient \<Rightarrow> clientConn list \<times> HostClient" where
  "CloseIdleConnections c = (hc_conns c, c\<lparr>hc_conns := []\<rparr>)"

definition maxIdleConnDuration :: "HostClient \<Rightarrow> int" where
  "maxIdleConnDuration c = (if hc_MaxIdleConnDuration c \<le> 0 then DefaultMaxIdleConnDuration else hc_MaxIdleConnDuration c)"

text \<open>One round of \<open>connsCleaner\<close>: what is closed, and how long it sleeps.\<close>

definition connsCleaner_round :: "HostClient \<Rightarrow> int \<Rightarrow> clientConn list \<times> int \<times> HostClient" where
  "connsCleaner_round c currentTime =
     (let conns = hc_conns c;
          i = length (takeWhile (\<lambda>cc. currentTime - cc_lastUseTime cc > maxIdleConnDuration c) conns);
          sleepFor = (if i < length conns
            then maxIdleConnDuration c - (currentTime - cc_lastUseTime (conns ! i)) + 1 else maxIdleConnDuration c)
      in (take i conns, sleepFor, c\<lparr>hc_conns := drop i conns\<rparr>))"

definition connsCleaner_stop :: "HostClient \<Rightarrow> bool \<times> HostClient" where
  "connsCleaner_stop c =
     (let mustStop = (hc_connsCount c = 0)
      in (mustStop, if mustStop then c\<lparr>hc_connsCleanerRun := False\<rparr> else c))"


section \<open>Runs\<close>

text \<open>
  Where connections and callers are outside the critical sections: in use, being dialled by a caller,
  about to be queued, waiting, being dialled for a waiting caller, dialled for one, about to be given
  back, about to be uncounted. \<open>ps_lock\<close> is \<open>releaseConn\<close> between picking a caller and delivering.
\<close>

record pool =
  ps_client :: HostClient
  ps_lock :: "(nat \<times> clientConn) option"
  ps_using :: "clientConn multiset"
  ps_dialing :: nat
  ps_asking :: nat
  ps_waits :: "nat list"
  ps_dialFor :: "nat multiset"
  ps_dialed :: "(nat \<times> clientConn) multiset"
  ps_releasing :: "clientConn multiset"
  ps_closing :: nat
  ps_nextConn :: nat
  ps_nextWant :: nat

datatype pool_event =
  Acquired | Dialing | Asking | Queued nat | DialedOk | DialFailed | Uncounted
  | DialedFor nat | DeliveredDial nat | DialForFailed nat
  | Released | Closed | Picked | Handed nat | Taken nat | TookError nat | TimedOut nat
  | IdleClosed | Cleaned int | CleanerStopped | MaxSet int

inductive pool_step :: "pool \<Rightarrow> pool_event \<Rightarrow> pool \<Rightarrow> bool" where
  acquired: "ps_lock s = None \<Longrightarrow> acquireConn_pick (ps_client s) cl = (GotConn cc, c) \<Longrightarrow>
    pool_step s Acquired (s\<lparr>ps_client := c, ps_using := add_mset cc (ps_using s)\<rparr>)"
| dialing: "ps_lock s = None \<Longrightarrow> acquireConn_pick (ps_client s) cl = (MustDial b, c) \<Longrightarrow>
    pool_step s Dialing (s\<lparr>ps_client := c, ps_dialing := Suc (ps_dialing s)\<rparr>)"
| asking: "ps_lock s = None \<Longrightarrow> acquireConn_pick (ps_client s) cl = (NoneFree, c) \<Longrightarrow>
    acquireConn_wait (ps_client s) reqTimeout \<noteq> None \<Longrightarrow>
    pool_step s Asking (s\<lparr>ps_client := c, ps_asking := Suc (ps_asking s)\<rparr>)"
| queued: "ps_lock s = None \<Longrightarrow> ps_asking s = Suc n \<Longrightarrow> w = ps_nextWant s \<Longrightarrow>
    pool_step s (Queued w) (s\<lparr>ps_client := queueForIdle (ps_client s) w, ps_asking := n,
      ps_waits := ps_waits s @ [w], ps_nextWant := Suc w\<rparr>)"
| dialed_ok: "ps_dialing s = Suc n \<Longrightarrow>
    pool_step s DialedOk (s\<lparr>ps_dialing := n, ps_nextConn := Suc (ps_nextConn s),
      ps_using := add_mset (acquireClientConn (ps_nextConn s) now) (ps_using s)\<rparr>)"
| dial_failed: "ps_dialing s = Suc n \<Longrightarrow>
    pool_step s DialFailed (s\<lparr>ps_dialing := n, ps_closing := Suc (ps_closing s)\<rparr>)"
| uncounted: "ps_lock s = None \<Longrightarrow> ps_closing s = Suc n \<Longrightarrow> decConnsCount (ps_client s) = Ret (w, c) \<Longrightarrow>
    pool_step s Uncounted (s\<lparr>ps_client := c, ps_closing := n,
      ps_dialFor := (case w of None \<Rightarrow> ps_dialFor s | Some w \<Rightarrow> add_mset w (ps_dialFor s))\<rparr>)"
| dialed_for: "w \<in># ps_dialFor s \<Longrightarrow>
    pool_step s (DialedFor w) (s\<lparr>ps_dialFor := ps_dialFor s - {#w#}, ps_nextConn := Suc (ps_nextConn s),
      ps_dialed := add_mset (w, acquireClientConn (ps_nextConn s) now) (ps_dialed s)\<rparr>)"
| delivered_dial: "(w, cc) \<in># ps_dialed s \<Longrightarrow> HostClient_tryDeliver (ps_client s) w (Some cc) None = Ret (delivered, c) \<Longrightarrow>
    pool_step s (DeliveredDial w) (s\<lparr>ps_client := c, ps_dialed := ps_dialed s - {#(w, cc)#},
      ps_releasing := (if delivered then ps_releasing s else add_mset (cc\<lparr>cc_lastUseTime := now\<rparr>) (ps_releasing s))\<rparr>)"
| dial_for_failed: "w \<in># ps_dialFor s \<Longrightarrow> HostClient_tryDeliver (ps_client s) w None (Some DialErr) = Ret (delivered, c) \<Longrightarrow>
    pool_step s (DialForFailed w) (s\<lparr>ps_client := c, ps_dialFor := ps_dialFor s - {#w#}, ps_closing := Suc (ps_closing s)\<rparr>)"
| released: "cc \<in># ps_using s \<Longrightarrow>
    pool_step s Released (s\<lparr>ps_using := ps_using s - {#cc#},
      ps_releasing := add_mset (cc\<lparr>cc_lastUseTime := now\<rparr>) (ps_releasing s)\<rparr>)"
| closed: "cc \<in># ps_using s \<Longrightarrow>
    pool_step s Closed (s\<lparr>ps_using := ps_using s - {#cc#}, ps_closing := Suc (ps_closing s)\<rparr>)"
| picked: "ps_lock s = None \<Longrightarrow> cc \<in># ps_releasing s \<Longrightarrow> releaseConn_pick (ps_client s) cc = Ret (w, c) \<Longrightarrow>
    pool_step s Picked (s\<lparr>ps_client := c, ps_releasing := ps_releasing s - {#cc#},
      ps_lock := map_option (\<lambda>w. (w, cc)) w\<rparr>)"
| handed: "ps_lock s = Some (w, cc) \<Longrightarrow> releaseConn_deliver (ps_client s) cc w = Ret c \<Longrightarrow>
    pool_step s (Handed w) (s\<lparr>ps_client := c, ps_lock := None\<rparr>)"
| taken: "w \<in> set (ps_waits s) \<Longrightarrow> \<not> waiting (hc_wants (ps_client s) w) \<Longrightarrow> wc_err (hc_wants (ps_client s) w) = None \<Longrightarrow>
    wc_conn (hc_wants (ps_client s) w) = Some cc \<Longrightarrow>
    pool_step s (Taken w) (s\<lparr>ps_waits := remove1 w (ps_waits s), ps_using := add_mset cc (ps_using s)\<rparr>)"
| took_error: "w \<in> set (ps_waits s) \<Longrightarrow> \<not> waiting (hc_wants (ps_client s) w) \<Longrightarrow> wc_err (hc_wants (ps_client s) w) = Some e \<Longrightarrow>
    HostClient_cancel (ps_client s) w e = Ret (conn, c) \<Longrightarrow>
    pool_step s (TookError w) (s\<lparr>ps_client := c, ps_waits := remove1 w (ps_waits s),
      ps_releasing := (case conn of None \<Rightarrow> ps_releasing s | Some cc \<Rightarrow> add_mset (cc\<lparr>cc_lastUseTime := now\<rparr>) (ps_releasing s))\<rparr>)"
| timed_out: "w \<in> set (ps_waits s) \<Longrightarrow> acquireConn_wait (ps_client s) reqTimeout = Some (t, e) \<Longrightarrow>
    HostClient_cancel (ps_client s) w e = Ret (conn, c) \<Longrightarrow>
    pool_step s (TimedOut w) (s\<lparr>ps_client := c, ps_waits := remove1 w (ps_waits s),
      ps_releasing := (case conn of None \<Rightarrow> ps_releasing s | Some cc \<Rightarrow> add_mset (cc\<lparr>cc_lastUseTime := now\<rparr>) (ps_releasing s))\<rparr>)"
| idle_closed: "ps_lock s = None \<Longrightarrow> CloseIdleConnections (ps_client s) = (ccs, c) \<Longrightarrow>
    pool_step s IdleClosed (s\<lparr>ps_client := c, ps_closing := ps_closing s + length ccs\<rparr>)"
| cleaned: "ps_lock s = None \<Longrightarrow> connsCleaner_round (ps_client s) now = (ccs, d, c) \<Longrightarrow>
    pool_step s (Cleaned now) (s\<lparr>ps_client := c, ps_closing := ps_closing s + length ccs\<rparr>)"
| cleaner_stopped: "ps_lock s = None \<Longrightarrow> connsCleaner_stop (ps_client s) = (b, c) \<Longrightarrow>
    pool_step s CleanerStopped (s\<lparr>ps_client := c\<rparr>)"
| max_set: "ps_lock s = None \<Longrightarrow> pool_step s (MaxSet n) (s\<lparr>ps_client := HostClient_SetMaxConns (ps_client s) n\<rparr>)"

definition pool_start :: "pool \<Rightarrow> bool" where
  "pool_start s \<longleftrightarrow> hc_conns (ps_client s) = [] \<and> hc_connsCount (ps_client s) = 0 \<and> hc_connsWait (ps_client s) = None
     \<and> hc_wants (ps_client s) = (\<lambda>_. newWantConn) \<and> ps_lock s = None \<and> ps_using s = {#} \<and> ps_dialing s = 0 \<and> ps_asking s = 0 \<and> ps_waits s = [] \<and> ps_dialFor s = {#}
     \<and> ps_dialed s = {#} \<and> ps_releasing s = {#} \<and> ps_closing s = 0 \<and> ps_nextWant s = 0"

end
