(* ===== verification/ConnPoolInv.thy ===== *)
theory ConnPoolInv
  imports ConnPool
begin

text \<open>
  Invariants of the connection pool: the callers that wait are known and their channels are open only
  while they wait; the count of the client is the number of slots, and no connection is in two places.
\<close>


section \<open>Waiting callers\<close>

definition waitItems :: "HostClient \<Rightarrow> nat list" where
  "waitItems c = (case hc_connsWait c of None \<Rightarrow> [] | Some q \<Rightarrow> wq_items q)"

definition queue_ok :: "HostClient \<Rightarrow> bool" where
  "queue_ok c \<longleftrightarrow> (case hc_connsWait c of None \<Rightarrow> True | Some q \<Rightarrow> wq_ok q)"

definition waitsStill :: "HostClient \<Rightarrow> nat \<Rightarrow> bool" where
  "waitsStill c w \<longleftrightarrow> waiting (hc_wants c w)"

text \<open>Every caller whose channel is open is waiting, and the references to callers are to known ones.\<close>

definition known :: "pool \<Rightarrow> nat set" where
  "known s = set (waitItems (ps_client s)) \<union> set_mset (ps_dialFor s) \<union> fst ` set_mset (ps_dialed s)
     \<union> (case ps_lock s of None \<Rightarrow> {} | Some (w, cc) \<Rightarrow> {w})"

definition callers_ok :: "pool \<Rightarrow> bool" where
  "callers_ok s \<longleftrightarrow>
     (\<forall>w. wantConn_ok (hc_wants (ps_client s) w)) \<and> distinct (ps_waits s)
     \<and> (\<forall>w. w < ps_nextWant s \<and> waitsStill (ps_client s) w \<longrightarrow> w \<in> set (ps_waits s))
     \<and> (\<forall>w \<in> set (ps_waits s) \<union> known s. w < ps_nextWant s) \<and> queue_ok (ps_client s)"

lemma popWaiting_spec:
  assumes "queue_ok c"
  obtains c' where "popWaiting c = Ret (find (waitsStill c) (waitItems c), c')"
    and "c' = c\<lparr>hc_connsWait := hc_connsWait c'\<rparr>" and "queue_ok c'"
    and "waitItems c' = tl (dropWhile (\<lambda>w. \<not> waitsStill c w) (waitItems c))"
proof (cases "hc_connsWait c")
  case None
  show thesis by (rule that [of c]) (use None assms in \<open>simp_all add: popWaiting_def waitItems_def\<close>)
next
  case (Some q)
  have "wq_ok q" using assms Some by (simp add: queue_ok_def)
  then obtain q' where q': "nextWaiter (\<lambda>w. waiting (hc_wants c w)) q = Ret (find (\<lambda>w. waiting (hc_wants c w)) (wq_items q), q')"
    "wq_ok q'" "wq_items q' = tl (dropWhile (\<lambda>w. \<not> waiting (hc_wants c w)) (wq_items q))"
    using nextWaiter_finds by blast
  show thesis
    by (rule that [of "c\<lparr>hc_connsWait := Some q'\<rparr>"])
      (use Some q' in \<open>simp_all add: popWaiting_def waitItems_def queue_ok_def waitsStill_def [abs_def]\<close>)
qed

lemma popWaiting_Ret:
  assumes "popWaiting c = Ret (w, c')" and "queue_ok c"
  shows "w = find (waitsStill c) (waitItems c)" and "c' = c\<lparr>hc_connsWait := hc_connsWait c'\<rparr>" and "queue_ok c'"
    and "waitItems c' = tl (dropWhile (\<lambda>w. \<not> waitsStill c w) (waitItems c))"
  using popWaiting_spec [OF assms(2)] assms(1) by auto

lemma set_tl_dropWhile: "set (tl (dropWhile P xs)) \<subseteq> set xs"
proof -
  have "set (tl ys) \<subseteq> set ys" for ys :: "'a list" by (cases ys) auto
  then show ?thesis using set_dropWhileD [of _ P xs] by blast
qed

lemma deliver_Ret:
  assumes "HostClient_tryDeliver c w conn err = Ret (d, c')" and "wantConn_ok (hc_wants c w)" and "conn \<noteq> None \<or> err \<noteq> None"
  shows "d = waitsStill c w" and "c' = c\<lparr>hc_wants := (hc_wants c)(w := (if waitsStill c w
      then (hc_wants c w)\<lparr>wc_conn := conn, wc_err := err, wc_ready := True\<rparr> else hc_wants c w))\<rparr>"
  using assms tryDeliver_ok [OF assms(2,3)] by (auto simp: HostClient_tryDeliver_def waitsStill_def)

lemma cancel_Ret:
  assumes "HostClient_cancel c w err = Ret (conn, c')" and "wantConn_ok (hc_wants c w)"
  shows "conn = wc_conn (hc_wants c w)"
    and "c' = c\<lparr>hc_wants := (hc_wants c)(w := (hc_wants c w)\<lparr>wc_conn := None, wc_err := Some err, wc_ready := True\<rparr>)\<rparr>"
  using assms cancel_ok [OF assms(2)] by (auto simp: HostClient_cancel_def)

text \<open>What \<open>decConnsCount\<close> and \<open>releaseConn_pick\<close> have in common: \<open>f\<close> is done when nobody waits.\<close>

lemma popWaiting_or:
  assumes "(if hc_MaxConnWaitTimeout c \<le> 0 then Ret (None, f c)
      else (case popWaiting c of Panic \<Rightarrow> Panic | Ret (Some w, c) \<Rightarrow> Ret (Some w, c) | Ret (None, c) \<Rightarrow> Ret (None, f c))) = Ret (w, c')"
    and "queue_ok c"
  obtains q where "c' = (if w = None then f (c\<lparr>hc_connsWait := q\<rparr>) else c\<lparr>hc_connsWait := q\<rparr>)"
    and "queue_ok (c\<lparr>hc_connsWait := q\<rparr>)" and "set (waitItems (c\<lparr>hc_connsWait := q\<rparr>)) \<subseteq> set (waitItems c)"
    and "hc_MaxConnWaitTimeout c > 0 \<Longrightarrow> w = find (waitsStill c) (waitItems c)"
    and "\<And>x. w = Some x \<Longrightarrow> x \<in> set (waitItems c)"
proof (cases "hc_MaxConnWaitTimeout c \<le> 0")
  case True
  have "c = c\<lparr>hc_connsWait := hc_connsWait c\<rparr>" by simp
  with True assms show thesis by (intro that [of "hc_connsWait c"]) auto
next
  case False
  obtain c1 where c1: "popWaiting c = Ret (find (waitsStill c) (waitItems c), c1)" "c1 = c\<lparr>hc_connsWait := hc_connsWait c1\<rparr>"
    "queue_ok c1" "waitItems c1 = tl (dropWhile (\<lambda>w. \<not> waitsStill c w) (waitItems c))"
    using popWaiting_spec [OF assms(2)] by blast
  have w: "w = find (waitsStill c) (waitItems c)" "c' = (if w = None then f c1 else c1)"
    using assms(1) False c1(1) by (auto split: option.splits)
  have sub: "set (waitItems c1) \<subseteq> set (waitItems c)" unfolding c1(4) by (rule set_tl_dropWhile)
  have c1': "c\<lparr>hc_connsWait := hc_connsWait c1\<rparr> = c1" using c1(2) by simp
  have "x \<in> set (waitItems c)" if "w = Some x" for x using that w(1) by (auto simp: find_Some_iff)
  then show thesis using that [of "hc_connsWait c1"] w sub c1(3) unfolding c1' by blast
qed

lemma decConnsCount_Ret:
  assumes "decConnsCount c = Ret (w, c')" and "queue_ok c"
  obtains q where "c' = c\<lparr>hc_connsWait := q, hc_connsCount := hc_connsCount c - (if w = None then 1 else 0)\<rparr>"
    and "queue_ok (c\<lparr>hc_connsWait := q\<rparr>)" and "set (waitItems (c\<lparr>hc_connsWait := q\<rparr>)) \<subseteq> set (waitItems c)"
    and "hc_MaxConnWaitTimeout c > 0 \<Longrightarrow> w = find (waitsStill c) (waitItems c)"
    and "\<And>x. w = Some x \<Longrightarrow> x \<in> set (waitItems c)"
proof (rule popWaiting_or [where f = "\<lambda>c. c\<lparr>hc_connsCount := hc_connsCount c - 1\<rparr>", OF assms(1) [unfolded decConnsCount_def] assms(2)])
  fix q
  assume q: "c' = (if w = None then (c\<lparr>hc_connsWait := q\<rparr>)\<lparr>hc_connsCount := hc_connsCount (c\<lparr>hc_connsWait := q\<rparr>) - 1\<rparr>
      else c\<lparr>hc_connsWait := q\<rparr>)"
    "queue_ok (c\<lparr>hc_connsWait := q\<rparr>)" "set (waitItems (c\<lparr>hc_connsWait := q\<rparr>)) \<subseteq> set (waitItems c)"
    "hc_MaxConnWaitTimeout c > 0 \<Longrightarrow> w = find (waitsStill c) (waitItems c)" "\<And>x. w = Some x \<Longrightarrow> x \<in> set (waitItems c)"
  show thesis by (rule that [OF _ q(2-5)]) (simp_all add: q(1))
qed

lemma releaseConn_pick_Ret:
  assumes "releaseConn_pick c cc = Ret (w, c')" and "queue_ok c"
  obtains q where "c' = c\<lparr>hc_connsWait := q, hc_conns := hc_conns c @ (if w = None then [cc] else [])\<rparr>"
    and "queue_ok (c\<lparr>hc_connsWait := q\<rparr>)" and "set (waitItems (c\<lparr>hc_connsWait := q\<rparr>)) \<subseteq> set (waitItems c)"
    and "hc_MaxConnWaitTimeout c > 0 \<Longrightarrow> w = find (waitsStill c) (waitItems c)"
    and "\<And>x. w = Some x \<Longrightarrow> x \<in> set (waitItems c)"
proof (rule popWaiting_or [where f = "\<lambda>c. c\<lparr>hc_conns := hc_conns c @ [cc]\<rparr>", OF assms(1) [unfolded releaseConn_pick_def] assms(2)])
  fix q
  assume q: "c' = (if w = None then (c\<lparr>hc_connsWait := q\<rparr>)\<lparr>hc_conns := hc_conns (c\<lparr>hc_connsWait := q\<rparr>) @ [cc]\<rparr>
      else c\<lparr>hc_connsWait := q\<rparr>)"
    "queue_ok (c\<lparr>hc_connsWait := q\<rparr>)" "set (waitItems (c\<lparr>hc_connsWait := q\<rparr>)) \<subseteq> set (waitItems c)"
    "hc_MaxConnWaitTimeout c > 0 \<Longrightarrow> w = find (waitsStill c) (waitItems c)" "\<And>x. w = Some x \<Longrightarrow> x \<in> set (waitItems c)"
  show thesis by (rule that [OF _ q(2-5)]) (simp_all add: q(1))
qed

lemma known_iff:
  "v \<in> known s \<longleftrightarrow> v \<in> set (waitItems (ps_client s)) \<or> v \<in># ps_dialFor s \<or> (\<exists>cc. (v, cc) \<in># ps_dialed s)
     \<or> (\<exists>cc. ps_lock s = Some (v, cc))"
  by (force simp: known_def split: option.splits)

text \<open>What the queue holds depends on the queue alone.\<close>

lemma waitItems_update [simp]:
  "waitItems (c\<lparr>hc_conns := a\<rparr>) = waitItems c" "waitItems (c\<lparr>hc_connsCount := b\<rparr>) = waitItems c"
  "waitItems (c\<lparr>hc_wants := d\<rparr>) = waitItems c" "waitItems (c\<lparr>hc_connsCleanerRun := e\<rparr>) = waitItems c"
  "waitItems (c\<lparr>hc_MaxConns := f\<rparr>) = waitItems c"
  "queue_ok (c\<lparr>hc_conns := a\<rparr>) = queue_ok c" "queue_ok (c\<lparr>hc_connsCount := b\<rparr>) = queue_ok c"
  "queue_ok (c\<lparr>hc_wants := d\<rparr>) = queue_ok c" "queue_ok (c\<lparr>hc_connsCleanerRun := e\<rparr>) = queue_ok c"
  "queue_ok (c\<lparr>hc_MaxConns := f\<rparr>) = queue_ok c"
  by (simp_all add: waitItems_def queue_ok_def)

text \<open>The effect of a step on the callers.\<close>

lemma callers_okI:
  assumes "callers_ok s" and "\<And>w. wantConn_ok (hc_wants (ps_client t) w)" and "distinct (ps_waits t)"
    and "ps_nextWant s \<le> ps_nextWant t" and "queue_ok (ps_client t)"
    and "\<And>w. w \<in> set (ps_waits t) \<union> known t \<Longrightarrow> w \<in> set (ps_waits s) \<union> known s \<or> w = ps_nextWant s \<and> w < ps_nextWant t"
    and "\<And>w. w < ps_nextWant t \<Longrightarrow> waitsStill (ps_client t) w \<Longrightarrow> w \<in> set (ps_waits t)"
  shows "callers_ok t"
  using assms unfolding callers_ok_def by (smt (verit) order_less_le_trans)

lemma callers_okD:
  assumes "callers_ok s"
  shows "wantConn_ok (hc_wants (ps_client s) w)" and "distinct (ps_waits s)" and "queue_ok (ps_client s)"
    and "w < ps_nextWant s \<Longrightarrow> waitsStill (ps_client s) w \<Longrightarrow> w \<in> set (ps_waits s)"
    and "w \<in> set (ps_waits s) \<Longrightarrow> w < ps_nextWant s" and "w \<in> known s \<Longrightarrow> w < ps_nextWant s"
  using assms unfolding callers_ok_def by blast+

lemma callers_ok_start: "pool_start s \<Longrightarrow> callers_ok s"
  by (auto simp: pool_start_def callers_ok_def known_def waitItems_def queue_ok_def)


lemma pick_simps:
  assumes "acquireConn_pick c cl = (a, c')"
  shows "hc_wants c' = hc_wants c" and "hc_connsWait c' = hc_connsWait c"
  using assms by (auto simp: acquireConn_pick_def Let_def split: if_splits)

lemma same_queue:
  "hc_connsWait c' = hc_connsWait c \<Longrightarrow> waitItems c' = waitItems c"
  "hc_connsWait c' = hc_connsWait c \<Longrightarrow> queue_ok c' = queue_ok c"
  by (simp_all add: waitItems_def queue_ok_def)

lemma same_wants: "hc_wants c' = hc_wants c \<Longrightarrow> waitsStill c' = waitsStill c"
  by (simp add: waitsStill_def fun_eq_iff)

lemma queueForIdle_items:
  assumes "queue_ok c"
  shows "queue_ok (queueForIdle c w)" and "set (waitItems (queueForIdle c w)) \<subseteq> insert w (set (waitItems c))"
    and "w \<in> set (waitItems (queueForIdle c w))" and "hc_wants (queueForIdle c w) = (hc_wants c)(w := newWantConn)"
proof -
  let ?q = "case hc_connsWait c of None \<Rightarrow> newQueue | Some q \<Rightarrow> q" and ?w = "(hc_wants c)(w := newWantConn)"
  have q: "wq_ok ?q" "wq_items ?q = waitItems c" using assms by (auto simp: queue_ok_def waitItems_def split: option.splits)
  obtain b q' where cl: "clearFront (\<lambda>x. waiting (?w x)) ?q = (b, q')" by (metis surj_pair)
  have "wq_items q' = dropWhile (\<lambda>x. \<not> waiting (?w x)) (waitItems c)" "wq_ok q'"
    using clearFront_drops [OF q(1), of "\<lambda>x. waiting (?w x)"] unfolding cl q(2) by simp_all
  then have q': "wq_ok q'" "set (wq_items q') \<subseteq> set (waitItems c)" by (metis set_dropWhileD subsetI)+
  have "queueForIdle c w = c\<lparr>hc_wants := ?w, hc_connsWait := Some (pushBack q' w)\<rparr>"
    using cl by (simp add: queueForIdle_def Let_def)
  then show "queue_ok (queueForIdle c w)" "set (waitItems (queueForIdle c w)) \<subseteq> insert w (set (waitItems c))"
    "w \<in> set (waitItems (queueForIdle c w))" "hc_wants (queueForIdle c w) = (hc_wants c)(w := newWantConn)"
    using q' wq.push [of q' w] by (auto simp: queue_ok_def waitItems_def)
qed

lemma callers_ok_deliver:
  assumes "callers_ok s" and "HostClient_tryDeliver (ps_client s) w conn err = Ret (d, c)" and "conn \<noteq> None \<or> err \<noteq> None"
    and "ps_client t = c\<lparr>hc_conns := x\<rparr>" and "ps_waits t = ps_waits s" and "ps_nextWant t = ps_nextWant s" and "known t \<subseteq> known s"
  shows "callers_ok t"
proof -
  have ok: "wantConn_ok (hc_wants (ps_client s) v)" for v using assms(1) by (simp add: callers_ok_def)
  note c = deliver_Ret(2) [OF assms(2) ok assms(3)]
  have w: "waitsStill (ps_client t) v \<Longrightarrow> waitsStill (ps_client s) v" for v
    by (auto simp: assms(4) c waitsStill_def waiting_def split: if_splits)
  show ?thesis
  proof (rule callers_okI [OF assms(1)])
    fix v show "wantConn_ok (hc_wants (ps_client t) v)"
      using ok [of v] assms(3) by (auto simp: assms(4) c wantConn_ok_def)
  next
    show "queue_ok (ps_client t)" using callers_okD(3) [OF assms(1)] by (simp add: assms(4) c)
  next
    fix v assume "v < ps_nextWant t" "waitsStill (ps_client t) v"
    then show "v \<in> set (ps_waits t)" using w callers_okD(4) [OF assms(1)] by (simp add: assms(5,6))
  qed (use assms(5-7) callers_okD(2) [OF assms(1)] in auto)
qed

lemma callers_ok_cancel:
  assumes "callers_ok s" and "HostClient_cancel (ps_client s) w err = Ret (conn, c)"
    and "ps_client t = c" and "ps_waits t = remove1 w (ps_waits s)" and "ps_nextWant t = ps_nextWant s" and "known t \<subseteq> known s"
  shows "callers_ok t"
proof -
  have ok: "wantConn_ok (hc_wants (ps_client s) v)" for v using assms(1) by (simp add: callers_ok_def)
  note c = cancel_Ret(2) [OF assms(2) ok]
  have w: "waitsStill (ps_client t) v \<Longrightarrow> v \<noteq> w \<and> waitsStill (ps_client s) v" for v
    by (auto simp: assms(3) c waitsStill_def waiting_def split: if_splits)
  show ?thesis
  proof (rule callers_okI [OF assms(1)])
    fix v show "wantConn_ok (hc_wants (ps_client t) v)" using ok [of v] by (auto simp: assms(3) c)
  next
    show "queue_ok (ps_client t)" using callers_okD(3) [OF assms(1)] by (simp add: assms(3) c)
  next
    fix v assume "v < ps_nextWant t" "waitsStill (ps_client t) v"
    then show "v \<in> set (ps_waits t)" using w callers_okD(4) [OF assms(1)] by (simp add: assms(4,5) in_set_remove1)
  qed (use assms(4-6) callers_okD(2) [OF assms(1)] in \<open>auto dest: notin_set_remove1\<close>)
qed

lemma callers_ok_same:
  assumes "callers_ok s" and "hc_wants (ps_client t) = hc_wants (ps_client s)" and "queue_ok (ps_client t)"
    and "ps_waits t = ps_waits s" and "ps_nextWant t = ps_nextWant s" and "known t \<subseteq> known s"
  shows "callers_ok t"
proof (rule callers_okI [OF assms(1)])
  show "v \<in> set (ps_waits s) \<union> known s \<or> v = ps_nextWant s \<and> v < ps_nextWant t" if "v \<in> set (ps_waits t) \<union> known t" for v
    using that subsetD [OF assms(6)] by (simp add: assms(4)) metis
  show "wantConn_ok (hc_wants (ps_client t) v)" for v using callers_okD(1) [OF assms(1)] by (simp add: assms(2))
  show "v \<in> set (ps_waits t)" if "v < ps_nextWant t" "waitsStill (ps_client t) v" for v
    using that callers_okD(4) [OF assms(1)] by (simp add: assms(4,5) same_wants [OF assms(2)])
qed (simp_all add: assms(3-5) callers_okD(2) [OF assms(1)])

lemma callers_ok_step:
  assumes "callers_ok s" and "pool_step s e t"
  shows "callers_ok t"
  using assms(2)
proof (cases rule: pool_step.cases)
  case (acquired cl cc c)
  note c = pick_simps(1) [OF acquired(4)] same_queue [OF pick_simps(2) [OF acquired(4)]]
  show ?thesis
    by (rule callers_ok_same [OF assms(1)]) (auto simp: acquired(2) c known_iff callers_okD(3) [OF assms(1)])
next
  case (dialing cl b c)
  note c = pick_simps(1) [OF dialing(4)] same_queue [OF pick_simps(2) [OF dialing(4)]]
  show ?thesis
    by (rule callers_ok_same [OF assms(1)]) (auto simp: dialing(2) c known_iff callers_okD(3) [OF assms(1)])
next
  case (asking cl c reqTimeout)
  note c = pick_simps(1) [OF asking(4)] same_queue [OF pick_simps(2) [OF asking(4)]]
  show ?thesis
    by (rule callers_ok_same [OF assms(1)]) (auto simp: asking(2) c known_iff callers_okD(3) [OF assms(1)])
next
  case (queued n w)
  have "queue_ok (ps_client s)" by (rule callers_okD(3) [OF assms(1)])
  note q = queueForIdle_items [OF this, of "ps_nextWant s"]
  show ?thesis
  proof (rule callers_okI [OF assms(1)])
    fix v assume "v < ps_nextWant t" "waitsStill (ps_client t) v"
    then show "v \<in> set (ps_waits t)"
      using callers_okD(4) [OF assms(1)] by (auto simp: queued(2) queued(5) q(4) waitsStill_def less_Suc_eq)
  next
    fix v assume "v \<in> set (ps_waits t) \<union> known t"
    then show "v \<in> set (ps_waits s) \<union> known s \<or> v = ps_nextWant s \<and> v < ps_nextWant t"
      using q(2) by (auto simp: queued(2,5) known_iff)
  next
    show "distinct (ps_waits t)" using callers_okD(2,5) [OF assms(1)] by (auto simp: queued(2,5))
  qed (simp_all add: queued(2,5) q(1,4) callers_okD(1) [OF assms(1)])
next
  case (uncounted n w c)
  have q: "queue_ok (ps_client s)" by (rule callers_okD(3) [OF assms(1)])
  show ?thesis
    by (rule decConnsCount_Ret [OF uncounted(5) q], rule callers_ok_same [OF assms(1)])
      (auto simp: uncounted known_iff split: option.splits)
next
  case (picked cc w c)
  have q: "queue_ok (ps_client s)" by (rule callers_okD(3) [OF assms(1)])
  show ?thesis
    by (rule releaseConn_pick_Ret [OF picked(5) q], rule callers_ok_same [OF assms(1)]) (auto simp: picked known_iff)
next
  case (delivered_dial w cc delivered c now)
  have "waitItems c = waitItems (ps_client s)"
    using deliver_Ret(2) [OF delivered_dial(4)] by (simp add: callers_okD(1) [OF assms(1)])
  then have "known t \<subseteq> known s"
    using delivered_dial(3) by (auto simp: delivered_dial(2) known_iff dest!: in_diffD)
  then show ?thesis using callers_ok_deliver [OF assms(1) delivered_dial(4), of t "hc_conns c"] delivered_dial by simp
next
  case (dial_for_failed w delivered c)
  have "waitItems c = waitItems (ps_client s)"
    using deliver_Ret(2) [OF dial_for_failed(4)] by (simp add: callers_okD(1) [OF assms(1)])
  then have "known t \<subseteq> known s"
    using dial_for_failed(3) by (auto simp: dial_for_failed(2) known_iff dest!: in_diffD)
  then show ?thesis using callers_ok_deliver [OF assms(1) dial_for_failed(4), of t "hc_conns c"] dial_for_failed by simp
next
  case (handed w cc c)
  obtain d c1 where c1: "HostClient_tryDeliver (ps_client s) w (Some cc) None = Ret (d, c1)"
    "c = (if d then c1 else c1\<lparr>hc_conns := hc_conns c1 @ [cc]\<rparr>)"
    using handed(4) by (auto simp: releaseConn_deliver_def split: panics.splits prod.splits)
  have "waitItems c1 = waitItems (ps_client s)"
    using deliver_Ret(2) [OF c1(1)] by (simp add: callers_okD(1) [OF assms(1)])
  then have "known t \<subseteq> known s" by (auto simp: handed(2) c1(2) known_iff)
  then show ?thesis
    using callers_ok_deliver [OF assms(1) c1(1), of t "hc_conns c1"]
      callers_ok_deliver [OF assms(1) c1(1), of t "hc_conns c1 @ [cc]"] handed c1(2) by (cases d) simp_all
next
  case (took_error w e' conn c now)
  have "waitItems c = waitItems (ps_client s)"
    using cancel_Ret(2) [OF took_error(6)] by (simp add: callers_okD(1) [OF assms(1)])
  then have "known t \<subseteq> known s" by (auto simp: took_error(2) known_iff)
  then show ?thesis using callers_ok_cancel [OF assms(1) took_error(6), of t] took_error by simp
next
  case (timed_out w reqTimeout d e' conn c now)
  have "waitItems c = waitItems (ps_client s)"
    using cancel_Ret(2) [OF timed_out(5)] by (simp add: callers_okD(1) [OF assms(1)])
  then have "known t \<subseteq> known s" by (auto simp: timed_out(2) known_iff)
  then show ?thesis using callers_ok_cancel [OF assms(1) timed_out(5), of t] timed_out by simp
next
  case (taken w cc)
  have 1: "v \<noteq> w" if "waitsStill (ps_client t) v" for v using that taken(4) by (auto simp: taken(2) waitsStill_def)
  show ?thesis
  proof (rule callers_okI [OF assms(1)])
    fix v assume "v < ps_nextWant t" "waitsStill (ps_client t) v"
    then show "v \<in> set (ps_waits t)"
      using 1 [of v] callers_okD(4) [OF assms(1), of v] by (simp add: taken(2) in_set_remove1)
  next
    fix v assume "v \<in> set (ps_waits t) \<union> known t"
    then show "v \<in> set (ps_waits s) \<union> known s \<or> v = ps_nextWant s \<and> v < ps_nextWant t"
      by (auto simp: taken(2) known_iff dest: notin_set_remove1)
  qed (simp_all add: taken(2) callers_okD(1-3) [OF assms(1)])
next
  case (idle_closed ccs c)
  then show ?thesis
    by (intro callers_ok_same [OF assms(1)]) (auto simp: CloseIdleConnections_def known_iff callers_okD(3) [OF assms(1)])
next
  case (cleaned now ccs d c)
  then show ?thesis
    by (intro callers_ok_same [OF assms(1)]) (auto simp: connsCleaner_round_def Let_def known_iff callers_okD(3) [OF assms(1)])
next
  case (cleaner_stopped b c)
  then show ?thesis
    by (intro callers_ok_same [OF assms(1)]) (auto simp: connsCleaner_stop_def Let_def known_iff callers_okD(3) [OF assms(1)])
next
  case (max_set n)
  then show ?thesis
    by (intro callers_ok_same [OF assms(1)]) (auto simp: HostClient_SetMaxConns_def known_iff callers_okD(3) [OF assms(1)])
qed (rule callers_ok_same [OF assms(1)]; auto simp: known_iff callers_okD(3) [OF assms(1)] dest!: in_diffD)+


section \<open>Connections and slots\<close>

fun opt_mset :: "'a option \<Rightarrow> 'a multiset" where
  "opt_mset None = {#}"
| "opt_mset (Some x) = {#x#}"

text \<open>The connections delivered to callers that have not taken them yet, and all connections there are.\<close>

definition deliveries :: "HostClient \<Rightarrow> nat list \<Rightarrow> clientConn multiset" where
  "deliveries c ws = (\<Sum>w\<leftarrow>ws. opt_mset (wc_conn (hc_wants c w)))"

definition held :: "pool \<Rightarrow> clientConn multiset" where
  "held s = mset (hc_conns (ps_client s)) + ps_using s + image_mset snd (ps_dialed s) + ps_releasing s
     + deliveries (ps_client s) (ps_waits s) + opt_mset (map_option snd (ps_lock s))"

definition ids :: "pool \<Rightarrow> nat multiset" where
  "ids s = image_mset cc_c (held s)"

text \<open>Slots: connections, connections being dialled, and those that are gone but still counted.\<close>

definition slots :: "pool \<Rightarrow> nat" where
  "slots s = size (held s) + ps_dialing s + size (ps_dialFor s) + ps_closing s"

lemma deliveries_update [simp]:
  "deliveries (c\<lparr>hc_conns := a\<rparr>) ws = deliveries c ws" "deliveries (c\<lparr>hc_connsCount := b\<rparr>) ws = deliveries c ws"
  "deliveries (c\<lparr>hc_connsWait := d\<rparr>) ws = deliveries c ws" "deliveries (c\<lparr>hc_connsCleanerRun := e\<rparr>) ws = deliveries c ws"
  "deliveries (c\<lparr>hc_MaxConns := f\<rparr>) ws = deliveries c ws"
  by (simp_all add: deliveries_def)

lemma deliveries_other:
  assumes "\<And>v. v \<in> set ws \<Longrightarrow> wc_conn (hc_wants c' v) = wc_conn (hc_wants c v)"
  shows "deliveries c' ws = deliveries c ws"
  unfolding deliveries_def using assms by (metis (mono_tags, lifting) map_eq_conv)

lemma deliveries_remove1:
  "w \<in> set ws \<Longrightarrow> deliveries c ws = opt_mset (wc_conn (hc_wants c w)) + deliveries c (remove1 w ws)"
  by (simp add: deliveries_def sum_list_map_remove1)

lemma deliveries_put:
  assumes "distinct ws" and "w \<in> set ws"
  shows "deliveries (c\<lparr>hc_wants := (hc_wants c)(w := x)\<rparr>) ws + opt_mset (wc_conn (hc_wants c w)) =
    deliveries c ws + opt_mset (wc_conn x)"
proof -
  let ?c = "c\<lparr>hc_wants := (hc_wants c)(w := x)\<rparr>"
  have "deliveries ?c (remove1 w ws) = deliveries c (remove1 w ws)"
    using assms(1) by (intro deliveries_other) auto
  then show ?thesis using deliveries_remove1 [OF assms(2), of c] deliveries_remove1 [OF assms(2), of ?c] by simp
qed

lemma waiting_no_conn:
  assumes "callers_ok s" and "waitsStill (ps_client s) w"
  shows "wc_conn (hc_wants (ps_client s) w) = None"
  using callers_okD(1) [OF assms(1), of w] assms(2) by (auto simp: waitsStill_def waiting_def wantConn_ok_def)

lemma deliver_deliveries:
  assumes "callers_ok s" and "HostClient_tryDeliver (ps_client s) w conn err = Ret (d, c)" and "conn \<noteq> None \<or> err \<noteq> None"
    and "w < ps_nextWant s"
  shows "deliveries c (ps_waits s) = deliveries (ps_client s) (ps_waits s) + (if d then opt_mset conn else {#})"
    and "hc_conns c = hc_conns (ps_client s)" and "hc_connsCount c = hc_connsCount (ps_client s)" and "maxConns c = maxConns (ps_client s)"
proof -
  note c = deliver_Ret [OF assms(2) callers_okD(1) [OF assms(1)] assms(3)]
  show "hc_conns c = hc_conns (ps_client s)" "hc_connsCount c = hc_connsCount (ps_client s)" "maxConns c = maxConns (ps_client s)"
    by (subst c(2), simp add: maxConns_def)+
  show "deliveries c (ps_waits s) = deliveries (ps_client s) (ps_waits s) + (if d then opt_mset conn else {#})"
  proof (cases d)
    case True
    then have st: "waitsStill (ps_client s) w" using c(1) by simp
    have "w \<in> set (ps_waits s)" using callers_okD(4) [OF assms(1) assms(4) st] .
    from deliveries_put [OF callers_okD(2) [OF assms(1)] this, of "ps_client s"
        "(hc_wants (ps_client s) w)\<lparr>wc_conn := conn, wc_err := err, wc_ready := True\<rparr>"]
    show ?thesis by (subst c(2)) (simp add: st waiting_no_conn [OF assms(1) st] True)
  next
    case False
    with c show ?thesis by simp
  qed
qed

lemma cancel_deliveries:
  assumes "callers_ok s" and "HostClient_cancel (ps_client s) w err = Ret (conn, c)" and "w \<in> set (ps_waits s)"
  shows "deliveries (ps_client s) (ps_waits s) = deliveries c (remove1 w (ps_waits s)) + opt_mset conn"
    and "hc_conns c = hc_conns (ps_client s)" and "hc_connsCount c = hc_connsCount (ps_client s)" and "maxConns c = maxConns (ps_client s)"
proof -
  note c = cancel_Ret [OF assms(2) callers_okD(1) [OF assms(1)]]
  show "hc_conns c = hc_conns (ps_client s)" "hc_connsCount c = hc_connsCount (ps_client s)" "maxConns c = maxConns (ps_client s)"
    by (subst c(2), simp add: maxConns_def)+
  have "deliveries c (remove1 w (ps_waits s)) = deliveries (ps_client s) (remove1 w (ps_waits s))"
    unfolding c(2) using callers_okD(2) [OF assms(1)] by (intro deliveries_other) auto
  then show "deliveries (ps_client s) (ps_waits s) = deliveries c (remove1 w (ps_waits s)) + opt_mset conn"
    using deliveries_remove1 [OF assms(3)] c(1) by simp
qed

text \<open>
  The effect of a step on the connections: the count changes as the slots do, it grows below the
  limit only, and a connection is new or was there before.
\<close>

definition pool_effect :: "pool \<Rightarrow> pool \<Rightarrow> bool" where
  "pool_effect s t \<longleftrightarrow>
     hc_connsCount (ps_client t) - hc_connsCount (ps_client s) = int (slots t) - int (slots s)
     \<and> hc_connsCount (ps_client t) \<le> max (hc_connsCount (ps_client s)) (maxConns (ps_client t))
     \<and> (ids t \<subseteq># ids s \<and> ps_nextConn t = ps_nextConn s
        \<or> ids t = add_mset (ps_nextConn s) (ids s) \<and> ps_nextConn t = Suc (ps_nextConn s))"

lemma pick_effect:
  assumes "acquireConn_pick c cl = (a, c')"
  shows "mset (hc_conns c) = mset (hc_conns c') + (case a of GotConn cc \<Rightarrow> {#cc#} | _ \<Rightarrow> {#})"
    and "hc_connsCount c' = hc_connsCount c + (case a of MustDial b \<Rightarrow> 1 | _ \<Rightarrow> 0)"
    and "maxConns c' = maxConns c" and "deliveries c' ws = deliveries c ws"
    and "\<And>b. a = MustDial b \<Longrightarrow> hc_connsCount c < maxConns c"
proof -
  have "mset (take (length l - 1) l) + {#l ! (length l - 1)#} = mset l" if "l \<noteq> []" for l :: "clientConn list"
    using that by (cases l rule: rev_cases) auto
  then show "mset (hc_conns c) = mset (hc_conns c') + (case a of GotConn cc \<Rightarrow> {#cc#} | _ \<Rightarrow> {#})"
    using assms by (auto simp: acquireConn_pick_def Let_def split: if_splits)
qed (use assms in \<open>auto simp: acquireConn_pick_def maxConns_def Let_def split: if_splits\<close>)

lemma pool_effect_step:
  assumes "callers_ok s" and "pool_step s e t"
  shows "pool_effect s t"
  using assms(2)
proof (cases rule: pool_step.cases)
  case (acquired cl cc c)
  show ?thesis using pick_effect [OF acquired(4)] by (auto simp: pool_effect_def acquired(2) slots_def ids_def held_def)
next
  case (dialing cl b c)
  show ?thesis using pick_effect [OF dialing(4)] by (auto simp: pool_effect_def dialing(2) slots_def ids_def held_def)
next
  case (asking cl c reqTimeout)
  show ?thesis using pick_effect [OF asking(4)] by (auto simp: pool_effect_def asking(2) slots_def ids_def held_def)
next
  case (queued n w)
  have c: "hc_wants (queueForIdle (ps_client s) w) = (hc_wants (ps_client s))(w := newWantConn)"
    "hc_conns (queueForIdle (ps_client s) w) = hc_conns (ps_client s)"
    "hc_connsCount (queueForIdle (ps_client s) w) = hc_connsCount (ps_client s)"
    "maxConns (queueForIdle (ps_client s) w) = maxConns (ps_client s)"
    by (auto simp: queueForIdle_def maxConns_def Let_def split: prod.splits)
  have "w \<notin> set (ps_waits s)" using callers_okD(5) [OF assms(1), of w] queued(5) by auto
  then have "deliveries (queueForIdle (ps_client s) w) (ps_waits s) = deliveries (ps_client s) (ps_waits s)"
    by (intro deliveries_other) (auto simp: c)
  then have "deliveries (queueForIdle (ps_client s) w) (ps_waits s @ [w]) = deliveries (ps_client s) (ps_waits s)"
    by (simp add: deliveries_def c)
  with c show ?thesis by (simp add: pool_effect_def queued(2) slots_def ids_def held_def)
next
  case (dialed_ok n now)
  show ?thesis by (simp add: pool_effect_def dialed_ok(2,3) slots_def ids_def held_def acquireClientConn_def)
next
  case (dial_failed n)
  show ?thesis by (simp add: pool_effect_def dial_failed(2,3) slots_def ids_def held_def)
next
  case (uncounted n w c)
  have q: "queue_ok (ps_client s)" by (rule callers_okD(3) [OF assms(1)])
  show ?thesis
    by (rule decConnsCount_Ret [OF uncounted(5) q])
      (auto simp: uncounted(2,4) pool_effect_def slots_def ids_def held_def maxConns_def split: option.splits)
next
  case (dialed_for w now)
  obtain M where "ps_dialFor s = add_mset w M" using dialed_for(3) by (metis multi_member_split)
  then show ?thesis by (simp add: pool_effect_def dialed_for(2) slots_def ids_def held_def acquireClientConn_def)
next
  case (delivered_dial w cc delivered c now)
  have w: "w < ps_nextWant s" using delivered_dial(3) by (intro callers_okD(6) [OF assms(1)]) (auto simp: known_iff)
  obtain M where M: "ps_dialed s = add_mset (w, cc) M" using delivered_dial(3) by (metis multi_member_split)
  show ?thesis
    using deliver_deliveries [OF assms(1) delivered_dial(4) _ w]
    by (simp add: pool_effect_def delivered_dial(2) slots_def ids_def held_def M)
next
  case (dial_for_failed w delivered c)
  have w: "w < ps_nextWant s" using dial_for_failed(3) by (intro callers_okD(6) [OF assms(1)]) (auto simp: known_iff)
  obtain M where M: "ps_dialFor s = add_mset w M" using dial_for_failed(3) by (metis multi_member_split)
  show ?thesis
    using deliver_deliveries [OF assms(1) dial_for_failed(4) _ w]
    by (simp add: pool_effect_def dial_for_failed(2) slots_def ids_def held_def M)
next
  case (released cc now)
  obtain M where M: "ps_using s = add_mset cc M" using released(3) by (metis multi_member_split)
  show ?thesis by (simp add: pool_effect_def released(2) slots_def ids_def held_def M)
next
  case (closed cc)
  obtain M where M: "ps_using s = add_mset cc M" using closed(3) by (metis multi_member_split)
  show ?thesis by (simp add: pool_effect_def closed(2) slots_def ids_def held_def M)
next
  case (picked cc w c)
  have q: "queue_ok (ps_client s)" by (rule callers_okD(3) [OF assms(1)])
  obtain M where M: "ps_releasing s = add_mset cc M" using picked(4) by (metis multi_member_split)
  show ?thesis
    by (rule releaseConn_pick_Ret [OF picked(5) q])
      (auto simp: picked(2,3) pool_effect_def slots_def ids_def held_def maxConns_def M)
next
  case (handed w cc c)
  have w: "w < ps_nextWant s" using handed(3) by (intro callers_okD(6) [OF assms(1)]) (auto simp: known_iff)
  obtain d c1 where c1: "HostClient_tryDeliver (ps_client s) w (Some cc) None = Ret (d, c1)"
    "c = (if d then c1 else c1\<lparr>hc_conns := hc_conns c1 @ [cc]\<rparr>)"
    using handed(4) by (auto simp: releaseConn_deliver_def split: panics.splits prod.splits)
  show ?thesis
    using deliver_deliveries [OF assms(1) c1(1) _ w]
    by (auto simp: pool_effect_def handed(2,3) slots_def ids_def held_def c1(2) maxConns_def)
next
  case (taken w cc)
  show ?thesis using deliveries_remove1 [OF taken(3)] taken(6)
    by (simp add: pool_effect_def taken(2) slots_def ids_def held_def)
next
  case (took_error w e' conn c now)
  show ?thesis using cancel_deliveries [OF assms(1) took_error(6,3)]
    by (cases conn) (simp_all add: pool_effect_def took_error(2) slots_def ids_def held_def)
next
  case (timed_out w reqTimeout d e' conn c now)
  show ?thesis using cancel_deliveries [OF assms(1) timed_out(5,3)]
    by (cases conn) (simp_all add: pool_effect_def timed_out(2) slots_def ids_def held_def)
next
  case (idle_closed ccs c)
  then show ?thesis
    by (auto simp: CloseIdleConnections_def pool_effect_def slots_def ids_def held_def maxConns_def)
next
  case (cleaned now ccs d c)
  define i where "i = length (takeWhile (\<lambda>cc. now - cc_lastUseTime cc > maxIdleConnDuration (ps_client s)) (hc_conns (ps_client s)))"
  have c: "ccs = take i (hc_conns (ps_client s))" "c = (ps_client s)\<lparr>hc_conns := drop i (hc_conns (ps_client s))\<rparr>"
    using cleaned(4) by (simp_all add: connsCleaner_round_def Let_def i_def)
  have "mset (hc_conns (ps_client s)) = mset ccs + mset (drop i (hc_conns (ps_client s)))"
    unfolding c(1) by (metis append_take_drop_id mset_append)
  then show ?thesis
    by (simp add: pool_effect_def slots_def ids_def held_def maxConns_def cleaned(2) c(2))
next
  case (cleaner_stopped b c)
  then show ?thesis by (auto simp: connsCleaner_stop_def Let_def pool_effect_def slots_def ids_def held_def maxConns_def)
next
  case (max_set n)
  then show ?thesis by (simp add: HostClient_SetMaxConns_def pool_effect_def slots_def ids_def held_def)
qed


section \<open>Properties\<close>

text \<open>\<open>M\<close> bounds the limit that is set, now or later.\<close>

definition pool_begin :: "int \<Rightarrow> pool \<Rightarrow> bool" where
  "pool_begin M s \<longleftrightarrow> pool_start s \<and> maxConns (ps_client s) \<le> M"

definition pool_within :: "int \<Rightarrow> pool \<Rightarrow> pool_event \<Rightarrow> pool \<Rightarrow> bool" where
  "pool_within M s e t \<longleftrightarrow> pool_step s e t \<and> maxConns (ps_client t) \<le> M"

definition pool_inv :: "int \<Rightarrow> pool \<Rightarrow> bool" where
  "pool_inv M s \<longleftrightarrow> callers_ok s \<and> hc_connsCount (ps_client s) = int (slots s) \<and> hc_connsCount (ps_client s) \<le> M
     \<and> (\<forall>i. count (ids s) i \<le> 1) \<and> (\<forall>i. i \<in># ids s \<longrightarrow> i < ps_nextConn s)"

lemma maxConns_pos: "0 < maxConns c"
  by (simp add: maxConns_def DefaultMaxConnsPerHost_def)

interpretation cp: event_system "pool_begin M" "pool_within M" "pool_inv M" for M
proof
  fix s assume "pool_begin M s"
  then show "pool_inv M s" using callers_ok_start [of s] maxConns_pos [of "ps_client s"]
    by (simp add: pool_begin_def pool_inv_def pool_start_def slots_def ids_def held_def deliveries_def)
next
  fix s e t assume inv: "pool_inv M s" and "pool_within M s e t"
  then have step: "pool_step s e t" "maxConns (ps_client t) \<le> M" by (simp_all add: pool_within_def)
  have ok: "callers_ok s" using inv by (simp add: pool_inv_def)
  note eff = pool_effect_step [OF ok step(1), unfolded pool_effect_def]
  have new: "count (ids s) (ps_nextConn s) = 0" using inv by (auto simp: pool_inv_def not_in_iff [symmetric])
  have "(\<forall>i. count (ids t) i \<le> 1) \<and> (\<forall>i. i \<in># ids t \<longrightarrow> i < ps_nextConn t)"
  proof (cases "ids t \<subseteq># ids s \<and> ps_nextConn t = ps_nextConn s")
    case True
    then show ?thesis using inv unfolding pool_inv_def by (metis mset_subset_eqD mset_subset_eq_count order_trans)
  next
    case False
    then have "ids t = add_mset (ps_nextConn s) (ids s)" "ps_nextConn t = Suc (ps_nextConn s)" using eff by auto
    then show ?thesis using inv new by (auto simp: pool_inv_def less_Suc_eq)
  qed
  then show "pool_inv M t"
    using eff inv callers_ok_step [OF ok step(1)] step(2) by (auto simp: pool_inv_def)
qed

abbreviation pool_reachable :: "int \<Rightarrow> pool \<Rightarrow> bool" where
  "pool_reachable M \<equiv> reachable (pool_begin M) (pool_within M)"

lemma reachable_callers: "pool_reachable M s \<Longrightarrow> callers_ok s"
  by (drule cp.reachable_inv) (simp add: pool_inv_def)

text \<open>The operations under the locks never panic.\<close>

lemma popWaiting_no_panic: "queue_ok c \<Longrightarrow> popWaiting c \<noteq> Panic"
  by (rule popWaiting_spec [of c]) auto

lemma pool_no_panic:
  assumes "callers_ok s"
  shows "decConnsCount (ps_client s) \<noteq> Panic" and "releaseConn_pick (ps_client s) cc \<noteq> Panic"
    and "releaseConn_deliver (ps_client s) cc w \<noteq> Panic"
    and "HostClient_tryDeliver (ps_client s) w (Some cc) None \<noteq> Panic"
    and "HostClient_tryDeliver (ps_client s) w None (Some e) \<noteq> Panic"
    and "HostClient_cancel (ps_client s) w e \<noteq> Panic"
proof -
  note ok = callers_okD(1) [OF assms, of w]
  have p: "popWaiting (ps_client s) \<noteq> Panic" by (rule popWaiting_no_panic [OF callers_okD(3) [OF assms]])
  show "decConnsCount (ps_client s) \<noteq> Panic" "releaseConn_pick (ps_client s) cc \<noteq> Panic" using p
    by (auto simp: decConnsCount_def releaseConn_pick_def split: panics.splits option.splits)
  show 1: "HostClient_tryDeliver (ps_client s) w (Some cc) None \<noteq> Panic"
    "HostClient_tryDeliver (ps_client s) w None (Some e) \<noteq> Panic"
    using tryDeliver_ok [OF ok, of "Some cc" None] tryDeliver_ok [OF ok, of None "Some e"]
    by (simp_all add: HostClient_tryDeliver_def)
  show "releaseConn_deliver (ps_client s) cc w \<noteq> Panic" using 1(1)
    by (auto simp: releaseConn_deliver_def split: panics.splits prod.splits)
  show "HostClient_cancel (ps_client s) w e \<noteq> Panic" using cancel_ok [OF ok, of e] by (simp add: HostClient_cancel_def)
qed

end
