(* ===== verification/ConnPoolProps.thy ===== *)
theory ConnPoolProps
  imports ConnPoolInv
begin

text \<open>
  What the connection pool promises its callers, runs of small pools, and the cleaner of idle
  connections.
\<close>


text \<open>The steps by which connections come back: holders release, and callers take what they are given.\<close>

inductive hand_over :: "pool \<Rightarrow> pool \<Rightarrow> bool" where
  stay: "hand_over s s"
| move: "pool_step s e t \<Longrightarrow> e \<in> {Released, Picked} \<union> range Handed \<union> range Taken \<Longrightarrow> hand_over t u \<Longrightarrow> hand_over s u"

text \<open>A holder releases its connection: the first caller of the queue that still waits has it.\<close>

lemma first_waiter_gets:
  assumes ok: "callers_ok s" and s: "ps_lock s = None" "cc \<in># ps_using s" "hc_MaxConnWaitTimeout (ps_client s) > 0"
    and v: "find (waitsStill (ps_client s)) (waitItems (ps_client s)) = Some v"
  obtains t where "callers_ok t" and "\<And>u. hand_over t u \<Longrightarrow> hand_over s u"
    and "wc_conn (hc_wants (ps_client t) v) = Some (cc\<lparr>cc_lastUseTime := now\<rparr>)" and "\<not> waitsStill (ps_client t) v"
    and "wc_err (hc_wants (ps_client t) v) = None" and "v \<in> set (ps_waits t)" and "ps_lock t = None"
    and "ps_waits t = ps_waits s" and "\<And>w. w \<noteq> v \<Longrightarrow> waitsStill (ps_client t) w = waitsStill (ps_client s) w"
    and "hc_MaxConnWaitTimeout (ps_client t) = hc_MaxConnWaitTimeout (ps_client s)"
    and "waitItems (ps_client t) = tl (dropWhile (\<lambda>w. \<not> waitsStill (ps_client s) w) (waitItems (ps_client s)))"
proof -
  let ?cc = "cc\<lparr>cc_lastUseTime := now\<rparr>" and ?c = "ps_client s"
  define s1 where "s1 = s\<lparr>ps_using := ps_using s - {#cc#}, ps_releasing := add_mset ?cc (ps_releasing s)\<rparr>"
  have st1: "pool_step s Released s1" unfolding s1_def by (rule pool_step.released) (rule s)
  have c1: "ps_client s1 = ?c" "ps_lock s1 = None" "?cc \<in># ps_releasing s1" "ps_waits s1 = ps_waits s" using s(1) by (simp_all add: s1_def)
  obtain c where c: "popWaiting ?c = Ret (Some v, c)" "c = ?c\<lparr>hc_connsWait := hc_connsWait c\<rparr>"
    "waitItems c = tl (dropWhile (\<lambda>w. \<not> waitsStill ?c w) (waitItems ?c))"
    using popWaiting_spec [OF callers_okD(3) [OF ok]] v by metis
  define s2 where "s2 = s1\<lparr>ps_client := c, ps_releasing := ps_releasing s1 - {#?cc#}, ps_lock := map_option (\<lambda>w. (w, ?cc)) (Some v)\<rparr>"
  have "releaseConn_pick (ps_client s1) ?cc = Ret (Some v, c)" using s(3) c(1) by (simp add: releaseConn_pick_def c1(1))
  then have st2: "pool_step s1 Picked s2" unfolding s2_def by (intro pool_step.picked) (use c1 in simp_all)
  have ok2: "callers_ok s2" using callers_ok_step [OF callers_ok_step [OF ok st1] st2] .
  have wants: "hc_wants c = hc_wants ?c" "hc_MaxConnWaitTimeout c = hc_MaxConnWaitTimeout ?c" by (subst c(2), simp)+
  have vw: "waitsStill c v" using v by (auto simp: find_Some_iff waitsStill_def wants)
  have v_known: "v \<in> set (waitItems ?c)" using v by (auto simp: find_Some_iff)
  have vin: "v \<in> set (ps_waits s)"
    using callers_okD(4,6) [OF ok, of v] v_known vw by (simp add: known_iff waitsStill_def wants)
  have okc: "wantConn_ok (hc_wants c v)" using callers_okD(1) [OF ok] by (simp add: wants)
  let ?w = "(hc_wants c v)\<lparr>wc_conn := Some ?cc, wc_err := None, wc_ready := True\<rparr>"
  let ?c3 = "c\<lparr>hc_wants := (hc_wants c)(v := ?w)\<rparr>"
  have "releaseConn_deliver (ps_client s2) ?cc v = Ret ?c3"
    using tryDeliver_ok [OF okc, of "Some ?cc" None] vw
    by (simp add: s2_def releaseConn_deliver_def HostClient_tryDeliver_def waitsStill_def)
  then have st3: "pool_step s2 (Handed v) (s2\<lparr>ps_client := ?c3, ps_lock := None\<rparr>)"
    by (intro pool_step.handed [where cc = ?cc]) (simp_all add: s2_def)
  let ?t = "s2\<lparr>ps_client := ?c3, ps_lock := None\<rparr>"
  show thesis
  proof (rule that [of ?t])
    show "callers_ok ?t" by (rule callers_ok_step [OF ok2 st3])
    show "hand_over s u" if "hand_over ?t u" for u
      by (rule hand_over.move [OF st1 _ hand_over.move [OF st2 _ hand_over.move [OF st3 _ that]]]) auto
    show "waitsStill (ps_client ?t) w = waitsStill ?c w" if "w \<noteq> v" for w using that by (simp add: waitsStill_def wants)
  qed (use vin c(3) in \<open>simp_all add: s2_def s1_def waitsStill_def waiting_def wants\<close>)
qed

text \<open>The caller takes the connection and has it in use.\<close>

lemma takes:
  assumes "callers_ok s" and "v \<in> set (ps_waits s)" and "\<not> waitsStill (ps_client s) v"
    and "wc_err (hc_wants (ps_client s) v) = None" and "wc_conn (hc_wants (ps_client s) v) = Some cc"
  obtains t where "callers_ok t" and "\<And>u. hand_over t u \<Longrightarrow> hand_over s u" and "cc \<in># ps_using t"
    and "ps_lock t = ps_lock s" and "ps_client t = ps_client s"
proof -
  let ?t = "s\<lparr>ps_waits := remove1 v (ps_waits s), ps_using := add_mset cc (ps_using s)\<rparr>"
  have st: "pool_step s (Taken v) ?t" by (rule pool_step.taken) (use assms in \<open>simp_all add: waitsStill_def\<close>)
  show thesis
    by (rule that [of ?t]) (auto intro: callers_ok_step [OF assms(1) st] hand_over.move [OF st])
qed

lemma dropWhile_keeps: "x \<in> set xs \<Longrightarrow> \<not> P x \<Longrightarrow> x \<in> set (dropWhile P xs)"
  by (induction xs) auto

lemma queued_caller_served:
  assumes "callers_ok s" and "ps_lock s = None" and "ps_using s \<noteq> {#}" and "hc_MaxConnWaitTimeout (ps_client s) > 0"
    and "w \<in> set (waitItems (ps_client s))" and "waitsStill (ps_client s) w"
  shows "\<exists>t. hand_over s t \<and> wc_conn (hc_wants (ps_client t) w) \<noteq> None \<and> w \<in> set (ps_waits t)"
  using assms
proof (induction "length (waitItems (ps_client s))" arbitrary: s rule: less_induct)
  case less
  obtain cc where cc: "cc \<in># ps_using s" using less(4) by blast
  obtain v where v: "find (waitsStill (ps_client s)) (waitItems (ps_client s)) = Some v"
    using less(6,7) by (cases "find (waitsStill (ps_client s)) (waitItems (ps_client s))") (auto simp: find_None_iff)
  show ?case
  proof (rule first_waiter_gets [OF less(2,3) cc less(5) v, of 0])
  fix t
  assume t: "callers_ok t" "\<And>u. hand_over t u \<Longrightarrow> hand_over s u"
    "wc_conn (hc_wants (ps_client t) v) = Some (cc\<lparr>cc_lastUseTime := 0\<rparr>)" "\<not> waitsStill (ps_client t) v"
    "wc_err (hc_wants (ps_client t) v) = None" "v \<in> set (ps_waits t)" "ps_lock t = None" "ps_waits t = ps_waits s"
    "\<And>w. w \<noteq> v \<Longrightarrow> waitsStill (ps_client t) w = waitsStill (ps_client s) w"
    "hc_MaxConnWaitTimeout (ps_client t) = hc_MaxConnWaitTimeout (ps_client s)"
    "waitItems (ps_client t) = tl (dropWhile (\<lambda>w. \<not> waitsStill (ps_client s) w) (waitItems (ps_client s)))"
  show ?thesis
  proof (cases "w = v")
    case True
    then show ?thesis using t(2) [OF hand_over.stay] t(3,6) by blast
  next
    case False
    obtain t' where t': "callers_ok t'" "\<And>u. hand_over t' u \<Longrightarrow> hand_over t u" "cc\<lparr>cc_lastUseTime := 0\<rparr> \<in># ps_using t'"
      "ps_lock t' = ps_lock t" "ps_client t' = ps_client t" by (rule takes [OF t(1,6,4,5,3)]) blast
    let ?d = "dropWhile (\<lambda>w. \<not> waitsStill (ps_client s) w) (waitItems (ps_client s))"
    have wd: "w \<in> set ?d" by (rule dropWhile_keeps [OF less(6)]) (simp add: less(7))
    then obtain a ws where d: "?d = a # ws" by (cases ?d) auto
    have "a = v" using v d by (simp add: find_dropWhile comp_def)
    then have w: "w \<in> set (waitItems (ps_client t'))" using False d wd t(11) t'(5) by simp
    have "length ?d \<le> length (waitItems (ps_client s))" by (rule length_dropWhile_le)
    then have len: "length (waitItems (ps_client t')) < length (waitItems (ps_client s))" using d t(11) t'(5) by simp
    have ne: "ps_using t' \<noteq> {#}" using t'(3) by auto
    have "ps_lock t' = None" "hc_MaxConnWaitTimeout (ps_client t') > 0" "waitsStill (ps_client t') w"
      using t'(4,5) t(7,9,10) False less(5,7) by simp_all
    from less(1) [OF len t'(1) this(1) ne this(2) w this(3)] t'(2) t(2) show ?thesis by blast
  qed
  qed
qed


text \<open>Runs of a client with one connection, whose callers wait five nanoseconds.\<close>

definition ex_conn :: "int \<Rightarrow> clientConn" where
  "ex_conn t = \<lparr>cc_c = 0, cc_createdTime = 0, cc_lastUseTime = t\<rparr>"

definition ex_client ::
  "int \<Rightarrow> clientConn list \<Rightarrow> nat wantConnQueue option \<Rightarrow> (nat \<Rightarrow> (clientConn, acquire_err) wantConn) \<Rightarrow> HostClient" where
  "ex_client n conns q wants = \<lparr>hc_MaxConns = 1, hc_MaxConnWaitTimeout = 5, hc_MaxIdleConnDuration = 0, hc_conns = conns,
     hc_connsCount = n, hc_connsCleanerRun = (n > 0), hc_connsWait = q, hc_wants = wants\<rparr>"

definition ex_pool ::
  "HostClient \<Rightarrow> (nat \<times> clientConn) option \<Rightarrow> clientConn multiset \<Rightarrow> nat \<Rightarrow> nat \<Rightarrow> nat list \<Rightarrow> clientConn multiset \<Rightarrow> nat \<Rightarrow> nat
     \<Rightarrow> pool" where
  "ex_pool c l u d a ws r i w = \<lparr>ps_client = c, ps_lock = l, ps_using = u, ps_dialing = d, ps_asking = a, ps_waits = ws,
     ps_dialFor = {#}, ps_dialed = {#}, ps_releasing = r, ps_closing = 0, ps_nextConn = i, ps_nextWant = w\<rparr>"

abbreviation (input) none_wants :: "nat \<Rightarrow> (clientConn, acquire_err) wantConn" where
  "none_wants \<equiv> \<lambda>_. newWantConn"

definition ex_busy :: pool where
  "ex_busy = ex_pool (ex_client 1 [] None none_wants) None {#ex_conn 0#} 0 1 [] {#} 1 0"

definition ex_queue :: "nat list \<Rightarrow> nat wantConnQueue" where
  "ex_queue ws = \<lparr>wq_head = [], wq_headPos = 0, wq_tail = ws\<rparr>"

definition ex_queued :: pool where
  "ex_queued = ex_pool (ex_client 1 [] (Some (ex_queue [0])) none_wants) None {#ex_conn 0#} 0 0 [0] {#} 1 1"

lemma ex_move:
  assumes "pool_reachable 1 s" and "pool_step s e t'" and "t' = t" and "maxConns (ps_client t) \<le> 1"
  shows "pool_reachable 1 t"
  by (rule reach_step [OF assms(1), of e]) (use assms in \<open>simp add: pool_within_def\<close>)

lemmas ex_defs = ex_pool_def ex_client_def ex_conn_def ex_queue_def maxConns_def Let_def

lemma ex_busy_reachable: "pool_reachable 1 ex_busy"
proof -
  have 0: "pool_reachable 1 (ex_pool (ex_client 0 [] None none_wants) None {#} 0 0 [] {#} 0 0)"
    by (rule reach_start) (simp add: pool_begin_def pool_start_def ex_defs)
  have 1: "pool_reachable 1 (ex_pool (ex_client 1 [] None none_wants) None {#} 1 0 [] {#} 0 0)"
    by (rule ex_move [OF 0 pool_step.dialing [where cl = False and b = True]]) (simp add: ex_defs acquireConn_pick_def)+
  have 2: "pool_reachable 1 (ex_pool (ex_client 1 [] None none_wants) None {#ex_conn 0#} 0 0 [] {#} 1 0)"
    by (rule ex_move [OF 1 pool_step.dialed_ok [where n = 0 and now = 0]]) (simp add: ex_defs acquireClientConn_def)+
  show ?thesis unfolding ex_busy_def
    by (rule ex_move [OF 2 pool_step.asking [where cl = False and reqTimeout = 0]])
      (simp add: ex_defs acquireConn_pick_def acquireConn_wait_def)+
qed

lemma ex_clearFront:
  "clearFront P newQueue = (False, newQueue)" "P 0 \<Longrightarrow> clearFront P (ex_queue [0]) = (False, ex_queue [0])"
  by (simp_all add: clearFront.simps peekFront_def newQueue_def ex_queue_def)

lemma ex_queued_reachable: "pool_reachable 1 ex_queued"
  unfolding ex_queued_def
  by (rule ex_move [OF ex_busy_reachable pool_step.queued [where n = 0 and w = 0]])
    (simp add: ex_busy_def ex_defs queueForIdle_def ex_clearFront [unfolded newQueue_def ex_queue_def] pushBack_def newQueue_def fun_upd_idem)+

text \<open>A connection becomes idle between the moment when a caller finds none and the moment when it is queued.\<close>

definition ex_idle_first :: pool where
  "ex_idle_first = ex_pool (ex_client 1 [ex_conn 0] (Some (ex_queue [0])) none_wants) None {#} 0 0 [0] {#} 1 1"

lemma ex_idle_first_reachable: "pool_reachable 1 ex_idle_first"
proof -
  have 1: "pool_reachable 1 (ex_pool (ex_client 1 [] None none_wants) None {#} 0 1 [] {#ex_conn 0#} 1 0)"
    by (rule ex_move [OF ex_busy_reachable pool_step.released [where now = 0 and cc = "ex_conn 0"]])
      (simp add: ex_busy_def ex_defs)+
  have 2: "pool_reachable 1 (ex_pool (ex_client 1 [ex_conn 0] None none_wants) None {#} 0 1 [] {#} 1 0)"
    by (rule ex_move [OF 1 pool_step.picked [where cc = "ex_conn 0" and w = None]])
      (simp add: ex_defs releaseConn_pick_def popWaiting_def)+
  show ?thesis unfolding ex_idle_first_def
    by (rule ex_move [OF 2 pool_step.queued [where n = 0 and w = 0]])
      (simp add: ex_defs queueForIdle_def ex_clearFront [unfolded newQueue_def ex_queue_def] pushBack_def newQueue_def fun_upd_idem)+
qed

text \<open>The caller that was picked gives up before it is handed the connection.\<close>

definition ex_gave_up :: "(clientConn, acquire_err) wantConn" where
  "ex_gave_up = newWantConn\<lparr>wc_err := Some ErrNoFreeConns, wc_ready := True\<rparr>"

definition ex_picked_gone :: pool where
  "ex_picked_gone = ex_pool (ex_client 1 [ex_conn 0] (Some \<lparr>wq_head = [None, Some 1], wq_headPos = 1, wq_tail = []\<rparr>)
     (none_wants(0 := ex_gave_up))) None {#} 0 0 [1] {#} 1 2"

lemma ex_picked_gone_reachable: "pool_reachable 1 ex_picked_gone"
proof -
  let ?q = "\<lparr>wq_head = [None, Some 1], wq_headPos = 1, wq_tail = []\<rparr> :: nat wantConnQueue"
  have 1: "pool_reachable 1 (ex_pool (ex_client 1 [] (Some (ex_queue [0])) none_wants) None {#ex_conn 0#} 0 1 [0] {#} 1 1)"
    by (rule ex_move [OF ex_queued_reachable pool_step.asking [where cl = False and reqTimeout = 0]])
      (simp add: ex_queued_def ex_defs acquireConn_pick_def acquireConn_wait_def)+
  have 2: "pool_reachable 1 (ex_pool (ex_client 1 [] (Some (ex_queue [0, 1])) none_wants) None {#ex_conn 0#} 0 0 [0, 1] {#} 1 2)"
    by (rule ex_move [OF 1 pool_step.queued [where n = 0 and w = 1]])
      (simp add: ex_defs queueForIdle_def ex_clearFront [unfolded newQueue_def ex_queue_def] pushBack_def fun_upd_idem)+
  have 3: "pool_reachable 1 (ex_pool (ex_client 1 [] (Some (ex_queue [0, 1])) none_wants) None {#} 0 0 [0, 1] {#ex_conn 0#} 1 2)"
    by (rule ex_move [OF 2 pool_step.released [where now = 0 and cc = "ex_conn 0"]]) (simp add: ex_defs)+
  have 4: "pool_reachable 1 (ex_pool (ex_client 1 [] (Some ?q) none_wants) (Some (0, ex_conn 0)) {#} 0 0 [0, 1] {#} 1 2)"
    by (rule ex_move [OF 3 pool_step.picked [where cc = "ex_conn 0" and w = "Some 0"]])
      (simp add: ex_defs releaseConn_pick_def popWaiting_def nextWaiter.simps wantConnQueue_len_def popFront_def)+
  have 5: "pool_reachable 1 (ex_pool (ex_client 1 [] (Some ?q) (none_wants(0 := ex_gave_up))) (Some (0, ex_conn 0)) {#} 0 0 [1] {#} 1 2)"
    by (rule ex_move [OF 4 pool_step.timed_out [where w = 0 and reqTimeout = 0 and t = 5 and e = ErrNoFreeConns and conn = None]])
      (simp add: ex_defs acquireConn_wait_def HostClient_cancel_def wantConn_cancel_def wc_close_def newWantConn_def ex_gave_up_def)+
  show ?thesis unfolding ex_picked_gone_def
    by (rule ex_move [OF 5 pool_step.handed [where w = 0 and cc = "ex_conn 0"]])
      (simp add: ex_defs releaseConn_deliver_def HostClient_tryDeliver_def tryDeliver_def ex_gave_up_def fun_upd_idem)+
qed


text \<open>
  C8. However callers, dials, timeouts, deliveries and the cleaner interleave: the count of the client is
  exactly the number of connections, of dials under way and of slots about to be given up; it never
  exceeds the limit; no connection is in two places at once, so none is used by two callers; and no
  operation under the locks panics.
\<close>

theorem connection_pool_exact:
  assumes "pool_reachable M s"
  shows "HostClient_ConnsCount (ps_client s) = int (slots s) \<and> int (slots s) \<le> M \<and> count (ids s) i \<le> 1
    \<and> decConnsCount (ps_client s) \<noteq> Panic \<and> releaseConn_pick (ps_client s) cc \<noteq> Panic
    \<and> releaseConn_deliver (ps_client s) cc w \<noteq> Panic \<and> HostClient_cancel (ps_client s) w err \<noteq> Panic"
  using cp.reachable_inv [OF assms]
  by (simp add: pool_inv_def HostClient_ConnsCount_def pool_no_panic [OF reachable_callers [OF assms]])

theorem connection_pool_exact_witness:
  "HostClient_ConnsCount (ps_client ex_queued) = int (slots ex_queued) \<and> slots ex_queued = 1 \<and> count (ids ex_queued) 0 = 1"
proof -
  have "slots ex_queued = 1" "count (ids ex_queued) 0 = 1"
    by (simp_all add: slots_def ids_def held_def deliveries_def ex_queued_def ex_defs newWantConn_def)
  then show ?thesis using connection_pool_exact [OF ex_queued_reachable] by simp
qed

text \<open>
  A queued caller gets a connection as long as connections come back: from any reachable state in which
  it waits and some connection is in use, there is a run in which holders only release what they
  have, and the callers ahead of it take what they are given, that delivers a connection to it.
\<close>

theorem queued_caller_gets_connection:
  assumes "pool_reachable M s" and "ps_lock s = None" and "ps_using s \<noteq> {#}" and "hc_MaxConnWaitTimeout (ps_client s) > 0"
    and "w \<in> set (waitItems (ps_client s))" and "waiting (hc_wants (ps_client s) w)"
  shows "\<exists>t. hand_over s t \<and> wc_conn (hc_wants (ps_client t) w) \<noteq> None \<and> w \<in> set (ps_waits t)"
  using queued_caller_served [OF reachable_callers [OF assms(1)] assms(2-5)] assms(6) by (simp add: waitsStill_def)

theorem queued_caller_gets_connection_witness:
  "waiting (hc_wants (ps_client ex_queued) 0)
    \<and> (\<exists>t. hand_over ex_queued t \<and> wc_conn (hc_wants (ps_client t) 0) \<noteq> None \<and> 0 \<in> set (ps_waits t))"
proof -
  have "ps_lock ex_queued = None" "ps_using ex_queued \<noteq> {#}" "hc_MaxConnWaitTimeout (ps_client ex_queued) > 0"
    "0 \<in> set (waitItems (ps_client ex_queued))" "waiting (hc_wants (ps_client ex_queued) 0)"
    by (simp_all add: ex_queued_def ex_defs waitItems_def wq_items_def)
  with queued_caller_gets_connection [OF ex_queued_reachable this] show ?thesis by simp
qed

definition left_behind :: "pool \<Rightarrow> nat \<Rightarrow> bool" where
  "left_behind s w \<longleftrightarrow> hc_conns (ps_client s) \<noteq> [] \<and> w \<in> set (ps_waits s) \<and> waiting (hc_wants (ps_client s) w)
     \<and> ps_lock s = None \<and> ps_using s = {#} \<and> ps_dialing s = 0 \<and> ps_asking s = 0 \<and> ps_dialFor s = {#} \<and> ps_dialed s = {#}
     \<and> ps_releasing s = {#} \<and> ps_closing s = 0"

text \<open>
  But a caller can be left behind: there are reachable states in which a connection is idle and nothing
  else is under way, and a caller waits in the queue until its timeout, or until somebody else uses
  the connection. The connection was given back after the caller had found none and before it was
  queued; or it was handed to another caller that gave up after it was picked.
\<close>

theorem callers_left_behind:
  "pool_reachable 1 ex_idle_first \<and> left_behind ex_idle_first 0 \<and> pool_reachable 1 ex_picked_gone \<and> left_behind ex_picked_gone 1"
  using ex_idle_first_reachable ex_picked_gone_reachable
  by (simp add: left_behind_def ex_idle_first_def ex_picked_gone_def ex_defs)

lemma takeWhile_sorted:
  "sorted (map f xs) \<Longrightarrow> takeWhile (\<lambda>x. (n :: int) - f x > d) xs = filter (\<lambda>x. n - f x > d) xs"
  "sorted (map f xs) \<Longrightarrow> dropWhile (\<lambda>x. n - f x > d) xs = filter (\<lambda>x. \<not> n - f x > d) xs"
proof (induction xs)
  case (Cons x xs)
  have later: "\<forall>y \<in> set xs. \<not> d < n - f y" if "sorted (map f (x # xs))" "\<not> d < n - f x"
    using that by fastforce
  { case 1
    then show ?case using later [OF 1] Cons(1) by (auto simp: filter_empty_conv) }
  { case 2
    then show ?case using later [OF 2] Cons(2) by (auto intro: filter_True [symmetric]) }
qed simp_all

text \<open>
  The cleaner, when the idle connections are in the order of their last use: it closes exactly those
  that have been idle for too long, and sleeps until the next one will have been.
\<close>

theorem connsCleaner_correct:
  assumes "sorted (map cc_lastUseTime (hc_conns c))" and "connsCleaner_round c now = (ccs, sleepFor, c')"
  defines "expired \<equiv> \<lambda>t cc. t - cc_lastUseTime cc > maxIdleConnDuration c"
  shows "ccs = filter (expired now) (hc_conns c) \<and> hc_conns c' = filter (\<lambda>cc. \<not> expired now cc) (hc_conns c)
    \<and> 0 < sleepFor \<and> (\<forall>cc \<in> set (take 1 (hc_conns c')). expired (now + sleepFor) cc)"
proof -
  let ?i = "length (takeWhile (expired now) (hc_conns c))"
  have parts: "ccs = takeWhile (expired now) (hc_conns c)" "hc_conns c' = dropWhile (expired now) (hc_conns c)"
    using assms(2) by (auto simp: connsCleaner_round_def Let_def expired_def takeWhile_eq_take [symmetric] dropWhile_eq_drop [symmetric])
  have pos: "0 < maxIdleConnDuration c" by (simp add: maxIdleConnDuration_def DefaultMaxIdleConnDuration_def)
  have sleep: "sleepFor = (if ?i < length (hc_conns c)
      then maxIdleConnDuration c - (now - cc_lastUseTime (hc_conns c ! ?i)) + 1 else maxIdleConnDuration c)"
    using assms(2) by (auto simp: connsCleaner_round_def Let_def expired_def)
  have hd: "take 1 (hc_conns c') = (if ?i < length (hc_conns c) then [hc_conns c ! ?i] else [])"
    unfolding parts(2) dropWhile_eq_drop by (auto simp: take_Suc_conv_app_nth hd_drop_conv_nth Cons_nth_drop_Suc [symmetric])
  have "\<not> expired now (hc_conns c ! ?i)" if "?i < length (hc_conns c)" by (rule nth_length_takeWhile [OF that])
  then have "0 < sleepFor" "\<forall>cc \<in> set (take 1 (hc_conns c')). expired (now + sleepFor) cc"
    using pos unfolding hd sleep expired_def by auto
  then show ?thesis using takeWhile_sorted [OF assms(1), of "maxIdleConnDuration c" now] parts by (simp add: expired_def)
qed

theorem connsCleaner_correct_witness:
  "connsCleaner_round (ex_client 2 [ex_conn 0, ex_conn 5] None none_wants) (10 * 1000000000 + 3) =
     ([ex_conn 0], 3, ex_client 2 [ex_conn 5] None none_wants)
   \<and> (0 :: int) < 3"
proof -
  have r: "connsCleaner_round (ex_client 2 [ex_conn 0, ex_conn 5] None none_wants) (10 * 1000000000 + 3) =
     ([ex_conn 0], 3, ex_client 2 [ex_conn 5] None none_wants)"
    by (simp add: connsCleaner_round_def ex_defs maxIdleConnDuration_def DefaultMaxIdleConnDuration_def)
  have "sorted (map cc_lastUseTime (hc_conns (ex_client 2 [ex_conn 0, ex_conn 5] None none_wants)))"
    by (simp add: ex_defs)
  from connsCleaner_correct [OF this r] r show ?thesis by simp
qed

end
