(* ===== verification/ClientDo.thy ===== *)
theory ClientDo
  imports ServeConn ConnPool
begin

text \<open>
  How a client does a request (\<^verbatim>\<open>client.go\<close>): one attempt on one connection
  (\<open>HostClient.doNonNilReqResp\<close>), the retries of \<open>HostClient.Do\<close>, redirects, and the addresses that are
  dialled. What an attempt meets is a record: whether a connection could be acquired, how old it is,
  which deadlines fail, how many bytes the peer takes and what it sends.
\<close>


section \<open>Configuration and environment\<close>

datatype 'e client_err =
  ClientAcquire acquire_err
  | ClientIO io_err
  | ClientWrite
  | ClientMsg "'e msg_err"
  | ErrHostClientRedirectToDifferentScheme
  | ErrConnectionClosed
  | ErrTooManyRedirects
  | ErrMissingLocation
  | ClientInvalidURI

text \<open>The fields of \<open>HostClient\<close> that a request depends on, beside those of its pool.\<close>

record ('f, 'e) RequestClient =
  hd_Name :: bytes
  hd_NoDefaultUserAgentHeader :: bool
  hd_IsTLS :: bool
  hd_MaxIdemponentCallAttempts :: int
  hd_RetryIf :: "('f Request \<Rightarrow> bool) option"
  hd_Transport :: "('f Request \<Rightarrow> Response \<Rightarrow> 'e client_err option \<times> 'f Request \<times> Response) option"
  hd_ReadBufferSize :: int
  hd_ReadTimeout :: int
  hd_WriteTimeout :: int
  hd_MaxConnDuration :: int
  hd_MaxResponseBodySize :: int
  hd_DisableHeaderNamesNormalizing :: bool
  hd_DisablePathNormalizing :: bool
  hd_SecureErrorLogMessage :: bool

text \<open>
  \<open>at_flushed\<close>: how many bytes had been flushed when printing the request failed. \<open>at_reader\<close> holds the
  bytes the server sends on the connection.
\<close>

record attempt =
  at_acquire :: "acquire_err option"
  at_age :: int
  at_conn :: conn
  at_writeDeadline :: "io_err option"
  at_readDeadline :: "io_err option"
  at_flushed :: nat
  at_reader :: bufreader
  at_remoteAddr :: net_addr
  at_localAddr :: net_addr

record ('f, 'e) client_env =
  ce_Error :: "io_err \<Rightarrow> bytes"
  ce_lib :: "('f, 'e) multipart_lib"
  ce_reads :: conn_env
  ce_capacity :: nat

text \<open>What became of the connection, the bytes that were sent on it, and the bytes it still delivers to its next user.\<close>

datatype conn_use = NotAcquired | ConnClosed | ConnReleased

record exchange =
  ex_sent :: bytes
  ex_use :: conn_use
  ex_left :: bytes

text \<open>What a reader leaves on its connection: what it has buffered is lost with it.\<close>

definition unread :: "bufreader \<Rightarrow> bytes" where
  "unread r = drop (br_buffered r) (rd_data r)"

definition not_acquired :: exchange where
  "not_acquired = \<lparr>ex_sent = [], ex_use = NotAcquired, ex_left = []\<rparr>"


section \<open>One attempt\<close>

definition getClientName :: "('f, 'e) RequestClient \<Rightarrow> bytes" where
  "getClientName c =
     (if length (hd_Name c) = 0 \<and> \<not> hd_NoDefaultUserAgentHeader c then defaultUserAgent else hd_Name c)"

definition isIdempotent :: "'f Request \<Rightarrow> bool" where
  "isIdempotent req \<longleftrightarrow>
     RequestHeader_IsGet (q_Header req) \<or> RequestHeader_IsHead (q_Header req) \<or> RequestHeader_IsPut (q_Header req)"

definition client_secure :: "('f, 'e) RequestClient \<Rightarrow> 'f Request \<Rightarrow> Response \<Rightarrow> 'f Request \<times> Response" where
  "client_secure c req resp =
     (let secure = hd_SecureErrorLogMessage c in
      (req\<lparr>q_secureErrorLogMessage := secure, q_Header := (q_Header req)\<lparr>rq_secureErrorLogMessage := secure\<rparr>\<rparr>,
       resp\<lparr>p_secureErrorLogMessage := secure, p_Header := (p_Header resp)\<lparr>rs_secureErrorLogMessage := secure\<rparr>\<rparr>))"

text \<open>The request and the response before a connection is acquired.\<close>

definition client_prepare :: "('f, 'e) RequestClient \<Rightarrow> 'f Request \<Rightarrow> Response \<Rightarrow> 'f Request \<times> Response" where
  "client_prepare c req resp =
     (let customSkipBody = p_SkipBody resp;
          resp = (Response_Reset resp)\<lparr>p_SkipBody := customSkipBody\<rparr>;
          (uri, req) = Request_URI req;
          req = req\<lparr>q_uri := uri\<lparr>u_DisablePathNormalizing := hd_DisablePathNormalizing c\<rparr>\<rparr>;
          req = (if length (rq_userAgent (q_Header req)) = 0
                 then req\<lparr>q_Header := (q_Header req)\<lparr>rq_userAgent := getClientName c\<rparr>\<rparr> else req)
      in (req, resp))"

text \<open>
  The request is printed and sent. \<open>Connection: close\<close> is asked for when the connection is too old; the
  result says whether it was. The error is of printing or of the connection.
\<close>

definition client_send ::
  "('f, 'e) RequestClient \<Rightarrow> ('f, 'e) client_env \<Rightarrow> attempt \<Rightarrow> 'f Request
     \<Rightarrow> (bool \<times> bytes \<times> 'e client_err option \<times> 'f Request) panics" where
  "client_send c E a req =
     (let resetConnection = (hd_MaxConnDuration c > 0 \<and> at_age a > hd_MaxConnDuration c \<and> \<not> Request_ConnectionClose req);
          req = (if resetConnection then Request_SetConnectionClose req else req)
      in case Request_Write (ce_Error E) (ce_lib E) req of
           Panic \<Rightarrow> Panic
         | Ret (p, err, req) \<Rightarrow>
             (let req = (if resetConnection then req\<lparr>q_Header := RequestHeader_ResetConnectionClose (q_Header req)\<rparr> else req)
              in case err of
                   Some err \<Rightarrow> Ret (resetConnection, take (at_flushed a) p, Some (ClientMsg err), req)
                 | None \<Rightarrow>
                     (case conn_Write (at_conn a) [] p of
                        (ok, sent) \<Rightarrow> Ret (resetConnection, sent, if ok then None else Some ClientWrite, req))))"

definition client_reader :: "('f, 'e) RequestClient \<Rightarrow> bufreader \<Rightarrow> bufreader" where
  "client_reader c r =
     (let n = hd_ReadBufferSize c; n = (if n \<le> 0 then defaultReadBufferSize else n)
      in r\<lparr>br_size := max 16 (nat n), br_buffered := 0\<rparr>)"

text \<open>The response object before it is read into.\<close>

definition client_response :: "('f, 'e) RequestClient \<Rightarrow> 'f Request \<Rightarrow> Response \<Rightarrow> Response" where
  "client_response c req resp =
     (let resp = (if p_SkipBody resp \<or> RequestHeader_IsHead (q_Header req) then resp\<lparr>p_SkipBody := True\<rparr> else resp)
      in if hd_DisableHeaderNamesNormalizing c
         then resp\<lparr>p_Header := ResponseHeader_DisableNormalizing (p_Header resp)\<rparr> else resp)"

text \<open>The response is read; the connection is closed or given back to the pool. Results as in the source: whether to retry, and the error.\<close>

definition client_receive ::
  "('f, 'e) RequestClient \<Rightarrow> ('f, 'e) client_env \<Rightarrow> attempt \<Rightarrow> bool \<Rightarrow> bytes \<Rightarrow> 'f Request \<Rightarrow> Response
     \<Rightarrow> (bool \<times> 'e client_err option \<times> 'f Request \<times> Response \<times> exchange) panics" where
  "client_receive c E a resetConnection sent req resp =
     (case Response_ReadLimitBody (ce_reads E) (ce_capacity E) (client_response c req resp)
            (client_reader c (at_reader a)) (hd_MaxResponseBodySize c) of
        Panic \<Rightarrow> Panic
      | Ret (resp, Some err, r) \<Rightarrow>
          Ret (err \<noteq> MsgBody ErrBodyTooLarge, Some (ClientMsg err), req, resp,
               \<lparr>ex_sent = sent, ex_use = ConnClosed, ex_left = unread r\<rparr>)
      | Ret (resp, None, r) \<Rightarrow>
          Ret (False, None, req, resp,
               \<lparr>ex_sent = sent,
                ex_use = (if resetConnection \<or> Request_ConnectionClose req \<or> Response_ConnectionClose resp
                          then ConnClosed else ConnReleased),
                ex_left = unread r\<rparr>))"

definition doNonNilReqResp ::
  "('f, 'e) RequestClient \<Rightarrow> ('f, 'e) client_env \<Rightarrow> attempt \<Rightarrow> 'f Request \<Rightarrow> Response
     \<Rightarrow> (bool \<times> 'e client_err option \<times> 'f Request \<times> Response \<times> exchange) panics" where
  "doNonNilReqResp c E a req resp =
     (let (req, resp) = client_secure c req resp in
      if hd_IsTLS c \<noteq> (URI_Scheme (q_uri req) = strHTTPS) then
        Ret (False, Some ErrHostClientRedirectToDifferentScheme, req, resp, not_acquired)
      else
        (let (req, resp) = client_prepare c req resp in
         case hd_Transport c of
           Some f \<Rightarrow> (case f req resp of (err, req, resp) \<Rightarrow> Ret (err = None, err, req, resp, not_acquired))
         | None \<Rightarrow>
             (case at_acquire a of
                Some err \<Rightarrow> Ret (False, Some (ClientAcquire err), req, resp, not_acquired)
              | None \<Rightarrow>
                  (let resp = Response_parseNetConn resp (at_remoteAddr a) (at_localAddr a);
                       closed = (\<lambda>sent. \<lparr>ex_sent = sent, ex_use = ConnClosed, ex_left = rd_data (at_reader a)\<rparr>)
                   in if hd_WriteTimeout c > 0 \<and> at_writeDeadline a \<noteq> None then
                        Ret (True, map_option ClientIO (at_writeDeadline a), req, resp, closed [])
                      else
                        (case client_send c E a req of
                           Panic \<Rightarrow> Panic
                         | Ret (resetConnection, sent, Some err, req) \<Rightarrow> Ret (True, Some err, req, resp, closed sent)
                         | Ret (resetConnection, sent, None, req) \<Rightarrow>
                             if hd_ReadTimeout c > 0 \<and> at_readDeadline a \<noteq> None then
                               Ret (True, map_option ClientIO (at_readDeadline a), req, resp, closed sent)
                             else client_receive c E a resetConnection sent req resp)))))"


section \<open>Retries\<close>

definition client_EOF :: "'e client_err \<Rightarrow> bool" where
  "client_EOF err \<longleftrightarrow> (case err of ClientIO e \<Rightarrow> e = EOF | ClientMsg m \<Rightarrow> is_EOF m | _ \<Rightarrow> False)"

definition DefaultMaxIdemponentCallAttempts :: int where
  "DefaultMaxIdemponentCallAttempts = 5"

definition maxAttempts :: "('f, 'e) RequestClient \<Rightarrow> int" where
  "maxAttempts c =
     (if hd_MaxIdemponentCallAttempts c \<le> 0 then DefaultMaxIdemponentCallAttempts else hd_MaxIdemponentCallAttempts c)"

definition isRequestRetryable :: "('f, 'e) RequestClient \<Rightarrow> 'f Request \<Rightarrow> bool" where
  "isRequestRetryable c = (case hd_RetryIf c of Some f \<Rightarrow> f | None \<Rightarrow> isIdempotent)"

text \<open>The loop of \<open>HostClient.Do\<close>: \<open>A n\<close> is what attempt number \<open>n\<close> meets. The last result lists the errors and exchanges of the attempts.\<close>

function Do_loop ::
  "('f, 'e) RequestClient \<Rightarrow> ('f, 'e) client_env \<Rightarrow> (nat \<Rightarrow> attempt) \<Rightarrow> bool \<Rightarrow> nat \<Rightarrow> 'f Request \<Rightarrow> Response
     \<Rightarrow> ('e client_err option \<times> 'f Request \<times> Response \<times> ('e client_err option \<times> exchange) list) panics" where
  "Do_loop c E A hasBodyStream attempts req resp =
     (case doNonNilReqResp c E (A attempts) req resp of
        Panic \<Rightarrow> Panic
      | Ret (retry, err, req, resp, x) \<Rightarrow>
          if err = None \<or> \<not> retry \<or> hasBodyStream \<or> \<not> isRequestRetryable c req \<and> \<not> client_EOF (the err)
             \<or> int attempts + 1 \<ge> maxAttempts c
          then Ret (err, req, resp, [(err, x)])
          else
            (case Do_loop c E A hasBodyStream (Suc attempts) req resp of
               Panic \<Rightarrow> Panic
             | Ret (err', req, resp, xs) \<Rightarrow> Ret (err', req, resp, (err, x) # xs)))"
  by pat_completeness auto
termination
  by (relation "measure (\<lambda>(c, E, A, hasBodyStream, attempts, req, resp). nat (maxAttempts c - int attempts))") auto

declare Do_loop.simps [simp del]

definition HostClient_Do ::
  "('f, 'e) RequestClient \<Rightarrow> ('f, 'e) client_env \<Rightarrow> (nat \<Rightarrow> attempt) \<Rightarrow> 'f Request \<Rightarrow> Response
     \<Rightarrow> ('e client_err option \<times> 'f Request \<times> Response \<times> ('e client_err option \<times> exchange) list) panics" where
  "HostClient_Do c E A req resp =
     (case Do_loop c E A (Request_IsBodyStream req) 0 req resp of
        Panic \<Rightarrow> Panic
      | Ret (err, req, resp, xs) \<Rightarrow>
          Ret (if map_option client_EOF err = Some True then Some ErrConnectionClosed else err, req, resp, xs))"


section \<open>Redirects\<close>

definition StatusCodeIsRedirect :: "int \<Rightarrow> bool" where
  "StatusCodeIsRedirect statusCode \<longleftrightarrow>
     statusCode = StatusMovedPermanently \<or> statusCode = StatusFound \<or> statusCode = StatusSeeOther
     \<or> statusCode = StatusTemporaryRedirect \<or> statusCode = StatusPermanentRedirect"

text \<open>The pooled URI is empty; \<open>None\<close> is the panic of \<open>Update\<close>.\<close>

definition getRedirectURL :: "bytes \<Rightarrow> bytes \<Rightarrow> bytes option" where
  "getRedirectURL baseURL location =
     (case URI_UpdateBytes empty_uri baseURL of
        None \<Rightarrow> None
      | Some u \<Rightarrow> (case URI_UpdateBytes u location of None \<Rightarrow> None | Some u \<Rightarrow> Some (fst (URI_FullURI u))))"

definition defaultMaxRedirectsCount :: int where
  "defaultMaxRedirectsCount = 16"

text \<open>
  \<open>do n\<close> is the call of \<open>Do\<close> number \<open>n\<close>. The results are the status code, the error, the objects and the
  URLs that were requested.
\<close>

function redirects_loop ::
  "(nat \<Rightarrow> 'f Request \<Rightarrow> Response \<Rightarrow> 'e client_err option \<times> 'f Request \<times> Response) \<Rightarrow> int \<Rightarrow> nat
     \<Rightarrow> 'f Request \<Rightarrow> Response \<Rightarrow> bytes \<Rightarrow> int
     \<Rightarrow> (int \<times> 'e client_err option \<times> 'f Request \<times> Response \<times> bytes list) panics" where
  "redirects_loop doer maxRedirectsCount redirectsCount req resp url statusCode =
     (case Request_parseURI (Request_SetRequestURI req url) of
        (Some err, req) \<Rightarrow> Ret (0, Some ClientInvalidURI, req, resp, [url])
      | (None, req) \<Rightarrow>
          (case doer redirectsCount req resp of
             (Some err, req, resp) \<Rightarrow> Ret (statusCode, Some err, req, resp, [url])
           | (None, req, resp) \<Rightarrow>
               (let statusCode = Response_StatusCode resp in
                if \<not> StatusCodeIsRedirect statusCode then Ret (statusCode, None, req, resp, [url])
                else if int redirectsCount + 1 > maxRedirectsCount then
                  Ret (statusCode, Some ErrTooManyRedirects, req, resp, [url])
                else
                  (let location = ResponseHeader_peek (p_Header resp) strLocation in
                   if length location = 0 then Ret (statusCode, Some ErrMissingLocation, req, resp, [url])
                   else
                     (case getRedirectURL url location of
                        None \<Rightarrow> Panic
                      | Some url' \<Rightarrow>
                          (case redirects_loop doer maxRedirectsCount (Suc redirectsCount) req resp url' statusCode of
                             Panic \<Rightarrow> Panic
                           | Ret (statusCode, err, req, resp, urls) \<Rightarrow> Ret (statusCode, err, req, resp, url # urls)))))))"
  by pat_completeness auto
termination
  by (relation "measure (\<lambda>(d, m, n, req, resp, url, st). nat (m - int n))") auto

declare redirects_loop.simps [simp del]

definition doRequestFollowRedirects ::
  "(nat \<Rightarrow> 'f Request \<Rightarrow> Response \<Rightarrow> 'e client_err option \<times> 'f Request \<times> Response) \<Rightarrow> 'f Request \<Rightarrow> Response \<Rightarrow> bytes \<Rightarrow> int
     \<Rightarrow> (int \<times> 'e client_err option \<times> 'f Request \<times> Response \<times> bytes list) panics" where
  "doRequestFollowRedirects doer req resp url maxRedirectsCount =
     redirects_loop doer maxRedirectsCount 0 req resp url 0"

end
