(* ===== verification/ClientAttempts.thy ===== *)
theory ClientAttempts
  imports ClientDo MessageIO
begin

text \<open>
  Lemmas on \<open>HostClient.Do\<close>: how the loop of attempts unfolds, the bounds on it, and that no step of an
  attempt changes the method of the request.
\<close>

section \<open>Attempts\<close>

lemma maxAttempts_pos: "1 \<le> maxAttempts c"
  by (simp add: maxAttempts_def DefaultMaxIdemponentCallAttempts_def)

lemma Do_loop_cases [consumes 1, case_names stop again]:
  assumes "Do_loop c E A hbs n req resp = Ret (err, req', resp', xs)"
  obtains retry x where "doNonNilReqResp c E (A n) req resp = Ret (retry, err, req', resp', x)" and "xs = [(err, x)]"
      and "err = None \<or> \<not> retry \<or> hbs \<or> \<not> isRequestRetryable c req' \<and> \<not> client_EOF (the err) \<or> int n + 1 \<ge> maxAttempts c"
  | err1 req1 resp1 x ys where "doNonNilReqResp c E (A n) req resp = Ret (True, err1, req1, resp1, x)"
      and "err1 \<noteq> None \<and> \<not> hbs \<and> (isRequestRetryable c req1 \<or> client_EOF (the err1)) \<and> int n + 1 < maxAttempts c"
      and "Do_loop c E A hbs (Suc n) req1 resp1 = Ret (err, req', resp', ys)" and "xs = (err1, x) # ys"
proof (cases "doNonNilReqResp c E (A n) req resp")
  case Panic
  then show thesis using assms unfolding Do_loop.simps [of c E A hbs n req resp] by simp
next
  case (Ret p)
  obtain retry err1 req1 resp1 x where p: "p = (retry, err1, req1, resp1, x)" by (metis prod_cases5)
  let ?stop = "err1 = None \<or> \<not> retry \<or> hbs \<or> \<not> isRequestRetryable c req1 \<and> \<not> client_EOF (the err1) \<or> int n + 1 \<ge> maxAttempts c"
  show thesis
  proof (cases ?stop)
    case True
    then have "err = err1" "req' = req1" "resp' = resp1" "xs = [(err1, x)]"
      using assms Ret p unfolding Do_loop.simps [of c E A hbs n req resp] by (auto split: if_splits)
    then show thesis using that(1) [of retry x] True Ret p by simp
  next
    case False
    then obtain ys where "Do_loop c E A hbs (Suc n) req1 resp1 = Ret (err, req', resp', ys)" "xs = (err1, x) # ys"
      using assms Ret p unfolding Do_loop.simps [of c E A hbs n req resp]
      by (simp split: if_splits panics.splits prod.splits)
    then show thesis using False Ret p by (intro that(2)) auto
  qed
qed

lemma Do_loop_attempts:
  assumes "Do_loop c E A hbs n req resp = Ret (err, req', resp', xs)"
  shows "xs \<noteq> [] \<and> (int n < maxAttempts c \<longrightarrow> int (n + length xs) \<le> maxAttempts c) \<and> (hbs \<longrightarrow> length xs = 1) \<and> fst (last xs) = err
    \<and> (\<forall>(e, x) \<in> set (butlast xs). e \<noteq> None)"
  using assms
proof (induction c E A hbs n req resp arbitrary: err req' resp' xs rule: Do_loop.induct)
  case (1 c E A hbs n req resp)
  show ?case using "1.prems"
  proof (cases rule: Do_loop_cases)
    case (stop retry x)
    then show ?thesis by auto
  next
    case (again err1 req1 resp1 x ys)
    have "ys \<noteq> [] \<and> (int (Suc n) < maxAttempts c \<longrightarrow> int (Suc n + length ys) \<le> maxAttempts c) \<and> (hbs \<longrightarrow> length ys = 1)
        \<and> fst (last ys) = err \<and> (\<forall>(e, x) \<in> set (butlast ys). e \<noteq> None)"
      by (rule "1.IH" [OF again(1) refl refl refl refl _ again(3)]) (use again(2) in auto)
    then show ?thesis using again(2,4) by auto
  qed
qed

text \<open>Steps of a request's life that keep its method.\<close>

lemma parseURI_method [simp]: "q_Header (snd (Request_parseURI req)) = q_Header req"
  by (simp add: Request_parseURI_def Let_def split: prod.splits)

lemma Request_URI_header [simp]: "q_Header (snd (Request_URI req)) = q_Header req"
  by (simp add: Request_URI_def Let_def)

lemma set_authorization_method: "rq_method (RequestHeader_SetBytesKV h strAuthorization v) = rq_method h"
  by (simp add: RequestHeader_SetBytesKV_def RequestHeader_SetCanonical_def RequestHeader_setSpecialHeader_def Let_def
    RequestHeader_SetContentType_def RequestHeader_SetHost_def RequestHeader_SetUserAgent_def RequestHeader_collectCookies_def
    RequestHeader_SetConnectionClose_def RequestHeader_ResetConnectionClose_def split: prod.splits option.splits)

lemma Write_uri_method:
  assumes "Request_Write_uri req = Some req'"
  shows "rq_method (q_Header req') = rq_method (q_Header req)"
proof (cases "length (rq_host (q_Header req)) = 0 \<or> q_parsedURI req")
  case True
  obtain uri req1 where u: "Request_URI req = (uri, req1)" by (metis surj_pair)
  then have "q_Header req1 = q_Header req" using Request_URI_header [of req] by simp
  then show ?thesis using assms True u
    by (auto simp: Request_Write_uri_def set_authorization_method RequestHeader_SetHost_def RequestHeader_SetRequestURI_def
        Let_def split: if_splits prod.splits)
next
  case False
  then show ?thesis using assms by (simp add: Request_Write_uri_def)
qed

lemma header_steps_method [simp]:
  "rq_method (RequestHeader_SetContentLength h n) = rq_method h"
  "rq_method (snd (RequestHeader_Header h)) = rq_method h"
  "rq_method (RequestHeader_SetMultipartFormBoundary h b) = rq_method h"
  "rq_method (RequestHeader_ResetConnectionClose h) = rq_method h"
  "rq_method (RequestHeader_SetConnectionClose h) = rq_method h"
  by (simp_all add: RequestHeader_SetContentLength_def RequestHeader_Header_def RequestHeader_SetMultipartFormBoundary_def RequestHeader_SetContentType_def
      RequestHeader_ResetConnectionClose_def RequestHeader_SetConnectionClose_def Let_def)

lemma bodyBytes_header [simp]: "q_Header (snd (Request_bodyBytes Error req)) = q_Header req"
  by (simp add: Request_bodyBytes_def Request_bodyBuffer_def Request_closeBodyStream_def Let_def split: option.splits)

lemma closeBodyStream_header [simp]: "q_Header (snd (Request_closeBodyStream req)) = q_Header req"
  by (simp add: Request_closeBodyStream_def split: option.splits)

lemma close_header: "Request_closeBodyStream req = (e, req') \<Longrightarrow> q_Header req' = q_Header req"
  using closeBodyStream_header [of req] by simp

lemma writeBodyStream_method:
  assumes "Request_writeBodyStream req = (p, err, req')"
  shows "rq_method (q_Header req') = rq_method (q_Header req)"
  using assms
  by (auto simp: Request_writeBodyStream_def RequestHeader_Header_def Let_def dest!: close_header split: prod.splits if_splits)

lemma URI_header: "Request_URI req = (u, req') \<Longrightarrow> q_Header req' = q_Header req"
  using Request_URI_header [of req] by simp

lemma Write_body_method:
  assumes "Request_Write_body Error lib req = Ret (p, err, req')"
  shows "rq_method (q_Header req') = rq_method (q_Header req)"
proof -
  obtain body req1 where b: "Request_bodyBytes Error req = (body, req1)" by (metis surj_pair)
  then have "q_Header req1 = q_Header req" using bodyBytes_header [of Error req] by simp
  moreover have "rq_method (snd (RequestHeader_Header h)) = rq_method h" for h by simp
  ultimately show ?thesis using assms b
    by (auto simp: Request_Write_body_def RequestHeader_Header_def Let_def split: if_splits panics.splits sum.splits prod.splits)
qed

lemma Write_method:
  assumes "Request_Write Error lib req = Ret (p, err, req')"
  shows "rq_method (q_Header req') = rq_method (q_Header req)"
proof (cases "Request_Write_uri req")
  case None
  then show ?thesis using assms by (auto simp: Request_Write_def)
next
  case (Some req1)
  have m: "rq_method (q_Header req1) = rq_method (q_Header req)" by (rule Write_uri_method [OF Some])
  show ?thesis
  proof (cases "q_bodyStream req1")
    case None
    then show ?thesis using assms Some Write_body_method [of Error lib req1] m by (simp add: Request_Write_def)
  next
    case (Some s)
    then have "Request_writeBodyStream req1 = (p, err, req')" using assms \<open>Request_Write_uri req = Some req1\<close> by (simp add: Request_Write_def)
    from writeBodyStream_method [OF this] m show ?thesis by simp
  qed
qed

lemma send_method:
  assumes "client_send c E a req = Ret (rc, sent, err, req')"
  shows "rq_method (q_Header req') = rq_method (q_Header req)"
proof -
  let ?req = "if hd_MaxConnDuration c > 0 \<and> at_age a > hd_MaxConnDuration c \<and> \<not> Request_ConnectionClose req then Request_SetConnectionClose req else req"
  obtain p err1 req1 where w: "Request_Write (ce_Error E) (ce_lib E) ?req = Ret (p, err1, req1)"
    "rq_method (q_Header req') = rq_method (q_Header req1)"
    using assms by (auto simp: client_send_def Let_def split: panics.splits option.splits prod.splits if_splits)
  from Write_method [OF w(1)] w(2) show ?thesis by (simp add: Request_SetConnectionClose_def split: if_splits)
qed

lemma do_method:
  assumes "doNonNilReqResp c E a req resp = Ret (retry, err, req', resp', x)" and "hd_Transport c = None"
  shows "rq_method (q_Header req') = rq_method (q_Header req)"
proof -
  obtain req1 resp1 where 1: "client_secure c req resp = (req1, resp1)" by (metis surj_pair)
  then have m1: "rq_method (q_Header req1) = rq_method (q_Header req)" by (auto simp: client_secure_def Let_def)
  obtain req2 resp2 where 2: "client_prepare c req1 resp1 = (req2, resp2)" by (metis surj_pair)
  have "rq_method (q_Header req2) = rq_method (q_Header req1)"
    using 2 by (auto simp: client_prepare_def Let_def dest!: URI_header split: prod.splits if_splits)
  moreover have "rq_method (q_Header req') = rq_method (q_Header req2) \<or> req' = req1"
    using assms 1 2 by (auto simp: doNonNilReqResp_def client_receive_def Let_def dest!: send_method
        split: if_splits panics.splits option.splits prod.splits)
  ultimately show ?thesis using m1 by auto
qed

lemma idempotent_method: "rq_method (q_Header a) = rq_method (q_Header b) \<Longrightarrow> isIdempotent a = isIdempotent b"
  by (simp add: isIdempotent_def RequestHeader_IsGet_def RequestHeader_IsHead_def RequestHeader_IsPut_def RequestHeader_Method_def)

lemma Do_loop_not_idempotent:
  assumes "Do_loop c E A hbs n req resp = Ret (err, req', resp', xs)" and "hd_Transport c = None" and "hd_RetryIf c = None"
    and "\<not> isIdempotent req"
  shows "\<forall>(e, x) \<in> set (butlast xs). \<exists>er. e = Some er \<and> client_EOF er"
  using assms
proof (induction c E A hbs n req resp arbitrary: err req' resp' xs rule: Do_loop.induct)
  case (1 c E A hbs n req resp)
  show ?case using "1.prems"(1)
  proof (cases rule: Do_loop_cases)
    case (stop retry x)
    then show ?thesis by simp
  next
    case (again err1 req1 resp1 x ys)
    have ni: "\<not> isIdempotent req1"
      using idempotent_method [OF do_method [OF again(1) "1.prems"(2)]] "1.prems"(4) by simp
    have "\<forall>(e, x) \<in> set (butlast ys). \<exists>er. e = Some er \<and> client_EOF er"
      by (rule "1.IH" [OF again(1) refl refl refl refl _ again(3) "1.prems"(2,3) ni]) (use again(2) in auto)
    moreover have "\<exists>er. err1 = Some er \<and> client_EOF er"
      using again(2) ni "1.prems"(3) by (auto simp: isRequestRetryable_def)
    moreover have "ys \<noteq> []" using Do_loop_attempts [OF again(3)] by simp
    ultimately show ?thesis using again(4) by auto
  qed
qed

end
