(* ===== verification/ClientWire.thy ===== *)
theory ClientWire
  imports ClientAttempts Pipelining
begin

text \<open>
  What an attempt puts on its connection and takes off it: the request that is printed, a reply that
  is read, a body that is skipped, a server that says nothing; and the lemma on redirects.
\<close>


section \<open>Sending\<close>

text \<open>A request in memory whose URI has been parsed and names a host is always printed.\<close>

definition sendable :: "'f Request \<Rightarrow> bool" where
  "sendable req \<longleftrightarrow> q_parsedURI req \<and> u_host (q_uri req) \<noteq> [] \<and> q_bodyStream req = None \<and> q_multipartForm req = None"

lemma parsed_URI: "q_parsedURI req \<Longrightarrow> Request_URI req = (q_uri req, req)"
  by (simp add: Request_URI_def Request_parseURI_def)

lemma AppendBytes_nonempty: "RequestHeader_AppendBytes h [] \<noteq> []"
  by (simp add: RequestHeader_AppendBytes_fields request_line_def)

text \<open>The steps of an attempt keep the message: method, body and destination.\<close>

definition same_message :: "'f Request \<Rightarrow> 'f Request \<Rightarrow> bool" where
  "same_message req req' \<longleftrightarrow> sendable req' \<and> u_scheme (q_uri req') = u_scheme (q_uri req) \<and> message_body req' = message_body req
     \<and> rq_method (q_Header req') = rq_method (q_Header req)"

lemma same_message_trans: "same_message a b \<Longrightarrow> same_message b c \<Longrightarrow> same_message a c"
  by (simp add: same_message_def)

lemma same_messageI:
  assumes "sendable req" and "u_scheme (q_uri b) = u_scheme (q_uri req)" and "u_host (q_uri b) = u_host (q_uri req)"
    and "q_parsedURI b = q_parsedURI req" and "q_bodyStream b = q_bodyStream req" and "q_multipartForm b = q_multipartForm req"
    and "q_bodyRaw b = q_bodyRaw req" and "q_body b = q_body req" and "q_postArgs b = q_postArgs req"
    and "rq_method (q_Header b) = rq_method (q_Header req)"
  shows "same_message req b"
  using assms message_body_cong [of b req] by (simp add: same_message_def sendable_def)

lemma set_authorization_close: "rq_connectionClose (RequestHeader_SetBytesKV h strAuthorization v) = rq_connectionClose h"
  by (simp add: RequestHeader_SetBytesKV_def RequestHeader_SetCanonical_def RequestHeader_setSpecialHeader_def Let_def authorization_key)

lemma Write_uri_same:
  assumes "sendable req"
  obtains req' where "Request_Write_uri req = Some req'" and "same_message req req'"
    and "rq_connectionClose (q_Header req') = rq_connectionClose (q_Header req)"
proof -
  obtain b u where r: "URI_RequestURI (q_uri req) = (b, u)" by (metis surj_pair)
  have u: "u_host u = u_host (q_uri req)" "u_scheme u = u_scheme (q_uri req)"
    using r by (auto simp: URI_RequestURI_def Let_def split: if_splits prod.splits)
  have "\<exists>h. Request_Write_uri req = Some (req\<lparr>q_uri := u, q_Header := h\<rparr>) \<and> rq_connectionClose h = rq_connectionClose (q_Header req)"
    using assms r u by (cases "u_username u = []") (auto simp: sendable_def Request_Write_uri_def Request_URI_def
        Request_parseURI_def set_authorization_close RequestHeader_SetHost_def RequestHeader_SetRequestURI_def Let_def)
  then obtain h where h: "Request_Write_uri req = Some (req\<lparr>q_uri := u, q_Header := h\<rparr>)"
    and cl: "rq_connectionClose h = rq_connectionClose (q_Header req)" by blast
  show thesis by (rule that [OF h], rule same_messageI [OF assms]) (use Write_uri_method [OF h] u cl in simp_all)
qed

lemma Write_sends:
  assumes "sendable req"
  obtains req1 req' where "Request_Write_uri req = Some req1" and "same_message req req1"
    and "Request_Write Error lib req = Ret (request_bytes req1, None, req')" and "same_message req req'"
    and "rq_connectionClose (q_Header req') = rq_connectionClose (q_Header req)"
proof -
  obtain req1 where 1: "Request_Write_uri req = Some req1" "same_message req req1"
    "rq_connectionClose (q_Header req1) = rq_connectionClose (q_Header req)" by (rule Write_uri_same [OF assms])
  have s: "q_bodyStream req1 = None" "q_multipartForm req1 = None" "q_parsedURI req1" "u_host (q_uri req1) \<noteq> []"
    using 1(2) by (simp_all add: same_message_def sendable_def)
  define b where "b = nilable (case q_bodyRaw req1 of Some b \<Rightarrow> Some b | None \<Rightarrow> q_body req1)"
  define req2 where "req2 = (if b = [] then req1\<lparr>q_postArgs := snd (Args_QueryString (q_postArgs req1))\<rparr> else req1)
    \<lparr>q_Header := snd (RequestHeader_Header (message_header req1))\<rparr>"
  have mb: "message_body req1 = (if b = [] then Args_AppendBytes (q_postArgs req1) [] else b)"
    by (simp add: message_body_def b_def nilable_def Let_def split: option.splits)
  have "Request_bodyBytes Error req1 = (case q_bodyRaw req1 of Some b \<Rightarrow> Some b | None \<Rightarrow> q_body req1, req1)"
    using s by (simp add: Request_bodyBytes_def split: option.splits)
  moreover have "\<not> Request_onlyMultipartForm req1" using s by (simp add: Request_onlyMultipartForm_def)
  ultimately have "Request_Write_body Error lib req1 =
      Ret (RequestHeader_AppendBytes (message_header req1) [] @ message_body req1, None, req2)"
    by (cases "b = []"; cases "message_body req1 = []") (simp_all add: Request_Write_body_def message_header_def req2_def mb
        RequestHeader_Header_def Args_QueryString_def Let_def b_def [symmetric])
  then have w: "Request_Write_body Error lib req1 = Ret (request_bytes req1, None, req2)" by (simp add: request_bytes_def)
  have mb2: "message_body req2 = message_body req1"
    unfolding mb by (auto simp: req2_def message_body_def b_def nilable_def Args_QueryString_def Args_AppendBytes_def Let_def
        split: option.splits)
  have "rq_connectionClose (q_Header req2) = rq_connectionClose (q_Header req)"
    using 1(3) by (simp add: req2_def message_header_def RequestHeader_Header_def RequestHeader_SetContentLength_def Let_def)
  moreover have "Request_Write Error lib req = Ret (request_bytes req1, None, req2)" using 1 s w by (simp add: Request_Write_def)
  moreover have "same_message req req2"
    using 1(2) mb2 Write_body_method [OF w] by (simp add: same_message_def sendable_def req2_def)
  ultimately show thesis using 1(1,2) by (intro that)
qed

text \<open>Attempts whose request goes out: a connection is there and takes everything.\<close>

definition goes_through :: "attempt \<Rightarrow> bool" where
  "goes_through a \<longleftrightarrow> at_acquire a = None \<and> at_writeDeadline a = None \<and> at_readDeadline a = None \<and> cn_takes (at_conn a) = None"

text \<open>The request that is printed, and the response object that is read into.\<close>

definition too_old :: "('f, 'e) RequestClient \<Rightarrow> attempt \<Rightarrow> bool" where
  "too_old c a \<longleftrightarrow> hd_MaxConnDuration c > 0 \<and> at_age a > hd_MaxConnDuration c"

definition to_print :: "('f, 'e) RequestClient \<Rightarrow> attempt \<Rightarrow> 'f Request \<Rightarrow> Response \<Rightarrow> 'f Request" where
  "to_print c a req resp =
     (let req = fst (case client_secure c req resp of (req, resp) \<Rightarrow> client_prepare c req resp);
          req = (if too_old c a \<and> \<not> Request_ConnectionClose req then Request_SetConnectionClose req else req)
      in the (Request_Write_uri req))"

text \<open>
  The request that a receiver sees: that of the caller, with the user agent of the client unless it has
  its own, asking to close a connection that is too old, and addressed as its URI says.
\<close>

definition sent_request :: "('f, 'e) RequestClient \<Rightarrow> attempt \<Rightarrow> 'f Request \<Rightarrow> 'f Request" where
  "sent_request c a req =
     addressed (req\<lparr>q_secureErrorLogMessage := hd_SecureErrorLogMessage c,
       q_uri := (q_uri req)\<lparr>u_DisablePathNormalizing := hd_DisablePathNormalizing c\<rparr>,
       q_Header := (q_Header req)\<lparr>rq_secureErrorLogMessage := hd_SecureErrorLogMessage c,
         rq_userAgent := (if rq_userAgent (q_Header req) = [] then getClientName c else rq_userAgent (q_Header req)),
         rq_connectionClose := (too_old c a \<or> rq_connectionClose (q_Header req))\<rparr>\<rparr>)"

lemma Write_uri_bytes:
  assumes "request_host q \<noteq> []"
  shows "request_bytes (the (Request_Write_uri q)) = request_bytes (addressed q)"
proof -
  obtain q1 kv where q1: "Request_Write_uri q = Some q1" "q_Header q1 = (q_Header (addressed q))\<lparr>rq_bufKV := kv\<rparr>"
    "q_bodyRaw q1 = q_bodyRaw q" "q_body q1 = q_body q" "q_postArgs q1 = q_postArgs q" by (rule Write_uri_addressed [OF assms])
  have "message_body q1 = message_body (addressed q)" by (rule message_body_cong) (simp_all add: q1)
  then show ?thesis by (simp add: request_bytes_def message_header_def q1(1,2) scratch_unprinted)
qed

lemma sent_bytes:
  assumes "sendable req"
  shows "request_bytes (to_print c a req resp) = request_bytes (sent_request c a req)"
proof -
  have p: "q_parsedURI req" "u_host (q_uri req) \<noteq> []" using assms by (simp_all add: sendable_def)
  let ?q = "req\<lparr>q_secureErrorLogMessage := hd_SecureErrorLogMessage c,
       q_uri := (q_uri req)\<lparr>u_DisablePathNormalizing := hd_DisablePathNormalizing c\<rparr>,
       q_Header := (q_Header req)\<lparr>rq_secureErrorLogMessage := hd_SecureErrorLogMessage c,
         rq_userAgent := (if rq_userAgent (q_Header req) = [] then getClientName c else rq_userAgent (q_Header req)),
         rq_connectionClose := (too_old c a \<or> rq_connectionClose (q_Header req))\<rparr>\<rparr>"
  have eq: "to_print c a req resp = the (Request_Write_uri ?q)"
    using p by (auto simp: to_print_def client_secure_def client_prepare_def Request_URI_def Request_parseURI_def
        Request_ConnectionClose_def Request_SetConnectionClose_def RequestHeader_SetConnectionClose_def Let_def intro!: arg_cong [where f = "\<lambda>q. the (Request_Write_uri q)"])
  have "request_host ?q \<noteq> []" using p by (simp add: request_host_def)
  then show ?thesis unfolding sent_request_def eq by (rule Write_uri_bytes)
qed

lemma Response_Reset_fresh [simp]:
  "\<not> p_SkipBody (Response_Reset resp)" "\<not> rs_disableNormalizing (p_Header (Response_Reset resp))"
proof -
  have "p_Header (Response_resetSkipHeader p) = p_Header p" for p
    by (simp add: Response_resetSkipHeader_def Response_ResetBody_def Response_closeBodyStream_def Let_def split: option.splits)
  then show "\<not> p_SkipBody (Response_Reset resp)" "\<not> rs_disableNormalizing (p_Header (Response_Reset resp))"
    by (simp_all add: Response_Reset_def ResponseHeader_Reset_def ResponseHeader_resetSkipNormalize_def
        ResponseHeader_SetNoDefaultContentType_def Let_def)
qed

lemma prepare_response: "snd (client_prepare c req resp) = (Response_Reset resp)\<lparr>p_SkipBody := p_SkipBody resp\<rparr>"
  by (simp add: client_prepare_def Let_def split: prod.splits)

lemma attempt_sent:
  assumes "goes_through a" and "sendable req" and "hd_Transport c = None" and "hd_IsTLS c = (URI_Scheme (q_uri req) = strHTTPS)"
  obtains req' resp' where "doNonNilReqResp c E a req resp =
      client_receive c E a (too_old c a \<and> \<not> Request_ConnectionClose req) (request_bytes (sent_request c a req)) req' resp'"
    and "same_message req req'" and "same_message req (to_print c a req resp)"
    and "\<not> (too_old c a \<and> \<not> Request_ConnectionClose req) \<Longrightarrow> Request_ConnectionClose req' = Request_ConnectionClose req"
    and "p_SkipBody resp' = p_SkipBody resp" and "\<not> rs_disableNormalizing (p_Header resp')"
proof -
  obtain req1 resp1 where 1: "client_secure c req resp = (req1, resp1)" by (metis surj_pair)
  then have s1: "same_message req req1" "q_uri req1 = q_uri req" "rq_connectionClose (q_Header req1) = rq_connectionClose (q_Header req)"
    "p_SkipBody resp1 = p_SkipBody resp"
    by (auto simp: client_secure_def Let_def intro!: same_messageI [OF assms(2)])
  then have "sendable req1" by (simp add: same_message_def)
  obtain req2 resp2 where 2: "client_prepare c req1 resp1 = (req2, resp2)" by (metis surj_pair)
  have parsed: "q_parsedURI req1" using \<open>sendable req1\<close> by (simp add: sendable_def)
  then have s2: "same_message req1 req2"
    using 2 by (intro same_messageI [OF \<open>sendable req1\<close>]) (auto simp: client_prepare_def parsed_URI Let_def)
  have "rq_connectionClose (q_Header (fst (client_prepare c req1 resp1))) = rq_connectionClose (q_Header req1)"
    using parsed by (simp add: client_prepare_def parsed_URI Let_def)
  then have cl2: "rq_connectionClose (q_Header req2) = rq_connectionClose (q_Header req)" using 2 s1(3) by simp
  have r2: "p_SkipBody resp2 = p_SkipBody resp" "\<not> rs_disableNormalizing (p_Header resp2)"
    using prepare_response [of c req1 resp1] 2 s1(4) by simp_all
  let ?reset = "too_old c a \<and> \<not> Request_ConnectionClose req"
  have reset: "(hd_MaxConnDuration c > 0 \<and> at_age a > hd_MaxConnDuration c \<and> \<not> Request_ConnectionClose req2) = ?reset"
    by (auto simp: too_old_def Request_ConnectionClose_def cl2)
  let ?req = "if ?reset then Request_SetConnectionClose req2 else req2"
  have s3: "same_message req2 ?req"
    by (rule same_messageI) (use s2 in \<open>simp_all add: same_message_def Request_SetConnectionClose_def\<close>)
  then have "sendable ?req" by (simp add: same_message_def)
  then obtain p req3 where w: "Request_Write_uri ?req = Some p" "same_message ?req p"
    "Request_Write (ce_Error E) (ce_lib E) ?req = Ret (request_bytes p, None, req3)" "same_message ?req req3"
    "rq_connectionClose (q_Header req3) = rq_connectionClose (q_Header ?req)" by (rule Write_sends)
  have p: "p = to_print c a req resp"
    using 1 2 w(1) cl2 by (simp add: to_print_def Request_ConnectionClose_def Let_def)
  let ?req3 = "if ?reset then req3\<lparr>q_Header := RequestHeader_ResetConnectionClose (q_Header req3)\<rparr> else req3"
  have "same_message req3 ?req3" by (rule same_messageI) (use w(4) in \<open>simp_all add: same_message_def\<close>)
  then have s4: "same_message req ?req3" using s1(1) s2 s3 w(4) by (blast intro: same_message_trans)
  have s5: "same_message req p" using s1(1) s2 s3 w(2) by (blast intro: same_message_trans)
  have send: "client_send c E a req2 = Ret (?reset, request_bytes p, None, ?req3)"
    unfolding client_send_def Let_def reset using assms(1) w(3) by (simp add: goes_through_def conn_Write_def)
  show thesis
  proof (rule that)
    show "doNonNilReqResp c E a req resp = client_receive c E a ?reset (request_bytes (sent_request c a req)) ?req3
        (Response_parseNetConn resp2 (at_remoteAddr a) (at_localAddr a))"
      using 1 2 s1(2) assms(1,3,4) send p sent_bytes [OF assms(2), of c a resp] by (simp add: doNonNilReqResp_def goes_through_def)
    show "Request_ConnectionClose ?req3 = Request_ConnectionClose req" if "\<not> ?reset"
      using that w(5) cl2 by (simp only: if_False Request_ConnectionClose_def)
  qed (use s4 s5 p r2 in \<open>simp_all add: Response_parseNetConn_def\<close>)
qed

text \<open>A connection on which everything is taken and the server closes without an answer.\<close>

definition closes_silently :: "attempt \<Rightarrow> bool" where
  "closes_silently a \<longleftrightarrow> goes_through a \<and> rd_data (at_reader a) = [] \<and> rd_err (at_reader a) = EOF"

lemma read_silence:
  assumes "rd_data r = []" and "rd_err r = EOF" and "br_buffered r = 0" and "br_size r > 0"
  shows "\<exists>resp' r'. (Response_ReadLimitBody env cap resp r n :: (Response \<times> 'e msg_err option \<times> bufreader) panics) =
    Ret (resp', Some (MsgHeader ReadEOF), r')"
proof -
  have "br_Peek_loop r 1 = (r, Some EOF)" unfolding br_Peek_loop.simps [of r 1] using assms by (simp add: br_fill_def br_rest_def)
  then have "br_Peek r 1 = ([], Some EOF, r)" using assms by (simp add: br_Peek_def)
  then have h: "ResponseHeader_Read h r = Ret (ResponseHeader_resetSkipNormalize (ResponseHeader_resetSkipNormalize h), Some ReadEOF, r)" for h
    unfolding ResponseHeader_Read_def ResponseHeader_Read_loop.simps [of h r 1] by (simp add: ResponseHeader_tryRead_def Let_def)
  show ?thesis by (simp add: Response_ReadLimitBody_def Response_readHeader_def h assms(1) Let_def)
qed

text \<open>An exchange that sent the whole message and got nothing.\<close>

definition sent_for_nothing :: "'f Request \<Rightarrow> exchange \<Rightarrow> bool" where
  "sent_for_nothing req x \<longleftrightarrow> ex_use x = ConnClosed
     \<and> (\<exists>h. ex_sent x = RequestHeader_AppendBytes h [] @ message_body req \<and> RequestHeader_Method h = RequestHeader_Method (q_Header req))"

lemma request_bytes_message:
  assumes "same_message req p"
  shows "\<exists>h. request_bytes p = RequestHeader_AppendBytes h [] @ message_body req \<and> RequestHeader_Method h = RequestHeader_Method (q_Header req)"
  by (rule exI [of _ "message_header p"])
    (use assms in \<open>simp add: request_bytes_def same_message_def message_header_def RequestHeader_Method_def\<close>)

lemma attempt_closed:
  assumes "closes_silently a" and "sendable req" and "hd_Transport c = None" and "hd_IsTLS c = (URI_Scheme (q_uri req) = strHTTPS)"
  shows "\<exists>req' resp' x. doNonNilReqResp c E a req resp = Ret (True, Some (ClientMsg (MsgHeader ReadEOF)), req', resp', x)
    \<and> same_message req req' \<and> sent_for_nothing req x"
proof -
  have "goes_through a" using assms(1) by (simp add: closes_silently_def)
  then obtain req1 resp1 where 1: "doNonNilReqResp c E a req resp =
      client_receive c E a (too_old c a \<and> \<not> Request_ConnectionClose req) (request_bytes (sent_request c a req)) req1 resp1"
    "same_message req req1" "same_message req (to_print c a req resp)"
    by (rule attempt_sent [OF _ assms(2-4)])
  define resp2 where "resp2 = client_response c req1 resp1"
  obtain resp3 r' where r: "Response_ReadLimitBody (ce_reads E) (ce_capacity E) resp2 (client_reader c (at_reader a)) (hd_MaxResponseBodySize c) =
      Ret (resp3, Some (MsgHeader ReadEOF :: 'b msg_err), r')"
    using read_silence [of "client_reader c (at_reader a)" "ce_reads E" "ce_capacity E" resp2 "hd_MaxResponseBodySize c"] assms(1)
    by (auto simp: closes_silently_def client_reader_def Let_def less_max_iff_disj)
  let ?x = "\<lparr>ex_sent = request_bytes (sent_request c a req), ex_use = ConnClosed, ex_left = unread r'\<rparr>"
  have "doNonNilReqResp c E a req resp = Ret (True, Some (ClientMsg (MsgHeader ReadEOF)), req1, resp3, ?x)"
    unfolding 1(1) client_receive_def resp2_def [symmetric] r(1) by simp
  moreover have "sent_for_nothing req ?x"
    using request_bytes_message [OF 1(3)] sent_bytes [OF assms(2), of c a resp] by (simp add: sent_for_nothing_def)
  ultimately show ?thesis using 1(2) by blast
qed

lemma sent_for_nothing_same: "same_message req req1 \<Longrightarrow> sent_for_nothing req1 x \<longleftrightarrow> sent_for_nothing req x"
  by (simp add: sent_for_nothing_def same_message_def RequestHeader_Method_def)

lemma Do_loop_closed:
  assumes "\<And>n. closes_silently (A n)" and "sendable req" and "hd_Transport c = None" and "hd_IsTLS c = (URI_Scheme (q_uri req) = strHTTPS)"
    and "int n < maxAttempts c"
  shows "\<exists>req' resp' xs. Do_loop c E A False n req resp = Ret (Some (ClientMsg (MsgHeader ReadEOF)), req', resp', xs)
    \<and> int (n + length xs) = maxAttempts c \<and> (\<forall>(e, x) \<in> set xs. sent_for_nothing req x)"
  using assms(2,4,5)
proof (induction "nat (maxAttempts c - int n)" arbitrary: n req resp rule: less_induct)
  case less
  obtain req1 resp1 x where x: "doNonNilReqResp c E (A n) req resp = Ret (True, Some (ClientMsg (MsgHeader ReadEOF)), req1, resp1, x)"
    "sent_for_nothing req x" "same_message req req1"
    using attempt_closed [OF assms(1) less(2) assms(3) less(3)] by blast
  have s: "sendable req1" "hd_IsTLS c = (URI_Scheme (q_uri req1) = strHTTPS)"
    using x(3) less(3) by (simp_all add: same_message_def URI_Scheme_def)
  have eof: "client_EOF (ClientMsg (MsgHeader ReadEOF))" by (simp add: client_EOF_def is_EOF_def)
  show ?case
  proof (cases "int n + 1 \<ge> maxAttempts c")
    case True
    then show ?thesis using x less(4) by (simp add: Do_loop.simps [of c E A False n req])
  next
    case False
    have "\<exists>req' resp' xs. Do_loop c E A False (Suc n) req1 resp1 = Ret (Some (ClientMsg (MsgHeader ReadEOF)), req', resp', xs)
        \<and> int (Suc n + length xs) = maxAttempts c \<and> (\<forall>(e, x) \<in> set xs. sent_for_nothing req1 x)"
      by (rule less(1)) (use False s in simp_all)
    then show ?thesis using False x(1,2) eof sent_for_nothing_same [OF x(3)] by (auto simp: Do_loop.simps [of c E A False n req])
  qed
qed


section \<open>Receiving\<close>

text \<open>The size of the buffer a response is read with, and the connection after a whole exchange.\<close>

definition response_buffer :: "('f, 'e) RequestClient \<Rightarrow> nat" where
  "response_buffer c = br_size (client_reader c \<lparr>rd_data = [], rd_err = EOF, br_size = 0, br_buffered = 0, br_avail = (\<lambda>_. 0)\<rparr>)"

definition use_after :: "('f, 'e) RequestClient \<Rightarrow> attempt \<Rightarrow> 'f Request \<Rightarrow> Response \<Rightarrow> conn_use" where
  "use_after c a req p =
     (if too_old c a \<or> Request_ConnectionClose req \<or> Response_ConnectionClose p then ConnClosed else ConnReleased)"

lemma client_reader_parts [simp]:
  "rd_data (client_reader c r) = rd_data r" "rd_err (client_reader c r) = rd_err r" "br_wf (client_reader c r)"
  "br_size (client_reader c r) = response_buffer c"
  by (simp_all add: client_reader_def response_buffer_def br_wf_def Let_def)

lemma unread_bound:
  assumes "br_wf r" and "br_size r = n"
  shows "\<exists>k \<le> n. unread r = drop k (rd_data r)"
  using assms by (auto simp: unread_def br_wf_def)

lemma client_response_parts:
  "p_SkipBody (client_response c req resp) = (p_SkipBody resp \<or> RequestHeader_IsHead (q_Header req))"
  "rs_disableNormalizing (p_Header (client_response c req resp)) =
     (hd_DisableHeaderNamesNormalizing c \<or> rs_disableNormalizing (p_Header resp))"
  by (simp_all add: client_response_def ResponseHeader_DisableNormalizing_def Let_def)

lemma same_message_method: "same_message a b \<Longrightarrow> RequestHeader_Method (q_Header b) = RequestHeader_Method (q_Header a)"
  by (simp add: same_message_def RequestHeader_Method_def)

text \<open>The reply to a request that asks for a body is read.\<close>

lemma attempt_gets_reply:
  assumes "goes_through a" and "sendable req" and "hd_Transport c = None" and "hd_IsTLS c = (URI_Scheme (q_uri req) = strHTTPS)"
    and "\<not> p_SkipBody resp" and "\<not> RequestHeader_IsHead (q_Header req)"
    and "response_with_body p data q" and "(Response_Write date q :: bytes \<times> 'e msg_err option \<times> Response) = (out, err, q')"
    and "response_ok (hd_DisableHeaderNamesNormalizing c) date (p_Header p)" and "\<not> Response_mustSkipBody p"
    and "length data + 2 \<le> 2 ^ 31" and "hd_MaxResponseBodySize c \<le> 0 \<or> int (length data) \<le> hd_MaxResponseBodySize c"
    and "rd_data (at_reader a) = out @ rest" and "length out \<le> response_buffer c"
  shows "\<exists>req' g x k. (doNonNilReqResp c E a req resp :: (bool \<times> 'e client_err option \<times> 'f Request \<times> Response \<times> exchange) panics) =
      Ret (False, None, req', g, x) \<and> response_read date p data g
    \<and> ex_sent x = request_bytes (sent_request c a req) \<and> ex_use x = use_after c a req p
    \<and> k \<le> response_buffer c \<and> ex_left x = drop k rest"
proof -
  obtain req1 resp1 where 1: "doNonNilReqResp c E a req resp =
      client_receive c E a (too_old c a \<and> \<not> Request_ConnectionClose req) (request_bytes (sent_request c a req)) req1 resp1"
    "same_message req req1" "\<not> (too_old c a \<and> \<not> Request_ConnectionClose req) \<Longrightarrow> Request_ConnectionClose req1 = Request_ConnectionClose req"
    "p_SkipBody resp1 = p_SkipBody resp" "\<not> rs_disableNormalizing (p_Header resp1)"
    using attempt_sent [OF assms(1-4), of E resp thesis] by metis
  define resp2 where "resp2 = client_response c req1 resp1"
  have "\<not> RequestHeader_IsHead (q_Header req1)"
    using same_message_method [OF 1(2)] assms(6) by (simp add: RequestHeader_IsHead_def)
  then have r2: "\<not> p_SkipBody resp2" "rs_disableNormalizing (p_Header resp2) = hd_DisableHeaderNamesNormalizing c"
    using 1(4,5) assms(5) by (simp_all add: resp2_def client_response_parts)
  obtain n body q1 where w: "(Response_Write date q :: bytes \<times> 'e msg_err option \<times> Response) =
      (framed_bytes date (p_Header p) n @ body, None, q1)"
    "n = int (length data) \<and> body = data \<or> n = -1 \<and> (\<exists>avail. writeBodyChunked avail \<lparr>rd_data = data, rd_err = EOF\<rparr> = (body, None))"
    using Response_Write_with_body [OF assms(7,9,10)] by blast
  then obtain avail where n: "n = int (length data) \<and> body = data
      \<or> n = -1 \<and> writeBodyChunked avail \<lparr>rd_data = data, rd_err = EOF\<rparr> = (body, None)" by blast
  have out: "out = framed_bytes date (p_Header p) n @ body" using w(1) assms(8) by simp
  let ?r = "client_reader c (at_reader a)"
  have "rd_data ?r = framed_bytes date (p_Header p) n @ body @ rest" "length (framed_bytes date (p_Header p) n) \<le> br_size ?r"
    using assms(13,14) out by simp_all
  then obtain g r' where g: "(Response_ReadLimitBody (ce_reads E) (ce_capacity E) resp2 ?r (hd_MaxResponseBodySize c) :: (Response \<times> 'e msg_err option \<times> bufreader) panics) =
      Ret (g, None, r')" "response_read date p data g" "rd_data r' = rest" "br_wf r'" "br_size r' = response_buffer c"
    using Response_ReadLimitBody_framed [of resp2 date p n data body avail "hd_MaxResponseBodySize c" ?r rest "ce_reads E" "ce_capacity E"]
      r2 assms(9-12) n by auto
  have close: "Response_ConnectionClose g = Response_ConnectionClose p"
    using g(2) by (simp add: response_read_def Response_ConnectionClose_def ResponseHeader_ConnectionClose_def)
  obtain k where k: "k \<le> response_buffer c" "unread r' = drop k rest" using unread_bound [OF g(4,5)] g(3) by auto
  let ?x = "\<lparr>ex_sent = request_bytes (sent_request c a req), ex_use = use_after c a req p, ex_left = unread r'\<rparr>"
  have "doNonNilReqResp c E a req resp = Ret (False, None, req1, g, ?x)"
    unfolding 1(1) client_receive_def resp2_def [symmetric] g(1)
    using 1(3) close by (auto simp: use_after_def)
  then show ?thesis using g(2) k by auto
qed

lemma HostClient_Do_first:
  assumes "doNonNilReqResp c E (A 0) req resp = Ret (retry, None, req', g, x)"
  shows "HostClient_Do c E A req resp = Ret (None, req', g, [(None, x)])"
  using assms by (simp add: HostClient_Do_def Do_loop.simps [of c E A _ 0])

text \<open>A response object with \<open>SkipBody\<close> leaves the body where it is.\<close>

lemma mustSkip_skips [simp]: "p_SkipBody r \<Longrightarrow> Response_mustSkipBody r"
  by (simp add: Response_mustSkipBody_def)

lemma ReadLimitBody_skipped:
  assumes "response_ok (rs_disableNormalizing (p_Header g)) date h" and "\<not> ResponseHeader_mustSkipContentLength h" and "p_SkipBody g"
    and "-2 \<le> n" and "n < 2 ^ 63" and "br_wf r" and "rd_data r = framed_bytes date h n @ body" and "length (framed_bytes date h n) \<le> br_size r"
  shows "\<exists>g' r'. (Response_ReadLimitBody env c g r maxBodySize :: (Response \<times> 'e msg_err option \<times> bufreader) panics) =
      Ret (g', None, r') \<and> p_SkipBody g' \<and> nilable (p_body g') = [] \<and> response_read_back date h n (p_Header g')
    \<and> rd_data r' = body \<and> br_wf r' \<and> br_size r' = br_size r"
proof -
  obtain g1 r1 where g1: "ResponseHeader_Read (p_Header g) r = Ret (g1, None, r1)" "response_read_back date h n g1"
    "rd_data r1 = body" "br_wf r1" "br_size r1 = br_size r"
    using response_Read_complete [OF assms(1,2,4-8)] by blast
  have "ResponseHeader_StatusCode g1 \<noteq> StatusContinue"
    using g1(2) assms(2) printed_status_pos [of h]
    by (auto simp: response_read_back_def ResponseHeader_mustSkipContentLength_def ResponseHeader_StatusCode_def printed_status_def
        StatusOK_def StatusContinue_def StatusNotModified_def StatusNoContent_def Let_def split: if_splits)
  moreover let ?g = "Response_resetSkipHeader g"
  have reset: "p_Header ?g = p_Header g" "p_SkipBody ?g = p_SkipBody g" "nilable (p_body ?g) = []"
    by (simp_all add: Response_resetSkipHeader_def Response_ResetBody_def Response_closeBodyStream_def Let_def nilable_def split: option.splits)
  ultimately have "Response_readHeader (p_Header ?g) r = Ret (g1, None, r1)"
    using g1(1) by (simp add: Response_readHeader_def)
  then have "(Response_ReadLimitBody env c g r maxBodySize :: (Response \<times> 'e msg_err option \<times> bufreader) panics) =
      Ret (?g\<lparr>p_Header := g1\<rparr>, None, r1)"
    using assms(3) reset(2) by (simp add: Response_ReadLimitBody_def Let_def)
  then show ?thesis using g1 reset assms(3) by (intro exI conjI) (assumption | simp)+
qed

lemma attempt_skips_body:
  assumes "goes_through a" and "sendable req" and "hd_Transport c = None" and "hd_IsTLS c = (URI_Scheme (q_uri req) = strHTTPS)"
    and "p_SkipBody resp \<or> RequestHeader_IsHead (q_Header req)"
    and "response_ok (hd_DisableHeaderNamesNormalizing c) date (p_Header p)" and "\<not> ResponseHeader_mustSkipContentLength (p_Header p)"
    and "-1 \<le> n" and "n < 2 ^ 63" and "rd_data (at_reader a) = framed_bytes date (p_Header p) n @ body"
    and "length (framed_bytes date (p_Header p) n) \<le> response_buffer c"
  shows "\<exists>req' g x k. (doNonNilReqResp c E a req resp :: (bool \<times> 'e client_err option \<times> 'f Request \<times> Response \<times> exchange) panics) =
      Ret (False, None, req', g, x) \<and> p_SkipBody g \<and> nilable (p_body g) = [] \<and> rs_statusCode (p_Header g) = printed_status (p_Header p)
    \<and> ex_use x = use_after c a req p \<and> k \<le> response_buffer c \<and> ex_left x = drop k body"
proof -
  obtain req1 resp1 where 1: "doNonNilReqResp c E a req resp =
      client_receive c E a (too_old c a \<and> \<not> Request_ConnectionClose req) (request_bytes (sent_request c a req)) req1 resp1"
    "same_message req req1" "\<not> (too_old c a \<and> \<not> Request_ConnectionClose req) \<Longrightarrow> Request_ConnectionClose req1 = Request_ConnectionClose req"
    "p_SkipBody resp1 = p_SkipBody resp" "\<not> rs_disableNormalizing (p_Header resp1)"
    using attempt_sent [OF assms(1-4), of E resp thesis] by metis
  define resp2 where "resp2 = client_response c req1 resp1"
  have "RequestHeader_IsHead (q_Header req1) = RequestHeader_IsHead (q_Header req)"
    using same_message_method [OF 1(2)] by (simp add: RequestHeader_IsHead_def)
  then have r2: "p_SkipBody resp2" "rs_disableNormalizing (p_Header resp2) = hd_DisableHeaderNamesNormalizing c"
    using 1(4,5) assms(5) by (simp_all add: resp2_def client_response_parts)
  let ?r = "client_reader c (at_reader a)"
  obtain g r' where g: "(Response_ReadLimitBody (ce_reads E) (ce_capacity E) resp2 ?r (hd_MaxResponseBodySize c) :: (Response \<times> 'e msg_err option \<times> bufreader) panics) =
      Ret (g, None, r')" "p_SkipBody g" "nilable (p_body g) = []" "response_read_back date (p_Header p) n (p_Header g)"
      "rd_data r' = body" "br_wf r'" "br_size r' = response_buffer c"
    using ReadLimitBody_skipped [of resp2 date "p_Header p" n ?r body "ce_reads E" "ce_capacity E" "hd_MaxResponseBodySize c"] r2 assms(6-11) by auto
  have close: "Response_ConnectionClose g = Response_ConnectionClose p"
    using g(4) assms(8) by (simp add: response_read_back_def Response_ConnectionClose_def ResponseHeader_ConnectionClose_def)
  obtain k where k: "k \<le> response_buffer c" "unread r' = drop k body" using unread_bound [OF g(6,7)] g(5) by auto
  let ?x = "\<lparr>ex_sent = request_bytes (sent_request c a req), ex_use = use_after c a req p, ex_left = unread r'\<rparr>"
  have "doNonNilReqResp c E a req resp = Ret (False, None, req1, g, ?x)"
    unfolding 1(1) client_receive_def resp2_def [symmetric] g(1)
    using 1(3) close by (auto simp: use_after_def)
  then show ?thesis using g k by (auto simp: response_read_back_def)
qed


section \<open>Redirects: lemmas\<close>

text \<open>\<open>Do\<close> itself does not complain about redirects.\<close>

definition plain_doer :: "(nat \<Rightarrow> 'f Request \<Rightarrow> Response \<Rightarrow> 'e client_err option \<times> 'f Request \<times> Response) \<Rightarrow> bool" where
  "plain_doer doer \<longleftrightarrow> (\<forall>n req resp. fst (doer n req resp) \<noteq> Some ErrTooManyRedirects)"

lemma redirects_loop_spec:
  assumes "redirects_loop doer m n req resp url st = Ret (status, err, req', resp', urls)"
  shows "urls \<noteq> [] \<and> hd urls = url \<and> int (n + length urls) \<le> max (int n) m + 1
    \<and> successively (\<lambda>u v. \<exists>location. location \<noteq> [] \<and> getRedirectURL u location = Some v) urls
    \<and> (err = None \<longrightarrow> \<not> StatusCodeIsRedirect status \<and> status = Response_StatusCode resp')
    \<and> (err = Some ErrTooManyRedirects \<longrightarrow> plain_doer doer \<longrightarrow>
         StatusCodeIsRedirect status \<and> int (n + length urls) = max (int n) m + 1)"
  using assms
proof (induction doer m n req resp url st arbitrary: status err req' resp' urls rule: redirects_loop.induct)
  case (1 doer m n req resp url st)
  obtain perr req1 where p: "Request_parseURI (Request_SetRequestURI req url) = (perr, req1)" by (metis surj_pair)
  obtain derr req2 resp2 where d: "doer n req1 resp = (derr, req2, resp2)" by (metis prod_cases3)
  show ?case
  proof (cases "perr \<noteq> None \<or> derr \<noteq> None \<or> \<not> StatusCodeIsRedirect (Response_StatusCode resp2) \<or> int n + 1 > m
      \<or> ResponseHeader_peek (p_Header resp2) strLocation = []")
    case True
    have "fst (doer n req1 resp) = derr" using d by simp
    with True show ?thesis
      using "1.prems" p d unfolding redirects_loop.simps [of doer m n req resp url st]
      by (auto simp: Let_def split: if_splits option.splits) (metis plain_doer_def fst_conv)+
  next
    case False
    let ?s = "Response_StatusCode resp2"
    obtain url' urls' where u: "getRedirectURL url (ResponseHeader_peek (p_Header resp2) strLocation) = Some url'"
      "redirects_loop doer m (Suc n) req2 resp2 url' ?s = Ret (status, err, req', resp', urls')" "urls = url # urls'"
      using "1.prems" p d False unfolding redirects_loop.simps [of doer m n req resp url st]
      by (auto simp: Let_def split: option.splits panics.splits)
    have "urls' \<noteq> [] \<and> hd urls' = url' \<and> int (Suc n + length urls') \<le> max (int (Suc n)) m + 1
      \<and> successively (\<lambda>u v. \<exists>location. location \<noteq> [] \<and> getRedirectURL u location = Some v) urls'
      \<and> (err = None \<longrightarrow> \<not> StatusCodeIsRedirect status \<and> status = Response_StatusCode resp')
      \<and> (err = Some ErrTooManyRedirects \<longrightarrow> plain_doer doer \<longrightarrow>
           StatusCodeIsRedirect status \<and> int (Suc n + length urls') = max (int (Suc n)) m + 1)"
      by (rule "1.IH" [OF p [symmetric] _ d [symmetric] _ refl refl _ _ refl _ u(1) u(2)]) (use False in simp_all)
    then show ?thesis using False u(1,3) by (auto simp: successively_Cons)
  qed
qed

end
