(* ===== verification/ClientDoProps.thy ===== *)
theory ClientDoProps
  imports ClientWire
begin

text \<open>
  What \<open>HostClient.Do\<close> and the redirecting calls of \<^verbatim>\<open>client.go\<close> promise, and where they fall short.
\<close>


section \<open>Examples\<close>

definition plain_client :: "(unit, unit) RequestClient" where
  "plain_client = \<lparr>hd_Name = [], hd_NoDefaultUserAgentHeader = False, hd_IsTLS = False, hd_MaxIdemponentCallAttempts = 0,
     hd_RetryIf = None, hd_Transport = None, hd_ReadBufferSize = 0, hd_ReadTimeout = 0, hd_WriteTimeout = 0, hd_MaxConnDuration = 0,
     hd_MaxResponseBodySize = 0, hd_DisableHeaderNamesNormalizing = False, hd_DisablePathNormalizing = False,
     hd_SecureErrorLogMessage = False\<rparr>"

definition client_example_env :: "(unit, unit) client_env" where
  "client_example_env = \<lparr>ce_Error = (\<lambda>_. []), ce_lib = no_forms, ce_reads = \<lparr>ce_avail = (\<lambda>_. 2), ce_buffered = (\<lambda>_. 1)\<rparr>, ce_capacity = 0\<rparr>"

definition fresh_attempt :: "bytes \<Rightarrow> attempt" where
  "fresh_attempt b = \<lparr>at_acquire = None, at_age = 0, at_conn = example_conn, at_writeDeadline = None, at_readDeadline = None, at_flushed = 0,
     at_reader = \<lparr>rd_data = b, rd_err = EOF, br_size = 0, br_buffered = 0, br_avail = (\<lambda>_. 3)\<rparr>, at_remoteAddr = OtherAddr, at_localAddr = OtherAddr\<rparr>"

definition example_post :: "unit Request" where
  "example_post = example_message\<lparr>q_parsedURI := True, q_uri := (q_uri example_message)\<lparr>u_host := bytes_of ''foo.com''\<rparr>\<rparr>"

lemma example_sendable: "sendable example_post"
  by (simp add: sendable_def example_post_def example_message_def bytes_of_def)

lemma example_http: "hd_IsTLS plain_client = (URI_Scheme (q_uri example_post) = strHTTPS)"
proof -
  have "strHTTP \<noteq> strHTTPS" by code_simp
  then show ?thesis by (simp add: plain_client_def example_post_def example_message_def URI_Scheme_def)
qed

lemma example_attempts: "goes_through (fresh_attempt b)" "rd_data (at_reader (fresh_attempt b)) = b" "closes_silently (fresh_attempt [])"
  "\<not> too_old plain_client (fresh_attempt b)"
  by (simp_all add: goes_through_def closes_silently_def fresh_attempt_def example_conn_def too_old_def plain_client_def)

lemma plain_client_parts: "maxAttempts plain_client = 5" "response_buffer plain_client = 4096" "hd_Transport plain_client = None"
  "hd_RetryIf plain_client = None" "\<not> hd_DisableHeaderNamesNormalizing plain_client" "hd_MaxResponseBodySize plain_client = 0"
  by (simp_all add: maxAttempts_def response_buffer_def plain_client_def DefaultMaxIdemponentCallAttempts_def client_reader_def
      defaultReadBufferSize_def)

lemma example_not_idempotent: "\<not> isIdempotent example_post" "\<not> RequestHeader_IsHead (q_Header example_post)"
proof -
  have "q_Header example_post = example_request" by (simp add: example_post_def example_message_def)
  moreover have "\<not> RequestHeader_IsGet example_request" "\<not> RequestHeader_IsHead example_request" "\<not> RequestHeader_IsPut example_request"
    by code_simp+
  ultimately show "\<not> isIdempotent example_post" "\<not> RequestHeader_IsHead (q_Header example_post)" by (simp_all add: isIdempotent_def)
qed


section \<open>Properties\<close>

text \<open>
  A request that goes out on a connection the server answers is answered: \<open>HostClient.Do\<close> makes one
  attempt, what it sends is the printed request, and the caller's response object holds the status, the
  fields, the cookies and the body that the server wrote. The connection is closed when either side said
  so or it has become too old, and otherwise given back with nothing of this response left on it.
\<close>

theorem HostClient_Do_gets_reply:
  assumes "goes_through (A 0)" and "sendable req" and "hd_Transport c = None" and "hd_IsTLS c = (URI_Scheme (q_uri req) = strHTTPS)"
    and "\<not> p_SkipBody resp" and "\<not> RequestHeader_IsHead (q_Header req)"
    and "response_with_body p data q" and "(Response_Write date q :: bytes \<times> 'e msg_err option \<times> Response) = (out, err, q')"
    and "response_ok (hd_DisableHeaderNamesNormalizing c) date (p_Header p)" and "\<not> Response_mustSkipBody p"
    and "length data + 2 \<le> 2 ^ 31" and "hd_MaxResponseBodySize c \<le> 0 \<or> int (length data) \<le> hd_MaxResponseBodySize c"
    and "rd_data (at_reader (A 0)) = out @ rest" and "length out \<le> response_buffer c"
  shows "\<exists>req' g x k. HostClient_Do c E A req resp = Ret (None :: 'e client_err option, req', g, [(None, x)])
    \<and> response_read date p data g \<and> ex_sent x = request_bytes (sent_request c (A 0) req)
    \<and> ex_use x = use_after c (A 0) req p \<and> ex_left x = drop k rest"
  using attempt_gets_reply [OF assms, of E] HostClient_Do_first [of c E A req resp] by metis

theorem HostClient_Do_gets_reply_witness:
  "\<exists>out q' g x req'. (Response_Write (bytes_of ''now'') (Response_SetBody example_reply (bytes_of ''hello'')) :: bytes \<times> unit msg_err option \<times> Response) = (out, None, q')
     \<and> HostClient_Do plain_client client_example_env (\<lambda>_. fresh_attempt out) example_post example_reply = Ret (None, req', g, [(None, x)])
     \<and> nilable (p_body g) = bytes_of ''hello'' \<and> rs_statusCode (p_Header g) = 404 \<and> ex_use x = ConnClosed"
proof -
  let ?data = "bytes_of ''hello''" and ?date = "bytes_of ''now''" and ?q = "Response_SetBody example_reply (bytes_of ''hello'')"
  have hdr: "p_Header example_reply = example_response" by (simp add: example_reply_def)
  have 1: "response_ok (hd_DisableHeaderNamesNormalizing plain_client) ?date (p_Header example_reply)"
    using example_response_ok(2) by (simp add: hdr plain_client_def)
  have 2: "\<not> Response_mustSkipBody example_reply" "\<not> p_SkipBody example_reply"
    unfolding Response_mustSkipBody_def hdr by (simp_all add: example_reply_def) code_simp
  have 3: "response_with_body example_reply ?data ?q" by (simp add: response_with_body_def)
  have "case Response_Write ?date ?q :: bytes \<times> unit msg_err option \<times> Response of (out, err, q') \<Rightarrow> length out \<le> 4096 \<and> err = None"
    by code_simp
  then obtain out q' where w: "(Response_Write ?date ?q :: bytes \<times> unit msg_err option \<times> Response) = (out, None, q')" "length out \<le> 4096"
    by (auto split: prod.splits)
  have st: "printed_status example_response = 404" "Request_ConnectionClose example_post" by code_simp+
  have "\<exists>req' g x k. HostClient_Do plain_client client_example_env (\<lambda>_. fresh_attempt out) example_post example_reply = Ret (None :: unit client_err option, req', g, [(None, x)])
    \<and> response_read ?date example_reply ?data g \<and> ex_sent x = request_bytes (sent_request plain_client (fresh_attempt out) example_post)
    \<and> ex_use x = use_after plain_client (fresh_attempt out) example_post example_reply \<and> ex_left x = drop k []"
    by (rule HostClient_Do_gets_reply [OF example_attempts(1) example_sendable plain_client_parts(3) example_http 2(2) example_not_idempotent(2)
          3 w(1) 1 2(1)]) (use w(2) in \<open>simp_all add: example_attempts plain_client_parts bytes_of_def\<close>)
  then show ?thesis using w st hdr unfolding response_read_def use_after_def by metis
qed

text \<open>
  \<open>HostClient.Do\<close> makes at least one attempt and at most \<open>MaxIdemponentCallAttempts\<close> (five when it
  is not set), exactly one when the body is a stream; each attempt but the last failed, and the caller
  gets the error of the last one, with \<open>io.EOF\<close> turned into \<open>ErrConnectionClosed\<close>.
\<close>

theorem HostClient_Do_attempts:
  assumes "HostClient_Do c E A req resp = Ret (err, req', resp', xs)"
  shows "1 \<le> length xs \<and> int (length xs) \<le> maxAttempts c \<and> (Request_IsBodyStream req \<longrightarrow> length xs = 1)
    \<and> (\<forall>(e, x) \<in> set (butlast xs). e \<noteq> None)
    \<and> err = (case fst (last xs) of None \<Rightarrow> None | Some e \<Rightarrow> Some (if client_EOF e then ErrConnectionClosed else e))"
proof -
  obtain e where e: "Do_loop c E A (Request_IsBodyStream req) 0 req resp = Ret (e, req', resp', xs)"
    "err = (if map_option client_EOF e = Some True then Some ErrConnectionClosed else e)"
    using assms by (auto simp: HostClient_Do_def split: panics.splits)
  from Do_loop_attempts [OF e(1)] have "xs \<noteq> []" "int (length xs) \<le> maxAttempts c" "Request_IsBodyStream req \<longrightarrow> length xs = 1"
    "fst (last xs) = e" "\<forall>(e, x) \<in> set (butlast xs). e \<noteq> None" using maxAttempts_pos [of c] by auto
  moreover from this(4) e(2) have "err = (case fst (last xs) of None \<Rightarrow> None | Some e \<Rightarrow> Some (if client_EOF e then ErrConnectionClosed else e))"
    by (auto split: option.splits)
  ultimately show ?thesis by (simp add: Suc_le_eq)
qed

lemma HostClient_Do_closed:
  assumes "\<And>n. closes_silently (A n)" and "sendable req" and "hd_Transport c = None" and "hd_IsTLS c = (URI_Scheme (q_uri req) = strHTTPS)"
  shows "\<exists>req' resp' xs. HostClient_Do c E A req resp = Ret (Some ErrConnectionClosed, req', resp', xs)
    \<and> int (length xs) = maxAttempts c \<and> (\<forall>(e, x) \<in> set xs. sent_for_nothing req x)"
proof -
  have "\<not> Request_IsBodyStream req" using assms(2) by (simp add: Request_IsBodyStream_def sendable_def)
  then show ?thesis
    using Do_loop_closed [of A req c 0 E resp, OF assms] maxAttempts_pos [of c]
    by (auto simp: HostClient_Do_def client_EOF_def is_EOF_def)
qed

theorem HostClient_Do_attempts_witness:
  "\<exists>req' resp' xs. HostClient_Do plain_client client_example_env (\<lambda>_. fresh_attempt []) example_post example_reply =
      Ret (Some ErrConnectionClosed, req', resp', xs) \<and> 1 \<le> length xs \<and> length xs \<le> 5 \<and> (\<forall>(e, x) \<in> set (butlast xs). e \<noteq> None)"
proof -
  obtain req' resp' xs where 1: "HostClient_Do plain_client client_example_env (\<lambda>_. fresh_attempt []) example_post example_reply =
      Ret (Some ErrConnectionClosed, req', resp', xs)"
    using HostClient_Do_closed [OF example_attempts(3) example_sendable plain_client_parts(3) example_http] by blast
  show ?thesis using 1 HostClient_Do_attempts [OF 1] by (auto simp: plain_client_parts)
qed

text \<open>
  A request that is not idempotent is sent again only when the server closed the connection before its
  answer: every attempt but the last failed with \<open>io.EOF\<close>.
\<close>

theorem non_idempotent_retried_only_on_EOF:
  assumes "HostClient_Do c E A req resp = Ret (err, req', resp', xs)" and "hd_Transport c = None" and "hd_RetryIf c = None"
    and "\<not> isIdempotent req"
  shows "\<forall>(e, x) \<in> set (butlast xs). \<exists>er. e = Some er \<and> client_EOF er"
proof -
  obtain e where "Do_loop c E A (Request_IsBodyStream req) 0 req resp = Ret (e, req', resp', xs)"
    using assms(1) by (auto simp: HostClient_Do_def split: panics.splits)
  from Do_loop_not_idempotent [OF this assms(2-4)] show ?thesis .
qed

theorem non_idempotent_retried_only_on_EOF_witness:
  "\<exists>req' resp' xs. HostClient_Do plain_client client_example_env (\<lambda>_. fresh_attempt []) example_post example_reply =
      Ret (Some ErrConnectionClosed, req', resp', xs) \<and> length xs = 5 \<and> (\<forall>(e, x) \<in> set (butlast xs). \<exists>er. e = Some er \<and> client_EOF er)"
proof -
  obtain req' resp' xs where 1: "HostClient_Do plain_client client_example_env (\<lambda>_. fresh_attempt []) example_post example_reply =
      Ret (Some ErrConnectionClosed, req', resp', xs)" "int (length xs) = maxAttempts plain_client"
    using HostClient_Do_closed [OF example_attempts(3) example_sendable plain_client_parts(3) example_http] by blast
  show ?thesis
    using 1 non_idempotent_retried_only_on_EOF [OF 1(1) plain_client_parts(3,4) example_not_idempotent(1)]
    by (simp add: plain_client_parts)
qed

text \<open>
  What counts as \<^emph>\<open>before its answer\<close>: a server that takes a whole request, on a connection it has just
  accepted, and closes without answering, is sent the request \<open>MaxIdemponentCallAttempts\<close> times, whatever its
  method. The retry is meant for an idle keep-alive connection that the server closed, but the loop does not
  ask whether the connection was one.
\<close>

theorem any_request_sent_repeatedly:
  assumes "\<And>n. closes_silently (A n)" and "sendable req" and "hd_Transport c = None" and "hd_IsTLS c = (URI_Scheme (q_uri req) = strHTTPS)"
  shows "\<exists>req' resp' xs. HostClient_Do c E A req resp = Ret (Some ErrConnectionClosed, req', resp', xs)
    \<and> int (length xs) = maxAttempts c \<and> (\<forall>(e, x) \<in> set xs. sent_for_nothing req x)"
  by (rule HostClient_Do_closed [OF assms])

theorem any_request_sent_repeatedly_witness:
  "\<exists>req' resp' xs. HostClient_Do plain_client client_example_env (\<lambda>_. fresh_attempt []) example_post example_reply =
      Ret (Some ErrConnectionClosed, req', resp', xs) \<and> RequestHeader_Method (q_Header example_post) = bytes_of ''POST''
    \<and> length xs = 5 \<and> (\<forall>(e, x) \<in> set xs. sent_for_nothing example_post x)"
proof -
  have "RequestHeader_Method (q_Header example_post) = bytes_of ''POST''" by code_simp
  then show ?thesis
    using any_request_sent_repeatedly [OF example_attempts(3) example_sendable plain_client_parts(3) example_http,
        of client_example_env example_reply]
    by (simp add: plain_client_parts)
qed

text \<open>
  A response object that was used for a HEAD request keeps \<open>SkipBody\<close>: after a HEAD exchange it is set,
  and any request done with it, whatever its method, gets the status and the fields of the response but not its body.
  The connection is given back to the pool with that body, but for what the reader had buffered, still to come.
\<close>

theorem SkipBody_sticks:
  assumes "goes_through (A 0)" and "sendable req" and "hd_Transport c = None" and "hd_IsTLS c = (URI_Scheme (q_uri req) = strHTTPS)"
    and "p_SkipBody resp \<or> RequestHeader_IsHead (q_Header req)"
    and "response_ok (hd_DisableHeaderNamesNormalizing c) date (p_Header p)" and "\<not> ResponseHeader_mustSkipContentLength (p_Header p)"
    and "-1 \<le> n" and "n < 2 ^ 63" and "rd_data (at_reader (A 0)) = framed_bytes date (p_Header p) n @ body"
    and "length (framed_bytes date (p_Header p) n) \<le> response_buffer c"
  shows "\<exists>req' g x k. HostClient_Do c E A req resp = Ret (None, req', g, [(None, x)]) \<and> p_SkipBody g \<and> nilable (p_body g) = []
    \<and> rs_statusCode (p_Header g) = printed_status (p_Header p) \<and> ex_use x = use_after c (A 0) req p
    \<and> k \<le> response_buffer c \<and> ex_left x = drop k body"
  using attempt_skips_body [OF assms, of E] HostClient_Do_first [of c E A req resp] by metis

definition head_message :: "bytes \<Rightarrow> unit Request" where
  "head_message m = example_post\<lparr>q_Header := example_request\<lparr>rq_method := m, rq_connectionClose := False\<rparr>, q_body := None\<rparr>"

theorem SkipBody_sticks_witness:
  "let reply = (\<lambda>n. framed_bytes (bytes_of ''now'') example_response n)
   in \<exists>r1 r2 g1 g2 x1 x2 k. HostClient_Do plain_client client_example_env (\<lambda>_. fresh_attempt (reply (-1))) (head_message (bytes_of ''HEAD'')) example_reply =
          Ret (None, r1, g1, [(None, x1)])
        \<and> HostClient_Do plain_client client_example_env (\<lambda>_. fresh_attempt (reply (-1) @ replicate 8000 65)) (head_message []) g1 =
          Ret (None, r2, g2, [(None, x2)])
        \<and> nilable (p_body g2) = [] \<and> ex_use x2 = ConnReleased \<and> k \<le> 4096 \<and> ex_left x2 = drop k (replicate 8000 65)"
proof -
  let ?date = "bytes_of ''now''" and ?reply = "framed_bytes (bytes_of ''now'') example_response (-1)" and ?body = "replicate 8000 65 :: bytes"
  have hdr: "p_Header example_reply = example_response" by (simp add: example_reply_def)
  have 1: "response_ok (hd_DisableHeaderNamesNormalizing plain_client) ?date (p_Header example_reply)"
    using example_response_ok(2) by (simp add: hdr plain_client_def)
  have 2: "\<not> ResponseHeader_mustSkipContentLength (p_Header example_reply)" "length ?reply \<le> 4096"
    unfolding hdr by code_simp+
  have s: "sendable (head_message m)" "hd_IsTLS plain_client = (URI_Scheme (q_uri (head_message m)) = strHTTPS)"
    "\<not> Request_ConnectionClose (head_message m)" for m
    using example_sendable example_http by (simp_all add: head_message_def sendable_def Request_ConnectionClose_def)
  have head: "RequestHeader_IsHead (q_Header (head_message (bytes_of ''HEAD'')))" by code_simp
  have "\<exists>r1 g1 x1 k. HostClient_Do plain_client client_example_env (\<lambda>_. fresh_attempt ?reply) (head_message (bytes_of ''HEAD'')) example_reply =
      Ret (None, r1, g1, [(None, x1)]) \<and> p_SkipBody g1 \<and> nilable (p_body g1) = []
    \<and> rs_statusCode (p_Header g1) = printed_status (p_Header example_reply)
    \<and> ex_use x1 = use_after plain_client (fresh_attempt ?reply) (head_message (bytes_of ''HEAD'')) example_reply
    \<and> k \<le> response_buffer plain_client \<and> ex_left x1 = drop k []"
    by (rule SkipBody_sticks [OF example_attempts(1) s(1) plain_client_parts(3) s(2) _ 1 2(1)])
      (use head 2(2) in \<open>simp_all add: example_attempts plain_client_parts hdr\<close>)
  then obtain r1 g1 x1 where 3: "HostClient_Do plain_client client_example_env (\<lambda>_. fresh_attempt ?reply) (head_message (bytes_of ''HEAD'')) example_reply =
      Ret (None, r1, g1, [(None, x1)])" "p_SkipBody g1" by blast
  have "\<exists>r2 g2 x2 k. HostClient_Do plain_client client_example_env (\<lambda>_. fresh_attempt (?reply @ ?body)) (head_message []) g1 =
      Ret (None, r2, g2, [(None, x2)]) \<and> p_SkipBody g2 \<and> nilable (p_body g2) = []
    \<and> rs_statusCode (p_Header g2) = printed_status (p_Header example_reply)
    \<and> ex_use x2 = use_after plain_client (fresh_attempt (?reply @ ?body)) (head_message []) example_reply
    \<and> k \<le> response_buffer plain_client \<and> ex_left x2 = drop k ?body"
    by (rule SkipBody_sticks [OF example_attempts(1) s(1) plain_client_parts(3) s(2) _ 1 2(1)])
      (use 3(2) 2(2) in \<open>simp_all add: example_attempts plain_client_parts hdr\<close>)
  moreover have "use_after plain_client (fresh_attempt (?reply @ ?body)) (head_message []) example_reply = ConnReleased"
    using s(3) example_attempts(4) hdr
    by (simp add: use_after_def Response_ConnectionClose_def ResponseHeader_ConnectionClose_def example_response_def)
  ultimately show ?thesis using 3(1) unfolding Let_def plain_client_parts by metis
qed

text \<open>
  A client for HTTPS looks at the scheme before the request's URI is parsed: a request whose URI was
  only set, as the documentation of \<open>HostClient.Do\<close> asks, is refused with
  \<open>ErrHostClientRedirectToDifferentScheme\<close> although the URI says \<^verbatim>\<open>https\<close>; nothing is sent.
\<close>

theorem https_request_refused:
  assumes "hd_IsTLS c" and "u_scheme (q_uri req) = []"
  shows "\<exists>req' resp'. HostClient_Do c E A (Request_SetRequestURI req uri) resp =
    Ret (Some ErrHostClientRedirectToDifferentScheme, req', resp', [(Some ErrHostClientRedirectToDifferentScheme, not_acquired)])"
proof -
  let ?req = "Request_SetRequestURI req uri"
  have "strHTTP \<noteq> strHTTPS" by code_simp
  then have "URI_Scheme (q_uri (fst (client_secure c ?req resp))) \<noteq> strHTTPS"
    using assms(2) by (simp add: client_secure_def Request_SetRequestURI_def URI_Scheme_def Let_def)
  then show ?thesis
    using assms(1) by (cases "client_secure c ?req resp")
      (simp add: HostClient_Do_def Do_loop.simps [of c E A _ 0] doNonNilReqResp_def client_EOF_def)
qed

theorem https_request_refused_witness:
  "let req = example_message\<lparr>q_Header := example_request\<lparr>rq_host := []\<rparr>\<rparr>; uri = bytes_of ''https://foo.com/a''
   in URI_Scheme (fst (Request_URI (Request_SetRequestURI req uri))) = strHTTPS
      \<and> (\<exists>req' resp'. HostClient_Do (plain_client\<lparr>hd_IsTLS := True\<rparr>) client_example_env (\<lambda>_. fresh_attempt []) (Request_SetRequestURI req uri) example_reply =
           Ret (Some ErrHostClientRedirectToDifferentScheme, req', resp', [(Some ErrHostClientRedirectToDifferentScheme, not_acquired)]))"
proof -
  let ?req = "example_message\<lparr>q_Header := example_request\<lparr>rq_host := []\<rparr>\<rparr>" and ?uri = "bytes_of ''https://foo.com/a''"
  have "URI_Scheme (fst (Request_URI (Request_SetRequestURI ?req ?uri))) = strHTTPS" by code_simp
  moreover have "\<exists>req' resp'. HostClient_Do (plain_client\<lparr>hd_IsTLS := True\<rparr>) client_example_env (\<lambda>_. fresh_attempt []) (Request_SetRequestURI ?req ?uri) example_reply =
      Ret (Some ErrHostClientRedirectToDifferentScheme, req', resp', [(Some ErrHostClientRedirectToDifferentScheme, not_acquired)])"
    by (rule https_request_refused) (simp_all add: example_message_def)
  ultimately show ?thesis unfolding Let_def by simp
qed

text \<open>
  Redirects are followed a bounded number of times: at most \<open>maxRedirectsCount\<close> plus one requests are
  made, the first for the URL given and each other for a \<open>Location\<close> that is not empty, taken relative to the URL
  before it. Without an error the last response is not a redirect and its status is what is
  returned; \<open>ErrTooManyRedirects\<close> means that all the requests were made and the last was still redirected.
\<close>

theorem redirects_followed:
  assumes "doRequestFollowRedirects doer req resp url m = Ret (status, err, req', resp', urls)" and "plain_doer doer"
  shows "urls \<noteq> [] \<and> hd urls = url \<and> int (length urls) \<le> max 0 m + 1
    \<and> successively (\<lambda>u v. \<exists>location. location \<noteq> [] \<and> getRedirectURL u location = Some v) urls
    \<and> (err = None \<longrightarrow> \<not> StatusCodeIsRedirect status \<and> status = Response_StatusCode resp')
    \<and> (err = Some ErrTooManyRedirects \<longrightarrow> StatusCodeIsRedirect status \<and> int (length urls) = max 0 m + 1)"
proof -
  have "redirects_loop doer m 0 req resp url 0 = Ret (status, err, req', resp', urls)"
    using assms(1) by (simp add: doRequestFollowRedirects_def)
  from redirects_loop_spec [OF this] assms(2) show ?thesis by auto
qed

definition moved_once :: "nat \<Rightarrow> unit Request \<Rightarrow> Response \<Rightarrow> unit client_err option \<times> unit Request \<times> Response" where
  "moved_once n req resp =
     (None, req, resp\<lparr>p_Header := (if n = 0 then (ResponseHeader_SetCanonical (p_Header resp) strLocation (bytes_of ''b''))\<lparr>rs_statusCode := 302\<rparr>
        else (p_Header resp)\<lparr>rs_statusCode := 200\<rparr>)\<rparr>)"

theorem redirects_followed_witness:
  "case doRequestFollowRedirects moved_once example_message example_reply (bytes_of ''http://h/a'') 1 of
     Panic \<Rightarrow> False
   | Ret (status, err, req', resp', urls) \<Rightarrow> status = 200 \<and> err = None \<and> urls = [bytes_of ''http://h/a'', bytes_of ''http://h/b'']
       \<and> int (length urls) \<le> 2 \<and> \<not> StatusCodeIsRedirect status"
proof -
  have "case doRequestFollowRedirects moved_once example_message example_reply (bytes_of ''http://h/a'') 1 of
      Panic \<Rightarrow> False
    | Ret (status, err, req', resp', urls) \<Rightarrow> status = 200 \<and> err = None \<and> urls = [bytes_of ''http://h/a'', bytes_of ''http://h/b'']"
    by code_simp
  moreover have "plain_doer moved_once" by (simp add: plain_doer_def moved_once_def)
  ultimately show ?thesis
    using redirects_followed [of moved_once example_message example_reply "bytes_of ''http://h/a''" 1]
    by (fastforce split: panics.splits)
qed

end
