(* ===== verification/ClientServer.thy ===== *)
theory ClientServer
  imports ClientDoProps
begin

text \<open>
  A client and a server of the library on the two ends of one connection: \<open>HostClient_Do\<close> against
  \<open>Server_serveConn\<close>.
\<close>


section \<open>One exchange\<close>







section \<open>The property\<close>




















end
