(* ===== verification/Fs.thy ===== *)
theory Fs
  imports RequestCtx
begin

text \<open>
  The handler for static files (\<^verbatim>\<open>fs.go\<close>): path rewriters, byte ranges, opening a file, its compressed
  copy, an index file or a generated index, and \<open>handleRequest\<close>. What the file system answers is a
  record of functions, as are content-type detection and the compressors; an open file is its
  contents. The file cache is three maps here; how it counts readers is in \<open>FsCache\<close>.
\<close>


section \<open>Paths\<close>

function stripLeadingSlashes :: "bytes \<Rightarrow> int \<Rightarrow> bytes panics" where
  "stripLeadingSlashes path stripSlashes =
     (if stripSlashes > 0 \<and> length path > 0 then
        (if hd path \<noteq> ch CHR ''/'' then Panic
         else
           (case IndexByte (tl path) (ch CHR ''/'') of
              None \<Rightarrow> Ret []
            | Some n \<Rightarrow> stripLeadingSlashes (drop (n + 1) path) (stripSlashes - 1)))
      else Ret path)"
  by pat_completeness auto
termination
  by (relation "measure (\<lambda>(path, n). nat n)") auto

declare stripLeadingSlashes.simps [simp del]

function stripTrailingSlashes :: "bytes \<Rightarrow> bytes" where
  "stripTrailingSlashes path =
     (if length path > 0 \<and> last path = ch CHR ''/'' then stripTrailingSlashes (butlast path) else path)"
  by pat_completeness auto
termination
  by (relation "measure length") auto

declare stripTrailingSlashes.simps [simp del]

definition fileExtension :: "bytes \<Rightarrow> bool \<Rightarrow> bytes \<Rightarrow> bytes" where
  "fileExtension path compressed compressedFileSuffix =
     (let path = (if compressed \<and> suffix compressedFileSuffix path
                  then take (length path - length compressedFileSuffix) path else path)
      in case LastIndexByte path (ch CHR ''.'') of None \<Rightarrow> [] | Some n \<Rightarrow> drop n path)"

type_synonym ('f, 'v, 'h) rewriter = "('f, 'v, 'h) RequestCtx \<Rightarrow> (bytes \<times> ('f, 'v, 'h) RequestCtx) panics"

definition strInvalidHost :: bytes where
  "strInvalidHost = bytes_of ''invalid-host''"

definition NewVHostPathRewriter :: "int \<Rightarrow> ('f, 'v, 'h) rewriter" where
  "NewVHostPathRewriter slashesCount ctx =
     (case ctx_Path ctx of
        (path, ctx) \<Rightarrow>
          (case stripLeadingSlashes path slashesCount of
             Panic \<Rightarrow> Panic
           | Ret path \<Rightarrow>
               (let (host, ctx) = ctx_Host ctx;
                    host = (if IndexByte host (ch CHR ''/'') \<noteq> None then [] else host);
                    host = (if length host = 0 then strInvalidHost else host);
                    (uri, ctx) = ctx_URI ctx;
                    ctx = ctx\<lparr>x_Request := (x_Request ctx)\<lparr>q_uri := URI_SetPath uri ([ch CHR ''/''] @ host @ path)\<rparr>\<rparr>
                in Ret (ctx_Path ctx))))"

definition NewPathSlashesStripper :: "int \<Rightarrow> ('f, 'v, 'h) rewriter" where
  "NewPathSlashesStripper slashesCount ctx =
     (case ctx_Path ctx of
        (path, ctx) \<Rightarrow>
          (case stripLeadingSlashes path slashesCount of Panic \<Rightarrow> Panic | Ret path \<Rightarrow> Ret (path, ctx)))"

text \<open>Slicing with a negative index panics.\<close>

definition NewPathPrefixStripper :: "int \<Rightarrow> ('f, 'v, 'h) rewriter" where
  "NewPathPrefixStripper prefixSize ctx =
     (case ctx_Path ctx of
        (path, ctx) \<Rightarrow>
          if int (length path) \<ge> prefixSize then
            (if prefixSize < 0 then Panic else Ret (drop (nat prefixSize) path, ctx))
          else Ret (path, ctx))"


section \<open>Byte ranges\<close>

datatype range_err = RangeUnits | RangeMissing | RangeNoEnd | RangeUint uint_err | RangeStart | RangeOrder

definition ParseByteRange :: "bytes \<Rightarrow> int \<Rightarrow> range_err + int \<times> int" where
  "ParseByteRange byteRange contentLength =
     (let b = byteRange in
      if \<not> prefix strBytes b then Inl RangeUnits
      else
        (let b = drop (length strBytes) b in
         if length b = 0 \<or> hd b \<noteq> ch CHR ''='' then Inl RangeMissing
         else
           (let b = tl b in
            case IndexByte b (ch CHR ''-'') of
              None \<Rightarrow> Inl RangeNoEnd
            | Some n \<Rightarrow>
                if n = 0 then
                  (case ParseUint (drop (n + 1) b) of
                     (v, Some err) \<Rightarrow> Inl (RangeUint err)
                   | (v, None) \<Rightarrow>
                       (let startPos = contentLength - v; startPos = (if startPos < 0 then 0 else startPos)
                        in Inr (startPos, contentLength - 1)))
                else
                  (case ParseUint (take n b) of
                     (startPos, Some err) \<Rightarrow> Inl (RangeUint err)
                   | (startPos, None) \<Rightarrow>
                       if startPos \<ge> contentLength then Inl RangeStart
                       else
                         (let b = drop (n + 1) b in
                          if length b = 0 then Inr (startPos, contentLength - 1)
                          else
                            (case ParseUint b of
                               (endPos, Some err) \<Rightarrow> Inl (RangeUint err)
                             | (endPos, None) \<Rightarrow>
                                 (let endPos = (if endPos \<ge> contentLength then contentLength - 1 else endPos)
                                  in if endPos < startPos then Inl RangeOrder else Inr (startPos, endPos))))))))"


section \<open>Files\<close>

text \<open>\<open>ff_f\<close> is the contents of the open file, \<open>None\<close> for a generated index.\<close>

record 't fsFile =
  ff_f :: "bytes option"
  ff_dirIndex :: bytes
  ff_contentType :: bytes
  ff_contentLength :: int
  ff_compressed :: bool
  ff_lastModified :: 't
  ff_lastModifiedStr :: bytes

definition maxSmallFileSize :: int where
  "maxSmallFileSize = 2 * 4096"

definition isBig :: "'t fsFile \<Rightarrow> bool" where
  "isBig ff \<longleftrightarrow> ff_contentLength ff > maxSmallFileSize \<and> length (ff_dirIndex ff) = 0"

text \<open>The readers of small files: positions in the file or in the index.\<close>

record 't fsSmallFileReader =
  sr_ff :: "'t fsFile"
  sr_startPos :: int
  sr_endPos :: int

definition smallFileReader :: "'t fsFile \<Rightarrow> 't fsSmallFileReader" where
  "smallFileReader ff = \<lparr>sr_ff = ff, sr_startPos = 0, sr_endPos = ff_contentLength ff\<rparr>"

definition fsSmallFileReader_UpdateByteRange :: "'t fsSmallFileReader \<Rightarrow> int \<Rightarrow> int \<Rightarrow> 't fsSmallFileReader" where
  "fsSmallFileReader_UpdateByteRange r startPos endPos = r\<lparr>sr_startPos := startPos, sr_endPos := endPos + 1\<rparr>"

text \<open>\<open>Read\<close> into \<open>len\<close> bytes; \<open>ReadAt\<close> of the file fills the slice, or ends with EOF where the file ends.\<close>

definition fsSmallFileReader_Read ::
  "'t fsSmallFileReader \<Rightarrow> nat \<Rightarrow> bytes \<times> io_err option \<times> 't fsSmallFileReader" where
  "fsSmallFileReader_Read r len =
     (let tailLen = sr_endPos r - sr_startPos r in
      if tailLen \<le> 0 then ([], Some EOF, r)
      else
        (let len = (if int len > tailLen then nat tailLen else len); at = nat (sr_startPos r) in
         case ff_f (sr_ff r) of
           Some f \<Rightarrow>
             (let p = take len (drop at f)
              in (p, if length p < len then Some EOF else None, r\<lparr>sr_startPos := sr_startPos r + int (length p)\<rparr>))
         | None \<Rightarrow>
             (let p = take len (drop at (ff_dirIndex (sr_ff r)))
              in (p, None, r\<lparr>sr_startPos := sr_startPos r + int (length p)\<rparr>))))"

text \<open>
  What the reader of a file delivers, \<open>rng\<close> being the positions given to \<open>UpdateByteRange\<close>. The reader
  of a big file is the file itself, or limited to the range.
\<close>

definition fsReader :: "'t fsFile \<Rightarrow> (int \<times> int) option \<Rightarrow> bytes" where
  "fsReader ff rng =
     (let data = (case ff_f ff of Some f \<Rightarrow> f | None \<Rightarrow> ff_dirIndex ff)
      in case rng of
           None \<Rightarrow> if isBig ff then data else take (nat (ff_contentLength ff)) data
         | Some (startPos, endPos) \<Rightarrow> take (nat (endPos - startPos + 1)) (drop (nat startPos) data))"


section \<open>The file system and the handler's settings\<close>

datatype fs_err = errDirIndexRequired | errNoCreatePermission | FsNotExist | FsError

text \<open>Opening a path and asking for its status.\<close>

datatype 't os_node = OsNotExist | OsError | OsStatError | OsDir | OsFile bytes 't

record fs_entry =
  fe_name :: bytes
  fe_isDir :: bool
  fe_size :: nat
  fe_modTime :: bytes

text \<open>
  \<open>fs_compressFile\<close> stands for the writing of a compressed copy (\<open>compressFileNolock\<close>), \<open>fs_detect\<close> for
  the type found in the first bytes of a file, \<open>fs_opens\<close> for whether a big file can be opened once
  more and \<open>fs_seeks\<close> for whether it can be positioned.
\<close>

record 't fs_env =
  fs_open :: "bytes \<Rightarrow> 't os_node"
  fs_stat :: "bytes \<Rightarrow> 't option"
  fs_readdir :: "bytes \<Rightarrow> fs_entry list option"
  fs_compressFile :: "bytes \<Rightarrow> bytes \<Rightarrow> fs_err + 't fsFile"
  fs_isCompressible :: "bytes \<Rightarrow> bool"
  fs_typeByExtension :: "bytes \<Rightarrow> bytes"
  fs_detect :: "bytes \<Rightarrow> bytes \<Rightarrow> bytes option"
  fs_compressBytes :: "bytes \<Rightarrow> bytes \<Rightarrow> bytes"
  fs_stale :: "'t \<Rightarrow> 't \<Rightarrow> bool"
  fs_now :: 't
  fs_opens :: "'t fsFile \<Rightarrow> bool"
  fs_seeks :: "'t fsFile \<Rightarrow> bool"
  fs_avail :: "nat \<Rightarrow> nat"
  fs_tm :: "'t timelib"
  fs_before :: "'t \<Rightarrow> 't \<Rightarrow> bool"
  fs_toSecond :: "'t \<Rightarrow> 't"

record ('f, 'v, 'h) fsHandler =
  fh_root :: bytes
  fh_indexNames :: "bytes list"
  fh_pathRewrite :: "('f, 'v, 'h) rewriter option"
  fh_pathNotFound :: "('f, 'v, 'h) handler option"
  fh_generateIndexPages :: bool
  fh_compress :: bool
  fh_compressBrotli :: bool
  fh_acceptByteRange :: bool
  fh_suffixBr :: bytes
  fh_suffixGzip :: bytes

text \<open>The root of \<open>initRequestHandler\<close>.\<close>

definition FS_root :: "bytes \<Rightarrow> bytes" where
  "FS_root root = stripTrailingSlashes (if length root = 0 then bytes_of ''.'' else root)"

definition fh_suffix :: "('f, 'v, 'h) fsHandler \<Rightarrow> bytes \<Rightarrow> bytes" where
  "fh_suffix h fileEncoding =
     (if fileEncoding = strBr then fh_suffixBr h else if fileEncoding = strGzip then fh_suffixGzip h else [])"


section \<open>Opening files\<close>

text \<open>The name in a file's status is the last element of its path.\<close>

definition base_name :: "bytes \<Rightarrow> bytes" where
  "base_name path = (case LastIndexByte path (ch CHR ''/'') of None \<Rightarrow> path | Some n \<Rightarrow> drop (n + 1) path)"

definition newFSFile ::
  "'t fs_env \<Rightarrow> ('f, 'v, 'h) fsHandler \<Rightarrow> bytes \<Rightarrow> bytes \<Rightarrow> 't \<Rightarrow> bool \<Rightarrow> bytes \<Rightarrow> fs_err + 't fsFile" where
  "newFSFile E h filePath data modTime compressed fileEncoding =
     (let ext = fileExtension (base_name filePath) compressed (fh_suffix h fileEncoding);
          contentType = fs_typeByExtension E ext
      in case (if length contentType = 0 then fs_detect E (if compressed then fileEncoding else []) data else Some contentType) of
           None \<Rightarrow> Inl FsError
         | Some contentType \<Rightarrow>
             Inr \<lparr>ff_f = Some data, ff_dirIndex = [], ff_contentType = contentType, ff_contentLength = int (length data),
                  ff_compressed = compressed, ff_lastModified = modTime, ff_lastModifiedStr = AppendHTTPDate (fs_tm E) [] modTime\<rparr>)"

definition fsMaxCompressibleFileSize :: nat where
  "fsMaxCompressibleFileSize = 8 * 1024 * 1024"

definition compressAndOpenFSFile ::
  "'t fs_env \<Rightarrow> ('f, 'v, 'h) fsHandler \<Rightarrow> bytes \<Rightarrow> bytes \<Rightarrow> fs_err + 't fsFile" where
  "compressAndOpenFSFile E h filePath fileEncoding =
     (case fs_open E filePath of
        OsNotExist \<Rightarrow> Inl FsNotExist
      | OsError \<Rightarrow> Inl FsError
      | OsStatError \<Rightarrow> Inl FsError
      | OsDir \<Rightarrow> Inl errDirIndexRequired
      | OsFile data modTime \<Rightarrow>
          if suffix (fh_suffix h fileEncoding) filePath \<or> length data > fsMaxCompressibleFileSize \<or> \<not> fs_isCompressible E data
          then newFSFile E h filePath data modTime False []
          else fs_compressFile E filePath fileEncoding)"

definition openFSFile ::
  "'t fs_env \<Rightarrow> ('f, 'v, 'h) fsHandler \<Rightarrow> bytes \<Rightarrow> bool \<Rightarrow> bytes \<Rightarrow> fs_err + 't fsFile" where
  "openFSFile E h filePathOriginal mustCompress fileEncoding =
     (let filePath = (if mustCompress then filePathOriginal @ fh_suffix h fileEncoding else filePathOriginal) in
      case fs_open E filePath of
        OsNotExist \<Rightarrow> if mustCompress then compressAndOpenFSFile E h filePathOriginal fileEncoding else Inl FsNotExist
      | OsError \<Rightarrow> Inl FsError
      | OsStatError \<Rightarrow> Inl FsError
      | OsDir \<Rightarrow> Inl (if mustCompress then FsError else errDirIndexRequired)
      | OsFile data modTime \<Rightarrow>
          if mustCompress then
            (case fs_stat E filePathOriginal of
               None \<Rightarrow> Inl FsError
             | Some modTimeOriginal \<Rightarrow>
                 if fs_stale E modTimeOriginal modTime then compressAndOpenFSFile E h filePathOriginal fileEncoding
                 else newFSFile E h filePath data modTime True fileEncoding)
          else newFSFile E h filePath data modTime False fileEncoding)"

text \<open>\<open>EscapeString\<close> of package \<^verbatim>\<open>html\<close>.\<close>

definition html_EscapeString :: "bytes \<Rightarrow> bytes" where
  "html_EscapeString s =
     concat (map (\<lambda>c. if c = ch CHR ''&'' then bytes_of ''&amp;''
                      else if c = 39 then bytes_of ''&#39;''
                      else if c = ch CHR ''<'' then bytes_of ''&lt;''
                      else if c = ch CHR ''>'' then bytes_of ''&gt;''
                      else if c = 34 then bytes_of ''&#34;'' else [c]) s)"

definition index_entry :: "bytes \<Rightarrow> fs_entry \<Rightarrow> bytes" where
  "index_entry path fi =
     (let auxStr = (if fe_isDir fi then bytes_of ''dir''
                    else bytes_of ''file, '' @ AppendUint_loop (fe_size fi) [] @ bytes_of '' bytes'');
          className = (if fe_isDir fi then bytes_of ''dir'' else bytes_of ''file'')
      in bytes_of ''<li><a href='' @ [34] @ html_EscapeString path @ [34] @ bytes_of '' class='' @ [34] @ className @ [34]
         @ bytes_of ''>'' @ html_EscapeString (fe_name fi) @ bytes_of ''</a>, '' @ auxStr @ bytes_of '', last modified ''
         @ fe_modTime fi @ bytes_of ''</li>'')"

text \<open>The loop over the sorted names; \<open>u\<close> is updated with each.\<close>

fun index_entries :: "URI \<Rightarrow> fs_entry list \<Rightarrow> bytes panics" where
  "index_entries u [] = Ret []"
| "index_entries u (fi # fis) =
     (case URI_UpdateBytes u (fe_name fi) of
        None \<Rightarrow> Panic
      | Some u \<Rightarrow>
          (case index_entries u fis of
             Panic \<Rightarrow> Panic
           | Ret rest \<Rightarrow> Ret (index_entry (URI_Path u) fi @ rest)))"

definition index_header :: "bytes \<Rightarrow> bytes" where
  "index_header base =
     bytes_of ''<html><head><title>'' @ base @ bytes_of ''</title><style>.dir { font-weight: bold }</style></head><body>''
     @ bytes_of ''<h1>'' @ base @ bytes_of ''</h1><ul>''"

definition index_parent :: "URI \<Rightarrow> bytes panics" where
  "index_parent base =
     (if length (html_EscapeString (URI_Path base)) > 1 then
        (case URI_UpdateBytes (URI_CopyTo base empty_uri) (URI_Path base @ bytes_of ''/..'') of
           None \<Rightarrow> Panic
         | Some u \<Rightarrow>
             Ret (bytes_of ''<li><a href='' @ [34] @ html_EscapeString (URI_Path u) @ [34] @ bytes_of '' class='' @ [34]
                  @ bytes_of ''dir'' @ [34] @ bytes_of ''>..</a></li>''))
      else Ret [])"

definition createDirIndex ::
  "'t fs_env \<Rightarrow> ('f, 'v, 'h) fsHandler \<Rightarrow> URI \<Rightarrow> bytes \<Rightarrow> bool \<Rightarrow> bytes \<Rightarrow> (fs_err + 't fsFile) panics" where
  "createDirIndex E h base dirPath mustCompress fileEncoding =
     (case index_parent base of
        Panic \<Rightarrow> Panic
      | Ret parent \<Rightarrow>
          (case fs_readdir E dirPath of
             None \<Rightarrow> Ret (Inl FsError)
           | Some fileinfos \<Rightarrow>
               (let shown = filter (\<lambda>fi. \<not> suffix (fh_suffixBr h) (fe_name fi) \<and> \<not> suffix (fh_suffixGzip h) (fe_name fi)) fileinfos;
                    sorted = SliceStable (\<lambda>x y. bytesCompare (fe_name x) (fe_name y) = -1) shown;
                    u = URI_CopyTo base empty_uri
                in case URI_UpdateBytes u (URI_Path u @ bytes_of ''/'') of
                     None \<Rightarrow> Panic
                   | Some u \<Rightarrow>
                       (case index_entries u sorted of
                          Panic \<Rightarrow> Panic
                        | Ret entries \<Rightarrow>
                            (let w = index_header (html_EscapeString (URI_Path base)) @ parent @ entries @ bytes_of ''</ul></body></html>'';
                                 w = (if mustCompress then fs_compressBytes E fileEncoding w else w)
                             in Ret (Inr \<lparr>ff_f = None, ff_dirIndex = w, ff_contentType = bytes_of ''text/html; charset=utf-8'',
                                  ff_contentLength = int (length w), ff_compressed = mustCompress, ff_lastModified = fs_now E,
                                  ff_lastModifiedStr = AppendHTTPDate (fs_tm E) [] (fs_now E)\<rparr>))))))"

fun openIndexFile_loop ::
  "'t fs_env \<Rightarrow> ('f, 'v, 'h) fsHandler \<Rightarrow> bytes \<Rightarrow> bool \<Rightarrow> bytes \<Rightarrow> bytes list \<Rightarrow> (fs_err + 't fsFile) option" where
  "openIndexFile_loop E h dirPath mustCompress fileEncoding [] = None"
| "openIndexFile_loop E h dirPath mustCompress fileEncoding (indexName # names) =
     (case openFSFile E h (dirPath @ bytes_of ''/'' @ indexName) mustCompress fileEncoding of
        Inr ff \<Rightarrow> Some (Inr ff)
      | Inl err \<Rightarrow>
          if err \<noteq> FsNotExist then Some (Inl FsError)
          else openIndexFile_loop E h dirPath mustCompress fileEncoding names)"

definition openIndexFile ::
  "'t fs_env \<Rightarrow> ('f, 'v, 'h) fsHandler \<Rightarrow> URI \<Rightarrow> bytes \<Rightarrow> bool \<Rightarrow> bytes \<Rightarrow> (fs_err + 't fsFile) panics" where
  "openIndexFile E h uri dirPath mustCompress fileEncoding =
     (case openIndexFile_loop E h dirPath mustCompress fileEncoding (fh_indexNames h) of
        Some res \<Rightarrow> Ret res
      | None \<Rightarrow>
          if \<not> fh_generateIndexPages h then Ret (Inl FsError)
          else createDirIndex E h uri dirPath mustCompress fileEncoding)"


section \<open>Requests\<close>

text \<open>The cache: one map for each encoding.\<close>

type_synonym 't fsCache = "bytes \<Rightarrow> bytes \<Rightarrow> 't fsFile option"

text \<open>A step of \<open>handleRequest\<close> ends the request or goes on with a value.\<close>

datatype ('a, 'f, 'v, 'h) handling = Answered "('f, 'v, 'h) RequestCtx" | Goes 'a "('f, 'v, 'h) RequestCtx" | Panics

definition fs_path :: "('f, 'v, 'h) fsHandler \<Rightarrow> ('f, 'v, 'h) rewriter" where
  "fs_path h ctx = (case fh_pathRewrite h of Some f \<Rightarrow> f ctx | None \<Rightarrow> Ret (ctx_Path ctx))"

text \<open>The local path, and whether the path of the request ended in a slash.\<close>

definition fs_localPath :: "('f, 'v, 'h) fsHandler \<Rightarrow> ('f, 'v, 'h) RequestCtx \<Rightarrow> (bytes \<times> bool, 'f, 'v, 'h) handling" where
  "fs_localPath h ctx =
     (case fs_path h ctx of
        Panic \<Rightarrow> Panics
      | Ret (path, ctx) \<Rightarrow>
          (let hasTrailingSlash = (length path > 0 \<and> last path = ch CHR ''/''); path = stripTrailingSlashes path in
           if IndexByte path 0 \<noteq> None then Answered (ctx_Error ctx (bytes_of ''Are you a hacker?'') StatusBadRequest)
           else if fh_pathRewrite h \<noteq> None \<and> Index path strSlashDotDotSlash \<noteq> None then
             Answered (ctx_Error ctx (bytes_of ''Internal Server Error'') StatusInternalServerError)
           else Goes (path, hasTrailingSlash) ctx))"

text \<open>The encoding of the file; none is the empty string.\<close>

definition fs_encoding :: "('f, 'v, 'h) fsHandler \<Rightarrow> ('f, 'v, 'h) RequestCtx \<Rightarrow> bytes" where
  "fs_encoding h ctx =
     (let hdr = q_Header (x_Request ctx) in
      if length (RequestHeader_peek hdr strRange) = 0 \<and> fh_compress h then
        (if fh_compressBrotli h \<and> RequestHeader_HasAcceptEncodingBytes hdr strBr then strBr
         else if RequestHeader_HasAcceptEncodingBytes hdr strGzip then strGzip else [])
      else [])"

definition fs_openPath ::
  "'t fs_env \<Rightarrow> ('f, 'v, 'h) fsHandler \<Rightarrow> bytes \<Rightarrow> bool \<Rightarrow> bytes \<Rightarrow> ('f, 'v, 'h) RequestCtx \<Rightarrow> ('t fsFile, 'f, 'v, 'h) handling" where
  "fs_openPath E h path hasTrailingSlash fileEncoding ctx =
     (let filePath = fh_root h @ path;
          mustCompress = (fileEncoding \<noteq> []);
          ff = openFSFile E h filePath mustCompress fileEncoding;
          retry = (mustCompress \<and> ff = Inl errNoCreatePermission);
          (mustCompress, ff) = (if retry then (False, openFSFile E h filePath False fileEncoding) else (mustCompress, ff))
      in case ff of
           Inr ff \<Rightarrow> Goes ff ctx
         | Inl err \<Rightarrow>
             if err = errDirIndexRequired then
               (if \<not> hasTrailingSlash then
                  (case ctx_Redirect ctx (path @ [ch CHR ''/'']) StatusFound of None \<Rightarrow> Panics | Some ctx \<Rightarrow> Answered ctx)
                else
                  (case ctx_URI ctx of
                     (uri, ctx) \<Rightarrow>
                       (case openIndexFile E h uri filePath mustCompress fileEncoding of
                          Panic \<Rightarrow> Panics
                        | Ret (Inl err) \<Rightarrow> Answered (ctx_Error ctx (bytes_of ''Directory index is forbidden'') StatusForbidden)
                        | Ret (Inr ff) \<Rightarrow> Goes ff ctx)))
             else
               Answered (case fh_pathNotFound h of
                           None \<Rightarrow> ctx_Error ctx (bytes_of ''Cannot open requested path'') StatusNotFound
                         | Some f \<Rightarrow> f (ctx_SetStatusCode ctx StatusNotFound)))"

definition ctx_header :: "(ResponseHeader \<Rightarrow> ResponseHeader) \<Rightarrow> ('f, 'v, 'h) RequestCtx \<Rightarrow> ('f, 'v, 'h) RequestCtx" where
  "ctx_header f ctx = ctx\<lparr>x_Response := (x_Response ctx)\<lparr>p_Header := f (p_Header (x_Response ctx))\<rparr>\<rparr>"

definition fs_body :: "'t fs_env \<Rightarrow> 't fsFile \<Rightarrow> (int \<times> int) option \<Rightarrow> body_stream" where
  "fs_body E ff rng = \<lparr>bs_reader = \<lparr>rd_data = fsReader ff rng, rd_err = EOF\<rparr>, bs_avail = fs_avail E,
     bs_LimitedReader = None, bs_Closer = Some None\<rparr>"

text \<open>The byte range, if there is one: the positions given to the reader and the header that announces them.\<close>

definition fs_range ::
  "'t fs_env \<Rightarrow> ('f, 'v, 'h) fsHandler \<Rightarrow> 't fsFile \<Rightarrow> bytes \<Rightarrow> ('f, 'v, 'h) RequestCtx
     \<Rightarrow> ((int \<times> int) option, 'f, 'v, 'h) handling" where
  "fs_range E h ff byteRange ctx =
     (if \<not> fh_acceptByteRange h then Goes None ctx
      else
        (let ctx = ctx_header (\<lambda>hdr. ResponseHeader_SetCanonical hdr strAcceptRanges strBytes) ctx in
         if length byteRange = 0 then Goes None ctx
         else
           (case ParseByteRange byteRange (ff_contentLength ff) of
              Inl err \<Rightarrow> Answered (ctx_Error ctx (bytes_of ''Range Not Satisfiable'') StatusRequestedRangeNotSatisfiable)
            | Inr (startPos, endPos) \<Rightarrow>
                if isBig ff \<and> \<not> fs_seeks E ff then
                  Answered (ctx_Error ctx (bytes_of ''Internal Server Error'') StatusInternalServerError)
                else
                  (case ResponseHeader_SetContentRange (p_Header (x_Response ctx)) startPos endPos (ff_contentLength ff) of
                     None \<Rightarrow> Panics
                   | Some hdr \<Rightarrow> Goes (Some (startPos, endPos)) (ctx_header (\<lambda>_. hdr) ctx)))))"

definition fs_serve ::
  "'t fs_env \<Rightarrow> ('f, 'v, 'h) fsHandler \<Rightarrow> 't fsFile \<Rightarrow> bytes \<Rightarrow> ('f, 'v, 'h) RequestCtx \<Rightarrow> ('f, 'v, 'h) RequestCtx panics" where
  "fs_serve E h ff fileEncoding ctx =
     (if \<not> ctx_IfModifiedSince (fs_tm E) (fs_before E) (fs_toSecond E) ctx (ff_lastModified ff) then Ret (ctx_NotModified ctx)
      else if isBig ff \<and> \<not> fs_opens E ff then
        Ret (ctx_Error ctx (bytes_of ''Internal Server Error'') StatusInternalServerError)
      else
        (let ctx = (if ff_compressed ff \<and> fileEncoding \<noteq> []
                    then ctx_header (\<lambda>hdr. ResponseHeader_SetCanonical hdr strContentEncoding fileEncoding) ctx else ctx)
         in case fs_range E h ff (RequestHeader_peek (q_Header (x_Request ctx)) strRange) ctx of
              Panics \<Rightarrow> Panic
            | Answered ctx \<Rightarrow> Ret ctx
            | Goes rng ctx \<Rightarrow>
                if ctx_IsHead ctx \<and> isBig ff \<and> \<not> fs_seeks E ff then
                  Ret (ctx_Error ctx (bytes_of ''Internal Server Error'') StatusInternalServerError)
                else
                (let statusCode = (if rng = None then StatusOK else StatusPartialContent);
                     contentLength = (case rng of None \<Rightarrow> ff_contentLength ff | Some (startPos, endPos) \<Rightarrow> endPos - startPos + 1);
                     ctx = ctx_header (\<lambda>hdr. ResponseHeader_SetCanonical hdr strLastModified (ff_lastModifiedStr ff)) ctx;
                     ctx = (if \<not> ctx_IsHead ctx then ctx_SetBodyStream ctx (Some (fs_body E ff rng)) contentLength
                            else
                              (let ctx = ctx_ResetBody ctx;
                                   ctx = ctx\<lparr>x_Response := (x_Response ctx)\<lparr>p_SkipBody := True\<rparr>\<rparr>
                               in ctx_header (\<lambda>hdr. ResponseHeader_SetContentLength hdr contentLength) ctx));
                     ctx = ctx_header (\<lambda>hdr. hdr\<lparr>rs_noDefaultContentType := True\<rparr>) ctx;
                     ctx = (if length (ResponseHeader_ContentType (p_Header (x_Response ctx))) = 0
                            then ctx_SetContentType ctx (ff_contentType ff) else ctx)
                 in Ret (ctx_SetStatusCode ctx statusCode))))"

definition handleRequest ::
  "'t fs_env \<Rightarrow> ('f, 'v, 'h) fsHandler \<Rightarrow> 't fsCache \<Rightarrow> ('f, 'v, 'h) RequestCtx \<Rightarrow> (('f, 'v, 'h) RequestCtx \<times> 't fsCache) panics" where
  "handleRequest E h cache ctx =
     (case fs_localPath h ctx of
        Panics \<Rightarrow> Panic
      | Answered ctx \<Rightarrow> Ret (ctx, cache)
      | Goes (path, hasTrailingSlash) ctx \<Rightarrow>
          (let fileEncoding = fs_encoding h ctx in
           case cache fileEncoding path of
             Some ff \<Rightarrow> (case fs_serve E h ff fileEncoding ctx of Panic \<Rightarrow> Panic | Ret ctx \<Rightarrow> Ret (ctx, cache))
           | None \<Rightarrow>
               (case fs_openPath E h path hasTrailingSlash fileEncoding ctx of
                  Panics \<Rightarrow> Panic
                | Answered ctx \<Rightarrow> Ret (ctx, cache)
                | Goes ff ctx \<Rightarrow>
                    (case fs_serve E h ff fileEncoding ctx of
                       Panic \<Rightarrow> Panic
                     | Ret ctx \<Rightarrow> Ret (ctx, cache(fileEncoding := (cache fileEncoding)(path \<mapsto> ff)))))))"



section \<open>Settings\<close>

text \<open>
  \<open>FS\<close> and what \<open>initRequestHandler\<close> makes of it, apart from the goroutine of the cleaner. The suffixes are
  a map, to which the handler keeps a reference: the map of the settings or the one of the package, which
  all handlers share. The result is the handler with the suffixes it sees now, the map it refers to, and
  the two maps as they are afterwards.
\<close>

type_synonym suffixes = "bytes \<Rightarrow> bytes"

datatype suffix_map = SettingsMap | PackageMap

record ('f, 'v, 'h) FS =
  FS_Root :: bytes
  FS_IndexNames :: "bytes list"
  FS_GenerateIndexPages :: bool
  FS_Compress :: bool
  FS_CompressBrotli :: bool
  FS_AcceptByteRange :: bool
  FS_PathRewrite :: "('f, 'v, 'h) rewriter option"
  FS_PathNotFound :: "('f, 'v, 'h) handler option"
  FS_CompressedFileSuffix :: bytes
  FS_CompressedFileSuffixes :: suffixes

definition FSCompressedFileSuffixes :: suffixes where
  "FSCompressedFileSuffixes = (\<lambda>_. [])(strGzip := bytes_of ''.fasthttp.gz'', strBr := bytes_of ''.fasthttp.br'')"

definition initRequestHandler ::
  "('f, 'v, 'h) FS \<Rightarrow> suffixes \<Rightarrow> ('f, 'v, 'h) fsHandler \<times> suffix_map \<times> suffixes \<times> suffixes" where
  "initRequestHandler fs package =
     (let settings = FS_CompressedFileSuffixes fs;
          which = (if length (settings strBr) = 0 \<or> length (settings strGzip) = 0 \<or> settings strBr = settings strGzip
                   then PackageMap else SettingsMap);
          (settings, package) =
            (if length (FS_CompressedFileSuffix fs) > 0 then
               (case which of
                  SettingsMap \<Rightarrow> (settings(strGzip := FS_CompressedFileSuffix fs, strBr := package strBr), package)
                | PackageMap \<Rightarrow> (settings, package(strGzip := FS_CompressedFileSuffix fs)))
             else (settings, package));
          suffixes = (case which of SettingsMap \<Rightarrow> settings | PackageMap \<Rightarrow> package)
      in (\<lparr>fh_root = FS_root (FS_Root fs), fh_indexNames = FS_IndexNames fs, fh_pathRewrite = FS_PathRewrite fs,
            fh_pathNotFound = FS_PathNotFound fs, fh_generateIndexPages = FS_GenerateIndexPages fs, fh_compress = FS_Compress fs,
            fh_compressBrotli = FS_CompressBrotli fs, fh_acceptByteRange = FS_AcceptByteRange fs,
            fh_suffixBr = suffixes strBr, fh_suffixGzip = suffixes strGzip\<rparr>,
          which, settings, package))"

definition FSHandler :: "bytes \<Rightarrow> int \<Rightarrow> ('f, 'v, 'h) FS" where
  "FSHandler root stripSlashes =
     \<lparr>FS_Root = root, FS_IndexNames = [bytes_of ''index.html''], FS_GenerateIndexPages = True, FS_Compress = False,
      FS_CompressBrotli = False, FS_AcceptByteRange = True,
      FS_PathRewrite = (if stripSlashes > 0 then Some (NewPathSlashesStripper stripSlashes) else None), FS_PathNotFound = None,
      FS_CompressedFileSuffix = [], FS_CompressedFileSuffixes = (\<lambda>_. [])\<rparr>"

end
