(* ===== verification/FsProps.thy ===== *)
theory FsProps
  imports Fs ServeConn
begin

text \<open>
  What the handler for static files (\<open>Fs\<close>) does: byte ranges are parsed and served exactly, an empty file
  makes it panic, and without a rewriter it reads nothing outside its root.
\<close>


section \<open>Parsing ranges\<close>

lemma parseUintBuf_loop_nonneg: "parseUintBuf_loop b i v = (r, k, None) \<Longrightarrow> 0 \<le> v \<Longrightarrow> 0 \<le> r"
  by (induction b i v rule: parseUintBuf_loop.induct) (auto simp: Let_def split: if_splits)

lemma ParseUint_nonneg: "ParseUint b = (v, None) \<Longrightarrow> 0 \<le> v"
  by (auto simp: ParseUint_def parseUintBuf_def split: if_splits prod.splits dest: parseUintBuf_loop_nonneg)

lemma ParseByteRange_bounds:
  assumes "ParseByteRange b n = Inr (s, e)" and "0 < n"
  shows "0 \<le> s \<and> s \<le> n \<and> e < n \<and> s \<le> e + 1"
  using assms by (auto simp: ParseByteRange_def Let_def dest!: ParseUint_nonneg split: if_splits option.splits prod.splits)

lemma IndexByte_digits: "IndexByte (AppendUint_loop k [] @ 45 # xs) 45 = Some (length (AppendUint_loop k []))"
proof (rule IndexByte_append)
  have "\<not> is_digit 45" by (simp add: is_digit_def)
  then show "45 \<notin> set (AppendUint_loop k [])" using AppendUint_loop_is_digits [of k] by (auto simp: list_all_iff)
qed

lemma digits_nonempty: "AppendUint_loop k [] \<noteq> []"
  by (metis AppendUint_loop_nonempty)

definition range_text :: "bytes \<Rightarrow> bytes" where
  "range_text r = strBytes @ bytes_of ''='' @ r"

lemma ParseByteRange_text:
  "ParseByteRange (range_text r) n =
     (case IndexByte r 45 of
        None \<Rightarrow> Inl RangeNoEnd
      | Some k \<Rightarrow>
          if k = 0 then (case ParseUint (drop 1 r) of (v, Some err) \<Rightarrow> Inl (RangeUint err) | (v, None) \<Rightarrow> Inr (max 0 (n - v), n - 1))
          else
            (case ParseUint (take k r) of
               (s, Some err) \<Rightarrow> Inl (RangeUint err)
             | (s, None) \<Rightarrow>
                 if s \<ge> n then Inl RangeStart
                 else if drop (k + 1) r = [] then Inr (s, n - 1)
                 else
                   (case ParseUint (drop (k + 1) r) of
                      (e, Some err) \<Rightarrow> Inl (RangeUint err)
                    | (e, None) \<Rightarrow> if min e (n - 1) < s then Inl RangeOrder else Inr (s, min e (n - 1)))))"
proof -
  have 1: "prefix strBytes (range_text r)" "drop (length strBytes) (range_text r) = 61 # r" by (simp_all add: range_text_def bytes_of_def)
  obtain v err where v: "ParseUint (drop (Suc 0) r) = (v, err)" by (metis surj_pair)
  show ?thesis
  proof (cases "IndexByte r 45")
    case None
    then show ?thesis by (simp add: ParseByteRange_def 1 Let_def del: IndexByte_None)
  next
    case (Some k)
    obtain s es where s: "ParseUint (take k r) = (s, es)" by (metis surj_pair)
    obtain e ee where e: "ParseUint (drop (Suc k) r) = (e, ee)" by (metis surj_pair)
    show ?thesis
      by (cases err; cases es; cases ee) (simp_all add: ParseByteRange_def 1 Let_def Some v s e max_def min_def)
  qed
qed

lemma range_first_last:
  assumes "s < 2 ^ 63" and "e < 2 ^ 63"
  shows "ParseByteRange (range_text (AppendUint_loop s [] @ bytes_of ''-'' @ AppendUint_loop e [])) n =
    (if int s \<ge> n then Inl RangeStart else if min (int e) (n - 1) < int s then Inl RangeOrder else Inr (int s, min (int e) (n - 1)))"
proof -
  have "AppendUint_loop s [] @ bytes_of ''-'' @ AppendUint_loop e [] = AppendUint_loop s [] @ 45 # AppendUint_loop e []"
    by (simp add: bytes_of_def)
  then show ?thesis unfolding ParseByteRange_text
    by (simp add: IndexByte_digits ParseUint_AppendUint_loop [OF assms(1)] ParseUint_AppendUint_loop [OF assms(2)])
qed

lemma range_first:
  assumes "s < 2 ^ 63"
  shows "ParseByteRange (range_text (AppendUint_loop s [] @ bytes_of ''-'')) n = (if int s \<ge> n then Inl RangeStart else Inr (int s, n - 1))"
proof -
  have "AppendUint_loop s [] @ bytes_of ''-'' = AppendUint_loop s [] @ 45 # []" by (simp add: bytes_of_def)
  then show ?thesis unfolding ParseByteRange_text by (simp add: IndexByte_digits ParseUint_AppendUint_loop [OF assms(1)])
qed

lemma range_suffix:
  assumes "s < 2 ^ 63"
  shows "ParseByteRange (range_text (bytes_of ''-'' @ AppendUint_loop s [])) n = Inr (max 0 (n - int s), n - 1)"
  unfolding ParseByteRange_text by (simp add: bytes_of_def ParseUint_AppendUint_loop [OF assms(1)])


section \<open>Serving a file\<close>

lemma header_simps [simp]:
  "p_Header (x_Response (ctx_header f ctx)) = f (p_Header (x_Response ctx))" "x_Request (ctx_header f ctx) = x_Request ctx"
  "p_bodyStream (x_Response (ctx_header f ctx)) = p_bodyStream (x_Response ctx)"
  "p_SkipBody (x_Response (ctx_header f ctx)) = p_SkipBody (x_Response ctx)"
  by (simp_all add: ctx_header_def)

lemma fs_range_empty:
  assumes "fh_acceptByteRange h" and "ff_contentLength ff = 0" and "isBig ff \<longrightarrow> fs_seeks E ff" and "s < 2 ^ 63"
  shows "fs_range E h ff (range_text (bytes_of ''-'' @ AppendUint_loop s [])) ctx = Panics"
proof -
  have "length (range_text (bytes_of ''-'' @ AppendUint_loop s [])) \<noteq> 0" by (simp add: range_text_def bytes_of_def)
  then show ?thesis
    using assms range_suffix [OF assms(4), of 0] by (auto simp: fs_range_def ResponseHeader_SetContentRange_def AppendUint_def Let_def)
qed

definition content_range :: "int \<Rightarrow> int \<Rightarrow> int \<Rightarrow> bytes" where
  "content_range s e n =
     strBytes @ bytes_of '' '' @ AppendUint_loop (nat s) [] @ bytes_of ''-'' @ AppendUint_loop (nat e) [] @ bytes_of ''/''
       @ AppendUint_loop (nat n) []"

lemma field_key: "hd strContentRange OR 0x20 = 99" "strContentRange \<noteq> []"
  "\<not> caseInsensitiveCompare strContentType strContentRange" "\<not> caseInsensitiveCompare strContentLength strContentRange"
  "\<not> caseInsensitiveCompare strConnection strContentRange"
  by code_simp+

lemma SetContentRange_Some:
  assumes "0 \<le> s" and "0 \<le> e" and "0 \<le> n"
  shows "\<exists>b. ResponseHeader_SetContentRange h s e n =
    Some (h\<lparr>rs_bufKV := b, rs_h := setArg (rs_h h) strContentRange (content_range s e n) argsHasValue\<rparr>)"
  using assms by (auto simp: ResponseHeader_SetContentRange_def AppendUint_def bytes_of_def content_range_def
      ResponseHeader_SetCanonical_def ResponseHeader_setSpecialHeader_def field_key Let_def)

text \<open>The header fields that survive the steps of \<open>fs_serve\<close>.\<close>

definition has_field :: "ResponseHeader \<Rightarrow> bytes \<Rightarrow> bytes \<Rightarrow> bool" where
  "has_field h k v \<longleftrightarrow> peekArg (rs_h h) k = Some v"

lemma has_field_set:
  "has_field (h\<lparr>rs_bufKV := kv, rs_h := setArg x k v argsHasValue\<rparr>) k v"
  "k' \<noteq> k \<Longrightarrow> has_field (h\<lparr>rs_h := setArg (rs_h h) k' v' argsHasValue\<rparr>) k v = has_field h k v"
  by (simp_all add: has_field_def peekArg_list list_peek_set)

lemma SetLastModified_field: "ResponseHeader_SetCanonical h strLastModified v = h\<lparr>rs_h := setArg (rs_h h) strLastModified v argsHasValue\<rparr>"
proof -
  have "hd strLastModified OR 0x20 = 108" "strLastModified \<noteq> []" by code_simp+
  then show ?thesis by (simp add: ResponseHeader_SetCanonical_def ResponseHeader_setSpecialHeader_def Let_def)
qed

lemma range_names: "strLastModified \<noteq> strContentRange" "strTransferEncoding \<noteq> strContentRange"
  by code_simp+

lemma has_field_length: "has_field (ResponseHeader_SetContentLength h n) strContentRange v = has_field h strContentRange v"
  using range_names(2) by (simp add: ResponseHeader_SetContentLength_def has_field_def peekArg_list list_peek_set list_peek_del
    ResponseHeader_SetConnectionClose_def Let_def)

lemma has_field_parts [simp]:
  "has_field (h\<lparr>rs_noDefaultContentType := b\<rparr>) k v = has_field h k v" "has_field (ResponseHeader_SetContentType h t) k v = has_field h k v"
  "has_field (ResponseHeader_SetStatusCode h c) k v = has_field h k v"
  by (simp_all add: has_field_def ResponseHeader_SetContentType_def ResponseHeader_SetStatusCode_def)

lemma framing_parts [simp]:
  "rs_contentLength (ResponseHeader_SetContentType h t) = rs_contentLength h" "rs_contentLength (ResponseHeader_SetStatusCode h c) = rs_contentLength h"
  "rs_statusCode (ResponseHeader_SetContentType h t) = rs_statusCode h" "rs_statusCode (ResponseHeader_SetStatusCode h c) = c"
  by (simp_all add: ResponseHeader_SetContentType_def ResponseHeader_SetStatusCode_def)

lemma content_length_set:
  "\<not> ResponseHeader_mustSkipContentLength h \<Longrightarrow> 0 \<le> n \<Longrightarrow> rs_contentLength (ResponseHeader_SetContentLength h n) = n"
  by (simp add: ResponseHeader_SetContentLength_def Let_def)

lemma SetBodyStream_parts [simp]:
  "p_bodyStream (Response_SetBodyStream r b n) = b"
  "p_Header (Response_SetBodyStream r b n) = ResponseHeader_SetContentLength (p_Header r) n"
  by (simp_all add: Response_SetBodyStream_def Response_ResetBody_def Response_closeBodyStream_def Let_def split: option.splits)

lemma SetCanonical_status [simp]: "rs_statusCode (ResponseHeader_SetCanonical h k v) = rs_statusCode h"
  by (simp add: ResponseHeader_SetCanonical_def ResponseHeader_setSpecialHeader_def ResponseHeader_SetConnectionClose_def
    ResponseHeader_ResetConnectionClose_def ResponseHeader_SetServer_def ResponseHeader_SetContentType_def Let_def
    split: prod.splits option.splits bool.splits)

lemma SetContentLength_keeps_status [simp]: "rs_statusCode (ResponseHeader_SetContentLength h n) = rs_statusCode h"
  by (simp add: ResponseHeader_SetContentLength_def ResponseHeader_SetConnectionClose_def Let_def)

lemma mustSkip_by_status:
  "rs_statusCode h = rs_statusCode h' \<Longrightarrow> ResponseHeader_mustSkipContentLength h = ResponseHeader_mustSkipContentLength h'"
  by (simp add: ResponseHeader_mustSkipContentLength_def ResponseHeader_StatusCode_def)

text \<open>A range of a file that is served.\<close>

lemma fs_range_some:
  assumes "fh_acceptByteRange h" and "b \<noteq> []" and "ParseByteRange b n = Inr (s, e)" and "n = ff_contentLength ff"
    and "isBig ff \<longrightarrow> fs_seeks E ff" and "0 \<le> s" and "0 \<le> e" and "0 \<le> n"
  obtains ctx' where "fs_range E h ff b ctx = Goes (Some (s, e)) ctx'" and "x_Request ctx' = x_Request ctx"
    and "has_field (p_Header (x_Response ctx')) strContentRange (content_range s e n)"
    and "rs_statusCode (p_Header (x_Response ctx')) = rs_statusCode (p_Header (x_Response ctx))"
proof -
  let ?h = "ResponseHeader_SetCanonical (p_Header (x_Response ctx)) strAcceptRanges strBytes"
  obtain kv where kv: "ResponseHeader_SetContentRange ?h s e n =
      Some (?h\<lparr>rs_bufKV := kv, rs_h := setArg (rs_h ?h) strContentRange (content_range s e n) argsHasValue\<rparr>)" (is "_ = Some ?h'")
    using SetContentRange_Some [OF assms(6-8)] by blast
  let ?ctx = "ctx_header (\<lambda>_. ?h') (ctx_header (\<lambda>hdr. ResponseHeader_SetCanonical hdr strAcceptRanges strBytes) ctx)"
  have "fs_range E h ff b ctx = Goes (Some (s, e)) ?ctx"
    using assms(1-5) kv by (auto simp: fs_range_def Let_def)
  then show thesis by (rule that) (simp_all add: has_field_set)
qed

lemma fs_serve_range:
  assumes "ctx_IfModifiedSince (fs_tm E) (fs_before E) (fs_toSecond E) ctx (ff_lastModified ff)" and "isBig ff \<longrightarrow> fs_opens E ff \<and> fs_seeks E ff"
    and "fh_acceptByteRange h" and "\<not> ctx_IsHead ctx"
    and "ParseByteRange (RequestHeader_peek (q_Header (x_Request ctx)) strRange) (ff_contentLength ff) = Inr (s, e)" and "s \<le> e"
    and "ff_f ff = Some data" and "ff_contentLength ff = int (length data)" and "data \<noteq> []"
    and "\<not> ResponseHeader_mustSkipContentLength (p_Header (x_Response ctx))"
  shows "\<exists>ctx'. fs_serve E h ff enc ctx = Ret ctx' \<and> rs_statusCode (p_Header (x_Response ctx')) = StatusPartialContent
    \<and> map_option (rd_data \<circ> bs_reader) (p_bodyStream (x_Response ctx')) = Some (take (nat (e - s + 1)) (drop (nat s) data))
    \<and> rs_contentLength (p_Header (x_Response ctx')) = e - s + 1 \<and> length (take (nat (e - s + 1)) (drop (nat s) data)) = nat (e - s + 1)
    \<and> has_field (p_Header (x_Response ctx')) strContentRange (content_range s e (int (length data)))"
proof -
  let ?b = "RequestHeader_peek (q_Header (x_Request ctx)) strRange"
  have b: "0 \<le> s" "e < int (length data)" "0 \<le> e" using ParseByteRange_bounds [OF assms(5)] assms(6,8,9) by auto
  have "?b \<noteq> []"
  proof
    assume "?b = []"
    moreover have "\<not> prefix strBytes []" by code_simp
    ultimately show False using assms(5) by (simp add: ParseByteRange_def)
  qed
  define ctx1 where "ctx1 = (if ff_compressed ff \<and> enc \<noteq> [] then ctx_header (\<lambda>hdr. ResponseHeader_SetCanonical hdr strContentEncoding enc) ctx else ctx)"
  have c1: "x_Request ctx1 = x_Request ctx" "rs_statusCode (p_Header (x_Response ctx1)) = rs_statusCode (p_Header (x_Response ctx))"
    by (simp_all add: ctx1_def)
  obtain ctx2 where c2: "fs_range E h ff ?b ctx1 = Goes (Some (s, e)) ctx2" "x_Request ctx2 = x_Request ctx1"
    "has_field (p_Header (x_Response ctx2)) strContentRange (content_range s e (int (length data)))"
    "rs_statusCode (p_Header (x_Response ctx2)) = rs_statusCode (p_Header (x_Response ctx1))"
    by (rule fs_range_some [OF assms(3) \<open>?b \<noteq> []\<close> assms(5) refl, of E ctx1]) (use assms(2,8) b in auto)
  have head: "\<not> ctx_IsHead ctx2" using assms(4) c1 c2 by (simp add: ctx_IsHead_def)
  let ?ctx3 = "ctx_header (\<lambda>hdr. hdr\<lparr>rs_noDefaultContentType := True\<rparr>)
    (ctx_SetBodyStream (ctx_header (\<lambda>hdr. ResponseHeader_SetCanonical hdr strLastModified (ff_lastModifiedStr ff)) ctx2)
      (Some (fs_body E ff (Some (s, e)))) (e - s + 1))"
  let ?ctx4 = "if length (ResponseHeader_ContentType (p_Header (x_Response ?ctx3))) = 0 then ctx_SetContentType ?ctx3 (ff_contentType ff) else ?ctx3"
  have ok: "(isBig ff \<and> \<not> fs_opens E ff) = False" using assms(2) by auto
  have r: "fs_serve E h ff enc ctx = Ret (ctx_SetStatusCode ?ctx4 StatusPartialContent)"
    using assms(1) c1 c2(1) head unfolding fs_serve_def ctx1_def [symmetric] ok
    by (simp add: ctx_IsHead_def Let_def ctx_SetBodyStream_def)
  have skip: "\<not> ResponseHeader_mustSkipContentLength (ResponseHeader_SetCanonical (p_Header (x_Response ctx2)) strLastModified (ff_lastModifiedStr ff))"
    using assms(10) mustSkip_by_status [of "ResponseHeader_SetCanonical (p_Header (x_Response ctx2)) strLastModified (ff_lastModifiedStr ff)"
        "p_Header (x_Response ctx)"] c1(2) c2(4) by simp
  have fields: "has_field (p_Header (x_Response ?ctx4)) strContentRange (content_range s e (int (length data)))"
    "rs_contentLength (p_Header (x_Response ?ctx4)) = e - s + 1" "p_bodyStream (x_Response ?ctx4) = Some (fs_body E ff (Some (s, e)))"
    using c2(3) range_names(1) b assms(6) content_length_set [OF skip, of "e - s + 1"]
    by (simp_all add: ctx_SetContentType_def ctx_SetBodyStream_def has_field_length has_field_set SetLastModified_field)
  define ctx4 where "ctx4 = ?ctx4"
  note c4 = r [folded ctx4_def] fields [folded ctx4_def]
  have "p_Header (x_Response (ctx_SetStatusCode ctx4 n)) = ResponseHeader_SetStatusCode (p_Header (x_Response ctx4)) n"
    "p_bodyStream (x_Response (ctx_SetStatusCode ctx4 n)) = p_bodyStream (x_Response ctx4)" for n
    by (simp_all add: ctx_SetStatusCode_def Response_SetStatusCode_def)
  with c4 b assms(6,7) show ?thesis
    by (intro exI [of _ "ctx_SetStatusCode ctx4 StatusPartialContent"]) (simp add: fs_body_def fsReader_def)
qed

section \<open>Files below the root\<close>

text \<open>Paths without a segment \<open>..\<close>, and the paths below the root of a handler.\<close>

definition no_up :: "bytes \<Rightarrow> bool" where
  "no_up p \<longleftrightarrow> bytes_of ''..'' \<notin> set (split_on 47 p)"

definition below_root :: "('f, 'v, 'h) fsHandler \<Rightarrow> bytes \<Rightarrow> bool" where
  "below_root h f \<longleftrightarrow>
     (\<exists>p. f = fh_root h @ p \<and> no_up p \<and> (p = [] \<or> hd p = 47 \<or> p = fh_suffixBr h \<or> p = fh_suffixGzip h))"

text \<open>Index names that stay in their directory, suffixes that only extend the last segment.\<close>

definition fs_suffix_ok :: "bytes \<Rightarrow> bool" where
  "fs_suffix_ok s \<longleftrightarrow> 47 \<notin> set s \<and> (\<exists>c \<in> set s. c \<noteq> 46)"

definition names_ok :: "('f, 'v, 'h) fsHandler \<Rightarrow> bool" where
  "names_ok h \<longleftrightarrow> list_all no_up (fh_indexNames h) \<and> fs_suffix_ok (fh_suffixBr h) \<and> fs_suffix_ok (fh_suffixGzip h)"





















section \<open>A request for a range\<close>

lemma Path_header: "q_Header (x_Request (snd (ctx_Path ctx))) = q_Header (x_Request ctx)"
  "x_Response (snd (ctx_Path ctx)) = x_Response ctx"
  by (simp_all add: ctx_Path_def ctx_URI_def Request_URI_def Request_parseURI_def Let_def split: prod.splits)

lemma handleRequest_cases:
  assumes "fh_pathRewrite h = None" and "stripTrailingSlashes (fst (ctx_Path ctx)) = p" and "0 \<notin> set p"
    and "RequestHeader_peek (q_Header (x_Request ctx)) strRange \<noteq> []" and "cache [] p = None"
    and "openFSFile E h (fh_root h @ p) False [] = Inr ff"
  shows "handleRequest E h cache ctx =
    (case fs_serve E h ff [] (snd (ctx_Path ctx)) of Panic \<Rightarrow> Panic | Ret ctx' \<Rightarrow> Ret (ctx', cache([] := (cache [])(p \<mapsto> ff))))"
proof -
  obtain path ctx1 where path: "ctx_Path ctx = (path, ctx1)" by fastforce
  have "IndexByte p 0 = None" using assms(3) by simp
  then have "fs_localPath h ctx = Goes (p, length path > 0 \<and> last path = ch CHR ''/'') ctx1"
    using path assms(1,2) by (simp add: fs_localPath_def fs_path_def Let_def del: IndexByte_None)
  moreover have "fs_encoding h ctx1 = []"
    using assms(4) path Path_header(1) [of ctx] by (simp add: fs_encoding_def Let_def)
  ultimately show ?thesis using assms(5,6) path by (simp add: handleRequest_def fs_openPath_def Let_def split: panics.split)
qed

lemma handleRequest_opens:
  assumes "fh_pathRewrite h = None" and "stripTrailingSlashes (fst (ctx_Path ctx)) = p" and "0 \<notin> set p"
    and "RequestHeader_peek (q_Header (x_Request ctx)) strRange \<noteq> []" and "cache [] p = None"
    and "openFSFile E h (fh_root h @ p) False [] = Inr ff" and "fs_serve E h ff [] (snd (ctx_Path ctx)) = Ret ctx'"
  shows "handleRequest E h cache ctx = Ret (ctx', cache([] := (cache [])(p \<mapsto> ff)))"
  using handleRequest_cases [where cache = cache, OF assms(1-6)] assms(7) by simp

lemma openFSFile_plain:
  assumes "fs_open E f = OsFile data mt" and "fs_typeByExtension E (fileExtension (base_name f) False []) \<noteq> []"
  obtains ff where "openFSFile E h f False [] = Inr ff" and "ff_f ff = Some data" and "ff_contentLength ff = int (length data)"
    and "ff_lastModified ff = mt"
proof -
  have "bytes_of ''br'' \<noteq> []" by (simp add: bytes_of_def)
  then have "fh_suffix h [] = []" by (simp add: fh_suffix_def strBr_def strGzip_def)
  then show thesis using assms by (intro that) (simp add: openFSFile_def newFSFile_def Let_def)+
qed

lemma range_request:
  fixes ctx :: "('f, 'v, 'h) RequestCtx"
  assumes "fh_pathRewrite h = None" and "fh_acceptByteRange h" and "stripTrailingSlashes (fst (ctx_Path ctx)) = p" and "0 \<notin> set p"
    and "cache [] p = None" and "fs_open E (fh_root h @ p) = OsFile data mt"
    and "fs_typeByExtension E (fileExtension (base_name (fh_root h @ p)) False []) \<noteq> []"
    and "ctx_IfModifiedSince (fs_tm E) (fs_before E) (fs_toSecond E) ctx mt" and "\<And>ff. fs_opens E ff \<and> fs_seeks E ff"
    and "\<not> ctx_IsHead ctx" and "\<not> ResponseHeader_mustSkipContentLength (p_Header (x_Response ctx))"
    and "ParseByteRange (RequestHeader_peek (q_Header (x_Request ctx)) strRange) (int (length data)) = Inr (s, e)" and "s \<le> e" and "data \<noteq> []"
  shows "\<exists>ctx' cache'. handleRequest E h cache ctx = Ret (ctx', cache')
    \<and> rs_statusCode (p_Header (x_Response ctx')) = StatusPartialContent
    \<and> map_option (rd_data \<circ> bs_reader) (p_bodyStream (x_Response ctx')) = Some (take (nat (e - s + 1)) (drop (nat s) data))
    \<and> rs_contentLength (p_Header (x_Response ctx')) = e - s + 1 \<and> length (take (nat (e - s + 1)) (drop (nat s) data)) = nat (e - s + 1)
    \<and> has_field (p_Header (x_Response ctx')) strContentRange (content_range s e (int (length data)))"
proof -
  obtain ff where ff: "openFSFile E h (fh_root h @ p) False [] = Inr ff" "ff_f ff = Some data" "ff_contentLength ff = int (length data)"
    "ff_lastModified ff = mt" by (rule openFSFile_plain [OF assms(6,7)])
  let ?ctx = "snd (ctx_Path ctx)" and ?b = "RequestHeader_peek (q_Header (x_Request ctx)) strRange"
  have 1: "ctx_IfModifiedSince (fs_tm E) (fs_before E) (fs_toSecond E) ?ctx (ff_lastModified ff)" "\<not> ctx_IsHead ?ctx"
    "\<not> ResponseHeader_mustSkipContentLength (p_Header (x_Response ?ctx))"
    "ParseByteRange (RequestHeader_peek (q_Header (x_Request ?ctx)) strRange) (ff_contentLength ff) = Inr (s, e)"
    using assms(8,10-12) ff(3,4) by (simp_all add: ctx_IfModifiedSince_def ctx_IsHead_def Path_header)
  obtain ctx' where ctx': "fs_serve E h ff [] ?ctx = Ret ctx'" "rs_statusCode (p_Header (x_Response ctx')) = StatusPartialContent"
    "map_option (rd_data \<circ> bs_reader) (p_bodyStream (x_Response ctx')) = Some (take (nat (e - s + 1)) (drop (nat s) data))"
    "rs_contentLength (p_Header (x_Response ctx')) = e - s + 1" "length (take (nat (e - s + 1)) (drop (nat s) data)) = nat (e - s + 1)"
    "has_field (p_Header (x_Response ctx')) strContentRange (content_range s e (int (length data)))"
    using fs_serve_range [OF 1(1) _ assms(2) 1(2,4) assms(13) ff(2,3) assms(14) 1(3), of "[]"] assms(9) by blast
  have "\<not> prefix strBytes []" by code_simp
  then have "?b \<noteq> []" using assms(12) by (auto simp: ParseByteRange_def)
  from handleRequest_opens [where cache = cache, OF assms(1,3,4) this assms(5) ff(1) ctx'(1)] ctx'(2-) show ?thesis
    by (intro exI conjI)
qed

lemma range_panics:
  fixes ctx :: "('f, 'v, 'h) RequestCtx"
  assumes "fh_pathRewrite h = None" and "fh_acceptByteRange h" and "stripTrailingSlashes (fst (ctx_Path ctx)) = p" and "0 \<notin> set p"
    and "cache [] p = None" and "fs_open E (fh_root h @ p) = OsFile [] mt"
    and "fs_typeByExtension E (fileExtension (base_name (fh_root h @ p)) False []) \<noteq> []"
    and "ctx_IfModifiedSince (fs_tm E) (fs_before E) (fs_toSecond E) ctx mt"
    and "RequestHeader_peek (q_Header (x_Request ctx)) strRange = range_text (bytes_of ''-'' @ AppendUint_loop n [])" and "n < 2 ^ 63"
  shows "handleRequest E h cache ctx = Panic"
proof -
  obtain ff where ff: "openFSFile E h (fh_root h @ p) False [] = Inr ff" "ff_f ff = Some []" "ff_contentLength ff = 0"
    "ff_lastModified ff = mt" by (rule openFSFile_plain [OF assms(6,7), where h = h]) simp
  let ?ctx = "snd (ctx_Path ctx)"
  have small: "\<not> isBig ff" using ff(3) by (simp add: isBig_def maxSmallFileSize_def)
  have since: "ctx_IfModifiedSince (fs_tm E) (fs_before E) (fs_toSecond E) ?ctx (ff_lastModified ff)"
    "RequestHeader_peek (q_Header (x_Request ?ctx)) strRange = range_text (bytes_of ''-'' @ AppendUint_loop n [])"
    using assms(8,9) ff(4) by (simp_all add: ctx_IfModifiedSince_def Path_header)
  have "fs_range E h ff (range_text (bytes_of ''-'' @ AppendUint_loop n [])) c = Panics" for c :: "('f, 'v, 'h) RequestCtx"
    by (rule fs_range_empty [OF assms(2) ff(3) _ assms(10)]) (simp add: small)
  then have "fs_serve E h ff [] ?ctx = Panic"
    using since small by (simp add: fs_serve_def)
  moreover have "RequestHeader_peek (q_Header (x_Request ctx)) strRange \<noteq> []" unfolding assms(9) by (simp add: range_text_def bytes_of_def)
  ultimately show ?thesis
    using handleRequest_cases [where cache = cache, OF assms(1,3,4) _ assms(5) ff(1)] by simp
qed


section \<open>Properties\<close>

text \<open>
  \<open>ParseByteRange\<close> understands the three forms of a range, of a file that is not empty: first and
  last position, first position alone, and a number of bytes from the end. The last position is cut at
  the end of the file, a first position behind the end is refused, and so is a range in the wrong order.
  Whatever the header says, the positions returned lie in the file.
\<close>

theorem ParseByteRange_correct:
  assumes "i < 2 ^ 63" and "j < 2 ^ 63" and "0 < n"
  shows "ParseByteRange (range_text (AppendUint_loop i [] @ bytes_of ''-'' @ AppendUint_loop j [])) n =
        (if int i \<ge> n then Inl RangeStart else if min (int j) (n - 1) < int i then Inl RangeOrder else Inr (int i, min (int j) (n - 1)))
    \<and> ParseByteRange (range_text (AppendUint_loop i [] @ bytes_of ''-'')) n = (if int i \<ge> n then Inl RangeStart else Inr (int i, n - 1))
    \<and> ParseByteRange (range_text (bytes_of ''-'' @ AppendUint_loop i [])) n = Inr (max 0 (n - int i), n - 1)
    \<and> (ParseByteRange b n = Inr (s, e) \<longrightarrow> 0 \<le> s \<and> s \<le> n \<and> e < n \<and> s \<le> e + 1)"
  using range_first_last [OF assms(1,2)] range_first [OF assms(1)] range_suffix [OF assms(1)] ParseByteRange_bounds [OF _ assms(3)]
  by blast

theorem ParseByteRange_correct_witness:
  "ParseByteRange (range_text (bytes_of ''2-4'')) 11 = Inr (2, 4)"
proof -
  have "AppendUint_loop 2 [] @ bytes_of ''-'' @ AppendUint_loop 4 [] = bytes_of ''2-4''" by code_simp
  with ParseByteRange_correct [of 2 4 11] show ?thesis by simp
qed


definition srv_env :: "bool \<Rightarrow> bool fs_env" where
  "srv_env secret = \<lparr>fs_open = (\<lambda>f. if f = bytes_of ''/srv/a.txt'' then OsFile (bytes_of ''hello world'') True
       else if secret \<and> f = bytes_of ''/etc/passwd'' then OsFile (bytes_of ''root'') True else OsNotExist),
     fs_stat = (\<lambda>f. None), fs_readdir = (\<lambda>f. None), fs_compressFile = (\<lambda>f enc. Inl FsError), fs_isCompressible = (\<lambda>b. True),
     fs_typeByExtension = (\<lambda>ext. bytes_of ''text/plain''), fs_detect = (\<lambda>enc b. None), fs_compressBytes = (\<lambda>enc b. b),
     fs_stale = (\<lambda>a b. False), fs_now = True, fs_opens = (\<lambda>ff. True), fs_seeks = (\<lambda>ff. True), fs_avail = (\<lambda>n. n),
     fs_tm = tiny_time, fs_before = (\<lambda>a b. \<not> a \<and> b), fs_toSecond = (\<lambda>t. t)\<rparr>"

definition srv :: "(unit, unit, unit) fsHandler" where
  "srv = \<lparr>fh_root = bytes_of ''/srv'', fh_indexNames = [bytes_of ''index.html''], fh_pathRewrite = None, fh_pathNotFound = None,
     fh_generateIndexPages = True, fh_compress = True, fh_compressBrotli = True, fh_acceptByteRange = True,
     fh_suffixBr = bytes_of ''.fasthttp.br'', fh_suffixGzip = bytes_of ''.fasthttp.gz''\<rparr>"

definition get_request :: "bytes \<Rightarrow> argsKV list \<Rightarrow> (unit, unit, unit) RequestCtx" where
  "get_request uri hs =
     (let h = zeroRequestHeader\<lparr>rq_method := bytes_of ''GET'', rq_requestURI := uri, rq_host := bytes_of ''foo.com'',
        rq_h := \<lparr>live = hs, spare = []\<rparr>\<rparr>
      in \<lparr>x_Request = zeroRequest\<lparr>q_Header := h\<rparr>, x_stream = None, x_Response = zeroResponse, x_userValues = slice_empty,
          x_connID = 0, x_connRequestNum = 0, x_connTime = 0, x_time = 0, x_remoteAddr = None,
          x_timeoutResponse = None, x_hijackHandler = None, x_hijackNoResponse = False\<rparr>)"

lemma srv_names: "names_ok srv" "fh_pathRewrite srv = None"
proof -
  have "no_up (bytes_of ''index.html'')" unfolding no_up_def by code_simp
  then show "names_ok srv" by (simp add: names_ok_def fs_suffix_ok_def srv_def bytes_of_def)
  show "fh_pathRewrite srv = None" by (simp add: srv_def)
qed



text \<open>
  A request for a range of a file that is not yet in the cache is answered with the status 206,
  exactly the bytes of the file between the two positions, both included, their number as the content
  length, and a Content-Range that names the positions and the length of the file. This includes big
  files, which are read through a file opened for the request.
\<close>

theorem file_range_served:
  fixes ctx :: "('f, 'v, 'h) RequestCtx"
  assumes "fh_pathRewrite h = None" and "fh_acceptByteRange h" and "stripTrailingSlashes (fst (ctx_Path ctx)) = p" and "0 \<notin> set p"
    and "cache [] p = None" and "fs_open E (fh_root h @ p) = OsFile data mt"
    and "fs_typeByExtension E (fileExtension (base_name (fh_root h @ p)) False []) \<noteq> []"
    and "ctx_IfModifiedSince (fs_tm E) (fs_before E) (fs_toSecond E) ctx mt" and "\<And>ff. fs_opens E ff \<and> fs_seeks E ff"
    and "\<not> ctx_IsHead ctx" and "\<not> ResponseHeader_mustSkipContentLength (p_Header (x_Response ctx))"
    and "ParseByteRange (RequestHeader_peek (q_Header (x_Request ctx)) strRange) (int (length data)) = Inr (s, e)" and "s \<le> e" and "data \<noteq> []"
  shows "\<exists>ctx' cache'. handleRequest E h cache ctx = Ret (ctx', cache')
    \<and> rs_statusCode (p_Header (x_Response ctx')) = StatusPartialContent
    \<and> map_option (rd_data \<circ> bs_reader) (p_bodyStream (x_Response ctx')) = Some (take (nat (e - s + 1)) (drop (nat s) data))
    \<and> rs_contentLength (p_Header (x_Response ctx')) = e - s + 1 \<and> length (take (nat (e - s + 1)) (drop (nat s) data)) = nat (e - s + 1)
    \<and> has_field (p_Header (x_Response ctx')) strContentRange (content_range s e (int (length data)))"
  by (rule range_request [where cache = cache, OF assms])

theorem file_range_served_witness:
  "\<exists>ctx' cache'. handleRequest (srv_env False) srv (\<lambda>_. Map.empty)
      (get_request (bytes_of ''/a.txt'') [set_kv (bytes_of ''Range'') (bytes_of ''bytes=2-4'') False]) = Ret (ctx', cache')
    \<and> rs_statusCode (p_Header (x_Response ctx')) = 206
    \<and> map_option (rd_data \<circ> bs_reader) (p_bodyStream (x_Response ctx')) = Some (bytes_of ''llo'')
    \<and> rs_contentLength (p_Header (x_Response ctx')) = 3
    \<and> has_field (p_Header (x_Response ctx')) strContentRange (bytes_of ''bytes 2-4/11'')"
proof -
  let ?ctx = "get_request (bytes_of ''/a.txt'') [set_kv (bytes_of ''Range'') (bytes_of ''bytes=2-4'') False]"
  have path: "stripTrailingSlashes (fst (ctx_Path ?ctx)) = bytes_of ''/a.txt''" by code_simp
  have rng: "ParseByteRange (RequestHeader_peek (q_Header (x_Request ?ctx)) strRange) (int (length (bytes_of ''hello world''))) = Inr (2, 4)"
    by code_simp
  have skip: "\<not> ctx_IsHead ?ctx" "\<not> ResponseHeader_mustSkipContentLength (p_Header (x_Response ?ctx))" by code_simp+
  have since: "ctx_IfModifiedSince (fs_tm (srv_env False)) (fs_before (srv_env False)) (fs_toSecond (srv_env False)) ?ctx True"
    by code_simp
  have opened: "fs_open (srv_env False) (fh_root srv @ bytes_of ''/a.txt'') = OsFile (bytes_of ''hello world'') True"
    by (simp add: srv_env_def srv_def bytes_of_def)
  have type: "fs_typeByExtension (srv_env False) ext \<noteq> []" "fs_opens (srv_env False) ff \<and> fs_seeks (srv_env False) ff" for ext ff
    by (simp_all add: srv_env_def bytes_of_def)
  have out: "take (nat (4 - 2 + 1)) (drop (nat 2) (bytes_of ''hello world'')) = bytes_of ''llo''"
    "content_range 2 4 (int (length (bytes_of ''hello world''))) = bytes_of ''bytes 2-4/11''" "StatusPartialContent = 206" by code_simp+
  have conf: "fh_acceptByteRange srv" "0 \<notin> set (bytes_of ''/a.txt'')" "bytes_of ''hello world'' \<noteq> []"
    by (simp_all add: srv_def bytes_of_def)
  show ?thesis
    using file_range_served [where cache = "\<lambda>_. Map.empty", OF srv_names(2) conf(1) path conf(2) _ opened type(1) since type(2) skip rng _ conf(3)] out
    by simp
qed

text \<open>
  A request for the last bytes of an empty file, \<open>Range: bytes=-N\<close>, ends in a panic: \<open>ParseByteRange\<close> returns
  -1 as the last position, and \<open>SetContentRange\<close> prints it with \<open>AppendUint\<close>, which panics on negative numbers.
  Nothing recovers from it, and the reader of the file is never closed.
\<close>

theorem range_of_empty_file_panics:
  fixes ctx :: "('f, 'v, 'h) RequestCtx"
  assumes "fh_pathRewrite h = None" and "fh_acceptByteRange h" and "stripTrailingSlashes (fst (ctx_Path ctx)) = p" and "0 \<notin> set p"
    and "cache [] p = None" and "fs_open E (fh_root h @ p) = OsFile [] mt"
    and "fs_typeByExtension E (fileExtension (base_name (fh_root h @ p)) False []) \<noteq> []"
    and "ctx_IfModifiedSince (fs_tm E) (fs_before E) (fs_toSecond E) ctx mt"
    and "RequestHeader_peek (q_Header (x_Request ctx)) strRange = range_text (bytes_of ''-'' @ AppendUint_loop n [])" and "n < 2 ^ 63"
  shows "handleRequest E h cache ctx = Panic"
  by (rule range_panics [where cache = cache, OF assms])

theorem range_of_empty_file_panics_witness:
  "let E = (srv_env False)\<lparr>fs_open := (\<lambda>f. if f = bytes_of ''/srv/empty.txt'' then OsFile [] True else OsNotExist)\<rparr>
   in handleRequest E srv (\<lambda>_. Map.empty) (get_request (bytes_of ''/empty.txt'') [set_kv (bytes_of ''Range'') (bytes_of ''bytes=-1'') False]) = Panic"
proof -
  let ?E = "(srv_env False)\<lparr>fs_open := (\<lambda>f. if f = bytes_of ''/srv/empty.txt'' then OsFile [] True else OsNotExist)\<rparr>"
  let ?ctx = "get_request (bytes_of ''/empty.txt'') [set_kv (bytes_of ''Range'') (bytes_of ''bytes=-1'') False]"
  have path: "stripTrailingSlashes (fst (ctx_Path ?ctx)) = bytes_of ''/empty.txt''" by code_simp
  have rng: "RequestHeader_peek (q_Header (x_Request ?ctx)) strRange = range_text (bytes_of ''-'' @ AppendUint_loop 1 [])"
    unfolding range_text_def by code_simp
  have since: "ctx_IfModifiedSince (fs_tm ?E) (fs_before ?E) (fs_toSecond ?E) ?ctx True" by code_simp
  have opened: "fs_open ?E (fh_root srv @ bytes_of ''/empty.txt'') = OsFile [] True" by (simp add: srv_def bytes_of_def)
  have type: "fs_typeByExtension ?E ext \<noteq> []" for ext by (simp add: srv_env_def bytes_of_def)
  have conf: "fh_acceptByteRange srv" "0 \<notin> set (bytes_of ''/empty.txt'')" by (simp_all add: srv_def bytes_of_def)
  show ?thesis unfolding Let_def
    by (rule range_of_empty_file_panics [where cache = "\<lambda>_. Map.empty", OF srv_names(2) conf(1) path conf(2) _ opened type since rng]) simp_all
qed

text \<open>
  Rewriters can lead out of the root. \<open>NewPathPrefixStripper\<close> does not ask for a slash behind the prefix, and the rest
  is appended to the root, so that a request can name a sibling of the root. The check for \<open>/../\<close> comes after
  trailing slashes have been stripped, so that a rewriter which returns \<open>/../\<close> names the parent of the root.
\<close>

theorem prefix_stripper_leaves_root:
  "\<exists>f ctx'. fs_localPath (srv\<lparr>fh_pathRewrite := Some (NewPathPrefixStripper 4)\<rparr>) (get_request (bytes_of ''/app-old/a'') []) = Goes (f, False) ctx'
    \<and> fh_root srv @ f = bytes_of ''/srv-old/a'' \<and> \<not> below_root srv (fh_root srv @ f)"
proof -
  let ?h = "srv\<lparr>fh_pathRewrite := Some (NewPathPrefixStripper 4)\<rparr>" and ?ctx = "get_request (bytes_of ''/app-old/a'') []"
  have "(case fs_localPath ?h ?ctx of Goes (f, slash) ctx' \<Rightarrow> f = bytes_of ''-old/a'' \<and> \<not> slash | _ \<Rightarrow> False)" by code_simp
  then obtain ctx' where "fs_localPath ?h ?ctx = Goes (bytes_of ''-old/a'', False) ctx'" by (auto split: handling.splits)
  moreover have "fh_root srv @ bytes_of ''-old/a'' = bytes_of ''/srv-old/a''" "\<not> below_root srv (fh_root srv @ bytes_of ''-old/a'')"
    by (simp_all add: below_root_def srv_def bytes_of_def)
  ultimately show ?thesis by blast
qed

theorem dot_dot_rewriter_leaves_root:
  "\<exists>ctx'. fs_localPath (srv\<lparr>fh_pathRewrite := Some (\<lambda>ctx. Ret (bytes_of ''/../'', ctx))\<rparr>) ctx = Goes (bytes_of ''/..'', True) ctx'
    \<and> \<not> below_root srv (fh_root srv @ bytes_of ''/..'')"
proof -
  have "stripTrailingSlashes (bytes_of ''/../'') = bytes_of ''/..''" "IndexByte (bytes_of ''/..'') 0 = None"
    "Index (bytes_of ''/..'') strSlashDotDotSlash = None" "bytes_of ''..'' \<in> set (split_on 47 (bytes_of ''/..''))" by code_simp+
  then show ?thesis
    by (auto simp: fs_localPath_def fs_path_def below_root_def no_up_def srv_def bytes_of_def Let_def simp del: IndexByte_None)
qed

text \<open>
  The suffix of one handler reaches the others: handlers without a map of their own share the map of the
  package, and \<open>CompressedFileSuffix\<close> is stored there.
\<close>

theorem suffix_setting_shared:
  assumes "initRequestHandler fs1 package = (h1, PackageMap, m1, package1)"
    and "initRequestHandler fs2 package1 = (h2, PackageMap, m2, package2)" and "FS_CompressedFileSuffix fs2 \<noteq> []"
  shows "fh_suffix h1 strGzip = package1 strGzip \<and> package2 strGzip = FS_CompressedFileSuffix fs2"
proof -
  have "strGzip \<noteq> strBr" by code_simp
  then show ?thesis
    using assms by (auto simp: initRequestHandler_def fh_suffix_def Let_def split: if_splits suffix_map.splits)
qed

text \<open>The handler of \<open>FSHandler\<close> meets the conditions of \<open>FS_stays_below_root\<close>, unless it strips slashes.\<close>

lemma FSHandler_ok:
  assumes "initRequestHandler (FSHandler root n) FSCompressedFileSuffixes = (h, which, m, package)" and "n \<le> 0"
  shows "names_ok h" and "fh_pathRewrite h = None"
proof -
  have "strGzip \<noteq> strBr" by code_simp
  moreover have "no_up (bytes_of ''index.html'')" unfolding no_up_def by code_simp
  moreover have "fs_suffix_ok (bytes_of ''.fasthttp.br'')" "fs_suffix_ok (bytes_of ''.fasthttp.gz'')"
    by (simp_all add: fs_suffix_ok_def bytes_of_def)
  ultimately show "names_ok h" and "fh_pathRewrite h = None"
    using assms by (auto simp: initRequestHandler_def FSHandler_def FSCompressedFileSuffixes_def names_ok_def Let_def)
qed

end
