(* ===== verification/FsCache.thy ===== *)
theory FsCache
  imports Interfaces "HOL-Library.Multiset"
begin

text \<open>
  The file cache of \<^verbatim>\<open>fs.go\<close>: files shared by concurrent requests, their reader counts, and the cleaner
  that takes stale files out of the cache and closes them. The steps are the sections that hold
  \<open>cacheLock\<close>; files have numbers, in the order they are opened. The ghost field \<open>fc_readers\<close> has a
  file once for each request or body that uses it.
\<close>


section \<open>State and operations\<close>

type_synonym fileCache = "bytes \<Rightarrow> nat option"

record fs_cache =
  fc_cache :: fileCache
  fc_cacheBrotli :: fileCache
  fc_cacheGzip :: fileCache
  fc_readersCount :: "nat \<Rightarrow> int"
  fc_t :: "nat \<Rightarrow> int"
  fc_pendingFiles :: "nat list"
  fc_next :: nat
  fc_opened :: "nat multiset"
  fc_readers :: "nat multiset"
  fc_released :: "nat multiset"

datatype cache_name = CachePlain | CacheBrotli | CacheGzip

definition fileCache_of :: "cache_name \<Rightarrow> fs_cache \<Rightarrow> fileCache" where
  "fileCache_of c s = (case c of CachePlain \<Rightarrow> fc_cache s | CacheBrotli \<Rightarrow> fc_cacheBrotli s | CacheGzip \<Rightarrow> fc_cacheGzip s)"

definition set_fileCache :: "cache_name \<Rightarrow> fileCache \<Rightarrow> fs_cache \<Rightarrow> fs_cache" where
  "set_fileCache c m s =
     (case c of CachePlain \<Rightarrow> s\<lparr>fc_cache := m\<rparr> | CacheBrotli \<Rightarrow> s\<lparr>fc_cacheBrotli := m\<rparr> | CacheGzip \<Rightarrow> s\<lparr>fc_cacheGzip := m\<rparr>)"

text \<open>One more reader of a file.\<close>

definition incReaders :: "nat \<Rightarrow> fs_cache \<Rightarrow> fs_cache" where
  "incReaders ff s = s\<lparr>fc_readersCount := (fc_readersCount s)(ff := fc_readersCount s ff + 1), fc_readers := add_mset ff (fc_readers s)\<rparr>"


text \<open>A file is opened, without the lock; \<open>t\<close> is the time.\<close>

definition cache_open :: "int \<Rightarrow> fs_cache \<Rightarrow> fs_cache" where
  "cache_open t s =
     s\<lparr>fc_next := Suc (fc_next s), fc_opened := add_mset (fc_next s) (fc_opened s),
       fc_readersCount := (fc_readersCount s)(fc_next s := 0), fc_t := (fc_t s)(fc_next s := t)\<rparr>"

text \<open>
  The second section: the file goes into the cache, unless another request has been faster; then that
  file is used and this one is closed.
\<close>

definition cache_store :: "cache_name \<Rightarrow> bytes \<Rightarrow> nat \<Rightarrow> fs_cache \<Rightarrow> nat \<times> fs_cache" where
  "cache_store c path ff s =
     (let s = s\<lparr>fc_opened := fc_opened s - {#ff#}\<rparr> in
      case fileCache_of c s path of
        None \<Rightarrow> (ff, incReaders ff (set_fileCache c ((fileCache_of c s)(path \<mapsto> ff)) s))
      | Some ff1 \<Rightarrow> (ff1, (incReaders ff1 s)\<lparr>fc_released := add_mset ff (fc_released s)\<rparr>))"


text \<open>\<open>range\<close> visits the keys \<open>ks\<close> of the map in some order.\<close>

primrec cleanCacheNolock ::
  "(nat \<Rightarrow> int) \<Rightarrow> (nat \<Rightarrow> int) \<Rightarrow> int \<Rightarrow> int \<Rightarrow> bytes list \<Rightarrow> fileCache \<Rightarrow> nat list \<Rightarrow> nat list \<Rightarrow> fileCache \<times> nat list \<times> nat list" where
  "cleanCacheNolock counts ts t cacheDuration [] cache pendingFiles filesToRelease = (cache, pendingFiles, filesToRelease)"
| "cleanCacheNolock counts ts t cacheDuration (k # ks) cache pendingFiles filesToRelease =
     (case cache k of
        None \<Rightarrow> cleanCacheNolock counts ts t cacheDuration ks cache pendingFiles filesToRelease
      | Some ff \<Rightarrow>
          if t - ts ff > cacheDuration then
            (if counts ff > 0
             then cleanCacheNolock counts ts t cacheDuration ks (cache(k := None)) (pendingFiles @ [ff]) filesToRelease
             else cleanCacheNolock counts ts t cacheDuration ks (cache(k := None)) pendingFiles (filesToRelease @ [ff]))
          else cleanCacheNolock counts ts t cacheDuration ks cache pendingFiles filesToRelease)"

definition cleanCache :: "(cache_name \<Rightarrow> int) \<Rightarrow> int \<Rightarrow> (cache_name \<Rightarrow> bytes list) \<Rightarrow> fs_cache \<Rightarrow> fs_cache" where
  "cleanCache now cacheDuration keys s =
     (let clean = (\<lambda>c. cleanCacheNolock (fc_readersCount s) (fc_t s) (now c) cacheDuration (keys c) (fileCache_of c s));
          remainingFiles = filter (\<lambda>ff. fc_readersCount s ff > 0) (fc_pendingFiles s);
          filesToRelease = filter (\<lambda>ff. \<not> fc_readersCount s ff > 0) (fc_pendingFiles s);
          (plain, pendingFiles, filesToRelease) = clean CachePlain remainingFiles filesToRelease;
          (brotli, pendingFiles, filesToRelease) = clean CacheBrotli pendingFiles filesToRelease;
          (gzip, pendingFiles, filesToRelease) = clean CacheGzip pendingFiles filesToRelease
      in s\<lparr>fc_cache := plain, fc_cacheBrotli := brotli, fc_cacheGzip := gzip, fc_pendingFiles := pendingFiles,
           fc_released := fc_released s + mset filesToRelease\<rparr>)"


section \<open>Interleavings\<close>





section \<open>The invariant\<close>

text \<open>
  Where a file is: opened and not yet stored, in one place of one cache, taken out and waiting for its
  readers, or closed. The caches are read as one map.
\<close>

definition all_cached :: "fs_cache \<Rightarrow> cache_name \<times> bytes \<Rightarrow> nat option" where
  "all_cached s cp = fileCache_of (fst cp) s (snd cp)"

definition places_ok :: "('k \<Rightarrow> nat option) \<Rightarrow> nat multiset \<Rightarrow> nat \<Rightarrow> bool" where
  "places_ok cache others m \<longleftrightarrow>
     inj_on cache (dom cache) \<and> (\<forall>ff \<in> ran cache. ff < m \<and> ff \<notin># others) \<and> (\<forall>ff \<in># others. ff < m \<and> count others ff = 1)"

definition fs_cache_inv :: "fs_cache \<Rightarrow> bool" where
  "fs_cache_inv s \<longleftrightarrow>
     places_ok (all_cached s) (fc_opened s + mset (fc_pendingFiles s) + fc_released s) (fc_next s)
     \<and> (\<forall>ff. fc_readersCount s ff = int (count (fc_readers s) ff))
     \<and> set_mset (fc_readers s) \<subseteq> ran (all_cached s) \<union> set (fc_pendingFiles s)"

lemma fileCache_simps [simp]:
  "fileCache_of c (set_fileCache c' m s) = (if c' = c then m else fileCache_of c s)"
  "fileCache_of c (incReaders ff s) = fileCache_of c s"
proof -
  show "fileCache_of c (set_fileCache c' m s) = (if c' = c then m else fileCache_of c s)"
    by (cases c; cases c'; simp add: fileCache_of_def set_fileCache_def)
  show "fileCache_of c (incReaders ff s) = fileCache_of c s" by (cases c; simp add: fileCache_of_def incReaders_def)
qed

lemma set_fileCache_parts [simp]:
  "fc_opened (set_fileCache c m s) = fc_opened s" "fc_pendingFiles (set_fileCache c m s) = fc_pendingFiles s"
  "fc_released (set_fileCache c m s) = fc_released s" "fc_next (set_fileCache c m s) = fc_next s"
  "fc_readers (set_fileCache c m s) = fc_readers s" "fc_readersCount (set_fileCache c m s) = fc_readersCount s"
  "fc_t (set_fileCache c m s) = fc_t s"
  by (simp_all add: set_fileCache_def split: cache_name.split)









definition cleaning_inv :: "fs_cache \<Rightarrow> nat list \<Rightarrow> nat list \<Rightarrow> bool" where
  "cleaning_inv s P R \<longleftrightarrow> places_ok (all_cached s) (fc_opened s + mset P + (fc_released s + mset R)) (fc_next s)
     \<and> (\<forall>ff. fc_readersCount s ff = int (count (fc_readers s) ff)) \<and> set_mset (fc_readers s) \<subseteq> ran (all_cached s) \<union> set P"

lemma inv_cleaning: "fs_cache_inv s \<longleftrightarrow> cleaning_inv s (fc_pendingFiles s) []"
  by (simp add: fs_cache_inv_def cleaning_inv_def)











section \<open>What a cleaning does\<close>

definition stale_after :: "int \<Rightarrow> int \<Rightarrow> fs_cache \<Rightarrow> nat \<Rightarrow> bool" where
  "stale_after now cacheDuration s ff \<longleftrightarrow> now - fc_t s ff > cacheDuration"

lemma cleanCacheNolock_spec:
  assumes "cleanCacheNolock counts ts t d ks cache P R = (cache', P', R')"
  shows "cache' = (\<lambda>k. case cache k of None \<Rightarrow> None | Some ff \<Rightarrow> if k \<in> set ks \<and> t - ts ff > d then None else Some ff)"
    and "set P' = set P \<union> {ff. \<exists>k \<in> set ks. cache k = Some ff \<and> t - ts ff > d \<and> counts ff > 0}"
    and "set R' = set R \<union> {ff. \<exists>k \<in> set ks. cache k = Some ff \<and> t - ts ff > d \<and> \<not> counts ff > 0}"
proof -
  have "cache' = (\<lambda>k. case cache k of None \<Rightarrow> None | Some ff \<Rightarrow> if k \<in> set ks \<and> t - ts ff > d then None else Some ff)
    \<and> set P' = set P \<union> {ff. \<exists>k \<in> set ks. cache k = Some ff \<and> t - ts ff > d \<and> counts ff > 0}
    \<and> set R' = set R \<union> {ff. \<exists>k \<in> set ks. cache k = Some ff \<and> t - ts ff > d \<and> \<not> counts ff > 0}"
    using assms
  proof (induction ks arbitrary: cache P R)
    case Nil
    then show ?case by (auto simp: fun_eq_iff split: option.split)
  next
    case (Cons k ks)
    show ?case
    proof (cases "cache k")
      case None
      then show ?thesis using Cons.prems Cons.IH [of cache P R] by (auto simp: fun_eq_iff split: option.split)
    next
      case (Some ff)
      show ?thesis
      proof (cases "t - ts ff > d")
        case True
        let ?P = "if counts ff > 0 then P @ [ff] else P" and ?R = "if counts ff > 0 then R else R @ [ff]"
        have "cleanCacheNolock counts ts t d ks (cache(k := None)) ?P ?R = (cache', P', R')"
          using Cons.prems Some True by (simp split: if_splits)
        note IH = Cons.IH [OF this]
        have c: "(cache(k := None)) j = Some x \<longleftrightarrow> j \<noteq> k \<and> cache j = Some x" for j x by simp
        have "cache' = (\<lambda>j. case cache j of None \<Rightarrow> None | Some x \<Rightarrow> if j \<in> set (k # ks) \<and> t - ts x > d then None else Some x)"
        proof
          fix j
          show "cache' j = (case cache j of None \<Rightarrow> None | Some x \<Rightarrow> if j \<in> set (k # ks) \<and> t - ts x > d then None else Some x)"
            using IH Some True by (cases "j = k") (simp_all split: option.split)
        qed
        moreover have ex: "(\<exists>j \<in> set (k # ks). cache j = Some x \<and> Q x) \<longleftrightarrow> (\<exists>j \<in> set ks. (cache(k := None)) j = Some x \<and> Q x) \<or> x = ff \<and> Q x" for x Q
        proof
          assume "\<exists>j \<in> set (k # ks). cache j = Some x \<and> Q x"
          then obtain j where "j = k \<or> j \<in> set ks" "cache j = Some x" "Q x" by auto
          then show "(\<exists>j \<in> set ks. (cache(k := None)) j = Some x \<and> Q x) \<or> x = ff \<and> Q x" using Some by (cases "j = k") auto
        qed (use Some c in \<open>auto split: if_splits\<close>)
        have 1: "set P' = set ?P \<union> {x. \<exists>j \<in> set ks. (cache(k := None)) j = Some x \<and> t - ts x > d \<and> counts x > 0}"
          and 2: "set R' = set ?R \<union> {x. \<exists>j \<in> set ks. (cache(k := None)) j = Some x \<and> t - ts x > d \<and> \<not> counts x > 0}"
          using IH by blast+
        have "set P' = set P \<union> {x. \<exists>j \<in> set (k # ks). cache j = Some x \<and> t - ts x > d \<and> counts x > 0}"
          unfolding 1 ex [of _ "\<lambda>x. t - ts x > d \<and> counts x > 0"] using True by (cases "counts ff > 0") auto
        moreover have "set R' = set R \<union> {x. \<exists>j \<in> set (k # ks). cache j = Some x \<and> t - ts x > d \<and> \<not> counts x > 0}"
          unfolding 2 ex [of _ "\<lambda>x. t - ts x > d \<and> \<not> counts x > 0"] using True by (cases "counts ff > 0") auto
        ultimately show ?thesis by (intro conjI)
      next
        case False
        then show ?thesis using Some Cons.prems Cons.IH [of cache P R] by (auto simp: fun_eq_iff split: option.split)
      qed
    qed
  qed
  then show "cache' = (\<lambda>k. case cache k of None \<Rightarrow> None | Some ff \<Rightarrow> if k \<in> set ks \<and> t - ts ff > d then None else Some ff)"
    and "set P' = set P \<union> {ff. \<exists>k \<in> set ks. cache k = Some ff \<and> t - ts ff > d \<and> counts ff > 0}"
    and "set R' = set R \<union> {ff. \<exists>k \<in> set ks. cache k = Some ff \<and> t - ts ff > d \<and> \<not> counts ff > 0}" by simp_all
qed

definition taken_out :: "(cache_name \<Rightarrow> int) \<Rightarrow> int \<Rightarrow> fs_cache \<Rightarrow> nat set" where
  "taken_out now d s = set (fc_pendingFiles s) \<union> {ff. \<exists>c path. fileCache_of c s path = Some ff \<and> stale_after (now c) d s ff}"

lemma cleanCache_spec:
  fixes now :: "cache_name \<Rightarrow> int" and d :: int
  assumes "\<And>c. set (keys c) = dom (fileCache_of c s)"
  defines "t \<equiv> cleanCache now d keys s"
  shows "fileCache_of c t path =
      (case fileCache_of c s path of None \<Rightarrow> None | Some ff \<Rightarrow> if stale_after (now c) d s ff then None else Some ff)"
    and "set (fc_pendingFiles t) = {ff \<in> taken_out now d s. fc_readersCount s ff > 0}"
    and "set_mset (fc_released t) = set_mset (fc_released s) \<union> {ff \<in> taken_out now d s. \<not> fc_readersCount s ff > 0}"
proof -
  let ?clean = "\<lambda>c. cleanCacheNolock (fc_readersCount s) (fc_t s) (now c) d (keys c) (fileCache_of c s)"
  let ?P = "filter (\<lambda>ff. fc_readersCount s ff > 0) (fc_pendingFiles s)" and ?R = "filter (\<lambda>ff. \<not> fc_readersCount s ff > 0) (fc_pendingFiles s)"
  obtain m1 P1 R1 where 1: "?clean CachePlain ?P ?R = (m1, P1, R1)" by (metis prod_cases3)
  obtain m2 P2 R2 where 2: "?clean CacheBrotli P1 R1 = (m2, P2, R2)" by (metis prod_cases3)
  obtain m3 P3 R3 where 3: "?clean CacheGzip P2 R2 = (m3, P3, R3)" by (metis prod_cases3)
  have t: "t = s\<lparr>fc_cache := m1, fc_cacheBrotli := m2, fc_cacheGzip := m3, fc_pendingFiles := P3, fc_released := fc_released s + mset R3\<rparr>"
    using 1 2 3 by (simp add: t_def cleanCache_def Let_def)
  note spec = cleanCacheNolock_spec [OF 1] cleanCacheNolock_spec [OF 2] cleanCacheNolock_spec [OF 3]
  have k: "(\<exists>j \<in> set (keys c). fileCache_of c s j = Some ff \<and> Q) \<longleftrightarrow> (\<exists>j. fileCache_of c s j = Some ff) \<and> Q" for c ff Q
    unfolding assms(1) by auto
  have caches: "fileCache_of CachePlain t = m1" "fileCache_of CacheBrotli t = m2" "fileCache_of CacheGzip t = m3"
    by (simp_all add: t fileCache_of_def)
  have "fileCache_of c t path = (case fileCache_of c s path of None \<Rightarrow> None
      | Some ff \<Rightarrow> if path \<in> set (keys c) \<and> now c - fc_t s ff > d then None else Some ff)"
    by (induction c) (simp_all only: caches spec(1,4,7))
  then show "fileCache_of c t path =
      (case fileCache_of c s path of None \<Rightarrow> None | Some ff \<Rightarrow> if stale_after (now c) d s ff then None else Some ff)"
    unfolding assms(1) by (auto simp: stale_after_def split: option.split)
  have ex: "(\<exists>c. Q c) \<longleftrightarrow> Q CachePlain \<or> Q CacheBrotli \<or> Q CacheGzip" for Q by (metis cache_name.exhaust)
  have out: "taken_out now d s = set (fc_pendingFiles s) \<union> {ff. (\<exists>j. fileCache_of CachePlain s j = Some ff) \<and> now CachePlain - fc_t s ff > d}
      \<union> {ff. (\<exists>j. fileCache_of CacheBrotli s j = Some ff) \<and> now CacheBrotli - fc_t s ff > d}
      \<union> {ff. (\<exists>j. fileCache_of CacheGzip s j = Some ff) \<and> now CacheGzip - fc_t s ff > d}"
    unfolding taken_out_def stale_after_def ex by auto
  show "set (fc_pendingFiles t) = {ff \<in> taken_out now d s. fc_readersCount s ff > 0}"
    using spec(2,5,8) unfolding out k t by auto
  show "set_mset (fc_released t) = set_mset (fc_released s) \<union> {ff \<in> taken_out now d s. \<not> fc_readersCount s ff > 0}"
    using spec(3,6,9) unfolding out k t by auto
qed


section \<open>Properties\<close>


definition empty_fs_cache :: fs_cache where
  "empty_fs_cache = \<lparr>fc_cache = Map.empty, fc_cacheBrotli = Map.empty, fc_cacheGzip = Map.empty, fc_readersCount = (\<lambda>_. 0), fc_t = (\<lambda>_. 0),
     fc_pendingFiles = [], fc_next = 0, fc_opened = {#}, fc_readers = {#}, fc_released = {#}\<rparr>"

definition one_reader :: fs_cache where
  "one_reader = snd (cache_store CachePlain (bytes_of ''/a'') 0 (cache_open 5 empty_fs_cache))"

lemma one_reader_parts: "fc_readers one_reader = {#0#}" "fc_readersCount one_reader = (\<lambda>_. 0)(0 := 1)" "fc_t one_reader = (\<lambda>_. 0)(0 := 5)"
  "fc_cache one_reader = [bytes_of ''/a'' \<mapsto> 0]" "fc_cacheBrotli one_reader = Map.empty" "fc_cacheGzip one_reader = Map.empty"
  "fc_pendingFiles one_reader = []" "fc_released one_reader = {#}"
  by (simp_all add: one_reader_def cache_store_def cache_open_def empty_fs_cache_def fileCache_of_def set_fileCache_def incReaders_def Let_def fun_eq_iff)



text \<open>
  A cleaning takes exactly the stale files out of the three caches. Of these, and of the files taken
  out before, it closes exactly those that nobody reads, and remembers the others for the next time.
\<close>

theorem cleanCache_correct:
  assumes "\<And>c. set (keys c) = dom (fileCache_of c s)"
  shows "(\<forall>c path. fileCache_of c (cleanCache now d keys s) path =
        (case fileCache_of c s path of None \<Rightarrow> None | Some ff \<Rightarrow> if stale_after (now c) d s ff then None else Some ff))
    \<and> set (fc_pendingFiles (cleanCache now d keys s)) = {ff \<in> taken_out now d s. fc_readersCount s ff > 0}
    \<and> set_mset (fc_released (cleanCache now d keys s)) =
        set_mset (fc_released s) \<union> {ff \<in> taken_out now d s. \<not> fc_readersCount s ff > 0}"
  using cleanCache_spec [OF assms] by blast

theorem cleanCache_correct_witness:
  "set (fc_pendingFiles (cleanCache (\<lambda>_. 20) 10 (\<lambda>c. if c = CachePlain then [bytes_of ''/a''] else []) one_reader)) = {0}"
proof -
  have "set (if c = CachePlain then [bytes_of ''/a''] else []) = dom (fileCache_of c one_reader)" for c
    by (cases c) (simp_all add: fileCache_of_def one_reader_parts)
  note r = cleanCache_correct [of "\<lambda>c. if c = CachePlain then [bytes_of ''/a''] else []", OF this]
  have "fileCache_of CachePlain one_reader (bytes_of ''/a'') = Some 0" by (simp add: fileCache_of_def one_reader_parts)
  moreover have "stale_after 20 10 one_reader 0" by (simp add: stale_after_def one_reader_parts)
  ultimately have "0 \<in> taken_out (\<lambda>_. 20) 10 one_reader" unfolding taken_out_def by blast
  then show ?thesis using r [of "\<lambda>_. 20" 10] by (auto simp: one_reader_parts split: if_splits)
qed

end
