(* ===== verification/PipelineClient.thy ===== *)
theory PipelineClient
  imports Interfaces "HOL-Library.Multiset"
begin

text \<open>
  \<open>PipelineClient\<close> of \<^verbatim>\<open>client.go\<close>: calls put work into the channel \<open>chW\<close> of a connection client; the writer
  of its worker takes work from there, writes the request and passes the work on through \<open>chR\<close> to the
  reader, which reads the response. Channels live in a heap, since the writer and the reader hold the
  channels that were there when they were started. A step is what one goroutine does between two
  points where others can interfere. The server is assumed to answer the requests of a connection in
  their order, so that a response is its position on its connection.
\<close>


section \<open>State\<close>

datatype pipe_err = ErrPipelineOverflow | ErrPipelineTimeout | errPipelineConnStopped | PipeIOErr

datatype outcome = Failed pipe_err | Reply nat nat

text \<open>A goroutine runs or has returned, with an error or \<open>nil\<close>.\<close>

datatype goroutine = Runs | Returned bool

text \<open>
  The goroutine of \<open>init\<close>: in \<open>worker\<close> it dials, waits for writer and reader, stops the other, drains \<open>chR\<close>;
  at the end it starts again or ends.
\<close>

datatype worker_phase = Dialing | Serving | Stopping bool | Draining bool | Ended

text \<open>\<open>pk_w\<close> is the work the writer holds, and whether it has been written; \<open>pk_r\<close> is the reader's.\<close>

record pipeWorker =
  pk_phase :: worker_phase
  pk_conn :: nat
  pk_chW :: "nat option"
  pk_chR :: "nat option"
  pk_writer :: goroutine
  pk_reader :: goroutine
  pk_w :: "(nat \<times> bool) option"
  pk_r :: "nat option"
  pk_nread :: nat

text \<open>A call, from \<open>init\<close> to its return.\<close>

datatype pipe_call = CallInited | CallFull | CallEvicted | CallWaiting | CallReturned outcome

text \<open>
  Calls and their work have the same numbers. \<open>pc_sent\<close> is a ghost: the requests written on each
  connection. \<open>pc_dropped\<close> is one, too: channels with work in them have been given up.
\<close>

record pipelineConnClient =
  pc_cap :: nat
  pc_chW :: "nat option"
  pc_chR :: "nat option"
  pc_chans :: "nat list list"
  pc_workers :: "pipeWorker list"
  pc_calls :: "(bool \<times> pipe_call) list"
  pc_done :: "(nat \<times> outcome) list"
  pc_puts :: "nat multiset"
  pc_sent :: "nat list list"
  pc_dropped :: bool

definition DefaultMaxPendingRequests :: int where
  "DefaultMaxPendingRequests = 1024"

definition newConnClient :: "int \<Rightarrow> pipelineConnClient" where
  "newConnClient MaxPendingRequests =
     \<lparr>pc_cap = nat (if MaxPendingRequests \<le> 0 then DefaultMaxPendingRequests else MaxPendingRequests),
      pc_chW = None, pc_chR = None, pc_chans = [], pc_workers = [], pc_calls = [], pc_done = [], pc_puts = {#},
      pc_sent = [], pc_dropped = False\<rparr>"


section \<open>Channels\<close>

text \<open>Length, and a send and a receive that do not block; a \<^verbatim>\<open>nil\<close> channel never does either.\<close>

definition chan_len :: "nat option \<Rightarrow> pipelineConnClient \<Rightarrow> nat" where
  "chan_len c s = (case c of None \<Rightarrow> 0 | Some i \<Rightarrow> length (pc_chans s ! i))"

definition chan_send :: "nat option \<Rightarrow> nat \<Rightarrow> pipelineConnClient \<Rightarrow> pipelineConnClient option" where
  "chan_send c w s =
     (case c of
        None \<Rightarrow> None
      | Some i \<Rightarrow>
          if length (pc_chans s ! i) < pc_cap s then Some (s\<lparr>pc_chans := (pc_chans s)[i := pc_chans s ! i @ [w]]\<rparr>) else None)"

definition chan_recv :: "nat option \<Rightarrow> pipelineConnClient \<Rightarrow> (nat \<times> pipelineConnClient) option" where
  "chan_recv c s =
     (case c of
        None \<Rightarrow> None
      | Some i \<Rightarrow>
          (case pc_chans s ! i of [] \<Rightarrow> None | w # ws \<Rightarrow> Some (w, s\<lparr>pc_chans := (pc_chans s)[i := ws]\<rparr>)))"

text \<open>\<open>w.err = err; w.done <- struct{}{}\<close>\<close>

definition work_done :: "nat \<Rightarrow> outcome \<Rightarrow> pipelineConnClient \<Rightarrow> pipelineConnClient" where
  "work_done w out s = s\<lparr>pc_done := pc_done s @ [(w, out)]\<rparr>"


section \<open>Calls\<close>

definition new_worker :: pipeWorker where
  "new_worker = \<lparr>pk_phase = Dialing, pk_conn = 0, pk_chW = None, pk_chR = None, pk_writer = Runs, pk_reader = Runs,
     pk_w = None, pk_r = None, pk_nread = 0\<rparr>"

definition pipelineConnClient_init :: "pipelineConnClient \<Rightarrow> pipelineConnClient" where
  "pipelineConnClient_init s =
     (if pc_chR s \<noteq> None then s
      else
        (let s = s\<lparr>pc_chR := Some (length (pc_chans s)), pc_chans := pc_chans s @ [[]]\<rparr>;
             s = (if pc_chW s = None then s\<lparr>pc_chW := Some (length (pc_chans s)), pc_chans := pc_chans s @ [[]]\<rparr> else s)
         in s\<lparr>pc_workers := pc_workers s @ [new_worker]\<rparr>))"

text \<open>\<open>Do\<close> and \<open>DoDeadline\<close> begin with \<open>init\<close>; \<open>deadline\<close> says which.\<close>

definition Do_begin :: "bool \<Rightarrow> pipelineConnClient \<Rightarrow> pipelineConnClient" where
  "Do_begin deadline s = (pipelineConnClient_init s)\<lparr>pc_calls := pc_calls s @ [(deadline, CallInited)]\<rparr>"

definition set_call :: "nat \<Rightarrow> pipe_call \<Rightarrow> pipelineConnClient \<Rightarrow> pipelineConnClient" where
  "set_call w c s = s\<lparr>pc_calls := (pc_calls s)[w := (fst (pc_calls s ! w), c)]\<rparr>"

definition in_call :: "nat \<Rightarrow> pipe_call \<Rightarrow> pipelineConnClient \<Rightarrow> bool" where
  "in_call w c s \<longleftrightarrow> w < length (pc_calls s) \<and> snd (pc_calls s ! w) = c"

definition has_deadline :: "nat \<Rightarrow> pipelineConnClient \<Rightarrow> bool" where
  "has_deadline w s = fst (pc_calls s ! w)"

text \<open>The work goes into \<open>chW\<close>. \<open>Do\<close> goes on when that is full, \<open>DoDeadline\<close> blocks until its time is over.\<close>

definition Do_put :: "nat \<Rightarrow> pipelineConnClient \<Rightarrow> pipelineConnClient option" where
  "Do_put w s =
     (if in_call w CallInited s
      then (case chan_send (pc_chW s) w s of
              Some s \<Rightarrow> Some (set_call w CallWaiting (s\<lparr>pc_puts := add_mset w (pc_puts s)\<rparr>))
            | None \<Rightarrow> if has_deadline w s then None else Some (set_call w CallFull s))
      else None)"

definition Do_evict :: "nat \<Rightarrow> pipelineConnClient \<Rightarrow> pipelineConnClient option" where
  "Do_evict w s =
     (if in_call w CallFull s
      then (case chan_recv (pc_chW s) s of
              Some (wOld, s) \<Rightarrow> Some (set_call w CallEvicted (work_done wOld (Failed ErrPipelineOverflow) s))
            | None \<Rightarrow> Some (set_call w CallEvicted s))
      else None)"

definition Do_retry :: "nat \<Rightarrow> pipelineConnClient \<Rightarrow> pipelineConnClient option" where
  "Do_retry w s =
     (if in_call w CallEvicted s
      then (case chan_send (pc_chW s) w s of
              Some s \<Rightarrow> Some (set_call w CallWaiting (s\<lparr>pc_puts := add_mset w (pc_puts s)\<rparr>))
            | None \<Rightarrow> Some (set_call w (CallReturned (Failed ErrPipelineOverflow)) s))
      else None)"

definition Do_return :: "nat \<Rightarrow> pipelineConnClient \<Rightarrow> pipelineConnClient option" where
  "Do_return w s =
     (if in_call w CallWaiting s
      then (case map_of (pc_done s) w of None \<Rightarrow> None | Some out \<Rightarrow> Some (set_call w (CallReturned out) s))
      else None)"

definition DoDeadline_timeout :: "nat \<Rightarrow> pipelineConnClient \<Rightarrow> pipelineConnClient option" where
  "DoDeadline_timeout w s =
     (if has_deadline w s \<and> (in_call w CallInited s \<or> in_call w CallWaiting s)
      then Some (set_call w (CallReturned (Failed ErrPipelineTimeout)) s) else None)"


section \<open>Workers\<close>

definition set_worker :: "nat \<Rightarrow> pipeWorker \<Rightarrow> pipelineConnClient \<Rightarrow> pipelineConnClient" where
  "set_worker i k s = s\<lparr>pc_workers := (pc_workers s)[i := k]\<rparr>"

text \<open>A connection is dialled; writer and reader start. A dial that fails is tried again.\<close>

definition worker_dialed :: "nat \<Rightarrow> pipelineConnClient \<Rightarrow> pipelineConnClient option" where
  "worker_dialed i s =
     (if pk_phase (pc_workers s ! i) = Dialing
      then Some (set_worker i \<lparr>pk_phase = Serving, pk_conn = length (pc_sent s), pk_chW = pc_chW s, pk_chR = pc_chR s,
             pk_writer = Runs, pk_reader = Runs, pk_w = None, pk_r = None, pk_nread = 0\<rparr> (s\<lparr>pc_sent := pc_sent s @ [[]]\<rparr>))
      else None)"

text \<open>Writer and reader run while the worker serves, and after it has told them to stop.\<close>

definition connected :: "pipeWorker \<Rightarrow> bool" where
  "connected k \<longleftrightarrow> (case pk_phase k of Serving \<Rightarrow> True | Stopping e \<Rightarrow> True | _ \<Rightarrow> False)"

definition writer_runs :: "pipeWorker \<Rightarrow> bool" where
  "writer_runs k \<longleftrightarrow> connected k \<and> pk_writer k = Runs"

definition reader_runs :: "pipeWorker \<Rightarrow> bool" where
  "reader_runs k \<longleftrightarrow> connected k \<and> pk_reader k = Runs"

definition stop_closed :: "pipeWorker \<Rightarrow> bool" where
  "stop_closed k \<longleftrightarrow> (case pk_phase k of Stopping e \<Rightarrow> True | _ \<Rightarrow> False)"

definition writer_take :: "nat \<Rightarrow> pipelineConnClient \<Rightarrow> pipelineConnClient option" where
  "writer_take i s =
     (let k = pc_workers s ! i in
      if writer_runs k \<and> pk_w k = None
      then (case chan_recv (pk_chW k) s of None \<Rightarrow> None | Some (w, s) \<Rightarrow> Some (set_worker i (k\<lparr>pk_w := Some (w, False)\<rparr>) s))
      else None)"

text \<open>The writer returns without work: it has been idle, it was told to stop, or a flush failed.\<close>

definition writer_return :: "nat \<Rightarrow> bool \<Rightarrow> pipelineConnClient \<Rightarrow> pipelineConnClient option" where
  "writer_return i err s =
     (let k = pc_workers s ! i in
      if writer_runs k \<and> pk_w k = None then Some (set_worker i (k\<lparr>pk_writer := Returned err\<rparr>) s) else None)"

definition writer_expired :: "nat \<Rightarrow> pipelineConnClient \<Rightarrow> pipelineConnClient option" where
  "writer_expired i s =
     (let k = pc_workers s ! i in
      case pk_w k of
        Some (w, False) \<Rightarrow>
          if writer_runs k \<and> has_deadline w s
          then Some (set_worker i (k\<lparr>pk_w := None\<rparr>) (work_done w (Failed ErrPipelineTimeout) s)) else None
      | _ \<Rightarrow> None)"

definition writer_write :: "nat \<Rightarrow> pipelineConnClient \<Rightarrow> pipelineConnClient option" where
  "writer_write i s =
     (let k = pc_workers s ! i in
      case pk_w k of
        Some (w, False) \<Rightarrow>
          if writer_runs k
          then Some (set_worker i (k\<lparr>pk_w := Some (w, True)\<rparr>) (s\<lparr>pc_sent := (pc_sent s)[pk_conn k := pc_sent s ! pk_conn k @ [w]]\<rparr>))
          else None
      | _ \<Rightarrow> None)"

text \<open>Setting the deadline, writing or flushing fails while the writer holds work.\<close>

definition writer_fail :: "nat \<Rightarrow> pipelineConnClient \<Rightarrow> pipelineConnClient option" where
  "writer_fail i s =
     (let k = pc_workers s ! i in
      case pk_w k of
        Some (w, written) \<Rightarrow>
          if writer_runs k
          then Some (set_worker i (k\<lparr>pk_w := None, pk_writer := Returned True\<rparr>) (work_done w (Failed PipeIOErr) s)) else None
      | None \<Rightarrow> None)"

definition writer_put :: "nat \<Rightarrow> pipelineConnClient \<Rightarrow> pipelineConnClient option" where
  "writer_put i s =
     (let k = pc_workers s ! i in
      case pk_w k of
        Some (w, True) \<Rightarrow>
          if writer_runs k
          then (case chan_send (pk_chR k) w s of None \<Rightarrow> None | Some s \<Rightarrow> Some (set_worker i (k\<lparr>pk_w := None\<rparr>) s)) else None
      | _ \<Rightarrow> None)"

definition writer_stopped :: "nat \<Rightarrow> pipelineConnClient \<Rightarrow> pipelineConnClient option" where
  "writer_stopped i s =
     (let k = pc_workers s ! i in
      case pk_w k of
        Some (w, True) \<Rightarrow>
          if writer_runs k \<and> stop_closed k
          then Some (set_worker i (k\<lparr>pk_w := None, pk_writer := Returned False\<rparr>) (work_done w (Failed errPipelineConnStopped) s))
          else None
      | _ \<Rightarrow> None)"

definition reader_take :: "nat \<Rightarrow> pipelineConnClient \<Rightarrow> pipelineConnClient option" where
  "reader_take i s =
     (let k = pc_workers s ! i in
      if reader_runs k \<and> pk_r k = None
      then (case chan_recv (pk_chR k) s of None \<Rightarrow> None | Some (w, s) \<Rightarrow> Some (set_worker i (k\<lparr>pk_r := Some w\<rparr>) s))
      else None)"

text \<open>The next response of the connection; the server has answered at most what it has been sent.\<close>

definition reader_read :: "nat \<Rightarrow> pipelineConnClient \<Rightarrow> pipelineConnClient option" where
  "reader_read i s =
     (let k = pc_workers s ! i in
      case pk_r k of
        Some w \<Rightarrow>
          if reader_runs k \<and> pk_nread k < length (pc_sent s ! pk_conn k)
          then Some (set_worker i (k\<lparr>pk_r := None, pk_nread := Suc (pk_nread k)\<rparr>) (work_done w (Reply (pk_conn k) (pk_nread k)) s))
          else None
      | None \<Rightarrow> None)"

definition reader_fail :: "nat \<Rightarrow> pipelineConnClient \<Rightarrow> pipelineConnClient option" where
  "reader_fail i s =
     (let k = pc_workers s ! i in
      case pk_r k of
        Some w \<Rightarrow>
          if reader_runs k
          then Some (set_worker i (k\<lparr>pk_r := None, pk_reader := Returned True\<rparr>) (work_done w (Failed PipeIOErr) s)) else None
      | None \<Rightarrow> None)"

definition reader_stopped :: "nat \<Rightarrow> pipelineConnClient \<Rightarrow> pipelineConnClient option" where
  "reader_stopped i s =
     (let k = pc_workers s ! i in
      if reader_runs k \<and> pk_r k = None \<and> stop_closed k then Some (set_worker i (k\<lparr>pk_reader := Returned False\<rparr>) s) else None)"

text \<open>\<open>worker\<close>: the first to return decides; the other is stopped; work left in \<open>chR\<close> is refused.\<close>

definition worker_stopping :: "nat \<Rightarrow> bool \<Rightarrow> pipelineConnClient \<Rightarrow> pipelineConnClient option" where
  "worker_stopping i err s =
     (let k = pc_workers s ! i in
      if pk_phase k = Serving \<and> (pk_writer k = Returned err \<or> pk_reader k = Returned err)
      then Some (set_worker i (k\<lparr>pk_phase := Stopping err\<rparr>) s) else None)"

definition worker_drain :: "nat \<Rightarrow> pipelineConnClient \<Rightarrow> pipelineConnClient option" where
  "worker_drain i s =
     (let k = pc_workers s ! i in
      case pk_phase k of
        Stopping err \<Rightarrow>
          if pk_writer k \<noteq> Runs \<and> pk_reader k \<noteq> Runs then Some (set_worker i (k\<lparr>pk_phase := Draining err\<rparr>) s) else None
      | Draining err \<Rightarrow>
          (case chan_recv (pc_chR s) s of
             None \<Rightarrow> None
           | Some (w, s) \<Rightarrow> Some (work_done w (Failed errPipelineConnStopped) s))
      | _ \<Rightarrow> None)"

text \<open>The loop in \<open>init\<close> after \<open>worker\<close> has returned.\<close>

definition worker_loop :: "nat \<Rightarrow> pipelineConnClient \<Rightarrow> pipelineConnClient option" where
  "worker_loop i s =
     (let k = pc_workers s ! i in
      case pk_phase k of
        Draining err \<Rightarrow>
          if chan_len (pc_chR s) s > 0 then None
          else if err then Some (set_worker i (k\<lparr>pk_phase := Dialing\<rparr>) s)
          else
            (let stop = (chan_len (pc_chR s) s = 0 \<and> chan_len (pc_chW s) s = 0) in
             if stop then Some (set_worker i (k\<lparr>pk_phase := Ended\<rparr>) s)
             else Some (set_worker i (k\<lparr>pk_phase := Dialing\<rparr>) (s\<lparr>pc_chR := None, pc_chW := None, pc_dropped := True\<rparr>)))
      | _ \<Rightarrow> None)"


section \<open>Interleavings\<close>

datatype pipe_event = EBegin bool | EPut nat | EEvict nat | ERetry nat | EReturn nat | ETimeout nat
  | EDialed nat | EWTake nat | EWReturn nat bool | EWExpired nat | EWWrite nat | EWFail nat | EWPut nat | EWStopped nat
  | ERTake nat | ERRead nat | ERFail nat | ERStopped nat | EStopping nat bool | EDrain nat | ELoop nat

definition at_worker :: "(nat \<Rightarrow> pipelineConnClient \<Rightarrow> pipelineConnClient option) \<Rightarrow> nat \<Rightarrow> pipelineConnClient \<Rightarrow> pipelineConnClient option" where
  "at_worker f i s = (if i < length (pc_workers s) then f i s else None)"

fun pipe_exec :: "pipe_event \<Rightarrow> pipelineConnClient \<Rightarrow> pipelineConnClient option" where
  "pipe_exec (EBegin deadline) s = Some (Do_begin deadline s)"
| "pipe_exec (EPut w) s = Do_put w s"
| "pipe_exec (EEvict w) s = Do_evict w s"
| "pipe_exec (ERetry w) s = Do_retry w s"
| "pipe_exec (EReturn w) s = Do_return w s"
| "pipe_exec (ETimeout w) s = DoDeadline_timeout w s"
| "pipe_exec (EDialed i) s = at_worker worker_dialed i s"
| "pipe_exec (EWTake i) s = at_worker writer_take i s"
| "pipe_exec (EWReturn i err) s = at_worker (\<lambda>i. writer_return i err) i s"
| "pipe_exec (EWExpired i) s = at_worker writer_expired i s"
| "pipe_exec (EWWrite i) s = at_worker writer_write i s"
| "pipe_exec (EWFail i) s = at_worker writer_fail i s"
| "pipe_exec (EWPut i) s = at_worker writer_put i s"
| "pipe_exec (EWStopped i) s = at_worker writer_stopped i s"
| "pipe_exec (ERTake i) s = at_worker reader_take i s"
| "pipe_exec (ERRead i) s = at_worker reader_read i s"
| "pipe_exec (ERFail i) s = at_worker reader_fail i s"
| "pipe_exec (ERStopped i) s = at_worker reader_stopped i s"
| "pipe_exec (EStopping i err) s = at_worker (\<lambda>i. worker_stopping i err) i s"
| "pipe_exec (EDrain i) s = at_worker worker_drain i s"
| "pipe_exec (ELoop i) s = at_worker worker_loop i s"

definition pipe_step :: "pipelineConnClient \<Rightarrow> pipe_event \<Rightarrow> pipelineConnClient \<Rightarrow> bool" where
  "pipe_step s e t \<longleftrightarrow> pipe_exec e s = Some t"

definition pipe_start :: "pipelineConnClient \<Rightarrow> bool" where
  "pipe_start s \<longleftrightarrow> (\<exists>MaxPendingRequests. s = newConnClient MaxPendingRequests)"

fun pipe_run :: "pipe_event list \<Rightarrow> pipelineConnClient \<Rightarrow> pipelineConnClient option" where
  "pipe_run [] s = Some s"
| "pipe_run (e # es) s = Option.bind (pipe_exec e s) (pipe_run es)"


section \<open>Choosing a connection\<close>

text \<open>
  \<open>getConnClientUnlocked\<close> on the numbers of pending requests of the connections: the index of the one
  taken, which is new if there is none with that index.
\<close>

fun getConnClient_loop :: "nat list \<Rightarrow> nat \<Rightarrow> nat \<Rightarrow> nat \<Rightarrow> nat + nat" where
  "getConnClient_loop [] i minCC minReqs = Inr minCC"
| "getConnClient_loop (reqs # rest) i minCC minReqs =
     (if reqs = 0 then Inl i
      else if reqs < minReqs then getConnClient_loop rest (Suc i) i reqs
      else getConnClient_loop rest (Suc i) minCC minReqs)"

definition getConnClientUnlocked :: "int \<Rightarrow> nat list \<Rightarrow> nat" where
  "getConnClientUnlocked MaxConns pending =
     (case pending of
        [] \<Rightarrow> 0
      | minReqs # rest \<Rightarrow>
          if minReqs = 0 then 0
          else
            (case getConnClient_loop rest 1 0 minReqs of
               Inl i \<Rightarrow> i
             | Inr minCC \<Rightarrow>
                 (let maxConns = (if MaxConns \<le> 0 then 1 else MaxConns) in
                  if int (length pending) < maxConns then length pending else minCC)))"

definition PendingRequests :: "pipelineConnClient \<Rightarrow> nat \<times> pipelineConnClient" where
  "PendingRequests s = (let s = pipelineConnClient_init s in (chan_len (pc_chR s) s + chan_len (pc_chW s) s, s))"

end
