(* ===== verification/PipelineClientInv.thy ===== *)
theory PipelineClientInv
  imports PipelineClient "HOL-Library.Sublist"
begin

text \<open>
  The invariants of \<open>PipelineClient\<close>: every piece of work is in one place (\<open>flow_inv\<close>), and responses are read
  in the order of the requests, until channels are given up (\<open>order_inv\<close>).
\<close>


section \<open>Where work is\<close>

definition hands :: "pipeWorker \<Rightarrow> nat list" where
  "hands k = (case pk_w k of None \<Rightarrow> [] | Some (w, written) \<Rightarrow> [w]) @ (case pk_r k of None \<Rightarrow> [] | Some w \<Rightarrow> [w])"

definition in_chans :: "pipelineConnClient \<Rightarrow> nat multiset" where
  "in_chans s = mset (concat (pc_chans s))"

definition in_hands :: "pipelineConnClient \<Rightarrow> nat multiset" where
  "in_hands s = mset (concat (map hands (pc_workers s)))"

definition finished :: "pipelineConnClient \<Rightarrow> nat multiset" where
  "finished s = mset (map fst (pc_done s))"

definition chan_ok :: "pipelineConnClient \<Rightarrow> nat option \<Rightarrow> bool" where
  "chan_ok s c \<longleftrightarrow> (\<forall>i. c = Some i \<longrightarrow> i < length (pc_chans s))"

text \<open>A goroutine that has returned holds nothing; a worker that is connected has a connection and channels.\<close>

definition worker_ok :: "pipelineConnClient \<Rightarrow> pipeWorker \<Rightarrow> bool" where
  "worker_ok s k \<longleftrightarrow> chan_ok s (pk_chW k) \<and> chan_ok s (pk_chR k) \<and> (connected k \<longrightarrow> pk_conn k < length (pc_sent s))
     \<and> (pk_writer k \<noteq> Runs \<or> \<not> connected k \<longrightarrow> pk_w k = None) \<and> (pk_reader k \<noteq> Runs \<or> \<not> connected k \<longrightarrow> pk_r k = None)"

definition was_put :: "pipe_call \<Rightarrow> bool" where
  "was_put c \<longleftrightarrow> c = CallWaiting \<or> (\<exists>out. c = CallReturned out)"

definition flow_inv :: "pipelineConnClient \<Rightarrow> bool" where
  "flow_inv s \<longleftrightarrow> chan_ok s (pc_chW s) \<and> chan_ok s (pc_chR s) \<and> (\<forall>k \<in> set (pc_workers s). worker_ok s k)
     \<and> in_chans s + in_hands s + finished s = pc_puts s
     \<and> (\<forall>w. count (pc_puts s) w \<le> 1) \<and> (\<forall>w \<in># pc_puts s. w < length (pc_calls s) \<and> was_put (snd (pc_calls s ! w)))
     \<and> (\<forall>w < length (pc_calls s). snd (pc_calls s ! w) = CallWaiting \<longrightarrow> w \<in># pc_puts s)"

lemma concat_update: "i < length xs \<Longrightarrow> mset (concat (xs[i := y])) + mset (xs ! i) = mset (concat xs) + mset y"
proof (induction xs arbitrary: i)
  case (Cons x xs)
  then show ?case by (cases i) (simp_all add: ac_simps)
qed simp

lemma chan_sendE:
  assumes "chan_send c w s = Some t" and "chan_ok s c"
  obtains i where "c = Some i" and "i < length (pc_chans s)" and "t = s\<lparr>pc_chans := (pc_chans s)[i := pc_chans s ! i @ [w]]\<rparr>"
    and "mset (concat (pc_chans t)) = add_mset w (mset (concat (pc_chans s)))"
proof -
  obtain i where i: "c = Some i" "i < length (pc_chans s)" "t = s\<lparr>pc_chans := (pc_chans s)[i := pc_chans s ! i @ [w]]\<rparr>"
    using assms by (auto simp: chan_send_def chan_ok_def split: option.splits if_splits)
  have "mset (concat (pc_chans t)) = add_mset w (mset (concat (pc_chans s)))"
    using concat_update [OF i(2), of "pc_chans s ! i @ [w]"] i(3) by simp
  with i show thesis by (rule that)
qed

lemma chan_recvE:
  assumes "chan_recv c s = Some (w, t)" and "chan_ok s c"
  obtains i ws where "c = Some i" and "i < length (pc_chans s)" and "pc_chans s ! i = w # ws" and "t = s\<lparr>pc_chans := (pc_chans s)[i := ws]\<rparr>"
    and "mset (concat (pc_chans s)) = add_mset w (mset (concat (pc_chans t)))"
proof -
  obtain i ws where i: "c = Some i" "i < length (pc_chans s)" "pc_chans s ! i = w # ws" "t = s\<lparr>pc_chans := (pc_chans s)[i := ws]\<rparr>"
    using assms by (auto simp: chan_recv_def chan_ok_def split: option.splits list.splits)
  have "mset (concat (pc_chans s)) = add_mset w (mset (concat (pc_chans t)))"
    using concat_update [OF i(2), of ws] i(3,4) by simp
  with i show thesis by (rule that)
qed

lemma hands_update:
  assumes "i < length (pc_workers s)" and "mset (hands k) + A = mset (hands (pc_workers s ! i)) + B"
  shows "in_hands (set_worker i k s) + A = in_hands s + B"
proof -
  have "mset (concat ((map hands (pc_workers s))[i := hands k])) + mset (map hands (pc_workers s) ! i)
      = mset (concat (map hands (pc_workers s))) + mset (hands k)"
    by (rule concat_update) (simp add: assms(1))
  then have "in_hands (set_worker i k s) + mset (hands (pc_workers s ! i)) = in_hands s + mset (hands k)"
    using assms(1) by (simp add: in_hands_def set_worker_def map_update)
  then have "in_hands (set_worker i k s) + A + mset (hands (pc_workers s ! i)) = in_hands s + B + mset (hands (pc_workers s ! i))"
    using assms(2) by (metis (no_types, lifting) add.assoc add.commute)
  then show ?thesis by simp
qed

text \<open>What the state keeps in the steps.\<close>

lemma pipe_state_parts [simp]:
  "pc_chans (set_worker i k s) = pc_chans s" "pc_workers (set_worker i k s) = (pc_workers s)[i := k]" "pc_done (set_worker i k s) = pc_done s"
  "pc_puts (set_worker i k s) = pc_puts s" "pc_calls (set_worker i k s) = pc_calls s" "pc_sent (set_worker i k s) = pc_sent s"
  "pc_chW (set_worker i k s) = pc_chW s" "pc_chR (set_worker i k s) = pc_chR s" "pc_dropped (set_worker i k s) = pc_dropped s"
  "pc_cap (set_worker i k s) = pc_cap s"
  "pc_chans (work_done w out s) = pc_chans s" "pc_workers (work_done w out s) = pc_workers s" "pc_done (work_done w out s) = pc_done s @ [(w, out)]"
  "pc_puts (work_done w out s) = pc_puts s" "pc_calls (work_done w out s) = pc_calls s" "pc_sent (work_done w out s) = pc_sent s"
  "pc_chW (work_done w out s) = pc_chW s" "pc_chR (work_done w out s) = pc_chR s" "pc_dropped (work_done w out s) = pc_dropped s"
  "pc_chans (set_call w c s) = pc_chans s" "pc_workers (set_call w c s) = pc_workers s" "pc_done (set_call w c s) = pc_done s"
  "pc_puts (set_call w c s) = pc_puts s" "pc_calls (set_call w c s) = (pc_calls s)[w := (fst (pc_calls s ! w), c)]" "pc_sent (set_call w c s) = pc_sent s"
  "pc_chW (set_call w c s) = pc_chW s" "pc_chR (set_call w c s) = pc_chR s" "pc_dropped (set_call w c s) = pc_dropped s"
  by (simp_all add: set_worker_def work_done_def set_call_def)

lemma connected_phase [simp]: "connected (k\<lparr>pk_w := a\<rparr>) = connected k" "connected (k\<lparr>pk_r := b\<rparr>) = connected k"
  "connected (k\<lparr>pk_writer := g\<rparr>) = connected k" "connected (k\<lparr>pk_reader := g\<rparr>) = connected k" "connected (k\<lparr>pk_nread := n\<rparr>) = connected k"
  by (simp_all add: connected_def)

text \<open>Steps of a worker: everything but channels, hands and results stays.\<close>

lemma flow_worker:
  assumes "flow_inv s" and "i < length (pc_workers s)" and "worker_ok t k"
    and "pc_workers t = pc_workers s" and "length (pc_chans t) = length (pc_chans s)" and "length (pc_sent s) \<le> length (pc_sent t)"
    and "pc_chW t = pc_chW s" and "pc_chR t = pc_chR s" and "pc_puts t = pc_puts s" and "pc_calls t = pc_calls s"
    and "in_chans t + mset (hands k) + finished t = in_chans s + mset (hands (pc_workers s ! i)) + finished s"
  shows "flow_inv (set_worker i k t)"
proof -
  have ok: "worker_ok t k'" if "worker_ok s k'" for k' using that assms(5,6) by (auto simp: worker_ok_def chan_ok_def split: option.splits)
  have same: "worker_ok (set_worker i k t) k' = worker_ok t k'" for k' by (simp add: worker_ok_def chan_ok_def)
  have all: "\<forall>k' \<in> set (pc_workers s). worker_ok s k'" using assms(1) by (simp add: flow_inv_def)
  have "\<forall>k' \<in> set ((pc_workers s)[i := k]). worker_ok t k'"
  proof
    fix k'
    assume "k' \<in> set ((pc_workers s)[i := k])"
    then have "k' = k \<or> k' \<in> set (pc_workers s)" using set_update_subset_insert by fast
    then show "worker_ok t k'" using assms(3) ok all by blast
  qed
  then have "\<forall>k' \<in> set (pc_workers (set_worker i k t)). worker_ok (set_worker i k t) k'"
    using assms(4) same by simp
  moreover have "in_hands (set_worker i k t) + mset (hands (pc_workers s ! i)) = in_hands s + mset (hands k)"
    using hands_update [of i t k "mset (hands (pc_workers s ! i))" "mset (hands k)"] assms(2,4) by (simp add: in_hands_def add.commute)
  then have "in_chans t + in_hands (set_worker i k t) + finished t + (mset (hands (pc_workers s ! i)) + mset (hands k))
      = in_chans s + in_hands s + finished s + (mset (hands (pc_workers s ! i)) + mset (hands k))"
    using assms(11) by (simp add: ac_simps)
  then have "in_chans t + in_hands (set_worker i k t) + finished t = in_chans s + in_hands s + finished s" by simp
  then have "in_chans (set_worker i k t) + in_hands (set_worker i k t) + finished (set_worker i k t) = pc_puts s"
    using assms(1) by (simp add: flow_inv_def in_chans_def finished_def)
  ultimately show ?thesis
    using assms(1,5,7-10) by (simp add: flow_inv_def chan_ok_def)
qed


lemma worker_at: "flow_inv s \<Longrightarrow> i < length (pc_workers s) \<Longrightarrow> worker_ok s (pc_workers s ! i)"
  by (simp add: flow_inv_def)

lemma at_worker_Some: "at_worker f i s = Some t \<longleftrightarrow> i < length (pc_workers s) \<and> f i s = Some t"
  by (simp add: at_worker_def)

lemmas worker_defs = writer_take_def writer_return_def writer_expired_def writer_write_def writer_fail_def writer_put_def
  writer_stopped_def reader_take_def reader_read_def reader_fail_def reader_stopped_def worker_stopping_def worker_loop_def

text \<open>Steps that only move one piece of work within a worker, or out of it.\<close>

lemma flow_local:
  assumes I: "flow_inv s" and i: "i < length (pc_workers s)"
    and "f \<in> {writer_expired, writer_fail, writer_stopped, reader_read, reader_fail, reader_stopped}" and "f i s = Some t"
  shows "flow_inv t"
  using assms(3,4) worker_at [OF I i]
  by (auto simp: worker_defs Let_def split: option.splits prod.splits bool.splits if_splits
      intro!: flow_worker [OF I i] simp: worker_ok_def chan_ok_def in_chans_def finished_def hands_def writer_runs_def reader_runs_def)

lemma flow_phase:
  assumes I: "flow_inv s" and i: "i < length (pc_workers s)"
    and "f i s = Some t" and "f = (\<lambda>i. writer_return i err) \<or> f = (\<lambda>i. worker_stopping i err)"
  shows "flow_inv t"
  using assms(3,4) worker_at [OF I i]
  by (auto simp: worker_defs Let_def split: option.splits if_splits
      intro!: flow_worker [OF I i] simp: worker_ok_def chan_ok_def in_chans_def finished_def hands_def writer_runs_def reader_runs_def connected_def)

lemma flow_write:
  assumes I: "flow_inv s" and i: "i < length (pc_workers s)" and "writer_write i s = Some t"
  shows "flow_inv t"
  using assms(3) worker_at [OF I i]
  by (auto simp: writer_write_def Let_def split: option.splits prod.splits bool.splits if_splits
      intro!: flow_worker [OF I i] simp: worker_ok_def chan_ok_def in_chans_def finished_def hands_def writer_runs_def)

lemma flow_dialed:
  assumes I: "flow_inv s" and i: "i < length (pc_workers s)" and "worker_dialed i s = Some t"
  shows "flow_inv t"
proof -
  let ?k = "\<lparr>pk_phase = Serving, pk_conn = length (pc_sent s), pk_chW = pc_chW s, pk_chR = pc_chR s,
    pk_writer = Runs, pk_reader = Runs, pk_w = None, pk_r = None, pk_nread = 0\<rparr>" and ?s = "s\<lparr>pc_sent := pc_sent s @ [[]]\<rparr>"
  have d: "pk_phase (pc_workers s ! i) = Dialing" "t = set_worker i ?k ?s"
    using assms(3) by (simp_all add: worker_dialed_def split: if_splits)
  have "hands (pc_workers s ! i) = []" "hands ?k = []"
    using worker_at [OF I i] d(1) by (simp_all add: worker_ok_def hands_def connected_def)
  moreover have "worker_ok ?s ?k" using I by (simp add: worker_ok_def chan_ok_def flow_inv_def)
  ultimately show ?thesis unfolding d(2) by (intro flow_worker [OF I i]) (simp_all add: in_chans_def finished_def)
qed

lemma flow_writer_take:
  assumes I: "flow_inv s" and i: "i < length (pc_workers s)" and "writer_take i s = Some t"
  shows "flow_inv t"
proof -
  let ?k = "pc_workers s ! i"
  obtain w s' where w: "writer_runs ?k" "pk_w ?k = None" "chan_recv (pk_chW ?k) s = Some (w, s')" "t = set_worker i (?k\<lparr>pk_w := Some (w, False)\<rparr>) s'"
    using assms(3) by (auto simp: writer_take_def Let_def split: if_splits option.splits)
  have ok: "worker_ok s ?k" by (rule worker_at [OF I i])
  then have "chan_ok s (pk_chW ?k)" by (simp add: worker_ok_def)
  then obtain j ws where c: "s' = s\<lparr>pc_chans := (pc_chans s)[j := ws]\<rparr>" "mset (concat (pc_chans s)) = add_mset w (mset (concat (pc_chans s')))"
    using chan_recvE [OF w(3)] by metis
  have k: "hands (?k\<lparr>pk_w := Some (w, False)\<rparr>) = w # hands ?k" using w(2) by (simp add: hands_def)
  have "worker_ok s' (?k\<lparr>pk_w := Some (w, False)\<rparr>)" using ok w(1) c(1) by (auto simp: worker_ok_def chan_ok_def writer_runs_def)
  then show ?thesis unfolding w(4)
    using c k by (intro flow_worker [OF I i]) (simp_all add: in_chans_def finished_def)
qed

lemma flow_reader_take:
  assumes I: "flow_inv s" and i: "i < length (pc_workers s)" and "reader_take i s = Some t"
  shows "flow_inv t"
proof -
  let ?k = "pc_workers s ! i"
  obtain w s' where w: "reader_runs ?k" "pk_r ?k = None" "chan_recv (pk_chR ?k) s = Some (w, s')" "t = set_worker i (?k\<lparr>pk_r := Some w\<rparr>) s'"
    using assms(3) by (auto simp: reader_take_def Let_def split: if_splits option.splits)
  have ok: "worker_ok s ?k" by (rule worker_at [OF I i])
  then have "chan_ok s (pk_chR ?k)" by (simp add: worker_ok_def)
  then obtain j ws where c: "s' = s\<lparr>pc_chans := (pc_chans s)[j := ws]\<rparr>" "mset (concat (pc_chans s)) = add_mset w (mset (concat (pc_chans s')))"
    using chan_recvE [OF w(3)] by metis
  have k: "hands (?k\<lparr>pk_r := Some w\<rparr>) = hands ?k @ [w]" using w(2) by (simp add: hands_def)
  have "worker_ok s' (?k\<lparr>pk_r := Some w\<rparr>)" using ok w(1) c(1) by (auto simp: worker_ok_def chan_ok_def reader_runs_def)
  then show ?thesis unfolding w(4)
    using c k by (intro flow_worker [OF I i]) (simp_all add: in_chans_def finished_def)
qed

lemma flow_writer_put:
  assumes I: "flow_inv s" and i: "i < length (pc_workers s)" and "writer_put i s = Some t"
  shows "flow_inv t"
proof -
  let ?k = "pc_workers s ! i"
  obtain w s' where w: "writer_runs ?k" "pk_w ?k = Some (w, True)" "chan_send (pk_chR ?k) w s = Some s'" "t = set_worker i (?k\<lparr>pk_w := None\<rparr>) s'"
    using assms(3) by (auto simp: writer_put_def Let_def split: if_splits option.splits bool.splits)
  have ok: "worker_ok s ?k" by (rule worker_at [OF I i])
  then have "chan_ok s (pk_chR ?k)" by (simp add: worker_ok_def)
  then obtain j where c: "s' = s\<lparr>pc_chans := (pc_chans s)[j := pc_chans s ! j @ [w]]\<rparr>" "mset (concat (pc_chans s')) = add_mset w (mset (concat (pc_chans s)))"
    using chan_sendE [OF w(3)] by metis
  have k: "hands ?k = w # hands (?k\<lparr>pk_w := None\<rparr>)" using w(2) by (simp add: hands_def)
  have "worker_ok s' (?k\<lparr>pk_w := None\<rparr>)" using ok w(1) c(1) by (auto simp: worker_ok_def chan_ok_def writer_runs_def)
  then show ?thesis unfolding w(4)
    using c k by (intro flow_worker [OF I i]) (simp_all add: in_chans_def finished_def)
qed

text \<open>Steps outside of writer and reader.\<close>

lemma flow_outside:
  assumes "flow_inv s" and "pc_workers t = pc_workers s" and "length (pc_chans s) \<le> length (pc_chans t)" and "pc_sent t = pc_sent s"
    and "pc_chW t = pc_chW s" and "pc_chR t = pc_chR s" and "pc_puts t = pc_puts s" and "pc_calls t = pc_calls s"
    and "in_chans t + finished t = in_chans s + finished s"
  shows "flow_inv t"
proof -
  have "worker_ok t k" if "worker_ok s k" for k using that assms(3,4) by (auto simp: worker_ok_def chan_ok_def)
  moreover have "in_chans t + in_hands t + finished t = in_chans s + in_hands s + finished s"
    using assms(2,9) by (simp add: in_hands_def)
  ultimately show ?thesis using assms by (auto simp: flow_inv_def chan_ok_def)
qed

lemma flow_drain:
  assumes I: "flow_inv s" and i: "i < length (pc_workers s)" and "worker_drain i s = Some t"
  shows "flow_inv t"
proof (cases "pk_phase (pc_workers s ! i)")
  case (Stopping err)
  let ?k = "pc_workers s ! i"
  have t: "pk_writer ?k \<noteq> Runs" "pk_reader ?k \<noteq> Runs" "t = set_worker i (?k\<lparr>pk_phase := Draining err\<rparr>) s"
    using assms(3) Stopping by (simp_all add: worker_drain_def Let_def split: if_splits)
  have "worker_ok s (?k\<lparr>pk_phase := Draining err\<rparr>)" "hands (?k\<lparr>pk_phase := Draining err\<rparr>) = hands ?k"
    using worker_at [OF I i] t(1,2) by (simp_all add: worker_ok_def hands_def connected_def)
  then show ?thesis unfolding t(3) by (intro flow_worker [OF I i]) simp_all
next
  case (Draining err)
  obtain w s' where w: "chan_recv (pc_chR s) s = Some (w, s')" "t = work_done w (Failed errPipelineConnStopped) s'"
    using assms(3) Draining by (auto simp: worker_drain_def Let_def split: option.splits)
  have "chan_ok s (pc_chR s)" using I by (simp add: flow_inv_def)
  then obtain j ws where c: "s' = s\<lparr>pc_chans := (pc_chans s)[j := ws]\<rparr>" "mset (concat (pc_chans s)) = add_mset w (mset (concat (pc_chans s')))"
    using chan_recvE [OF w(1)] by metis
  show ?thesis unfolding w(2) by (rule flow_outside [OF I]) (use c in \<open>simp_all add: in_chans_def finished_def\<close>)
qed (use assms(3) in \<open>simp_all add: worker_drain_def Let_def\<close>)

lemma flow_loop:
  assumes I: "flow_inv s" and i: "i < length (pc_workers s)" and "worker_loop i s = Some t"
  shows "flow_inv t"
proof -
  let ?k = "pc_workers s ! i"
  obtain err where d: "pk_phase ?k = Draining err" using assms(3) by (auto simp: worker_loop_def Let_def split: worker_phase.splits)
  have h: "hands ?k = []" "hands (?k\<lparr>pk_phase := p\<rparr>) = []" for p
    using worker_at [OF I i] d by (simp_all add: worker_ok_def hands_def connected_def)
  have ok: "worker_ok s (?k\<lparr>pk_phase := p\<rparr>)" if "p = Dialing \<or> p = Ended" for p
    using worker_at [OF I i] d that by (auto simp: worker_ok_def connected_def)
  have J: "flow_inv (set_worker i (?k\<lparr>pk_phase := p\<rparr>) s)" if "p = Dialing \<or> p = Ended" for p
    by (rule flow_worker [OF I i ok [OF that]]) (simp_all add: h)
  let ?t = "set_worker i (?k\<lparr>pk_phase := Dialing\<rparr>) (s\<lparr>pc_chR := None, pc_chW := None, pc_dropped := True\<rparr>)"
  have "flow_inv ?t"
    using J [of Dialing] by (simp add: flow_inv_def worker_ok_def chan_ok_def in_chans_def in_hands_def finished_def set_worker_def)
  then show ?thesis
    using assms(3) d J by (auto simp: worker_loop_def Let_def split: if_splits)
qed


lemma flow_init:
  assumes "flow_inv s"
  shows "flow_inv (pipelineConnClient_init s)"
proof (cases "pc_chR s = None")
  case True
  let ?t = "pipelineConnClient_init s"
  have c: "pc_calls ?t = pc_calls s" "pc_puts ?t = pc_puts s" "pc_done ?t = pc_done s" "pc_sent ?t = pc_sent s"
    "pc_workers ?t = pc_workers s @ [new_worker]" "\<exists>n. pc_chans ?t = pc_chans s @ replicate n []" "chan_ok ?t (pc_chW ?t)" "chan_ok ?t (pc_chR ?t)"
    using True assms by (auto simp: pipelineConnClient_init_def chan_ok_def flow_inv_def Let_def intro: exI [of _ 1] exI [of _ 2]
        simp: numeral_2_eq_2)
  then obtain n where n: "pc_chans ?t = pc_chans s @ replicate n []" by blast
  have "worker_ok ?t k" if "worker_ok s k" for k using that n c(4) by (auto simp: worker_ok_def chan_ok_def)
  moreover have "worker_ok ?t new_worker" by (simp add: worker_ok_def new_worker_def chan_ok_def connected_def)
  moreover have "in_chans ?t = in_chans s" using n by (simp add: in_chans_def)
  moreover have "in_hands ?t = in_hands s" using c(5) by (simp add: in_hands_def hands_def new_worker_def)
  moreover have "finished ?t = finished s" using c(3) by (simp add: finished_def)
  ultimately show ?thesis using assms c by (auto simp: flow_inv_def)
qed (simp add: pipelineConnClient_init_def assms)

lemma flow_begin:
  assumes "flow_inv s"
  shows "flow_inv (Do_begin deadline s)"
proof -
  have J: "flow_inv (pipelineConnClient_init s)" by (rule flow_init [OF assms])
  have "pc_calls (pipelineConnClient_init s) = pc_calls s" by (simp add: pipelineConnClient_init_def Let_def)
  with J show ?thesis
    by (auto simp: flow_inv_def Do_begin_def worker_ok_def chan_ok_def in_chans_def in_hands_def finished_def nth_append less_Suc_eq)
qed

lemma set_call_inv:
  assumes "flow_inv s" and "w < length (pc_calls s)" and "w \<in># pc_puts s \<longrightarrow> was_put c" and "c = CallWaiting \<longrightarrow> w \<in># pc_puts s"
  shows "flow_inv (set_call w c s)"
proof -
  have "worker_ok (set_call w c s) k = worker_ok s k" for k by (simp add: worker_ok_def chan_ok_def)
  then show ?thesis
    using assms by (auto simp: flow_inv_def in_chans_def in_hands_def finished_def nth_list_update chan_ok_def)
qed

lemma flow_send:
  assumes I: "flow_inv s" and "in_call w c s" and "\<not> was_put c" and "chan_send (pc_chW s) w s = Some s'"
  shows "flow_inv (set_call w CallWaiting (s'\<lparr>pc_puts := add_mset w (pc_puts s')\<rparr>))"
proof -
  have "chan_ok s (pc_chW s)" using I by (simp add: flow_inv_def)
  then obtain j where j: "s' = s\<lparr>pc_chans := (pc_chans s)[j := pc_chans s ! j @ [w]]\<rparr>" "mset (concat (pc_chans s')) = add_mset w (mset (concat (pc_chans s)))"
    using chan_sendE [OF assms(4)] by metis
  have w: "w < length (pc_calls s)" "w \<notin># pc_puts s" using I assms(2,3) by (auto simp: flow_inv_def in_call_def)
  let ?t = "set_call w CallWaiting (s'\<lparr>pc_puts := add_mset w (pc_puts s')\<rparr>)"
  have "worker_ok ?t k = worker_ok s k" for k using j(1) by (simp add: worker_ok_def chan_ok_def)
  moreover have "in_chans ?t = add_mset w (in_chans s)" "in_hands ?t = in_hands s" "finished ?t = finished s"
    using j by (simp_all add: in_chans_def in_hands_def finished_def)
  moreover have "count (pc_puts s) w = 0" using w(2) by (simp add: not_in_iff)
  ultimately show ?thesis
    using I w j(1) by (auto simp: flow_inv_def nth_list_update chan_ok_def was_put_def)
qed

lemma flow_evict:
  assumes I: "flow_inv s" and "chan_recv (pc_chW s) s = Some (w, s')"
  shows "flow_inv (work_done w out s')" and "pc_calls (work_done w out s') = pc_calls s" and "pc_puts (work_done w out s') = pc_puts s"
proof -
  have "chan_ok s (pc_chW s)" using I by (simp add: flow_inv_def)
  then obtain j ws where c: "s' = s\<lparr>pc_chans := (pc_chans s)[j := ws]\<rparr>" "mset (concat (pc_chans s)) = add_mset w (mset (concat (pc_chans s')))"
    using chan_recvE [OF assms(2)] by metis
  show "flow_inv (work_done w out s')" by (rule flow_outside [OF I]) (use c in \<open>simp_all add: in_chans_def finished_def\<close>)
  show "pc_calls (work_done w out s') = pc_calls s" "pc_puts (work_done w out s') = pc_puts s" using c(1) by simp_all
qed

lemma not_put: "flow_inv s \<Longrightarrow> in_call w c s \<Longrightarrow> \<not> was_put c \<Longrightarrow> w < length (pc_calls s) \<and> w \<notin># pc_puts s"
  by (auto simp: flow_inv_def in_call_def)

lemma flow_call:
  assumes I: "flow_inv s" and "f \<in> {Do_put, Do_evict, Do_retry, Do_return, DoDeadline_timeout}" and "f w s = Some t"
  shows "flow_inv t"
proof -
  have call: "w < length (pc_calls s) \<and> w \<notin># pc_puts s" if "in_call w c s" "c \<in> {CallInited, CallFull, CallEvicted}" for c
    using not_put [OF I that(1)] that(2) by (auto simp: was_put_def)
  from assms(2) consider "f = Do_put" | "f = Do_evict" | "f = Do_retry" | "f = Do_return" | "f = DoDeadline_timeout" by blast
  then show ?thesis
  proof cases
    case 1
    then show ?thesis
      using assms(3) flow_send [OF I, of w CallInited] set_call_inv [OF I, of w CallFull] call [of CallInited]
      by (auto simp: Do_put_def was_put_def split: if_splits option.splits)
  next
    case 2
    then have w: "in_call w CallFull s" using assms(3) by (simp add: Do_evict_def split: if_splits)
    show ?thesis
    proof (cases "chan_recv (pc_chW s) s")
      case None
      then show ?thesis using 2 assms(3) w set_call_inv [OF I, of w CallEvicted] call [OF w] by (simp add: Do_evict_def)
    next
      case (Some p)
      obtain wOld s' where p: "p = (wOld, s')" by fastforce
      note e = flow_evict [OF I Some [unfolded p], of "Failed ErrPipelineOverflow"]
      have "flow_inv (set_call w CallEvicted (work_done wOld (Failed ErrPipelineOverflow) s'))"
        by (rule set_call_inv [OF e(1)]) (use e(2,3) call [OF w] in simp_all)
      then show ?thesis using 2 assms(3) w Some p by (simp add: Do_evict_def)
    qed
  next
    case 3
    then show ?thesis
      using assms(3) flow_send [OF I, of w CallEvicted] set_call_inv [OF I, of w "CallReturned (Failed ErrPipelineOverflow)"] call [of CallEvicted]
      by (auto simp: Do_retry_def was_put_def split: if_splits option.splits)
  next
    case 4
    then show ?thesis
      using assms(3) set_call_inv [OF I, of w "CallReturned out" for out]
      by (auto simp: Do_return_def was_put_def in_call_def split: if_splits option.splits)
  next
    case 5
    then show ?thesis
      using assms(3) set_call_inv [OF I, of w "CallReturned (Failed ErrPipelineTimeout)"]
      by (auto simp: DoDeadline_timeout_def was_put_def in_call_def split: if_splits)
  qed
qed

lemma flow_step:
  assumes "flow_inv s" and "pipe_step s e t"
  shows "flow_inv t"
proof (cases e)
  case (EWReturn i err)
  then show ?thesis using assms flow_phase [OF assms(1), of i "\<lambda>i. writer_return i err"] by (auto simp: pipe_step_def at_worker_Some)
next
  case (EStopping i err)
  then show ?thesis using assms flow_phase [OF assms(1), of i "\<lambda>i. worker_stopping i err"] by (auto simp: pipe_step_def at_worker_Some)
qed (use assms in \<open>auto simp: pipe_step_def at_worker_Some intro: flow_begin flow_call flow_local flow_write flow_dialed flow_writer_take
      flow_reader_take flow_writer_put flow_drain flow_loop\<close>)

lemma flow_start: "pipe_start s \<Longrightarrow> flow_inv s"
  by (auto simp: pipe_start_def newConnClient_def flow_inv_def chan_ok_def in_chans_def in_hands_def finished_def)

interpretation pipe_flow: event_system pipe_start pipe_step flow_inv
  by unfold_locales (fact flow_start, fact flow_step)

section \<open>The order of responses\<close>

text \<open>\<open>Reply c n\<close> is the response to request \<open>n\<close> of connection \<open>c\<close>.\<close>

definition reply_matches :: "nat list list \<Rightarrow> nat \<times> outcome \<Rightarrow> bool" where
  "reply_matches sent d \<longleftrightarrow> (\<forall>c n. snd d = Reply c n \<longrightarrow> c < length sent \<and> n < length (sent ! c) \<and> sent ! c ! n = fst d)"

text \<open>The work that is written and not yet answered, in the order in which its responses come.\<close>

definition to_answer :: "pipelineConnClient \<Rightarrow> nat \<Rightarrow> pipeWorker \<Rightarrow> nat list" where
  "to_answer s r k = (case pk_r k of None \<Rightarrow> [] | Some w \<Rightarrow> [w]) @ pc_chans s ! r @ (case pk_w k of Some (w, True) \<Rightarrow> [w] | _ \<Rightarrow> [])"

definition unanswered :: "pipelineConnClient \<Rightarrow> pipeWorker \<Rightarrow> nat list" where
  "unanswered s k = drop (pk_nread k) (pc_sent s ! pk_conn k)"

definition worker_order :: "pipelineConnClient \<Rightarrow> nat \<Rightarrow> pipeWorker \<Rightarrow> bool" where
  "worker_order s r k \<longleftrightarrow> pc_chR s = Some r \<and> pc_chW s \<noteq> Some r
     \<and> (connected k \<longrightarrow> pk_chR k = Some r \<and> pk_chW k = pc_chW s)
     \<and> (reader_runs k \<longrightarrow> pk_nread k \<le> length (pc_sent s ! pk_conn k) \<and> prefix (to_answer s r k) (unanswered s k) \<and> (pk_writer k = Runs \<longrightarrow> to_answer s r k = unanswered s k))
     \<and> (pk_phase k = Dialing \<longrightarrow> pc_chans s ! r = [])"

definition order_inv :: "pipelineConnClient \<Rightarrow> bool" where
  "order_inv s \<longleftrightarrow> (\<not> pc_dropped s \<longrightarrow> list_all (reply_matches (pc_sent s)) (pc_done s)
     \<and> (pc_workers s = [] \<and> pc_chR s = None \<and> pc_chW s = None \<or> (\<exists>r k. pc_workers s = [k] \<and> worker_order s r k)))"

lemma Failed_matches [simp]: "reply_matches sent (w, Failed err)"
  by (simp add: reply_matches_def)

lemma matches_mono:
  assumes "reply_matches sent d" and "length sent \<le> length sent'" and "\<And>c. c < length sent \<Longrightarrow> prefix (sent ! c) (sent' ! c)"
  shows "reply_matches sent' d"
  unfolding reply_matches_def
proof (intro allI impI)
  fix c n
  assume "snd d = Reply c n"
  then have c: "c < length sent" "n < length (sent ! c)" "sent ! c ! n = fst d" using assms(1) by (auto simp: reply_matches_def)
  then obtain zs where "sent' ! c = sent ! c @ zs" using assms(3) by (auto elim: prefixE)
  with c assms(2) show "c < length sent' \<and> n < length (sent' ! c) \<and> sent' ! c ! n = fst d" by (simp add: nth_append)
qed

lemma order_one:
  assumes "order_inv s" and "\<not> pc_dropped s" and "i < length (pc_workers s)"
  obtains r k where "i = 0" and "pc_workers s = [k]" and "worker_order s r k" and "list_all (reply_matches (pc_sent s)) (pc_done s)"
  using assms by (auto simp: order_inv_def)

text \<open>Changes that the order does not see: other channels, calls and results that are errors.\<close>

lemma order_same:
  assumes "order_inv s" and "pc_dropped t = pc_dropped s" and "pc_workers t = pc_workers s" and "pc_sent t = pc_sent s"
    and "pc_chW t = pc_chW s" and "pc_chR t = pc_chR s" and "\<And>r. pc_chR s = Some r \<Longrightarrow> pc_chW s \<noteq> Some r \<Longrightarrow> pc_chans t ! r = pc_chans s ! r"
    and "pc_done t = pc_done s \<or> (\<exists>w err. pc_done t = pc_done s @ [(w, Failed err)])"
  shows "order_inv t"
proof -
  have "worker_order t r k" if "worker_order s r k" for r k
    using that assms(4-7) by (auto simp: worker_order_def to_answer_def unanswered_def)
  moreover have "list_all (reply_matches (pc_sent t)) (pc_done t)" if "list_all (reply_matches (pc_sent s)) (pc_done s)"
    using that assms(4,8) by auto
  ultimately show ?thesis using assms(1-3,5,6) by (auto simp: order_inv_def)
qed

lemma order_worker:
  assumes "order_inv s" and "\<not> pc_dropped s \<Longrightarrow> list_all (reply_matches (pc_sent t)) (pc_done t) \<and> (\<exists>r. worker_order t r k)"
    and "pc_dropped t = pc_dropped s" and "pc_workers t = pc_workers s" and "i < length (pc_workers s)"
  shows "order_inv (set_worker i k t)"
proof (cases "pc_dropped s")
  case False
  obtain k0 where "i = 0" "pc_workers s = [k0]" by (rule order_one [OF assms(1) False assms(5)])
  moreover have "worker_order (set_worker i k t) r k = worker_order t r k" for r by (simp add: worker_order_def to_answer_def unanswered_def)
  ultimately show ?thesis using assms(2,4) False by (auto simp: order_inv_def)
qed (simp add: order_inv_def assms(3))

lemma order_call:
  assumes "order_inv s" and "flow_inv s" and "f \<in> {Do_put, Do_evict, Do_retry, Do_return, DoDeadline_timeout}" and "f w s = Some t"
  shows "order_inv t"
proof (rule order_same [OF assms(1)])
  have ok: "chan_ok s (pc_chW s)" using assms(2) by (simp add: flow_inv_def)
  have send: "\<exists>i cs. pc_chW s = Some i \<and> s' = s\<lparr>pc_chans := (pc_chans s)[i := cs]\<rparr>" if "chan_send (pc_chW s) v s = Some s'" for v s'
    using chan_sendE [OF that ok] by metis
  have recv: "\<exists>i cs. pc_chW s = Some i \<and> s' = s\<lparr>pc_chans := (pc_chans s)[i := cs]\<rparr>" if "chan_recv (pc_chW s) s = Some (v, s')" for v s'
    using chan_recvE [OF that ok] by metis
  note defs = Do_put_def Do_evict_def Do_retry_def Do_return_def DoDeadline_timeout_def
  show "pc_dropped t = pc_dropped s" "pc_workers t = pc_workers s" "pc_sent t = pc_sent s" "pc_chW t = pc_chW s" "pc_chR t = pc_chR s"
    "pc_done t = pc_done s \<or> (\<exists>w err. pc_done t = pc_done s @ [(w, Failed err)])"
    using assms(3,4) by (auto simp: defs split: if_splits option.splits dest!: send recv)
  show "pc_chans t ! r = pc_chans s ! r" if "pc_chR s = Some r" "pc_chW s \<noteq> Some r" for r
    using assms(3,4) that by (auto simp: defs split: if_splits option.splits dest!: send recv)
qed

lemma order_begin:
  assumes "order_inv s" and "flow_inv s"
  shows "order_inv (Do_begin deadline s)"
proof (cases "pc_chR s = None")
  case True
  let ?t = "Do_begin deadline s"
  have "\<exists>r. worker_order ?t r new_worker" if "\<not> pc_dropped s"
    using True that assms(1) by (auto simp: order_inv_def worker_order_def Do_begin_def pipelineConnClient_init_def new_worker_def
        connected_def reader_runs_def nth_append Let_def)
  then show ?thesis
    using True assms(1) by (auto simp: order_inv_def Do_begin_def pipelineConnClient_init_def worker_order_def Let_def)
next
  case False
  then show ?thesis by (intro order_same [OF assms(1)]) (simp_all add: Do_begin_def pipelineConnClient_init_def)
qed

lemmas order_defs = worker_order_def to_answer_def unanswered_def writer_runs_def reader_runs_def

lemma order_quiet:
  assumes O: "order_inv s" and i: "i < length (pc_workers s)"
    and "f i s = Some t" and "f = (\<lambda>i. writer_return i err) \<or> f = (\<lambda>i. worker_stopping i err) \<or> f = reader_stopped"
  shows "order_inv t"
proof -
  obtain k' where t: "t = set_worker i k' s" "pk_conn k' = pk_conn (pc_workers s ! i)" "pk_chW k' = pk_chW (pc_workers s ! i)"
    "pk_chR k' = pk_chR (pc_workers s ! i)" "pk_w k' = pk_w (pc_workers s ! i)" "pk_r k' = pk_r (pc_workers s ! i)"
    "pk_nread k' = pk_nread (pc_workers s ! i)" "connected (pc_workers s ! i)" "pk_phase k' \<noteq> Dialing"
    "pk_writer k' = Runs \<longrightarrow> pk_writer (pc_workers s ! i) = Runs" "reader_runs k' \<longrightarrow> reader_runs (pc_workers s ! i)"
    using assms(3,4) by (auto simp: writer_return_def worker_stopping_def reader_stopped_def writer_runs_def reader_runs_def connected_def Let_def
        split: if_splits worker_phase.splits)
  show ?thesis unfolding t(1)
  proof (rule order_worker [OF O _ refl refl i])
    assume "\<not> pc_dropped s"
    then obtain r k where "i = 0" "pc_workers s = [k]" "worker_order s r k" "list_all (reply_matches (pc_sent s)) (pc_done s)"
      by (rule order_one [OF O _ i])
    then show "list_all (reply_matches (pc_sent s)) (pc_done s) \<and> (\<exists>r. worker_order s r k')"
      using t(2-) by (intro conjI exI [of _ r]) (auto simp: worker_order_def to_answer_def unanswered_def)
  qed
qed

text \<open>Steps that end with an error for the work at hand.\<close>

lemma order_fail:
  assumes O: "order_inv s" and i: "i < length (pc_workers s)" and "f i s = Some t"
    and "f \<in> {writer_expired, writer_fail, writer_stopped, reader_fail}"
  shows "order_inv t"
proof -
  obtain k' w err where t: "t = set_worker i k' (work_done w (Failed err) s)" "pk_conn k' = pk_conn (pc_workers s ! i)"
    "pk_chW k' = pk_chW (pc_workers s ! i)" "pk_chR k' = pk_chR (pc_workers s ! i)" "pk_nread k' = pk_nread (pc_workers s ! i)"
    "connected (pc_workers s ! i)" "pk_phase k' \<noteq> Dialing" "reader_runs k' \<longrightarrow> reader_runs (pc_workers s ! i)"
    "reader_runs k' \<longrightarrow> pk_r k' = pk_r (pc_workers s ! i) \<and> pk_w k' = None
       \<and> (pk_writer k' = Runs \<longrightarrow> pk_writer (pc_workers s ! i) = Runs \<and> (\<exists>v. pk_w (pc_workers s ! i) = Some (v, False)))"
    using assms(3,4) by (auto simp: writer_expired_def writer_fail_def writer_stopped_def reader_fail_def writer_runs_def reader_runs_def
        connected_def Let_def split: if_splits option.splits bool.splits prod.splits worker_phase.splits)
  show ?thesis unfolding t(1)
  proof (rule order_worker [OF O _ _ _ i])
    assume "\<not> pc_dropped s"
    then obtain r k where o: "i = 0" "pc_workers s = [k]" "worker_order s r k" "list_all (reply_matches (pc_sent s)) (pc_done s)"
      by (rule order_one [OF O _ i])
    let ?s = "work_done w (Failed err) s"
    have "prefix (to_answer ?s r k') (to_answer s r k)" if "reader_runs k'"
      using t(9) that o(1,2) by (simp add: to_answer_def)
    moreover have "to_answer ?s r k' = to_answer s r k" if "reader_runs k'" "pk_writer k' = Runs"
      using t(9) that o(1,2) by (auto simp: to_answer_def)
    moreover have "unanswered ?s k' = unanswered s k" using t(2,5) o(1,2) by (simp add: unanswered_def)
    ultimately have "worker_order ?s r k'"
      using o(1-3) t(2-9) by (auto simp: worker_order_def intro: prefix_order.trans)
    then show "list_all (reply_matches (pc_sent ?s)) (pc_done ?s) \<and> (\<exists>r. worker_order ?s r k')" using o(4) by auto
  qed simp_all
qed

lemma order_read:
  assumes O: "order_inv s" and F: "flow_inv s" and i: "i < length (pc_workers s)" and "reader_read i s = Some t"
  shows "order_inv t"
proof -
  let ?k = "pc_workers s ! i"
  obtain w where w: "pk_r ?k = Some w" "reader_runs ?k" "pk_nread ?k < length (pc_sent s ! pk_conn ?k)"
    "t = set_worker i (?k\<lparr>pk_r := None, pk_nread := Suc (pk_nread ?k)\<rparr>) (work_done w (Reply (pk_conn ?k) (pk_nread ?k)) s)"
    using assms(4) by (auto simp: reader_read_def Let_def split: option.splits if_splits)
  have c: "pk_conn ?k < length (pc_sent s)" using worker_at [OF F i] w(2) by (simp add: worker_ok_def reader_runs_def)
  show ?thesis unfolding w(4)
  proof (rule order_worker [OF O _ _ _ i])
    assume "\<not> pc_dropped s"
    then obtain r k where o: "i = 0" "pc_workers s = [k]" "worker_order s r k" "list_all (reply_matches (pc_sent s)) (pc_done s)"
      by (rule order_one [OF O _ i])
    have k: "?k = k" using o(1,2) by simp
    let ?k' = "k\<lparr>pk_r := None, pk_nread := Suc (pk_nread k)\<rparr>" and ?s = "work_done w (Reply (pk_conn k) (pk_nread k)) s"
    have u: "unanswered s k = pc_sent s ! pk_conn k ! pk_nread k # unanswered ?s ?k'"
      using w(3) by (simp add: unanswered_def Cons_nth_drop_Suc k)
    have a: "to_answer s r k = w # to_answer ?s r ?k'" using w(1) by (simp add: to_answer_def k)
    have p: "prefix (to_answer s r k) (unanswered s k)" using o(3) w(2) by (simp add: worker_order_def k)
    then have "pc_sent s ! pk_conn k ! pk_nread k = w" unfolding a u by simp
    then have "reply_matches (pc_sent ?s) (w, Reply (pk_conn k) (pk_nread k))" using c w(3) by (simp add: reply_matches_def k)
    moreover have "worker_order ?s r ?k'"
      using o(3) p a u w(2,3) by (auto simp: worker_order_def reader_runs_def k connected_def)
    ultimately show "list_all (reply_matches (pc_sent (work_done w (Reply (pk_conn ?k) (pk_nread ?k)) s))) (pc_done (work_done w (Reply (pk_conn ?k) (pk_nread ?k)) s))
        \<and> (\<exists>r. worker_order (work_done w (Reply (pk_conn ?k) (pk_nread ?k)) s) r (?k\<lparr>pk_r := None, pk_nread := Suc (pk_nread ?k)\<rparr>))"
      using o(4) unfolding k by auto
  qed simp_all
qed

lemma order_write:
  assumes O: "order_inv s" and F: "flow_inv s" and i: "i < length (pc_workers s)" and "writer_write i s = Some t"
  shows "order_inv t"
proof -
  let ?k = "pc_workers s ! i"
  obtain w where w: "pk_w ?k = Some (w, False)" "writer_runs ?k"
    "t = set_worker i (?k\<lparr>pk_w := Some (w, True)\<rparr>) (s\<lparr>pc_sent := (pc_sent s)[pk_conn ?k := pc_sent s ! pk_conn ?k @ [w]]\<rparr>)"
    using assms(4) by (auto simp: writer_write_def Let_def split: option.splits if_splits bool.splits)
  have c: "pk_conn ?k < length (pc_sent s)" using worker_at [OF F i] w(2) by (simp add: worker_ok_def writer_runs_def)
  show ?thesis unfolding w(3)
  proof (rule order_worker [OF O _ _ _ i])
    assume "\<not> pc_dropped s"
    then obtain r k where o: "i = 0" "pc_workers s = [k]" "worker_order s r k" "list_all (reply_matches (pc_sent s)) (pc_done s)"
      by (rule order_one [OF O _ i])
    have k: "?k = k" using o(1,2) by simp
    let ?s = "s\<lparr>pc_sent := (pc_sent s)[pk_conn k := pc_sent s ! pk_conn k @ [w]]\<rparr>" and ?k' = "k\<lparr>pk_w := Some (w, True)\<rparr>"
    have "to_answer ?s r ?k' = to_answer s r k @ [w]" using w(1) by (simp add: to_answer_def k)
    moreover have "unanswered ?s ?k' = unanswered s k @ [w]" if "reader_runs k"
      using that o(3) c by (simp add: unanswered_def worker_order_def k)
    ultimately have "worker_order ?s r ?k'"
      using o(3) c w(2) by (auto simp: worker_order_def writer_runs_def reader_runs_def k connected_def)
    moreover have "reply_matches (pc_sent ?s) d" if "reply_matches (pc_sent s) d" for d
      by (rule matches_mono [OF that]) (use c in \<open>auto simp: nth_list_update k\<close>)
    then have "list_all (reply_matches (pc_sent ?s)) (pc_done s)" using o(4) by (auto simp: list_all_iff)
    ultimately show "list_all (reply_matches (pc_sent (s\<lparr>pc_sent := (pc_sent s)[pk_conn ?k := pc_sent s ! pk_conn ?k @ [w]]\<rparr>))) (pc_done (s\<lparr>pc_sent := (pc_sent s)[pk_conn ?k := pc_sent s ! pk_conn ?k @ [w]]\<rparr>))
        \<and> (\<exists>r. worker_order (s\<lparr>pc_sent := (pc_sent s)[pk_conn ?k := pc_sent s ! pk_conn ?k @ [w]]\<rparr>) r (?k\<lparr>pk_w := Some (w, True)\<rparr>))"
      unfolding k by auto
  qed simp_all
qed


lemma order_take:
  assumes O: "order_inv s" and F: "flow_inv s" and i: "i < length (pc_workers s)"
    and "f i s = Some t" and "f \<in> {writer_take, reader_take, writer_put}"
  shows "order_inv t"
proof -
  let ?k = "pc_workers s ! i"
  have ok: "chan_ok s (pk_chW ?k)" "chan_ok s (pk_chR ?k)" using worker_at [OF F i] by (simp_all add: worker_ok_def)
  have t: "\<exists>k' cs. t = set_worker i k' (s\<lparr>pc_chans := cs\<rparr>) \<and> connected ?k \<and> connected k' \<and> pk_phase k' = pk_phase ?k \<and> pk_conn k' = pk_conn ?k
      \<and> pk_chW k' = pk_chW ?k \<and> pk_chR k' = pk_chR ?k \<and> pk_nread k' = pk_nread ?k \<and> pk_writer k' = pk_writer ?k \<and> pk_reader k' = pk_reader ?k
      \<and> (\<forall>r. pk_chR ?k = Some r \<longrightarrow> pk_chW ?k \<noteq> Some r \<longrightarrow> to_answer (s\<lparr>pc_chans := cs\<rparr>) r k' = to_answer s r ?k)"
    (is "\<exists>k' cs. ?P k' cs")
  proof -
    from assms(5) consider "f = writer_take" | "f = reader_take" | "f = writer_put" by blast
    then show ?thesis
    proof cases
      case 1
      then obtain w s' where w: "writer_runs ?k" "pk_w ?k = None" "chan_recv (pk_chW ?k) s = Some (w, s')" "t = set_worker i (?k\<lparr>pk_w := Some (w, False)\<rparr>) s'"
        using assms(4) by (auto simp: writer_take_def Let_def split: if_splits option.splits)
      obtain j ws where "pk_chW ?k = Some j" "s' = s\<lparr>pc_chans := (pc_chans s)[j := ws]\<rparr>" using chan_recvE [OF w(3) ok(1)] by metis
      with w show ?thesis
        by (intro exI [of _ "?k\<lparr>pk_w := Some (w, False)\<rparr>"] exI [of _ "(pc_chans s)[j := ws]"]) (auto simp: to_answer_def writer_runs_def)
    next
      case 2
      then obtain w s' where w: "reader_runs ?k" "pk_r ?k = None" "chan_recv (pk_chR ?k) s = Some (w, s')" "t = set_worker i (?k\<lparr>pk_r := Some w\<rparr>) s'"
        using assms(4) by (auto simp: reader_take_def Let_def split: if_splits option.splits)
      obtain j ws where "pk_chR ?k = Some j" "j < length (pc_chans s)" "pc_chans s ! j = w # ws" "s' = s\<lparr>pc_chans := (pc_chans s)[j := ws]\<rparr>"
        using chan_recvE [OF w(3) ok(2)] by metis
      with w show ?thesis
        by (intro exI [of _ "?k\<lparr>pk_r := Some w\<rparr>"] exI [of _ "(pc_chans s)[j := ws]"]) (auto simp: to_answer_def reader_runs_def)
    next
      case 3
      then obtain w s' where w: "writer_runs ?k" "pk_w ?k = Some (w, True)" "chan_send (pk_chR ?k) w s = Some s'" "t = set_worker i (?k\<lparr>pk_w := None\<rparr>) s'"
        using assms(4) by (auto simp: writer_put_def Let_def split: if_splits option.splits bool.splits)
      obtain j where "pk_chR ?k = Some j" "j < length (pc_chans s)" "s' = s\<lparr>pc_chans := (pc_chans s)[j := pc_chans s ! j @ [w]]\<rparr>"
        using chan_sendE [OF w(3) ok(2)] by metis
      with w show ?thesis
        by (intro exI [of _ "?k\<lparr>pk_w := None\<rparr>"] exI [of _ "(pc_chans s)[j := pc_chans s ! j @ [w]]"]) (auto simp: to_answer_def writer_runs_def)
    qed
  qed
  then obtain k' cs where p: "?P k' cs" by blast
  then have "t = set_worker i k' (s\<lparr>pc_chans := cs\<rparr>)" by blast
  show ?thesis unfolding \<open>t = _\<close>
  proof (rule order_worker [OF O _ _ _ i])
    assume "\<not> pc_dropped s"
    then obtain r k where o: "i = 0" "pc_workers s = [k]" "worker_order s r k" "list_all (reply_matches (pc_sent s)) (pc_done s)"
      by (rule order_one [OF O _ i])
    have k: "?k = k" using o(1,2) by simp
    have c: "pk_chR k = Some r" "pk_chW k \<noteq> Some r" "pc_chR s = Some r" "pc_chW s \<noteq> Some r" "pk_chW k = pc_chW s"
      using o(3) p unfolding k by (auto simp: worker_order_def)
    then have "to_answer (s\<lparr>pc_chans := cs\<rparr>) r k' = to_answer s r k" using p unfolding k by blast
    moreover have "unanswered (s\<lparr>pc_chans := cs\<rparr>) k' = unanswered s k" using p unfolding k by (simp add: unanswered_def)
    moreover have "pk_phase k' \<noteq> Dialing" using p by (auto simp: connected_def)
    ultimately have "worker_order (s\<lparr>pc_chans := cs\<rparr>) r k'"
      using o(3) p c unfolding k by (simp add: worker_order_def reader_runs_def)
    then show "list_all (reply_matches (pc_sent (s\<lparr>pc_chans := cs\<rparr>))) (pc_done (s\<lparr>pc_chans := cs\<rparr>)) \<and> (\<exists>r. worker_order (s\<lparr>pc_chans := cs\<rparr>) r k')"
      using o(4) by auto
  qed simp_all
qed

lemma order_dialed:
  assumes O: "order_inv s" and i: "i < length (pc_workers s)" and "worker_dialed i s = Some t"
  shows "order_inv t"
proof -
  let ?k = "\<lparr>pk_phase = Serving, pk_conn = length (pc_sent s), pk_chW = pc_chW s, pk_chR = pc_chR s,
    pk_writer = Runs, pk_reader = Runs, pk_w = None, pk_r = None, pk_nread = 0\<rparr>" and ?s = "s\<lparr>pc_sent := pc_sent s @ [[]]\<rparr>"
  have d: "pk_phase (pc_workers s ! i) = Dialing" "t = set_worker i ?k ?s"
    using assms(3) by (simp_all add: worker_dialed_def split: if_splits)
  show ?thesis unfolding d(2)
  proof (rule order_worker [OF O _ _ _ i])
    assume "\<not> pc_dropped s"
    then obtain r k where o: "i = 0" "pc_workers s = [k]" "worker_order s r k" "list_all (reply_matches (pc_sent s)) (pc_done s)"
      by (rule order_one [OF O _ i])
    have "worker_order ?s r ?k" using o d(1) by (simp add: worker_order_def to_answer_def unanswered_def connected_def)
    moreover have "reply_matches (pc_sent ?s) x" if "reply_matches (pc_sent s) x" for x
      by (rule matches_mono [OF that]) (auto simp: nth_append)
    ultimately show "list_all (reply_matches (pc_sent ?s)) (pc_done ?s) \<and> (\<exists>r. worker_order ?s r ?k)"
      using o(4) by (auto simp: list_all_iff)
  qed simp_all
qed

lemma order_phase:
  assumes O: "order_inv s" and i: "i < length (pc_workers s)" and "p = Dialing \<longrightarrow> chan_len (pc_chR s) s = 0" and "\<not> connected (k\<lparr>pk_phase := p\<rparr>)"
    and "k = pc_workers s ! i"
  shows "order_inv (set_worker i (k\<lparr>pk_phase := p\<rparr>) s)"
proof (rule order_worker [OF O _ refl refl i])
  assume "\<not> pc_dropped s"
  then obtain r k0 where o: "i = 0" "pc_workers s = [k0]" "worker_order s r k0" "list_all (reply_matches (pc_sent s)) (pc_done s)"
    by (rule order_one [OF O _ i])
  have "worker_order s r (k\<lparr>pk_phase := p\<rparr>)"
    using o assms(3-5) by (auto simp: worker_order_def reader_runs_def chan_len_def)
  then show "list_all (reply_matches (pc_sent s)) (pc_done s) \<and> (\<exists>r. worker_order s r (k\<lparr>pk_phase := p\<rparr>))" using o(4) by blast
qed

lemma order_drain:
  assumes O: "order_inv s" and F: "flow_inv s" and i: "i < length (pc_workers s)" and "worker_drain i s = Some t"
  shows "order_inv t"
proof (cases "pk_phase (pc_workers s ! i)")
  case (Stopping err)
  then have "t = set_worker i ((pc_workers s ! i)\<lparr>pk_phase := Draining err\<rparr>) s"
    using assms(4) by (simp add: worker_drain_def Let_def split: if_splits)
  then show ?thesis using order_phase [OF O i, of "Draining err"] by (simp add: connected_def)
next
  case (Draining err)
  obtain w s' where w: "chan_recv (pc_chR s) s = Some (w, s')" "t = work_done w (Failed errPipelineConnStopped) s'"
    using assms(4) Draining by (auto simp: worker_drain_def Let_def split: option.splits)
  have "chan_ok s (pc_chR s)" using F by (simp add: flow_inv_def)
  then obtain j ws where c: "s' = s\<lparr>pc_chans := (pc_chans s)[j := ws]\<rparr>" using chan_recvE [OF w(1)] by metis
  show ?thesis
  proof (cases "pc_dropped s")
    case False
    obtain r k where o: "i = 0" "pc_workers s = [k]" "worker_order s r k" "list_all (reply_matches (pc_sent s)) (pc_done s)"
      by (rule order_one [OF O False i])
    then have "worker_order t r k" using Draining w(2) c by (simp add: worker_order_def connected_def reader_runs_def)
    then show ?thesis using o w(2) c by (auto simp: order_inv_def)
  qed (use w(2) c in \<open>simp add: order_inv_def\<close>)
qed (use assms(4) in \<open>simp_all add: worker_drain_def Let_def\<close>)

lemma order_loop:
  assumes O: "order_inv s" and i: "i < length (pc_workers s)" and "worker_loop i s = Some t"
  shows "order_inv t"
proof -
  let ?k = "pc_workers s ! i"
  obtain err where d: "pk_phase ?k = Draining err" using assms(3) by (auto simp: worker_loop_def Let_def split: worker_phase.splits)
  have "order_inv (set_worker i k' (s\<lparr>pc_chR := None, pc_chW := None, pc_dropped := True\<rparr>))" for k' by (simp add: order_inv_def)
  then show ?thesis
    using assms(3) d order_phase [OF O i, of Dialing ?k] order_phase [OF O i, of Ended ?k]
    by (auto simp: worker_loop_def connected_def Let_def split: if_splits)
qed

lemma order_step:
  assumes "order_inv s" and "flow_inv s" and "pipe_step s e t"
  shows "order_inv t"
proof (cases e)
  case (EWReturn i err)
  then show ?thesis using assms order_quiet [OF assms(1), of i "\<lambda>i. writer_return i err"] by (auto simp: pipe_step_def at_worker_Some)
next
  case (EStopping i err)
  then show ?thesis using assms order_quiet [OF assms(1), of i "\<lambda>i. worker_stopping i err"] by (auto simp: pipe_step_def at_worker_Some)
qed (use assms in \<open>auto simp: pipe_step_def at_worker_Some intro: order_begin order_call order_quiet order_fail order_write order_dialed
      order_take order_read order_drain order_loop\<close>)

definition pipe_inv :: "pipelineConnClient \<Rightarrow> bool" where
  "pipe_inv s \<longleftrightarrow> flow_inv s \<and> order_inv s"

lemma order_start: "pipe_start s \<Longrightarrow> order_inv s"
  by (auto simp: pipe_start_def newConnClient_def order_inv_def)

interpretation pipe: event_system pipe_start pipe_step pipe_inv
  by unfold_locales (auto simp: pipe_inv_def intro: flow_start order_start flow_step order_step)

end
