(* ===== verification/PipelineClientProps.thy ===== *)
theory PipelineClientProps
  imports PipelineClientInv
begin

text \<open>
  What \<open>PipelineClient\<close> does for its callers: whose response a call gets, what becomes of an idle client,
  and which connection a call is given.
\<close>


section \<open>Runs\<close>

lemma run_reachable:
  assumes "pipe_run es s = Some t" and "reachable pipe_start pipe_step s"
  shows "reachable pipe_start pipe_step t"
  using assms
proof (induction es arbitrary: s)
  case (Cons e es)
  then obtain s' where s': "pipe_exec e s = Some s'" "pipe_run es s' = Some t" by (auto split: Option.bind_splits)
  have "reachable pipe_start pipe_step s'" by (rule reach_step [OF Cons.prems(2), where e = e]) (simp add: pipe_step_def s'(1))
  with Cons.IH s'(2) show ?case by blast
qed simp

lemma start_reachable: "reachable pipe_start pipe_step (newConnClient n)"
  by (rule reach_start) (auto simp: pipe_start_def)

text \<open>A client whose workers have ended answers nothing.\<close>

definition ended_client :: "pipelineConnClient \<Rightarrow> bool" where
  "ended_client s \<longleftrightarrow> pc_chR s \<noteq> None \<and> list_all (\<lambda>k. pk_phase k = Ended) (pc_workers s)"

lemma ended_worker:
  assumes "ended_client s" and "i < length (pc_workers s)"
  shows "\<not> connected (pc_workers s ! i)" and "pk_phase (pc_workers s ! i) = Ended"
  using assms by (simp_all add: ended_client_def list_all_length connected_def)

lemma ended_step:
  assumes "ended_client s" and "pipe_exec e s = Some t"
  shows "ended_client t \<and> pc_workers t = pc_workers s \<and> set (pc_done t) \<subseteq> set (pc_done s) \<union> range (\<lambda>w. (w, Failed ErrPipelineOverflow))"
proof -
  have quiet: "at_worker f i s = None" if "f \<in> {worker_dialed, writer_take, writer_expired, writer_write, writer_fail, writer_put, writer_stopped,
      reader_take, reader_read, reader_fail, reader_stopped, worker_drain, worker_loop, (\<lambda>i. writer_return i err), (\<lambda>i. worker_stopping i err)}" for f i err
    using that ended_worker [OF assms(1), of i]
    by (auto simp: at_worker_def worker_defs worker_dialed_def worker_drain_def writer_runs_def reader_runs_def Let_def
        split: option.splits prod.splits bool.splits)
  have send: "\<exists>cs. s' = s\<lparr>pc_chans := cs\<rparr>" if "chan_send c w s = Some s'" for c w s'
    using that by (auto simp: chan_send_def split: option.splits if_splits)
  have recv: "\<exists>cs. s' = s\<lparr>pc_chans := cs\<rparr>" if "chan_recv c s = Some (w, s')" for c w s'
    using that by (auto simp: chan_recv_def split: option.splits list.splits)
  show ?thesis
  proof (cases e)
    case (EBegin deadline)
    then show ?thesis using assms by (auto simp: Do_begin_def pipelineConnClient_init_def ended_client_def)
  next
    case (EWReturn i err)
    then show ?thesis using assms quiet [of "\<lambda>i. writer_return i err" err i] by simp
  next
    case (EStopping i err)
    then show ?thesis using assms quiet [of "\<lambda>i. worker_stopping i err" err i] by simp
  qed (use assms in \<open>auto simp: quiet ended_client_def Do_put_def Do_evict_def Do_retry_def Do_return_def DoDeadline_timeout_def
        split: if_splits option.splits dest!: send recv\<close>)
qed

lemma ended_run:
  assumes "pipe_run es s = Some t" and "ended_client s"
  shows "pc_workers t = pc_workers s \<and> set (pc_done t) \<subseteq> set (pc_done s) \<union> range (\<lambda>w. (w, Failed ErrPipelineOverflow))"
  using assms
proof (induction es arbitrary: s)
  case (Cons e es)
  then obtain s' where s': "pipe_exec e s = Some s'" "pipe_run es s' = Some t" by (auto split: Option.bind_splits)
  show ?case using ended_step [OF Cons.prems(2) s'(1)] Cons.IH [OF s'(2)] by auto
qed simp


section \<open>Choosing a connection: lemmas\<close>

lemma getConnClient_loop_spec:
  assumes "all = pre @ rest" and "length pre = i" and "minCC < i" and "all ! minCC = minReqs" and "\<forall>x \<in> set pre. 0 < x \<and> minReqs \<le> x"
  shows "case getConnClient_loop rest i minCC minReqs of
      Inl j \<Rightarrow> j < length all \<and> all ! j = 0
    | Inr j \<Rightarrow> j < length all \<and> (\<forall>x \<in> set all. 0 < x \<and> all ! j \<le> x)"
  using assms
proof (induction rest i minCC minReqs arbitrary: pre rule: getConnClient_loop.induct)
  case (1 i minCC minReqs)
  then show ?case by simp
next
  case (2 reqs rest i minCC minReqs)
  show ?case
  proof (cases "reqs = 0")
    case True
    then show ?thesis using 2(3,4) by (simp add: nth_append)
  next
    case False
    have all: "all = (pre @ [reqs]) @ rest" "length (pre @ [reqs]) = Suc i" using 2(3,4) by simp_all
    show ?thesis
    proof (cases "reqs < minReqs")
      case True
      have "all ! i = reqs" using 2(3,4) by (simp add: nth_append)
      then show ?thesis using "2.IH"(1) [OF False True all] False True 2(7) by fastforce
    next
      case less: False
      then show ?thesis using "2.IH"(2) [OF False less all] False 2(5-7) by simp
    qed
  qed
qed


section \<open>Properties\<close>


definition one_answer :: "pipe_event list" where
  "one_answer = [EBegin False, EPut 0, EDialed 0, EWTake 0, EWWrite 0, EWPut 0, ERTake 0, ERRead 0, EReturn 0]"

definition idle_stop :: "pipe_event list" where
  "idle_stop = [EWReturn 0 False, EStopping 0 False, ERStopped 0, EDrain 0]"

lemma run_Some: "(case pipe_run es s of None \<Rightarrow> False | Some t \<Rightarrow> P t) \<Longrightarrow> \<exists>t. pipe_run es s = Some t \<and> P t"
  by (auto split: option.splits)


text \<open>
  A client that has been idle never answers again. When its worker has ended, because nothing was to be done
  for \<open>MaxIdleConnDuration\<close>, the channels stay, \<open>init\<close> does not start another worker, and whatever happens
  from then on no call gets a response: the only results are those of calls that are pushed out of the
  full queue. A call of \<open>Do\<close> that does not have a deadline waits for ever.
\<close>

theorem idle_pipeline_hangs:
  assumes "pc_chR s \<noteq> None" and "\<forall>k \<in> set (pc_workers s). pk_phase k = Ended" and "pipe_run es s = Some t"
  shows "pc_workers t = pc_workers s \<and> (\<forall>w out. (w, out) \<in> set (pc_done t) \<longrightarrow> (w, out) \<in> set (pc_done s) \<or> out = Failed ErrPipelineOverflow)"
proof -
  have "ended_client s" using assms(1,2) by (simp add: ended_client_def list_all_iff)
  from ended_run [OF assms(3) this] show ?thesis by auto
qed

theorem idle_pipeline_hangs_witness:
  "\<exists>s t. pipe_run (one_answer @ idle_stop @ [ELoop 0]) (newConnClient 0) = Some s \<and> pipe_run [EBegin False, EPut 1] s = Some t
    \<and> in_call 1 CallWaiting t \<and> pc_workers t = pc_workers s"
proof -
  have "\<exists>s. pipe_run (one_answer @ idle_stop @ [ELoop 0]) (newConnClient 0) = Some s \<and> pc_chR s \<noteq> None
      \<and> (\<forall>k \<in> set (pc_workers s). pk_phase k = Ended)
      \<and> (case pipe_run [EBegin False, EPut 1] s of None \<Rightarrow> False | Some t \<Rightarrow> in_call 1 CallWaiting t)"
    by (rule run_Some) code_simp
  then obtain s where s: "pipe_run (one_answer @ idle_stop @ [ELoop 0]) (newConnClient 0) = Some s" "pc_chR s \<noteq> None"
    "\<forall>k \<in> set (pc_workers s). pk_phase k = Ended"
    "case pipe_run [EBegin False, EPut 1] s of None \<Rightarrow> False | Some t \<Rightarrow> in_call 1 CallWaiting t" by blast
  obtain t where t: "pipe_run [EBegin False, EPut 1] s = Some t" "in_call 1 CallWaiting t" using run_Some [OF s(4)] by blast
  show ?thesis using idle_pipeline_hangs [OF s(2,3) t(1)] s(1) t by blast
qed

definition mixed_up :: "pipe_event list" where
  "mixed_up = one_answer @ idle_stop @ [EBegin False, EPut 1, ELoop 0, EBegin False, EDialed 0, EDialed 1, EPut 2, EBegin False, EPut 3,
     EWTake 0, EWWrite 0, EWPut 0, EWTake 1, EWWrite 1, EWPut 1, ERTake 1, ERRead 1, EReturn 2]"

text \<open>
  When a call puts work into the queue just after the writer has given up on idling, \<open>init\<close> forgets the
  channels: that call waits for ever. The next call starts a second worker, while the first
  one connects again and takes over the new channels; both readers take work from the same channel, and
  a call gets the response to the request of another one.
\<close>

theorem answers_mixed_up:
  "\<exists>s. reachable pipe_start pipe_step s \<and> in_call 2 (CallReturned (Reply 2 0)) s \<and> pc_sent s ! 2 ! 0 = 3
    \<and> in_call 1 CallWaiting s \<and> (\<forall>k \<in> set (pc_workers s). 1 \<notin> set (hands k @ pc_chans s ! the (pk_chW k) @ pc_chans s ! the (pk_chR k)))"
proof -
  have "\<exists>s. pipe_run mixed_up (newConnClient 0) = Some s \<and> in_call 2 (CallReturned (Reply 2 0)) s \<and> pc_sent s ! 2 ! 0 = 3
      \<and> in_call 1 CallWaiting s \<and> (\<forall>k \<in> set (pc_workers s). 1 \<notin> set (hands k @ pc_chans s ! the (pk_chW k) @ pc_chans s ! the (pk_chR k)))"
    by (rule run_Some) code_simp
  then show ?thesis using run_reachable start_reachable by blast
qed

text \<open>
  \<open>getConnClientUnlocked\<close> takes a connection without pending requests if there is one; else it opens
  a new one if it may, and else takes one with the fewest.
\<close>

theorem getConnClientUnlocked_correct:
  assumes "pending \<noteq> []"
  shows "(0 \<in> set pending \<longrightarrow> getConnClientUnlocked MaxConns pending < length pending \<and> pending ! getConnClientUnlocked MaxConns pending = 0)
    \<and> (0 \<notin> set pending \<longrightarrow> int (length pending) < max 1 MaxConns \<longrightarrow> getConnClientUnlocked MaxConns pending = length pending)
    \<and> (0 \<notin> set pending \<longrightarrow> \<not> int (length pending) < max 1 MaxConns \<longrightarrow>
        getConnClientUnlocked MaxConns pending < length pending \<and> (\<forall>x \<in> set pending. pending ! getConnClientUnlocked MaxConns pending \<le> x))"
proof -
  obtain p ps where p: "pending = p # ps" using assms by (cases pending) auto
  show ?thesis
  proof (cases "p = 0")
    case False
    have "case getConnClient_loop ps 1 0 p of
        Inl j \<Rightarrow> j < length pending \<and> pending ! j = 0
      | Inr j \<Rightarrow> j < length pending \<and> (\<forall>x \<in> set pending. 0 < x \<and> pending ! j \<le> x)"
      by (rule getConnClient_loop_spec [of pending "[p]"]) (use p False in simp_all)
    note spec = this
    show ?thesis
    proof (cases "getConnClient_loop ps 1 0 p")
      case (Inl j)
      then have "j < length pending" "pending ! j = 0" using spec by simp_all
      moreover from this have "0 \<in> set pending" by (metis nth_mem)
      ultimately show ?thesis using p False Inl by (simp add: getConnClientUnlocked_def)
    next
      case (Inr j)
      then have "j < length pending" "\<forall>x \<in> set pending. 0 < x \<and> pending ! j \<le> x" using spec by simp_all
      moreover from this have "0 \<notin> set pending" by blast
      ultimately show ?thesis using p False Inr by (simp add: getConnClientUnlocked_def Let_def max_def)
    qed
  qed (simp add: getConnClientUnlocked_def p)
qed

end
