(* ===== verification/Spec2Isabelle.thy ===== *)
theory Spec2Isabelle
  imports ServingLimits ServerCounts LBClient WorkerPool ConnPoolProps ClientServer FsProps FsCache PipelineClientProps
begin

text \<open>
  A verification development for the Go HTTP library under \<^verbatim>\<open>src/\<close> (a fork of fasthttp).

  \<^bold>\<open>The program.\<close> The library parses and prints HTTP messages without allocating: objects are
  pooled and reset, slices are cut to length zero and re-extended, and the header scanner works
  in place in the buffer of the connection. A server (\<^verbatim>\<open>server.go\<close>) accepts connections, limits
  them per address (\<^verbatim>\<open>peripconn.go\<close>) and in total, hands each to a pool of workers (\<^verbatim>\<open>workerpool.go\<close>), and
  \<^verbatim>\<open>serveConn\<close> reads one request after the other, calls the handler with a \<^verbatim>\<open>RequestCtx\<close> and writes its
  response. A message is a header (\<^verbatim>\<open>header.go\<close>) with its cookies (\<^verbatim>\<open>cookie.go\<close>), a URI
  (\<^verbatim>\<open>uri.go\<close>) with its query arguments (\<^verbatim>\<open>args.go\<close>), and a body (\<^verbatim>\<open>http.go\<close>, \<^verbatim>\<open>streaming.go\<close>).
  \<^verbatim>\<open>fs.go\<close> is a handler that serves files. The client (\<^verbatim>\<open>client.go\<close>) keeps a pool of connections to a host,
  writes requests and reads responses through the same code, retries and follows redirects;
  \<^verbatim>\<open>lbclient.go\<close> spreads requests over several clients. \<^verbatim>\<open>bytesconv.go\<close> and its tables convert
  numbers, addresses and quoted text.

  \<^bold>\<open>How the model follows the code.\<close> Bytes are 8-bit words and byte slices are lists of them;
  Go's \<^verbatim>\<open>int\<close> is \<open>int\<close>, with the wrap-around of 64 bits written out where a result can leave the
  range (\<open>wrap64\<close>) and words of 32 and 64 bits where the source uses them. A slice whose old
  contents can come back is the record \<open>slice\<close> of its visible and its hidden elements. A struct is
  a record with the source's fields, a method a function that returns the changed struct; a method
  that only reads returns its value. Errors are datatypes, a panic is \<open>None\<close> or \<open>Panic\<close>, and
  \<^verbatim>\<open>nil\<close> slices that callers distinguish are \<open>None\<close>; a value that is there and empty is \<open>Some []\<close>, also where
  the code may have left its slice \<^verbatim>\<open>nil\<close>. Loops are recursive functions with termination
  proofs; only the loop of \<^verbatim>\<open>serveConn\<close>, which may serve a client for ever, and the copying of a body
  stream are a \<^theory_text>\<open>partial_function\<close>, and the theorems about them say that they return. What goroutines do to shared state is a step relation whose
  steps are the critical sections, atomic additions and channel operations of the source, and holds
  for every interleaving. Code outside \<^verbatim>\<open>src/\<close> is an argument: package \<^verbatim>\<open>time\<close> is the record
  \<open>timelib\<close>, multipart forms are \<open>multipart_lib\<close>, the file system is \<open>fs_env\<close>, compressors and handlers are functions,
  and the connection behind a \<^verbatim>\<open>bufio.Reader\<close> is a function that says how many bytes the next read delivers.

  \<^bold>\<open>Theories.\<close>

  \<^item> \<open>Prelude\<close>, \<open>Interfaces\<close>: words, slices, searching and splitting lists; the contracts as
    locales: \<open>codec\<close> (encoder and decoder), \<open>kv_store\<close> and \<open>kv_store_del\<close> (stores), \<open>scanner\<close>
    (loops that eat their input), \<open>event_system\<close> (invariants of interleaved operations). \<open>WantConn\<close> adds \<open>fifo\<close>
    (queues) and \<open>Message\<close> adds \<open>body_store\<close> (objects that hold a body). Each is
    interpreted on the definitions of the component that provides it.
  \<^item> \<open>Strings\<close>, \<open>Status\<close>: the constants of \<^verbatim>\<open>strings.go\<close>, \<^verbatim>\<open>headers.go\<close>, \<^verbatim>\<open>methods.go\<close> and the status
    lines of \<^verbatim>\<open>status.go\<close>.
  \<^item> \<open>Bytesconv\<close> (\<^verbatim>\<open>bytesconv.go\<close>): decimal and hexadecimal integers, IPv4, HTML and URL quoting. Round
    trips, and the exact ranges in which they hold.
  \<^item> \<open>Args\<close> (\<^verbatim>\<open>args.go\<close>): pair slices that recycle entries refine plain lists; \<open>Args\<close> parses what it
    prints, obeys the laws of a store, keeps its invariant and sorts correctly.
  \<^item> \<open>URI\<close> (\<^verbatim>\<open>uri.go\<close>, \<^verbatim>\<open>uri_unix.go\<close>): parsing, printing, relative references, and
    \<open>normalizePath\<close>, which resolves segments and never lets a path leave the root.
  \<^item> \<open>Cookie\<close> (\<^verbatim>\<open>cookie.go\<close>): response cookies and request cookie lists, round trips.
  \<^item> \<open>HeaderScan\<close> (\<^verbatim>\<open>header.go\<close>): names, values, lines, folded values and \<open>headerScanner.next\<close> over
    the three parts of the buffer it works in.
  \<^item> \<open>RequestHeader\<close>, \<open>ResponseHeader\<close> (\<^verbatim>\<open>header.go\<close>): every setter, getter and cookie operation,
    printing, parsing. What is printed is parsed back, up to the first byte of the body; the
    framing chosen by \<open>SetContentLength\<close> survives; Transfer-Encoding wins over Content-Length.
  \<^item> \<open>HeaderRead\<close>, \<open>ResponseRead\<close> (\<^verbatim>\<open>header.go\<close>): \<open>Read\<close> and \<open>tryRead\<close> on a buffered reader. Reading does not depend on
    how the bytes arrive; incomplete headers end in the right error; the loop ends because each
    round has at least the bytes it asked for and never asks for more than the buffer holds.
  \<^item> \<open>Body\<close> (\<^verbatim>\<open>http.go\<close>): fixed-size, chunked and connection-delimited bodies, read and written,
    for every way the bytes arrive; limits; \<open>round2\<close>.
  \<^item> \<open>Message\<close>, \<open>MessageIO\<close> (\<^verbatim>\<open>http.go\<close>): the objects \<open>Request\<close> and \<open>Response\<close> with every form of body, and how
    they are written, read and compressed. What one side writes the other reads, limits are kept.
  \<^item> \<open>Streaming\<close> (\<^verbatim>\<open>streaming.go\<close>): \<open>requestStream\<close>, request bodies that the handler reads itself.
  \<^item> \<open>UserData\<close>, \<open>RequestCtx\<close> (\<^verbatim>\<open>userdata.go\<close>, \<^verbatim>\<open>server.go\<close>): what a handler sees and can do, and the wrappers for
    timeouts and compression.
  \<^item> \<open>ServeConn\<close> (\<^verbatim>\<open>server.go\<close>): \<open>serveConn\<close> in the parts reading, calling, finishing, writing and hijacking, and the loop
    around them. \<open>Pipelining\<close> shows that every request is answered, in order, from a clean context, with
    nothing else on the wire; \<open>ServingLimits\<close> bounds the requests of a connection and follows what is left over after errors.
  \<^item> \<open>ServerCounts\<close> (\<^verbatim>\<open>server.go\<close>), \<open>PerIPConn\<close> (\<^verbatim>\<open>peripconn.go\<close>), \<open>WorkerPool\<close> (\<^verbatim>\<open>workerpool.go\<close>), \<open>LBClient\<close>
    (\<^verbatim>\<open>lbclient.go\<close>): counters and pools as step relations with their invariants. The limit per address holds
    for IPv4 addresses only, the others are served uncounted; \<open>Shutdown\<close> waits for connections only after
    it has closed a listener, and both ways out are steps of the model.
  \<^item> \<open>WantConn\<close>, \<open>ConnPool\<close>, \<open>ConnPoolInv\<close>, \<open>ConnPoolProps\<close> (\<^verbatim>\<open>client.go\<close>): \<open>wantConn\<close> and its queue, the pool of connections
    of \<open>HostClient\<close>, its invariant, and what callers get from it.
  \<^item> \<open>ClientDo\<close>, \<open>ClientAttempts\<close>, \<open>ClientWire\<close>, \<open>ClientDoProps\<close> (\<^verbatim>\<open>client.go\<close>): one attempt (\<open>doNonNilReqResp\<close>), the retries of \<open>Do\<close>
    and redirects; how many attempts are made, when, and what is on the connection.
  \<^item> \<open>ClientServer\<close>: \<open>Do\<close> of the client against \<open>serveConn\<close> of the server.
  \<^item> \<open>PipelineClient\<close>, \<open>PipelineClientInv\<close>, \<open>PipelineClientProps\<close> (\<^verbatim>\<open>client.go\<close>): the client that sends requests without waiting for
    the responses: calls, the channels between calls, writer and reader, and the worker that restarts them.
  \<^item> \<open>Fs\<close>, \<open>FsProps\<close> (\<^verbatim>\<open>fs.go\<close>): \<open>handleRequest\<close> with path rewriters, byte ranges, compressed copies and indexes; the
    files it can reach and the bytes it sends. \<open>FsCache\<close>: open files that requests share, and the cleaner.

  This theory holds a property that spans header and body.

  \<^bold>\<open>Bounds.\<close> Content lengths and status codes are below \<open>2 ^ 63\<close>, the range of \<^verbatim>\<open>int\<close>; chunk sizes
  below \<open>2 ^ 60\<close>, the 15 hex digits \<open>readHexInt\<close> accepts; bodies below \<open>2 ^ 31\<close> bytes (\<open>2 ^ 30\<close> for
  connection-delimited ones), where \<open>round2\<close> stops being a capacity; at most \<open>2 ^ 30\<close> goroutines touch
  the penalty of one balanced client at a time, so that its 32-bit counter cannot wrap. No definition uses
  fuel: \<open>Do_loop\<close> and \<open>redirects_loop\<close> end by the number of attempts and redirects left, readers by the bytes left.
  \<open>readLoop\<close>, which \<open>serveConn\<close> calls and no file under \<^verbatim>\<open>src/\<close> defines, is an argument of the connection
  loop; \<open>readLoop_once\<close> is what its properties need of it.

  \<^bold>\<open>Not modelled.\<close> Sockets, TLS and certificates (\<^verbatim>\<open>ListenAndServe\<close>, dialling, \<^verbatim>\<open>tcpdialer.go\<close>, \<^verbatim>\<open>tls.go\<close>, proxies), and
  processes (\<^verbatim>\<open>prefork\<close>, \<^verbatim>\<open>reuseport\<close>): what they do is in the operating system. The compressors (\<^verbatim>\<open>compress.go\<close>,
  \<^verbatim>\<open>brotli.go\<close>, \<^verbatim>\<open>stackless\<close>) and the writing of compressed copies of files: wrappers around third-party code, which is an
  argument here. The map of hosts in \<^verbatim>\<open>Client\<close>, the calls with a deadline (each runs \<open>Do\<close> in a
  goroutine and gives it up), \<^verbatim>\<open>NewStreamReader\<close>, in-memory connections, timers and the clock. \<^verbatim>\<open>ParseUfloat\<close> and
  \<^verbatim>\<open>GetUfloat\<close>, which need IEEE floats; object pools and \<^verbatim>\<open>WriteTo\<close>, which only move values; the
  Windows and 32-bit variants of the constants. Zero-byte reads without an error, which \<^verbatim>\<open>io.Reader\<close>
  discourages, are not part of the reader model. A file is its contents when it is opened: changes of open files are not seen.
\<close>


section \<open>Requests on a connection\<close>

text \<open>
  A request with a body of known length is taken off the connection whole: reading the
  printed header and then the body by the length found in it gives the header and exactly the
  body, and leaves the connection at the first byte of whatever follows, for every way the
  bytes of header and body arrive.
\<close>

theorem request_message_read_back:
  assumes "request_ok (rq_disableNormalizing g) h" and "br_wf r"
    and "rd_data r = RequestHeader_AppendBytes h [] @ data @ rest"
    and "length (RequestHeader_AppendBytes h []) \<le> br_size r"
    and "rq_contentLengthBytes h \<noteq> []" and "rq_contentLength h = int (length data)"
    and "length data \<le> 2 ^ 31" and "maxBodySize \<le> 0 \<or> int (length data) \<le> maxBodySize"
  shows "\<exists>g' r' c'. RequestHeader_Read g r = Ret (g', None, r') \<and> request_read_back h g'
    \<and> readBody avail \<lparr>rd_data = rd_data r', rd_err = rd_err r'\<rparr> (rq_contentLength g') maxBodySize c =
        Ret (data, c', None, \<lparr>rd_data = rest, rd_err = rd_err r\<rparr>)"
proof -
  have "1 \<le> length (RequestHeader_AppendBytes h [])"
    by (simp add: RequestHeader_AppendBytes_fields request_line_def Suc_le_eq)
  then obtain g' r' where g': "RequestHeader_Read g r = Ret (g', None, r')" "request_read_back h g'"
    "rd_data r' = data @ rest" "rd_err r' = rd_err r"
    using Read_loop_complete [OF assms(1,2) _ assms(3) _ assms(4), of 1] by (auto simp: RequestHeader_Read_def)
  have "rq_contentLength g' = int (length data)"
    using g'(2) assms(5,6) by (simp add: request_read_back_def)
  then have "readBody avail \<lparr>rd_data = rd_data r', rd_err = rd_err r'\<rparr> (rq_contentLength g') maxBodySize c =
      Ret (data, if length data = 0 then c else grown c (length data), None, \<lparr>rd_data = rest, rd_err = rd_err r\<rparr>)"
    using appendBodyFixedSize_spec [of "[]" "length data" avail "\<lparr>rd_data = rd_data r', rd_err = rd_err r'\<rparr>" c]
      assms(7,8) g'(3,4) by (auto simp: readBody_def)
  with g' show ?thesis by blast
qed

theorem request_message_read_back_witness:
  "\<exists>g' r' c'. RequestHeader_Read example_request
      \<lparr>rd_data = RequestHeader_AppendBytes example_request [] @ bytes_of ''hello'' @ bytes_of ''GET'', rd_err = EOF,
        br_size = 4096, br_buffered = 0, br_avail = (\<lambda>_. 7)\<rparr> = Ret (g', None, r')
    \<and> readBody (\<lambda>_. 2) \<lparr>rd_data = rd_data r', rd_err = rd_err r'\<rparr> (rq_contentLength g') 100 0 =
        Ret (bytes_of ''hello'', c', None, \<lparr>rd_data = bytes_of ''GET'', rd_err = EOF\<rparr>)"
proof -
  let ?r = "\<lparr>rd_data = RequestHeader_AppendBytes example_request [] @ bytes_of ''hello'' @ bytes_of ''GET'', rd_err = EOF,
      br_size = 4096, br_buffered = 0, br_avail = (\<lambda>_. 7)\<rparr> :: bufreader"
  note 1 = example_request_ok(2)
  have 2: "br_wf ?r" by (simp add: br_wf_def)
  have 3: "length (RequestHeader_AppendBytes example_request []) \<le> br_size ?r" by code_simp
  have 4: "rq_contentLengthBytes example_request \<noteq> []" "rq_contentLength example_request = int (length (bytes_of ''hello''))"
    by (simp_all add: example_request_def bytes_of_def)
  have 5: "length (bytes_of ''hello'') \<le> 2 ^ 31" "100 \<le> (0 :: int) \<or> int (length (bytes_of ''hello'')) \<le> 100"
    by (simp_all add: bytes_of_def)
  show ?thesis
    using request_message_read_back [OF 1 2 _ 3 4 5, of "bytes_of ''GET''" "\<lambda>_. 2" 0] by auto
qed

end
